(* ===== verification/Prelude.thy ===== *)
theory Prelude
  imports Main "HOL-Library.Word" "HOL-Library.Monad_Syntax"
begin

text \<open>
  Shared vocabulary of the development.

  \<^item> C integers of the graphics code. \<open>jint\<close> and \<open>jlong\<close> are HOL integers kept in the
    range of 32 and 64 bit two's complement; \<open>s32\<close> and \<open>s64\<close> write the wrap-around of an
    arithmetic expression. A sum, difference, product or left shift is wrapped once, at the
    end, which gives the same value as wrapping after each operator. A right shift of a
    \<open>jint\<close> is \<open>drop_bit\<close> on \<open>int\<close> (arithmetic shift), and the bitwise operators of \<open>int\<close> are
    two's complement.
  \<^item> C arrays: lists that are read and written with \<open>load\<close> and \<open>store\<close>. An access outside of
    the array is \<open>None\<close>, the undefined behaviour of C, so a theorem that a routine returns
    \<open>Some\<close> is a theorem of memory safety.
  \<^item> the locale \<open>c_array\<close>, the contract of such an array, and its interpretation on lists.
\<close>

unbundle bit_operations_syntax

named_theorems arr \<comment> \<open>rewriting of array accesses that are in range\<close>
named_theorems rng \<comment> \<open>ranges of the values that a function returns\<close>

type_synonym jint = int
type_synonym jlong = int
type_synonym jbyte = int
type_synonym byte = "8 word"
type_synonym gsize = "64 word"
type_synonym guint64 = "64 word"

section \<open>Wrap-around of signed C integers\<close>

definition s32 :: "int \<Rightarrow> jint" where
  "s32 x = signed_take_bit 31 x"

definition s64 :: "int \<Rightarrow> jlong" where
  "s64 x = signed_take_bit 63 x"

definition is_jint :: "int \<Rightarrow> bool" where
  "is_jint x \<longleftrightarrow> - (2 ^ 31) \<le> x \<and> x < 2 ^ 31"

definition is_jlong :: "int \<Rightarrow> bool" where
  "is_jlong x \<longleftrightarrow> - (2 ^ 63) \<le> x \<and> x < 2 ^ 63"

text \<open>A colour channel, an alpha value or a coverage value.\<close>

definition is_u8 :: "int \<Rightarrow> bool" where
  "is_u8 x \<longleftrightarrow> 0 \<le> x \<and> x \<le> 255"

lemma s32_eq [simp]: "- 2147483648 \<le> x \<Longrightarrow> x < 2147483648 \<Longrightarrow> s32 x = x"
  by (simp add: s32_def signed_take_bit_int_eq_self)

lemma s64_eq [simp]: "- 9223372036854775808 \<le> x \<Longrightarrow> x < 9223372036854775808 \<Longrightarrow> s64 x = x"
  by (simp add: s64_def signed_take_bit_int_eq_self)

lemma s32_is_jint [rng, simp]: "is_jint (s32 x)"
  using signed_take_bit_int_greater_eq_minus_exp [of 31 x] signed_take_bit_int_less_exp [of 31 x]
  by (simp add: s32_def is_jint_def)

lemma s32_add_left: "s32 (s32 x + y) = s32 (x + y)"
proof -
  have "s32 (s32 a + s32 b) = s32 (a + b)" for a b
    by (simp add: s32_def signed_take_bit_add)
  then show ?thesis
    by (metis s32_def signed_take_bit_signed_take_bit min.idem)
qed

lemma s32_idem: "is_jint x \<Longrightarrow> s32 x = x"
  by (simp add: is_jint_def)

lemma s64_idem: "is_jlong x \<Longrightarrow> s64 x = x"
  by (simp add: is_jlong_def)

lemma is_u8_jint: "is_u8 x \<Longrightarrow> is_jint x"
  by (simp add: is_u8_def is_jint_def)

lemma is_u8_iff: "is_u8 x \<longleftrightarrow> x \<in> {0..255}"
  by (simp add: is_u8_def)

lemma and_255 [simp]: "(x :: int) AND 255 = x mod 256"
  using take_bit_eq_mask [of 8 x] by (simp add: mask_eq_exp_minus_1 take_bit_eq_mod)

lemma and_65535 [simp]: "(x :: int) AND 65535 = x mod 65536"
  using take_bit_eq_mask [of 16 x] by (simp add: mask_eq_exp_minus_1 take_bit_eq_mod)

lemma is_u8_and_255 [rng, simp]: "is_u8 (x AND 255)"
  by (simp add: is_u8_def)

lemma div_quot:
  assumes "v = q * m + r" "0 \<le> r" "r < (m :: int)"
  shows "v div m = q"
  using assms by (intro int_div_pos_eq [where r = r]) (auto simp: mult.commute)

lemma mod_rem:
  assumes "v = q * m + r" "0 \<le> r" "r < (m :: int)"
  shows "v mod m = r"
  using assms by simp

text \<open>Bits that are or-ed below a shifted value add up.\<close>

lemma push_bit_or_low:
  assumes "0 \<le> y" "y < 2 ^ n"
  shows "push_bit n x OR y = x * 2 ^ n + (y :: int)"
proof -
  have y: "take_bit n y = y"
    using assms by (simp add: take_bit_int_eq_self)
  have "push_bit n x AND y = 0"
    by (subst y [symmetric], rule bit_eqI) (auto simp: bit_simps)
  then have "push_bit n x OR y = push_bit n x + y"
    by (simp add: disjunctive_add_eq_or [symmetric])
  then show ?thesis by (simp add: push_bit_eq_mult)
qed

section \<open>Arrays\<close>

definition load :: "'a list \<Rightarrow> int \<Rightarrow> 'a option" where
  "load xs i = (if 0 \<le> i \<and> i < int (length xs) then Some (xs ! nat i) else None)"

definition store :: "'a list \<Rightarrow> int \<Rightarrow> 'a \<Rightarrow> 'a list option" where
  "store xs i v = (if 0 \<le> i \<and> i < int (length xs) then Some (xs[nat i := v]) else None)"

definition in_arr :: "'a list \<Rightarrow> int \<Rightarrow> bool" where
  "in_arr xs i \<longleftrightarrow> 0 \<le> i \<and> i < int (length xs)"

lemma load_in [arr]: "in_arr xs i \<Longrightarrow> load xs i = Some (xs ! nat i)"
  by (simp add: load_def in_arr_def)

lemma store_in [arr]: "in_arr xs i \<Longrightarrow> store xs i v = Some (xs[nat i := v])"
  by (simp add: store_def in_arr_def)

lemma in_arr_update [simp]: "in_arr (xs[j := v]) i = in_arr xs i"
  by (simp add: in_arr_def)

lemma in_arr_nat: "in_arr xs i \<Longrightarrow> nat i < length xs"
  by (auto simp: in_arr_def)

lemma load_Some_iff: "load xs i = Some v \<longleftrightarrow> in_arr xs i \<and> xs ! nat i = v"
  by (auto simp: load_def in_arr_def)

lemma store_Some_iff: "store xs i v = Some ys \<longleftrightarrow> in_arr xs i \<and> ys = xs[nat i := v]"
  by (auto simp: store_def in_arr_def)

text \<open>The contract of a C array.\<close>

locale c_array =
  fixes ld :: "'m \<Rightarrow> int \<Rightarrow> 'v option"
    and st :: "'m \<Rightarrow> int \<Rightarrow> 'v \<Rightarrow> 'm option"
    and sz :: "'m \<Rightarrow> int"
  assumes ld_range: "ld m i \<noteq> None \<longleftrightarrow> 0 \<le> i \<and> i < sz m"
    and st_range: "st m i v \<noteq> None \<longleftrightarrow> 0 \<le> i \<and> i < sz m"
    and st_size: "st m i v = Some m' \<Longrightarrow> sz m' = sz m"
    and ld_st: "st m i v = Some m' \<Longrightarrow> ld m' j = (if j = i then Some v else ld m j)"
begin

lemma ld_same: "st m i v = Some m' \<Longrightarrow> ld m' i = Some v"
  by (simp add: ld_st)

lemma ld_frame: "st m i v = Some m' \<Longrightarrow> j \<noteq> i \<Longrightarrow> ld m' j = ld m j"
  by (simp add: ld_st)

lemma st_st_commute:
  assumes "i \<noteq> j" "st m i v = Some m1" "st m1 j w = Some m2"
  shows "\<exists>n1 n2. st m j w = Some n1 \<and> st n1 i v = Some n2 \<and> (\<forall>k. ld n2 k = ld m2 k)"
proof -
  have i: "0 \<le> i" "i < sz m" using assms(2) st_range [of m i v] by auto
  have j: "0 \<le> j" "j < sz m"
    using assms st_range [of m1 j w] st_size [of m i v m1] by auto
  obtain n1 where n1: "st m j w = Some n1" using j st_range [of m j w] by auto
  obtain n2 where n2: "st n1 i v = Some n2"
    using i n1 st_size [of m j w n1] st_range [of n1 i v] by auto
  have "\<forall>k. ld n2 k = ld m2 k"
    using assms n1 n2 by (auto simp: ld_st)
  with n1 n2 show ?thesis by blast
qed

end

interpretation list_array: c_array load store "\<lambda>xs. int (length xs)"
proof unfold_locales
  fix m m' :: "'a list" and i j v
  assume "store m i v = Some m'"
  then show "load m' j = (if j = i then Some v else load m j)"
    by (auto simp: store_Some_iff load_def in_arr_def nth_list_update)
qed (auto simp: load_def store_def split: if_splits)

end
