(* ===== verification/PiscesState.thy ===== *)
theory PiscesState
  imports Prelude
begin

text \<open>
  The data of the software renderer (\<^verbatim>\<open>native-prism-sw\<close>): \<open>Transform6\<close> (PiscesTransform.h),
  \<open>Surface\<close> (PiscesSurface.h) and \<open>Renderer\<close> (PiscesRenderer.h), with the constants of the
  headers. A field \<^verbatim>\<open>_x\<close> of the C structure is the record field \<open>r_x\<close>. A pointer to an array
  is the array itself, the empty list for \<^verbatim>\<open>NULL\<close>; \<^verbatim>\<open>_paint_length\<close> is the length of \<open>r_paint\<close>.
  A function pointer is a value of one of the datatypes \<open>bl_routine\<close>, \<open>el_routine\<close> and
  \<open>gen_routine\<close>, one constructor per C function that is ever stored in it.

  The type variable \<open>'f\<close> is the type of \<^verbatim>\<open>jfloat\<close>. Its operations are an argument (\<open>fops\<close>) of
  the routines that compute with floating point numbers, so what is proved of these routines
  holds for every rounding.
\<close>

record 'f fops =
  fadd :: "'f \<Rightarrow> 'f \<Rightarrow> 'f"
  fsub :: "'f \<Rightarrow> 'f \<Rightarrow> 'f"
  fmul :: "'f \<Rightarrow> 'f \<Rightarrow> 'f"
  fdiv :: "'f \<Rightarrow> 'f \<Rightarrow> 'f"
  fneg :: "'f \<Rightarrow> 'f"
  flt :: "'f \<Rightarrow> 'f \<Rightarrow> bool"
  fofint :: "int \<Rightarrow> 'f"
  flit :: "int \<Rightarrow> 'f" \<comment> \<open>the literal that denotes so many hundredths\<close>
  fsqrt :: "'f \<Rightarrow> 'f" \<comment> \<open>\<^verbatim>\<open>(jfloat)PISCESsqrt(x)\<close>\<close>
  ftoint :: "'f \<Rightarrow> jint"
  fsum_sqrt :: "'f \<Rightarrow> 'f \<Rightarrow> jint" \<comment> \<open>\<^verbatim>\<open>(jint)(u + PISCESsqrt(v))\<close>, computed in double\<close>

record Transform6 =
  m00 :: jint
  m01 :: jint
  m10 :: jint
  m11 :: jint
  m02 :: jint
  m12 :: jint

record Surface =
  s_width :: jint
  s_height :: jint
  s_offset :: jint
  s_scanlineStride :: jint
  s_pixelStride :: jint
  s_imageType :: jint
  s_data :: "jint list"

definition MAX_ALPHA :: int where "MAX_ALPHA = 255"

definition TYPE_INT_ARGB_PRE :: int where "TYPE_INT_ARGB_PRE = 1"

definition COMPOSITE_CLEAR :: int where "COMPOSITE_CLEAR = 0"
definition COMPOSITE_SRC :: int where "COMPOSITE_SRC = 1"
definition COMPOSITE_SRC_OVER :: int where "COMPOSITE_SRC_OVER = 2"

definition PAINT_FLAT_COLOR :: int where "PAINT_FLAT_COLOR = 0"
definition PAINT_LINEAR_GRADIENT :: int where "PAINT_LINEAR_GRADIENT = 1"
definition PAINT_RADIAL_GRADIENT :: int where "PAINT_RADIAL_GRADIENT = 2"
definition PAINT_TEXTURE8888 :: int where "PAINT_TEXTURE8888 = 4"
definition PAINT_TEXTURE8888_MULTIPLY :: int where "PAINT_TEXTURE8888_MULTIPLY = 5"

definition IMAGE_MODE_NORMAL :: int where "IMAGE_MODE_NORMAL = 1"
definition IMAGE_MODE_MULTIPLY :: int where "IMAGE_MODE_MULTIPLY = 2"

definition IMAGE_FRAC_EDGE_KEEP :: int where "IMAGE_FRAC_EDGE_KEEP = 0"
definition IMAGE_FRAC_EDGE_PAD :: int where "IMAGE_FRAC_EDGE_PAD = 1"
definition IMAGE_FRAC_EDGE_TRIM :: int where "IMAGE_FRAC_EDGE_TRIM = 2"

definition CYCLE_NONE :: int where "CYCLE_NONE = 0"
definition CYCLE_REPEAT :: int where "CYCLE_REPEAT = 1"
definition CYCLE_REFLECT :: int where "CYCLE_REFLECT = 2"

definition NO_MASK :: int where "NO_MASK = 0"
definition ALPHA_MASK :: int where "ALPHA_MASK = 1"
definition LCD_ALPHA_MASK :: int where "LCD_ALPHA_MASK = 2"

definition TEXTURE_TRANSFORM_IDENTITY :: int where "TEXTURE_TRANSFORM_IDENTITY = 1"
definition TEXTURE_TRANSFORM_TRANSLATE :: int where "TEXTURE_TRANSFORM_TRANSLATE = 2"
definition TEXTURE_TRANSFORM_SCALE_TRANSLATE :: int where
  "TEXTURE_TRANSFORM_SCALE_TRANSLATE = 3"
definition TEXTURE_TRANSFORM_GENERIC :: int where "TEXTURE_TRANSFORM_GENERIC = 4"

definition NUM_ALPHA_ROWS :: int where "NUM_ALPHA_ROWS = 8"

lemmas pisces_consts = MAX_ALPHA_def TYPE_INT_ARGB_PRE_def
  COMPOSITE_CLEAR_def COMPOSITE_SRC_def COMPOSITE_SRC_OVER_def
  PAINT_FLAT_COLOR_def PAINT_LINEAR_GRADIENT_def PAINT_RADIAL_GRADIENT_def
  PAINT_TEXTURE8888_def PAINT_TEXTURE8888_MULTIPLY_def
  IMAGE_MODE_NORMAL_def IMAGE_MODE_MULTIPLY_def
  IMAGE_FRAC_EDGE_KEEP_def IMAGE_FRAC_EDGE_PAD_def IMAGE_FRAC_EDGE_TRIM_def
  CYCLE_NONE_def CYCLE_REPEAT_def CYCLE_REFLECT_def
  NO_MASK_def ALPHA_MASK_def LCD_ALPHA_MASK_def
  TEXTURE_TRANSFORM_IDENTITY_def TEXTURE_TRANSFORM_TRANSLATE_def
  TEXTURE_TRANSFORM_SCALE_TRANSLATE_def TEXTURE_TRANSFORM_GENERIC_def
  NUM_ALPHA_ROWS_def

datatype bl_routine =
    BlitSrcOver | BlitPTSrcOver | BlitSrc | BlitPTSrc
  | BlitSrcOverMask | BlitPTSrcOverMask | BlitSrcMask | BlitPTSrcMask
  | BlitSrcOverLCDMask

datatype el_routine =
    EmitLineSource | EmitLineSourceOver | EmitLinePTSource | EmitLinePTSourceOver

datatype gen_routine =
    GenLinearGradientPaint | GenRadialGradientPaint | GenTexturePaint | GenTexturePaintMultiply

record 'f Renderer =
  r_paintMode :: jint
  r_prevPaintMode :: jint
  r_ured :: jint
  r_ugreen :: jint
  r_ublue :: jint
  r_ualpha :: jint
  r_cred :: jint
  r_cgreen :: jint
  r_cblue :: jint
  r_calpha :: jint
  r_compositeRule :: jint
  r_surface :: Surface
  r_data :: "jint list"
  r_width :: jint
  r_height :: jint
  r_imageOffset :: jint
  r_imageScanlineStride :: jint
  r_imagePixelStride :: jint
  r_imageType :: jint
  r_bl_SourceOverMask :: "bl_routine option"
  r_bl_PT_SourceOverMask :: "bl_routine option"
  r_bl_SourceMask :: "bl_routine option"
  r_bl_PT_SourceMask :: "bl_routine option"
  r_bl_SourceOverLCDMask :: "bl_routine option"
  r_bl_PT_SourceOverLCDMask :: "bl_routine option"
  r_bl_SourceLCDMask :: "bl_routine option"
  r_bl_PT_SourceLCDMask :: "bl_routine option"
  r_bl_SourceOverNoMask :: "bl_routine option"
  r_bl_PT_SourceOverNoMask :: "bl_routine option"
  r_bl_SourceNoMask :: "bl_routine option"
  r_bl_PT_SourceNoMask :: "bl_routine option"
  r_bl_SourceOver :: "bl_routine option"
  r_bl_PT_SourceOver :: "bl_routine option"
  r_bl_Source :: "bl_routine option"
  r_bl_PT_Source :: "bl_routine option"
  r_el_Source :: "el_routine option"
  r_el_SourceOver :: "el_routine option"
  r_el_PT_Source :: "el_routine option"
  r_el_PT_SourceOver :: "el_routine option"
  r_bl_Clear :: "bl_routine option"
  r_bl_PT_Clear :: "bl_routine option"
  r_bl :: "bl_routine option"
  r_bl_PT :: "bl_routine option"
  r_el :: "el_routine option"
  r_el_PT :: "el_routine option"
  r_clearRect :: bool \<comment> \<open>\<^verbatim>\<open>clearRect8888_any\<close> is the only routine; \<open>False\<close> is \<^verbatim>\<open>NULL\<close>\<close>
  r_emitRows :: "bl_routine option"
  r_emitLine :: "el_routine option"
  r_genPaint :: "gen_routine option"
  r_rowNum :: jint
  r_alphaWidth :: jint
  r_minTouched :: jint
  r_maxTouched :: jint
  r_currX :: jint
  r_currY :: jint
  r_currImageOffset :: jint
  r_alphaMap :: "jbyte list"
  r_rowAAInt :: "jint list"
  r_rectX :: jint
  r_rectY :: jint
  r_mask_free :: bool
  r_maskType :: jint
  r_mask_byteData :: "jbyte list"
  r_maskOffset :: jint
  r_mask_width :: jint
  r_mask_height :: jint
  r_paint :: "jint list"
  r_lg_mx :: 'f
  r_lg_my :: 'f
  r_lg_b :: 'f
  r_rg_a00 :: 'f
  r_rg_a01 :: 'f
  r_rg_a02 :: 'f
  r_rg_a10 :: 'f
  r_rg_a11 :: 'f
  r_rg_a12 :: 'f
  r_rg_cx :: 'f
  r_rg_cy :: 'f
  r_rg_fx :: 'f
  r_rg_fy :: 'f
  r_rg_r :: 'f
  r_rg_rsq :: 'f
  r_rg_a00a00 :: 'f
  r_rg_a10a10 :: 'f
  r_rg_a00a10 :: 'f
  r_gradient_colors :: "jint list"
  r_gradient_cycleMethod :: jint
  r_texture_intData :: "jint list"
  r_texture_hasAlpha :: bool
  r_texture_imageWidth :: jint
  r_texture_imageHeight :: jint
  r_texture_stride :: jint
  r_texture_txMin :: jint
  r_texture_tyMin :: jint
  r_texture_txMax :: jint
  r_texture_tyMax :: jint
  r_texture_repeat :: bool
  r_texture_m00 :: jlong
  r_texture_m01 :: jlong
  r_texture_m02 :: jlong
  r_texture_m10 :: jlong
  r_texture_m11 :: jlong
  r_texture_m12 :: jlong
  r_texture_interpolate :: bool
  r_texture_transformType :: jint
  r_texture_free :: bool
  r_clip_bbMinX :: jint
  r_clip_bbMinY :: jint
  r_clip_bbMaxX :: jint
  r_clip_bbMaxY :: jint
  r_el_lfrac :: jint
  r_el_rfrac :: jint
  r_rendererState :: jint

text \<open>The structure as \<^verbatim>\<open>my_malloc(Renderer, 1)\<close> (a \<^verbatim>\<open>calloc\<close>) returns it, with its surface set. \<open>z\<close> is the
  floating point number of all zero bits.\<close>

definition zero_Renderer :: "'f \<Rightarrow> Surface \<Rightarrow> 'f Renderer" where
  "zero_Renderer z sf = \<lparr>
    r_paintMode = 0, r_prevPaintMode = 0, r_ured = 0, r_ugreen = 0, r_ublue = 0, r_ualpha = 0,
    r_cred = 0, r_cgreen = 0, r_cblue = 0, r_calpha = 0, r_compositeRule = 0, r_surface = sf,
    r_data = [], r_width = 0, r_height = 0, r_imageOffset = 0, r_imageScanlineStride = 0,
    r_imagePixelStride = 0, r_imageType = 0, r_bl_SourceOverMask = None,
    r_bl_PT_SourceOverMask = None, r_bl_SourceMask = None, r_bl_PT_SourceMask = None,
    r_bl_SourceOverLCDMask = None, r_bl_PT_SourceOverLCDMask = None, r_bl_SourceLCDMask = None,
    r_bl_PT_SourceLCDMask = None, r_bl_SourceOverNoMask = None, r_bl_PT_SourceOverNoMask = None,
    r_bl_SourceNoMask = None, r_bl_PT_SourceNoMask = None, r_bl_SourceOver = None,
    r_bl_PT_SourceOver = None, r_bl_Source = None, r_bl_PT_Source = None, r_el_Source = None,
    r_el_SourceOver = None, r_el_PT_Source = None, r_el_PT_SourceOver = None, r_bl_Clear = None,
    r_bl_PT_Clear = None, r_bl = None, r_bl_PT = None, r_el = None, r_el_PT = None,
    r_clearRect = False, r_emitRows = None, r_emitLine = None, r_genPaint = None, r_rowNum = 0,
    r_alphaWidth = 0, r_minTouched = 0, r_maxTouched = 0, r_currX = 0, r_currY = 0,
    r_currImageOffset = 0, r_alphaMap = [], r_rowAAInt = [], r_rectX = 0, r_rectY = 0,
    r_mask_free = False, r_maskType = 0, r_mask_byteData = [], r_maskOffset = 0,
    r_mask_width = 0, r_mask_height = 0, r_paint = [], r_lg_mx = z, r_lg_my = z, r_lg_b = z,
    r_rg_a00 = z, r_rg_a01 = z, r_rg_a02 = z, r_rg_a10 = z, r_rg_a11 = z, r_rg_a12 = z,
    r_rg_cx = z, r_rg_cy = z, r_rg_fx = z, r_rg_fy = z, r_rg_r = z, r_rg_rsq = z,
    r_rg_a00a00 = z, r_rg_a10a10 = z, r_rg_a00a10 = z, r_gradient_colors = replicate 256 0,
    r_gradient_cycleMethod = 0, r_texture_intData = [], r_texture_hasAlpha = False,
    r_texture_imageWidth = 0, r_texture_imageHeight = 0, r_texture_stride = 0,
    r_texture_txMin = 0, r_texture_tyMin = 0, r_texture_txMax = 0, r_texture_tyMax = 0,
    r_texture_repeat = False, r_texture_m00 = 0, r_texture_m01 = 0, r_texture_m02 = 0,
    r_texture_m10 = 0, r_texture_m11 = 0, r_texture_m12 = 0, r_texture_interpolate = False,
    r_texture_transformType = 0, r_texture_free = False, r_clip_bbMinX = 0, r_clip_bbMinY = 0,
    r_clip_bbMaxX = 0, r_clip_bbMaxY = 0, r_el_lfrac = 0, r_el_rfrac = 0, r_rendererState = 0\<rparr>"

end
