(* ===== verification/PiscesColor.thy ===== *)
theory PiscesColor
  imports PiscesState
begin

text \<open>
  Pixel arithmetic of \<^verbatim>\<open>PiscesBlit.c\<close>: the division by 255, the channels of a packed pixel and
  the blending functions. The C blending functions update the pixel that \<^verbatim>\<open>intData\<close> points to;
  here each one maps the old pixel to the new one. \<open>argb\<close> is the expression
  \<^verbatim>\<open>(a << 24) | (r << 16) | (g << 8) | b\<close> that all of them end with.

  Proved: the division is exact on the range it is used on, packing and unpacking are inverse,
  the source-over blends compute the Porter-Duff interpolation channel by channel, stay inside of
  a channel and keep pixels premultiplied.
\<close>

section \<open>Definitions\<close>

definition div255 :: "jint \<Rightarrow> jint" where
  "div255 x = drop_bit 16 (s32 (x * 257 + 257))"

definition ch_A :: "jint \<Rightarrow> jint" where "ch_A x = drop_bit 24 x AND 255"
definition ch_R :: "jint \<Rightarrow> jint" where "ch_R x = drop_bit 16 x AND 255"
definition ch_G :: "jint \<Rightarrow> jint" where "ch_G x = drop_bit 8 x AND 255"
definition ch_B :: "jint \<Rightarrow> jint" where "ch_B x = x AND 255"

definition argb :: "jint \<Rightarrow> jint \<Rightarrow> jint \<Rightarrow> jint \<Rightarrow> jint" where
  "argb a r g b = s32 (push_bit 24 a OR push_bit 16 r OR push_bit 8 g OR b)"

definition blendSrcOver8888_pre :: "jint \<Rightarrow> jint \<Rightarrow> jint \<Rightarrow> jint \<Rightarrow> jint \<Rightarrow> jint" where
  "blendSrcOver8888_pre ival aval sred sgreen sblue =
     (let dalpha = drop_bit 24 ival AND 255;
          dred = drop_bit 16 ival AND 255;
          dgreen = drop_bit 8 ival AND 255;
          dblue = ival AND 255;
          oneminusaval = s32 (255 - aval);
          oalpha = div255 (s32 (255 * aval + oneminusaval * dalpha));
          ored = div255 (s32 (sred * aval + oneminusaval * dred));
          ogreen = div255 (s32 (sgreen * aval + oneminusaval * dgreen));
          oblue = div255 (s32 (sblue * aval + oneminusaval * dblue))
      in argb oalpha ored ogreen oblue)"

definition blendSrcOver8888_pre_pre ::
  "jint \<Rightarrow> jint \<Rightarrow> jint \<Rightarrow> jint \<Rightarrow> jint \<Rightarrow> jint \<Rightarrow> jint" where
  "blendSrcOver8888_pre_pre ival frac aval sred sgreen sblue =
     (let dalpha = drop_bit 24 ival AND 255;
          dred = drop_bit 16 ival AND 255;
          dgreen = drop_bit 8 ival AND 255;
          dblue = ival AND 255;
          aval2 = drop_bit 8 (s32 (aval * frac));
          oneminusaval = s32 (255 - aval2);
          oalpha = s32 (aval2 + div255 (s32 (oneminusaval * dalpha)));
          ored = s32 (drop_bit 8 (s32 (sred * frac)) + div255 (s32 (oneminusaval * dred)));
          ogreen = s32 (drop_bit 8 (s32 (sgreen * frac)) + div255 (s32 (oneminusaval * dgreen)));
          oblue = s32 (drop_bit 8 (s32 (sblue * frac)) + div255 (s32 (oneminusaval * dblue)))
      in argb oalpha ored ogreen oblue)"

definition blendSrcOver8888_pre_pre_fullFrac ::
  "jint \<Rightarrow> jint \<Rightarrow> jint \<Rightarrow> jint \<Rightarrow> jint \<Rightarrow> jint" where
  "blendSrcOver8888_pre_pre_fullFrac ival aval sred sgreen sblue =
     (let dalpha = drop_bit 24 ival AND 255;
          dred = drop_bit 16 ival AND 255;
          dgreen = drop_bit 8 ival AND 255;
          dblue = ival AND 255;
          oneminusaval = s32 (255 - aval);
          oalpha = s32 (aval + div255 (s32 (oneminusaval * dalpha)));
          ored = s32 (sred + div255 (s32 (oneminusaval * dred)));
          ogreen = s32 (sgreen + div255 (s32 (oneminusaval * dgreen)));
          oblue = s32 (sblue + div255 (s32 (oneminusaval * dblue)))
      in argb oalpha ored ogreen oblue)"

text \<open>\<open>gam\<close> and \<open>invgam\<close> are the tables \<^verbatim>\<open>gammaArray\<close> and \<^verbatim>\<open>invGammaArray\<close>; an index outside of them
  is \<open>None\<close>.\<close>

definition blendLCDSrcOver8888_pre ::
  "jint list \<Rightarrow> jint list \<Rightarrow> jint \<Rightarrow> jint \<Rightarrow> jint \<Rightarrow> jint \<Rightarrow> jint \<Rightarrow> jint \<Rightarrow> jint \<Rightarrow> jint option" where
  "blendLCDSrcOver8888_pre gam invgam ival ared agreen ablue sred sgreen sblue = do {
     dred \<leftarrow> load invgam (drop_bit 16 ival AND 255);
     dgreen \<leftarrow> load invgam (drop_bit 8 ival AND 255);
     dblue \<leftarrow> load invgam (ival AND 255);
     ored \<leftarrow> load gam (div255 (s32 (ared * sred + (255 - ared) * dred)));
     ogreen \<leftarrow> load gam (div255 (s32 (agreen * sgreen + (255 - agreen) * dgreen)));
     oblue \<leftarrow> load gam (div255 (s32 (ablue * sblue + (255 - ablue) * dblue)));
     Some (argb 255 ored ogreen oblue) }"

definition blendSrc8888_pre :: "jint \<Rightarrow> jint \<Rightarrow> jint \<Rightarrow> jint \<Rightarrow> jint \<Rightarrow> jint \<Rightarrow> jint" where
  "blendSrc8888_pre ival aval raaval sred sgreen sblue =
     (let dalpha = drop_bit 24 ival AND 255;
          dred = drop_bit 16 ival AND 255;
          dgreen = drop_bit 8 ival AND 255;
          dblue = ival AND 255;
          denom = s32 (255 * aval + dalpha * raaval)
      in if denom = 0 then 0
         else argb (div255 denom)
                (div255 (s32 (aval * sred + raaval * dred)))
                (div255 (s32 (aval * sgreen + raaval * dgreen)))
                (div255 (s32 (aval * sblue + raaval * dblue))))"

definition blendSrc8888_pre_pre :: "jint \<Rightarrow> jint \<Rightarrow> jint \<Rightarrow> jint \<Rightarrow> jint \<Rightarrow> jint \<Rightarrow> jint" where
  "blendSrc8888_pre_pre ival aval raaval sred sgreen sblue =
     (let dalpha = drop_bit 24 ival AND 255;
          dred = drop_bit 16 ival AND 255;
          dgreen = drop_bit 8 ival AND 255;
          dblue = ival AND 255;
          denom = s32 (255 * aval + dalpha * raaval)
      in if denom = 0 then 0
         else argb (div255 denom)
                (s32 (sred + div255 (s32 (raaval * dred))))
                (s32 (sgreen + div255 (s32 (raaval * dgreen))))
                (s32 (sblue + div255 (s32 (raaval * dblue)))))"

text \<open>A pixel whose colour channels do not exceed its alpha, as a premultiplied surface holds.\<close>

definition premul :: "jint \<Rightarrow> bool" where
  "premul p \<longleftrightarrow> ch_R p \<le> ch_A p \<and> ch_G p \<le> ch_A p \<and> ch_B p \<le> ch_A p"

text \<open>The reference: interpolation of one channel with weight \<open>a/255\<close>, rounded down.\<close>

definition over_ch :: "int \<Rightarrow> int \<Rightarrow> int \<Rightarrow> int" where
  "over_ch a s d = (s * a + (255 - a) * d) div 255"

text \<open>A product with a fraction of 256, rounded down.\<close>

definition scale256 :: "int \<Rightarrow> int \<Rightarrow> int" where
  "scale256 s f = s * f div 256"

text \<open>What the premultiplied source-over computes: \<open>s\<close> plus the rest of \<open>d\<close>.\<close>

definition under_ch :: "int \<Rightarrow> int \<Rightarrow> int \<Rightarrow> int" where
  "under_ch a s d = s + (255 - a) * d div 255"

text \<open>A weighted mean of two channels.\<close>

definition mix_ch :: "int \<Rightarrow> int \<Rightarrow> int \<Rightarrow> int \<Rightarrow> int" where
  "mix_ch u v s d = (u * s + v * d) div 255"

section \<open>Division by 255\<close>

lemma div255_exact:
  assumes "0 \<le> x" "x \<le> 65535"
  shows "div255 x = x div 255"
proof -
  define k where "k = x div 255"
  define r where "r = x mod 255"
  have x: "x = 255 * k + r" and r: "0 \<le> r" "r < 255" and k: "0 \<le> k" "k \<le> 257"
    using assms by (auto simp: k_def r_def)
  have "(x * 257 + 257) div 65536 = k"
    using x r k by (intro div_quot [where r = "257 * r + 257 - k"]) linarith+
  then show ?thesis
    using assms by (simp add: div255_def drop_bit_eq_div k_def)
qed

section \<open>Channels\<close>

lemmas ch_defs = ch_A_def ch_R_def ch_G_def ch_B_def

lemma ch_u8 [rng, simp]: "is_u8 (ch_A p)" "is_u8 (ch_R p)" "is_u8 (ch_G p)" "is_u8 (ch_B p)"
  unfolding ch_defs by (rule is_u8_and_255)+

lemma drop_s32_byte: "k \<le> 24 \<Longrightarrow> drop_bit k (s32 v) AND 255 = drop_bit k v AND (255 :: int)"
proof -
  assume k: "k \<le> 24"
  have "take_bit 8 (drop_bit k (s32 v)) = take_bit 8 (drop_bit k v)"
  proof (rule bit_eqI)
    fix n
    have "n < 8 \<Longrightarrow> min 31 (k + n) = k + n" using k by simp
    then show "bit (take_bit 8 (drop_bit k (s32 v))) n \<longleftrightarrow> bit (take_bit 8 (drop_bit k v)) n"
      by (auto simp: s32_def bit_take_bit_iff bit_drop_bit_eq bit_signed_take_bit_iff)
  qed
  then show ?thesis by (simp add: take_bit_eq_mod)
qed

lemma byte_at:
  "drop_bit 24 v AND 255 = (v div 16777216) mod (256 :: int)"
  "drop_bit 16 v AND 255 = (v div 65536) mod (256 :: int)"
  "drop_bit 8 v AND 255 = (v div 256) mod (256 :: int)"
  by (simp_all add: drop_bit_eq_div)

lemma ch_s32:
  "ch_A (s32 v) = (v div 16777216) mod 256" "ch_R (s32 v) = (v div 65536) mod 256"
  "ch_G (s32 v) = (v div 256) mod 256" "ch_B (s32 v) = v mod 256"
proof -
  have "s32 v AND 255 = v AND 255" using drop_s32_byte [of 0 v] by (simp only: drop_bit_0 id_apply zero_le)
  then show "ch_B (s32 v) = v mod 256" by (simp only: ch_B_def and_255)
qed (unfold ch_defs byte_at [symmetric], (rule drop_s32_byte, simp)+)

lemma argb_sum:
  assumes "is_u8 r" "is_u8 g" "is_u8 b"
  shows "argb a r g b = s32 (a * 16777216 + (r * 65536 + (g * 256 + b)))"
proof -
  have "push_bit 8 g OR b = g * 256 + b"
    using push_bit_or_low [of b 8 g] assms by (simp add: is_u8_def)
  moreover have "push_bit 16 r OR (g * 256 + b) = r * 65536 + (g * 256 + b)"
    using push_bit_or_low [of "g * 256 + b" 16 r] assms by (simp add: is_u8_def)
  moreover have "push_bit 24 a OR (r * 65536 + (g * 256 + b)) = a * 16777216 + (r * 65536 + (g * 256 + b))"
    using push_bit_or_low [of "r * 65536 + (g * 256 + b)" 24 a] assms by (simp add: is_u8_def)
  ultimately show ?thesis by (simp add: argb_def)
qed

lemma argb_channels [simp]:
  assumes "is_u8 a" "is_u8 r" "is_u8 g" "is_u8 b"
  shows "ch_A (argb a r g b) = a" "ch_R (argb a r g b) = r"
    "ch_G (argb a r g b) = g" "ch_B (argb a r g b) = b"
proof -
  let ?v = "a * 16777216 + (r * 65536 + (g * 256 + b))"
  have ranges: "0 \<le> a" "a \<le> 255" "0 \<le> r" "r \<le> 255" "0 \<le> g" "g \<le> 255" "0 \<le> b" "b \<le> 255"
    using assms by (auto simp: is_u8_def)
  have p: "argb a r g b = s32 ?v" using assms by (simp add: argb_sum)
  note ch = ch_s32 [of ?v]
  have dA: "?v div 16777216 = a"
    by (rule div_quot [where r = "r * 65536 + (g * 256 + b)"]) (use ranges in linarith)+
  have dR: "?v div 65536 = a * 256 + r"
    by (rule div_quot [where r = "g * 256 + b"]) (use ranges in \<open>simp_all add: algebra_simps\<close>)
  have dG: "?v div 256 = (a * 256 + r) * 256 + g"
    by (rule div_quot [where r = b]) (use ranges in \<open>simp_all add: algebra_simps\<close>)
  have dB: "?v = ((a * 256 + r) * 256 + g) * 256 + b" by simp
  show "ch_A (argb a r g b) = a"
    unfolding p ch dA using ranges by simp
  show "ch_R (argb a r g b) = r"
    unfolding p ch dR by (rule mod_rem [where q = a]) (use ranges in simp_all)
  show "ch_G (argb a r g b) = g"
    unfolding p ch dG by (rule mod_rem [where q = "a * 256 + r"]) (use ranges in simp_all)
  show "ch_B (argb a r g b) = b"
    unfolding p ch
    by (rule mod_rem [where q = "(a * 256 + r) * 256 + g"]) (use ranges in simp_all)
qed

lemma s32_mod: "s32 (x mod 4294967296) = s32 x"
proof -
  have "signed_take_bit 31 (take_bit 32 x) = signed_take_bit 31 x"
    by (rule signed_take_bit_take_bit [THEN trans]) simp
  then show ?thesis by (simp add: s32_def take_bit_eq_mod)
qed

lemma argb_of_channels:
  assumes "is_jint p"
  shows "argb (ch_A p) (ch_R p) (ch_G p) (ch_B p) = p"
proof -
  define q where "q = p mod 4294967296"
  have s: "s32 q = p" using assms by (simp add: q_def s32_mod s32_idem)
  have q: "0 \<le> q" "q < 4294967296" by (simp_all add: q_def)
  define t1 t2 t3 where "t1 = q div 256" and "t2 = t1 div 256" and "t3 = t2 div 256"
  have t: "q div 256 = t1" "q div 65536 = t2" "q div 16777216 = t3"
    by (simp_all add: t1_def t2_def t3_def zdiv_zmult2_eq [symmetric])
  have "0 \<le> t3" "t3 < 256"
    using q unfolding t [symmetric] by (simp_all add: pos_imp_zdiv_nonneg_iff)
  then have t3: "t3 mod 256 = t3" by (rule mod_pos_pos_trivial)
  have e: "t1 * 256 + q mod 256 = q" "t2 * 256 + t1 mod 256 = t1" "t3 * 256 + t2 mod 256 = t2"
    unfolding t1_def t2_def t3_def by (rule div_mult_mod_eq)+
  have "t3 * 16777216 + (x * 65536 + (y * 256 + z)) = q"
    if "t1 * 256 + z = q" "t2 * 256 + y = t1" "t3 * 256 + x = t2" for x y z
    using that by linarith
  from this [OF e] have "q = (q div 16777216) mod 256 * 16777216 + ((q div 65536) mod 256 * 65536 + ((q div 256) mod 256 * 256 + q mod 256))"
    unfolding t t3 by (rule sym)
  moreover have "argb (ch_A p) (ch_R p) (ch_G p) (ch_B p) =
      s32 (ch_A p * 16777216 + (ch_R p * 65536 + (ch_G p * 256 + ch_B p)))"
    by (simp add: argb_sum)
  ultimately show ?thesis
    using ch_s32 [of q] s by metis
qed

lemma argb_is_jint [rng, simp]: "is_jint (argb a r g b)"
  by (simp add: argb_def)

section \<open>Interpolation of one channel\<close>

lemma lerp_mono:
  assumes "is_u8 a" "s \<le> t" "d \<le> e"
  shows "s * a + (255 - a) * d \<le> t * a + (255 - a) * e"
  using assms by (intro add_mono mult_right_mono mult_left_mono) (auto simp: is_u8_def)

lemma lerp_range:
  assumes "is_u8 a" "is_u8 s" "is_u8 d"
  shows "0 \<le> s * a + (255 - a) * d" "s * a + (255 - a) * d \<le> 65025"
  using lerp_mono [of a 0 s 0 d] lerp_mono [of a s 255 d 255] assms
  by (auto simp: is_u8_def algebra_simps)

lemma over_ch_u8 [rng]:
  assumes "is_u8 a" "is_u8 s" "is_u8 d"
  shows "is_u8 (over_ch a s d)"
  using lerp_range [OF assms] by (simp add: over_ch_def is_u8_def pos_imp_zdiv_nonneg_iff)

lemma over_ch_mono:
  assumes "is_u8 a" "s \<le> t" "d \<le> e"
  shows "over_ch a s d \<le> over_ch a t e"
  unfolding over_ch_def by (rule zdiv_mono1) (use lerp_mono [OF assms] in simp_all)

lemma div255_lerp:
  assumes "is_u8 a" "is_u8 s" "is_u8 d"
  shows "div255 (s32 (s * a + s32 (255 - a) * d)) = over_ch a s d"
proof -
  have "s32 (255 - a) = 255 - a" using assms by (simp add: is_u8_def)
  moreover have "s32 (s * a + (255 - a) * d) = s * a + (255 - a) * d"
    using lerp_range [OF assms] by simp
  ultimately show ?thesis
    using lerp_range [OF assms] by (simp add: div255_exact over_ch_def)
qed

lemma over_ch_between:
  assumes "is_u8 a"
  shows "min s d \<le> over_ch a s d" "over_ch a s d \<le> max s d"
proof -
  have "over_ch a x x = x" for x by (simp add: over_ch_def algebra_simps)
  then show "min s d \<le> over_ch a s d" "over_ch a s d \<le> max s d"
    using over_ch_mono [OF assms, of "min s d" s "min s d" d]
      over_ch_mono [OF assms, of s "max s d" d "max s d"] by auto
qed

lemma over_ch_simps [simp]: "over_ch 0 s d = d" "over_ch 255 s d = s"
  by (simp_all add: over_ch_def)

section \<open>Source over, flat colour\<close>

lemma blendSrcOver8888_pre_eq:
  assumes "is_u8 aval" "is_u8 sr" "is_u8 sg" "is_u8 sb"
  shows "blendSrcOver8888_pre p aval sr sg sb =
    argb (over_ch aval 255 (ch_A p)) (over_ch aval sr (ch_R p))
      (over_ch aval sg (ch_G p)) (over_ch aval sb (ch_B p))"
proof -
  have u: "is_u8 255" by (simp add: is_u8_def)
  show ?thesis
    unfolding blendSrcOver8888_pre_def Let_def ch_defs
    using assms u by (simp only: div255_lerp is_u8_and_255)
qed

lemma premul_argb:
  "is_u8 a \<Longrightarrow> is_u8 r \<Longrightarrow> is_u8 g \<Longrightarrow> is_u8 b \<Longrightarrow>
   premul (argb a r g b) \<longleftrightarrow> r \<le> a \<and> g \<le> a \<and> b \<le> a"
  by (simp add: premul_def)

lemma blendSrcOver8888_pre_premul:
  assumes "is_u8 aval" "is_u8 sr" "is_u8 sg" "is_u8 sb" "premul p"
  shows "premul (blendSrcOver8888_pre p aval sr sg sb)"
  using assms over_ch_mono [OF assms(1)]
  by (simp add: blendSrcOver8888_pre_eq premul_argb over_ch_u8 is_u8_def [of 255])
    (simp add: premul_def is_u8_def)

section \<open>Source over, premultiplied source\<close>

lemma scale256_le: "0 \<le> s \<Longrightarrow> f \<le> 256 \<Longrightarrow> scale256 s f \<le> s"
  unfolding scale256_def using zdiv_mono1 [of "s * f" "s * 256" 256] mult_left_mono [of f 256 s]
  by simp

lemma scale256_nonneg: "0 \<le> s \<Longrightarrow> 0 \<le> f \<Longrightarrow> 0 \<le> scale256 s f"
  unfolding scale256_def by (simp add: pos_imp_zdiv_nonneg_iff)

lemma scale256_mono: "s \<le> t \<Longrightarrow> 0 \<le> f \<Longrightarrow> scale256 s f \<le> scale256 t f"
  unfolding scale256_def by (intro zdiv_mono1 mult_right_mono) auto

lemma scale256_u8: "is_u8 s \<Longrightarrow> 0 \<le> f \<Longrightarrow> f \<le> 256 \<Longrightarrow> is_u8 (scale256 s f)"
  using scale256_le [of s f] scale256_nonneg [of s f] by (simp add: is_u8_def)

lemma drop8_scale256:
  assumes "is_u8 s" "0 \<le> f" "f \<le> 256"
  shows "drop_bit 8 (s32 (s * f)) = scale256 s f"
proof -
  have "0 \<le> s * f" "s * f \<le> 255 * 256"
    using assms mult_mono [of s 255 f 256] by (auto simp: is_u8_def)
  then show ?thesis by (simp add: drop_bit_eq_div scale256_def)
qed

lemma under_ch_mono: "a \<le> 255 \<Longrightarrow> s \<le> t \<Longrightarrow> d \<le> e \<Longrightarrow> under_ch a s d \<le> under_ch a t e"
  unfolding under_ch_def by (intro add_mono zdiv_mono1 mult_left_mono) auto

lemma under_ch_u8:
  assumes "is_u8 a" "0 \<le> s" "s \<le> a" "is_u8 d"
  shows "is_u8 (under_ch a s d)"
proof -
  have "under_ch a s d \<le> under_ch a a 255"
    using assms by (intro under_ch_mono) (auto simp: is_u8_def)
  also have "\<dots> = 255" by (simp add: under_ch_def)
  finally show ?thesis
    using assms by (simp add: is_u8_def under_ch_def pos_imp_zdiv_nonneg_iff)
qed

lemma s32_under:
  assumes "is_u8 a" "0 \<le> s" "s \<le> a" "is_u8 d"
  shows "s32 (s + div255 (s32 (s32 (255 - a) * d))) = under_ch a s d"
proof -
  have r: "0 \<le> (255 - a) * d" "(255 - a) * d \<le> 255 * 255"
    using assms mult_mono [of "255 - a" 255 d 255] by (auto simp: is_u8_def)
  have "s32 (255 - a) = 255 - a" using assms by (simp add: is_u8_def)
  moreover have "s32 ((255 - a) * d) = (255 - a) * d"
    by (rule s32_eq) (use r in linarith)+
  ultimately have "s + div255 (s32 (s32 (255 - a) * d)) = under_ch a s d"
    using r by (simp add: div255_exact under_ch_def)
  then show ?thesis
    using under_ch_u8 [OF assms] by (simp add: is_u8_def)
qed

lemma blendSrcOver8888_pre_pre_eq:
  assumes "0 \<le> frac" "frac \<le> 256" "is_u8 aval"
    and "0 \<le> sr" "sr \<le> aval" "0 \<le> sg" "sg \<le> aval" "0 \<le> sb" "sb \<le> aval"
  shows "blendSrcOver8888_pre_pre p frac aval sr sg sb =
    (let a = scale256 aval frac in
     argb (under_ch a a (ch_A p)) (under_ch a (scale256 sr frac) (ch_R p))
       (under_ch a (scale256 sg frac) (ch_G p)) (under_ch a (scale256 sb frac) (ch_B p)))"
proof -
  have u: "is_u8 sr" "is_u8 sg" "is_u8 sb" using assms by (auto simp: is_u8_def)
  have a: "is_u8 (scale256 aval frac)" "0 \<le> scale256 aval frac"
    using assms scale256_u8 [of aval frac] by (simp_all add: is_u8_def)
  have s: "0 \<le> scale256 x frac \<and> scale256 x frac \<le> scale256 aval frac" if "0 \<le> x" "x \<le> aval" for x
    using assms that by (simp add: scale256_mono scale256_nonneg)
  show ?thesis
    unfolding blendSrcOver8888_pre_pre_def Let_def ch_defs
    using assms u a s [of sr] s [of sg] s [of sb]
    by (simp only: drop8_scale256 s32_under is_u8_and_255 order_refl)
qed

lemma blendSrcOver8888_pre_pre_premul:
  assumes "0 \<le> frac" "frac \<le> 256" "premul src" "premul p"
  shows "premul (blendSrcOver8888_pre_pre p frac (ch_A src) (ch_R src) (ch_G src) (ch_B src))"
proof -
  let ?a = "scale256 (ch_A src) frac"
  have c: "0 \<le> ch_R src" "0 \<le> ch_G src" "0 \<le> ch_B src" "0 \<le> ch_A src"
    using ch_u8 [of src] by (auto simp: is_u8_def)
  have a: "is_u8 ?a" "0 \<le> ?a" "?a \<le> 255"
    using assms c scale256_u8 [of "ch_A src" frac] by (auto simp: is_u8_def [of ?a])
  have s: "0 \<le> scale256 x frac \<and> scale256 x frac \<le> ?a" if "0 \<le> x" "x \<le> ch_A src" for x
    using assms that by (simp add: scale256_mono scale256_nonneg)
  have "is_u8 (under_ch ?a (scale256 x frac) d) \<and> under_ch ?a (scale256 x frac) d \<le> under_ch ?a ?a (ch_A p)"
    if "0 \<le> x" "x \<le> ch_A src" "is_u8 d" "d \<le> ch_A p" for x d
    using that s [of x] a by (simp add: under_ch_u8 under_ch_mono)
  moreover have "is_u8 (under_ch ?a ?a (ch_A p))" using a by (simp add: under_ch_u8)
  ultimately show ?thesis
    using assms(1,2) assms(3,4)[unfolded premul_def] c
    by (simp add: blendSrcOver8888_pre_pre_eq Let_def premul_argb)
qed

text \<open>At full fraction the routine is the specialised one.\<close>

lemma blendSrcOver8888_pre_pre_full:
  assumes "is_u8 aval" "is_u8 sr" "is_u8 sg" "is_u8 sb"
  shows "blendSrcOver8888_pre_pre p 256 aval sr sg sb =
    blendSrcOver8888_pre_pre_fullFrac p aval sr sg sb"
proof -
  have "drop_bit 8 (s32 (x * 256)) = x" if "is_u8 x" for x
    using that by (simp add: drop8_scale256 scale256_def)
  then show ?thesis
    using assms by (simp add: blendSrcOver8888_pre_pre_def blendSrcOver8888_pre_pre_fullFrac_def Let_def)
qed

section \<open>Source\<close>

lemma mix_range:
  assumes "is_u8 u" "is_u8 v" "u + v \<le> 255" "is_u8 s" "is_u8 d"
  shows "0 \<le> u * s + v * d" "u * s + v * d \<le> 65025"
proof -
  show "0 \<le> u * s + v * d" using assms by (simp add: is_u8_def)
  have "u * s + v * d \<le> u * 255 + v * 255"
    using assms by (intro add_mono mult_left_mono) (auto simp: is_u8_def)
  then show "u * s + v * d \<le> 65025" using assms(3) by linarith
qed

lemma mix_ch_u8:
  assumes "is_u8 u" "is_u8 v" "u + v \<le> 255" "is_u8 s" "is_u8 d"
  shows "is_u8 (mix_ch u v s d)"
  using mix_range [OF assms] by (simp add: mix_ch_def is_u8_def pos_imp_zdiv_nonneg_iff)

lemma mix_ch_mono:
  assumes "is_u8 u" "is_u8 v" "s \<le> t" "d \<le> e"
  shows "mix_ch u v s d \<le> mix_ch u v t e"
  unfolding mix_ch_def using assms
  by (intro zdiv_mono1 add_mono mult_left_mono) (auto simp: is_u8_def)

lemma div255_mix:
  assumes "is_u8 u" "is_u8 v" "u + v \<le> 255" "is_u8 s" "is_u8 d"
  shows "div255 (s32 (u * s + v * d)) = mix_ch u v s d"
  using mix_range [OF assms] by (simp add: div255_exact mix_ch_def)

lemma blendSrc8888_pre_eq:
  assumes "is_u8 u" "is_u8 v" "u + v \<le> 255" "is_u8 sr" "is_u8 sg" "is_u8 sb"
  shows "blendSrc8888_pre p u v sr sg sb =
    (if u * 255 + v * ch_A p = 0 then 0
     else argb (mix_ch u v 255 (ch_A p)) (mix_ch u v sr (ch_R p)) (mix_ch u v sg (ch_G p))
            (mix_ch u v sb (ch_B p)))"
proof -
  have u: "is_u8 255" by (simp add: is_u8_def)
  have c: "s32 (255 * u + d * v) = s32 (u * 255 + v * d)" for d by (simp add: mult.commute)
  have e: "s32 (u * 255 + v * d) = u * 255 + v * d" if "is_u8 d" for d
    using mix_range [OF assms(1-3) u that] by simp
  have oa: "div255 (u * 255 + v * d) = mix_ch u v 255 d" if "is_u8 d" for d
    using div255_mix [OF assms(1-3) u that] e [OF that] by simp
  show ?thesis
    unfolding blendSrc8888_pre_def Let_def ch_defs c
    using assms u by (simp only: div255_mix is_u8_and_255 e oa)
qed

lemma blendSrc8888_pre_premul:
  assumes "is_u8 u" "is_u8 v" "u + v \<le> 255" "is_u8 sr" "is_u8 sg" "is_u8 sb" "premul p"
  shows "premul (blendSrc8888_pre p u v sr sg sb)"
proof -
  have u: "is_u8 255" by (simp add: is_u8_def)
  have "premul 0" by (simp add: premul_def ch_defs)
  moreover have "premul (argb (mix_ch u v 255 (ch_A p)) (mix_ch u v sr (ch_R p)) (mix_ch u v sg (ch_G p))
      (mix_ch u v sb (ch_B p)))"
    using assms u mix_ch_mono [OF assms(1,2)]
    by (simp add: premul_argb mix_ch_u8) (simp add: premul_def is_u8_def)
  ultimately show ?thesis
    using blendSrc8888_pre_eq [OF assms(1-6), of p] by auto
qed

section \<open>Properties\<close>

text \<open>C30: \<^verbatim>\<open>blendSrcOver8888_pre\<close> computes the Porter-Duff source-over in every channel, exactly rounded
  down (its multiplication by 257 is a division by 255 on all values that occur), no channel spills
  into another one, every channel lies between source and destination, and a premultiplied pixel
  stays premultiplied.\<close>

theorem blendSrcOver8888_pre_porter_duff:
  assumes "is_u8 aval" "is_u8 sred" "is_u8 sgreen" "is_u8 sblue" "premul p"
  defines "q \<equiv> blendSrcOver8888_pre p aval sred sgreen sblue"
  shows "ch_A q = (255 * aval + (255 - aval) * ch_A p) div 255 \<and>
    ch_R q = (sred * aval + (255 - aval) * ch_R p) div 255 \<and>
    ch_G q = (sgreen * aval + (255 - aval) * ch_G p) div 255 \<and>
    ch_B q = (sblue * aval + (255 - aval) * ch_B p) div 255 \<and>
    ch_R q \<in> {min sred (ch_R p)..max sred (ch_R p)} \<and> premul q"
proof -
  have u: "is_u8 255" by (simp add: is_u8_def)
  have q: "q = argb (over_ch aval 255 (ch_A p)) (over_ch aval sred (ch_R p))
      (over_ch aval sgreen (ch_G p)) (over_ch aval sblue (ch_B p))"
    unfolding q_def by (rule blendSrcOver8888_pre_eq [OF assms(1-4)])
  have c: "ch_A q = over_ch aval 255 (ch_A p)" "ch_R q = over_ch aval sred (ch_R p)"
    "ch_G q = over_ch aval sgreen (ch_G p)" "ch_B q = over_ch aval sblue (ch_B p)"
    unfolding q using assms u by (simp_all add: over_ch_u8)
  show ?thesis
    unfolding c using blendSrcOver8888_pre_premul [OF assms(1-5)] over_ch_between [OF assms(1), of sred "ch_R p"]
    by (simp add: over_ch_def q_def)
qed

theorem blendSrcOver8888_pre_porter_duff_witness:
  "ch_A (blendSrcOver8888_pre 2139062143 128 255 0 7) = 191 \<and>
   premul (blendSrcOver8888_pre 2139062143 128 255 0 7)"
proof -
  have p: "premul 2139062143" by (simp add: premul_def ch_defs drop_bit_eq_div)
  have a: "ch_A 2139062143 = 127" by (simp add: ch_A_def drop_bit_eq_div)
  show ?thesis
    using blendSrcOver8888_pre_porter_duff [of 128 255 0 7 2139062143] p
    by (simp add: is_u8_def a)
qed

text \<open>the premultiplied source-over is the same function at full fraction as its specialised
  version, and keeps pixels premultiplied for every fraction up to 256.\<close>

lemma blendSrcOver8888_pre_pre_correct:
  assumes "premul s" "premul p" "0 \<le> frac" "frac \<le> 256"
  shows "blendSrcOver8888_pre_pre p 256 (ch_A s) (ch_R s) (ch_G s) (ch_B s) =
      blendSrcOver8888_pre_pre_fullFrac p (ch_A s) (ch_R s) (ch_G s) (ch_B s) \<and>
    premul (blendSrcOver8888_pre_pre p frac (ch_A s) (ch_R s) (ch_G s) (ch_B s))"
  using blendSrcOver8888_pre_pre_full [OF ch_u8] blendSrcOver8888_pre_pre_premul [OF assms(3,4,1,2)] by blast

lemma blendSrcOver8888_pre_pre_correct_witness:
  "premul (blendSrcOver8888_pre_pre (-1) 77 (ch_A 2139062143) (ch_R 2139062143) (ch_G 2139062143) (ch_B 2139062143))"
  using blendSrcOver8888_pre_pre_correct [of 2139062143 "-1" 77]
  by (simp add: premul_def ch_defs drop_bit_eq_div)

text \<open>Packing four channels and reading them back is the identity, and every pixel is the packing
  of its channels.\<close>

lemma argb_round_trip:
  assumes "is_u8 a" "is_u8 r" "is_u8 g" "is_u8 b" "is_jint p"
  shows "(ch_A (argb a r g b), ch_R (argb a r g b), ch_G (argb a r g b), ch_B (argb a r g b)) = (a, r, g, b) \<and>
    argb (ch_A p) (ch_R p) (ch_G p) (ch_B p) = p"
  using argb_channels [OF assms(1-4)] argb_of_channels [OF assms(5)] by simp

lemma argb_round_trip_witness:
  "(ch_A (argb 255 1 2 3), ch_R (argb 255 1 2 3), ch_G (argb 255 1 2 3), ch_B (argb 255 1 2 3)) = (255, 1, 2, 3) \<and>
    argb (ch_A (-16711165)) (ch_R (-16711165)) (ch_G (-16711165)) (ch_B (-16711165)) = -16711165"
  using argb_round_trip [of 255 1 2 3 "-16711165"] by (simp only: is_u8_def is_jint_def) simp

text \<open>\<^verbatim>\<open>blendSrc8888_pre_pre\<close> adds the unscaled source channel to the rest of the destination, so a
  channel can exceed 255 and spill into the next one: white blended onto white with coverage 128
  is not white.\<close>

lemma blendSrc8888_pre_pre_overflow:
  "ch_A (blendSrc8888_pre_pre (-1) 128 127 255 255 255) = 255 \<and>
   ch_G (blendSrc8888_pre_pre (-1) 128 127 255 255 255) \<noteq> 255"
  by code_simp

end
