(* ===== verification/PixelLoops.thy ===== *)
theory PixelLoops
  imports PiscesColor
begin

text \<open>
  The loops over scan lines that the routines of \<^verbatim>\<open>PiscesBlit.c\<close> are made of, with the body of
  the loop (what happens at one pixel) as an argument:
  \<^item> \<open>mask_loop\<close>: one byte of a mask per pixel (\<^verbatim>\<open>while (a < am)\<close> of the \<^verbatim>\<open>...Mask8888_pre\<close> routines);
  \<^item> \<open>lcd_loop\<close>: three bytes of a mask per pixel (\<^verbatim>\<open>blitSrcOverLCDMask8888_pre\<close>);
  \<^item> \<open>aa_loop\<close>: coverage deltas that are summed up and cleared (\<^verbatim>\<open>blit...8888_pre\<close> without mask);
  \<^item> \<open>line_loop\<close>: a run of pixels with a pixel stride (\<^verbatim>\<open>emitLine...8888_pre\<close>). The loop does not
    end for a stride of 0, so it is a partial function;
  \<^item> \<open>for_rows\<close>: the \<^verbatim>\<open>for\<close> loop over the lines.

  The locale \<open>pixel_body\<close> is the contract of a body: it rewrites the pixel it is given and
  nothing else. From it the effect of a whole loop follows: the loop returns, and the result is
  the reference update \<open>upd_seg\<close> of a segment of the image, or \<open>upd_rows\<close> of a rectangle.
\<close>

section \<open>Loops\<close>

type_synonym body = "int \<Rightarrow> int \<Rightarrow> int \<Rightarrow> jint list \<Rightarrow> jint list option"

fun mask_loop :: "body \<Rightarrow> jbyte list \<Rightarrow> int \<Rightarrow> nat \<Rightarrow> jint \<Rightarrow> int \<Rightarrow> jint \<Rightarrow> jint list \<Rightarrow>
    jint list option" where
  "mask_loop body msk a 0 stride aidx iidx d = Some d"
| "mask_loop body msk a (Suc n) stride aidx iidx d = do {
     m \<leftarrow> load msk a;
     d' \<leftarrow> body m aidx iidx d;
     mask_loop body msk (a + 1) n stride (aidx + 1) (s32 (iidx + stride)) d' }"

fun lcd_loop :: "(int \<Rightarrow> int \<Rightarrow> int \<Rightarrow> int \<Rightarrow> jint list \<Rightarrow> jint list option) \<Rightarrow> jbyte list \<Rightarrow> int \<Rightarrow> nat \<Rightarrow>
    jint \<Rightarrow> jint \<Rightarrow> jint list \<Rightarrow> jint list option" where
  "lcd_loop body msk a 0 stride iidx d = Some d"
| "lcd_loop body msk a (Suc n) stride iidx d = do {
     mr \<leftarrow> load msk a;
     mg \<leftarrow> load msk (a + 1);
     mb \<leftarrow> load msk (a + 2);
     d' \<leftarrow> body mr mg mb iidx d;
     lcd_loop body msk (a + 3) n stride (s32 (iidx + stride)) d' }"

fun aa_loop :: "body \<Rightarrow> jint list \<Rightarrow> int \<Rightarrow> nat \<Rightarrow> jint \<Rightarrow> jint \<Rightarrow> int \<Rightarrow> jint \<Rightarrow> jint list \<Rightarrow>
    (jint list \<times> jint list) option" where
  "aa_loop body alpha a 0 aval_relative stride aidx iidx d = Some (alpha, d)"
| "aa_loop body alpha a (Suc n) aval_relative stride aidx iidx d = do {
     x \<leftarrow> load alpha a;
     let rel = s32 (aval_relative + x);
     alpha' \<leftarrow> store alpha a 0;
     d' \<leftarrow> body rel aidx iidx d;
     aa_loop body alpha' (a + 1) n rel stride (aidx + 1) (s32 (iidx + stride)) d' }"

partial_function (option) line_loop ::
  "(int \<Rightarrow> int \<Rightarrow> jint list \<Rightarrow> jint list option) \<Rightarrow> jint \<Rightarrow> int \<Rightarrow> int \<Rightarrow> int \<Rightarrow> jint list \<Rightarrow>
   (int \<times> int \<times> jint list) option" where
  "line_loop body stride a am aidx d =
     (if a < am
      then do { d' \<leftarrow> body aidx a d; line_loop body stride (a + stride) am (aidx + 1) d' }
      else Some (a, aidx, d))"

text \<open>One line of an \<^verbatim>\<open>emitLine\<close> routine: a pixel at the left edge if \<open>lfrac\<close> is not 0, a run of
  \<open>w\<close>, a pixel at the right edge if \<open>rfrac\<close> is not 0.\<close>

definition emit_row ::
  "(int \<Rightarrow> int \<Rightarrow> jint list \<Rightarrow> jint list option) \<Rightarrow> (int \<Rightarrow> int \<Rightarrow> jint list \<Rightarrow> jint list option) \<Rightarrow>
   (int \<Rightarrow> int \<Rightarrow> jint list \<Rightarrow> jint list option) \<Rightarrow> jint \<Rightarrow> jint \<Rightarrow> jint \<Rightarrow> jint \<Rightarrow> int \<Rightarrow> jint \<Rightarrow>
   jint list \<Rightarrow> jint list option" where
  "emit_row left mid right lfrac rfrac stride w aidx a d = do {
     (a, aidx, d) \<leftarrow> (if lfrac \<noteq> 0
        then do { d \<leftarrow> left aidx a d; Some (a + stride, aidx + 1, d) }
        else Some (a, aidx, d));
     (a, aidx, d) \<leftarrow> line_loop mid stride a (a + w) aidx d;
     if rfrac \<noteq> 0 then right aidx a d else Some d }"

text \<open>\<open>row\<close> gets the image offset and the mask or paint offset of the line.\<close>

fun for_rows :: "(jint \<Rightarrow> jint \<Rightarrow> 's \<Rightarrow> 's option) \<Rightarrow> jint \<Rightarrow> jint \<Rightarrow> nat \<Rightarrow> jint \<Rightarrow> jint \<Rightarrow> 's \<Rightarrow> 's option"
where
  "for_rows row istride ostride 0 imageOffset offset s = Some s"
| "for_rows row istride ostride (Suc n) imageOffset offset s = do {
     s' \<leftarrow> row imageOffset offset s;
     for_rows row istride ostride n (s32 (imageOffset + istride)) (s32 (offset + ostride)) s' }"

section \<open>Reference updates\<close>

text \<open>Position \<open>i + k\<close> of \<open>d\<close>, for \<open>k < n\<close>, is updated with \<open>f k\<close>; the rest stays.\<close>

definition upd_seg :: "'a list \<Rightarrow> nat \<Rightarrow> nat \<Rightarrow> (nat \<Rightarrow> 'a \<Rightarrow> 'a) \<Rightarrow> 'a list" where
  "upd_seg d i n f = map (\<lambda>p. if i \<le> p \<and> p < i + n then f (p - i) (d ! p) else d ! p) [0..<length d]"

text \<open>Column \<open>k < w\<close> of line \<open>j < h\<close>, lines \<open>W\<close> apart, is updated with \<open>f j k\<close>; the rest stays.\<close>

definition upd_rows ::
  "'a list \<Rightarrow> nat \<Rightarrow> nat \<Rightarrow> nat \<Rightarrow> nat \<Rightarrow> (nat \<Rightarrow> nat \<Rightarrow> 'a \<Rightarrow> 'a) \<Rightarrow> 'a list" where
  "upd_rows d i W w h f =
     map (\<lambda>p. if i \<le> p \<and> (p - i) div W < h \<and> (p - i) mod W < w
              then f ((p - i) div W) ((p - i) mod W) (d ! p) else d ! p) [0..<length d]"

lemma length_upd_seg [simp]: "length (upd_seg d i n f) = length d"
  by (simp add: upd_seg_def)

lemma nth_upd_seg:
  "p < length d \<Longrightarrow> upd_seg d i n f ! p = (if i \<le> p \<and> p < i + n then f (p - i) (d ! p) else d ! p)"
  by (simp add: upd_seg_def)

lemma length_upd_rows [simp]: "length (upd_rows d i W w h f) = length d"
  by (simp add: upd_rows_def)

lemma nth_upd_rows:
  "p < length d \<Longrightarrow> upd_rows d i W w h f ! p =
     (if i \<le> p \<and> (p - i) div W < h \<and> (p - i) mod W < w
      then f ((p - i) div W) ((p - i) mod W) (d ! p) else d ! p)"
  by (simp add: upd_rows_def)

lemma upd_seg_0 [simp]: "upd_seg d i 0 f = d"
  by (rule nth_equalityI) (auto simp: nth_upd_seg)

lemma upd_seg_Suc:
  assumes "i < length d"
  shows "upd_seg (d[i := f 0 (d ! i)]) (Suc i) n (\<lambda>k. f (Suc k)) = upd_seg d i (Suc n) f"
proof (rule nth_equalityI)
  fix p assume "p < length (upd_seg (d[i := f 0 (d ! i)]) (Suc i) n (\<lambda>k. f (Suc k)))"
  then have p: "p < length d" by simp
  consider "p < i" | "p = i" | "Suc i \<le> p" by linarith
  then show "upd_seg (d[i := f 0 (d ! i)]) (Suc i) n (\<lambda>k. f (Suc k)) ! p = upd_seg d i (Suc n) f ! p"
    using p by cases (auto simp: nth_upd_seg Suc_diff_Suc)
qed simp

lemma upd_seg_cong:
  "(\<And>k x. k < n \<Longrightarrow> f k x = g k x) \<Longrightarrow> upd_seg d i n f = upd_seg d i n g"
  by (rule nth_equalityI) (auto simp: nth_upd_seg)

lemma upd_seg_cong_set:
  "(\<And>k x. k < n \<Longrightarrow> x \<in> set d \<Longrightarrow> f k x = g k x) \<Longrightarrow> upd_seg d i n f = upd_seg d i n g"
  by (rule nth_equalityI) (auto simp: nth_upd_seg)

lemma upd_seg_append:
  "upd_seg (upd_seg d i n f) (i + n) m g = upd_seg d i (n + m) (\<lambda>k. if k < n then f k else g (k - n))"
  by (rule nth_equalityI) (auto simp: nth_upd_seg)

lemma upd_rows_0 [simp]: "upd_rows d i W w 0 f = d"
  by (rule nth_equalityI) (auto simp: nth_upd_rows)

lemma upd_rows_Suc:
  assumes "w \<le> W" "0 < W"
  shows "upd_rows (upd_seg d i w (f 0)) (i + W) W w h (\<lambda>j. f (Suc j)) = upd_rows d i W w (Suc h) f"
proof (rule nth_equalityI)
  fix p assume "p < length (upd_rows (upd_seg d i w (f 0)) (i + W) W w h (\<lambda>j. f (Suc j)))"
  then have p: "p < length d" by simp
  consider "p < i" | "i \<le> p" "p < i + W" | "i + W \<le> p" by linarith
  then show "upd_rows (upd_seg d i w (f 0)) (i + W) W w h (\<lambda>j. f (Suc j)) ! p =
    upd_rows d i W w (Suc h) f ! p"
  proof cases
    case 3
    then obtain q where q: "p = i + W + q" using le_Suc_ex by blast
    have "(W + q) div W = Suc (q div W)" using assms by (simp add: div_add1_eq)
    then show ?thesis using p q assms by (auto simp: nth_upd_rows nth_upd_seg)
  qed (use p assms in \<open>auto simp: nth_upd_rows nth_upd_seg\<close>)
qed simp

lemma upd_rows_cong:
  "(\<And>j k x. j < h \<Longrightarrow> k < w \<Longrightarrow> x \<in> set d \<Longrightarrow> f j k x = g j k x) \<Longrightarrow> upd_rows d i W w h f = upd_rows d i W w h g"
  by (rule nth_equalityI) (auto simp: nth_upd_rows)

lemma upd_rows_all:
  assumes "\<And>x. x \<in> set d \<Longrightarrow> P x" "\<And>j k x. k < w \<Longrightarrow> x \<in> set d \<Longrightarrow> P (f j k x)"
  shows "\<forall>x \<in> set (upd_rows d i W w h f). P x"
  using assms by (auto simp: upd_rows_def)

lemma upd_rows_1: "w \<le> W \<Longrightarrow> 0 < W \<Longrightarrow> upd_rows d i W w (Suc 0) f = upd_seg d i w (f 0)"
  using upd_rows_Suc [of w W d i f 0] by simp

section \<open>The contract of a loop body\<close>

locale pixel_body =
  fixes body :: body
    and val :: "int \<Rightarrow> int \<Rightarrow> jint \<Rightarrow> jint"
    and ok :: "int \<Rightarrow> int \<Rightarrow> bool"
  assumes body_store: "ok m k \<Longrightarrow> in_arr d i \<Longrightarrow> body m k i d = Some (d[nat i := val m k (d ! nat i)])"
begin

lemma mask_loop_upd:
  assumes "\<And>k. k < n \<Longrightarrow> in_arr msk (a + int k) \<and> ok (msk ! nat (a + int k)) (aidx + int k)"
    and "0 \<le> i" "i + int n \<le> int (length d)" "length d < 2 ^ 31"
  shows "mask_loop body msk a n 1 aidx i d =
    Some (upd_seg d (nat i) n (\<lambda>k. val (msk ! nat (a + int k)) (aidx + int k)))"
  using assms
proof (induction n arbitrary: a aidx i d)
  case (Suc n)
  let ?f = "\<lambda>k. val (msk ! nat (a + int k)) (aidx + int k)"
  have i: "in_arr d i" and w: "s32 (i + 1) = i + 1"
    using Suc.prems by (auto simp: in_arr_def)
  have m: "in_arr msk a" "ok (msk ! nat a) aidx" using Suc.prems(1) [of 0] by auto
  have seg: "upd_seg (d[nat i := ?f 0 (d ! nat i)]) (Suc (nat i)) n (\<lambda>k. ?f (Suc k)) = upd_seg d (nat i) (Suc n) ?f"
    using i by (intro upd_seg_Suc) (simp add: in_arr_nat)
  have IH: "mask_loop body msk (a + 1) n 1 (aidx + 1) (i + 1) (d[nat i := ?f 0 (d ! nat i)]) =
    Some (upd_seg (d[nat i := ?f 0 (d ! nat i)]) (nat (i + 1)) n
      (\<lambda>k. val (msk ! nat (a + 1 + int k)) (aidx + 1 + int k)))"
    using Suc.prems Suc.prems(1) [of "Suc _"] by (intro Suc.IH) (auto simp: algebra_simps)
  have "nat (i + 1) = Suc (nat i)" using Suc.prems by simp
  then show ?case
    using IH i m w seg by (simp add: arr body_store algebra_simps)
qed simp

text \<open>The sum of the first \<open>k + 1\<close> deltas, as the coverage accumulator of \<^verbatim>\<open>aa_loop\<close> holds it.\<close>

lemma aa_loop_upd:
  assumes "\<And>k. k < n \<Longrightarrow> ok (s32 (rel + (\<Sum>j\<le>k. alpha ! (a + j)))) (aidx + int k)"
    and "a + n \<le> length alpha" "0 \<le> i" "i + int n \<le> int (length d)" "length d < 2 ^ 31"
  shows "aa_loop body alpha (int a) n rel 1 aidx i d =
    Some (upd_seg alpha a n (\<lambda>_ _. 0),
          upd_seg d (nat i) n (\<lambda>k. val (s32 (rel + (\<Sum>j\<le>k. alpha ! (a + j)))) (aidx + int k)))"
  using assms
proof (induction n arbitrary: a aidx i d alpha rel)
  case (Suc n)
  let ?f = "\<lambda>k. val (s32 (rel + (\<Sum>j\<le>k. alpha ! (a + j)))) (aidx + int k)"
  let ?rel = "s32 (rel + alpha ! a)" and ?al = "alpha[a := 0]"
  have sum: "s32 (?rel + (\<Sum>j\<le>k. ?al ! (Suc a + j))) = s32 (rel + (\<Sum>j\<le>Suc k. alpha ! (a + j)))" for k
    by (simp only: s32_add_left sum.atMost_Suc_shift) (simp add: add.assoc)
  have i: "in_arr d i" "s32 (i + 1) = i + 1" "in_arr alpha (int a)"
    using Suc.prems by (auto simp: in_arr_def)
  have ok0: "ok ?rel aidx" using Suc.prems(1) [of 0] by simp
  have IH: "aa_loop body ?al (int (Suc a)) n ?rel 1 (aidx + 1) (i + 1) (d[nat i := ?f 0 (d ! nat i)]) =
    Some (upd_seg ?al (Suc a) n (\<lambda>_ _. 0),
      upd_seg (d[nat i := ?f 0 (d ! nat i)]) (nat (i + 1)) n
        (\<lambda>k. val (s32 (?rel + (\<Sum>j\<le>k. ?al ! (Suc a + j)))) (aidx + 1 + int k)))"
  proof (rule Suc.IH)
    fix k assume "k < n"
    then show "ok (s32 (?rel + (\<Sum>j\<le>k. ?al ! (Suc a + j)))) (aidx + 1 + int k)"
      using Suc.prems(1) [of "Suc k"] by (simp only: sum) (simp add: algebra_simps)
  qed (use Suc.prems in auto)
  have n1: "nat (i + 1) = Suc (nat i)" using Suc.prems by simp
  have seg: "upd_seg (d[nat i := ?f 0 (d ! nat i)]) (Suc (nat i)) n (\<lambda>k. ?f (Suc k)) = upd_seg d (nat i) (Suc n) ?f"
    using i(1) by (intro upd_seg_Suc) (simp add: in_arr_nat)
  have al: "upd_seg ?al (Suc a) n (\<lambda>_ _. 0) = upd_seg alpha a (Suc n) (\<lambda>_ _. 0)"
    using upd_seg_Suc [of a alpha "\<lambda>_ _. 0" n] i(3) by (simp add: in_arr_def)
  have f: "(\<lambda>k. val (s32 (?rel + (\<Sum>j\<le>k. ?al ! (Suc a + j)))) (aidx + 1 + int k)) = (\<lambda>k. ?f (Suc k))"
  proof
    fix k
    have "aidx + 1 + int k = aidx + int (Suc k)" by simp
    then show "val (s32 (?rel + (\<Sum>j\<le>k. ?al ! (Suc a + j)))) (aidx + 1 + int k) = ?f (Suc k)"
      by (simp only: sum)
  qed
  have step: "aa_loop body alpha (int a) (Suc n) rel 1 aidx i d =
    aa_loop body ?al (int (Suc a)) n ?rel 1 (aidx + 1) (i + 1) (d[nat i := ?f 0 (d ! nat i)])"
    using i ok0 by (simp add: arr body_store Let_def algebra_simps)
  show ?case
    unfolding step IH f n1 seg al ..
qed simp

end

text \<open>The body with three mask bytes per pixel.\<close>

locale lcd_body =
  fixes lcd :: "int \<Rightarrow> int \<Rightarrow> int \<Rightarrow> int \<Rightarrow> jint list \<Rightarrow> jint list option"
    and lcd_val :: "int \<Rightarrow> int \<Rightarrow> int \<Rightarrow> jint \<Rightarrow> jint"
    and lcd_ok :: bool
  assumes lcd_store:
    "lcd_ok \<Longrightarrow> in_arr d i \<Longrightarrow> lcd mr mg mb i d = Some (d[nat i := lcd_val mr mg mb (d ! nat i)])"
begin

lemma lcd_loop_upd:
  assumes "lcd_ok" "0 \<le> a" "a + 3 * int n \<le> int (length msk)"
    and "0 \<le> i" "i + int n \<le> int (length d)" "length d < 2 ^ 31"
  shows "lcd_loop lcd msk a n 1 i d =
    Some (upd_seg d (nat i) n (\<lambda>k. lcd_val (msk ! nat (a + 3 * int k)) (msk ! nat (a + 3 * int k + 1))
      (msk ! nat (a + 3 * int k + 2))))"
  using assms
proof (induction n arbitrary: a i d)
  case (Suc n)
  let ?f = "\<lambda>k. lcd_val (msk ! nat (a + 3 * int k)) (msk ! nat (a + 3 * int k + 1)) (msk ! nat (a + 3 * int k + 2))"
  have i: "in_arr d i" and w: "s32 (i + 1) = i + 1"
    using Suc.prems by (auto simp: in_arr_def)
  have m: "in_arr msk a" "in_arr msk (a + 1)" "in_arr msk (a + 2)"
    using Suc.prems by (auto simp: in_arr_def)
  have seg: "upd_seg (d[nat i := ?f 0 (d ! nat i)]) (Suc (nat i)) n (\<lambda>k. ?f (Suc k)) = upd_seg d (nat i) (Suc n) ?f"
    using i by (intro upd_seg_Suc) (simp add: in_arr_nat)
  have IH: "lcd_loop lcd msk (a + 3) n 1 (i + 1) (d[nat i := ?f 0 (d ! nat i)]) =
    Some (upd_seg (d[nat i := ?f 0 (d ! nat i)]) (nat (i + 1)) n
      (\<lambda>k. lcd_val (msk ! nat (a + 3 + 3 * int k)) (msk ! nat (a + 3 + 3 * int k + 1)) (msk ! nat (a + 3 + 3 * int k + 2))))"
    using Suc.prems by (intro Suc.IH) auto
  have "nat (i + 1) = Suc (nat i)" using Suc.prems by simp
  then show ?case
    using IH i m w seg Suc.prems(1) by (simp add: arr lcd_store algebra_simps)
qed simp

end

text \<open>The body of a line: no mask value.\<close>

locale line_body =
  fixes lbody :: "int \<Rightarrow> int \<Rightarrow> jint list \<Rightarrow> jint list option"
    and lval :: "int \<Rightarrow> jint \<Rightarrow> jint"
    and lok :: "int \<Rightarrow> bool"
  assumes lbody_store: "lok k \<Longrightarrow> in_arr d i \<Longrightarrow> lbody k i d = Some (d[nat i := lval k (d ! nat i)])"
begin

lemma line_loop_upd:
  assumes "\<And>k. k < n \<Longrightarrow> lok (aidx + int k)" "0 \<le> a" "a + int n \<le> int (length d)"
  shows "line_loop lbody 1 a (a + int n) aidx d =
    Some (a + int n, aidx + int n, upd_seg d (nat a) n (\<lambda>k. lval (aidx + int k)))"
  using assms
proof (induction n arbitrary: a aidx d)
  case 0
  show ?case by (subst line_loop.simps) simp
next
  case (Suc n)
  let ?f = "\<lambda>k. lval (aidx + int k)"
  have i: "in_arr d a" and ok0: "lok aidx"
    using Suc.prems Suc.prems(1) [of 0] by (auto simp: in_arr_def)
  have seg: "upd_seg (d[nat a := ?f 0 (d ! nat a)]) (Suc (nat a)) n (\<lambda>k. ?f (Suc k)) = upd_seg d (nat a) (Suc n) ?f"
    using i by (intro upd_seg_Suc) (simp add: in_arr_nat)
  have IH: "line_loop lbody 1 (a + 1) (a + 1 + int n) (aidx + 1) (d[nat a := ?f 0 (d ! nat a)]) =
    Some (a + 1 + int n, aidx + 1 + int n,
      upd_seg (d[nat a := ?f 0 (d ! nat a)]) (nat (a + 1)) n (\<lambda>k. lval (aidx + 1 + int k)))"
    using Suc.prems Suc.prems(1) [of "Suc _"] by (intro Suc.IH) (auto simp: algebra_simps)
  have "nat (a + 1) = Suc (nat a)" using Suc.prems by simp
  then show ?case
    using IH i ok0 seg by (subst line_loop.simps) (simp add: lbody_store algebra_simps)
qed

end

sublocale line_body \<subseteq> pixel_body "\<lambda>_. lbody" "\<lambda>_. lval" "\<lambda>_. lok"
  by unfold_locales (rule lbody_store)

text \<open>The three bodies of one line of an \<^verbatim>\<open>emitLine\<close> routine.\<close>

locale emit_bodies =
  L: line_body left vleft lok + M: line_body mid vmid lok + R: line_body right vright lok
  for left mid right vleft vmid vright lok
begin

lemma emit_row_upd:
  assumes "\<And>k. k < n \<Longrightarrow> lok (aidx + int k)" "0 \<le> a" "a + int n \<le> int (length d)"
    and "w = int n - (if lfrac \<noteq> 0 then 1 else 0) - (if rfrac \<noteq> 0 then 1 else 0)" "0 \<le> w"
  shows "emit_row left mid right lfrac rfrac 1 w aidx a d =
    Some (upd_seg d (nat a) n (\<lambda>k.
      if k = 0 \<and> lfrac \<noteq> 0 then vleft aidx
      else if Suc k = n \<and> rfrac \<noteq> 0 then vright (aidx + int k)
      else vmid (aidx + int k)))"
proof -
  define l :: nat where "l = (if lfrac \<noteq> 0 then 1 else 0)"
  define r :: nat where "r = (if rfrac \<noteq> 0 then 1 else 0)"
  define m :: nat where "m = nat w"
  have n: "n = l + m + r" and w: "w = int m"
    using assms(4,5) by (auto simp: l_def r_def m_def split: if_splits)
  define d1 where "d1 = upd_seg d (nat a) l (\<lambda>_. vleft aidx)"
  define d2 where "d2 = upd_seg d1 (nat a + l) m (\<lambda>k. vmid (aidx + int l + int k))"
  have a0: "lfrac \<noteq> 0 \<Longrightarrow> in_arr d a \<and> lok aidx"
    using assms(1) [of 0] assms(2,3) n by (auto simp: in_arr_def l_def)
  have seg1: "upd_seg d (nat a) (Suc 0) g = d[nat a := g 0 (d ! nat a)]" if "in_arr d a" for g
    using upd_seg_Suc [of "nat a" d g 0] that by (simp add: in_arr_nat)
  have first: "(if lfrac \<noteq> 0 then do { d \<leftarrow> left aidx a d; Some (a + 1, aidx + 1, d) }
      else Some (a, aidx, d)) = Some (a + int l, aidx + int l, d1)"
    using a0 by (auto simp: l_def d1_def seg1 L.lbody_store)
  have "line_loop mid 1 (a + int l) (a + int l + int m) (aidx + int l) d1 =
    Some (a + int l + int m, aidx + int l + int m, upd_seg d1 (nat (a + int l)) m (\<lambda>k. vmid (aidx + int l + int k)))"
  proof (rule M.line_loop_upd)
    fix k assume "k < m"
    then show "lok (aidx + int l + int k)" using assms(1) [of "l + k"] n by (simp add: algebra_simps)
  qed (use assms n in \<open>auto simp: d1_def\<close>)
  moreover have "nat (a + int l) = nat a + l" using assms(2) by simp
  ultimately have run: "line_loop mid 1 (a + int l) (a + int l + w) (aidx + int l) d1 =
    Some (a + int l + int m, aidx + int l + int m, d2)"
    by (simp add: w d2_def)
  have last: "(if rfrac \<noteq> 0 then right (aidx + int l + int m) (a + int l + int m) d2 else Some d2) =
    Some (upd_seg d2 (nat a + l + m) r (\<lambda>_. vright (aidx + int l + int m)))"
  proof (cases "rfrac \<noteq> 0")
    case True
    then have "in_arr d2 (a + int l + int m)" "lok (aidx + int l + int m)"
      using assms(1) [of "l + m"] assms(2,3) n
      by (auto simp: in_arr_def r_def d1_def d2_def algebra_simps)
    moreover have "nat (a + int l + int m) = nat a + l + m" using assms(2) by simp
    ultimately show ?thesis
      using True upd_seg_Suc [of "nat a + l + m" d2 "\<lambda>_. vright (aidx + int l + int m)" 0] in_arr_nat [of d2 "a + int l + int m"]
      by (simp add: r_def R.lbody_store)
  qed (simp add: r_def)
  have "upd_seg d2 (nat a + l + m) r (\<lambda>_. vright (aidx + int l + int m)) =
    upd_seg d (nat a) n (\<lambda>k.
      if k = 0 \<and> lfrac \<noteq> 0 then vleft aidx
      else if Suc k = n \<and> rfrac \<noteq> 0 then vright (aidx + int k)
      else vmid (aidx + int k))"
    unfolding d2_def d1_def upd_seg_append n
    by (subst upd_seg_append [of _ "nat a" "l + m", folded add.assoc, simplified add.assoc [symmetric]])
      (auto intro!: upd_seg_cong simp: l_def r_def add.assoc split: if_splits)
  then show ?thesis
    unfolding emit_row_def first by (simp add: run last)
qed

end

lemma for_rows_upd:
  fixes d :: "'a list"
  assumes "\<And>j d. j < h \<Longrightarrow> length d = n \<Longrightarrow>
      row (io + int j * int W) (off + int j * os) d = Some (upd_seg d (i + j * W) w (f j))"
    and "\<And>j. j < h \<Longrightarrow> is_jint (io + int j * int W) \<and> is_jint (off + int j * os)"
    and "length d = n" "w \<le> W" "0 < W"
  shows "for_rows row (int W) os h io off d = Some (upd_rows d i W w h f)"
  using assms
proof (induction h arbitrary: io off d i f)
  case (Suc h)
  let ?d = "upd_seg d i w (f 0)"
  have r0: "row io off d = Some ?d" using Suc.prems(1) [of 0 d] Suc.prems(3) by simp
  show ?case
  proof (cases "h = 0")
    case True
    then show ?thesis using r0 Suc.prems(4,5) by (simp add: upd_rows_1)
  next
    case False
    then have w: "s32 (io + int W) = io + int W" "s32 (off + os) = off + os"
      using Suc.prems(2) [of 1] by (auto simp: s32_idem)
    have "for_rows row (int W) os h (io + int W) (off + os) ?d =
      Some (upd_rows ?d (i + W) W w h (\<lambda>j. f (Suc j)))"
    proof (rule Suc.IH)
      fix j d' assume "j < h" "length (d' :: 'a list) = n"
      then show "row (io + int W + int j * int W) (off + os + int j * os) d' =
        Some (upd_seg d' (i + W + j * W) w (f (Suc j)))"
        using Suc.prems(1) [of "Suc j" d'] by (simp add: algebra_simps)
    next
      fix j assume "j < h"
      then show "is_jint (io + int W + int j * int W) \<and> is_jint (off + os + int j * os)"
        using Suc.prems(2) [of "Suc j"] by (simp add: algebra_simps)
    qed (use Suc.prems in simp_all)
    then show ?thesis using r0 w Suc.prems(4,5) by (simp add: upd_rows_Suc)
  qed
qed simp

end
