(* ===== verification/PiscesBlit.thy ===== *)
theory PiscesBlit
  imports PixelLoops
begin

text \<open>
  The \<^verbatim>\<open>blit...8888_pre\<close> routines of \<^verbatim>\<open>PiscesBlit.c\<close>: they draw \<open>height\<close> scan lines with the current
  colour, or with the colours that the paint generator left in \<^verbatim>\<open>_paint\<close> (the \<^verbatim>\<open>PT\<close> routines), through
  a coverage that comes from the accumulation buffer \<^verbatim>\<open>_rowAAInt\<close> (no mask), from a byte mask, or
  from an LCD mask with three bytes per pixel.

  Each routine is the loop of \<open>PixelLoops\<close> that the C code has, around a body of the same name
  (\<open>..._px\<close>: what happens at one pixel). \<open>None\<close> is an access outside of an array. The lemmas at the
  end say what a whole routine computes: it returns, it writes one rectangle of the image, and the
  new pixels are given by a closed formula.
\<close>

section \<open>Definitions\<close>

definition modify :: "'a list \<Rightarrow> int \<Rightarrow> ('a \<Rightarrow> 'a) \<Rightarrow> 'a list option" where
  "modify d i f = do { p \<leftarrow> load d i; store d i (f p) }"

text \<open>\<^verbatim>\<open>w = (maxX >= minX) ? (maxX - minX + 1) : 0\<close>, and \<^verbatim>\<open>iidx\<close> at the start of a line.\<close>

definition touched_w :: "'f Renderer \<Rightarrow> jint" where
  "touched_w r = (if r_maxTouched r \<ge> r_minTouched r
                  then s32 (r_maxTouched r - r_minTouched r + 1) else 0)"

definition row_iidx :: "'f Renderer \<Rightarrow> jint \<Rightarrow> jint" where
  "row_iidx r imageOffset = s32 (imageOffset + r_minTouched r * r_imagePixelStride r)"

definition blit_rows_mask :: "'f Renderer \<Rightarrow> body \<Rightarrow> jint \<Rightarrow> jint \<Rightarrow> 'f Renderer option" where
  "blit_rows_mask r px alphaStride height = do {
     d \<leftarrow> for_rows (\<lambda>imageOffset alphaOffset d.
            mask_loop px (r_mask_byteData r) alphaOffset (nat (touched_w r))
              (r_imagePixelStride r) 0 (row_iidx r imageOffset) d)
          (r_imageScanlineStride r) alphaStride (nat height)
          (r_currImageOffset r) (r_maskOffset r) (r_data r);
     Some (r\<lparr>r_data := d\<rparr>) }"

definition blit_rows_aa :: "'f Renderer \<Rightarrow> body \<Rightarrow> jint \<Rightarrow> 'f Renderer option" where
  "blit_rows_aa r px height = do {
     (alpha, d) \<leftarrow> for_rows (\<lambda>imageOffset _ (alpha, d).
            aa_loop px alpha 0 (nat (touched_w r)) 0
              (r_imagePixelStride r) 0 (row_iidx r imageOffset) d)
          (r_imageScanlineStride r) 0 (nat height)
          (r_currImageOffset r) 0 (r_rowAAInt r, r_data r);
     Some (r\<lparr>r_rowAAInt := alpha, r_data := d\<rparr>) }"

subsection \<open>Source, flat colour\<close>

definition src_px :: "'f Renderer \<Rightarrow> jint \<Rightarrow> jint \<Rightarrow> jint list \<Rightarrow> jint list option" where
  "src_px r acoverage iidx d =
     (if acoverage = MAX_ALPHA then store d iidx (argb (r_calpha r) (r_cred r) (r_cgreen r) (r_cblue r))
      else if acoverage > 0
      then (let aval = drop_bit 8 (s32 ((acoverage + 1) * r_calpha r))
            in modify d iidx (\<lambda>p. blendSrc8888_pre p aval (255 - acoverage)
                 (r_cred r) (r_cgreen r) (r_cblue r)))
      else Some d)"

definition blitSrc8888_pre_px :: "'f Renderer \<Rightarrow> body" where
  "blitSrc8888_pre_px r aval_relative aidx iidx d = do {
     m \<leftarrow> load (r_alphaMap r) aval_relative;
     src_px r (m AND 255) iidx d }"

definition blitSrc8888_pre :: "'f Renderer \<Rightarrow> jint \<Rightarrow> 'f Renderer option" where
  "blitSrc8888_pre r height = blit_rows_aa r (blitSrc8888_pre_px r) height"

definition blitSrcMask8888_pre_px :: "'f Renderer \<Rightarrow> body" where
  "blitSrcMask8888_pre_px r m aidx iidx d = src_px r (m AND 255) iidx d"

definition blitSrcMask8888_pre :: "'f Renderer \<Rightarrow> jint \<Rightarrow> 'f Renderer option" where
  "blitSrcMask8888_pre r height = blit_rows_mask r (blitSrcMask8888_pre_px r) (r_alphaWidth r) height"

subsection \<open>Source, paint\<close>

definition pt_src_px :: "jint \<Rightarrow> jint \<Rightarrow> jint \<Rightarrow> jint list \<Rightarrow> jint list option" where
  "pt_src_px cval acoverage iidx d =
     (let palpha = ch_A cval in
      if acoverage = MAX_ALPHA then store d iidx cval
      else if acoverage > 0
      then (let aval = drop_bit 8 (s32 ((acoverage + 1) * palpha))
            in modify d iidx (\<lambda>p. blendSrc8888_pre_pre p aval (255 - acoverage)
                 (ch_R cval) (ch_G cval) (ch_B cval)))
      else Some d)"

definition blitPTSrc8888_pre_px :: "'f Renderer \<Rightarrow> body" where
  "blitPTSrc8888_pre_px r aval_relative aidx iidx d = do {
     cval \<leftarrow> load (r_paint r) aidx;
     m \<leftarrow> load (r_alphaMap r) aval_relative;
     pt_src_px cval (m AND 255) iidx d }"

definition blitPTSrc8888_pre :: "'f Renderer \<Rightarrow> jint \<Rightarrow> 'f Renderer option" where
  "blitPTSrc8888_pre r height = blit_rows_aa r (blitPTSrc8888_pre_px r) height"

definition blitPTSrcMask8888_pre_px :: "'f Renderer \<Rightarrow> body" where
  "blitPTSrcMask8888_pre_px r m aidx iidx d = do {
     cval \<leftarrow> load (r_paint r) aidx;
     pt_src_px cval (m AND 255) iidx d }"

text \<open>\<^verbatim>\<open>alphaOffset\<close> is not advanced from line to line in the two \<^verbatim>\<open>PT...Mask\<close> routines.\<close>

definition blitPTSrcMask8888_pre :: "'f Renderer \<Rightarrow> jint \<Rightarrow> 'f Renderer option" where
  "blitPTSrcMask8888_pre r height = blit_rows_mask r (blitPTSrcMask8888_pre_px r) 0 height"

subsection \<open>Source over, flat colour\<close>

definition srcover_px :: "'f Renderer \<Rightarrow> jint \<Rightarrow> jint \<Rightarrow> jint list \<Rightarrow> jint list option" where
  "srcover_px r m iidx d =
     (let aval = m AND 255;
          aval = drop_bit 8 (s32 ((aval + 1) * r_calpha r))
      in if aval = MAX_ALPHA then store d iidx (argb 255 (r_cred r) (r_cgreen r) (r_cblue r))
         else if aval > 0
         then modify d iidx (\<lambda>p. blendSrcOver8888_pre p aval (r_cred r) (r_cgreen r) (r_cblue r))
         else Some d)"

definition blitSrcOver8888_pre_px :: "'f Renderer \<Rightarrow> body" where
  "blitSrcOver8888_pre_px r aval_relative aidx iidx d =
     (if aval_relative \<noteq> 0
      then do { m \<leftarrow> load (r_alphaMap r) aval_relative; srcover_px r m iidx d }
      else Some d)"

definition blitSrcOver8888_pre :: "'f Renderer \<Rightarrow> jint \<Rightarrow> 'f Renderer option" where
  "blitSrcOver8888_pre r height = blit_rows_aa r (blitSrcOver8888_pre_px r) height"

definition blitSrcOverMask8888_pre_px :: "'f Renderer \<Rightarrow> body" where
  "blitSrcOverMask8888_pre_px r m aidx iidx d = (if m \<noteq> 0 then srcover_px r m iidx d else Some d)"

definition blitSrcOverMask8888_pre :: "'f Renderer \<Rightarrow> jint \<Rightarrow> 'f Renderer option" where
  "blitSrcOverMask8888_pre r height =
     blit_rows_mask r (blitSrcOverMask8888_pre_px r) (r_alphaWidth r) height"

subsection \<open>Source over, LCD mask\<close>

text \<open>The file-scope variables \<^verbatim>\<open>currentGamma\<close>, \<^verbatim>\<open>gammaArray\<close> and \<^verbatim>\<open>invGammaArray\<close>.\<close>

record 'f Gamma =
  currentGamma :: 'f
  gammaArray :: "jint list"
  invGammaArray :: "jint list"

definition lcd_px :: "'f Gamma \<Rightarrow> jint \<Rightarrow> jint \<Rightarrow> jint \<Rightarrow> jint \<Rightarrow>
    jint \<Rightarrow> jint \<Rightarrow> jint \<Rightarrow> jint \<Rightarrow> jint list \<Rightarrow> jint list option" where
  "lcd_px g calpha cred cgreen cblue mr mg mb iidx d =
     (let ared = mr AND 255; agreen = mg AND 255; ablue = mb AND 255;
          (ared, agreen, ablue) =
            (if calpha < MAX_ALPHA
             then (drop_bit 8 (s32 ((ared + 1) * calpha)), drop_bit 8 (s32 ((agreen + 1) * calpha)),
                   drop_bit 8 (s32 ((ablue + 1) * calpha)))
             else (ared, agreen, ablue));
          aval_ismax = ared AND agreen AND ablue
      in if aval_ismax = MAX_ALPHA then store d iidx (argb 255 cred cgreen cblue)
         else do {
           p \<leftarrow> load d iidx;
           v \<leftarrow> blendLCDSrcOver8888_pre (gammaArray g) (invGammaArray g) p ared agreen ablue
                 cred cgreen cblue;
           store d iidx v })"

definition blitSrcOverLCDMask8888_pre :: "'f Gamma \<Rightarrow> 'f Renderer \<Rightarrow> jint \<Rightarrow> 'f Renderer option" where
  "blitSrcOverLCDMask8888_pre g r height = do {
     calpha \<leftarrow> load (invGammaArray g) (r_calpha r);
     cred \<leftarrow> load (invGammaArray g) (r_cred r);
     cgreen \<leftarrow> load (invGammaArray g) (r_cgreen r);
     cblue \<leftarrow> load (invGammaArray g) (r_cblue r);
     d \<leftarrow> for_rows (\<lambda>imageOffset alphaOffset d.
            lcd_loop (lcd_px g calpha cred cgreen cblue) (r_mask_byteData r) alphaOffset
              (nat (touched_w r)) (r_imagePixelStride r) (row_iidx r imageOffset) d)
          (r_imageScanlineStride r) (r_alphaWidth r) (nat height)
          (r_currImageOffset r) (r_maskOffset r) (r_data r);
     Some (r\<lparr>r_data := d\<rparr>) }"

text \<open>\<open>pow255 i gamma\<close> stands for \<^verbatim>\<open>(jint)(255 * pow(i/255.0, gamma))\<close> and \<open>feq\<close> for the comparison of
  two \<^verbatim>\<open>jfloat\<close>s.\<close>

definition initGammaArrays :: "'f fops \<Rightarrow> ('f \<Rightarrow> 'f \<Rightarrow> bool) \<Rightarrow> (int \<Rightarrow> 'f \<Rightarrow> jint) \<Rightarrow> 'f \<Rightarrow> 'f Gamma \<Rightarrow>
    'f Gamma" where
  "initGammaArrays F feq pow255 gamma g =
     (if \<not> feq (currentGamma g) gamma
      then let invgamma = fdiv F (fofint F 1) gamma in
        g\<lparr>currentGamma := gamma,
          gammaArray := map (\<lambda>i. pow255 i gamma) [0..255],
          invGammaArray := map (\<lambda>i. pow255 i invgamma) [0..255]\<rparr>
      else g)"

subsection \<open>Source over, paint\<close>

definition pt_srcover_px :: "jint \<Rightarrow> jint \<Rightarrow> jint \<Rightarrow> jint list \<Rightarrow> jint list option" where
  "pt_srcover_px cval m iidx d =
     (let palpha = ch_A cval;
          malpha = m AND 255;
          aval = drop_bit 8 (s32 ((malpha + 1) * palpha))
      in if aval = MAX_ALPHA then store d iidx cval
         else if aval > 0
         then modify d iidx (\<lambda>p. blendSrcOver8888_pre_pre p (malpha + 1) palpha
                (ch_R cval) (ch_G cval) (ch_B cval))
         else Some d)"

definition blitPTSrcOver8888_pre_px :: "'f Renderer \<Rightarrow> body" where
  "blitPTSrcOver8888_pre_px r aval_relative aidx iidx d = do {
     cval \<leftarrow> load (r_paint r) aidx;
     if aval_relative \<noteq> 0
     then do { m \<leftarrow> load (r_alphaMap r) aval_relative; pt_srcover_px cval m iidx d }
     else Some d }"

definition blitPTSrcOver8888_pre :: "'f Renderer \<Rightarrow> jint \<Rightarrow> 'f Renderer option" where
  "blitPTSrcOver8888_pre r height = blit_rows_aa r (blitPTSrcOver8888_pre_px r) height"

definition blitPTSrcOverMask8888_pre_px :: "'f Renderer \<Rightarrow> body" where
  "blitPTSrcOverMask8888_pre_px r m aidx iidx d =
     (if m \<noteq> 0
      then do { cval \<leftarrow> load (r_paint r) aidx; pt_srcover_px cval m iidx d }
      else Some d)"

definition blitPTSrcOverMask8888_pre :: "'f Renderer \<Rightarrow> jint \<Rightarrow> 'f Renderer option" where
  "blitPTSrcOverMask8888_pre r height =
     blit_rows_mask r (blitPTSrcOverMask8888_pre_px r) 0 height"

section \<open>Reference pixels\<close>

text \<open>The Porter-Duff source-over of an opaque colour with weight \<open>w/255\<close>, of a premultiplied paint
  colour scaled by \<open>f/256\<close>, and the replacement of a pixel by the colour \<open>s\<close> through a coverage.\<close>

definition over_px :: "int \<Rightarrow> jint \<Rightarrow> jint \<Rightarrow> jint \<Rightarrow> jint \<Rightarrow> jint" where
  "over_px w cr cg cb p = argb (over_ch w 255 (ch_A p)) (over_ch w cr (ch_R p))
     (over_ch w cg (ch_G p)) (over_ch w cb (ch_B p))"

definition pt_over_px :: "int \<Rightarrow> jint \<Rightarrow> jint \<Rightarrow> jint" where
  "pt_over_px f s p = (let a = scale256 (ch_A s) f in
     argb (under_ch a a (ch_A p)) (under_ch a (scale256 (ch_R s) f) (ch_R p))
       (under_ch a (scale256 (ch_G s) f) (ch_G p)) (under_ch a (scale256 (ch_B s) f) (ch_B p)))"

definition colour_ok :: "'f Renderer \<Rightarrow> bool" where
  "colour_ok r \<longleftrightarrow> is_u8 (r_calpha r) \<and> is_u8 (r_cred r) \<and> is_u8 (r_cgreen r) \<and> is_u8 (r_cblue r)"

text \<open>The weight of the current colour under the mask value \<open>m\<close>.\<close>

definition weight :: "'f Renderer \<Rightarrow> jbyte \<Rightarrow> int" where
  "weight r m = scale256 (r_calpha r) ((m AND 255) + 1)"

text \<open>The mask value that a sum of coverage deltas stands for.\<close>

definition aa_cov :: "'f Renderer \<Rightarrow> jint \<Rightarrow> jbyte" where
  "aa_cov r rel = (if rel = 0 then 0 else r_alphaMap r ! nat rel)"

lemma byte_frac: "0 \<le> ((m :: int) AND 255) + 1" "((m :: int) AND 255) + 1 \<le> 256"
  by simp_all

lemma cov_drop:
  assumes "is_u8 c"
  shows "drop_bit 8 (s32 (((m AND 255) + 1) * c)) = scale256 c ((m AND 255) + 1)"
  using drop8_scale256 [OF assms byte_frac, of m] by (simp add: mult.commute)

lemma weight_u8 [rng]: "colour_ok r \<Longrightarrow> is_u8 (weight r m)"
  unfolding weight_def colour_ok_def by (intro scale256_u8 byte_frac) simp

lemma weight_0: "colour_ok r \<Longrightarrow> weight r 0 = 0"
  by (simp add: weight_def colour_ok_def scale256_def is_u8_def)

lemma over_px_0: "is_jint p \<Longrightarrow> over_px 0 cr cg cb p = p"
  by (simp add: over_px_def argb_of_channels)

lemma over_px_255: "over_px 255 cr cg cb p = argb 255 cr cg cb"
  by (simp add: over_px_def)

lemma over_px_blend:
  "is_u8 w \<Longrightarrow> is_u8 cr \<Longrightarrow> is_u8 cg \<Longrightarrow> is_u8 cb \<Longrightarrow>
   blendSrcOver8888_pre p w cr cg cb = over_px w cr cg cb p"
  by (simp add: over_px_def blendSrcOver8888_pre_eq)

lemma over_px_jint [rng, simp]: "is_jint (over_px w cr cg cb p)"
  by (simp add: over_px_def)

lemma pt_over_px_jint [rng, simp]: "is_jint (pt_over_px f s p)"
  by (simp add: pt_over_px_def Let_def)

lemma pt_over_px_blend:
  assumes "0 \<le> f" "f \<le> 256" "premul s"
  shows "blendSrcOver8888_pre_pre p f (ch_A s) (ch_R s) (ch_G s) (ch_B s) = pt_over_px f s p"
proof -
  have "0 \<le> ch_R s" "0 \<le> ch_G s" "0 \<le> ch_B s" using ch_u8 [of s] by (auto simp: is_u8_def)
  then show ?thesis
    using assms unfolding pt_over_px_def premul_def by (intro blendSrcOver8888_pre_pre_eq) auto
qed

lemma modify_in [arr]: "in_arr d i \<Longrightarrow> modify d i f = Some (d[nat i := f (d ! nat i)])"
  by (simp add: modify_def arr)

lemma update_same: "d[i := d ! i] = d"
  by simp

section \<open>The bodies meet their contract\<close>

lemma srcover_px_store:
  assumes "colour_ok r" "in_arr d i"
  shows "srcover_px r m i d = Some (d[nat i :=
    (if weight r m = 0 then d ! nat i
     else over_px (weight r m) (r_cred r) (r_cgreen r) (r_cblue r) (d ! nat i))])"
proof -
  have w: "drop_bit 8 (s32 (((m AND 255) + 1) * r_calpha r)) = weight r m"
    unfolding weight_def by (rule cov_drop) (use assms in \<open>simp add: colour_ok_def\<close>)
  have u: "is_u8 (weight r m)" using assms(1) by (rule weight_u8)
  then have "weight r m > 0 \<longleftrightarrow> weight r m \<noteq> 0" by (auto simp: is_u8_def)
  then show ?thesis
    unfolding srcover_px_def Let_def w
    using assms u by (simp add: arr MAX_ALPHA_def over_px_255 over_px_blend colour_ok_def)
qed

definition srcover_val :: "'f Renderer \<Rightarrow> jbyte \<Rightarrow> jint \<Rightarrow> jint" where
  "srcover_val r m p = (if weight r m = 0 then p else over_px (weight r m) (r_cred r) (r_cgreen r) (r_cblue r) p)"

interpretation srcover_mask: pixel_body "blitSrcOverMask8888_pre_px r"
  "\<lambda>m _. srcover_val r m" "\<lambda>_ _. colour_ok r" for r :: "'f Renderer"
  by unfold_locales (auto simp: blitSrcOverMask8888_pre_px_def srcover_px_store srcover_val_def weight_0)

interpretation srcover_aa: pixel_body "blitSrcOver8888_pre_px r"
  "\<lambda>rel _. srcover_val r (aa_cov r rel)"
  "\<lambda>rel _. colour_ok r \<and> in_arr (r_alphaMap r) rel" for r :: "'f Renderer"
  by unfold_locales
    (auto simp: blitSrcOver8888_pre_px_def srcover_px_store srcover_val_def weight_0 arr aa_cov_def)

text \<open>Source over with a paint.\<close>

definition pt_srcover_val :: "jint \<Rightarrow> jbyte \<Rightarrow> jint \<Rightarrow> jint" where
  "pt_srcover_val s m p = (if scale256 (ch_A s) ((m AND 255) + 1) = 0 then p
     else pt_over_px ((m AND 255) + 1) s p)"

lemma scale256_255:
  assumes "scale256 a f = 255" "is_u8 a" "f \<le> 256"
  shows "a = 255 \<and> f = 256"
proof -
  have a: "a = 255" using assms scale256_le [of a f] by (auto simp: is_u8_def)
  have "255 * 256 \<le> 255 * f"
    using assms(1) a unfolding scale256_def by (simp add: div_int_pos_iff)
  with a assms(3) show ?thesis by simp
qed

lemma pt_over_px_full:
  assumes "is_jint s" "ch_A s = 255"
  shows "pt_over_px 256 s p = s"
  using argb_of_channels [OF assms(1)] assms(2)
  by (simp add: pt_over_px_def scale256_def under_ch_def)

lemma pt_srcover_px_store:
  assumes "premul s" "is_jint s" "in_arr d i"
  shows "pt_srcover_px s m i d = Some (d[nat i := pt_srcover_val s m (d ! nat i)])"
proof -
  let ?f = "(m AND 255) + 1" and ?w = "scale256 (ch_A s) ((m AND 255) + 1)"
  have w: "drop_bit 8 (s32 (((m AND 255) + 1) * ch_A s)) = ?w"
    by (rule cov_drop) simp
  have u: "is_u8 ?w" by (intro scale256_u8 byte_frac) simp
  consider "?w = 0" | "?w = 255" | "0 < ?w" "?w \<noteq> 255"
    using u unfolding is_u8_def by linarith
  then show ?thesis
  proof cases
    case 2
    then have "ch_A s = 255" "?f = 256" using scale256_255 [of "ch_A s" ?f] byte_frac(2) by auto
    then show ?thesis
      using 2 assms unfolding pt_srcover_px_def Let_def w pt_srcover_val_def MAX_ALPHA_def
      by (simp only: arr pt_over_px_full if_True) simp
  next
    case 3
    then show ?thesis
      using assms byte_frac [of m] unfolding pt_srcover_px_def Let_def w pt_srcover_val_def MAX_ALPHA_def
      by (simp only: arr pt_over_px_blend if_True if_False) simp
  qed (use assms in \<open>simp only: pt_srcover_px_def Let_def w pt_srcover_val_def MAX_ALPHA_def, simp\<close>)
qed

lemma pt_srcover_val_0: "pt_srcover_val s 0 p = p"
  by (simp add: pt_srcover_val_def scale256_def ch_A_def)

text \<open>A paint colour at an index of \<^verbatim>\<open>_paint\<close>.\<close>

definition paint_ok :: "'f Renderer \<Rightarrow> int \<Rightarrow> bool" where
  "paint_ok r k \<longleftrightarrow> in_arr (r_paint r) k \<and> premul (r_paint r ! nat k) \<and> is_jint (r_paint r ! nat k)"

interpretation pt_srcover_mask: pixel_body "blitPTSrcOverMask8888_pre_px r"
  "\<lambda>m k. pt_srcover_val (r_paint r ! nat k) m" "\<lambda>_ k. paint_ok r k" for r :: "'f Renderer"
  by unfold_locales
    (auto simp: blitPTSrcOverMask8888_pre_px_def pt_srcover_px_store paint_ok_def arr pt_srcover_val_0)

interpretation pt_srcover_aa: pixel_body "blitPTSrcOver8888_pre_px r"
  "\<lambda>rel k. pt_srcover_val (r_paint r ! nat k) (aa_cov r rel)"
  "\<lambda>rel k. paint_ok r k \<and> in_arr (r_alphaMap r) rel" for r :: "'f Renderer"
  by unfold_locales
    (auto simp: blitPTSrcOver8888_pre_px_def pt_srcover_px_store paint_ok_def arr pt_srcover_val_0 aa_cov_def)

text \<open>Source. The new pixel, as a function of the coverage.\<close>

definition src_val :: "'f Renderer \<Rightarrow> jint \<Rightarrow> jint \<Rightarrow> jint" where
  "src_val r cov p =
     (if cov = 255 then argb (r_calpha r) (r_cred r) (r_cgreen r) (r_cblue r)
      else if cov = 0 then p
      else let u = scale256 (r_calpha r) (cov + 1); v = 255 - cov in
        if u * 255 + v * ch_A p = 0 then 0
        else argb (mix_ch u v 255 (ch_A p)) (mix_ch u v (r_cred r) (ch_R p))
               (mix_ch u v (r_cgreen r) (ch_G p)) (mix_ch u v (r_cblue r) (ch_B p)))"

lemma src_weights:
  assumes "is_u8 c" "is_u8 cov"
  shows "is_u8 (scale256 c (cov + 1))" "is_u8 (255 - cov)" "scale256 c (cov + 1) + (255 - cov) \<le> 255"
proof -
  show "is_u8 (scale256 c (cov + 1))" using assms by (intro scale256_u8) (auto simp: is_u8_def)
  show "is_u8 (255 - cov)" using assms by (auto simp: is_u8_def)
  have "c * (cov + 1) \<le> 255 * (cov + 1)" using assms by (intro mult_right_mono) (auto simp: is_u8_def)
  then have "c * (cov + 1) div 256 \<le> (cov * 256 + 255) div 256"
    using assms by (intro zdiv_mono1) (auto simp: is_u8_def)
  also have "\<dots> = cov" by simp
  finally show "scale256 c (cov + 1) + (255 - cov) \<le> 255" by (simp add: scale256_def)
qed

lemma src_px_store:
  assumes "colour_ok r" "in_arr d i"
  shows "src_px r (m AND 255) i d = Some (d[nat i := src_val r (m AND 255) (d ! nat i)])"
proof -
  have c: "is_u8 (r_calpha r)" "is_u8 (r_cred r)" "is_u8 (r_cgreen r)" "is_u8 (r_cblue r)"
    using assms(1) by (auto simp: colour_ok_def)
  have m: "is_u8 (m AND 255)" by (rule is_u8_and_255)
  then have pos: "m AND 255 > 0 \<longleftrightarrow> m AND 255 \<noteq> 0" by (auto simp: is_u8_def)
  note b = blendSrc8888_pre_eq [OF src_weights [OF c(1) m] c(2-4)]
  have w: "drop_bit 8 (s32 (((m AND 255) + 1) * r_calpha r)) = scale256 (r_calpha r) ((m AND 255) + 1)"
    by (rule cov_drop [OF c(1)])
  show ?thesis
    unfolding src_px_def w MAX_ALPHA_def pos src_val_def Let_def b
    using assms(2) by (simp only: arr if_distrib [of Some] list_update_id split: if_split) simp
qed

interpretation src_mask: pixel_body "blitSrcMask8888_pre_px r"
  "\<lambda>m _. src_val r (m AND 255)" "\<lambda>_ _. colour_ok r" for r :: "'f Renderer"
  by unfold_locales (simp only: blitSrcMask8888_pre_px_def src_px_store)

interpretation src_aa: pixel_body "blitSrc8888_pre_px r"
  "\<lambda>rel _. src_val r (r_alphaMap r ! nat rel AND 255)"
  "\<lambda>rel _. colour_ok r \<and> in_arr (r_alphaMap r) rel" for r :: "'f Renderer"
  by unfold_locales (simp only: blitSrc8888_pre_px_def arr Option.bind.simps src_px_store)

text \<open>Source with a paint: the pixel is what \<^verbatim>\<open>blendSrc8888_pre_pre\<close> returns, for every paint.\<close>

definition pt_src_val :: "jint \<Rightarrow> jint \<Rightarrow> jint \<Rightarrow> jint" where
  "pt_src_val s cov p =
     (if cov = 255 then s else if cov > 0
      then blendSrc8888_pre_pre p (scale256 (ch_A s) (cov + 1)) (255 - cov) (ch_R s) (ch_G s) (ch_B s)
      else p)"

lemma pt_src_px_store:
  assumes "in_arr d i"
  shows "pt_src_px s (m AND 255) i d = Some (d[nat i := pt_src_val s (m AND 255) (d ! nat i)])"
proof -
  have w: "drop_bit 8 (s32 (((m AND 255) + 1) * ch_A s)) = scale256 (ch_A s) ((m AND 255) + 1)"
    by (rule cov_drop) simp
  show ?thesis
    unfolding pt_src_px_def Let_def w MAX_ALPHA_def pt_src_val_def
    using assms by (simp only: arr if_distrib [of Some] list_update_id split: if_split) simp
qed

interpretation pt_src_mask: pixel_body "blitPTSrcMask8888_pre_px r"
  "\<lambda>m k. pt_src_val (r_paint r ! nat k) (m AND 255)" "\<lambda>_ k. in_arr (r_paint r) k" for r :: "'f Renderer"
  by unfold_locales (simp only: blitPTSrcMask8888_pre_px_def arr Option.bind.simps pt_src_px_store)

interpretation pt_src_aa: pixel_body "blitPTSrc8888_pre_px r"
  "\<lambda>rel k. pt_src_val (r_paint r ! nat k) (r_alphaMap r ! nat rel AND 255)"
  "\<lambda>rel k. in_arr (r_paint r) k \<and> in_arr (r_alphaMap r) rel" for r :: "'f Renderer"
  by unfold_locales (simp only: blitPTSrc8888_pre_px_def arr Option.bind.simps pt_src_px_store)

section \<open>Whole routines\<close>

text \<open>The rectangle that a routine draws lies inside of the image, and its coverage inside of the
  mask.\<close>

definition area_ok :: "'f Renderer \<Rightarrow> int \<Rightarrow> bool" where
  "area_ok r h \<longleftrightarrow> r_imagePixelStride r = 1 \<and> 0 \<le> r_minTouched r \<and> 0 \<le> r_currImageOffset r \<and>
     0 < r_imageScanlineStride r \<and> 0 \<le> touched_w r \<and> touched_w r \<le> r_imageScanlineStride r \<and>
     length (r_data r) < 2 ^ 31 \<and>
     (0 < h \<longrightarrow> r_currImageOffset r + (h - 1) * r_imageScanlineStride r + r_minTouched r + touched_w r
        \<le> int (length (r_data r)))"

definition mask_ok :: "'f Renderer \<Rightarrow> int \<Rightarrow> int \<Rightarrow> bool" where
  "mask_ok r os h \<longleftrightarrow> 0 \<le> r_maskOffset r \<and> 0 \<le> os \<and> length (r_mask_byteData r) < 2 ^ 31 \<and>
     (0 < h \<longrightarrow> r_maskOffset r + (h - 1) * os + touched_w r \<le> int (length (r_mask_byteData r)))"

definition area_start :: "'f Renderer \<Rightarrow> nat" where
  "area_start r = nat (r_currImageOffset r + r_minTouched r)"

lemma row_le:
  assumes "j < nat h" "0 \<le> (s :: int)"
  shows "int j * s \<le> (h - 1) * s" "0 \<le> int j * s"
  using assms by (auto intro: mult_right_mono)

lemma area_row:
  assumes "area_ok r h" "j < nat h"
  shows "is_jint (r_currImageOffset r + int j * r_imageScanlineStride r)"
    and "row_iidx r (r_currImageOffset r + int j * r_imageScanlineStride r) =
      int (area_start r + j * nat (r_imageScanlineStride r))"
    and "int (area_start r + j * nat (r_imageScanlineStride r)) + int (nat (touched_w r)) \<le> int (length (r_data r))"
proof -
  have l: "int j * r_imageScanlineStride r \<le> (h - 1) * r_imageScanlineStride r" "0 \<le> int j * r_imageScanlineStride r"
    using assms by (intro row_le; simp add: area_ok_def)+
  have h: "0 < h" using assms(2) by simp
  define q Q where "q = int j * r_imageScanlineStride r" and "Q = (h - 1) * r_imageScanlineStride r"
  have b: "0 \<le> r_minTouched r" "0 \<le> r_currImageOffset r" "0 \<le> touched_w r" "0 \<le> q"
    "r_currImageOffset r + q + r_minTouched r + touched_w r \<le> int (length (r_data r))"
    "int (length (r_data r)) < 2147483648" "r_imagePixelStride r = 1" "0 < r_imageScanlineStride r"
    using assms(1) h l unfolding area_ok_def q_def [symmetric] Q_def [symmetric] by auto
  then have e: "int (area_start r + j * nat (r_imageScanlineStride r)) = r_currImageOffset r + r_minTouched r + q"
    by (simp add: area_start_def q_def)
  show "is_jint (r_currImageOffset r + int j * r_imageScanlineStride r)"
    using b unfolding is_jint_def q_def [symmetric] by simp
  show "row_iidx r (r_currImageOffset r + int j * r_imageScanlineStride r) =
      int (area_start r + j * nat (r_imageScanlineStride r))"
    using b unfolding row_iidx_def q_def [symmetric] e by simp
  show "int (area_start r + j * nat (r_imageScanlineStride r)) + int (nat (touched_w r)) \<le> int (length (r_data r))"
    using b unfolding e by simp
qed

lemma mask_row:
  assumes "mask_ok r os h" "j < nat h" "0 \<le> touched_w r"
  shows "is_jint (r_maskOffset r + int j * os)"
    and "k < nat (touched_w r) \<Longrightarrow> in_arr (r_mask_byteData r) (r_maskOffset r + int j * os + int k)"
proof -
  have l: "int j * os \<le> (h - 1) * os" "0 \<le> int j * os"
    using assms by (intro row_le; simp add: mask_ok_def)+
  have h: "0 < h" using assms(2) by simp
  define q Q where "q = int j * os" and "Q = (h - 1) * os"
  have b: "0 \<le> r_maskOffset r" "0 \<le> q" "r_maskOffset r + q + touched_w r \<le> int (length (r_mask_byteData r))"
    "int (length (r_mask_byteData r)) < 2147483648"
    using assms(1) h l unfolding mask_ok_def q_def [symmetric] Q_def [symmetric] by auto
  show "k < nat (touched_w r) \<Longrightarrow> in_arr (r_mask_byteData r) (r_maskOffset r + int j * os + int k)"
    using b unfolding in_arr_def q_def [symmetric] by linarith
  show "is_jint (r_maskOffset r + int j * os)"
    using b assms(3) unfolding is_jint_def q_def [symmetric] by simp
qed

context pixel_body
begin

lemma blit_rows_mask_upd:
  assumes "area_ok r h" "mask_ok r os h"
    and "\<And>j k. j < nat h \<Longrightarrow> k < nat (touched_w r) \<Longrightarrow>
      ok (r_mask_byteData r ! nat (r_maskOffset r + int j * os + int k)) (int k)"
  shows "blit_rows_mask r body os h = Some (r\<lparr>r_data :=
    upd_rows (r_data r) (area_start r) (nat (r_imageScanlineStride r)) (nat (touched_w r)) (nat h)
      (\<lambda>j k. val (r_mask_byteData r ! nat (r_maskOffset r + int j * os + int k)) (int k))\<rparr>)"
proof -
  let ?W = "nat (r_imageScanlineStride r)" and ?w = "nat (touched_w r)"
  let ?row = "\<lambda>imageOffset alphaOffset d. mask_loop body (r_mask_byteData r) alphaOffset ?w
              (r_imagePixelStride r) 0 (row_iidx r imageOffset) d"
  have b: "r_imagePixelStride r = 1" "r_imageScanlineStride r = int ?W" "?w \<le> ?W" "0 < ?W"
    "length (r_data r) < 2 ^ 31" "0 \<le> touched_w r"
    using assms(1) by (auto simp: area_ok_def)
  have "for_rows ?row (int ?W) os (nat h) (r_currImageOffset r) (r_maskOffset r) (r_data r) =
    Some (upd_rows (r_data r) (area_start r) ?W ?w (nat h)
      (\<lambda>j k. val (r_mask_byteData r ! nat (r_maskOffset r + int j * os + int k)) (int k)))"
  proof (rule for_rows_upd [where n = "length (r_data r)"])
    fix j and d :: "jint list" assume j: "j < nat h" and d: "length d = length (r_data r)"
    have "mask_loop body (r_mask_byteData r) (r_maskOffset r + int j * os) ?w 1 0 (int (area_start r + j * ?W)) d =
      Some (upd_seg d (nat (int (area_start r + j * ?W))) ?w
        (\<lambda>k. val (r_mask_byteData r ! nat (r_maskOffset r + int j * os + int k)) (0 + int k)))"
      using area_row(3) [OF assms(1) j] mask_row(2) [OF assms(2) j b(6)] assms(3) [OF j] b d
      by (intro mask_loop_upd) auto
    then show "?row (r_currImageOffset r + int j * int ?W) (r_maskOffset r + int j * os) d =
        Some (upd_seg d (area_start r + j * ?W) ?w
          (\<lambda>k. val (r_mask_byteData r ! nat (r_maskOffset r + int j * os + int k)) (int k)))"
      unfolding b(2) [symmetric] area_row(2) [OF assms(1) j] b(1) by (simp only: nat_int add_0)
  next
    fix j assume j: "j < nat h"
    show "is_jint (r_currImageOffset r + int j * int ?W) \<and> is_jint (r_maskOffset r + int j * os)"
      unfolding b(2) [symmetric] using area_row(1) [OF assms(1) j] mask_row(1) [OF assms(2) j b(6)] by simp
  qed (use b in auto)
  then show ?thesis
    unfolding blit_rows_mask_def b(2) [symmetric] by simp
qed

lemma blit_rows_aa_upd:
  assumes "area_ok r 1" "nat (touched_w r) \<le> length (r_rowAAInt r)"
    and "\<And>k. k < nat (touched_w r) \<Longrightarrow> ok (s32 (\<Sum>j\<le>k. r_rowAAInt r ! j)) (int k)"
  shows "blit_rows_aa r body 1 = Some (r\<lparr>
    r_rowAAInt := upd_seg (r_rowAAInt r) 0 (nat (touched_w r)) (\<lambda>_ _. 0),
    r_data := upd_seg (r_data r) (area_start r) (nat (touched_w r))
      (\<lambda>k. val (s32 (\<Sum>j\<le>k. r_rowAAInt r ! j)) (int k))\<rparr>)"
proof -
  let ?w = "nat (touched_w r)"
  have b: "r_imagePixelStride r = 1" "length (r_data r) < 2 ^ 31"
    using assms(1) by (auto simp: area_ok_def)
  have i: "row_iidx r (r_currImageOffset r) = int (area_start r)"
    "int (area_start r) + int ?w \<le> int (length (r_data r))"
    using area_row(2,3) [OF assms(1), of 0] by simp_all
  have "aa_loop body (r_rowAAInt r) (int 0) ?w 0 1 0 (int (area_start r)) (r_data r) =
    Some (upd_seg (r_rowAAInt r) 0 ?w (\<lambda>_ _. 0),
      upd_seg (r_data r) (nat (int (area_start r))) ?w
        (\<lambda>k. val (s32 (0 + (\<Sum>j\<le>k. r_rowAAInt r ! (0 + j)))) (0 + int k)))"
    by (rule aa_loop_upd) (use assms b i in simp_all)
  then show ?thesis
    unfolding blit_rows_aa_def by (simp add: b i)
qed

end

text \<open>In an image of \<open>jint\<close>s the cases of a full and of an empty weight are instances of the
  general formula.\<close>

lemma srcover_val_over_px:
  assumes "is_jint p"
  shows "srcover_val r m p = over_px (weight r m) (r_cred r) (r_cgreen r) (r_cblue r) p"
  using over_px_0 [OF assms] by (simp add: srcover_val_def)

lemma scale256_0_le:
  assumes "scale256 a f = 0" "0 \<le> s" "s \<le> a" "0 \<le> f"
  shows "scale256 s f = 0"
  using assms scale256_mono [of s a f] scale256_nonneg [of s f] by simp

lemma pt_srcover_val_over_px:
  assumes "premul s" "is_jint p"
  shows "pt_srcover_val s m p = pt_over_px ((m AND 255) + 1) s p"
proof (cases "scale256 (ch_A s) ((m AND 255) + 1) = 0")
  case True
  have "0 \<le> ch_R s" "0 \<le> ch_G s" "0 \<le> ch_B s" using ch_u8 [of s] by (auto simp: is_u8_def)
  then have z: "scale256 (ch_R s) ((m AND 255) + 1) = 0" "scale256 (ch_G s) ((m AND 255) + 1) = 0"
    "scale256 (ch_B s) ((m AND 255) + 1) = 0"
    using assms(1) byte_frac(1) [of m] unfolding premul_def by (blast intro: scale256_0_le [OF True])+
  have "pt_over_px ((m AND 255) + 1) s p = argb (ch_A p) (ch_R p) (ch_G p) (ch_B p)"
    unfolding pt_over_px_def Let_def True z by (simp add: under_ch_def)
  then show ?thesis
    using assms(2) by (simp only: pt_srcover_val_def True argb_of_channels simp_thms if_True)
qed (simp only: pt_srcover_val_def if_False)

lemma over_px_premul:
  assumes "is_u8 w" "is_u8 cr" "is_u8 cg" "is_u8 cb" "premul p"
  shows "premul (over_px w cr cg cb p)"
  using blendSrcOver8888_pre_premul [OF assms] over_px_blend [OF assms(1-4)] by simp

lemma pt_over_px_premul:
  assumes "0 \<le> f" "f \<le> 256" "premul s" "premul p"
  shows "premul (pt_over_px f s p)"
  using blendSrcOver8888_pre_pre_premul [OF assms] pt_over_px_blend [OF assms(1-3)] by simp

section \<open>LCD masks\<close>

definition gamma_ok :: "'f Gamma \<Rightarrow> bool" where
  "gamma_ok g \<longleftrightarrow> length (gammaArray g) = 256 \<and> length (invGammaArray g) = 256 \<and>
     (\<forall>x \<in> set (gammaArray g). is_u8 x) \<and> (\<forall>x \<in> set (invGammaArray g). is_u8 x)"

text \<open>One channel of a pixel under an LCD mask: gamma is taken off, interpolated, put on again.\<close>

definition lcd_ch :: "'f Gamma \<Rightarrow> int \<Rightarrow> int \<Rightarrow> int \<Rightarrow> int" where
  "lcd_ch g w s d = gammaArray g ! nat (over_ch w s (invGammaArray g ! nat d))"

definition lcd_weight :: "int \<Rightarrow> jbyte \<Rightarrow> int" where
  "lcd_weight ca m = (if ca < 255 then scale256 ca ((m AND 255) + 1) else m AND 255)"

definition lcd_val :: "'f Gamma \<Rightarrow> int \<Rightarrow> int \<Rightarrow> int \<Rightarrow> int \<Rightarrow> jbyte \<Rightarrow> jbyte \<Rightarrow> jbyte \<Rightarrow> jint \<Rightarrow> jint" where
  "lcd_val g ca cr cg cb mr mg mb p =
     (let wr = lcd_weight ca mr; wg = lcd_weight ca mg; wb = lcd_weight ca mb in
      if wr AND wg AND wb = 255 then argb 255 cr cg cb
      else argb 255 (lcd_ch g wr cr (ch_R p)) (lcd_ch g wg cg (ch_G p)) (lcd_ch g wb cb (ch_B p)))"

lemma gamma_load:
  assumes "gamma_ok g" "is_u8 i"
  shows "load (gammaArray g) i = Some (gammaArray g ! nat i)" "is_u8 (gammaArray g ! nat i)"
    "load (invGammaArray g) i = Some (invGammaArray g ! nat i)" "is_u8 (invGammaArray g ! nat i)"
  using assms by (auto simp: gamma_ok_def is_u8_def load_def)

lemma lcd_weight_u8: "is_u8 ca \<Longrightarrow> is_u8 (lcd_weight ca m)"
  unfolding lcd_weight_def using byte_frac [of m] scale256_u8 [of ca "(m AND 255) + 1"] is_u8_and_255 [of m]
  by (simp only: split: if_split) auto

lemma lcd_lerp:
  assumes "is_u8 w" "is_u8 s" "is_u8 d"
  shows "div255 (s32 (w * s + (255 - w) * d)) = over_ch w s d"
  using div255_lerp [OF assms] assms by (simp add: mult.commute is_u8_def)

lemma blendLCD_val:
  assumes "gamma_ok g" "is_u8 wr" "is_u8 wg" "is_u8 wb" "is_u8 cr" "is_u8 cg" "is_u8 cb"
  shows "blendLCDSrcOver8888_pre (gammaArray g) (invGammaArray g) p wr wg wb cr cg cb =
    Some (argb 255 (lcd_ch g wr cr (ch_R p)) (lcd_ch g wg cg (ch_G p)) (lcd_ch g wb cb (ch_B p)))"
  unfolding blendLCDSrcOver8888_pre_def lcd_ch_def ch_defs
  using assms gamma_load [OF assms(1)] gamma_load(4) [OF assms(1) is_u8_and_255]
  by (simp only: is_u8_and_255 Option.bind.simps lcd_lerp over_ch_u8)

lemma lcd_px_store:
  assumes "gamma_ok g" "is_u8 ca" "is_u8 cr" "is_u8 cg" "is_u8 cb" "in_arr d i"
  shows "lcd_px g ca cr cg cb mr mg mb i d = Some (d[nat i := lcd_val g ca cr cg cb mr mg mb (d ! nat i)])"
proof -
  have "(if ca < MAX_ALPHA
             then (drop_bit 8 (s32 (((mr AND 255) + 1) * ca)), drop_bit 8 (s32 (((mg AND 255) + 1) * ca)),
                   drop_bit 8 (s32 (((mb AND 255) + 1) * ca)))
             else (mr AND 255, mg AND 255, mb AND 255)) = (lcd_weight ca mr, lcd_weight ca mg, lcd_weight ca mb)"
    unfolding lcd_weight_def MAX_ALPHA_def using assms(2) by (simp only: cov_drop split: if_split) simp
  then show ?thesis
    unfolding lcd_px_def Let_def lcd_val_def MAX_ALPHA_def
    using assms lcd_weight_u8 [OF assms(2)]
    by (simp only: prod.case blendLCD_val arr Option.bind.simps if_distrib [of Some] if_distrib [of "list_update d (nat i)"]
      cong: if_cong)
qed

interpretation lcd_mask: lcd_body "lcd_px g ca cr cg cb" "lcd_val g ca cr cg cb"
  "gamma_ok g \<and> is_u8 ca \<and> is_u8 cr \<and> is_u8 cg \<and> is_u8 cb" for g :: "'f Gamma" and ca cr cg cb
  by unfold_locales (blast intro: lcd_px_store)

section \<open>Properties\<close>

lemma blitSrcOverMask8888_pre_upd:
  assumes "area_ok r h" "mask_ok r (r_alphaWidth r) h" "colour_ok r" "\<forall>p \<in> set (r_data r). is_jint p"
  shows "blitSrcOverMask8888_pre r h = Some (r\<lparr>r_data :=
    upd_rows (r_data r) (area_start r) (nat (r_imageScanlineStride r)) (nat (touched_w r)) (nat h)
      (\<lambda>j k. over_px (weight r (r_mask_byteData r ! nat (r_maskOffset r + int j * r_alphaWidth r + int k)))
        (r_cred r) (r_cgreen r) (r_cblue r))\<rparr>)"
  unfolding blitSrcOverMask8888_pre_def
  using srcover_mask.blit_rows_mask_upd [OF assms(1,2)] assms(3,4)
  by (simp cong: upd_rows_cong add: srcover_val_over_px)

text \<open>C29: \<^verbatim>\<open>blitSrcOverMask8888_pre\<close> is memory safe when the rectangle lies in the image and in the mask,
  changes nothing but the pixels of the rectangle, and every pixel of it becomes the Porter-Duff
  source-over of the current colour weighted with alpha and mask.\<close>

theorem blitSrcOverMask8888_pre_correct:
  assumes "area_ok r h" "mask_ok r (r_alphaWidth r) h" "colour_ok r" "\<forall>p \<in> set (r_data r). is_jint p"
  shows "blitSrcOverMask8888_pre r h = Some (r\<lparr>r_data :=
    upd_rows (r_data r) (area_start r) (nat (r_imageScanlineStride r)) (nat (touched_w r)) (nat h)
      (\<lambda>j k. over_px (weight r (r_mask_byteData r ! nat (r_maskOffset r + int j * r_alphaWidth r + int k)))
        (r_cred r) (r_cgreen r) (r_cblue r))\<rparr>)"
  by (rule blitSrcOverMask8888_pre_upd [OF assms])

text \<open>A renderer for the witnesses: an image of 3 by 2 pixels, the colour opaque red, columns 1 and 2
  touched.\<close>

definition wit_surface :: Surface where
  "wit_surface = \<lparr>s_width = 3, s_height = 2, s_offset = 0, s_scanlineStride = 3, s_pixelStride = 1,
     s_imageType = TYPE_INT_ARGB_PRE, s_data = [0, 0, 0, 0, 0, 0]\<rparr>"

definition wit_r :: "unit Renderer" where
  "wit_r = (zero_Renderer () wit_surface)\<lparr>
     r_calpha := 255, r_cred := 255, r_data := [-1, -1, -1, -16777216, -16777216, -16777216],
     r_width := 3, r_height := 2, r_imageScanlineStride := 3, r_imagePixelStride := 1,
     r_minTouched := 1, r_maxTouched := 2, r_alphaWidth := 2, r_mask_byteData := [-1, 0, 127, -128],
     r_alphaMap := [0, 127, -1], r_rowAAInt := [1, 1], r_paint := [-1, 1342177280]\<rparr>"

lemmas wit_simps = wit_r_def wit_surface_def zero_Renderer_def area_ok_def mask_ok_def colour_ok_def
  touched_w_def is_jint_def is_u8_def paint_ok_def in_arr_def premul_def ch_defs

lemma wit_r_ok:
  "area_ok wit_r 2" "mask_ok wit_r (r_alphaWidth wit_r) 2" "colour_ok wit_r"
  "\<forall>p \<in> set (r_data wit_r). is_jint p" "mask_ok wit_r 0 2" "area_ok wit_r 1"
  by (simp_all add: wit_simps)

theorem blitSrcOverMask8888_pre_correct_witness:
  "map_option r_data (blitSrcOverMask8888_pre wit_r 2) =
     Some [-1, - 65536, -1, -16777216, -8454144, -8388608]"
  unfolding blitSrcOverMask8888_pre_correct [OF wit_r_ok(1-4)] by code_simp

lemma blitSrcOver8888_pre_upd:
  assumes "area_ok r 1" "nat (touched_w r) \<le> length (r_rowAAInt r)" "colour_ok r"
    and "\<forall>k < nat (touched_w r). in_arr (r_alphaMap r) (s32 (\<Sum>j\<le>k. r_rowAAInt r ! j))"
    and "\<forall>p \<in> set (r_data r). is_jint p"
  shows "blitSrcOver8888_pre r 1 = Some (r\<lparr>
    r_rowAAInt := upd_seg (r_rowAAInt r) 0 (nat (touched_w r)) (\<lambda>_ _. 0),
    r_data := upd_seg (r_data r) (area_start r) (nat (touched_w r))
      (\<lambda>k. over_px (weight r (aa_cov r (s32 (\<Sum>j\<le>k. r_rowAAInt r ! j))))
        (r_cred r) (r_cgreen r) (r_cblue r))\<rparr>)"
proof -
  have e: "upd_seg (r_data r) (area_start r) (nat (touched_w r))
      (\<lambda>k. srcover_val r (aa_cov r (s32 (\<Sum>j\<le>k. r_rowAAInt r ! j)))) =
    upd_seg (r_data r) (area_start r) (nat (touched_w r))
      (\<lambda>k. over_px (weight r (aa_cov r (s32 (\<Sum>j\<le>k. r_rowAAInt r ! j))))
        (r_cred r) (r_cgreen r) (r_cblue r))"
    using assms(5) by (intro upd_seg_cong_set) (simp add: srcover_val_over_px)
  show ?thesis
    unfolding blitSrcOver8888_pre_def e [symmetric]
    by (rule srcover_aa.blit_rows_aa_upd) (use assms in auto)
qed

text \<open>\<^verbatim>\<open>blitSrcOver8888_pre\<close> draws one line from the accumulation buffer: the coverage of pixel \<open>k\<close>
  is the prefix sum of the deltas \<open>0..k\<close> looked up in \<^verbatim>\<open>alphaMap\<close>, the pixel becomes the source-over
  of the current colour, the deltas that were used are cleared, and nothing else changes.\<close>

lemma blitSrcOver8888_pre_correct:
  assumes "area_ok r 1" "nat (touched_w r) \<le> length (r_rowAAInt r)" "colour_ok r"
    and "\<forall>k < nat (touched_w r). in_arr (r_alphaMap r) (s32 (\<Sum>j\<le>k. r_rowAAInt r ! j))"
    and "\<forall>p \<in> set (r_data r). is_jint p"
  shows "blitSrcOver8888_pre r 1 = Some (r\<lparr>
    r_rowAAInt := upd_seg (r_rowAAInt r) 0 (nat (touched_w r)) (\<lambda>_ _. 0),
    r_data := upd_seg (r_data r) (area_start r) (nat (touched_w r))
      (\<lambda>k. over_px (weight r (aa_cov r (s32 (\<Sum>j\<le>k. r_rowAAInt r ! j))))
        (r_cred r) (r_cgreen r) (r_cblue r))\<rparr>)"
  by (rule blitSrcOver8888_pre_upd [OF assms])

lemma blitSrcOver8888_pre_correct_witness:
  "map_option (\<lambda>r. (r_rowAAInt r, r_data r)) (blitSrcOver8888_pre wit_r 1) =
     Some ([0, 0], [-1, - 32640, - 65536, -16777216, -16777216, -16777216])"
proof -
  have a: "\<forall>k < nat (touched_w wit_r). in_arr (r_alphaMap wit_r) (s32 (\<Sum>j\<le>k. r_rowAAInt wit_r ! j))"
    by code_simp
  have b: "nat (touched_w wit_r) \<le> length (r_rowAAInt wit_r)" by (simp add: wit_simps)
  show ?thesis unfolding blitSrcOver8888_pre_correct [OF wit_r_ok(6) b wit_r_ok(3) a wit_r_ok(4)] by code_simp
qed

text \<open>\<^verbatim>\<open>blitPTSrcOver8888_pre\<close> draws one line of premultiplied paint colours through the
  accumulated coverage; a fully opaque colour replaces the pixel, a transparent one leaves it.\<close>

lemma blitPTSrcOver8888_pre_correct:
  assumes "area_ok r 1" "nat (touched_w r) \<le> length (r_rowAAInt r)"
    and "\<forall>k < nat (touched_w r). paint_ok r (int k) \<and> in_arr (r_alphaMap r) (s32 (\<Sum>j\<le>k. r_rowAAInt r ! j))"
    and "\<forall>p \<in> set (r_data r). is_jint p"
  shows "blitPTSrcOver8888_pre r 1 = Some (r\<lparr>
    r_rowAAInt := upd_seg (r_rowAAInt r) 0 (nat (touched_w r)) (\<lambda>_ _. 0),
    r_data := upd_seg (r_data r) (area_start r) (nat (touched_w r))
      (\<lambda>k. pt_over_px ((aa_cov r (s32 (\<Sum>j\<le>k. r_rowAAInt r ! j)) AND 255) + 1) (r_paint r ! k))\<rparr>)"
proof -
  have e: "upd_seg (r_data r) (area_start r) (nat (touched_w r))
      (\<lambda>k. pt_srcover_val (r_paint r ! nat (int k)) (aa_cov r (s32 (\<Sum>j\<le>k. r_rowAAInt r ! j)))) =
    upd_seg (r_data r) (area_start r) (nat (touched_w r))
      (\<lambda>k. pt_over_px ((aa_cov r (s32 (\<Sum>j\<le>k. r_rowAAInt r ! j)) AND 255) + 1) (r_paint r ! k))"
    using assms(3,4) by (intro upd_seg_cong_set) (simp only: nat_int pt_srcover_val_over_px paint_ok_def)
  show ?thesis
    unfolding blitPTSrcOver8888_pre_def e [symmetric]
    by (rule pt_srcover_aa.blit_rows_aa_upd) (use assms in auto)
qed

lemma blitPTSrcOver8888_pre_correct_witness:
  "map_option (\<lambda>r. (r_rowAAInt r, r_data r)) (blitPTSrcOver8888_pre wit_r 1) =
     Some ([0, 0], [-1, -1, -5263441, -16777216, -16777216, -16777216])"
proof -
  have a: "\<forall>k < nat (touched_w wit_r). paint_ok wit_r (int k) \<and>
      in_arr (r_alphaMap wit_r) (s32 (\<Sum>j\<le>k. r_rowAAInt wit_r ! j))"
    by code_simp
  have b: "nat (touched_w wit_r) \<le> length (r_rowAAInt wit_r)" by (simp add: wit_simps)
  show ?thesis unfolding blitPTSrcOver8888_pre_correct [OF wit_r_ok(6) b a wit_r_ok(4)] by code_simp
qed

text \<open>no sequence of source-over blits breaks a premultiplied image: after
  \<^verbatim>\<open>blitSrcOverMask8888_pre\<close> and after \<^verbatim>\<open>blitPTSrcOverMask8888_pre\<close> every pixel still has colour
  channels that do not exceed its alpha.\<close>

lemma blit_mask_premultiplied:
  assumes "area_ok r h" "mask_ok r (r_alphaWidth r) h" "mask_ok r 0 h" "colour_ok r"
    and "\<forall>k < nat (touched_w r). paint_ok r (int k)"
    and "\<forall>p \<in> set (r_data r). is_jint p \<and> premul p"
  shows "\<exists>r1 r2. blitSrcOverMask8888_pre r h = Some r1 \<and> blitPTSrcOverMask8888_pre r h = Some r2 \<and>
    (\<forall>p \<in> set (r_data r1) \<union> set (r_data r2). is_jint p \<and> premul p)"
proof -
  let ?P = "\<lambda>p. is_jint p \<and> premul p"
  have 1: "?P (srcover_val r m p)" if "?P p" for m p
    using that assms(4) weight_u8 [OF assms(4)]
    by (auto simp: srcover_val_over_px colour_ok_def intro: over_px_premul)
  have 2: "?P (pt_srcover_val (r_paint r ! nat (int k)) m p)" if "?P p" "k < nat (touched_w r)" for m p k
  proof -
    have "premul (r_paint r ! nat (int k))" using assms(5) that(2) by (simp add: paint_ok_def)
    moreover have "is_jint p" "premul p" using that(1) by auto
    ultimately show ?thesis
      using byte_frac [of m] by (simp only: pt_srcover_val_over_px pt_over_px_premul pt_over_px_jint)
  qed
  let ?m = "\<lambda>os j k. r_mask_byteData r ! nat (r_maskOffset r + int j * os + int k)"
  let ?u = "upd_rows (r_data r) (area_start r) (nat (r_imageScanlineStride r)) (nat (touched_w r)) (nat h)"
  have "blitSrcOverMask8888_pre r h = Some (r\<lparr>r_data := ?u (\<lambda>j k. srcover_val r (?m (r_alphaWidth r) j k))\<rparr>)"
    unfolding blitSrcOverMask8888_pre_def
    by (rule srcover_mask.blit_rows_mask_upd) (use assms in auto)
  moreover have "blitPTSrcOverMask8888_pre r h =
      Some (r\<lparr>r_data := ?u (\<lambda>j k. pt_srcover_val (r_paint r ! nat (int k)) (?m 0 j k))\<rparr>)"
    unfolding blitPTSrcOverMask8888_pre_def
    by (rule pt_srcover_mask.blit_rows_mask_upd) (use assms in auto)
  moreover have "\<forall>p \<in> set (?u (\<lambda>j k. srcover_val r (?m (r_alphaWidth r) j k))). ?P p"
    by (rule upd_rows_all [where P = ?P]) (use assms(6) 1 in blast)+
  moreover have "\<forall>p \<in> set (?u (\<lambda>j k. pt_srcover_val (r_paint r ! nat (int k)) (?m 0 j k))). ?P p"
    by (rule upd_rows_all [where P = ?P]) (use assms(6) 2 in blast)+
  ultimately show ?thesis by auto
qed

lemma blit_mask_premultiplied_witness:
  "\<exists>r1 r2. blitSrcOverMask8888_pre wit_r 2 = Some r1 \<and> blitPTSrcOverMask8888_pre wit_r 2 = Some r2 \<and>
    (\<forall>p \<in> set (r_data r1) \<union> set (r_data r2). is_jint p \<and> premul p)"
proof (rule blit_mask_premultiplied [OF wit_r_ok(1,2,5,3)])
  show "\<forall>k < nat (touched_w wit_r). paint_ok wit_r (int k)" by code_simp
  show "\<forall>p \<in> set (r_data wit_r). is_jint p \<and> premul p" by code_simp
qed

text \<open>\<^verbatim>\<open>blitSrcMask8888_pre\<close> is memory safe on the same rectangle and mask; full coverage stores the
  colour, no coverage keeps the pixel, and partial coverage stores the weighted mean of colour and
  pixel, with weights that add up to at most 255.\<close>

lemma blitSrcMask8888_pre_correct:
  assumes "area_ok r h" "mask_ok r (r_alphaWidth r) h" "colour_ok r"
  shows "blitSrcMask8888_pre r h = Some (r\<lparr>r_data :=
    upd_rows (r_data r) (area_start r) (nat (r_imageScanlineStride r)) (nat (touched_w r)) (nat h)
      (\<lambda>j k. src_val r (r_mask_byteData r ! nat (r_maskOffset r + int j * r_alphaWidth r + int k) AND 255))\<rparr>)"
  unfolding blitSrcMask8888_pre_def by (rule src_mask.blit_rows_mask_upd [OF assms])

lemma blitSrcMask8888_pre_correct_witness:
  "map_option r_data (blitSrcMask8888_pre wit_r 2) =
     Some [-1, - 65536, -1, -16777216, -8454144, -8388608]"
  unfolding blitSrcMask8888_pre_correct [OF wit_r_ok(1-3)] by code_simp

text \<open>The other routines of the family, memory safe on the same conditions.\<close>

lemma blitSrc8888_pre_line:
  assumes "area_ok r 1" "nat (touched_w r) \<le> length (r_rowAAInt r)" "colour_ok r"
    and "\<forall>k < nat (touched_w r). in_arr (r_alphaMap r) (s32 (\<Sum>j\<le>k. r_rowAAInt r ! j))"
  shows "blitSrc8888_pre r 1 = Some (r\<lparr>
    r_rowAAInt := upd_seg (r_rowAAInt r) 0 (nat (touched_w r)) (\<lambda>_ _. 0),
    r_data := upd_seg (r_data r) (area_start r) (nat (touched_w r))
      (\<lambda>k. src_val r (r_alphaMap r ! nat (s32 (\<Sum>j\<le>k. r_rowAAInt r ! j)) AND 255))\<rparr>)"
  unfolding blitSrc8888_pre_def by (rule src_aa.blit_rows_aa_upd) (use assms in auto)

lemma blitPTSrc8888_pre_line:
  assumes "area_ok r 1" "nat (touched_w r) \<le> length (r_rowAAInt r)"
    and "\<forall>k < nat (touched_w r). in_arr (r_paint r) (int k) \<and> in_arr (r_alphaMap r) (s32 (\<Sum>j\<le>k. r_rowAAInt r ! j))"
  shows "blitPTSrc8888_pre r 1 = Some (r\<lparr>
    r_rowAAInt := upd_seg (r_rowAAInt r) 0 (nat (touched_w r)) (\<lambda>_ _. 0),
    r_data := upd_seg (r_data r) (area_start r) (nat (touched_w r))
      (\<lambda>k. pt_src_val (r_paint r ! nat (int k)) (r_alphaMap r ! nat (s32 (\<Sum>j\<le>k. r_rowAAInt r ! j)) AND 255))\<rparr>)"
  unfolding blitPTSrc8888_pre_def by (rule pt_src_aa.blit_rows_aa_upd) (use assms in auto)

lemma blitPTSrcMask8888_pre_rows:
  assumes "area_ok r h" "mask_ok r 0 h" "\<forall>k < nat (touched_w r). in_arr (r_paint r) (int k)"
  shows "blitPTSrcMask8888_pre r h = Some (r\<lparr>r_data :=
    upd_rows (r_data r) (area_start r) (nat (r_imageScanlineStride r)) (nat (touched_w r)) (nat h)
      (\<lambda>j k. pt_src_val (r_paint r ! nat (int k)) (r_mask_byteData r ! nat (r_maskOffset r + int j * 0 + int k) AND 255))\<rparr>)"
  unfolding blitPTSrcMask8888_pre_def by (rule pt_src_mask.blit_rows_mask_upd) (use assms in auto)

lemma blitSrcOverLCDMask8888_pre_upd:
  assumes "area_ok r 1" "gamma_ok g" "colour_ok r" "0 \<le> r_maskOffset r"
    and "r_maskOffset r + 3 * touched_w r \<le> int (length (r_mask_byteData r))"
  shows "blitSrcOverLCDMask8888_pre g r 1 = Some (r\<lparr>r_data :=
    upd_seg (r_data r) (area_start r) (nat (touched_w r)) (\<lambda>k.
      let m = \<lambda>c. r_mask_byteData r ! nat (r_maskOffset r + 3 * int k + c); t = \<lambda>c. invGammaArray g ! nat c in
      lcd_val g (t (r_calpha r)) (t (r_cred r)) (t (r_cgreen r)) (t (r_cblue r)) (m 0) (m 1) (m 2))\<rparr>)"
proof -
  have c: "is_u8 (r_calpha r)" "is_u8 (r_cred r)" "is_u8 (r_cgreen r)" "is_u8 (r_cblue r)"
    using assms(3) by (auto simp: colour_ok_def)
  note g = gamma_load(3,4) [OF assms(2)]
  have b: "r_imagePixelStride r = 1" "length (r_data r) < 2 ^ 31" "0 \<le> touched_w r"
    using assms(1) by (auto simp: area_ok_def)
  have i: "row_iidx r (r_currImageOffset r) = int (area_start r)"
    "int (area_start r) + int (nat (touched_w r)) \<le> int (length (r_data r))"
    using area_row(2,3) [OF assms(1), of 0] by simp_all
  have "lcd_loop (lcd_px g ca cr cg cb) (r_mask_byteData r) (r_maskOffset r) (nat (touched_w r)) 1 (int (area_start r)) (r_data r) =
    Some (upd_seg (r_data r) (nat (int (area_start r))) (nat (touched_w r)) (\<lambda>k.
      lcd_val g ca cr cg cb (r_mask_byteData r ! nat (r_maskOffset r + 3 * int k))
       (r_mask_byteData r ! nat (r_maskOffset r + 3 * int k + 1)) (r_mask_byteData r ! nat (r_maskOffset r + 3 * int k + 2))))"
    if "is_u8 ca" "is_u8 cr" "is_u8 cg" "is_u8 cb" for ca cr cg cb
    by (rule lcd_mask.lcd_loop_upd) (use that assms b i in auto)
  note loop = this [OF g(2) [OF c(1)] g(2) [OF c(2)] g(2) [OF c(3)] g(2) [OF c(4)]]
  show ?thesis
    unfolding blitSrcOverLCDMask8888_pre_def
    by (simp add: g(1) c i b loop Let_def)
qed

text \<open>one line of \<^verbatim>\<open>blitSrcOverLCDMask8888_pre\<close>: with three mask bytes per pixel inside of the
  mask and gamma tables of 256 channel values, every table lookup is in range, the rectangle is
  written and each channel is interpolated on its own in linear space.\<close>

lemma blitSrcOverLCDMask8888_pre_correct:
  assumes "area_ok r 1" "gamma_ok g" "colour_ok r" "0 \<le> r_maskOffset r"
    and "r_maskOffset r + 3 * touched_w r \<le> int (length (r_mask_byteData r))"
  shows "blitSrcOverLCDMask8888_pre g r 1 = Some (r\<lparr>r_data :=
    upd_seg (r_data r) (area_start r) (nat (touched_w r)) (\<lambda>k.
      let m = \<lambda>c. r_mask_byteData r ! nat (r_maskOffset r + 3 * int k + c); t = \<lambda>c. invGammaArray g ! nat c in
      lcd_val g (t (r_calpha r)) (t (r_cred r)) (t (r_cgreen r)) (t (r_cblue r)) (m 0) (m 1) (m 2))\<rparr>)"
  by (rule blitSrcOverLCDMask8888_pre_upd [OF assms])

definition wit_gamma :: "unit Gamma" where
  "wit_gamma = \<lparr>currentGamma = (), gammaArray = map (\<lambda>i. i) [0..255], invGammaArray = map (\<lambda>i. i) [0..255]\<rparr>"

lemma blitSrcOverLCDMask8888_pre_correct_witness:
  "map_option r_data (blitSrcOverLCDMask8888_pre wit_gamma
     (wit_r\<lparr>r_maxTouched := 1, r_cblue := 255\<rparr>) 1) =
     Some [-1, -1, -1, -16777216, -16777216, -16777216]"
proof -
  have "area_ok (wit_r\<lparr>r_maxTouched := 1, r_cblue := 255\<rparr>) 1" "gamma_ok wit_gamma"
    "colour_ok (wit_r\<lparr>r_maxTouched := 1, r_cblue := 255\<rparr>)"
    "0 \<le> r_maskOffset (wit_r\<lparr>r_maxTouched := 1, r_cblue := 255\<rparr>)"
    "r_maskOffset (wit_r\<lparr>r_maxTouched := 1, r_cblue := 255\<rparr>) +
      3 * touched_w (wit_r\<lparr>r_maxTouched := 1, r_cblue := 255\<rparr>) \<le>
     int (length (r_mask_byteData (wit_r\<lparr>r_maxTouched := 1, r_cblue := 255\<rparr>)))"
    by (simp_all add: wit_simps) (simp_all add: gamma_ok_def wit_gamma_def is_u8_def)
  from blitSrcOverLCDMask8888_pre_correct [OF this] show ?thesis
    by (simp only:) code_simp
qed

text \<open>\<^verbatim>\<open>initGammaArrays\<close> fills both tables when the gamma changes, and only then.\<close>

lemma initGammaArrays_ok:
  assumes "\<And>i e. 0 \<le> i \<Longrightarrow> i \<le> 255 \<Longrightarrow> is_u8 (pow255 i e)"
    and "feq (currentGamma g) gamma \<Longrightarrow> gamma_ok g"
  shows "gamma_ok (initGammaArrays F feq pow255 gamma g)"
  using assms by (auto simp: initGammaArrays_def gamma_ok_def Let_def)

end
