(* ===== verification/PiscesEmit.thy ===== *)
theory PiscesEmit
  imports PiscesBlit
begin

text \<open>
  The \<^verbatim>\<open>emitLine...8888_pre\<close> routines of \<^verbatim>\<open>PiscesBlit.c\<close>, which \<^verbatim>\<open>fillRect\<close> uses for lines of uniform
  coverage \<open>frac\<close> (16.16 fixed point, \<^verbatim>\<open>0x10000\<close> is full coverage) with fractional pixels \<^verbatim>\<open>_el_lfrac\<close>
  and \<^verbatim>\<open>_el_rfrac\<close> at the ends, and \<^verbatim>\<open>clearRect8888_any\<close>.

  The three bodies of a line (left edge, run, right edge) are definitions of their own; the locale
  \<open>emit_bodies\<close> is interpreted on them.
\<close>

section \<open>Definitions\<close>

definition emit_rows :: "'f Renderer \<Rightarrow> (int \<Rightarrow> int \<Rightarrow> jint list \<Rightarrow> jint list option) \<Rightarrow>
    (int \<Rightarrow> int \<Rightarrow> jint list \<Rightarrow> jint list option) \<Rightarrow> (int \<Rightarrow> int \<Rightarrow> jint list \<Rightarrow> jint list option) \<Rightarrow>
    jint \<Rightarrow> jint \<Rightarrow> jint \<Rightarrow> jint \<Rightarrow> jint \<Rightarrow> 'f Renderer option" where
  "emit_rows r left mid right lfrac rfrac w paint_stride height = do {
     d \<leftarrow> for_rows (\<lambda>imageOffset paint_offset d.
            emit_row left mid right lfrac rfrac (r_imagePixelStride r) w paint_offset
              (row_iidx r imageOffset) d)
          (r_imageScanlineStride r) paint_stride (nat height) (r_currImageOffset r) 0 (r_data r);
     Some (r\<lparr>r_data := d\<rparr>) }"

definition run_w :: "'f Renderer \<Rightarrow> jint \<Rightarrow> jint \<Rightarrow> jint" where
  "run_w r lfrac rfrac = s32 (r_alphaWidth r - (if lfrac \<noteq> 0 then 1 else 0) - (if rfrac \<noteq> 0 then 1 else 0))"

text \<open>\<^verbatim>\<open>(jint)((frac1 * (jlong)frac) >> 16)\<close>\<close>

definition scale_frac :: "jint \<Rightarrow> jint \<Rightarrow> jint" where
  "scale_frac f frac = s32 (drop_bit 16 (s64 (f * frac)))"

definition put_px :: "jint \<Rightarrow> int \<Rightarrow> int \<Rightarrow> jint list \<Rightarrow> jint list option" where
  "put_px pixel aidx a d = store d a pixel"

definition src_blend :: "'f Renderer \<Rightarrow> jint \<Rightarrow> int \<Rightarrow> int \<Rightarrow> jint list \<Rightarrow> jint list option" where
  "src_blend r raaval aidx a d =
     modify d a (\<lambda>p. blendSrc8888_pre p (r_calpha r) raaval (r_cred r) (r_cgreen r) (r_cblue r))"

definition emitLineSource8888_pre :: "'f Renderer \<Rightarrow> jint \<Rightarrow> jint \<Rightarrow> 'f Renderer option" where
  "emitLineSource8888_pre r height frac =
     (let lfrac = r_el_lfrac r;
          rfrac = r_el_rfrac r;
          w = run_w r lfrac rfrac
      in if frac = 0x10000
         then let pre_red = drop_bit 8 (s32 ((r_calpha r + 1) * r_cred r));
                  pre_green = drop_bit 8 (s32 ((r_calpha r + 1) * r_cgreen r));
                  pre_blue = drop_bit 8 (s32 ((r_calpha r + 1) * r_cblue r));
                  pixel = argb (r_calpha r) pre_red pre_green pre_blue
              in emit_rows r (src_blend r (s32 (255 - drop_bit 8 lfrac))) (put_px pixel)
                   (src_blend r (s32 (255 - drop_bit 8 rfrac))) lfrac rfrac w 0 height
         else let comp_frac = s32 (255 - drop_bit 8 frac);
                  lfrac = scale_frac lfrac frac;
                  rfrac = scale_frac rfrac frac
              in emit_rows r (src_blend r (s32 (255 - drop_bit 8 lfrac))) (src_blend r comp_frac)
                   (src_blend r (s32 (255 - drop_bit 8 rfrac))) lfrac rfrac w 0 height)"

definition pt_src_blend :: "'f Renderer \<Rightarrow> jint \<Rightarrow> int \<Rightarrow> int \<Rightarrow> jint list \<Rightarrow> jint list option" where
  "pt_src_blend r raaval aidx a d = do {
     cval \<leftarrow> load (r_paint r) aidx;
     modify d a (\<lambda>p. blendSrc8888_pre_pre p (ch_A cval) raaval (ch_R cval) (ch_G cval) (ch_B cval)) }"

definition pt_put :: "'f Renderer \<Rightarrow> int \<Rightarrow> int \<Rightarrow> jint list \<Rightarrow> jint list option" where
  "pt_put r aidx a d = do { cval \<leftarrow> load (r_paint r) aidx; store d a cval }"

definition emitLinePTSource8888_pre :: "'f Renderer \<Rightarrow> jint \<Rightarrow> jint \<Rightarrow> 'f Renderer option" where
  "emitLinePTSource8888_pre r height frac =
     (let comp_frac = s32 (255 - drop_bit 8 frac);
          lfrac = scale_frac (r_el_lfrac r) frac;
          rfrac = scale_frac (r_el_rfrac r) frac;
          w = run_w r lfrac rfrac
      in emit_rows r (pt_src_blend r (s32 (255 - drop_bit 8 lfrac)))
           (if frac = 0x10000 then pt_put r else pt_src_blend r comp_frac)
           (pt_src_blend r (s32 (255 - drop_bit 8 rfrac))) lfrac rfrac w (r_alphaWidth r) height)"

definition over_blend :: "'f Renderer \<Rightarrow> jint \<Rightarrow> int \<Rightarrow> int \<Rightarrow> jint list \<Rightarrow> jint list option" where
  "over_blend r aval aidx a d =
     modify d a (\<lambda>p. blendSrcOver8888_pre p aval (r_cred r) (r_cgreen r) (r_cblue r))"

definition emitLineSourceOver8888_pre :: "'f Renderer \<Rightarrow> jint \<Rightarrow> jint \<Rightarrow> 'f Renderer option" where
  "emitLineSourceOver8888_pre r height frac =
     (let alpha = drop_bit 16 (s32 (r_calpha r * frac));
          lfrac = r_el_lfrac r;
          rfrac = r_el_rfrac r;
          w = run_w r lfrac rfrac
      in if alpha = MAX_ALPHA
         then emit_rows r (over_blend r (drop_bit 8 lfrac))
                (put_px (argb 255 (r_cred r) (r_cgreen r) (r_cblue r)))
                (over_blend r (drop_bit 8 rfrac)) lfrac rfrac w 0 height
         else let lalpha = drop_bit 16 (s32 (lfrac * alpha));
                  ralpha = drop_bit 16 (s32 (rfrac * alpha))
              in emit_rows r (over_blend r lalpha) (over_blend r alpha) (over_blend r ralpha)
                   lfrac rfrac w 0 height)"

definition pt_over_blend :: "'f Renderer \<Rightarrow> jint \<Rightarrow> int \<Rightarrow> int \<Rightarrow> jint list \<Rightarrow> jint list option" where
  "pt_over_blend r frac8 aidx a d = do {
     cval \<leftarrow> load (r_paint r) aidx;
     modify d a (\<lambda>p. blendSrcOver8888_pre_pre p frac8 (ch_A cval) (ch_R cval) (ch_G cval) (ch_B cval)) }"

definition pt_over_full :: "'f Renderer \<Rightarrow> int \<Rightarrow> int \<Rightarrow> jint list \<Rightarrow> jint list option" where
  "pt_over_full r aidx a d = do {
     cval \<leftarrow> load (r_paint r) aidx;
     let palpha = ch_A cval;
     if palpha = 0 then Some d
     else if palpha = MAX_ALPHA then store d a cval
     else modify d a (\<lambda>p. blendSrcOver8888_pre_pre_fullFrac p palpha (ch_R cval) (ch_G cval) (ch_B cval)) }"

definition emitLinePTSourceOver8888_pre :: "'f Renderer \<Rightarrow> jint \<Rightarrow> jint \<Rightarrow> 'f Renderer option" where
  "emitLinePTSourceOver8888_pre r height frac =
     (let lfrac = scale_frac (r_el_lfrac r) frac;
          rfrac = scale_frac (r_el_rfrac r) frac;
          w = run_w r lfrac rfrac
      in emit_rows r (pt_over_blend r (drop_bit 8 lfrac))
           (if frac = 0x10000 then pt_over_full r else pt_over_blend r (drop_bit 8 frac))
           (pt_over_blend r (drop_bit 8 rfrac)) lfrac rfrac w (r_alphaWidth r) height)"

subsection \<open>Clearing\<close>

text \<open>\<^verbatim>\<open>memset(d + i, 0, sz)\<close> and \<^verbatim>\<open>memcpy(d + dst, d + src, sz)\<close> on an array of 4 byte integers, for a
  \<open>sz\<close> that is a multiple of 4. A negative \<open>sz\<close> is converted to a huge \<^verbatim>\<open>size_t\<close>; a copy between
  areas that overlap is undefined.\<close>

definition memset0 :: "jint list \<Rightarrow> int \<Rightarrow> int \<Rightarrow> jint list option" where
  "memset0 d i sz =
     (if 0 \<le> sz \<and> 0 \<le> i \<and> i + sz div 4 \<le> int (length d)
      then Some (upd_seg d (nat i) (nat (sz div 4)) (\<lambda>_ _. 0)) else None)"

definition memcpy_in :: "jint list \<Rightarrow> int \<Rightarrow> int \<Rightarrow> int \<Rightarrow> jint list option" where
  "memcpy_in d dst src sz =
     (let n = sz div 4 in
      if 0 \<le> sz \<and> 0 \<le> dst \<and> dst + n \<le> int (length d) \<and> 0 \<le> src \<and> src + n \<le> int (length d) \<and>
        (dst + n \<le> src \<or> src + n \<le> dst)
      then Some (upd_seg d (nat dst) (nat n) (\<lambda>k _. d ! (nat src + k))) else None)"

text \<open>A loop over lines with a pointer that advances by the scan line stride.\<close>

fun ptr_rows :: "(int \<Rightarrow> 's \<Rightarrow> 's option) \<Rightarrow> int \<Rightarrow> nat \<Rightarrow> int \<Rightarrow> 's \<Rightarrow> 's option" where
  "ptr_rows row stride 0 i s = Some s"
| "ptr_rows row stride (Suc n) i s = do { s' \<leftarrow> row i s; ptr_rows row stride n (i + stride) s' }"

definition clearRect8888_any :: "'f Renderer \<Rightarrow> jint \<Rightarrow> jint \<Rightarrow> jint \<Rightarrow> jint \<Rightarrow> 'f Renderer option" where
  "clearRect8888_any r x y w h =
     (let cval = argb (r_calpha r) (r_cred r) (r_cgreen r) (r_cblue r);
          stride = r_imageScanlineStride r;
          start = r_imageOffset r + s32 (y * stride) + s32 (x * r_imagePixelStride r);
          sz = s32 (4 * w)
      in do {
        d \<leftarrow> (if cval = 0
              then if x = 0 \<and> w = r_width r
                   then memset0 (r_data r) start (s32 (sz * h))
                   else ptr_rows (\<lambda>i d. memset0 d i sz) stride (nat h) start (r_data r)
              else do {
                (_, _, d) \<leftarrow> line_loop (put_px cval) 1 start (start + w) 0 (r_data r);
                ptr_rows (\<lambda>i d. memcpy_in d i start sz) stride (nat (h - 1)) (start + stride) d });
        Some (r\<lparr>r_data := d\<rparr>) })"

section \<open>Lines\<close>

context emit_bodies
begin

lemma emit_rows_upd:
  assumes "area_ok r h" "touched_w r = r_alphaWidth r" "0 \<le> os" "int (nat h) * os < 2 ^ 31"
    and "w = r_alphaWidth r - (if lfrac \<noteq> 0 then 1 else 0) - (if rfrac \<noteq> 0 then 1 else 0)" "0 \<le> w"
    and "\<And>j k. j < nat h \<Longrightarrow> k < nat (r_alphaWidth r) \<Longrightarrow> lok (int j * os + int k)"
  shows "emit_rows r left mid right lfrac rfrac w os h = Some (r\<lparr>r_data :=
    upd_rows (r_data r) (area_start r) (nat (r_imageScanlineStride r)) (nat (r_alphaWidth r)) (nat h)
      (\<lambda>j k. if k = 0 \<and> lfrac \<noteq> 0 then vleft (int j * os)
        else if Suc k = nat (r_alphaWidth r) \<and> rfrac \<noteq> 0 then vright (int j * os + int k)
        else vmid (int j * os + int k))\<rparr>)"
proof -
  let ?W = "nat (r_imageScanlineStride r)" and ?n = "nat (r_alphaWidth r)"
  let ?f = "\<lambda>j k. if k = 0 \<and> lfrac \<noteq> 0 then vleft (int j * os)
        else if Suc k = ?n \<and> rfrac \<noteq> 0 then vright (int j * os + int k)
        else vmid (int j * os + int k)"
  let ?row = "\<lambda>imageOffset paint_offset d. emit_row left mid right lfrac rfrac (r_imagePixelStride r) w paint_offset
              (row_iidx r imageOffset) d"
  have b: "r_imagePixelStride r = 1" "r_imageScanlineStride r = int ?W" "?n \<le> ?W" "0 < ?W"
    "0 \<le> r_alphaWidth r"
    using assms(1,2) by (auto simp: area_ok_def)
  have "for_rows ?row (int ?W) os (nat h) (r_currImageOffset r) 0 (r_data r) =
    Some (upd_rows (r_data r) (area_start r) ?W ?n (nat h) ?f)"
  proof (rule for_rows_upd [where n = "length (r_data r)"])
    fix j and d :: "jint list" assume j: "j < nat h" and d: "length d = length (r_data r)"
    have "emit_row left mid right lfrac rfrac 1 w (int j * os) (int (area_start r + j * ?W)) d =
      Some (upd_seg d (nat (int (area_start r + j * ?W))) ?n (?f j))"
      using area_row(3) [OF assms(1) j] assms(2,5-) j d b(5) by (intro emit_row_upd) auto
    then show "?row (r_currImageOffset r + int j * int ?W) (0 + int j * os) d =
        Some (upd_seg d (area_start r + j * ?W) ?n (?f j))"
      unfolding b(2) [symmetric] area_row(2) [OF assms(1) j] b(1) by (simp only: nat_int add_0)
  next
    fix j assume j: "j < nat h"
    have "int j * os \<le> int (nat h) * os" "0 \<le> int j * os"
      using j assms(3) by (auto intro: mult_right_mono)
    then have "is_jint (0 + int j * os)" using assms(4) by (simp add: is_jint_def)
    then show "is_jint (r_currImageOffset r + int j * int ?W) \<and> is_jint (0 + int j * os)"
      unfolding b(2) [symmetric] using area_row(1) [OF assms(1) j] by simp
  qed (use b in auto)
  then show ?thesis
    unfolding emit_rows_def b(2) [symmetric] by simp
qed

end

text \<open>The contract holds for the bodies of all four routines.\<close>

interpretation put: line_body "put_px v" "\<lambda>_ _. v" "\<lambda>_. True" for v
  by unfold_locales (simp add: put_px_def arr)

lemmas flat_bodies = put_px_def src_blend_def over_blend_def

interpretation el_over: emit_bodies "over_blend r a" "over_blend r b" "over_blend r c"
  "\<lambda>_ p. blendSrcOver8888_pre p a (r_cred r) (r_cgreen r) (r_cblue r)"
  "\<lambda>_ p. blendSrcOver8888_pre p b (r_cred r) (r_cgreen r) (r_cblue r)"
  "\<lambda>_ p. blendSrcOver8888_pre p c (r_cred r) (r_cgreen r) (r_cblue r)" "\<lambda>_. True"
  for r :: "'f Renderer" and a b c
  by unfold_locales (simp_all add: flat_bodies arr)

interpretation el_over_solid: emit_bodies "over_blend r a" "put_px v" "over_blend r c"
  "\<lambda>_ p. blendSrcOver8888_pre p a (r_cred r) (r_cgreen r) (r_cblue r)" "\<lambda>_ _. v"
  "\<lambda>_ p. blendSrcOver8888_pre p c (r_cred r) (r_cgreen r) (r_cblue r)" "\<lambda>_. True"
  for r :: "'f Renderer" and a v c
  by unfold_locales (simp_all add: flat_bodies arr)

interpretation el_src: emit_bodies "src_blend r a" "src_blend r b" "src_blend r c"
  "\<lambda>_ p. blendSrc8888_pre p (r_calpha r) a (r_cred r) (r_cgreen r) (r_cblue r)"
  "\<lambda>_ p. blendSrc8888_pre p (r_calpha r) b (r_cred r) (r_cgreen r) (r_cblue r)"
  "\<lambda>_ p. blendSrc8888_pre p (r_calpha r) c (r_cred r) (r_cgreen r) (r_cblue r)" "\<lambda>_. True"
  for r :: "'f Renderer" and a b c
  by unfold_locales (simp_all add: flat_bodies arr)

interpretation el_src_solid: emit_bodies "src_blend r a" "put_px v" "src_blend r c"
  "\<lambda>_ p. blendSrc8888_pre p (r_calpha r) a (r_cred r) (r_cgreen r) (r_cblue r)" "\<lambda>_ _. v"
  "\<lambda>_ p. blendSrc8888_pre p (r_calpha r) c (r_cred r) (r_cgreen r) (r_cblue r)" "\<lambda>_. True"
  for r :: "'f Renderer" and a v c
  by unfold_locales (simp_all add: flat_bodies arr)

definition pt_mid :: "'f Renderer \<Rightarrow> jint \<Rightarrow> int \<Rightarrow> int \<Rightarrow> jint list \<Rightarrow> jint list option" where
  "pt_mid r frac = (if frac = 0x10000 then pt_over_full r else pt_over_blend r (drop_bit 8 frac))"

definition pt_over_val :: "jint \<Rightarrow> jint \<Rightarrow> jint \<Rightarrow> jint" where
  "pt_over_val s f p = (if f = 256 \<and> ch_A s = 0 then p else pt_over_px f s p)"

lemma pt_over_blend_store:
  assumes "paint_ok r k" "0 \<le> f" "f \<le> 256" "in_arr d i"
  shows "pt_over_blend r f k i d = Some (d[nat i := pt_over_px f (r_paint r ! nat k) (d ! nat i)])"
  using assms by (simp add: pt_over_blend_def paint_ok_def arr pt_over_px_blend)

lemma pt_over_full_store:
  assumes "paint_ok r k" "in_arr d i"
  shows "pt_over_full r k i d = Some (d[nat i := pt_over_val (r_paint r ! nat k) 256 (d ! nat i)])"
proof -
  let ?s = "r_paint r ! nat k"
  have s: "premul ?s" "is_jint ?s" "in_arr (r_paint r) k" using assms(1) by (auto simp: paint_ok_def)
  have "blendSrcOver8888_pre_pre_fullFrac p (ch_A ?s) (ch_R ?s) (ch_G ?s) (ch_B ?s) = pt_over_px 256 ?s p" for p
    using pt_over_px_blend [of 256 ?s p] s by (simp add: blendSrcOver8888_pre_pre_full)
  then show ?thesis
    using s assms(2) by (auto simp: pt_over_full_def arr pt_over_val_def MAX_ALPHA_def pt_over_px_full Let_def)
qed

interpretation el_pt_over: emit_bodies "pt_over_blend r a" "pt_mid r b" "pt_over_blend r c"
  "\<lambda>k. pt_over_px a (r_paint r ! nat k)"
  "\<lambda>k. pt_over_val (r_paint r ! nat k) (drop_bit 8 b)"
  "\<lambda>k. pt_over_px c (r_paint r ! nat k)"
  "\<lambda>k. paint_ok r k \<and> 0 \<le> a \<and> a \<le> 256 \<and> 0 \<le> b \<and> b \<le> 65536 \<and> 0 \<le> c \<and> c \<le> 256"
  for r :: "'f Renderer" and a b c
proof unfold_locales
  fix k i and d :: "jint list"
  assume a: "paint_ok r k \<and> 0 \<le> a \<and> a \<le> 256 \<and> 0 \<le> b \<and> b \<le> 65536 \<and> 0 \<le> c \<and> c \<le> 256" "in_arr d i"
  show "pt_mid r b k i d = Some (d[nat i := pt_over_val (r_paint r ! nat k) (drop_bit 8 b) (d ! nat i)])"
  proof (cases "b = 65536")
    case False
    with a have "0 \<le> drop_bit 8 b" "drop_bit 8 b < 256" by (auto simp: drop_bit_eq_div)
    with a False show ?thesis by (simp add: pt_mid_def pt_over_blend_store pt_over_val_def)
  qed (use a in \<open>simp add: pt_mid_def pt_over_full_store drop_bit_eq_div\<close>)
qed (auto intro: pt_over_blend_store)

interpretation el_pt_src: emit_bodies "pt_src_blend r a" "if full then pt_put r else pt_src_blend r b" "pt_src_blend r c"
  "\<lambda>k p. let s = r_paint r ! nat k in blendSrc8888_pre_pre p (ch_A s) a (ch_R s) (ch_G s) (ch_B s)"
  "\<lambda>k p. let s = r_paint r ! nat k in
     if full then s else blendSrc8888_pre_pre p (ch_A s) b (ch_R s) (ch_G s) (ch_B s)"
  "\<lambda>k p. let s = r_paint r ! nat k in blendSrc8888_pre_pre p (ch_A s) c (ch_R s) (ch_G s) (ch_B s)"
  "in_arr (r_paint r)"
  for r :: "'f Renderer" and full a b c
  by unfold_locales (auto simp: pt_src_blend_def pt_put_def arr Let_def)

section \<open>Properties of the lines\<close>

text \<open>Edges and width of a line that \<^verbatim>\<open>fillRect\<close> hands to the routines.\<close>

definition edges_ok :: "'f Renderer \<Rightarrow> bool" where
  "edges_ok r \<longleftrightarrow> touched_w r = r_alphaWidth r \<and> 0 \<le> r_el_lfrac r \<and> r_el_lfrac r < 65536 \<and>
     0 \<le> r_el_rfrac r \<and> r_el_rfrac r < 65536 \<and>
     (if r_el_lfrac r \<noteq> 0 then 1 else 0) + (if r_el_rfrac r \<noteq> 0 then 1 else 0) \<le> r_alphaWidth r"

text \<open>The weight of an edge pixel: the product of the alpha of the line and the fraction.\<close>

definition edge_weight :: "int \<Rightarrow> int \<Rightarrow> int" where
  "edge_weight alpha f = (if alpha = 255 then f div 256 else f * alpha div 65536)"

lemma frac_mul:
  assumes "is_u8 a" "0 \<le> f" "f \<le> 65536"
  shows "drop_bit 16 (s32 (a * f)) = a * f div 65536" "is_u8 (a * f div 65536)"
proof -
  have r: "0 \<le> a * f" "a * f \<le> 255 * 65536"
    using assms mult_mono [of a 255 f 65536] by (auto simp: is_u8_def)
  then have "s32 (a * f) = a * f" by (intro s32_eq) linarith+
  then show "drop_bit 16 (s32 (a * f)) = a * f div 65536" by (simp add: drop_bit_eq_div)
  have "a * f div 65536 \<le> 255 * 65536 div 65536" using r by (intro zdiv_mono1) auto
  then show "is_u8 (a * f div 65536)" using r by (simp add: is_u8_def pos_imp_zdiv_nonneg_iff)
qed

lemma edge_weight_u8: "is_u8 a \<Longrightarrow> 0 \<le> f \<Longrightarrow> f < 65536 \<Longrightarrow> is_u8 (edge_weight a f)"
  using frac_mul(2) [of a f] by (auto simp: edge_weight_def is_u8_def mult.commute)

lemma run_w_eq:
  assumes "0 \<le> r_alphaWidth r" "r_alphaWidth r < 2 ^ 31"
  shows "run_w r lf rf = r_alphaWidth r - (if lf \<noteq> 0 then 1 else 0) - (if rf \<noteq> 0 then 1 else 0)"
  using assms by (simp add: run_w_def)

lemma data_cong: "d = e \<Longrightarrow> r\<lparr>r_data := d\<rparr> = r\<lparr>r_data := e\<rparr>"
  by simp

lemma scale_frac_eq:
  assumes "0 \<le> f" "f < 65536" "0 \<le> frac" "frac \<le> 65536"
  shows "scale_frac f frac = f * frac div 65536 \<and> 0 \<le> f * frac div 65536 \<and> f * frac div 65536 \<le> f"
proof -
  have r: "0 \<le> f * frac" "f * frac \<le> f * 65536"
    using assms by (auto intro: mult_left_mono)
  then have "f * frac div 65536 \<le> f * 65536 div 65536" "0 \<le> f * frac div 65536"
    by (intro zdiv_mono1 | simp add: pos_imp_zdiv_nonneg_iff)+
  moreover have "s64 (f * frac) = f * frac" using r assms(2) by (intro s64_eq) linarith+
  ultimately show ?thesis using assms by (simp add: scale_frac_def drop_bit_eq_div)
qed

lemma row_index_lt: "j < h \<Longrightarrow> k < n \<Longrightarrow> j * n + k < h * (n :: nat)"
proof -
  assume "j < h" "k < n"
  then have "j * n + k < Suc j * n" "Suc j * n \<le> h * n" by (simp, intro mult_right_mono, auto)
  then show ?thesis by linarith
qed

lemma paint_ok_int:
  "paint_ok r (int n) \<longleftrightarrow> n < length (r_paint r) \<and> premul (r_paint r ! n) \<and> is_jint (r_paint r ! n)"
  by (simp add: paint_ok_def in_arr_def)

lemma touched_w_lt: "touched_w r < 2 ^ 31"
  unfolding touched_w_def using s32_is_jint by (auto simp: is_jint_def)

lemma emitLineSourceOver8888_pre_upd:
  assumes "area_ok r h" "edges_ok r" "colour_ok r" "0 \<le> frac" "frac \<le> 65536"
  shows "emitLineSourceOver8888_pre r h frac = Some (r\<lparr>r_data :=
    upd_rows (r_data r) (area_start r) (nat (r_imageScanlineStride r)) (nat (r_alphaWidth r)) (nat h)
      (\<lambda>_ k. let alpha = r_calpha r * frac div 65536 in
        over_px (if k = 0 \<and> r_el_lfrac r \<noteq> 0 then edge_weight alpha (r_el_lfrac r)
                 else if Suc k = nat (r_alphaWidth r) \<and> r_el_rfrac r \<noteq> 0 then edge_weight alpha (r_el_rfrac r)
                 else alpha) (r_cred r) (r_cgreen r) (r_cblue r))\<rparr>)"
proof -
  define alpha where "alpha = r_calpha r * frac div 65536"
  have c: "is_u8 (r_calpha r)" "is_u8 (r_cred r)" "is_u8 (r_cgreen r)" "is_u8 (r_cblue r)"
    using assms(3) by (auto simp: colour_ok_def)
  have a: "drop_bit 16 (s32 (r_calpha r * frac)) = alpha" "is_u8 alpha"
    using frac_mul [OF c(1) assms(4,5)] by (simp_all add: alpha_def)
  have e: "touched_w r = r_alphaWidth r" "0 \<le> r_el_lfrac r" "r_el_lfrac r < 65536" "0 \<le> r_el_rfrac r" "r_el_rfrac r < 65536"
    "0 \<le> r_alphaWidth r" "r_alphaWidth r < 2 ^ 31"
    using assms(1,2) touched_w_lt [of r] by (auto simp: edges_ok_def area_ok_def)
  have w0: "0 \<le> run_w r (r_el_lfrac r) (r_el_rfrac r)"
    unfolding run_w_eq [OF e(6,7)] using assms(2) by (simp add: edges_ok_def)
  have px: "blendSrcOver8888_pre p v (r_cred r) (r_cgreen r) (r_cblue r) = over_px v (r_cred r) (r_cgreen r) (r_cblue r) p"
    if "is_u8 v" for v p using that c by (simp add: over_px_blend)
  have ew: "is_u8 (edge_weight alpha (r_el_lfrac r))" "is_u8 (edge_weight alpha (r_el_rfrac r))"
    using a(2) e by (auto intro: edge_weight_u8)
  note rows = el_over.emit_rows_upd [OF assms(1) e(1) order_refl _ run_w_eq [OF e(6,7)] w0]
    and rows_solid = el_over_solid.emit_rows_upd [OF assms(1) e(1) order_refl _ run_w_eq [OF e(6,7)] w0]
  show ?thesis
  proof (cases "alpha = 255")
    case True
    have "drop_bit 8 (r_el_lfrac r) = edge_weight alpha (r_el_lfrac r)"
      "drop_bit 8 (r_el_rfrac r) = edge_weight alpha (r_el_rfrac r)"
      using True by (simp_all add: edge_weight_def drop_bit_eq_div)
    then show ?thesis
      using True ew unfolding emitLineSourceOver8888_pre_def Let_def a alpha_def [symmetric]
      by (auto simp: MAX_ALPHA_def rows_solid px over_px_255 intro!: upd_rows_cong data_cong)
  next
    case False
    have "drop_bit 16 (s32 (r_el_lfrac r * alpha)) = edge_weight alpha (r_el_lfrac r)"
      "drop_bit 16 (s32 (r_el_rfrac r * alpha)) = edge_weight alpha (r_el_rfrac r)"
      using False e a(2) frac_mul(1) [of alpha "r_el_lfrac r"] frac_mul(1) [of alpha "r_el_rfrac r"]
      by (simp_all add: edge_weight_def mult.commute)
    then show ?thesis
      using False ew a(2) unfolding emitLineSourceOver8888_pre_def Let_def a alpha_def [symmetric]
      by (auto simp: MAX_ALPHA_def rows px intro!: upd_rows_cong data_cong)
  qed
qed

text \<open>\<^verbatim>\<open>emitLineSourceOver8888_pre\<close> fills the lines of a rectangle with the source-over of the
  current colour: the run with alpha times the coverage \<open>frac\<close>, the two edge pixels with that
  alpha times their fraction. It stays inside of the rectangle and always returns.\<close>

lemma emitLineSourceOver8888_pre_correct:
  assumes "area_ok r h" "edges_ok r" "colour_ok r" "0 \<le> frac" "frac \<le> 65536"
  shows "emitLineSourceOver8888_pre r h frac = Some (r\<lparr>r_data :=
    upd_rows (r_data r) (area_start r) (nat (r_imageScanlineStride r)) (nat (r_alphaWidth r)) (nat h)
      (\<lambda>_ k. let alpha = r_calpha r * frac div 65536 in
        over_px (if k = 0 \<and> r_el_lfrac r \<noteq> 0 then edge_weight alpha (r_el_lfrac r)
                 else if Suc k = nat (r_alphaWidth r) \<and> r_el_rfrac r \<noteq> 0 then edge_weight alpha (r_el_rfrac r)
                 else alpha) (r_cred r) (r_cgreen r) (r_cblue r))\<rparr>)"
  by (rule emitLineSourceOver8888_pre_upd [OF assms])

text \<open>\<^verbatim>\<open>emitLinePTSourceOver8888_pre\<close> does the same with one premultiplied paint colour per pixel,
  read from consecutive lines of \<^verbatim>\<open>_paint\<close>, each scaled by the coverage of its pixel.\<close>

lemma emitLinePTSourceOver8888_pre_correct:
  assumes "area_ok r h" "edges_ok r" "0 \<le> frac" "frac \<le> 65536"
    and "int (nat h) * r_alphaWidth r \<le> int (length (r_paint r))" "length (r_paint r) < 2 ^ 31"
    and "\<forall>s \<in> set (r_paint r). premul s \<and> is_jint s" "\<forall>p \<in> set (r_data r). is_jint p"
  shows "emitLinePTSourceOver8888_pre r h frac = Some (r\<lparr>r_data :=
    upd_rows (r_data r) (area_start r) (nat (r_imageScanlineStride r)) (nat (r_alphaWidth r)) (nat h)
      (\<lambda>j k. let lf = r_el_lfrac r * frac div 65536; rf = r_el_rfrac r * frac div 65536 in
        pt_over_px (if k = 0 \<and> lf \<noteq> 0 then lf div 256
                    else if Suc k = nat (r_alphaWidth r) \<and> rf \<noteq> 0 then rf div 256
                    else frac div 256) (r_paint r ! (j * nat (r_alphaWidth r) + k)))\<rparr>)"
proof -
  define lf rf where "lf = r_el_lfrac r * frac div 65536" and "rf = r_el_rfrac r * frac div 65536"
  let ?n = "nat (r_alphaWidth r)"
  have e: "touched_w r = r_alphaWidth r" "0 \<le> r_el_lfrac r" "r_el_lfrac r < 65536" "0 \<le> r_el_rfrac r" "r_el_rfrac r < 65536"
    "0 \<le> r_alphaWidth r" "r_alphaWidth r < 2 ^ 31"
    using assms(1,2) touched_w_lt [of r] by (auto simp: edges_ok_def area_ok_def)
  have sf: "scale_frac f frac = f * frac div 65536 \<and> 0 \<le> f * frac div 65536 \<and> f * frac div 65536 \<le> f"
    if "0 \<le> f" "f < 65536" for f
    using scale_frac_eq [OF that assms(3,4)] .
  have s: "scale_frac (r_el_lfrac r) frac = lf" "scale_frac (r_el_rfrac r) frac = rf"
    and fr: "0 \<le> lf" "lf < 65536" "0 \<le> rf" "rf < 65536" "lf \<le> r_el_lfrac r" "rf \<le> r_el_rfrac r"
    using sf [OF e(2,3)] sf [OF e(4,5)] e by (auto simp: lf_def rf_def)
  have d8: "0 \<le> drop_bit 8 lf" "drop_bit 8 lf \<le> 256" "0 \<le> drop_bit 8 rf" "drop_bit 8 rf \<le> 256"
    using fr by (auto simp: drop_bit_eq_div)
  have w0: "0 \<le> run_w r lf rf"
    unfolding run_w_eq [OF e(6,7)] using assms(2) fr by (auto simp: edges_ok_def split: if_splits)
  have idx: "int j * r_alphaWidth r + int k = int (j * ?n + k)" for j k using e(6) by simp
  have inp: "j * ?n + k < length (r_paint r)" if "j < nat h" "k < ?n" for j k
  proof -
    have "int (nat h * ?n) \<le> int (length (r_paint r))" using assms(5) e(6) by simp
    then show ?thesis using row_index_lt [OF that] by linarith
  qed
  have ok: "paint_ok r (int j * r_alphaWidth r + int k)" if "j < nat h" "k < ?n" for j k
    unfolding idx paint_ok_int using inp [OF that] assms(7) by simp
  have mid: "(if frac = 0x10000 then pt_over_full r else pt_over_blend r (drop_bit 8 frac)) = pt_mid r frac"
    by (simp add: pt_mid_def)
  have "int (length (r_paint r)) < 2 ^ 31" using assms(6) by simp
  then have "int (nat h) * r_alphaWidth r < 2 ^ 31" using assms(5) by linarith
  note rows = el_pt_over.emit_rows_upd [OF assms(1) e(1,6) this run_w_eq [OF e(6,7)] w0]
  have z: "pt_over_val s f p = pt_over_px f s p" if "premul s" "is_jint p" for s f p
  proof (cases "f = 256 \<and> ch_A s = 0")
    case True
    with that show ?thesis using pt_srcover_val_over_px [of s p 255]
      by (simp add: pt_over_val_def pt_srcover_val_def scale256_def)
  qed (auto simp: pt_over_val_def)
  have R: "emit_rows r (pt_over_blend r (drop_bit 8 lf)) (pt_mid r frac) (pt_over_blend r (drop_bit 8 rf))
      lf rf (run_w r lf rf) (r_alphaWidth r) h = Some (r\<lparr>r_data :=
    upd_rows (r_data r) (area_start r) (nat (r_imageScanlineStride r)) ?n (nat h)
      (\<lambda>j k. if k = 0 \<and> lf \<noteq> 0 then pt_over_px (drop_bit 8 lf) (r_paint r ! nat (int j * r_alphaWidth r))
        else if Suc k = ?n \<and> rf \<noteq> 0 then pt_over_px (drop_bit 8 rf) (r_paint r ! nat (int j * r_alphaWidth r + int k))
        else pt_over_val (r_paint r ! nat (int j * r_alphaWidth r + int k)) (drop_bit 8 frac))\<rparr>)"
    by (rule rows) (use ok d8 assms(3,4) in auto)
  have i0: "nat (int j * r_alphaWidth r) = j * ?n" for j using idx [of j 0] by (simp add: nat_mult_distrib)
  have "\<And>j k x. j < nat h \<Longrightarrow> k < ?n \<Longrightarrow> x \<in> set (r_data r) \<Longrightarrow>
      pt_over_val (r_paint r ! (j * ?n + k)) (drop_bit 8 frac) x = pt_over_px (frac div 256) (r_paint r ! (j * ?n + k)) x"
    using inp assms(7,8) by (simp add: z drop_bit_eq_div)
  then show ?thesis
    unfolding emitLinePTSourceOver8888_pre_def Let_def s mid lf_def [symmetric] rf_def [symmetric] R idx i0 nat_int
    by (intro arg_cong [of _ _ Some] data_cong upd_rows_cong) (simp add: drop_bit_eq_div)
qed

text \<open>The witnesses use a rectangle of 2 by 2 pixels with a left edge of one half.\<close>

definition wit_line :: "unit Renderer" where
  "wit_line = wit_r\<lparr>r_el_lfrac := 32768, r_paint := [-1, -1, 2139062143, -16777216]\<rparr>"

lemma wit_line_ok:
  "area_ok wit_line 2" "edges_ok wit_line" "colour_ok wit_line" "0 \<le> (65536 :: int)" "(65536 :: int) \<le> 65536"
  by (simp_all add: wit_line_def edges_ok_def wit_simps)

lemma emitLineSourceOver8888_pre_correct_witness:
  "map_option r_data (emitLineSourceOver8888_pre wit_line 2 65536) =
     Some [-1, -32897, -65536, -16777216, -8388608, -65536]"
  unfolding emitLineSourceOver8888_pre_correct [OF wit_line_ok] by code_simp

lemma emitLinePTSourceOver8888_pre_correct_witness:
  "map_option r_data (emitLinePTSourceOver8888_pre wit_line 2 65536) =
     Some [-1, -1, -1, -16777216, -12632257, -16777216]"
proof -
  have h: "int (nat 2) * r_alphaWidth wit_line \<le> int (length (r_paint wit_line))"
    "length (r_paint wit_line) < 2 ^ 31" "\<forall>s \<in> set (r_paint wit_line). premul s \<and> is_jint s"
    "\<forall>p \<in> set (r_data wit_line). is_jint p"
    by (simp add: wit_line_def wit_simps, simp add: wit_line_def wit_simps, code_simp, code_simp)
  show ?thesis
    unfolding emitLinePTSourceOver8888_pre_correct [OF wit_line_ok(1,2,4,5) h] by code_simp
qed

text \<open>At full coverage the run of \<^verbatim>\<open>emitLineSource8888_pre\<close> is the current colour, premultiplied.\<close>

definition premul_colour :: "'f Renderer \<Rightarrow> jint" where
  "premul_colour r = argb (r_calpha r) (scale256 (r_cred r) (r_calpha r + 1))
     (scale256 (r_cgreen r) (r_calpha r + 1)) (scale256 (r_cblue r) (r_calpha r + 1))"

lemma premul_colour_premul:
  assumes "colour_ok r"
  shows "premul (premul_colour r)"
proof -
  have c: "is_u8 (r_calpha r)" "is_u8 (r_cred r)" "is_u8 (r_cgreen r)" "is_u8 (r_cblue r)"
    using assms by (auto simp: colour_ok_def)
  have "scale256 x (r_calpha r + 1) \<le> r_calpha r" if "is_u8 x" for x
    using src_weights(3) [OF that c(1)] by simp
  moreover have "is_u8 (scale256 x (r_calpha r + 1))" if "is_u8 x" for x
    using src_weights(1) [OF that c(1)] .
  ultimately show ?thesis using c by (simp add: premul_colour_def premul_argb)
qed

text \<open>At full coverage and without fractional edges \<^verbatim>\<open>emitLineSource8888_pre\<close> replaces every pixel
  of the rectangle with the premultiplied current colour and touches no other pixel.\<close>

lemma emitLineSource8888_pre_full:
  assumes "area_ok r h" "edges_ok r" "colour_ok r" "r_el_lfrac r = 0" "r_el_rfrac r = 0"
  shows "emitLineSource8888_pre r h 65536 = Some (r\<lparr>r_data :=
    upd_rows (r_data r) (area_start r) (nat (r_imageScanlineStride r)) (nat (r_alphaWidth r)) (nat h)
      (\<lambda>_ _ _. premul_colour r)\<rparr>) \<and> premul (premul_colour r)"
proof -
  have c: "is_u8 (r_calpha r)" "is_u8 (r_cred r)" "is_u8 (r_cgreen r)" "is_u8 (r_cblue r)"
    using assms(3) by (auto simp: colour_ok_def)
  have e: "touched_w r = r_alphaWidth r" "0 \<le> r_alphaWidth r" "r_alphaWidth r < 2 ^ 31"
    using assms(1,2) touched_w_lt [of r] by (auto simp: edges_ok_def area_ok_def)
  have w0: "0 \<le> run_w r 0 0" unfolding run_w_eq [OF e(2,3)] using e(2) by simp
  have d: "drop_bit 8 (s32 ((r_calpha r + 1) * x)) = scale256 x (r_calpha r + 1)" if "is_u8 x" for x
    using drop8_scale256 [OF that, of "r_calpha r + 1"] c(1) by (simp add: mult.commute is_u8_def)
  note rows = el_src_solid.emit_rows_upd [OF assms(1) e(1) order_refl _ run_w_eq [OF e(2,3)] w0]
  show ?thesis
    unfolding emitLineSource8888_pre_def Let_def assms(4,5) d [OF c(2)] d [OF c(3)] d [OF c(4)]
      premul_colour_def [symmetric]
    using premul_colour_premul [OF assms(3)] by (simp add: rows)
qed

lemma emitLineSource8888_pre_full_witness:
  "map_option r_data (emitLineSource8888_pre (wit_r\<lparr>r_calpha := 128\<rparr>) 2 65536) =
     Some [-1, -2139095040, -2139095040, -16777216, -2139095040, -2139095040]"
proof -
  have "area_ok (wit_r\<lparr>r_calpha := 128\<rparr>) 2" "edges_ok (wit_r\<lparr>r_calpha := 128\<rparr>)"
    "colour_ok (wit_r\<lparr>r_calpha := 128\<rparr>)"
    "r_el_lfrac (wit_r\<lparr>r_calpha := 128\<rparr>) = 0" "r_el_rfrac (wit_r\<lparr>r_calpha := 128\<rparr>) = 0"
    by (simp_all add: edges_ok_def wit_simps)
  note t = emitLineSource8888_pre_full [OF this, THEN conjunct1]
  show ?thesis unfolding t by code_simp
qed

section \<open>Clearing a rectangle\<close>

lemma ptr_rows_upd:
  assumes "\<And>j d. j < h \<Longrightarrow> P d \<Longrightarrow> length d = n \<Longrightarrow>
      row (i + int j * int W) d = Some (upd_seg d (nat i + j * W) w (f j)) \<and> P (upd_seg d (nat i + j * W) w (f j))"
    and "P d" "length d = n" "w \<le> W" "0 < W" "0 \<le> i"
  shows "ptr_rows row (int W) h i d = Some (upd_rows d (nat i) W w h f)"
  using assms
proof (induction h arbitrary: i d f)
  case (Suc h)
  let ?d = "upd_seg d (nat i) w (f 0)"
  have r0: "row i d = Some ?d" "P ?d" using Suc.prems(1) [of 0 d] Suc.prems(2,3) by simp_all
  have n: "nat (i + int W) = nat i + W" using Suc.prems(6) by simp
  have "ptr_rows row (int W) h (i + int W) ?d = Some (upd_rows ?d (nat (i + int W)) W w h (\<lambda>j. f (Suc j)))"
  proof (rule Suc.IH)
    fix j d' assume "j < h" "P d'" "length d' = n"
    then show "row (i + int W + int j * int W) d' = Some (upd_seg d' (nat (i + int W) + j * W) w (f (Suc j))) \<and>
      P (upd_seg d' (nat (i + int W) + j * W) w (f (Suc j)))"
      using Suc.prems(1) [of "Suc j" d'] unfolding n by (simp add: algebra_simps)
  qed (use Suc.prems r0 in simp_all)
  then show ?case using r0 Suc.prems(4,5) by (simp add: n upd_rows_Suc)
qed simp

lemma upd_rows_contiguous:
  assumes "0 < W"
  shows "upd_rows d i W W h (\<lambda>_ _ _. v) = upd_seg d i (W * h) (\<lambda>_ _. v)"
proof (rule nth_equalityI)
  fix p assume "p < length (upd_rows d i W W h (\<lambda>_ _ _. v))"
  then have p: "p < length d" by simp
  have "(p - i) div W < h \<longleftrightarrow> p - i < W * h"
    using assms by (simp add: div_less_iff_less_mult mult.commute)
  then show "upd_rows d i W W h (\<lambda>_ _ _. v) ! p = upd_seg d i (W * h) (\<lambda>_ _. v) ! p"
    using p assms by (auto simp: nth_upd_rows nth_upd_seg)
qed simp

text \<open>The rectangle lies in the image, whose lines are \<^verbatim>\<open>_width\<close> apart.\<close>

definition clear_ok :: "'f Renderer \<Rightarrow> int \<Rightarrow> int \<Rightarrow> int \<Rightarrow> int \<Rightarrow> bool" where
  "clear_ok r x y w h \<longleftrightarrow> r_imagePixelStride r = 1 \<and> r_imageScanlineStride r = r_width r \<and>
     0 \<le> r_imageOffset r \<and> 0 \<le> x \<and> 0 \<le> y \<and> 0 < w \<and> 0 < h \<and> x + w \<le> r_width r \<and>
     r_imageOffset r + (y + h) * r_width r \<le> int (length (r_data r)) \<and> 4 * length (r_data r) < 2 ^ 31"

definition rect_start :: "'f Renderer \<Rightarrow> int \<Rightarrow> int \<Rightarrow> nat" where
  "rect_start r x y = nat (r_imageOffset r + y * r_width r + x)"

lemma clear_bounds:
  assumes "clear_ok r x y w h" "j < nat h"
  shows "rect_start r x y + j * nat (r_width r) + nat w \<le> length (r_data r)"
    and "r_imageOffset r + s32 (y * r_imageScanlineStride r) + s32 (x * r_imagePixelStride r) = int (rect_start r x y)"
    and "s32 (4 * w) = 4 * w" "w * h \<le> int (length (r_data r))"
proof -
  let ?W = "r_width r" and ?n = "int (length (r_data r))"
  have b: "0 \<le> r_imageOffset r" "0 \<le> x" "0 \<le> y" "0 < w" "0 < h" "x + w \<le> ?W" "4 * ?n < 2147483648"
      "r_imageOffset r + (y + h) * ?W \<le> ?n" "r_imagePixelStride r = 1" "r_imageScanlineStride r = ?W"
    using assms(1) by (auto simp: clear_ok_def)
  have m: "0 \<le> y * ?W" "y * ?W + h * ?W \<le> ?n" "int j * ?W + ?W \<le> h * ?W" "?W \<le> h * ?W" "0 \<le> int j * ?W" "w * h \<le> h * ?W"
  proof -
    show "0 \<le> y * ?W" "0 \<le> int j * ?W" using b by simp_all
    show "y * ?W + h * ?W \<le> ?n" using b by (simp add: distrib_right)
    have "(int j + 1) * ?W \<le> h * ?W" using assms(2) b by (intro mult_right_mono) auto
    then show "int j * ?W + ?W \<le> h * ?W" by (simp add: distrib_right)
    have "1 * ?W \<le> h * ?W" using b by (intro mult_right_mono) auto
    then show "?W \<le> h * ?W" by simp
    have "h * w \<le> h * ?W" using b by (intro mult_left_mono) auto
    then show "w * h \<le> h * ?W" by (simp add: mult.commute)
  qed
  define Y H J where "Y = y * ?W" and "H = h * ?W" and "J = int j * ?W"
  note m' = m [folded Y_def H_def J_def] and b' = b(8) [unfolded distrib_right, folded Y_def H_def]
  have st: "int (rect_start r x y) = r_imageOffset r + Y + x"
    using b m' by (simp add: rect_start_def Y_def)
  have "int (rect_start r x y + j * nat ?W + nat w) = r_imageOffset r + Y + x + J + w"
    using b m' st by (simp add: J_def)
  then have "int (rect_start r x y + j * nat ?W + nat w) \<le> ?n" using b m' b' by linarith
  then show "rect_start r x y + j * nat ?W + nat w \<le> length (r_data r)" by (rule zle_int [THEN iffD1])
  show "s32 (4 * w) = 4 * w" by (rule s32_eq) (use b m' b' in linarith)+
  have "s32 Y = Y" by (rule s32_eq) (use b m' b' in linarith)+
  moreover have "s32 x = x" by (rule s32_eq) (use b m' b' in linarith)+
  ultimately show "r_imageOffset r + s32 (y * r_imageScanlineStride r) + s32 (x * r_imagePixelStride r) = int (rect_start r x y)"
    using b st by (simp add: Y_def)
  show "w * h \<le> ?n" using b b' m' by linarith
qed

lemma memset_nat:
  "i + n \<le> length d \<Longrightarrow> memset0 d (int i) (4 * int n) = Some (upd_seg d i n (\<lambda>_ _. 0))"
  by (simp add: memset0_def)

lemma memcpy_nat:
  "p + n \<le> length d \<Longrightarrow> q + n \<le> p \<Longrightarrow>
   memcpy_in d (int p) (int q) (4 * int n) = Some (upd_seg d p n (\<lambda>k _. d ! (q + k)))"
  by (simp add: memcpy_in_def Let_def)

text \<open>The lines after the first one are copies of it.\<close>

lemma memcpy_rows:
  assumes "\<And>j. j < Suc h \<Longrightarrow> i + j * W + w \<le> length d" "w \<le> W" "0 < W"
    and "\<And>k. k < w \<Longrightarrow> d ! (i + k) = v"
  shows "ptr_rows (\<lambda>q d. memcpy_in d q (int i) (4 * int w)) (int W) h (int (i + W)) d =
    Some (upd_rows d (i + W) W w h (\<lambda>_ _ _. v))"
proof -
  let ?P = "\<lambda>e. \<forall>k < w. e ! (i + k) = v"
  have "ptr_rows (\<lambda>q d. memcpy_in d q (int i) (4 * int w)) (int W) h (int (i + W)) d =
    Some (upd_rows d (nat (int (i + W))) W w h (\<lambda>_ _ _. v))"
  proof (rule ptr_rows_upd [where P = ?P and n = "length d"])
    fix j and e :: "jint list" assume j: "j < h" and e: "?P e" "length e = length d"
    have b: "i + (W + j * W) + w \<le> length e" "i + w \<le> length e"
      using assms(1) [of "Suc j"] assms(1) [of 0] j e(2) by simp_all
    have q: "int (i + W) + int j * int W = int (i + W + j * W)" by simp
    have "memcpy_in e (int (i + W) + int j * int W) (int i) (4 * int w) =
      Some (upd_seg e (i + W + j * W) w (\<lambda>k _. e ! (i + k)))"
      unfolding q by (rule memcpy_nat) (use b assms(2) in simp_all)
    also have "upd_seg e (i + W + j * W) w (\<lambda>k _. e ! (i + k)) = upd_seg e (i + W + j * W) w (\<lambda>_ _. v)"
      using e(1) by (intro upd_seg_cong) simp
    finally show "memcpy_in e (int (i + W) + int j * int W) (int i) (4 * int w) =
        Some (upd_seg e (nat (int (i + W)) + j * W) w (\<lambda>_ _. v)) \<and> ?P (upd_seg e (nat (int (i + W)) + j * W) w (\<lambda>_ _. v))"
      using e b assms(2) by (simp add: nth_upd_seg del: of_nat_add)
  qed (use assms in simp_all)
  then show ?thesis by (simp only: nat_int)
qed

lemma memset_rows:
  assumes "\<And>j. j < h \<Longrightarrow> i + j * W + w \<le> length d" "w \<le> W" "0 < W"
  shows "ptr_rows (\<lambda>q d. memset0 d q (4 * int w)) (int W) h (int i) d =
    Some (upd_rows d i W w h (\<lambda>_ _ _. 0))"
proof -
  have "ptr_rows (\<lambda>q d. memset0 d q (4 * int w)) (int W) h (int i) d =
    Some (upd_rows d (nat (int i)) W w h (\<lambda>_ _ _. 0))"
  proof (rule ptr_rows_upd [where P = "\<lambda>_. True" and n = "length d"])
    fix j and e :: "jint list" assume j: "j < h" and e: "length e = length d"
    have b: "i + j * W + w \<le> length e" using assms(1) [OF j] e by simp
    have q: "int i + int j * int W = int (i + j * W)" by simp
    show "memset0 e (int i + int j * int W) (4 * int w) = Some (upd_seg e (nat (int i) + j * W) w (\<lambda>_ _. 0)) \<and> True"
      unfolding q using memset_nat [OF b] by simp
  qed (use assms in simp_all)
  then show ?thesis by simp
qed

lemma clear_cases:
  assumes "clear_ok r x y w h"
  defines "i \<equiv> rect_start r x y" and "W \<equiv> nat (r_width r)" and "n \<equiv> nat w"
  shows "w = r_width r \<Longrightarrow> memset0 (r_data r) (int i) (s32 (4 * w * h)) = Some (upd_rows (r_data r) i W n (nat h) (\<lambda>_ _ _. 0))"
    and "ptr_rows (\<lambda>q d. memset0 d q (4 * w)) (r_width r) (nat h) (int i) (r_data r) =
      Some (upd_rows (r_data r) i W n (nat h) (\<lambda>_ _ _. 0))"
    and "do { (_, _, d) \<leftarrow> line_loop (put_px v) 1 (int i) (int i + w) 0 (r_data r);
             ptr_rows (\<lambda>q d. memcpy_in d q (int i) (4 * w)) (r_width r) (nat (h - 1)) (int i + r_width r) d } =
      Some (upd_rows (r_data r) i W n (nat h) (\<lambda>_ _ _. v))"
proof -
  have b: "0 < w" "0 < h" "w \<le> r_width r" "4 * int (length (r_data r)) < 2147483648" using assms(1) by (auto simp: clear_ok_def)
  have e: "w = int n" "r_width r = int W" "n \<le> W" "0 < W" "nat h = Suc (nat (h - 1))" "h = int (nat h)"
    using b by (auto simp: n_def W_def)
  note rows = clear_bounds(1) [OF assms(1), folded i_def W_def n_def]
  have r0: "i + n \<le> length (r_data r)" using rows [of 0] b by simp
  show "ptr_rows (\<lambda>q d. memset0 d q (4 * w)) (r_width r) (nat h) (int i) (r_data r) =
      Some (upd_rows (r_data r) i W n (nat h) (\<lambda>_ _ _. 0))"
    unfolding e(1,2) by (rule memset_rows) (use rows e in auto)
  show "memset0 (r_data r) (int i) (s32 (4 * w * h)) = Some (upd_rows (r_data r) i W n (nat h) (\<lambda>_ _ _. 0))" if "w = r_width r"
  proof -
    have wh: "0 \<le> w * h" "w * h \<le> int (length (r_data r))" using clear_bounds(4) [OF assms(1), of 0] b by simp_all
    have s: "s32 (4 * w * h) = 4 * (w * h)"
      unfolding mult.assoc by (rule s32_eq) (use wh b(4) in linarith)+
    have nW: "n = W" using that by (simp add: n_def W_def)
    have "int i + w * h \<le> int (length (r_data r))"
    proof -
      have "i + nat (h - 1) * W + n \<le> length (r_data r)" using rows [of "nat (h - 1)"] b by simp
      moreover have "int (nat (h - 1) * W + n) = w * h" using e(1,2) that b(2) by (simp add: algebra_simps)
      ultimately show ?thesis by linarith
    qed
    then show ?thesis
      unfolding s nW upd_rows_contiguous [OF e(4)] memset0_def
      using wh that b by (simp add: W_def nat_mult_distrib)
  qed
  let ?d = "upd_seg (r_data r) i n (\<lambda>_ _. v)"
  have "line_loop (put_px v) 1 (int i) (int i + int n) 0 (r_data r) =
    Some (int i + int n, 0 + int n, upd_seg (r_data r) (nat (int i)) n (\<lambda>_ _. v))"
    by (rule put.line_loop_upd) (use r0 in auto)
  moreover have "ptr_rows (\<lambda>q d. memcpy_in d q (int i) (4 * int n)) (int W) (nat (h - 1)) (int (i + W)) ?d =
    Some (upd_rows ?d (i + W) W n (nat (h - 1)) (\<lambda>_ _ _. v))"
    by (rule memcpy_rows) (use rows e r0 in \<open>auto simp: nth_upd_seg\<close>)
  moreover have "upd_rows ?d (i + W) W n (nat (h - 1)) (\<lambda>_ _ _. v) = upd_rows (r_data r) i W n (nat h) (\<lambda>_ _ _. v)"
    unfolding e(5) using upd_rows_Suc [OF e(3,4), of "r_data r" i "\<lambda>_ _ _. v"] by simp
  ultimately show "do { (_, _, d) \<leftarrow> line_loop (put_px v) 1 (int i) (int i + w) 0 (r_data r);
             ptr_rows (\<lambda>q d. memcpy_in d q (int i) (4 * w)) (r_width r) (nat (h - 1)) (int i + r_width r) d } =
      Some (upd_rows (r_data r) i W n (nat h) (\<lambda>_ _ _. v))"
    unfolding e(1,2) by simp
qed

lemma clearRect8888_any_upd:
  assumes "clear_ok r x y w h"
  shows "clearRect8888_any r x y w h = Some (r\<lparr>r_data :=
    upd_rows (r_data r) (rect_start r x y) (nat (r_width r)) (nat w) (nat h)
      (\<lambda>_ _ _. argb (r_calpha r) (r_cred r) (r_cgreen r) (r_cblue r))\<rparr>)"
proof -
  have h: "0 < nat h" and W: "r_imageScanlineStride r = r_width r" using assms by (auto simp: clear_ok_def)
  note b = clear_bounds(2,3) [OF assms h] and c = clear_cases [OF assms]
  show ?thesis
    unfolding clearRect8888_any_def Let_def b
    unfolding W using c(1) c(2) c(3) by (auto simp: mult.assoc simp del: of_nat_add)
qed

text \<open>\<^verbatim>\<open>clearRect8888_any\<close> sets every pixel of the rectangle to the current colour and no other, on
  each of its three paths (one \<^verbatim>\<open>memset\<close>, a \<^verbatim>\<open>memset\<close> per line, one line and copies of it).\<close>

lemma clearRect8888_any_correct:
  assumes "clear_ok r x y w h"
  shows "clearRect8888_any r x y w h = Some (r\<lparr>r_data :=
    upd_rows (r_data r) (rect_start r x y) (nat (r_width r)) (nat w) (nat h)
      (\<lambda>_ _ _. argb (r_calpha r) (r_cred r) (r_cgreen r) (r_cblue r))\<rparr>)"
  by (rule clearRect8888_any_upd [OF assms])

lemma clearRect8888_any_correct_witness:
  "map_option r_data (clearRect8888_any wit_r 1 0 2 2) =
     Some [-1, -65536, -65536, -16777216, -65536, -65536]"
proof -
  have "clear_ok wit_r 1 0 2 2" by (simp add: clear_ok_def wit_simps)
  note t = clearRect8888_any_correct [OF this]
  show ?thesis unfolding t by code_simp
qed

end
