(* ===== verification/PiscesPaint.thy ===== *)
theory PiscesPaint
  imports PixelLoops
begin

text \<open>
  The paint generators of \<^verbatim>\<open>PiscesPaint.c\<close>. They fill the array \<^verbatim>\<open>_paint\<close>, \<^verbatim>\<open>height\<close> lines of \<^verbatim>\<open>_alphaWidth\<close>
  pixels, with the colours of a gradient or a texture for the pixels that are about to be drawn.

  Gradients compute with floating point numbers; their operations are the argument \<open>F\<close>, and the
  lemmas on gradients hold for every \<open>F\<close>. Texture coordinates are 48.16 fixed point numbers in a
  \<^verbatim>\<open>jlong\<close>. The six inner loops of each transform type differ in how coordinates are brought into the
  texture (\<open>bound_tx\<close>) and in how a texel is read (\<open>texel\<close>); both are selected by \<^verbatim>\<open>repeatInterpolateMode\<close>
  as the C \<^verbatim>\<open>switch\<close> does. \<open>None\<close> is an access outside of an array or a division by 0.
\<close>

section \<open>Definitions\<close>

definition NO_REPEAT_NO_INTERPOLATE :: int where "NO_REPEAT_NO_INTERPOLATE = 0"
definition REPEAT_NO_INTERPOLATE :: int where "REPEAT_NO_INTERPOLATE = 1"
definition NO_REPEAT_INTERPOLATE_NO_ALPHA :: int where "NO_REPEAT_INTERPOLATE_NO_ALPHA = 2"
definition NO_REPEAT_INTERPOLATE_ALPHA :: int where "NO_REPEAT_INTERPOLATE_ALPHA = 3"
definition REPEAT_INTERPOLATE_NO_ALPHA :: int where "REPEAT_INTERPOLATE_NO_ALPHA = 4"
definition REPEAT_INTERPOLATE_ALPHA :: int where "REPEAT_INTERPOLATE_ALPHA = 5"

lemmas mode_defs = NO_REPEAT_NO_INTERPOLATE_def REPEAT_NO_INTERPOLATE_def
  NO_REPEAT_INTERPOLATE_NO_ALPHA_def NO_REPEAT_INTERPOLATE_ALPHA_def
  REPEAT_INTERPOLATE_NO_ALPHA_def REPEAT_INTERPOLATE_ALPHA_def

definition LG_GRADIENT_MAP_SIZE :: nat where "LG_GRADIENT_MAP_SIZE = 8"

text \<open>The remainder \<^verbatim>\<open>%\<close> of C, with the sign of the dividend.\<close>

definition c_rem :: "int \<Rightarrow> int \<Rightarrow> int" where
  "c_rem x y = sgn x * (\<bar>x\<bar> mod \<bar>y\<bar>)"

definition lmod :: "jlong \<Rightarrow> jlong \<Rightarrow> jlong option" where
  "lmod x y =
     (if y = 0 then None
      else let x = c_rem x y in Some (if x < 0 then s64 (x + y) else x))"

definition interp :: "jint \<Rightarrow> jint \<Rightarrow> jint \<Rightarrow> jint" where
  "interp x0 x1 frac = drop_bit 16 (s32 (push_bit 16 x0 + (x1 - x0) * frac + 0x8000))"

definition pad :: "jint \<Rightarrow> jint \<Rightarrow> jint" where
  "pad ifrac cycleMethod =
     (if cycleMethod = CYCLE_NONE
      then if ifrac < 0 then 0 else if ifrac > 0xffff then 0xffff else ifrac
      else if cycleMethod = CYCLE_REPEAT then ifrac AND 0xffff
      else if cycleMethod = CYCLE_REFLECT
      then let ifrac = (if ifrac < 0 then s32 (- ifrac) else ifrac);
               ifrac = ifrac AND 0x1ffff
           in if ifrac > 0xffff then 0x1ffff - ifrac else ifrac
      else ifrac)"

subsection \<open>Gradients\<close>

fun linear_row :: "'f fops \<Rightarrow> 'f Renderer \<Rightarrow> nat \<Rightarrow> jint \<Rightarrow> 'f \<Rightarrow> jint list \<Rightarrow> jint list option" where
  "linear_row F r 0 pidx frac paint = Some paint"
| "linear_row F r (Suc n) pidx frac paint = do {
     let ifrac = drop_bit (16 - LG_GRADIENT_MAP_SIZE) (pad (ftoint F frac) (r_gradient_cycleMethod r));
     c \<leftarrow> load (r_gradient_colors r) ifrac;
     paint \<leftarrow> store paint pidx c;
     linear_row F r n (s32 (pidx + 1)) (fadd F frac (r_lg_mx r)) paint }"

fun linear_rows :: "'f fops \<Rightarrow> 'f Renderer \<Rightarrow> nat \<Rightarrow> jint \<Rightarrow> jint \<Rightarrow> jint list \<Rightarrow> jint list option" where
  "linear_rows F r 0 y paintOffset paint = Some paint"
| "linear_rows F r (Suc n) y paintOffset paint = do {
     let frac = fadd F (fadd F (fmul F (fofint F (r_currX r)) (r_lg_mx r))
                               (fmul F (fofint F y) (r_lg_my r))) (r_lg_b r);
     paint \<leftarrow> linear_row F r (nat (r_alphaWidth r)) paintOffset frac paint;
     linear_rows F r n (s32 (y + 1)) (s32 (paintOffset + r_alphaWidth r)) paint }"

definition genLinearGradientPaint :: "'f fops \<Rightarrow> 'f Renderer \<Rightarrow> jint \<Rightarrow> 'f Renderer option" where
  "genLinearGradientPaint F r height = do {
     paint \<leftarrow> linear_rows F r (nat height) (r_currY r) 0 (r_paint r);
     Some (r\<lparr>r_paint := paint\<rparr>) }"

fun radial_row :: "'f fops \<Rightarrow> 'f Renderer \<Rightarrow> 'f \<Rightarrow> 'f \<Rightarrow> nat \<Rightarrow> jint \<Rightarrow> 'f \<Rightarrow> 'f \<Rightarrow> 'f \<Rightarrow> jint list \<Rightarrow>
    jint list option" where
  "radial_row F r dU ddV 0 pidx U V dV paint = Some paint"
| "radial_row F r dU ddV (Suc n) pidx U V dV paint = do {
     let V = (if flt F V (fofint F 0) then fofint F 0 else V);
     let ifrac = fsum_sqrt F U V;
     let ifrac = drop_bit (16 - LG_GRADIENT_MAP_SIZE) (pad ifrac (r_gradient_cycleMethod r));
     c \<leftarrow> load (r_gradient_colors r) ifrac;
     paint \<leftarrow> store paint pidx c;
     radial_row F r dU ddV n (s32 (pidx + 1)) (fadd F U dU) (fadd F V dV) (fadd F dV ddV) paint }"

text \<open>The coefficients \<^verbatim>\<open>(U, dU, V, dV, ddV)\<close> of the quadratic that a line of a radial gradient solves.\<close>

definition radial_setup :: "'f fops \<Rightarrow> 'f Renderer \<Rightarrow> jint \<Rightarrow> 'f \<times> 'f \<times> 'f \<times> 'f \<times> 'f" where
  "radial_setup F r y =
     (let add = fadd F; sub = fsub F; mul = fmul F; c = fofint F;
          x = c (r_currX r); yf = c y;
          a00 = r_rg_a00 r; a01 = r_rg_a01 r; a02 = r_rg_a02 r;
          a10 = r_rg_a10 r; a11 = r_rg_a11 r; a12 = r_rg_a12 r;
          a00a00 = r_rg_a00a00 r; a10a10 = r_rg_a10a10 r; a00a10 = r_rg_a00a10 r;
          fx = r_rg_fx r; fy = r_rg_fy r; rsq = r_rg_rsq r;
          txx = add (add (mul x a00) (mul yf a01)) a02;
          tyy = add (add (mul x a10) (mul yf a11)) a12;
          fxx = sub fx txx;
          fyy = sub fy tyy;
          A = add (mul fxx fxx) (mul fyy fyy);
          cfx = sub (r_rg_cx r) fx;
          cfy = sub (r_rg_cy r) fy;
          cfxcfx = mul cfx cfx;
          cfycfy = mul cfy cfy;
          cfxcfy = mul cfx cfy;
          B = add (mul cfx fxx) (mul cfy fyy);
          B2 = mul (fneg F B) (c 2);
          C = sub (add cfxcfx cfycfy) rsq;
          C2 = mul (c 2) C;
          iC = fdiv F (c 1) C;
          iCsq = mul iC iC;
          U = mul (fneg F B) iC;
          dU = mul (add (mul a00 cfx) (mul a10 cfy)) iC;
          V = mul (sub (mul B B) (mul A C)) iCsq;
          sube = mul (mul (c 2) a00a10) cfxcfy;
          dV = mul (add (add sube
                 (add (mul a00a00 (sub cfxcfx C)) (mul a00 (add (mul B2 cfx) (mul C2 fxx)))))
                 (add (mul a10a10 (sub cfycfy C)) (mul a10 (add (mul B2 cfy) (mul C2 fyy))))) iCsq;
          tmp = add (sub (mul a00a00 cfycfy) sube) (mul a10a10 cfxcfx);
          ddV = mul (mul (c 2) (sub (mul (add a00a00 a10a10) rsq) tmp)) iCsq;
          k = c 65536;
          kk = mul k k
      in (mul k U, mul k dU, mul kk V, mul kk dV, mul kk ddV))"

fun radial_rows :: "'f fops \<Rightarrow> 'f Renderer \<Rightarrow> nat \<Rightarrow> jint \<Rightarrow> jint \<Rightarrow> jint list \<Rightarrow> jint list option" where
  "radial_rows F r 0 y paintOffset paint = Some paint"
| "radial_rows F r (Suc n) y paintOffset paint = do {
     let (U, dU, V, dV, ddV) = radial_setup F r y;
     paint \<leftarrow> radial_row F r dU ddV (nat (r_alphaWidth r)) paintOffset U V dV paint;
     radial_rows F r n (s32 (y + 1)) (s32 (paintOffset + r_alphaWidth r)) paint }"

definition genRadialGradientPaint :: "'f fops \<Rightarrow> 'f Renderer \<Rightarrow> jint \<Rightarrow> 'f Renderer option" where
  "genRadialGradientPaint F r height = do {
     paint \<leftarrow> radial_rows F r (nat height) (r_currY r) 0 (r_paint r);
     Some (r\<lparr>r_paint := paint\<rparr>) }"

subsection \<open>Interpolation of texels\<close>

definition interpolate2points :: "jint \<Rightarrow> jint \<Rightarrow> jint \<Rightarrow> jint" where
  "interpolate2points p0 p1 frac =
     argb (interp (ch_A p0) (ch_A p1) frac) (interp (ch_R p0) (ch_R p1) frac)
       (interp (ch_G p0) (ch_G p1) frac) (interp (ch_B p0) (ch_B p1) frac)"

definition interpolate4points :: "jint \<Rightarrow> jint \<Rightarrow> jint \<Rightarrow> jint \<Rightarrow> jint \<Rightarrow> jint \<Rightarrow> jint" where
  "interpolate4points p00 p01 p10 p11 hfrac vfrac =
     (let f = \<lambda>ch. interp (interp (ch p00) (ch p01) hfrac) (interp (ch p10) (ch p11) hfrac) vfrac
      in argb (f ch_A) (f ch_R) (f ch_G) (f ch_B))"

definition interpolate2pointsNoAlpha :: "jint \<Rightarrow> jint \<Rightarrow> jint \<Rightarrow> jint" where
  "interpolate2pointsNoAlpha p0 p1 frac =
     argb 255 (interp (ch_R p0) (ch_R p1) frac) (interp (ch_G p0) (ch_G p1) frac)
       (interp (ch_B p0) (ch_B p1) frac)"

definition interpolate4pointsNoAlpha :: "jint \<Rightarrow> jint \<Rightarrow> jint \<Rightarrow> jint \<Rightarrow> jint \<Rightarrow> jint \<Rightarrow> jint" where
  "interpolate4pointsNoAlpha p00 p01 p10 p11 hfrac vfrac =
     (let f = \<lambda>ch. interp (interp (ch p00) (ch p01) hfrac) (interp (ch p10) (ch p11) hfrac) vfrac
      in argb 255 (f ch_R) (f ch_G) (f ch_B))"

subsection \<open>Coordinates\<close>

definition isInBoundsNoRepeat :: "jint \<Rightarrow> jint \<Rightarrow> jint \<Rightarrow> bool" where
  "isInBoundsNoRepeat aval mn mx \<longleftrightarrow> \<not> (aval < mn \<or> aval > mx)"

definition checkBoundsRepeat :: "jint \<Rightarrow> jlong \<Rightarrow> jint \<Rightarrow> jint \<Rightarrow> (jint \<times> jlong) option" where
  "checkBoundsRepeat a la mn mx =
     (if a < mn \<or> a > mx
      then if mx \<ge> 0
           then do { la \<leftarrow> lmod la (s32 (push_bit 16 (s32 (mx + 1)))); Some (s32 (drop_bit 16 la), la) }
           else Some (0, 0)
      else Some (a, la))"

definition checkBoundsNoRepeat :: "jint \<Rightarrow> jlong \<Rightarrow> jint \<Rightarrow> jint \<Rightarrow> jint \<times> jlong" where
  "checkBoundsNoRepeat a la mn mx = (if a < mn then (mn, la) else if a > mx then (mx, la) else (a, la))"

definition getPointsToInterpolate :: "jint list \<Rightarrow> jint \<Rightarrow> jint \<Rightarrow> jint \<Rightarrow> jint \<Rightarrow> jint \<Rightarrow> jint \<Rightarrow> jint \<Rightarrow>
    (jint \<times> jint \<times> jint) option" where
  "getPointsToInterpolate data sidx stride p00 tx txMax ty tyMax =
     (let sidx2 = (if ty \<ge> tyMax then sidx else s32 (sidx + stride));
          isXin = (tx < txMax)
      in do {
        p0 \<leftarrow> (if isXin then load data (s32 (sidx + 1)) else Some p00);
        p1 \<leftarrow> load data sidx2;
        p2 \<leftarrow> (if isXin then load data (s32 (sidx2 + 1)) else load data sidx2);
        Some (p0, p1, p2) })"

definition getPointsToInterpolateRepeat :: "jint list \<Rightarrow> jint \<Rightarrow> jint \<Rightarrow> jint \<Rightarrow> jint \<Rightarrow> jint \<Rightarrow> jint \<Rightarrow> jint \<Rightarrow>
    (jint \<times> jint \<times> jint) option" where
  "getPointsToInterpolateRepeat data sidx stride p00 tx txMax ty tyMax =
     (let sidx2 = (if ty \<ge> tyMax then max tx 0 else s32 (sidx + stride));
          isXin = (tx < txMax)
      in do {
        p0 \<leftarrow> (if isXin then load data (s32 (sidx + 1)) else load data (s32 (sidx - max tx 0)));
        p1 \<leftarrow> load data sidx2;
        p2 \<leftarrow> (if isXin then load data (s32 (sidx2 + 1)) else load data (s32 (sidx2 - max tx 0)));
        Some (p0, p1, p2) })"

subsection \<open>Textures\<close>

definition repeatInterpolateMode :: "'f Renderer \<Rightarrow> int" where
  "repeatInterpolateMode r =
     (if r_texture_interpolate r
      then if r_texture_hasAlpha r
           then if r_texture_repeat r then REPEAT_INTERPOLATE_ALPHA else NO_REPEAT_INTERPOLATE_ALPHA
           else if r_texture_repeat r then REPEAT_INTERPOLATE_NO_ALPHA else NO_REPEAT_INTERPOLATE_NO_ALPHA
      else if r_texture_repeat r then REPEAT_NO_INTERPOLATE else NO_REPEAT_NO_INTERPOLATE)"

definition mode_repeat :: "int \<Rightarrow> bool" where
  "mode_repeat mode \<longleftrightarrow>
     mode = REPEAT_NO_INTERPOLATE \<or> mode = REPEAT_INTERPOLATE_ALPHA \<or> mode = REPEAT_INTERPOLATE_NO_ALPHA"

definition mode_interpolate :: "int \<Rightarrow> bool" where
  "mode_interpolate mode \<longleftrightarrow> mode \<noteq> NO_REPEAT_NO_INTERPOLATE \<and> mode \<noteq> REPEAT_NO_INTERPOLATE"

definition mode_alpha :: "int \<Rightarrow> bool" where
  "mode_alpha mode \<longleftrightarrow> mode = NO_REPEAT_INTERPOLATE_ALPHA \<or> mode = REPEAT_INTERPOLATE_ALPHA"

definition bound_tx :: "int \<Rightarrow> jint \<Rightarrow> jlong \<Rightarrow> jint \<Rightarrow> jint \<Rightarrow> (jint \<times> jlong) option" where
  "bound_tx mode a la mn mx =
     (if mode_repeat mode then checkBoundsRepeat a la mn mx
      else Some (checkBoundsNoRepeat a la mn mx))"

definition texel_mix :: "int \<Rightarrow> jint \<Rightarrow> jint \<Rightarrow> jint \<Rightarrow> jint \<Rightarrow> jint \<Rightarrow> jint \<Rightarrow> jint" where
  "texel_mix mode p00 p0 p1 p2 hfrac vfrac =
     (if hfrac \<noteq> 0 \<and> vfrac \<noteq> 0
      then if mode_alpha mode then interpolate4points p00 p0 p1 p2 hfrac vfrac
           else interpolate4pointsNoAlpha p00 p0 p1 p2 hfrac vfrac
      else if hfrac \<noteq> 0
      then if mode_alpha mode then interpolate2points p00 p0 hfrac
           else interpolate2pointsNoAlpha p00 p0 hfrac
      else if vfrac \<noteq> 0
      then if mode_alpha mode then interpolate2points p00 p1 vfrac
           else interpolate2pointsNoAlpha p00 p1 vfrac
      else p00)"

definition texel :: "'f Renderer \<Rightarrow> int \<Rightarrow> jint \<Rightarrow> jint \<Rightarrow> jint \<Rightarrow> jint \<Rightarrow> jint option" where
  "texel r mode tx ty hfrac vfrac =
     (let txtData = r_texture_intData r; txtStride = r_texture_stride r;
          sidx = s32 (max 0 ty * txtStride + max 0 tx)
      in do {
        p00 \<leftarrow> load txtData sidx;
        if \<not> mode_interpolate mode then Some p00
        else do {
          (p0, p1, p2) \<leftarrow>
            (if mode_repeat mode then getPointsToInterpolateRepeat else getPointsToInterpolate)
              txtData sidx txtStride p00 tx (s32 (r_texture_imageWidth r - 1)) ty (s32 (r_texture_imageHeight r - 1));
          Some (texel_mix mode p00 p0 p1 p2 hfrac vfrac) } })"

fun translate_row :: "'f Renderer \<Rightarrow> int \<Rightarrow> jint \<Rightarrow> jint \<Rightarrow> jint \<Rightarrow> nat \<Rightarrow> jint \<Rightarrow> jlong \<Rightarrow> jint list \<Rightarrow>
    jint list option" where
  "translate_row r mode ty hfrac vfrac 0 pidx ltx paint = Some paint"
| "translate_row r mode ty hfrac vfrac (Suc n) pidx ltx paint = do {
     (tx, ltx) \<leftarrow> bound_tx mode (s32 (drop_bit 16 ltx)) ltx (s32 (r_texture_txMin r - 1)) (r_texture_txMax r);
     cval \<leftarrow> texel r mode tx ty hfrac vfrac;
     paint \<leftarrow> store paint pidx cval;
     translate_row r mode ty hfrac vfrac n (s32 (pidx + 1)) (s64 (ltx + 0x10000)) paint }"

fun translate_rows :: "'f Renderer \<Rightarrow> int \<Rightarrow> nat \<Rightarrow> jint \<Rightarrow> jint \<Rightarrow> jint list \<Rightarrow> jint list option" where
  "translate_rows r mode 0 y paintOffset paint = Some paint"
| "translate_rows r mode (Suc n) y paintOffset paint = do {
     let ltx = s64 (s32 (push_bit 16 (r_currX r)) + r_texture_m02 r);
     let lty = s64 (s32 (push_bit 16 y) + r_texture_m12 r);
     let ty = s32 (drop_bit 16 lty);
     let hfrac = s32 (ltx AND 0xffff);
     let vfrac = s32 (lty AND 0xffff);
     (ty, lty) \<leftarrow> (if r_texture_repeat r
        then checkBoundsRepeat ty lty (s32 (r_texture_tyMin r - 1)) (r_texture_tyMax r)
        else Some (checkBoundsNoRepeat ty lty (s32 (r_texture_tyMin r - 1)) (r_texture_tyMax r)));
     paint \<leftarrow> translate_row r mode ty hfrac vfrac (nat (r_alphaWidth r)) paintOffset ltx paint;
     translate_rows r mode n (s32 (y + 1)) (s32 (paintOffset + r_alphaWidth r)) paint }"

text \<open>One pixel of the scale and of the generic transform; the latter paints transparent black outside
  of the texture when it does not repeat.\<close>

definition scale_step :: "'f Renderer \<Rightarrow> int \<Rightarrow> jlong \<Rightarrow> jlong \<Rightarrow> (jint \<times> jlong \<times> jlong) option" where
  "scale_step r mode ltx lty = do {
     let tx = s32 (drop_bit 16 ltx);
     let ty = s32 (drop_bit 16 lty);
     let hfrac = s32 (ltx AND 0xffff);
     let vfrac = s32 (lty AND 0xffff);
     (tx, ltx) \<leftarrow> bound_tx mode tx ltx (s32 (r_texture_txMin r - 1)) (r_texture_txMax r);
     (ty, lty) \<leftarrow> bound_tx mode ty lty (s32 (r_texture_tyMin r - 1)) (r_texture_tyMax r);
     cval \<leftarrow> texel r mode tx ty hfrac vfrac;
     Some (cval, ltx, lty) }"

definition generic_step :: "'f Renderer \<Rightarrow> int \<Rightarrow> jlong \<Rightarrow> jlong \<Rightarrow> (jint \<times> jlong \<times> jlong) option" where
  "generic_step r mode ltx lty =
     (if mode_repeat mode then scale_step r mode ltx lty
      else let tx = s32 (drop_bit 16 ltx); ty = s32 (drop_bit 16 lty);
               hfrac = s32 (ltx AND 0xffff); vfrac = s32 (lty AND 0xffff)
           in if isInBoundsNoRepeat tx (s32 (r_texture_txMin r - 1)) (r_texture_txMax r) \<and>
                 isInBoundsNoRepeat ty (s32 (r_texture_tyMin r - 1)) (r_texture_tyMax r)
              then do { cval \<leftarrow> texel r mode tx ty hfrac vfrac; Some (cval, ltx, lty) }
              else Some (0, ltx, lty))"

fun affine_row :: "(jlong \<Rightarrow> jlong \<Rightarrow> (jint \<times> jlong \<times> jlong) option) \<Rightarrow> jlong \<Rightarrow> jlong \<Rightarrow> nat \<Rightarrow> jint \<Rightarrow> jlong \<Rightarrow>
    jlong \<Rightarrow> jint list \<Rightarrow> jint list option" where
  "affine_row step dtx dty 0 pidx ltx lty paint = Some paint"
| "affine_row step dtx dty (Suc n) pidx ltx lty paint = do {
     (cval, ltx, lty) \<leftarrow> step ltx lty;
     paint \<leftarrow> store paint pidx cval;
     affine_row step dtx dty n (s32 (pidx + 1)) (s64 (ltx + dtx)) (s64 (lty + dty)) paint }"

fun affine_rows :: "(jlong \<Rightarrow> jlong \<Rightarrow> (jint \<times> jlong \<times> jlong) option) \<Rightarrow> 'f Renderer \<Rightarrow> nat \<Rightarrow> jint \<Rightarrow> jint \<Rightarrow>
    jint list \<Rightarrow> jint list option" where
  "affine_rows step r 0 y paintOffset paint = Some paint"
| "affine_rows step r (Suc n) y paintOffset paint = do {
     let ltx = s64 (r_currX r * r_texture_m00 r + y * r_texture_m01 r + r_texture_m02 r);
     let lty = s64 (r_currX r * r_texture_m10 r + y * r_texture_m11 r + r_texture_m12 r);
     paint \<leftarrow> affine_row step (r_texture_m00 r) (r_texture_m10 r) (nat (r_alphaWidth r)) paintOffset ltx lty paint;
     affine_rows step r n (s32 (y + 1)) (s32 (paintOffset + r_alphaWidth r)) paint }"

text \<open>The identity transform. \<open>t\<close>, \<open>tStart\<close>, \<open>tEnd\<close> and \<open>d\<close> are the pointers of the C code as indices.\<close>

fun identity_row :: "jint list \<Rightarrow> int \<Rightarrow> int \<Rightarrow> nat \<Rightarrow> int \<Rightarrow> int \<Rightarrow> jint list \<Rightarrow> jint list option" where
  "identity_row tex tStart tEnd 0 t d paint = Some paint"
| "identity_row tex tStart tEnd (Suc n) t d paint = do {
     v \<leftarrow> load tex t;
     paint \<leftarrow> store paint d v;
     identity_row tex tStart tEnd n (if t + 1 = tEnd then tStart else t + 1) (d + 1) paint }"

fun identity_rows :: "'f Renderer \<Rightarrow> jint \<Rightarrow> nat \<Rightarrow> jint \<Rightarrow> jint \<Rightarrow> jint list \<Rightarrow> jint list option" where
  "identity_rows r off 0 j rowNum paint = Some paint"
| "identity_rows r off (Suc n) j rowNum paint = do {
     let tStart = s32 (r_texture_stride r * rowNum);
     paint \<leftarrow> identity_row (r_texture_intData r) tStart (tStart + r_texture_imageWidth r)
       (nat (r_alphaWidth r)) (tStart + off) (s32 (r_alphaWidth r * j)) paint;
     identity_rows r off n (s32 (j + 1))
       (if s32 (rowNum + 1) = r_texture_imageHeight r then 0 else s32 (rowNum + 1)) paint }"

definition memcpy_from :: "jint list \<Rightarrow> int \<Rightarrow> jint list \<Rightarrow> int \<Rightarrow> int \<Rightarrow> jint list option" where
  "memcpy_from dst di src si n =
     (if 0 \<le> n \<and> 0 \<le> di \<and> di + n \<le> int (length dst) \<and> 0 \<le> si \<and> si + n \<le> int (length src)
      then Some (upd_seg dst (nat di) (nat n) (\<lambda>k _. src ! (nat si + k))) else None)"

fun copy_rows :: "'f Renderer \<Rightarrow> jint \<Rightarrow> nat \<Rightarrow> jint \<Rightarrow> jint list \<Rightarrow> jint list option" where
  "copy_rows r clipOffset 0 j paint = Some paint"
| "copy_rows r clipOffset (Suc n) j paint = do {
     paint \<leftarrow> memcpy_from paint (s32 (r_alphaWidth r * j)) (r_texture_intData r)
       (clipOffset + s32 (r_texture_stride r * (r_rowNum r + j))) (r_alphaWidth r);
     copy_rows r clipOffset n (s32 (j + 1)) paint }"

definition genTexturePaintTarget :: "'f Renderer \<Rightarrow> jint list \<Rightarrow> jint \<Rightarrow> jint list option" where
  "genTexturePaintTarget r paint height =
     (let mode = repeatInterpolateMode r in
      if r_texture_transformType r = TEXTURE_TRANSFORM_IDENTITY
      then if r_texture_repeat r
           then if r_texture_imageWidth r = 0 \<or> r_texture_imageHeight r = 0 then None
                else identity_rows r (c_rem (r_currX r) (r_texture_imageWidth r)) (nat height) 0
                       (c_rem (r_currY r) (r_texture_imageHeight r)) paint
           else let minX = max (r_rectX r) (r_clip_bbMinX r);
                    minY = max (r_rectY r) (r_clip_bbMinY r);
                    clipOffset = s32 ((minY - r_rectY r) * r_texture_stride r + minX - r_rectX r)
                in copy_rows r clipOffset (nat height) 0 paint
      else if r_texture_transformType r = TEXTURE_TRANSFORM_TRANSLATE
      then translate_rows r mode (nat height) (r_currY r) 0 paint
      else if r_texture_transformType r = TEXTURE_TRANSFORM_SCALE_TRANSLATE
      then affine_rows (scale_step r mode) r (nat height) (r_currY r) 0 paint
      else if r_texture_transformType r = TEXTURE_TRANSFORM_GENERIC
      then affine_rows (generic_step r mode) r (nat height) (r_currY r) 0 paint
      else Some paint)"

definition genTexturePaint :: "'f Renderer \<Rightarrow> jint \<Rightarrow> 'f Renderer option" where
  "genTexturePaint r height = do {
     paint \<leftarrow> genTexturePaintTarget r (r_paint r) height;
     Some (r\<lparr>r_paint := paint\<rparr>) }"

text \<open>The product of a texture colour \<open>tval\<close> with a paint colour, and the loops that apply it to
  \<open>w\<close> columns of each line.\<close>

definition mul_px :: "jint \<Rightarrow> jint \<Rightarrow> jint \<Rightarrow> jint \<Rightarrow> jint \<Rightarrow> jint" where
  "mul_px calpha cred cgreen cblue tval =
     (let palpha_1 = calpha + 1;
          m = \<lambda>c t. drop_bit 8 (s32 (drop_bit 8 (s32 ((c + 1) * t)) * palpha_1))
      in argb (drop_bit 8 (s32 (palpha_1 * ch_A tval))) (m cred (ch_R tval)) (m cgreen (ch_G tval))
           (m cblue (ch_B tval)))"

definition mul_alpha_px :: "jint \<Rightarrow> jint \<Rightarrow> jint" where
  "mul_alpha_px calpha tval =
     (let palpha_1 = calpha + 1; m = \<lambda>t. drop_bit 8 (s32 (palpha_1 * t))
      in argb (m (ch_A tval)) (m (ch_R tval)) (m (ch_G tval)) (m (ch_B tval)))"

fun mul_row :: "(int \<Rightarrow> jint \<Rightarrow> jint option) \<Rightarrow> nat \<Rightarrow> int \<Rightarrow> jint list \<Rightarrow> jint list option" where
  "mul_row f 0 i paint = Some paint"
| "mul_row f (Suc n) i paint = do {
     p \<leftarrow> load paint i;
     v \<leftarrow> f i p;
     paint \<leftarrow> store paint i v;
     mul_row f n (i + 1) paint }"

fun mul_rows :: "(int \<Rightarrow> jint \<Rightarrow> jint option) \<Rightarrow> nat \<Rightarrow> jint \<Rightarrow> nat \<Rightarrow> jint \<Rightarrow> jint list \<Rightarrow> jint list option" where
  "mul_rows f w paintStride 0 i paint = Some paint"
| "mul_rows f w paintStride (Suc n) i paint = do {
     paint \<leftarrow> mul_row f w (s32 (i * paintStride)) paint;
     mul_rows f w paintStride n (s32 (i + 1)) paint }"

text \<open>\<open>alloc\<close> says whether the allocation of \<^verbatim>\<open>imagePaint\<close> succeeds.\<close>

definition genTexturePaintMultiply :: "'f fops \<Rightarrow> bool \<Rightarrow> 'f Renderer \<Rightarrow> jint \<Rightarrow> 'f Renderer option" where
  "genTexturePaintMultiply F alloc r height =
     (let w = s32 (r_maxTouched r - r_minTouched r + 1); stride = r_alphaWidth r in
      if r_prevPaintMode r = PAINT_FLAT_COLOR
      then do {
        paint \<leftarrow> genTexturePaintTarget r (r_paint r) height;
        paint \<leftarrow> (if r_cred r = 0xFF \<and> r_cgreen r = 0xFF \<and> r_cblue r = 0xFF
           then if r_calpha r < 0xFF
                then mul_rows (\<lambda>_ t. Some (mul_alpha_px (r_calpha r) t)) (nat w) stride (nat height) 0 paint
                else Some paint
           else mul_rows (\<lambda>_ t. Some (mul_px (r_calpha r) (r_cred r) (r_cgreen r) (r_cblue r) t)) (nat w) stride
                  (nat height) 0 paint);
        Some (r\<lparr>r_paint := paint\<rparr>) }
      else if r_prevPaintMode r = PAINT_LINEAR_GRADIENT \<or> r_prevPaintMode r = PAINT_RADIAL_GRADIENT
      then if alloc
           then do {
             r \<leftarrow> (if r_prevPaintMode r = PAINT_LINEAR_GRADIENT then genLinearGradientPaint F r height
                   else genRadialGradientPaint F r height);
             imagePaint \<leftarrow> genTexturePaintTarget r (replicate (nat (s32 (w * height))) 0) height;
             paint \<leftarrow> mul_rows (\<lambda>i p. do {
                 t \<leftarrow> load imagePaint i;
                 Some (mul_px (ch_A p) (ch_R p) (ch_G p) (ch_B p) t) }) (nat w) stride (nat height) 0 (r_paint r);
             Some (r\<lparr>r_paint := paint\<rparr>) }
           else Some r
      else Some r)"

section \<open>Interpolation\<close>

text \<open>The closed form of \<^verbatim>\<open>interp\<close>.\<close>

definition lerp16 :: "int \<Rightarrow> int \<Rightarrow> int \<Rightarrow> int" where
  "lerp16 x0 x1 f = (x0 * (65536 - f) + x1 * f + 32768) div 65536"

definition is_frac :: "int \<Rightarrow> bool" where
  "is_frac f \<longleftrightarrow> 0 \<le> f \<and> f \<le> 65535"

lemma lerp16_mono:
  assumes "is_frac f" "x0 \<le> y0" "x1 \<le> y1"
  shows "lerp16 x0 x1 f \<le> lerp16 y0 y1 f"
  unfolding lerp16_def using assms
  by (intro zdiv_mono1 add_mono mult_right_mono) (auto simp: is_frac_def)

lemma lerp16_same [simp]: "lerp16 x x f = x"
proof -
  have "x * (65536 - f) + x * f + 32768 = x * 65536 + 32768" by (simp add: algebra_simps)
  then show ?thesis unfolding lerp16_def by (simp add: div_quot [where q = x and r = 32768])
qed

lemma lerp16_0: "lerp16 x0 x1 0 = x0"
  by (simp add: lerp16_def)

lemma lerp16_between:
  assumes "is_frac f"
  shows "min x0 x1 \<le> lerp16 x0 x1 f" "lerp16 x0 x1 f \<le> max x0 x1"
  using lerp16_mono [OF assms, of "min x0 x1" x0 "min x0 x1" x1]
    lerp16_mono [OF assms, of x0 "max x0 x1" x1 "max x0 x1"] by auto

lemma lerp16_u8: "is_frac f \<Longrightarrow> is_u8 x0 \<Longrightarrow> is_u8 x1 \<Longrightarrow> is_u8 (lerp16 x0 x1 f)"
  using lerp16_between [of f x0 x1] by (auto simp: is_u8_def)

lemma interp_lerp16:
  assumes "is_frac f" "is_u8 x0" "is_u8 x1"
  shows "interp x0 x1 f = lerp16 x0 x1 f"
proof -
  let ?v = "x0 * (65536 - f) + x1 * f"
  have f: "0 \<le> f" "f \<le> 65535" and x: "0 \<le> x0" "x0 \<le> 255" "0 \<le> x1" "x1 \<le> 255"
    using assms by (auto simp: is_frac_def is_u8_def)
  have "0 \<le> x0 * (65536 - f)" "x0 * (65536 - f) \<le> 255 * 65536" "0 \<le> x1 * f" "x1 * f \<le> 255 * 65536"
    using f x mult_mono [of x0 255 "65536 - f" 65536] mult_mono [of x1 255 f 65536] by simp_all
  then have r: "0 \<le> ?v" "?v \<le> 33423360" by simp_all
  have "push_bit 16 x0 + (x1 - x0) * f + 0x8000 = ?v + 32768"
    by (simp add: push_bit_eq_mult algebra_simps)
  then show ?thesis
    unfolding interp_def lerp16_def using r by (simp add: drop_bit_eq_div)
qed

lemma interp_u8: "is_frac f \<Longrightarrow> is_u8 x0 \<Longrightarrow> is_u8 x1 \<Longrightarrow> is_u8 (interp x0 x1 f)"
  by (simp add: interp_lerp16 lerp16_u8)

text \<open>The bilinear interpolation of one channel.\<close>

definition bilerp :: "(jint \<Rightarrow> int) \<Rightarrow> jint \<Rightarrow> jint \<Rightarrow> jint \<Rightarrow> jint \<Rightarrow> int \<Rightarrow> int \<Rightarrow> int" where
  "bilerp ch p00 p01 p10 p11 h v =
     lerp16 (lerp16 (ch p00) (ch p01) h) (lerp16 (ch p10) (ch p11) h) v"

lemma bilerp_u8:
  assumes "is_frac h" "is_frac v" "\<And>p. is_u8 (ch p)"
  shows "is_u8 (bilerp ch p00 p01 p10 p11 h v)"
  using assms by (simp add: bilerp_def lerp16_u8)

lemma bilerp_mono:
  assumes "is_frac h" "is_frac v" "\<And>p. p \<in> {p00, p01, p10, p11} \<Longrightarrow> c p \<le> d p"
  shows "bilerp c p00 p01 p10 p11 h v \<le> bilerp d p00 p01 p10 p11 h v"
  using assms by (simp add: bilerp_def lerp16_mono)

lemma interpolate4points_eq:
  assumes "is_frac h" "is_frac v"
  shows "interpolate4points p00 p01 p10 p11 h v =
    argb (bilerp ch_A p00 p01 p10 p11 h v) (bilerp ch_R p00 p01 p10 p11 h v)
      (bilerp ch_G p00 p01 p10 p11 h v) (bilerp ch_B p00 p01 p10 p11 h v)"
  using assms by (simp add: interpolate4points_def Let_def bilerp_def interp_lerp16 lerp16_u8)

lemma interpolate4pointsNoAlpha_eq:
  assumes "is_frac h" "is_frac v"
  shows "interpolate4pointsNoAlpha p00 p01 p10 p11 h v =
    argb 255 (bilerp ch_R p00 p01 p10 p11 h v)
      (bilerp ch_G p00 p01 p10 p11 h v) (bilerp ch_B p00 p01 p10 p11 h v)"
  using assms by (simp add: interpolate4pointsNoAlpha_def Let_def bilerp_def interp_lerp16 lerp16_u8)

text \<open>The two-point functions are the four-point ones with a fraction of 0.\<close>

lemma interpolate2points_4:
  assumes "is_frac h"
  shows "interpolate2points p q h = interpolate4points p q x y h 0"
    and "interpolate2pointsNoAlpha p q h = interpolate4pointsNoAlpha p q x y h 0"
    and "interpolate2points p q h = interpolate4points p x q y 0 h"
    and "interpolate2pointsNoAlpha p q h = interpolate4pointsNoAlpha p x q y 0 h"
proof -
  have z: "is_frac 0" by (simp add: is_frac_def)
  note e = interpolate4points_eq [OF assms z, of p q x y] interpolate4points_eq [OF z assms, of p x q y]
    interpolate4pointsNoAlpha_eq [OF assms z, of p q x y] interpolate4pointsNoAlpha_eq [OF z assms, of p x q y]
  show "interpolate2points p q h = interpolate4points p q x y h 0"
    "interpolate2pointsNoAlpha p q h = interpolate4pointsNoAlpha p q x y h 0"
    "interpolate2points p q h = interpolate4points p x q y 0 h"
    "interpolate2pointsNoAlpha p q h = interpolate4pointsNoAlpha p x q y 0 h"
    unfolding e interpolate2points_def interpolate2pointsNoAlpha_def bilerp_def
    using assms by (simp_all add: interp_lerp16 lerp16_0)
qed

text \<open>Premultiplied texels interpolate to a premultiplied colour.\<close>

lemma interpolate4points_premul:
  assumes "is_frac h" "is_frac v" "premul p00" "premul p01" "premul p10" "premul p11"
  shows "premul (interpolate4points p00 p01 p10 p11 h v)"
    and "premul (interpolate4pointsNoAlpha p00 p01 p10 p11 h v)"
proof -
  have c: "c p \<le> ch_A p" if "p \<in> {p00, p01, p10, p11}" "c \<in> {ch_R, ch_G, ch_B}" for c p
    using that assms(3-) by (auto simp: premul_def)
  have m: "bilerp c p00 p01 p10 p11 h v \<le> bilerp ch_A p00 p01 p10 p11 h v" if "c \<in> {ch_R, ch_G, ch_B}" for c
    using assms(1,2) c that by (intro bilerp_mono) auto
  have u: "is_u8 (bilerp ch_R p00 p01 p10 p11 h v)" "is_u8 (bilerp ch_G p00 p01 p10 p11 h v)"
    "is_u8 (bilerp ch_B p00 p01 p10 p11 h v)" "is_u8 255"
    "is_u8 (bilerp ch_A p00 p01 p10 p11 h v)"
    using bilerp_u8 [OF assms(1,2)] by (simp_all add: is_u8_def [of 255])
  show "premul (interpolate4points p00 p01 p10 p11 h v)"
    unfolding interpolate4points_eq [OF assms(1,2)] premul_argb [OF u(5,1,2,3)]
    using m by simp
  show "premul (interpolate4pointsNoAlpha p00 p01 p10 p11 h v)"
    unfolding interpolate4pointsNoAlpha_eq [OF assms(1,2)] premul_argb [OF u(4,1,2,3)]
    using u by (simp add: is_u8_def)
qed

end
