(* ===== verification/PiscesPaintProps.thy ===== *)
theory PiscesPaintProps
  imports PiscesPaint
begin

text \<open>
  What the paint generators guarantee: coordinates are brought into the texture, every texel and
  colour table access is in range, and what is written to \<^verbatim>\<open>_paint\<close> is premultiplied when the texture
  or the colour table is. The generators all write one pixel after the other; the locale
  \<open>paint_writer\<close> is the contract of such a loop.
\<close>

section \<open>Bounds of coordinates\<close>

lemma c_rem_nonneg: "0 \<le> x \<Longrightarrow> 0 < y \<Longrightarrow> c_rem x y = x mod y"
  by (cases "x = 0") (simp_all add: c_rem_def)

lemma lmod_mod:
  assumes "0 < y" "is_jlong y"
  shows "lmod x y = Some (x mod y)"
proof (cases "0 \<le> x")
  case True
  then show ?thesis
    using assms c_rem_nonneg [of x y] pos_mod_sign [of y x] by (simp add: lmod_def Let_def not_less [symmetric])
next
  case False
  define m where "m = (- x) mod y"
  have m: "0 \<le> m" "m < y" using assms by (simp_all add: m_def)
  have c: "c_rem x y = - m" using False assms by (simp add: c_rem_def m_def)
  have "x mod y = (if m = 0 then 0 else y - m)"
    unfolding m_def by (metis add.inverse_inverse zmod_zminus1_eq_if)
  then show ?thesis
    using c m assms by (auto simp: lmod_def Let_def is_jlong_def)
qed

lemma checkBoundsRepeat_range:
  assumes "mn \<le> 0" "0 \<le> mx" "mx < 32767"
  shows "\<exists>a' la'. checkBoundsRepeat a la mn mx = Some (a', la') \<and> mn \<le> a' \<and> a' \<le> mx \<and>
    (a \<in> {mn..mx} \<longrightarrow> a' = a \<and> la' = la) \<and>
    (a \<notin> {mn..mx} \<longrightarrow> la' = la mod ((mx + 1) * 65536) \<and> a' = la' div 65536)"
proof (cases "a \<in> {mn..mx}")
  case False
  let ?m = "(mx + 1) * 65536"
  have m: "s32 (push_bit 16 (s32 (mx + 1))) = ?m" "0 < ?m" "is_jlong ?m"
    using assms by (simp_all add: push_bit_eq_mult is_jlong_def)
  define q where "q = la mod ?m"
  have q: "0 \<le> q" "q < ?m" using m(2) by (simp_all add: q_def)
  then have d: "0 \<le> q div 65536" "q div 65536 \<le> mx" by (auto simp: pos_imp_zdiv_nonneg_iff)
  then have "s32 (drop_bit 16 q) = q div 65536" using assms by (simp add: drop_bit_eq_div)
  then show ?thesis
    using False assms d unfolding checkBoundsRepeat_def m(1) lmod_mod [OF m(2,3)] q_def [symmetric] by auto
qed (auto simp: checkBoundsRepeat_def)

lemma checkBoundsNoRepeat_range:
  "mn \<le> mx \<Longrightarrow> checkBoundsNoRepeat a la mn mx = (max mn (min a mx), la)"
  by (auto simp: checkBoundsNoRepeat_def)

text \<open>The texture: its size, the place it has in its array, and the bounds that \<^verbatim>\<open>renderer_setTexture\<close>
  got. The neighbours of a texel are read without regard to a coordinate of -1, so interpolation
  needs two columns and two lines.\<close>

definition tex_ok :: "'f Renderer \<Rightarrow> bool" where
  "tex_ok r \<longleftrightarrow> 0 < r_texture_imageWidth r \<and> 0 < r_texture_imageHeight r \<and>
     r_texture_imageWidth r < 32768 \<and> r_texture_imageHeight r < 32768 \<and>
     r_texture_imageWidth r \<le> r_texture_stride r \<and>
     (r_texture_imageHeight r - 1) * r_texture_stride r + r_texture_imageWidth r \<le> int (length (r_texture_intData r)) \<and>
     length (r_texture_intData r) < 2 ^ 31 \<and>
     r_texture_txMin r = 0 \<and> r_texture_tyMin r = 0 \<and>
     r_texture_txMax r = r_texture_imageWidth r - 1 \<and> r_texture_tyMax r = r_texture_imageHeight r - 1 \<and>
     (r_texture_interpolate r \<longrightarrow> 2 \<le> r_texture_imageWidth r \<and> 2 \<le> r_texture_imageHeight r)"

text \<open>A coordinate that may be used: inside of the texture, or one to the left or above.\<close>

definition coord_ok :: "'f Renderer \<Rightarrow> int \<Rightarrow> int \<Rightarrow> bool" where
  "coord_ok r tx ty \<longleftrightarrow> - 1 \<le> tx \<and> tx < r_texture_imageWidth r \<and> - 1 \<le> ty \<and> ty < r_texture_imageHeight r"

lemma tex_index:
  assumes "tex_ok r" "0 \<le> x" "x < r_texture_imageWidth r" "0 \<le> y" "y < r_texture_imageHeight r"
  shows "in_arr (r_texture_intData r) (y * r_texture_stride r + x)" "s32 (y * r_texture_stride r + x) = y * r_texture_stride r + x"
proof -
  let ?s = "r_texture_stride r" and ?n = "int (length (r_texture_intData r))"
  have "y * ?s \<le> (r_texture_imageHeight r - 1) * ?s" "0 \<le> y * ?s"
    using assms by (auto simp: tex_ok_def intro: mult_right_mono)
  moreover have "(r_texture_imageHeight r - 1) * ?s + r_texture_imageWidth r \<le> ?n" "?n < 2147483648"
    using assms(1) by (auto simp: tex_ok_def)
  ultimately have "0 \<le> y * ?s + x" "y * ?s + x < ?n" "?n < 2147483648" using assms(2,3) by linarith+
  then show "in_arr (r_texture_intData r) (y * ?s + x)" "s32 (y * ?s + x) = y * ?s + x"
    by (auto simp: in_arr_def)
qed

definition at :: "'f Renderer \<Rightarrow> int \<Rightarrow> int \<Rightarrow> jint" where
  "at r x y = r_texture_intData r ! nat (y * r_texture_stride r + x)"

lemma load_at:
  assumes "tex_ok r" "0 \<le> x" "x < r_texture_imageWidth r" "0 \<le> y" "y < r_texture_imageHeight r"
  shows "load (r_texture_intData r) (y * r_texture_stride r + x) = Some (at r x y)"
  using tex_index(1) [OF assms] by (simp add: load_in at_def)

text \<open>The neighbours that the code reads, as columns and lines of the texture.\<close>

definition nb :: "bool \<Rightarrow> int \<Rightarrow> int \<Rightarrow> int" where
  "nb rep t n = (if t \<ge> n - 1 then if rep then 0 else max 0 t else max 0 t + 1)"

lemma nb_range: "- 1 \<le> t \<Longrightarrow> t < n \<Longrightarrow> 2 \<le> n \<Longrightarrow> 0 \<le> nb rep t n \<and> nb rep t n < n"
  by (auto simp: nb_def max_def)

lemma texel_eq:
  assumes "tex_ok r" "coord_ok r tx ty" "mode_interpolate mode \<longrightarrow> r_texture_interpolate r"
  defines "x \<equiv> max 0 tx" and "y \<equiv> max 0 ty"
    and "x' \<equiv> nb (mode_repeat mode) tx (r_texture_imageWidth r)"
    and "y' \<equiv> nb (mode_repeat mode) ty (r_texture_imageHeight r)"
  shows "texel r mode tx ty h v = Some (if mode_interpolate mode
    then texel_mix mode (at r x y) (at r x' y) (at r x y') (at r x' y') h v else at r x y)"
proof -
  let ?W = "r_texture_imageWidth r" and ?H = "r_texture_imageHeight r" and ?s = "r_texture_stride r"
    and ?d = "r_texture_intData r"
  have c: "- 1 \<le> tx" "tx < ?W" "- 1 \<le> ty" "ty < ?H" "?W < 32768" "?H < 32768"
    "0 \<le> x" "x < ?W" "0 \<le> y" "y < ?H"
    using assms(1,2) by (auto simp: coord_ok_def tex_ok_def x_def y_def)
  have w: "s32 (?W - 1) = ?W - 1" "s32 (?H - 1) = ?H - 1" using c by simp_all
  have s: "s32 (y * ?s + x) = y * ?s + x" and p: "load ?d (y * ?s + x) = Some (at r x y)"
    using tex_index(2) [OF assms(1) c(7-10)] load_at [OF assms(1) c(7-10)] by simp_all
  show ?thesis
  proof (cases "mode_interpolate mode")
    case True
    then have n: "2 \<le> ?W" "2 \<le> ?H" using assms(1,3) by (auto simp: tex_ok_def)
    have x': "0 \<le> x'" "x' < ?W" and y': "0 \<le> y'" "y' < ?H"
      using nb_range [OF c(1,2) n(1)] nb_range [OF c(3,4) n(2)] by (simp_all add: x'_def y'_def)
    note l = load_at [OF assms(1)] tex_index(2) [OF assms(1)]
    have "(if mode_repeat mode then getPointsToInterpolateRepeat else getPointsToInterpolate)
        ?d (y * ?s + x) ?s (at r x y) tx (?W - 1) ty (?H - 1) = Some (at r x' y, at r x y', at r x' y')"
    proof -
      have row: "mode_repeat mode \<Longrightarrow> (if ty \<ge> ?H - 1 then max tx 0 else s32 (y * ?s + x + ?s)) = y' * ?s + x"
        "\<not> mode_repeat mode \<Longrightarrow> (if ty \<ge> ?H - 1 then y * ?s + x else s32 (y * ?s + x + ?s)) = y' * ?s + x"
        using l(2) [OF c(7,8) y'] unfolding y'_def nb_def x_def y_def
        by (auto simp: distrib_right add.commute add.left_commute max.commute split: if_splits)
      have col: "tx < ?W - 1 \<Longrightarrow> s32 (z * ?s + x + 1) = z * ?s + x'"
        "\<not> tx < ?W - 1 \<Longrightarrow> mode_repeat mode \<Longrightarrow> s32 (z * ?s + x - max tx 0) = z * ?s + x'"
        "\<not> tx < ?W - 1 \<Longrightarrow> \<not> mode_repeat mode \<Longrightarrow> x' = x" if "0 \<le> z" "z < ?H" for z
        using l(2) [OF x' that] unfolding x'_def nb_def x_def by (auto simp: add.assoc max.commute)
      show ?thesis
        using l(1) [OF c(7,8) y'] l(1) [OF x' c(9,10)] l(1) [OF x' y'] col [OF c(9,10)] col [OF y'] p
        unfolding getPointsToInterpolateRepeat_def getPointsToInterpolate_def Let_def
        by (cases "mode_repeat mode"; cases "tx < ?W - 1") (simp_all add: row)
    qed
    then show ?thesis
      using True p by (simp add: texel_def Let_def w s [unfolded x_def y_def] x_def y_def)
  qed (use p in \<open>simp add: texel_def Let_def s [unfolded x_def y_def] x_def y_def\<close>)
qed

text \<open>What a texel that is read or interpolated inherits from the texture.\<close>

definition tex_premul :: "'f Renderer \<Rightarrow> bool" where
  "tex_premul r \<longleftrightarrow> (\<forall>p \<in> set (r_texture_intData r). premul p \<and> is_jint p)"

lemma at_premul:
  assumes "tex_ok r" "tex_premul r" "0 \<le> x" "x < r_texture_imageWidth r" "0 \<le> y" "y < r_texture_imageHeight r"
  shows "premul (at r x y)" "is_jint (at r x y)"
  using assms(2) in_arr_nat [OF tex_index(1) [OF assms(1,3-6)]] by (simp_all add: tex_premul_def at_def)

lemma texel_mix_premul:
  assumes "is_frac h" "is_frac v" "premul p" "premul p0" "premul p1" "premul p2" "is_jint p"
  shows "premul (texel_mix mode p p0 p1 p2 h v) \<and> is_jint (texel_mix mode p p0 p1 p2 h v)"
proof -
  have j: "is_jint (texel_mix mode p p0 p1 p2 h v)"
    using assms(7) by (simp add: texel_mix_def interpolate4points_def interpolate4pointsNoAlpha_def
      interpolate2points_def interpolate2pointsNoAlpha_def Let_def)
  have z: "is_frac 0" by (simp add: is_frac_def)
  note four = interpolate4points_premul
  have "premul (texel_mix mode p p0 p1 p2 h v)"
    unfolding texel_mix_def interpolate2points_4(1,2) [OF assms(1), of p p0 p p]
      interpolate2points_4(3,4) [OF assms(2), of p p1 p p]
    using assms z by (simp add: four)
  with j show ?thesis by simp
qed

lemma texel_premul:
  assumes "tex_ok r" "tex_premul r" "coord_ok r tx ty" "mode_interpolate mode \<longrightarrow> r_texture_interpolate r"
    and "is_frac h" "is_frac v"
  shows "\<exists>c. texel r mode tx ty h v = Some c \<and> premul c \<and> is_jint c"
proof -
  have c: "- 1 \<le> tx" "tx < r_texture_imageWidth r" "- 1 \<le> ty" "ty < r_texture_imageHeight r"
    "0 < r_texture_imageWidth r" "0 < r_texture_imageHeight r"
    using assms(1,3) by (auto simp: coord_ok_def tex_ok_def)
  have i: "2 \<le> r_texture_imageWidth r \<and> 2 \<le> r_texture_imageHeight r" if "mode_interpolate mode"
    using that assms(1,4) by (auto simp: tex_ok_def)
  note p = at_premul [OF assms(1,2)]
  show ?thesis
  proof (cases "mode_interpolate mode")
    case True
    note n = nb_range [OF c(1,2) i [OF True, THEN conjunct1], of "mode_repeat mode"]
      nb_range [OF c(3,4) i [OF True, THEN conjunct2], of "mode_repeat mode"]
    show ?thesis
      unfolding texel_eq [OF assms(1,3,4)] using True c n
      by (simp add: texel_mix_premul assms(5,6) p)
  qed (use p c in \<open>simp add: texel_eq [OF assms(1,3,4)]\<close>)
qed

section \<open>The contract of a generator\<close>

text \<open>All generators fill line after line, pixel after pixel, from a state that is set up for the line
  and advanced at each pixel.\<close>

fun write_row :: "('s \<Rightarrow> (jint \<times> 's) option) \<Rightarrow> nat \<Rightarrow> jint \<Rightarrow> 's \<Rightarrow> jint list \<Rightarrow> jint list option" where
  "write_row step 0 pidx s paint = Some paint"
| "write_row step (Suc n) pidx s paint = do {
     (c, s) \<leftarrow> step s;
     paint \<leftarrow> store paint pidx c;
     write_row step n (s32 (pidx + 1)) s paint }"

fun write_rows :: "('s \<Rightarrow> (jint \<times> 's) option) \<Rightarrow> (jint \<Rightarrow> 's option) \<Rightarrow> jint \<Rightarrow> nat \<Rightarrow> jint \<Rightarrow> jint \<Rightarrow> jint list \<Rightarrow>
    jint list option" where
  "write_rows step init w 0 y off paint = Some paint"
| "write_rows step init w (Suc n) y off paint = do {
     s \<leftarrow> init y;
     paint \<leftarrow> write_row step (nat w) off s paint;
     write_rows step init w n (s32 (y + 1)) (s32 (off + w)) paint }"

text \<open>Positions \<open>i..<j\<close> of \<open>q\<close> satisfy \<open>P\<close>, the others are those of \<open>p\<close>.\<close>

definition written :: "('a \<Rightarrow> bool) \<Rightarrow> nat \<Rightarrow> nat \<Rightarrow> 'a list \<Rightarrow> 'a list \<Rightarrow> bool" where
  "written P i j p q \<longleftrightarrow> length q = length p \<and>
     (\<forall>k < length p. if i \<le> k \<and> k < j then P (q ! k) else q ! k = p ! k)"

lemma written_refl: "j \<le> i \<Longrightarrow> written P i j p p"
  by (auto simp: written_def)

lemma written_Suc:
  "P c \<Longrightarrow> i < length p \<Longrightarrow> Suc i \<le> j \<Longrightarrow> written P (Suc i) j (p[i := c]) q \<Longrightarrow> written P i j p q"
  unfolding written_def by (auto simp: nth_list_update split: if_splits)

lemma written_trans:
  "i \<le> j \<Longrightarrow> j \<le> k \<Longrightarrow> written P i j p q \<Longrightarrow> written P j k q s \<Longrightarrow> written P i k p s"
  unfolding written_def by (auto split: if_splits)

locale paint_writer =
  fixes step :: "'s \<Rightarrow> (jint \<times> 's) option"
    and init :: "jint \<Rightarrow> 's option"
    and I :: "'s \<Rightarrow> bool"
    and P :: "jint \<Rightarrow> bool"
    and pre :: bool
  assumes init_ok: "pre \<Longrightarrow> \<exists>s. init y = Some s \<and> I s"
    and step_ok: "I s \<Longrightarrow> \<exists>c s'. step s = Some (c, s') \<and> P c \<and> I s'"
begin

lemma write_row_ok:
  assumes "I s" "i + n \<le> length paint" "length paint < 2 ^ 31"
  shows "\<exists>q. write_row step n (int i) s paint = Some q \<and> written P i (i + n) paint q"
  using assms
proof (induction n arbitrary: i s paint)
  case (Suc n)
  obtain c s' where st: "step s = Some (c, s')" "P c" "I s'" using step_ok [OF Suc.prems(1)] by blast
  have i: "in_arr paint (int i)" "s32 (int i + 1) = int (Suc i)"
    using Suc.prems(2,3) by (simp_all add: in_arr_def)
  obtain q where q: "write_row step n (int (Suc i)) s' (paint[i := c]) = Some q"
    "written P (Suc i) (Suc i + n) (paint[i := c]) q"
    using Suc.IH [of s' "Suc i" "paint[i := c]"] st(3) Suc.prems(2,3) by auto
  have "written P i (i + Suc n) paint q"
    using written_Suc [OF st(2) _ _ q(2)] Suc.prems(2) by simp
  then show ?case using st(1) i q(1) by (simp add: arr)
qed (simp add: written_refl)

lemma write_rows_ok:
  assumes pre "i + n * w \<le> length paint" "length paint < 2 ^ 31"
  shows "\<exists>q. write_rows step init (int w) n y (int i) paint = Some q \<and> written P i (i + n * w) paint q"
  using assms
proof (induction n arbitrary: i y paint)
  case (Suc n)
  obtain s where s: "init y = Some s" "I s" using init_ok [OF Suc.prems(1)] by blast
  obtain p where p: "write_row step w (int i) s paint = Some p" "written P i (i + w) paint p"
    using write_row_ok [OF s(2), of i w paint] Suc.prems by auto
  have l: "length p = length paint" using p(2) by (simp add: written_def)
  obtain q where q: "write_rows step init (int w) n (s32 (y + 1)) (int (i + w)) p = Some q"
    "written P (i + w) (i + w + n * w) p q"
    using Suc.IH [of "i + w" p "s32 (y + 1)"] Suc.prems l by auto
  have "s32 (int i + int w) = int (i + w)" using Suc.prems by simp
  moreover have "written P i (i + Suc n * w) paint q"
    using written_trans [OF _ _ p(2) q(2)] by (simp add: add.assoc)
  ultimately show ?case using s(1) p(1) q(1) by simp
qed (simp add: written_refl)

end

section \<open>Gradients\<close>

lemma pad_range:
  assumes "cycleMethod \<in> {CYCLE_NONE, CYCLE_REPEAT, CYCLE_REFLECT}"
  shows "0 \<le> pad f cycleMethod" "pad f cycleMethod \<le> 65535"
proof -
  have m: "x AND 131071 = x mod 131072" for x :: int
    using take_bit_eq_mask [of 17 x] by (simp add: mask_eq_exp_minus_1 take_bit_eq_mod)
  have r: "0 \<le> x mod 131072" "x mod 131072 < 131072" for x :: int by simp_all
  show "0 \<le> pad f cycleMethod" "pad f cycleMethod \<le> 65535"
    using assms r [of "s32 (- f)"] r [of f] by (auto simp: pad_def pisces_consts m Let_def)
qed

lemma gradient_index:
  assumes "cycleMethod \<in> {CYCLE_NONE, CYCLE_REPEAT, CYCLE_REFLECT}" "length colors = 256"
  shows "in_arr colors (drop_bit (16 - LG_GRADIENT_MAP_SIZE) (pad f cycleMethod))"
  using pad_range [OF assms(1), of f] assms(2)
  by (simp add: in_arr_def LG_GRADIENT_MAP_SIZE_def drop_bit_eq_div pos_imp_zdiv_nonneg_iff)

definition gradient_ok :: "'f Renderer \<Rightarrow> bool" where
  "gradient_ok r \<longleftrightarrow> r_gradient_cycleMethod r \<in> {CYCLE_NONE, CYCLE_REPEAT, CYCLE_REFLECT} \<and>
     length (r_gradient_colors r) = 256"

definition linear_step :: "'f fops \<Rightarrow> 'f Renderer \<Rightarrow> 'f \<Rightarrow> (jint \<times> 'f) option" where
  "linear_step F r frac = do {
     c \<leftarrow> load (r_gradient_colors r)
            (drop_bit (16 - LG_GRADIENT_MAP_SIZE) (pad (ftoint F frac) (r_gradient_cycleMethod r)));
     Some (c, fadd F frac (r_lg_mx r)) }"

definition linear_init :: "'f fops \<Rightarrow> 'f Renderer \<Rightarrow> jint \<Rightarrow> 'f option" where
  "linear_init F r y = Some (fadd F (fadd F (fmul F (fofint F (r_currX r)) (r_lg_mx r))
     (fmul F (fofint F y) (r_lg_my r))) (r_lg_b r))"

definition radial_step :: "'f fops \<Rightarrow> 'f Renderer \<Rightarrow> 'f \<times> 'f \<times> 'f \<times> 'f \<times> 'f \<Rightarrow> (jint \<times> 'f \<times> 'f \<times> 'f \<times> 'f \<times> 'f) option" where
  "radial_step F r s = (case s of (U, dU, V, dV, ddV) \<Rightarrow>
     let V = (if flt F V (fofint F 0) then fofint F 0 else V) in do {
       c \<leftarrow> load (r_gradient_colors r)
         (drop_bit (16 - LG_GRADIENT_MAP_SIZE) (pad (fsum_sqrt F U V) (r_gradient_cycleMethod r)));
       Some (c, fadd F U dU, dU, fadd F V dV, fadd F dV ddV, ddV) })"

lemma linear_row_write: "linear_row F r n pidx frac paint = write_row (linear_step F r) n pidx frac paint"
  by (induction n arbitrary: pidx frac paint) (simp_all add: linear_step_def Let_def cong: Option.bind_cong)

lemma linear_rows_write:
  "linear_rows F r n y off paint = write_rows (linear_step F r) (linear_init F r) (r_alphaWidth r) n y off paint"
  by (induction n arbitrary: y off paint)
    (simp_all add: linear_row_write linear_init_def Let_def cong: Option.bind_cong)

lemma radial_row_write:
  "radial_row F r dU ddV n pidx U V dV paint = write_row (radial_step F r) n pidx (U, dU, V, dV, ddV) paint"
  by (induction n arbitrary: pidx U V dV paint) (simp_all add: radial_step_def Let_def cong: Option.bind_cong)

lemma radial_rows_write:
  "radial_rows F r n y off paint =
   write_rows (radial_step F r) (\<lambda>y. Some (radial_setup F r y)) (r_alphaWidth r) n y off paint"
proof (induction n arbitrary: y off paint)
  case (Suc n)
  then show ?case
    by (cases "radial_setup F r y") (simp add: radial_row_write Let_def cong: Option.bind_cong)
qed simp

interpretation linear: paint_writer "linear_step F r" "linear_init F r" "\<lambda>_. gradient_ok r"
  "\<lambda>c. c \<in> set (r_gradient_colors r)" "gradient_ok r" for F and r :: "'f Renderer"
proof unfold_locales
  fix s assume g: "gradient_ok r"
  then have "in_arr (r_gradient_colors r)
    (drop_bit (16 - LG_GRADIENT_MAP_SIZE) (pad (ftoint F s) (r_gradient_cycleMethod r)))"
    by (intro gradient_index) (simp_all add: gradient_ok_def)
  then show "\<exists>c s'. linear_step F r s = Some (c, s') \<and> c \<in> set (r_gradient_colors r) \<and> gradient_ok r"
    using g by (simp add: linear_step_def arr in_arr_nat)
qed (simp add: linear_init_def)

interpretation radial: paint_writer "radial_step F r" "\<lambda>y. Some (radial_setup F r y)" "\<lambda>_. gradient_ok r"
  "\<lambda>c. c \<in> set (r_gradient_colors r)" "gradient_ok r" for F and r :: "'f Renderer"
proof unfold_locales
  fix s :: "'f \<times> 'f \<times> 'f \<times> 'f \<times> 'f" assume g: "gradient_ok r"
  obtain U dU V dV ddV where s: "s = (U, dU, V, dV, ddV)" by (cases s)
  have "in_arr (r_gradient_colors r)
    (drop_bit (16 - LG_GRADIENT_MAP_SIZE) (pad f (r_gradient_cycleMethod r)))" for f
    using g by (intro gradient_index) (simp_all add: gradient_ok_def)
  then show "\<exists>c s'. radial_step F r s = Some (c, s') \<and> c \<in> set (r_gradient_colors r) \<and> gradient_ok r"
    using g by (simp add: radial_step_def s arr in_arr_nat Let_def cong: Option.bind_cong)
qed blast

section \<open>Textures\<close>

definition good :: "jint \<Rightarrow> bool" where
  "good c \<longleftrightarrow> premul c \<and> is_jint c"

lemma frac_and: "is_frac (s32 (x AND 65535))"
  unfolding is_frac_def by simp

lemma mode_of_r: "mode_interpolate (repeatInterpolateMode r) = r_texture_interpolate r"
  "mode_repeat (repeatInterpolateMode r) = r_texture_repeat r"
  by (simp_all add: repeatInterpolateMode_def mode_interpolate_def mode_repeat_def mode_defs)

lemma bound_tx_range:
  assumes "0 \<le> mx" "mx < 32767"
  shows "\<exists>a' la'. bound_tx mode a la (s32 (0 - 1)) mx = Some (a', la') \<and> - 1 \<le> a' \<and> a' \<le> mx"
  unfolding bound_tx_def
  using checkBoundsRepeat_range [of "- 1" mx a la] checkBoundsNoRepeat_range [of "- 1" mx a la] assms
  by (cases "mode_repeat mode") auto

text \<open>The states of the loops: \<open>(ty, hfrac, vfrac, ltx)\<close> for the translation, \<open>(ltx, lty)\<close> otherwise.\<close>

definition translate_step :: "'f Renderer \<Rightarrow> int \<Rightarrow> jint \<times> jint \<times> jint \<times> jlong \<Rightarrow>
    (jint \<times> jint \<times> jint \<times> jint \<times> jlong) option" where
  "translate_step r mode s = (case s of (ty, hfrac, vfrac, ltx) \<Rightarrow> do {
     (tx, ltx) \<leftarrow> bound_tx mode (s32 (drop_bit 16 ltx)) ltx (s32 (r_texture_txMin r - 1)) (r_texture_txMax r);
     cval \<leftarrow> texel r mode tx ty hfrac vfrac;
     Some (cval, ty, hfrac, vfrac, s64 (ltx + 0x10000)) })"

definition translate_init :: "'f Renderer \<Rightarrow> jint \<Rightarrow> (jint \<times> jint \<times> jint \<times> jlong) option" where
  "translate_init r y = (
     let ltx = s64 (s32 (push_bit 16 (r_currX r)) + r_texture_m02 r);
         lty = s64 (s32 (push_bit 16 y) + r_texture_m12 r)
     in do {
       (ty, lty') \<leftarrow> (if r_texture_repeat r
         then checkBoundsRepeat (s32 (drop_bit 16 lty)) lty (s32 (r_texture_tyMin r - 1)) (r_texture_tyMax r)
         else Some (checkBoundsNoRepeat (s32 (drop_bit 16 lty)) lty (s32 (r_texture_tyMin r - 1)) (r_texture_tyMax r)));
       Some (ty, s32 (ltx AND 0xffff), s32 (lty AND 0xffff), ltx) })"

definition affine_step :: "(jlong \<Rightarrow> jlong \<Rightarrow> (jint \<times> jlong \<times> jlong) option) \<Rightarrow> 'f Renderer \<Rightarrow> jlong \<times> jlong \<Rightarrow>
    (jint \<times> jlong \<times> jlong) option" where
  "affine_step step r s = do {
     (cval, ltx, lty) \<leftarrow> step (fst s) (snd s);
     Some (cval, s64 (ltx + r_texture_m00 r), s64 (lty + r_texture_m10 r)) }"

definition affine_init :: "'f Renderer \<Rightarrow> jint \<Rightarrow> (jlong \<times> jlong) option" where
  "affine_init r y = Some (s64 (r_currX r * r_texture_m00 r + y * r_texture_m01 r + r_texture_m02 r),
     s64 (r_currX r * r_texture_m10 r + y * r_texture_m11 r + r_texture_m12 r))"

lemma translate_row_write:
  "translate_row r mode ty h v n pidx ltx paint = write_row (translate_step r mode) n pidx (ty, h, v, ltx) paint"
  by (induction n arbitrary: pidx ltx paint)
    (auto simp: translate_step_def Option.bind_assoc split: Option.bind_splits)

lemma translate_rows_write:
  "translate_rows r mode n y off paint =
   write_rows (translate_step r mode) (translate_init r) (r_alphaWidth r) n y off paint"
proof (induction n arbitrary: y off paint)
  case (Suc n)
  then show ?case
    unfolding translate_rows.simps write_rows.simps translate_init_def Let_def Option.bind_assoc
    by (intro Option.bind_cong [OF refl]) (auto simp: translate_row_write cong: Option.bind_cong)
qed simp

lemma affine_row_write:
  "affine_row step (r_texture_m00 r) (r_texture_m10 r) n pidx ltx lty paint =
   write_row (affine_step step r) n pidx (ltx, lty) paint"
  by (induction n arbitrary: pidx ltx lty paint)
    (auto simp: affine_step_def Option.bind_assoc split: Option.bind_splits)

lemma affine_rows_write:
  "affine_rows step r n y off paint =
   write_rows (affine_step step r) (affine_init r) (r_alphaWidth r) n y off paint"
  by (induction n arbitrary: y off paint) (simp_all add: affine_row_write affine_init_def Let_def cong: Option.bind_cong)

definition tex_pre :: "'f Renderer \<Rightarrow> bool" where
  "tex_pre r \<longleftrightarrow> tex_ok r \<and> tex_premul r"

lemma tex_bounds:
  assumes "tex_ok r"
  shows "r_texture_txMin r = 0" "r_texture_tyMin r = 0" "0 \<le> r_texture_txMax r" "r_texture_txMax r < 32767"
    "0 \<le> r_texture_tyMax r" "r_texture_tyMax r < 32767"
    "r_texture_imageWidth r = r_texture_txMax r + 1" "r_texture_imageHeight r = r_texture_tyMax r + 1"
  using assms by (auto simp: tex_ok_def)

lemma texel_good:
  assumes "tex_pre r" "- 1 \<le> tx" "tx \<le> r_texture_txMax r" "- 1 \<le> ty" "ty \<le> r_texture_tyMax r" "is_frac h" "is_frac v"
  shows "\<exists>c. texel r (repeatInterpolateMode r) tx ty h v = Some c \<and> good c"
proof -
  have t: "tex_ok r" "tex_premul r" using assms(1) by (auto simp: tex_pre_def)
  have "coord_ok r tx ty" using tex_bounds(7,8) [OF t(1)] assms(2-5) by (simp add: coord_ok_def)
  then show ?thesis
    using texel_premul [OF t _ _ assms(6,7), of tx ty] by (simp add: mode_of_r good_def)
qed

lemma scale_step_good:
  assumes "tex_pre r"
  shows "\<exists>c x y. scale_step r (repeatInterpolateMode r) ltx lty = Some (c, x, y) \<and> good c"
proof -
  have "tex_ok r" using assms by (simp add: tex_pre_def)
  note t = tex_bounds [OF this]
  let ?mode = "repeatInterpolateMode r"
  obtain tx x where x: "bound_tx ?mode (s32 (drop_bit 16 ltx)) ltx (s32 (0 - 1)) (r_texture_txMax r) = Some (tx, x)"
    "- 1 \<le> tx" "tx \<le> r_texture_txMax r" using bound_tx_range [OF t(3,4)] by blast
  obtain ty y where y: "bound_tx ?mode (s32 (drop_bit 16 lty)) lty (s32 (0 - 1)) (r_texture_tyMax r) = Some (ty, y)"
    "- 1 \<le> ty" "ty \<le> r_texture_tyMax r" using bound_tx_range [OF t(5,6)] by blast
  obtain c where "texel r ?mode tx ty (s32 (ltx AND 65535)) (s32 (lty AND 65535)) = Some c" "good c"
    using texel_good [OF assms x(2,3) y(2,3) frac_and frac_and] by blast
  then show ?thesis
    unfolding scale_step_def Let_def t(1,2) x(1) y(1) by (simp only: Option.bind.simps prod.case) blast
qed

lemma generic_step_good:
  assumes "tex_pre r"
  shows "\<exists>c x y. generic_step r (repeatInterpolateMode r) ltx lty = Some (c, x, y) \<and> good c"
proof (cases "r_texture_repeat r")
  case False
  have "tex_ok r" using assms by (simp add: tex_pre_def)
  note t = tex_bounds [OF this]
  let ?tx = "s32 (drop_bit 16 ltx)" and ?ty = "s32 (drop_bit 16 lty)"
  have g0: "good 0" by (simp add: good_def premul_def ch_defs is_jint_def)
  show ?thesis
  proof (cases "isInBoundsNoRepeat ?tx (s32 (0 - 1)) (r_texture_txMax r) \<and> isInBoundsNoRepeat ?ty (s32 (0 - 1)) (r_texture_tyMax r)")
    case True
    then have "- 1 \<le> ?tx" "?tx \<le> r_texture_txMax r" "- 1 \<le> ?ty" "?ty \<le> r_texture_tyMax r"
      by (auto simp: isInBoundsNoRepeat_def)
    from texel_good [OF assms this frac_and frac_and, of ltx lty] show ?thesis
      using True False unfolding generic_step_def mode_of_r Let_def t(1,2) by auto
  qed (use False g0 in \<open>auto simp: generic_step_def mode_of_r Let_def t(1,2)\<close>)
qed (use scale_step_good [OF assms] in \<open>simp add: generic_step_def mode_of_r\<close>)

interpretation scale: paint_writer "affine_step (scale_step r (repeatInterpolateMode r)) r" "affine_init r"
  "\<lambda>_. tex_pre r" good "tex_pre r" for r :: "'f Renderer"
proof unfold_locales
  fix s :: "jlong \<times> jlong" assume "tex_pre r"
  then show "\<exists>c s'. affine_step (scale_step r (repeatInterpolateMode r)) r s = Some (c, s') \<and> good c \<and> tex_pre r"
    using scale_step_good [of r "fst s" "snd s"] by (auto simp: affine_step_def)
qed (simp add: affine_init_def)

interpretation generic: paint_writer "affine_step (generic_step r (repeatInterpolateMode r)) r" "affine_init r"
  "\<lambda>_. tex_pre r" good "tex_pre r" for r :: "'f Renderer"
proof unfold_locales
  fix s :: "jlong \<times> jlong" assume "tex_pre r"
  then show "\<exists>c s'. affine_step (generic_step r (repeatInterpolateMode r)) r s = Some (c, s') \<and> good c \<and> tex_pre r"
    using generic_step_good [of r "fst s" "snd s"] by (auto simp: affine_step_def)
qed (simp add: affine_init_def)

interpretation translate: paint_writer "translate_step r (repeatInterpolateMode r)" "translate_init r"
  "\<lambda>(ty, h, v, ltx). tex_pre r \<and> - 1 \<le> ty \<and> ty \<le> r_texture_tyMax r \<and> is_frac h \<and> is_frac v" good "tex_pre r"
  for r :: "'f Renderer"
proof unfold_locales
  fix y assume p: "tex_pre r"
  then have "tex_ok r" by (simp add: tex_pre_def)
  note t = tex_bounds [OF this]
  define lty where "lty = s64 (s32 (push_bit 16 y) + r_texture_m12 r)"
  obtain ty l where b: "bound_tx (repeatInterpolateMode r) (s32 (drop_bit 16 lty)) lty (s32 (0 - 1)) (r_texture_tyMax r) = Some (ty, l)"
    "- 1 \<le> ty" "ty \<le> r_texture_tyMax r" using bound_tx_range [OF t(5,6)] by blast
  note b1 = b(1) [unfolded bound_tx_def mode_of_r]
  show "\<exists>s. translate_init r y = Some s \<and>
      (case s of (ty, h, v, ltx) \<Rightarrow> tex_pre r \<and> - 1 \<le> ty \<and> ty \<le> r_texture_tyMax r \<and> is_frac h \<and> is_frac v)"
    unfolding translate_init_def Let_def t(2) lty_def [symmetric] b1
    using p b(2,3) frac_and by (simp only: Option.bind.simps prod.case) blast
next
  fix s :: "jint \<times> jint \<times> jint \<times> jlong"
  assume i: "case s of (ty, h, v, ltx) \<Rightarrow> tex_pre r \<and> - 1 \<le> ty \<and> ty \<le> r_texture_tyMax r \<and> is_frac h \<and> is_frac v"
  obtain ty h v ltx where s: "s = (ty, h, v, ltx)" by (cases s)
  have p: "tex_pre r" "- 1 \<le> ty" "ty \<le> r_texture_tyMax r" "is_frac h" "is_frac v" using i by (simp_all add: s)
  then have "tex_ok r" by (simp add: tex_pre_def)
  note t = tex_bounds [OF this]
  obtain tx x where x: "bound_tx (repeatInterpolateMode r) (s32 (drop_bit 16 ltx)) ltx (s32 (0 - 1)) (r_texture_txMax r) = Some (tx, x)"
    "- 1 \<le> tx" "tx \<le> r_texture_txMax r" using bound_tx_range [OF t(3,4)] by blast
  obtain c where "texel r (repeatInterpolateMode r) tx ty h v = Some c" "good c"
    using texel_good [OF p(1) x(2,3) p(2-5)] by blast
  then show "\<exists>c s'. translate_step r (repeatInterpolateMode r) s = Some (c, s') \<and> good c \<and>
    (case s' of (ty, h, v, ltx) \<Rightarrow> tex_pre r \<and> - 1 \<le> ty \<and> ty \<le> r_texture_tyMax r \<and> is_frac h \<and> is_frac v)"
    unfolding translate_step_def s prod.case t(1) x(1) using p by simp
qed

section \<open>The identity transform\<close>

lemma wrap_succ:
  assumes "0 \<le> x" "x < (W :: int)"
  shows "0 \<le> (if x + 1 = W then 0 else x + 1)" "(if x + 1 = W then 0 else x + 1) < W"
    and "((if x + 1 = W then 0 else x + 1) + int k) mod W = (x + int (Suc k)) mod W"
proof -
  show "((if x + 1 = W then 0 else x + 1) + int k) mod W = (x + int (Suc k)) mod W"
  proof (cases "x + 1 = W")
    case True
    then have e: "x + int (Suc k) = int k + W" by simp
    show ?thesis unfolding e using True by simp
  next
    case False
    have e: "x + int (Suc k) = x + 1 + int k" by simp
    show ?thesis unfolding e using False by simp
  qed
qed (use assms in auto)

lemma identity_row_eq:
  assumes "\<And>x. 0 \<le> x \<Longrightarrow> x < W \<Longrightarrow> in_arr tex (tS + x)" "0 \<le> o'" "o' < W" "d + n \<le> length paint"
  shows "identity_row tex tS (tS + W) n (tS + o') (int d) paint =
    Some (upd_seg paint d n (\<lambda>k _. tex ! nat (tS + (o' + int k) mod W)))"
  using assms(2-)
proof (induction n arbitrary: o' d paint)
  case (Suc n)
  let ?f = "\<lambda>k (_ :: jint). tex ! nat (tS + (o' + int k) mod W)"
  define o2 where "o2 = (if o' + 1 = W then 0 else o' + 1)"
  have o2: "0 \<le> o2" "o2 < W" "(o2 + int k) mod W = (o' + int (Suc k)) mod W" for k
    unfolding o2_def by (rule wrap_succ [OF Suc.prems(1,2)])+
  have i: "in_arr tex (tS + o')" "in_arr paint (int d)" using assms(1) Suc.prems by (auto simp: in_arr_def)
  have t: "(if tS + o' + 1 = tS + W then tS else tS + o' + 1) = tS + o2" by (auto simp: o2_def)
  have f0: "tex ! nat (tS + o') = ?f 0 (paint ! d)" using Suc.prems by simp
  have IH: "identity_row tex tS (tS + W) n (tS + o2) (int (Suc d)) (paint[d := ?f 0 (paint ! d)]) =
    Some (upd_seg (paint[d := ?f 0 (paint ! d)]) (Suc d) n (\<lambda>k. ?f (Suc k)))"
    using Suc.IH [of o2 "Suc d" "paint[d := ?f 0 (paint ! d)]"] o2 Suc.prems(3) by simp
  have "identity_row tex tS (tS + W) (Suc n) (tS + o') (int d) paint =
    identity_row tex tS (tS + W) n (tS + o2) (int (Suc d)) (paint[d := ?f 0 (paint ! d)])"
  proof -
    have d: "int d + 1 = int (Suc d)" by simp
    show ?thesis
      unfolding identity_row.simps t d using i f0 by (simp only: arr Option.bind.simps nat_int)
  qed
  then show ?case
    unfolding IH using upd_seg_Suc [of d paint ?f n] i(2) by (simp add: in_arr_def)
qed simp

text \<open>The texel that is shown at offset \<open>(x, y)\<close> of a plane tiled with the texture.\<close>

definition tile :: "'f Renderer \<Rightarrow> int \<Rightarrow> int \<Rightarrow> jint" where
  "tile r x y = at r (x mod r_texture_imageWidth r) (y mod r_texture_imageHeight r)"

lemma identity_rows_eq:
  assumes "tex_ok r" "0 \<le> off" "off < r_texture_imageWidth r" "0 \<le> row" "row < r_texture_imageHeight r"
    and "0 < r_alphaWidth r" "(j + n) * nat (r_alphaWidth r) \<le> length paint" "length paint < 2 ^ 31"
  shows "identity_rows r off n (int j) row paint =
    Some (upd_rows paint (j * nat (r_alphaWidth r)) (nat (r_alphaWidth r)) (nat (r_alphaWidth r)) n
      (\<lambda>i k _. tile r (off + int k) (row + int i)))"
  using assms(4,5,7,8)
proof (induction n arbitrary: j row paint)
  case (Suc n)
  let ?w = "nat (r_alphaWidth r)" and ?W = "r_texture_imageWidth r" and ?H = "r_texture_imageHeight r"
    and ?s = "r_texture_stride r"
  let ?f = "\<lambda>i k (_ :: jint). tile r (off + int k) (row + int i)"
  have H: "0 < ?H" "?H < 32768" "0 < ?W" using assms(1) by (auto simp: tex_ok_def)
  have jw: "Suc j * ?w + n * ?w \<le> length paint" using Suc.prems(3) by (simp add: algebra_simps)
  have j: "s32 (r_alphaWidth r * int j) = int (j * ?w)"
  proof -
    have "r_alphaWidth r * int j = int (j * ?w)" using assms(6) by simp
    moreover have "j * ?w < 2147483648" using jw Suc.prems(4) by simp
    ultimately show ?thesis by (simp only:) (rule s32_eq; linarith)
  qed
  have j1: "s32 (int j + 1) = int (Suc j)"
  proof -
    have "Suc j * 1 \<le> Suc j * ?w" using assms(6) by (intro mult_left_mono) auto
    then show ?thesis using jw Suc.prems(4) by simp
  qed
  have t: "s32 (?s * row) = row * ?s"
    using tex_index(2) [OF assms(1) order_refl H(3) Suc.prems(1,2)] by (simp add: mult.commute)
  have "identity_row (r_texture_intData r) (row * ?s) (row * ?s + ?W) ?w (row * ?s + off) (int (j * ?w)) paint =
    Some (upd_seg paint (j * ?w) ?w (\<lambda>k _. r_texture_intData r ! nat (row * ?s + (off + int k) mod ?W)))"
    by (rule identity_row_eq) (use tex_index(1) [OF assms(1) _ _ Suc.prems(1,2)] assms(2,3) jw in auto)
  also have "(\<lambda>k (_ :: jint). r_texture_intData r ! nat (row * ?s + (off + int k) mod ?W)) = ?f 0"
    using Suc.prems(1,2) by (simp add: tile_def at_def)
  finally have r0: "identity_row (r_texture_intData r) (row * ?s) (row * ?s + ?W) ?w (row * ?s + off) (int (j * ?w)) paint =
    Some (upd_seg paint (j * ?w) ?w (?f 0))" .
  define row2 where "row2 = (if row + 1 = ?H then 0 else row + 1)"
  have row2: "0 \<le> row2" "row2 < ?H" "tile r x (row2 + int i) = tile r x (row + int (Suc i))" for x i
    unfolding row2_def tile_def using wrap_succ [OF Suc.prems(1,2)] by metis+
  have s: "(if s32 (row + 1) = ?H then 0 else s32 (row + 1)) = row2"
    using Suc.prems(1,2) H by (simp add: row2_def)
  have "identity_rows r off n (int (Suc j)) row2 (upd_seg paint (j * ?w) ?w (?f 0)) =
    Some (upd_rows (upd_seg paint (j * ?w) ?w (?f 0)) (Suc j * ?w) ?w ?w n (\<lambda>i k _. tile r (off + int k) (row2 + int i)))"
    by (rule Suc.IH) (use row2 jw Suc.prems(4) in \<open>simp_all add: algebra_simps\<close>)
  then show ?case
    unfolding identity_rows.simps Let_def t j j1 s r0 row2(3)
    using upd_rows_Suc [of ?w ?w paint "j * ?w" ?f n] assms(6) by (simp add: add.commute)
qed simp

text \<open>Without a transform and without repetition, lines of the texture are copied.\<close>

lemma copy_rows_eq:
  assumes "tex_ok r" "0 \<le> dx" "0 \<le> dy" "0 \<le> r_rowNum r" "0 < r_alphaWidth r" "dx + r_alphaWidth r \<le> r_texture_imageWidth r"
    and "dy + r_rowNum r + int (j + n) \<le> r_texture_imageHeight r"
    and "(j + n) * nat (r_alphaWidth r) \<le> length paint" "length paint < 2 ^ 31"
  shows "copy_rows r (dy * r_texture_stride r + dx) n (int j) paint =
    Some (upd_rows paint (j * nat (r_alphaWidth r)) (nat (r_alphaWidth r)) (nat (r_alphaWidth r)) n
      (\<lambda>i k _. at r (dx + int k) (dy + r_rowNum r + int (j + i))))"
  using assms(7-9)
proof (induction n arbitrary: j paint)
  case (Suc n)
  let ?w = "nat (r_alphaWidth r)" and ?s = "r_texture_stride r" and ?row = "r_rowNum r + int j"
  let ?f = "\<lambda>i k (_ :: jint). at r (dx + int k) (dy + r_rowNum r + int (j + i))"
  have W: "0 < r_texture_imageWidth r" "0 < ?s" "r_texture_imageHeight r < 32768" using assms(1) by (auto simp: tex_ok_def)
  have jw: "Suc j * ?w + n * ?w \<le> length paint" using Suc.prems(2) by (simp add: algebra_simps)
  have j: "s32 (r_alphaWidth r * int j) = int (j * ?w)"
  proof -
    have "r_alphaWidth r * int j = int (j * ?w)" using assms(5) by simp
    moreover have "j * ?w < 2147483648" using jw Suc.prems(3) by simp
    ultimately show ?thesis by (simp only:) (rule s32_eq; linarith)
  qed
  have j1: "s32 (int j + 1) = int (Suc j)" using Suc.prems(1) assms(3,4) W(3) by simp
  have t: "s32 (?s * ?row) = ?row * ?s"
    using tex_index(2) [OF assms(1) order_refl W(1), of ?row] Suc.prems(1) assms(3,4) by (simp add: mult.commute)
  define si where "si = (dy + ?row) * ?s + dx"
  have si: "dy * ?s + dx + ?row * ?s = si" by (simp add: si_def algebra_simps)
  have lo: "0 \<le> si" using assms(2-4) W(2) by (simp add: si_def)
  have "in_arr (r_texture_intData r) ((dy + ?row) * ?s + (dx + r_alphaWidth r - 1))"
    by (rule tex_index(1)) (use assms Suc.prems(1) in auto)
  then have hi: "si + r_alphaWidth r \<le> int (length (r_texture_intData r))" by (simp add: si_def in_arr_def)
  have "r_texture_intData r ! (nat si + k) = ?f 0 k c" for k c
  proof -
    have "nat si + k = nat ((dy + ?row) * ?s + (dx + int k))" using lo by (simp add: si_def)
    then show ?thesis by (simp add: at_def add.assoc)
  qed
  then have f0: "(\<lambda>k _. r_texture_intData r ! (nat si + k)) = ?f 0" by (intro ext)
  have "int (Suc j * ?w) = int (j * ?w) + r_alphaWidth r" using assms(5) by (simp add: algebra_simps)
  then have "int (j * ?w) + r_alphaWidth r \<le> int (length paint)" using jw by linarith
  then have m: "memcpy_from paint (int (j * ?w)) (r_texture_intData r) si (r_alphaWidth r) = Some (upd_seg paint (j * ?w) ?w (?f 0))"
    unfolding memcpy_from_def f0 nat_int using lo hi assms(5) by (simp del: of_nat_mult)
  have "copy_rows r (dy * ?s + dx) n (int (Suc j)) (upd_seg paint (j * ?w) ?w (?f 0)) =
    Some (upd_rows (upd_seg paint (j * ?w) ?w (?f 0)) (Suc j * ?w) ?w ?w n (\<lambda>i. ?f (Suc i)))"
    using Suc.IH [of "Suc j" "upd_seg paint (j * ?w) ?w (?f 0)"] Suc.prems(1,3) jw by (simp add: algebra_simps)
  then show ?case
    unfolding copy_rows.simps t si j j1 m
    using upd_rows_Suc [of ?w ?w paint "j * ?w" ?f n] assms(5) by (simp add: add.commute)
qed simp

text \<open>The column and the line of the texture at the left upper corner of the clipped rectangle.\<close>

definition shown_x :: "'f Renderer \<Rightarrow> int" where
  "shown_x r = max (r_rectX r) (r_clip_bbMinX r) - r_rectX r"

definition shown_y :: "'f Renderer \<Rightarrow> int" where
  "shown_y r = max (r_rectY r) (r_clip_bbMinY r) - r_rectY r"

lemma genTexturePaintTarget_copies:
  assumes "tex_ok r" "r_texture_transformType r = TEXTURE_TRANSFORM_IDENTITY" "\<not> r_texture_repeat r"
    and "0 \<le> r_rowNum r" "0 < r_alphaWidth r" "shown_x r + r_alphaWidth r \<le> r_texture_imageWidth r"
    and "0 \<le> h" "shown_y r + r_rowNum r + h \<le> r_texture_imageHeight r"
    and "nat h * nat (r_alphaWidth r) \<le> length paint" "length paint < 2 ^ 31"
  shows "genTexturePaintTarget r paint h = Some (upd_rows paint 0 (nat (r_alphaWidth r)) (nat (r_alphaWidth r)) (nat h)
    (\<lambda>j k _. at r (shown_x r + int k) (shown_y r + r_rowNum r + int j)))"
proof (cases "h = 0")
  case True
  then show ?thesis using assms(2,3) by (simp add: genTexturePaintTarget_def Let_def)
next
  case False
  have s: "0 \<le> shown_x r" "0 \<le> shown_y r" by (simp_all add: shown_x_def shown_y_def)
  have "s32 (shown_y r * r_texture_stride r + shown_x r) = shown_y r * r_texture_stride r + shown_x r"
    by (rule tex_index(2)) (use assms s False in auto)
  then have "s32 ((max (r_rectY r) (r_clip_bbMinY r) - r_rectY r) * r_texture_stride r + max (r_rectX r) (r_clip_bbMinX r) - r_rectX r) =
      shown_y r * r_texture_stride r + shown_x r"
    by (simp add: shown_x_def shown_y_def add_diff_eq)
  moreover have "copy_rows r (shown_y r * r_texture_stride r + shown_x r) (nat h) (int 0) paint =
    Some (upd_rows paint (0 * nat (r_alphaWidth r)) (nat (r_alphaWidth r)) (nat (r_alphaWidth r)) (nat h)
      (\<lambda>j k _. at r (shown_x r + int k) (shown_y r + r_rowNum r + int (0 + j))))"
    by (rule copy_rows_eq) (use assms s in simp_all)
  ultimately show ?thesis using assms(2,3) by (simp add: genTexturePaintTarget_def Let_def)
qed

section \<open>Properties\<close>

text \<open>with a texture in the repeat mode and no transform, \<^verbatim>\<open>genTexturePaintTarget\<close> paints the plane
  tiled with the texture, for every start position and every number of lines.\<close>

lemma genTexturePaintTarget_tiles:
  assumes "tex_ok r" "r_texture_transformType r = TEXTURE_TRANSFORM_IDENTITY" "r_texture_repeat r"
    and "0 \<le> r_currX r" "0 \<le> r_currY r" "0 < r_alphaWidth r"
    and "nat h * nat (r_alphaWidth r) \<le> length paint" "length paint < 2 ^ 31"
  shows "genTexturePaintTarget r paint h = Some (upd_rows paint 0 (nat (r_alphaWidth r)) (nat (r_alphaWidth r)) (nat h)
    (\<lambda>j k _. tile r (r_currX r + int k) (r_currY r + int j)))"
proof -
  have H: "0 < r_texture_imageHeight r" "0 < r_texture_imageWidth r" using assms(1) by (auto simp: tex_ok_def)
  have t: "tile r (x mod r_texture_imageWidth r + a) (y mod r_texture_imageHeight r + b) = tile r (x + a) (y + b)" for x y a b
    by (simp add: tile_def mod_add_left_eq)
  have "identity_rows r (r_currX r mod r_texture_imageWidth r) (nat h) (int 0) (r_currY r mod r_texture_imageHeight r) paint =
    Some (upd_rows paint (0 * nat (r_alphaWidth r)) (nat (r_alphaWidth r)) (nat (r_alphaWidth r)) (nat h)
      (\<lambda>i k _. tile r (r_currX r mod r_texture_imageWidth r + int k) (r_currY r mod r_texture_imageHeight r + int i)))"
    by (rule identity_rows_eq) (use assms H in simp_all)
  then show ?thesis
    using assms H by (simp add: genTexturePaintTarget_def Let_def c_rem_nonneg t)
qed

text \<open>A texture of 2 by 2 texels for the witnesses.\<close>

definition wit_tex :: "unit Renderer" where
  "wit_tex = (zero_Renderer () \<lparr>s_width = 3, s_height = 1, s_offset = 0, s_scanlineStride = 3,
       s_pixelStride = 1, s_imageType = TYPE_INT_ARGB_PRE, s_data = [0, 0, 0]\<rparr>)\<lparr>
     r_alphaWidth := 3, r_texture_intData := [-1, 0, 2139062143, -16777216],
     r_texture_imageWidth := 2, r_texture_imageHeight := 2, r_texture_stride := 2,
     r_texture_txMax := 1, r_texture_tyMax := 1, r_texture_repeat := True,
     r_texture_transformType := TEXTURE_TRANSFORM_IDENTITY,
     r_texture_m00 := 65536, r_texture_m11 := 65536, r_currX := 1, r_currY := 1\<rparr>"

lemmas wit_tex_simps = wit_tex_def zero_Renderer_def tex_ok_def tex_pre_def tex_premul_def pisces_consts
  premul_def ch_defs is_jint_def drop_bit_eq_div

lemma wit_tex_ok: "tex_ok wit_tex" "tex_pre wit_tex"
  by (simp_all add: wit_tex_simps)

lemma genTexturePaintTarget_tiles_witness:
  "genTexturePaintTarget wit_tex [0, 0, 0, 0, 0, 0] 2 =
     Some [-16777216, 2139062143, -16777216, 0, -1, 0]"
proof -
  have "r_texture_transformType wit_tex = TEXTURE_TRANSFORM_IDENTITY" "r_texture_repeat wit_tex"
    "0 \<le> r_currX wit_tex" "0 \<le> r_currY wit_tex" "0 < r_alphaWidth wit_tex"
    "nat 2 * nat (r_alphaWidth wit_tex) \<le> length [0, 0, 0, 0, 0, 0 :: jint]" "length [0, 0, 0, 0, 0, 0 :: jint] < 2 ^ 31"
    by (simp_all add: wit_tex_def zero_Renderer_def)
  note t = genTexturePaintTarget_tiles [OF wit_tex_ok(1) this]
  show ?thesis unfolding t by code_simp
qed

lemma affine_texture_safe:
  assumes "tex_ok r" "tex_premul r" "0 \<le> r_alphaWidth r"
    and "r_texture_transformType r \<in>
      {TEXTURE_TRANSFORM_TRANSLATE, TEXTURE_TRANSFORM_SCALE_TRANSLATE, TEXTURE_TRANSFORM_GENERIC}"
    and "nat h * nat (r_alphaWidth r) \<le> length paint" "length paint < 2 ^ 31"
  shows "\<exists>q. genTexturePaintTarget r paint h = Some q \<and> written good 0 (nat h * nat (r_alphaWidth r)) paint q"
proof -
  have pre: "tex_pre r" using assms(1,2) by (simp add: tex_pre_def)
  have w: "r_alphaWidth r = int (nat (r_alphaWidth r))" using assms(3) by simp
  note k = translate.write_rows_ok [OF pre, of 0 "nat h" "nat (r_alphaWidth r)" paint "r_currY r", folded w]
    scale.write_rows_ok [OF pre, of 0 "nat h" "nat (r_alphaWidth r)" paint "r_currY r", folded w]
    generic.write_rows_ok [OF pre, of 0 "nat h" "nat (r_alphaWidth r)" paint "r_currY r", folded w]
  show ?thesis
    using assms(4-6) k
    by (auto simp: genTexturePaintTarget_def Let_def pisces_consts translate_rows_write affine_rows_write)
qed

text \<open>C31: for a texture of less than 32768 columns and lines, with at least two of each when it is interpolated.
  With a translation, a scale or a general transform, in all six combinations of repeat and interpolation, the
  generator reads inside of the texture whatever the numbers of the transform are, fills exactly the requested
  lines of \<open>paint\<close>, and turns a premultiplied texture into premultiplied paint. Without a transform it paints, in
  the repeat mode and at a position that is not negative, the plane tiled with the texture, and otherwise, when
  the clipped rectangle lies inside of the texture, the texels below it.\<close>

theorem genTexturePaintTarget_safe:
  assumes "tex_ok r" "tex_premul r" "0 < r_alphaWidth r" "0 \<le> h"
    and "nat h * nat (r_alphaWidth r) \<le> length paint" "length paint < 2 ^ 31"
  shows "(r_texture_transformType r \<in>
      {TEXTURE_TRANSFORM_TRANSLATE, TEXTURE_TRANSFORM_SCALE_TRANSLATE, TEXTURE_TRANSFORM_GENERIC} \<longrightarrow>
      (\<exists>q. genTexturePaintTarget r paint h = Some q \<and> written good 0 (nat h * nat (r_alphaWidth r)) paint q)) \<and>
    (r_texture_transformType r = TEXTURE_TRANSFORM_IDENTITY \<and> r_texture_repeat r \<and> 0 \<le> r_currX r \<and> 0 \<le> r_currY r \<longrightarrow>
      genTexturePaintTarget r paint h = Some (upd_rows paint 0 (nat (r_alphaWidth r)) (nat (r_alphaWidth r)) (nat h)
        (\<lambda>j k _. tile r (r_currX r + int k) (r_currY r + int j)))) \<and>
    (r_texture_transformType r = TEXTURE_TRANSFORM_IDENTITY \<and> \<not> r_texture_repeat r \<and> 0 \<le> r_rowNum r \<and>
      shown_x r + r_alphaWidth r \<le> r_texture_imageWidth r \<and> shown_y r + r_rowNum r + h \<le> r_texture_imageHeight r \<longrightarrow>
      genTexturePaintTarget r paint h = Some (upd_rows paint 0 (nat (r_alphaWidth r)) (nat (r_alphaWidth r)) (nat h)
        (\<lambda>j k _. at r (shown_x r + int k) (shown_y r + r_rowNum r + int j))))"
  using affine_texture_safe [OF assms(1,2) _ _ assms(5,6)] genTexturePaintTarget_tiles [OF assms(1) _ _ _ _ assms(3,5,6)]
    genTexturePaintTarget_copies [OF assms(1) _ _ _ assms(3) _ assms(4) _ assms(5,6)] assms(3)
  by (intro conjI impI) simp_all

theorem genTexturePaintTarget_safe_witness:
  "(\<exists>q. genTexturePaintTarget (wit_tex\<lparr>r_texture_transformType := TEXTURE_TRANSFORM_GENERIC,
      r_texture_interpolate := True, r_texture_m01 := 7777\<rparr>) [0, 0, 0, 0, 0, 0] 2 = Some q \<and>
    written good 0 6 [0, 0, 0, 0, 0, 0] q) \<and>
   genTexturePaintTarget wit_tex [0, 0, 0, 0, 0, 0] 2 = Some [-16777216, 2139062143, -16777216, 0, -1, 0]"
proof
  show "\<exists>q. genTexturePaintTarget (wit_tex\<lparr>r_texture_transformType := TEXTURE_TRANSFORM_GENERIC,
      r_texture_interpolate := True, r_texture_m01 := 7777\<rparr>) [0, 0, 0, 0, 0, 0] 2 = Some q \<and>
    written good 0 6 [0, 0, 0, 0, 0, 0] q"
    using genTexturePaintTarget_safe [of "wit_tex\<lparr>r_texture_transformType := TEXTURE_TRANSFORM_GENERIC,
        r_texture_interpolate := True, r_texture_m01 := 7777\<rparr>" 2 "[0, 0, 0, 0, 0, 0]"]
    by (simp add: wit_tex_simps)
  have "genTexturePaintTarget wit_tex [0, 0, 0, 0, 0, 0] 2 =
      Some (upd_rows [0, 0, 0, 0, 0, 0] 0 3 3 2 (\<lambda>j k _. tile wit_tex (1 + int k) (1 + int j)))"
    using genTexturePaintTarget_safe [of wit_tex 2 "[0, 0, 0, 0, 0, 0]"] by (simp add: wit_tex_simps)
  also have "\<dots> = Some [-16777216, 2139062143, -16777216, 0, -1, 0]" by code_simp
  finally show "genTexturePaintTarget wit_tex [0, 0, 0, 0, 0, 0] 2 = Some [-16777216, 2139062143, -16777216, 0, -1, 0]" .
qed

text \<open>the linear and the radial gradient generator read inside of the colour table and write inside
  of \<^verbatim>\<open>_paint\<close> for every floating point arithmetic \<open>F\<close>, also when a conversion or a square root returns
  an arbitrary number, because \<^verbatim>\<open>pad\<close> brings every number into the table.\<close>

lemma gradient_paint_safe:
  assumes "gradient_ok r" "0 \<le> r_alphaWidth r"
    and "nat h * nat (r_alphaWidth r) \<le> length (r_paint r)" "length (r_paint r) < 2 ^ 31"
  shows "\<exists>q1 q2. genLinearGradientPaint F r h = Some (r\<lparr>r_paint := q1\<rparr>) \<and>
    genRadialGradientPaint F r h = Some (r\<lparr>r_paint := q2\<rparr>) \<and>
    written (\<lambda>c. c \<in> set (r_gradient_colors r)) 0 (nat h * nat (r_alphaWidth r)) (r_paint r) q1 \<and>
    written (\<lambda>c. c \<in> set (r_gradient_colors r)) 0 (nat h * nat (r_alphaWidth r)) (r_paint r) q2"
proof -
  have w: "r_alphaWidth r = int (nat (r_alphaWidth r))" using assms(2) by simp
  note k = linear.write_rows_ok [OF assms(1), of 0 "nat h" "nat (r_alphaWidth r)" "r_paint r" F "r_currY r", folded w]
    radial.write_rows_ok [OF assms(1), of 0 "nat h" "nat (r_alphaWidth r)" "r_paint r" F "r_currY r", folded w]
  obtain q1 q2 where
    "write_rows (linear_step F r) (linear_init F r) (r_alphaWidth r) (nat h) (r_currY r) 0 (r_paint r) = Some q1"
    "written (\<lambda>c. c \<in> set (r_gradient_colors r)) 0 (nat h * nat (r_alphaWidth r)) (r_paint r) q1"
    "write_rows (radial_step F r) (\<lambda>y. Some (radial_setup F r y)) (r_alphaWidth r) (nat h) (r_currY r) 0 (r_paint r) = Some q2"
    "written (\<lambda>c. c \<in> set (r_gradient_colors r)) 0 (nat h * nat (r_alphaWidth r)) (r_paint r) q2"
    using k assms(3,4) by auto
  then show ?thesis
    by (intro exI [of _ q1] exI [of _ q2])
      (simp add: genLinearGradientPaint_def genRadialGradientPaint_def linear_rows_write radial_rows_write)
qed

definition wit_fops :: "int fops" where
  "wit_fops = \<lparr>fadd = (+), fsub = (-), fmul = (*), fdiv = (div), fneg = uminus, flt = (<),
     fofint = (\<lambda>x. x), flit = (\<lambda>x. x), fsqrt = (\<lambda>x. x), ftoint = (\<lambda>x. x), fsum_sqrt = (+)\<rparr>"

definition wit_grad :: "int Renderer" where
  "wit_grad = (zero_Renderer 0 \<lparr>s_width = 3, s_height = 1, s_offset = 0, s_scanlineStride = 3,
       s_pixelStride = 1, s_imageType = TYPE_INT_ARGB_PRE, s_data = [0, 0, 0]\<rparr>)\<lparr>
     r_alphaWidth := 3, r_paint := [7, 7, 7, 7], r_gradient_colors := replicate 256 5,
     r_gradient_cycleMethod := CYCLE_REFLECT, r_lg_mx := 100000, r_lg_b := - 5\<rparr>"

lemma gradient_paint_safe_witness:
  "\<exists>q1 q2. genLinearGradientPaint wit_fops wit_grad 1 = Some (wit_grad\<lparr>r_paint := q1\<rparr>) \<and>
    genRadialGradientPaint wit_fops wit_grad 1 = Some (wit_grad\<lparr>r_paint := q2\<rparr>) \<and>
    written (\<lambda>c. c \<in> set (r_gradient_colors wit_grad)) 0 3 [7, 7, 7, 7] q1 \<and>
    written (\<lambda>c. c \<in> set (r_gradient_colors wit_grad)) 0 3 [7, 7, 7, 7] q2"
  using gradient_paint_safe [of wit_grad 1 wit_fops]
  by (simp add: gradient_ok_def wit_grad_def zero_Renderer_def)

text \<open>bilinear interpolation never leaves the range of the four texels, channel by channel, and
  premultiplied texels give a premultiplied result.\<close>

lemma interpolate4points_range:
  assumes "is_frac h" "is_frac v" "premul p00" "premul p01" "premul p10" "premul p11" "c \<in> {ch_A, ch_R, ch_G, ch_B}"
  shows "Min {c p00, c p01, c p10, c p11} \<le> c (interpolate4points p00 p01 p10 p11 h v) \<and>
    c (interpolate4points p00 p01 p10 p11 h v) \<le> Max {c p00, c p01, c p10, c p11} \<and>
    premul (interpolate4points p00 p01 p10 p11 h v)"
proof -
  have e: "c (interpolate4points p00 p01 p10 p11 h v) = bilerp c p00 p01 p10 p11 h v"
    using assms(7) bilerp_u8 [OF assms(1,2)] by (auto simp: interpolate4points_eq [OF assms(1,2)])
  have "Min {c p00, c p01, c p10, c p11} \<le> bilerp c p00 p01 p10 p11 h v"
    "bilerp c p00 p01 p10 p11 h v \<le> Max {c p00, c p01, c p10, c p11}"
    using lerp16_between [OF assms(1), of "c p00" "c p01"] lerp16_between [OF assms(1), of "c p10" "c p11"]
      lerp16_between [OF assms(2), of "lerp16 (c p00) (c p01) h" "lerp16 (c p10) (c p11) h"]
    by (auto simp: bilerp_def)
  then show ?thesis
    unfolding e using interpolate4points_premul(1) [OF assms(1-6)] by simp
qed

lemma interpolate4points_range_witness:
  "Min {255, 0, 127, 255} \<le> ch_A (interpolate4points (-1) 0 2139062143 (-16777216) 1000 60000) \<and>
   ch_A (interpolate4points (-1) 0 2139062143 (-16777216) 1000 60000) \<le> Max {255, 0, 127, 255} \<and>
   premul (interpolate4points (-1) 0 2139062143 (-16777216) 1000 60000)"
  using interpolate4points_range [of 1000 60000 "-1" 0 2139062143 "-16777216" ch_A]
  by (simp add: is_frac_def premul_def ch_defs drop_bit_eq_div)

text \<open>a texture of one texel is read out of range when it is interpolated: the bounds let the
  coordinate be -1, and the right and lower neighbours of -1 are the second column and line.\<close>

lemma interpolate_single_texel_unsafe:
  "genTexturePaintTarget (wit_tex\<lparr>r_texture_intData := [-1], r_texture_imageWidth := 1, r_texture_imageHeight := 1,
      r_texture_stride := 1, r_texture_txMax := 0, r_texture_tyMax := 0, r_texture_repeat := False,
      r_texture_interpolate := True, r_texture_transformType := TEXTURE_TRANSFORM_TRANSLATE,
      r_texture_m02 := - 98304, r_texture_m12 := - 98304\<rparr>) [0, 0, 0] 1 = None"
  by code_simp

end
