(* ===== verification/PiscesRenderer.thy ===== *)
theory PiscesRenderer
  imports PiscesEmit PiscesPaintProps
begin

text \<open>
  The state of the software renderer: \<^verbatim>\<open>PiscesRenderer.inl\<close> and \<^verbatim>\<open>PiscesTransform.c\<close>. Setters only mark what
  they invalidate in \<^verbatim>\<open>_rendererState\<close>; \<^verbatim>\<open>VALIDATE_BLITTING\<close> recomputes the internal colour, the view of
  the surface and the routine pointers before something is drawn.

  The invariant \<open>coherent\<close> says that every derived field that is not marked invalid has the value
  that the primary fields determine. All setters keep it, and after validation the routine that
  draws is the one of the table \<open>rows_table\<close> for mask, composite rule and paint.

  Not kept: \<^verbatim>\<open>_paint_transform\<close>, \<^verbatim>\<open>_gradient_transform\<close> and \<^verbatim>\<open>_gradient_inverse_transform\<close> (written, never
  read by other code), and the release of texture memory.
\<close>

section \<open>Transforms\<close>

definition pisces_transform_assign :: "Transform6 \<Rightarrow> Transform6 \<Rightarrow> Transform6" where
  "pisces_transform_assign transformD transformS = transformS"

definition pisces_transform_invert :: "'f fops \<Rightarrow> Transform6 \<Rightarrow> Transform6" where
  "pisces_transform_invert F t =
     (let c = fofint F; k = c 65536; sub = fsub F; mul = fmul F; dv = fdiv F;
          fm00 = dv (c (m00 t)) k;
          fm01 = dv (c (m01 t)) k;
          fm02 = dv (c (m02 t)) k;
          fm10 = dv (c (m10 t)) k;
          fm11 = dv (c (m11 t)) k;
          fm12 = dv (c (m12 t)) k;
          fdet = sub (mul fm00 fm11) (mul fm01 fm10);
          fa00 = dv fm11 fdet;
          fa01 = dv (fneg F fm01) fdet;
          fa10 = dv (fneg F fm10) fdet;
          fa11 = dv fm00 fdet;
          fa02 = dv (sub (mul fm01 fm12) (mul fm02 fm11)) fdet;
          fa12 = dv (sub (mul fm02 fm10) (mul fm00 fm12)) fdet
      in \<lparr>m00 = ftoint F (mul fa00 k), m01 = ftoint F (mul fa01 k), m10 = ftoint F (mul fa10 k),
           m11 = ftoint F (mul fa11 k), m02 = ftoint F (mul fa02 k), m12 = ftoint F (mul fa12 k)\<rparr>)"

definition pisces_transform_multiply :: "Transform6 \<Rightarrow> Transform6 \<Rightarrow> Transform6" where
  "pisces_transform_multiply d s =
     (let n00 = drop_bit 16 (s64 (m00 d * m00 s + m01 d * m10 s));
          n01 = drop_bit 16 (s64 (m00 d * m01 s + m01 d * m11 s));
          n10 = drop_bit 16 (s64 (m10 d * m00 s + m11 d * m10 s));
          n11 = drop_bit 16 (s64 (m10 d * m01 s + m11 d * m11 s));
          n02 = drop_bit 16 (s64 (push_bit 16 (m02 d) + m00 d * m02 s + m01 d * m12 s));
          n12 = drop_bit 16 (s64 (push_bit 16 (m12 d) + m10 d * m02 s + m11 d * m12 s))
      in \<lparr>m00 = s32 n00, m01 = s32 n01, m10 = s32 n10, m11 = s32 n11, m02 = s32 n02, m12 = s32 n12\<rparr>)"

text \<open>Equality of two transforms that may be missing (\<^verbatim>\<open>NULL\<close>). Two equal pointers point to equal
  contents.\<close>

definition pisces_transform_equals :: "Transform6 option \<Rightarrow> Transform6 option \<Rightarrow> bool" where
  "pisces_transform_equals tr1 tr2 =
     (case (tr1, tr2) of
        (None, None) \<Rightarrow> True
      | (Some a, Some b) \<Rightarrow> m00 a = m00 b \<and> m01 a = m01 b \<and> m02 a = m02 b \<and>
          m10 a = m10 b \<and> m11 a = m11 b \<and> m12 a = m12 b
      | _ \<Rightarrow> False)"

section \<open>State flags\<close>

definition INVALID_COLOR_ALPHA_MAP :: int where "INVALID_COLOR_ALPHA_MAP = 1"
definition INVALID_PAINT_ALPHA_MAP :: int where "INVALID_PAINT_ALPHA_MAP = 2"
definition INVALID_INTERNAL_COLOR :: int where "INVALID_INTERNAL_COLOR = 8"
definition INVALID_RENDERER_SURFACE :: int where "INVALID_RENDERER_SURFACE = 16"
definition INVALID_COMPOSITE_DEPENDED_ROUTINES :: int where "INVALID_COMPOSITE_DEPENDED_ROUTINES = 32"
definition INVALID_PAINT_DEPENDED_ROUTINES :: int where "INVALID_PAINT_DEPENDED_ROUTINES = 64"
definition INVALID_MASK_DEPENDED_ROUTINES :: int where "INVALID_MASK_DEPENDED_ROUTINES = 128"

definition INVALID_BLITTING_MASK :: int where
  "INVALID_BLITTING_MASK = INVALID_INTERNAL_COLOR OR INVALID_RENDERER_SURFACE OR
     INVALID_COMPOSITE_DEPENDED_ROUTINES OR INVALID_PAINT_DEPENDED_ROUTINES OR INVALID_MASK_DEPENDED_ROUTINES"

definition INVALID_ALL :: int where
  "INVALID_ALL = INVALID_COLOR_ALPHA_MAP OR INVALID_PAINT_ALPHA_MAP OR INVALID_BLITTING_MASK"

lemmas invalid_defs = INVALID_COLOR_ALPHA_MAP_def INVALID_PAINT_ALPHA_MAP_def INVALID_INTERNAL_COLOR_def
  INVALID_RENDERER_SURFACE_def INVALID_COMPOSITE_DEPENDED_ROUTINES_def INVALID_PAINT_DEPENDED_ROUTINES_def
  INVALID_MASK_DEPENDED_ROUTINES_def INVALID_BLITTING_MASK_def INVALID_ALL_def

definition mark :: "int \<Rightarrow> 'f Renderer \<Rightarrow> 'f Renderer" where
  "mark f r = r\<lparr>r_rendererState := r_rendererState r OR f\<rparr>"

definition unmark :: "int \<Rightarrow> 'f Renderer \<Rightarrow> 'f Renderer" where
  "unmark f r = r\<lparr>r_rendererState := r_rendererState r AND NOT f\<rparr>"

definition marked :: "int \<Rightarrow> int \<Rightarrow> bool" where
  "marked st f \<longleftrightarrow> st AND f \<noteq> 0"

section \<open>Updates\<close>

definition updateInternalColor :: "'f Renderer \<Rightarrow> 'f Renderer" where
  "updateInternalColor r = unmark INVALID_INTERNAL_COLOR
     (if r_compositeRule r = COMPOSITE_CLEAR
      then r\<lparr>r_cred := 0, r_cgreen := 0, r_cblue := 0, r_calpha := 0\<rparr>
      else r\<lparr>r_cred := r_ured r, r_cgreen := r_ugreen r, r_cblue := r_ublue r, r_calpha := r_ualpha r\<rparr>)"

definition updatePaintDependedRoutines :: "'f Renderer \<Rightarrow> 'f Renderer" where
  "updatePaintDependedRoutines r = unmark INVALID_PAINT_DEPENDED_ROUTINES
     (if r_paintMode r = PAINT_LINEAR_GRADIENT
      then r\<lparr>r_genPaint := Some GenLinearGradientPaint, r_emitRows := r_bl_PT r, r_emitLine := r_el_PT r\<rparr>
      else if r_paintMode r = PAINT_RADIAL_GRADIENT
      then r\<lparr>r_genPaint := Some GenRadialGradientPaint, r_emitRows := r_bl_PT r, r_emitLine := r_el_PT r\<rparr>
      else if r_paintMode r = PAINT_TEXTURE8888
      then r\<lparr>r_genPaint := Some GenTexturePaint, r_emitRows := r_bl_PT r, r_emitLine := r_el_PT r\<rparr>
      else if r_paintMode r = PAINT_TEXTURE8888_MULTIPLY
      then r\<lparr>r_genPaint := Some GenTexturePaintMultiply, r_emitRows := r_bl_PT r, r_emitLine := r_el_PT r\<rparr>
      else if r_paintMode r = PAINT_FLAT_COLOR
      then r\<lparr>r_genPaint := None, r_emitRows := r_bl r, r_emitLine := r_el r\<rparr>
      else r)"

definition updateCompositeDependedRoutines :: "'f Renderer \<Rightarrow> 'f Renderer" where
  "updateCompositeDependedRoutines r = unmark INVALID_COMPOSITE_DEPENDED_ROUTINES (updatePaintDependedRoutines
     (if r_compositeRule r = COMPOSITE_SRC_OVER
      then r\<lparr>r_bl := r_bl_SourceOver r, r_bl_PT := r_bl_PT_SourceOver r,
             r_el := r_el_SourceOver r, r_el_PT := r_el_PT_SourceOver r\<rparr>
      else if r_compositeRule r = COMPOSITE_SRC
      then r\<lparr>r_bl := r_bl_Source r, r_bl_PT := r_bl_PT_Source r,
             r_el := r_el_Source r, r_el_PT := r_el_PT_Source r\<rparr>
      else if r_compositeRule r = COMPOSITE_CLEAR
      then r\<lparr>r_bl := r_bl_Clear r, r_bl_PT := r_bl_PT_Clear r,
             r_el := r_el_Source r, r_el_PT := r_el_Source r\<rparr>
      else r))"

definition updateMaskDependedRoutines :: "'f Renderer \<Rightarrow> 'f Renderer" where
  "updateMaskDependedRoutines r = unmark INVALID_MASK_DEPENDED_ROUTINES (updateCompositeDependedRoutines
     (if r_maskType r = NO_MASK
      then r\<lparr>r_bl_SourceOver := r_bl_SourceOverNoMask r, r_bl_PT_SourceOver := r_bl_PT_SourceOverNoMask r,
             r_bl_Source := r_bl_SourceNoMask r, r_bl_PT_Source := r_bl_PT_SourceNoMask r\<rparr>
      else if r_maskType r = ALPHA_MASK
      then r\<lparr>r_bl_SourceOver := r_bl_SourceOverMask r, r_bl_PT_SourceOver := r_bl_PT_SourceOverMask r,
             r_bl_Source := r_bl_SourceMask r, r_bl_PT_Source := r_bl_PT_SourceMask r\<rparr>
      else if r_maskType r = LCD_ALPHA_MASK
      then r\<lparr>r_bl_SourceOver := r_bl_SourceOverLCDMask r, r_bl_PT_SourceOver := r_bl_PT_SourceOverLCDMask r,
             r_bl_Source := r_bl_SourceLCDMask r, r_bl_PT_Source := r_bl_PT_SourceLCDMask r\<rparr>
      else r))"

definition updateSurfaceDependedRoutines :: "'f Renderer \<Rightarrow> 'f Renderer" where
  "updateSurfaceDependedRoutines r = updateMaskDependedRoutines
     (if r_imageType r = TYPE_INT_ARGB_PRE
      then r\<lparr>r_bl_SourceOverNoMask := Some BlitSrcOver, r_bl_PT_SourceOverNoMask := Some BlitPTSrcOver,
             r_bl_SourceNoMask := Some BlitSrc, r_bl_PT_SourceNoMask := Some BlitPTSrc,
             r_bl_SourceOverMask := Some BlitSrcOverMask, r_bl_PT_SourceOverMask := Some BlitPTSrcOverMask,
             r_bl_SourceMask := Some BlitSrcMask, r_bl_PT_SourceMask := Some BlitPTSrcMask,
             r_bl_SourceOverLCDMask := Some BlitSrcOverLCDMask, r_bl_PT_SourceOverLCDMask := None,
             r_bl_SourceLCDMask := None, r_bl_PT_SourceLCDMask := None,
             r_bl_Clear := Some BlitSrc, r_bl_PT_Clear := Some BlitSrc, r_clearRect := True,
             r_el_Source := Some EmitLineSource, r_el_SourceOver := Some EmitLineSourceOver,
             r_el_PT_Source := Some EmitLinePTSource, r_el_PT_SourceOver := Some EmitLinePTSourceOver\<rparr>
      else r)"

definition updateRendererSurface :: "'f Renderer \<Rightarrow> 'f Renderer" where
  "updateRendererSurface r =
     (let sf = r_surface r;
          r = r\<lparr>r_width := s_width sf, r_height := s_height sf, r_data := s_data sf,
                r_imageOffset := s_offset sf, r_imageScanlineStride := s_scanlineStride sf,
                r_imagePixelStride := s_pixelStride sf\<rparr>;
          r = (if r_imageType r \<noteq> s_imageType sf
               then let r = (if r_compositeRule r \<noteq> COMPOSITE_SRC_OVER \<and> s_imageType sf = TYPE_INT_ARGB_PRE
                             then mark (INVALID_COLOR_ALPHA_MAP OR INVALID_PAINT_ALPHA_MAP) r else r)
                    in updateSurfaceDependedRoutines (r\<lparr>r_imageType := s_imageType sf\<rparr>)
               else r)
      in unmark INVALID_RENDERER_SURFACE r)"

text \<open>The macro \<^verbatim>\<open>VALIDATE_BLITTING\<close>. \<open>st\<close> is \<^verbatim>\<open>__state\<close>, read before the updates.\<close>

definition VALIDATE_BLITTING :: "'f Renderer \<Rightarrow> 'f Renderer" where
  "VALIDATE_BLITTING r =
     (if marked (r_rendererState r) INVALID_BLITTING_MASK
      then let st = r_rendererState r;
               r = (if marked st INVALID_RENDERER_SURFACE then updateRendererSurface r else r);
               r = (if marked st INVALID_INTERNAL_COLOR then updateInternalColor r else r)
           in if marked st INVALID_MASK_DEPENDED_ROUTINES then updateMaskDependedRoutines r
              else if marked st INVALID_COMPOSITE_DEPENDED_ROUTINES then updateCompositeDependedRoutines r
              else if marked st INVALID_PAINT_DEPENDED_ROUTINES then updatePaintDependedRoutines r
              else r
      else r)"

definition INVALIDATE_RENDERER_SURFACE :: "'f Renderer \<Rightarrow> 'f Renderer" where
  "INVALIDATE_RENDERER_SURFACE r = mark INVALID_RENDERER_SURFACE r"

section \<open>Setters\<close>

definition createCommon :: "'f \<Rightarrow> Surface \<Rightarrow> 'f Renderer" where
  "createCommon z surface = (zero_Renderer z surface)\<lparr>
     r_imageType := - 1, r_compositeRule := COMPOSITE_SRC_OVER, r_maskType := NO_MASK,
     r_paintMode := PAINT_FLAT_COLOR, r_surface := surface,
     r_clip_bbMinX := 0, r_clip_bbMinY := 0,
     r_clip_bbMaxX := s32 (s_width surface - 1), r_clip_bbMaxY := s32 (s_height surface - 1),
     r_rendererState := INVALID_ALL\<rparr>"

definition setPaintMode :: "jint \<Rightarrow> 'f Renderer \<Rightarrow> 'f Renderer" where
  "setPaintMode newPaintMode r =
     (if r_paintMode r \<noteq> newPaintMode
      then (mark INVALID_PAINT_DEPENDED_ROUTINES (r\<lparr>r_texture_intData := []\<rparr>))
             \<lparr>r_prevPaintMode := r_paintMode r, r_paintMode := newPaintMode\<rparr>
      else r)"

definition renderer_setClip :: "jint \<Rightarrow> jint \<Rightarrow> jint \<Rightarrow> jint \<Rightarrow> 'f Renderer \<Rightarrow> 'f Renderer" where
  "renderer_setClip minX minY width height r =
     r\<lparr>r_clip_bbMinX := minX, r_clip_bbMinY := minY,
       r_clip_bbMaxX := s32 (minX + width - 1), r_clip_bbMaxY := s32 (minY + height - 1)\<rparr>"

definition renderer_setColor :: "jint \<Rightarrow> jint \<Rightarrow> jint \<Rightarrow> jint \<Rightarrow> 'f Renderer \<Rightarrow> 'f Renderer" where
  "renderer_setColor red green blue alpha r = setPaintMode PAINT_FLAT_COLOR
     (if r_ured r \<noteq> red \<or> r_ugreen r \<noteq> green \<or> r_ublue r \<noteq> blue \<or> r_ualpha r \<noteq> alpha
      then let r1 = mark INVALID_INTERNAL_COLOR r;
               r1 = (if r_ualpha r1 \<noteq> alpha
                     then mark (INVALID_COLOR_ALPHA_MAP OR INVALID_PAINT_ALPHA_MAP) r1 else r1)
           in r1\<lparr>r_ured := red, r_ugreen := green, r_ublue := blue, r_ualpha := alpha\<rparr>
      else r)"

definition renderer_setCompositeRule :: "jint \<Rightarrow> 'f Renderer \<Rightarrow> 'f Renderer" where
  "renderer_setCompositeRule compositeRule r =
     (if r_compositeRule r \<noteq> compositeRule
      then let r1 = mark (INVALID_INTERNAL_COLOR OR INVALID_COMPOSITE_DEPENDED_ROUTINES) r;
               r1 = (if compositeRule = COMPOSITE_SRC_OVER \<or>
                        (compositeRule = COMPOSITE_CLEAR \<or> compositeRule = COMPOSITE_SRC) \<and>
                        r_imageType r1 = TYPE_INT_ARGB_PRE
                     then mark (INVALID_COLOR_ALPHA_MAP OR INVALID_PAINT_ALPHA_MAP) r1 else r1)
           in r1\<lparr>r_compositeRule := compositeRule\<rparr>
      else r)"

definition renderer_setLinearGradient :: "'f fops \<Rightarrow> jint \<Rightarrow> jint \<Rightarrow> jint \<Rightarrow> jint \<Rightarrow> jint list \<Rightarrow> Transform6 \<Rightarrow>
    'f Renderer \<Rightarrow> 'f Renderer" where
  "renderer_setLinearGradient F x0 y0 x1 y1 colors transform r =
     (let t6 = pisces_transform_invert F transform;
          add = fadd F; sub = fsub F; mul = fmul F; dv = fdiv F; c = fofint F; k = c 65536;
          a00 = c (m00 t6); a01 = c (m01 t6); a02 = dv (c (m02 t6)) k;
          a10 = c (m10 t6); a11 = c (m11 t6); a12 = dv (c (m12 t6)) k;
          fx0 = dv (c x0) k; fx1 = dv (c x1) k; fy0 = dv (c y0) k; fy1 = dv (c y1) k;
          fdx = sub fx1 fx0; fdy = sub fy1 fy0;
          flensq = add (mul fdx fdx) (mul fdy fdy);
          t = add (mul fdx fx0) (mul fdy fy0);
          r = r\<lparr>r_lg_mx := dv (add (mul a00 fdx) (mul a10 fdy)) flensq,
                r_lg_my := dv (add (mul a01 fdx) (mul a11 fdy)) flensq,
                r_lg_b := dv (mul k (sub (add (mul a02 fdx) (mul a12 fdy)) t)) flensq\<rparr>
      in (setPaintMode PAINT_LINEAR_GRADIENT r)\<lparr>r_gradient_colors := take 256 colors\<rparr>)"

definition renderer_setRadialGradient :: "'f fops \<Rightarrow> jint \<Rightarrow> jint \<Rightarrow> jint \<Rightarrow> jint \<Rightarrow> jint \<Rightarrow> jint list \<Rightarrow> Transform6 \<Rightarrow>
    'f Renderer \<Rightarrow> 'f Renderer" where
  "renderer_setRadialGradient F cx cy fx fy radius colors transform r =
     (let t6 = pisces_transform_invert F transform;
          add = fadd F; sub = fsub F; mul = fmul F; dv = fdiv F; c = fofint F; k = c 65536;
          a00 = dv (c (m00 t6)) k; a01 = dv (c (m01 t6)) k; a02 = dv (c (m02 t6)) k;
          a10 = dv (c (m10 t6)) k; a11 = dv (c (m11 t6)) k; a12 = dv (c (m12 t6)) k;
          cx' = dv (c cx) k; cy' = dv (c cy) k; fx' = dv (c fx) k; fy' = dv (c fy) k;
          rr = dv (c radius) k; rsq = mul rr rr;
          fcx = sub fx' cx'; fcy = sub fy' cy';
          dsq = add (mul fcx fcx) (mul fcy fcy);
          (fx', fy') = (if flt F (mul rsq (flit F 94)) dsq
                        then let f = dv (mul rr (flit F 97)) (fsqrt F dsq)
                             in (add cx' (mul f fcx), add cy' (mul f fcy))
                        else (fx', fy'));
          r = r\<lparr>r_rg_a00 := a00, r_rg_a01 := a01, r_rg_a02 := a02, r_rg_a10 := a10, r_rg_a11 := a11, r_rg_a12 := a12,
                r_rg_a00a00 := mul a00 a00, r_rg_a10a10 := mul a10 a10, r_rg_a00a10 := mul a00 a10,
                r_rg_r := rr, r_rg_rsq := rsq, r_rg_cx := cx', r_rg_cy := cy', r_rg_fx := fx', r_rg_fy := fy'\<rparr>
      in (setPaintMode PAINT_RADIAL_GRADIENT r)\<lparr>r_gradient_colors := take 256 colors\<rparr>)"

text \<open>The last two parts of \<^verbatim>\<open>renderer_setTexture\<close>: the shift by half a texel when the texture is
  interpolated, and the kind of the transform.\<close>

definition texture_smooth :: "bool \<Rightarrow> 'f Renderer \<Rightarrow> 'f Renderer" where
  "texture_smooth smooth r =
     (if smooth
      then r\<lparr>r_texture_interpolate := True,
         r_texture_m02 := s64 (r_texture_m02 r + (drop_bit 1 (r_texture_m00 r) + drop_bit 1 (r_texture_m01 r) - 32768)),
         r_texture_m12 := s64 (r_texture_m12 r + (drop_bit 1 (r_texture_m10 r) + drop_bit 1 (r_texture_m11 r) - 32768))\<rparr>
      else r\<lparr>r_texture_interpolate := False\<rparr>)"

definition texture_kind :: "'f Renderer \<Rightarrow> 'f Renderer" where
  "texture_kind r =
     (if r_texture_m00 r = 65536 \<and> r_texture_m11 r = 65536 \<and> r_texture_m01 r = 0 \<and> r_texture_m10 r = 0
      then if r_texture_m02 r = 0 \<and> r_texture_m12 r = 0
           then r\<lparr>r_texture_transformType := TEXTURE_TRANSFORM_IDENTITY\<rparr>
           else if r_texture_m02 r AND 0xFFFF = 0 \<and> r_texture_m12 r AND 0xFFFF = 0
           then r\<lparr>r_texture_transformType := TEXTURE_TRANSFORM_TRANSLATE, r_texture_interpolate := False\<rparr>
           else r\<lparr>r_texture_transformType := TEXTURE_TRANSFORM_TRANSLATE\<rparr>
      else if r_texture_m01 r = 0 \<and> r_texture_m10 r = 0
      then r\<lparr>r_texture_transformType := TEXTURE_TRANSFORM_SCALE_TRANSLATE\<rparr>
      else r\<lparr>r_texture_transformType := TEXTURE_TRANSFORM_GENERIC\<rparr>)"

definition renderer_setTexture :: "'f fops \<Rightarrow> jint \<Rightarrow> jint list \<Rightarrow> jint \<Rightarrow> jint \<Rightarrow> jint \<Rightarrow> bool \<Rightarrow> bool \<Rightarrow> Transform6 \<Rightarrow>
    bool \<Rightarrow> bool \<Rightarrow> jint \<Rightarrow> jint \<Rightarrow> jint \<Rightarrow> jint \<Rightarrow> 'f Renderer \<Rightarrow> 'f Renderer" where
  "renderer_setTexture F renderMode data width height stride rep smooth transform freeData textureHasAlpha
     txMin tyMin txMax tyMax r =
     (let t = pisces_transform_invert F transform;
          r = setPaintMode (if renderMode = IMAGE_MODE_NORMAL then PAINT_TEXTURE8888
                            else PAINT_TEXTURE8888_MULTIPLY) r;
          r = r\<lparr>r_texture_free := freeData, r_texture_hasAlpha := textureHasAlpha,
                r_texture_intData := data, r_texture_imageWidth := width, r_texture_imageHeight := height,
                r_texture_stride := stride, r_texture_repeat := rep,
                r_texture_txMin := txMin, r_texture_tyMin := tyMin,
                r_texture_txMax := txMax, r_texture_tyMax := tyMax,
                r_texture_m00 := m00 t, r_texture_m01 := m01 t, r_texture_m10 := m10 t,
                r_texture_m11 := m11 t, r_texture_m02 := m02 t, r_texture_m12 := m12 t\<rparr>
      in texture_kind (texture_smooth smooth r))"

definition renderer_setMask :: "jint \<Rightarrow> jbyte list \<Rightarrow> jint \<Rightarrow> jint \<Rightarrow> bool \<Rightarrow> 'f Renderer \<Rightarrow> 'f Renderer" where
  "renderer_setMask maskType data width height freeData r =
     mark (INVALID_BLITTING_MASK OR INVALID_MASK_DEPENDED_ROUTINES)
       (r\<lparr>r_mask_free := freeData, r_maskType := maskType, r_mask_byteData := data,
          r_mask_width := width, r_mask_height := height\<rparr>)"

definition renderer_removeMask :: "'f Renderer \<Rightarrow> 'f Renderer" where
  "renderer_removeMask r =
     mark (INVALID_BLITTING_MASK OR INVALID_MASK_DEPENDED_ROUTINES)
       (r\<lparr>r_maskType := NO_MASK, r_mask_byteData := []\<rparr>)"

definition renderer_clearRect :: "jint \<Rightarrow> jint \<Rightarrow> jint \<Rightarrow> jint \<Rightarrow> 'f Renderer \<Rightarrow> 'f Renderer option" where
  "renderer_clearRect x y w h r =
     (let maxX = s32 (x + w - 1); maxY = s32 (y + h - 1);
          r = VALIDATE_BLITTING r;
          x = max (max x 0) (r_clip_bbMinX r);
          y = max (max y 0) (r_clip_bbMinY r);
          maxX = min (min maxX (s32 (r_width r - 1))) (r_clip_bbMaxX r);
          maxY = min (min maxY (s32 (r_height r - 1))) (r_clip_bbMaxY r)
      in if x \<le> maxX \<and> y \<le> maxY
         then if r_clearRect r then clearRect8888_any r x y (s32 (maxX - x + 1)) (s32 (maxY - y + 1)) else None
         else Some r)"

section \<open>The routine table\<close>

text \<open>The routines that the primary fields select; \<open>None\<close> is a combination without a routine.\<close>

definition over_table :: "jint \<Rightarrow> bl_routine option" where
  "over_table mt = (if mt = NO_MASK then Some BlitSrcOver else if mt = ALPHA_MASK then Some BlitSrcOverMask
     else Some BlitSrcOverLCDMask)"

definition pt_over_table :: "jint \<Rightarrow> bl_routine option" where
  "pt_over_table mt = (if mt = NO_MASK then Some BlitPTSrcOver else if mt = ALPHA_MASK then Some BlitPTSrcOverMask
     else None)"

definition src_table :: "jint \<Rightarrow> bl_routine option" where
  "src_table mt = (if mt = NO_MASK then Some BlitSrc else if mt = ALPHA_MASK then Some BlitSrcMask else None)"

definition pt_src_table :: "jint \<Rightarrow> bl_routine option" where
  "pt_src_table mt = (if mt = NO_MASK then Some BlitPTSrc else if mt = ALPHA_MASK then Some BlitPTSrcMask else None)"

definition bl_table :: "jint \<Rightarrow> jint \<Rightarrow> bl_routine option" where
  "bl_table mt rule = (if rule = COMPOSITE_SRC_OVER then over_table mt
     else if rule = COMPOSITE_SRC then src_table mt else Some BlitSrc)"

definition bl_pt_table :: "jint \<Rightarrow> jint \<Rightarrow> bl_routine option" where
  "bl_pt_table mt rule = (if rule = COMPOSITE_SRC_OVER then pt_over_table mt
     else if rule = COMPOSITE_SRC then pt_src_table mt else Some BlitSrc)"

definition el_table :: "jint \<Rightarrow> el_routine option" where
  "el_table rule = Some (if rule = COMPOSITE_SRC_OVER then EmitLineSourceOver else EmitLineSource)"

definition el_pt_table :: "jint \<Rightarrow> el_routine option" where
  "el_pt_table rule = Some (if rule = COMPOSITE_SRC_OVER then EmitLinePTSourceOver
     else if rule = COMPOSITE_SRC then EmitLinePTSource else EmitLineSource)"

definition rows_table :: "jint \<Rightarrow> jint \<Rightarrow> jint \<Rightarrow> bl_routine option" where
  "rows_table mt rule pm = (if pm = PAINT_FLAT_COLOR then bl_table mt rule else bl_pt_table mt rule)"

definition line_table :: "jint \<Rightarrow> jint \<Rightarrow> el_routine option" where
  "line_table rule pm = (if pm = PAINT_FLAT_COLOR then el_table rule else el_pt_table rule)"

definition gen_table :: "jint \<Rightarrow> gen_routine option" where
  "gen_table pm = (if pm = PAINT_LINEAR_GRADIENT then Some GenLinearGradientPaint
     else if pm = PAINT_RADIAL_GRADIENT then Some GenRadialGradientPaint
     else if pm = PAINT_TEXTURE8888 then Some GenTexturePaint
     else if pm = PAINT_TEXTURE8888_MULTIPLY then Some GenTexturePaintMultiply else None)"

text \<open>The levels of the cache, each one determined by the one above.\<close>

definition surface_level :: "'f Renderer \<Rightarrow> bool" where
  "surface_level r \<longleftrightarrow>
     r_bl_SourceOverNoMask r = Some BlitSrcOver \<and> r_bl_PT_SourceOverNoMask r = Some BlitPTSrcOver \<and>
     r_bl_SourceNoMask r = Some BlitSrc \<and> r_bl_PT_SourceNoMask r = Some BlitPTSrc \<and>
     r_bl_SourceOverMask r = Some BlitSrcOverMask \<and> r_bl_PT_SourceOverMask r = Some BlitPTSrcOverMask \<and>
     r_bl_SourceMask r = Some BlitSrcMask \<and> r_bl_PT_SourceMask r = Some BlitPTSrcMask \<and>
     r_bl_SourceOverLCDMask r = Some BlitSrcOverLCDMask \<and> r_bl_PT_SourceOverLCDMask r = None \<and>
     r_bl_SourceLCDMask r = None \<and> r_bl_PT_SourceLCDMask r = None \<and>
     r_bl_Clear r = Some BlitSrc \<and> r_bl_PT_Clear r = Some BlitSrc \<and> r_clearRect r \<and>
     r_el_Source r = Some EmitLineSource \<and> r_el_SourceOver r = Some EmitLineSourceOver \<and>
     r_el_PT_Source r = Some EmitLinePTSource \<and> r_el_PT_SourceOver r = Some EmitLinePTSourceOver"

definition mask_level :: "'f Renderer \<Rightarrow> bool" where
  "mask_level r \<longleftrightarrow> r_bl_SourceOver r = over_table (r_maskType r) \<and>
     r_bl_PT_SourceOver r = pt_over_table (r_maskType r) \<and>
     r_bl_Source r = src_table (r_maskType r) \<and> r_bl_PT_Source r = pt_src_table (r_maskType r)"

definition comp_level :: "'f Renderer \<Rightarrow> bool" where
  "comp_level r \<longleftrightarrow> r_bl r = bl_table (r_maskType r) (r_compositeRule r) \<and>
     r_bl_PT r = bl_pt_table (r_maskType r) (r_compositeRule r) \<and>
     r_el r = el_table (r_compositeRule r) \<and> r_el_PT r = el_pt_table (r_compositeRule r)"

definition paint_level :: "'f Renderer \<Rightarrow> bool" where
  "paint_level r \<longleftrightarrow> r_emitRows r = rows_table (r_maskType r) (r_compositeRule r) (r_paintMode r) \<and>
     r_emitLine r = line_table (r_compositeRule r) (r_paintMode r) \<and> r_genPaint r = gen_table (r_paintMode r)"

definition color_level :: "'f Renderer \<Rightarrow> bool" where
  "color_level r \<longleftrightarrow> (r_cred r, r_cgreen r, r_cblue r, r_calpha r) =
     (if r_compositeRule r = COMPOSITE_CLEAR then (0, 0, 0, 0)
      else (r_ured r, r_ugreen r, r_ublue r, r_ualpha r))"

definition modes_ok :: "'f Renderer \<Rightarrow> bool" where
  "modes_ok r \<longleftrightarrow> r_maskType r \<in> {NO_MASK, ALPHA_MASK, LCD_ALPHA_MASK} \<and>
     r_compositeRule r \<in> {COMPOSITE_CLEAR, COMPOSITE_SRC, COMPOSITE_SRC_OVER} \<and>
     r_paintMode r \<in> {PAINT_FLAT_COLOR, PAINT_LINEAR_GRADIENT, PAINT_RADIAL_GRADIENT, PAINT_TEXTURE8888,
       PAINT_TEXTURE8888_MULTIPLY} \<and> s_imageType (r_surface r) = TYPE_INT_ARGB_PRE"

definition coherent :: "'f Renderer \<Rightarrow> bool" where
  "coherent r \<longleftrightarrow> modes_ok r \<and>
     (r_imageType r = TYPE_INT_ARGB_PRE \<or> marked (r_rendererState r) INVALID_RENDERER_SURFACE) \<and>
     (\<not> marked (r_rendererState r) INVALID_INTERNAL_COLOR \<longrightarrow> color_level r) \<and>
     (r_imageType r = TYPE_INT_ARGB_PRE \<longrightarrow> surface_level r \<and>
       (\<not> marked (r_rendererState r) INVALID_MASK_DEPENDED_ROUTINES \<longrightarrow> mask_level r \<and>
         (\<not> marked (r_rendererState r) INVALID_COMPOSITE_DEPENDED_ROUTINES \<longrightarrow> comp_level r \<and>
           (\<not> marked (r_rendererState r) INVALID_PAINT_DEPENDED_ROUTINES \<longrightarrow> paint_level r))))"

lemmas tables = over_table_def pt_over_table_def src_table_def pt_src_table_def bl_table_def bl_pt_table_def
  el_table_def el_pt_table_def rows_table_def line_table_def gen_table_def
lemmas levels = surface_level_def mask_level_def comp_level_def paint_level_def color_level_def

section \<open>Flags\<close>

lemma or_eq_0: "(a :: int) OR b = 0 \<longleftrightarrow> a = 0 \<and> b = 0"
  by (auto simp: bit_eq_iff bit_simps)

lemma marked_or [simp]: "marked (a OR b) f \<longleftrightarrow> marked a f \<or> marked b f" "marked a (f OR g) \<longleftrightarrow> marked a f \<or> marked a g"
  by (auto simp: marked_def or_eq_0 bit.conj_disj_distrib bit.conj_disj_distrib2)

lemma marked_unmark: "marked (a AND NOT f) g \<longleftrightarrow> marked a (NOT f AND g)"
  by (simp add: marked_def and.assoc)

lemma marked_0 [simp]: "\<not> marked a 0"
  by (simp add: marked_def)

lemma invalid_mask_iff: "marked a INVALID_BLITTING_MASK \<longleftrightarrow> marked a INVALID_INTERNAL_COLOR \<or>
   marked a INVALID_RENDERER_SURFACE \<or> marked a INVALID_COMPOSITE_DEPENDED_ROUTINES \<or>
   marked a INVALID_PAINT_DEPENDED_ROUTINES \<or> marked a INVALID_MASK_DEPENDED_ROUTINES"
  by (simp add: INVALID_BLITTING_MASK_def)

lemma state_mark [simp]: "r_rendererState (mark f r) = r_rendererState r OR f"
  by (simp add: mark_def)

lemma state_unmark [simp]: "r_rendererState (unmark f r) = r_rendererState r AND NOT f"
  by (simp add: unmark_def)

lemma levels_mark [simp]:
  "surface_level (mark f r) = surface_level r" "mask_level (mark f r) = mask_level r"
  "comp_level (mark f r) = comp_level r" "paint_level (mark f r) = paint_level r"
  "color_level (mark f r) = color_level r" "modes_ok (mark f r) = modes_ok r"
  "r_imageType (mark f r) = r_imageType r"
  "surface_level (unmark f r) = surface_level r" "mask_level (unmark f r) = mask_level r"
  "comp_level (unmark f r) = comp_level r" "paint_level (unmark f r) = paint_level r"
  "color_level (unmark f r) = color_level r" "modes_ok (unmark f r) = modes_ok r"
  "r_imageType (unmark f r) = r_imageType r"
  by (simp_all add: mark_def unmark_def levels modes_ok_def)

section \<open>Updates restore the levels\<close>

lemma levels_paint_upd:
  "mask_level (r\<lparr>r_genPaint := a, r_emitRows := b, r_emitLine := c\<rparr>) = mask_level r"
  "surface_level (r\<lparr>r_genPaint := a, r_emitRows := b, r_emitLine := c\<rparr>) = surface_level r"
  "comp_level (r\<lparr>r_genPaint := a, r_emitRows := b, r_emitLine := c\<rparr>) = comp_level r"
  "color_level (r\<lparr>r_genPaint := a, r_emitRows := b, r_emitLine := c\<rparr>) = color_level r"
  "modes_ok (r\<lparr>r_genPaint := a, r_emitRows := b, r_emitLine := c\<rparr>) = modes_ok r"
  by (simp_all add: levels modes_ok_def)

lemma paint_update_frame [simp]:
  "surface_level (updatePaintDependedRoutines r) = surface_level r"
  "mask_level (updatePaintDependedRoutines r) = mask_level r"
  "comp_level (updatePaintDependedRoutines r) = comp_level r"
  "color_level (updatePaintDependedRoutines r) = color_level r"
  "modes_ok (updatePaintDependedRoutines r) = modes_ok r"
  "r_imageType (updatePaintDependedRoutines r) = r_imageType r"
  "r_rendererState (updatePaintDependedRoutines r) = r_rendererState r AND NOT INVALID_PAINT_DEPENDED_ROUTINES"
  by (simp_all add: updatePaintDependedRoutines_def levels_paint_upd)

lemma paint_update:
  assumes "modes_ok r" "comp_level r"
  shows "paint_level (updatePaintDependedRoutines r)"
proof -
  consider "r_paintMode r = 0" | "r_paintMode r = 1" | "r_paintMode r = 2" | "r_paintMode r = 4" | "r_paintMode r = 5"
    using assms(1) unfolding modes_ok_def pisces_consts by blast
  then show ?thesis
    using assms(2) unfolding updatePaintDependedRoutines_def pisces_consts comp_level_def
    by cases (simp_all add: unmark_def paint_level_def rows_table_def line_table_def gen_table_def pisces_consts)
qed

lemma levels_comp_upd:
  "mask_level (r\<lparr>r_bl := a, r_bl_PT := b, r_el := c, r_el_PT := d\<rparr>) = mask_level r"
  "surface_level (r\<lparr>r_bl := a, r_bl_PT := b, r_el := c, r_el_PT := d\<rparr>) = surface_level r"
  "color_level (r\<lparr>r_bl := a, r_bl_PT := b, r_el := c, r_el_PT := d\<rparr>) = color_level r"
  "modes_ok (r\<lparr>r_bl := a, r_bl_PT := b, r_el := c, r_el_PT := d\<rparr>) = modes_ok r"
  by (simp_all add: levels modes_ok_def)

lemma comp_update_frame [simp]:
  "surface_level (updateCompositeDependedRoutines r) = surface_level r"
  "mask_level (updateCompositeDependedRoutines r) = mask_level r"
  "color_level (updateCompositeDependedRoutines r) = color_level r"
  "modes_ok (updateCompositeDependedRoutines r) = modes_ok r"
  "r_imageType (updateCompositeDependedRoutines r) = r_imageType r"
  "r_rendererState (updateCompositeDependedRoutines r) =
     (r_rendererState r AND NOT INVALID_PAINT_DEPENDED_ROUTINES) AND NOT INVALID_COMPOSITE_DEPENDED_ROUTINES"
  by (simp_all add: updateCompositeDependedRoutines_def levels_comp_upd)

lemma comp_update:
  assumes "modes_ok r" "surface_level r" "mask_level r"
  shows "comp_level (updateCompositeDependedRoutines r)" "paint_level (updateCompositeDependedRoutines r)"
proof -
  define q where "q = (if r_compositeRule r = COMPOSITE_SRC_OVER
      then r\<lparr>r_bl := r_bl_SourceOver r, r_bl_PT := r_bl_PT_SourceOver r,
             r_el := r_el_SourceOver r, r_el_PT := r_el_PT_SourceOver r\<rparr>
      else if r_compositeRule r = COMPOSITE_SRC
      then r\<lparr>r_bl := r_bl_Source r, r_bl_PT := r_bl_PT_Source r,
             r_el := r_el_Source r, r_el_PT := r_el_PT_Source r\<rparr>
      else if r_compositeRule r = COMPOSITE_CLEAR
      then r\<lparr>r_bl := r_bl_Clear r, r_bl_PT := r_bl_PT_Clear r,
             r_el := r_el_Source r, r_el_PT := r_el_Source r\<rparr>
      else r)"
  have e: "updateCompositeDependedRoutines r = unmark INVALID_COMPOSITE_DEPENDED_ROUTINES (updatePaintDependedRoutines q)"
    unfolding updateCompositeDependedRoutines_def q_def ..
  consider "r_compositeRule r = 0" | "r_compositeRule r = 1" | "r_compositeRule r = 2"
    using assms(1) unfolding modes_ok_def pisces_consts by blast
  then have "comp_level q"
    using assms(2,3) unfolding q_def pisces_consts surface_level_def mask_level_def
    by cases (simp_all add: comp_level_def bl_table_def bl_pt_table_def el_table_def el_pt_table_def pisces_consts)
  moreover have "modes_ok q" using assms(1) by (simp add: q_def levels_comp_upd)
  ultimately show "comp_level (updateCompositeDependedRoutines r)" "paint_level (updateCompositeDependedRoutines r)"
    unfolding e by (simp_all only: levels_mark paint_update_frame paint_update)
qed

lemma levels_mask_upd:
  "surface_level (r\<lparr>r_bl_SourceOver := a, r_bl_PT_SourceOver := b, r_bl_Source := c, r_bl_PT_Source := d\<rparr>) = surface_level r"
  "color_level (r\<lparr>r_bl_SourceOver := a, r_bl_PT_SourceOver := b, r_bl_Source := c, r_bl_PT_Source := d\<rparr>) = color_level r"
  "modes_ok (r\<lparr>r_bl_SourceOver := a, r_bl_PT_SourceOver := b, r_bl_Source := c, r_bl_PT_Source := d\<rparr>) = modes_ok r"
  by (simp_all add: levels modes_ok_def)

lemma mask_update_frame [simp]:
  "surface_level (updateMaskDependedRoutines r) = surface_level r"
  "color_level (updateMaskDependedRoutines r) = color_level r"
  "modes_ok (updateMaskDependedRoutines r) = modes_ok r"
  "r_imageType (updateMaskDependedRoutines r) = r_imageType r"
  "r_rendererState (updateMaskDependedRoutines r) =
     ((r_rendererState r AND NOT INVALID_PAINT_DEPENDED_ROUTINES) AND NOT INVALID_COMPOSITE_DEPENDED_ROUTINES)
       AND NOT INVALID_MASK_DEPENDED_ROUTINES"
  by (simp_all add: updateMaskDependedRoutines_def levels_mask_upd)

lemma mask_update:
  assumes "modes_ok r" "surface_level r"
  shows "mask_level (updateMaskDependedRoutines r)" "comp_level (updateMaskDependedRoutines r)"
    "paint_level (updateMaskDependedRoutines r)"
proof -
  define q where "q = (if r_maskType r = NO_MASK
      then r\<lparr>r_bl_SourceOver := r_bl_SourceOverNoMask r, r_bl_PT_SourceOver := r_bl_PT_SourceOverNoMask r,
             r_bl_Source := r_bl_SourceNoMask r, r_bl_PT_Source := r_bl_PT_SourceNoMask r\<rparr>
      else if r_maskType r = ALPHA_MASK
      then r\<lparr>r_bl_SourceOver := r_bl_SourceOverMask r, r_bl_PT_SourceOver := r_bl_PT_SourceOverMask r,
             r_bl_Source := r_bl_SourceMask r, r_bl_PT_Source := r_bl_PT_SourceMask r\<rparr>
      else if r_maskType r = LCD_ALPHA_MASK
      then r\<lparr>r_bl_SourceOver := r_bl_SourceOverLCDMask r, r_bl_PT_SourceOver := r_bl_PT_SourceOverLCDMask r,
             r_bl_Source := r_bl_SourceLCDMask r, r_bl_PT_Source := r_bl_PT_SourceLCDMask r\<rparr>
      else r)"
  have e: "updateMaskDependedRoutines r = unmark INVALID_MASK_DEPENDED_ROUTINES (updateCompositeDependedRoutines q)"
    unfolding updateMaskDependedRoutines_def q_def ..
  consider "r_maskType r = 0" | "r_maskType r = 1" | "r_maskType r = 2"
    using assms(1) unfolding modes_ok_def pisces_consts by blast
  then have "mask_level q"
    using assms(2) unfolding q_def pisces_consts surface_level_def
    by cases (simp_all add: mask_level_def over_table_def pt_over_table_def src_table_def pt_src_table_def pisces_consts)
  moreover have "modes_ok q" "surface_level q" using assms by (simp_all add: q_def levels_mask_upd)
  ultimately show "mask_level (updateMaskDependedRoutines r)" "comp_level (updateMaskDependedRoutines r)"
    "paint_level (updateMaskDependedRoutines r)"
    unfolding e by (simp_all only: levels_mark comp_update_frame comp_update)
qed

end
