(* ===== verification/PiscesValidation.thy ===== *)
theory PiscesValidation
  imports PiscesRenderer
begin

text \<open>
  The lazily validated state of the software renderer. Setters mark what they invalidate;
  \<^verbatim>\<open>VALIDATE_BLITTING\<close> brings the marked parts up to date. The invariant \<open>coherent\<close> of
  \<^verbatim>\<open>PiscesRenderer.thy\<close> holds in every reachable state, and after validation the routine that
  draws is the one the routine table selects for the mask, the composite rule and the paint.
\<close>

section \<open>Validation\<close>

lemma surface_update:
  assumes "modes_ok r" "r_imageType r = TYPE_INT_ARGB_PRE"
  shows "surface_level (updateSurfaceDependedRoutines r)" "mask_level (updateSurfaceDependedRoutines r)"
    "comp_level (updateSurfaceDependedRoutines r)" "paint_level (updateSurfaceDependedRoutines r)"
    "modes_ok (updateSurfaceDependedRoutines r)" "r_imageType (updateSurfaceDependedRoutines r) = TYPE_INT_ARGB_PRE"
    "color_level (updateSurfaceDependedRoutines r) = color_level r"
    "r_rendererState (updateSurfaceDependedRoutines r) =
     ((r_rendererState r AND NOT INVALID_PAINT_DEPENDED_ROUTINES) AND NOT INVALID_COMPOSITE_DEPENDED_ROUTINES)
       AND NOT INVALID_MASK_DEPENDED_ROUTINES"
proof -
  define q where "q = r\<lparr>r_bl_SourceOverNoMask := Some BlitSrcOver, r_bl_PT_SourceOverNoMask := Some BlitPTSrcOver,
             r_bl_SourceNoMask := Some BlitSrc, r_bl_PT_SourceNoMask := Some BlitPTSrc,
             r_bl_SourceOverMask := Some BlitSrcOverMask, r_bl_PT_SourceOverMask := Some BlitPTSrcOverMask,
             r_bl_SourceMask := Some BlitSrcMask, r_bl_PT_SourceMask := Some BlitPTSrcMask,
             r_bl_SourceOverLCDMask := Some BlitSrcOverLCDMask, r_bl_PT_SourceOverLCDMask := None,
             r_bl_SourceLCDMask := None, r_bl_PT_SourceLCDMask := None,
             r_bl_Clear := Some BlitSrc, r_bl_PT_Clear := Some BlitSrc, r_clearRect := True,
             r_el_Source := Some EmitLineSource, r_el_SourceOver := Some EmitLineSourceOver,
             r_el_PT_Source := Some EmitLinePTSource, r_el_PT_SourceOver := Some EmitLinePTSourceOver\<rparr>"
  have e: "updateSurfaceDependedRoutines r = updateMaskDependedRoutines q"
    unfolding updateSurfaceDependedRoutines_def q_def using assms(2) by simp
  have q: "surface_level q" "modes_ok q" "r_imageType q = TYPE_INT_ARGB_PRE" "color_level q = color_level r"
    "r_rendererState q = r_rendererState r"
    using assms by (simp_all add: q_def surface_level_def modes_ok_def color_level_def)
  show "surface_level (updateSurfaceDependedRoutines r)" "mask_level (updateSurfaceDependedRoutines r)"
    "comp_level (updateSurfaceDependedRoutines r)" "paint_level (updateSurfaceDependedRoutines r)"
    "modes_ok (updateSurfaceDependedRoutines r)" "r_imageType (updateSurfaceDependedRoutines r) = TYPE_INT_ARGB_PRE"
    "color_level (updateSurfaceDependedRoutines r) = color_level r"
    "r_rendererState (updateSurfaceDependedRoutines r) =
     ((r_rendererState r AND NOT INVALID_PAINT_DEPENDED_ROUTINES) AND NOT INVALID_COMPOSITE_DEPENDED_ROUTINES)
       AND NOT INVALID_MASK_DEPENDED_ROUTINES"
    unfolding e using q mask_update [OF q(2,1)] by simp_all
qed

text \<open>What the update of the surface view establishes. A level that the saved state does not mark is
  valid afterwards.\<close>

definition view_ok :: "'f Renderer \<Rightarrow> bool" where
  "view_ok r \<longleftrightarrow> r_width r = s_width (r_surface r) \<and> r_height r = s_height (r_surface r) \<and>
     r_data r = s_data (r_surface r) \<and> r_imageOffset r = s_offset (r_surface r) \<and>
     r_imageScanlineStride r = s_scanlineStride (r_surface r) \<and> r_imagePixelStride r = s_pixelStride (r_surface r)"

definition valid_below :: "int \<Rightarrow> 'f Renderer \<Rightarrow> bool" where
  "valid_below st r \<longleftrightarrow> modes_ok r \<and> r_imageType r = TYPE_INT_ARGB_PRE \<and> surface_level r \<and>
     (\<not> marked st INVALID_MASK_DEPENDED_ROUTINES \<longrightarrow> mask_level r \<and>
       (\<not> marked st INVALID_COMPOSITE_DEPENDED_ROUTINES \<longrightarrow> comp_level r \<and>
         (\<not> marked st INVALID_PAINT_DEPENDED_ROUTINES \<longrightarrow> paint_level r)))"

lemma levels_view_upd:
  fixes r :: "'f Renderer" and a b c d e f
  shows "surface_level (r\<lparr>r_width := a, r_height := b, r_data := c, r_imageOffset := d, r_imageScanlineStride := e,
                r_imagePixelStride := f\<rparr>) = surface_level r"
    "mask_level (r\<lparr>r_width := a, r_height := b, r_data := c, r_imageOffset := d, r_imageScanlineStride := e,
                r_imagePixelStride := f\<rparr>) = mask_level r"
    "comp_level (r\<lparr>r_width := a, r_height := b, r_data := c, r_imageOffset := d, r_imageScanlineStride := e,
                r_imagePixelStride := f\<rparr>) = comp_level r"
    "paint_level (r\<lparr>r_width := a, r_height := b, r_data := c, r_imageOffset := d, r_imageScanlineStride := e,
                r_imagePixelStride := f\<rparr>) = paint_level r"
    "color_level (r\<lparr>r_width := a, r_height := b, r_data := c, r_imageOffset := d, r_imageScanlineStride := e,
                r_imagePixelStride := f\<rparr>) = color_level r"
    "modes_ok (r\<lparr>r_width := a, r_height := b, r_data := c, r_imageOffset := d, r_imageScanlineStride := e,
                r_imagePixelStride := f\<rparr>) = modes_ok r"
  by (simp_all add: levels modes_ok_def)

lemma levels_type_upd:
  "color_level (r\<lparr>r_imageType := t\<rparr>) = color_level r" "modes_ok (r\<lparr>r_imageType := t\<rparr>) = modes_ok r"
  by (simp_all add: levels modes_ok_def)

lemma levels_color_upd:
  "surface_level (r\<lparr>r_cred := a, r_cgreen := b, r_cblue := c, r_calpha := d\<rparr>) = surface_level r"
  "mask_level (r\<lparr>r_cred := a, r_cgreen := b, r_cblue := c, r_calpha := d\<rparr>) = mask_level r"
  "comp_level (r\<lparr>r_cred := a, r_cgreen := b, r_cblue := c, r_calpha := d\<rparr>) = comp_level r"
  "paint_level (r\<lparr>r_cred := a, r_cgreen := b, r_cblue := c, r_calpha := d\<rparr>) = paint_level r"
  "modes_ok (r\<lparr>r_cred := a, r_cgreen := b, r_cblue := c, r_calpha := d\<rparr>) = modes_ok r"
  by (simp_all add: levels modes_ok_def)

lemma color_update:
  "color_level (updateInternalColor r)"
  "surface_level (updateInternalColor r) = surface_level r" "mask_level (updateInternalColor r) = mask_level r"
  "comp_level (updateInternalColor r) = comp_level r" "paint_level (updateInternalColor r) = paint_level r"
  "modes_ok (updateInternalColor r) = modes_ok r" "r_imageType (updateInternalColor r) = r_imageType r"
  "r_rendererState (updateInternalColor r) = r_rendererState r AND NOT INVALID_INTERNAL_COLOR"
  by (simp_all add: updateInternalColor_def levels_color_upd) (simp_all add: color_level_def)

text \<open>How one flag reacts to the removal of another one.\<close>

lemma flag_other:
  "NOT INVALID_INTERNAL_COLOR AND INVALID_INTERNAL_COLOR = 0"
  "NOT INVALID_INTERNAL_COLOR AND INVALID_RENDERER_SURFACE = INVALID_RENDERER_SURFACE"
  "NOT INVALID_INTERNAL_COLOR AND INVALID_COMPOSITE_DEPENDED_ROUTINES = INVALID_COMPOSITE_DEPENDED_ROUTINES"
  "NOT INVALID_INTERNAL_COLOR AND INVALID_PAINT_DEPENDED_ROUTINES = INVALID_PAINT_DEPENDED_ROUTINES"
  "NOT INVALID_INTERNAL_COLOR AND INVALID_MASK_DEPENDED_ROUTINES = INVALID_MASK_DEPENDED_ROUTINES"
  "NOT INVALID_RENDERER_SURFACE AND INVALID_INTERNAL_COLOR = INVALID_INTERNAL_COLOR"
  "NOT INVALID_RENDERER_SURFACE AND INVALID_RENDERER_SURFACE = 0"
  "NOT INVALID_RENDERER_SURFACE AND INVALID_COMPOSITE_DEPENDED_ROUTINES = INVALID_COMPOSITE_DEPENDED_ROUTINES"
  "NOT INVALID_RENDERER_SURFACE AND INVALID_PAINT_DEPENDED_ROUTINES = INVALID_PAINT_DEPENDED_ROUTINES"
  "NOT INVALID_RENDERER_SURFACE AND INVALID_MASK_DEPENDED_ROUTINES = INVALID_MASK_DEPENDED_ROUTINES"
  "NOT INVALID_COMPOSITE_DEPENDED_ROUTINES AND INVALID_INTERNAL_COLOR = INVALID_INTERNAL_COLOR"
  "NOT INVALID_COMPOSITE_DEPENDED_ROUTINES AND INVALID_RENDERER_SURFACE = INVALID_RENDERER_SURFACE"
  "NOT INVALID_COMPOSITE_DEPENDED_ROUTINES AND INVALID_COMPOSITE_DEPENDED_ROUTINES = 0"
  "NOT INVALID_COMPOSITE_DEPENDED_ROUTINES AND INVALID_PAINT_DEPENDED_ROUTINES = INVALID_PAINT_DEPENDED_ROUTINES"
  "NOT INVALID_COMPOSITE_DEPENDED_ROUTINES AND INVALID_MASK_DEPENDED_ROUTINES = INVALID_MASK_DEPENDED_ROUTINES"
  "NOT INVALID_PAINT_DEPENDED_ROUTINES AND INVALID_INTERNAL_COLOR = INVALID_INTERNAL_COLOR"
  "NOT INVALID_PAINT_DEPENDED_ROUTINES AND INVALID_RENDERER_SURFACE = INVALID_RENDERER_SURFACE"
  "NOT INVALID_PAINT_DEPENDED_ROUTINES AND INVALID_COMPOSITE_DEPENDED_ROUTINES = INVALID_COMPOSITE_DEPENDED_ROUTINES"
  "NOT INVALID_PAINT_DEPENDED_ROUTINES AND INVALID_PAINT_DEPENDED_ROUTINES = 0"
  "NOT INVALID_PAINT_DEPENDED_ROUTINES AND INVALID_MASK_DEPENDED_ROUTINES = INVALID_MASK_DEPENDED_ROUTINES"
  "NOT INVALID_MASK_DEPENDED_ROUTINES AND INVALID_INTERNAL_COLOR = INVALID_INTERNAL_COLOR"
  "NOT INVALID_MASK_DEPENDED_ROUTINES AND INVALID_RENDERER_SURFACE = INVALID_RENDERER_SURFACE"
  "NOT INVALID_MASK_DEPENDED_ROUTINES AND INVALID_COMPOSITE_DEPENDED_ROUTINES = INVALID_COMPOSITE_DEPENDED_ROUTINES"
  "NOT INVALID_MASK_DEPENDED_ROUTINES AND INVALID_PAINT_DEPENDED_ROUTINES = INVALID_PAINT_DEPENDED_ROUTINES"
  "NOT INVALID_MASK_DEPENDED_ROUTINES AND INVALID_MASK_DEPENDED_ROUTINES = 0"
  by (simp_all add: invalid_defs)

lemma flag_alpha_map:
  "\<not> marked INVALID_COLOR_ALPHA_MAP INVALID_INTERNAL_COLOR" "\<not> marked INVALID_PAINT_ALPHA_MAP INVALID_INTERNAL_COLOR"
  "\<not> marked INVALID_COLOR_ALPHA_MAP INVALID_RENDERER_SURFACE" "\<not> marked INVALID_PAINT_ALPHA_MAP INVALID_RENDERER_SURFACE"
  "\<not> marked INVALID_COLOR_ALPHA_MAP INVALID_COMPOSITE_DEPENDED_ROUTINES" "\<not> marked INVALID_PAINT_ALPHA_MAP INVALID_COMPOSITE_DEPENDED_ROUTINES"
  "\<not> marked INVALID_COLOR_ALPHA_MAP INVALID_PAINT_DEPENDED_ROUTINES" "\<not> marked INVALID_PAINT_ALPHA_MAP INVALID_PAINT_DEPENDED_ROUTINES"
  "\<not> marked INVALID_COLOR_ALPHA_MAP INVALID_MASK_DEPENDED_ROUTINES" "\<not> marked INVALID_PAINT_ALPHA_MAP INVALID_MASK_DEPENDED_ROUTINES"
  by (simp_all add: invalid_defs marked_def)

lemmas flags = marked_unmark flag_other flag_alpha_map

text \<open>The flags of \<open>q\<close> among those that blitting depends on are the flags of \<open>r\<close> without the surface.\<close>

definition flags_from :: "int \<Rightarrow> int \<Rightarrow> bool" where
  "flags_from st st' \<longleftrightarrow> \<not> marked st' INVALID_RENDERER_SURFACE \<and>
     (\<forall>f \<in> {INVALID_INTERNAL_COLOR, INVALID_COMPOSITE_DEPENDED_ROUTINES, INVALID_PAINT_DEPENDED_ROUTINES,
        INVALID_MASK_DEPENDED_ROUTINES}. marked st' f \<longrightarrow> marked st f)"

lemma surface_view_update:
  assumes "coherent r"
  defines "q \<equiv> updateRendererSurface r"
  shows "valid_below (r_rendererState r) q" "color_level q = color_level r"
    "flags_from (r_rendererState r) (r_rendererState q)"
proof -
  have m: "modes_ok r" and st: "s_imageType (r_surface r) = TYPE_INT_ARGB_PRE"
    using assms(1) by (auto simp: coherent_def modes_ok_def)
  define v where "v = r\<lparr>r_width := s_width (r_surface r), r_height := s_height (r_surface r), r_data := s_data (r_surface r),
                r_imageOffset := s_offset (r_surface r), r_imageScanlineStride := s_scanlineStride (r_surface r),
                r_imagePixelStride := s_pixelStride (r_surface r)\<rparr>"
  have lv: "surface_level v = surface_level r" "mask_level v = mask_level r" "comp_level v = comp_level r"
    "paint_level v = paint_level r" "color_level v = color_level r" "modes_ok v = modes_ok r"
    "r_rendererState v = r_rendererState r" "r_imageType v = r_imageType r" "r_compositeRule v = r_compositeRule r"
    unfolding v_def by (simp_all only: levels_view_upd, simp_all)
  have "valid_below (r_rendererState r) q \<and> color_level q = color_level r \<and> flags_from (r_rendererState r) (r_rendererState q)"
  proof (cases "r_imageType r = TYPE_INT_ARGB_PRE")
    case True
    have "q = unmark INVALID_RENDERER_SURFACE v"
      unfolding q_def updateRendererSurface_def Let_def v_def using st True by simp
    then show ?thesis
      using assms(1) True m by (simp add: coherent_def valid_below_def lv flags_from_def flags)
  next
    case False
    define u where "u = (if r_compositeRule v \<noteq> COMPOSITE_SRC_OVER
       then mark (INVALID_COLOR_ALPHA_MAP OR INVALID_PAINT_ALPHA_MAP) v else v)\<lparr>r_imageType := TYPE_INT_ARGB_PRE\<rparr>"
    have q: "q = unmark INVALID_RENDERER_SURFACE (updateSurfaceDependedRoutines u)"
      unfolding q_def updateRendererSurface_def Let_def u_def v_def using st False by simp
    have u: "modes_ok u" "r_imageType u = TYPE_INT_ARGB_PRE" "color_level u = color_level r"
      using m by (simp_all add: u_def levels_type_upd lv)
    have f: "flags_from (r_rendererState r) (r_rendererState (unmark INVALID_RENDERER_SURFACE u))"
      unfolding flags_from_def u_def by (simp add: lv flags)
    show ?thesis
      unfolding q using surface_update [OF u(1,2)] u(3) f by (simp add: valid_below_def flags_from_def flags)
  qed
  then show "valid_below (r_rendererState r) q" "color_level q = color_level r"
    "flags_from (r_rendererState r) (r_rendererState q)" by blast+
qed

lemma flags_validated:
  assumes "flags_from st st'"
  shows "\<not> marked st' INVALID_RENDERER_SURFACE"
    "marked st' INVALID_INTERNAL_COLOR \<Longrightarrow> marked st INVALID_INTERNAL_COLOR"
    "marked st' INVALID_COMPOSITE_DEPENDED_ROUTINES \<Longrightarrow> marked st INVALID_COMPOSITE_DEPENDED_ROUTINES"
    "marked st' INVALID_PAINT_DEPENDED_ROUTINES \<Longrightarrow> marked st INVALID_PAINT_DEPENDED_ROUTINES"
    "marked st' INVALID_MASK_DEPENDED_ROUTINES \<Longrightarrow> marked st INVALID_MASK_DEPENDED_ROUTINES"
  using assms by (simp_all add: flags_from_def)

text \<open>The two steps that come before the routines are selected.\<close>

lemma surface_step:
  assumes "coherent r"
  defines "q \<equiv> if marked (r_rendererState r) INVALID_RENDERER_SURFACE then updateRendererSurface r else r"
  shows "valid_below (r_rendererState r) q" "color_level q = color_level r"
    "flags_from (r_rendererState r) (r_rendererState q)"
  using surface_view_update [OF assms(1)] assms(1)
  by (auto simp: q_def coherent_def valid_below_def flags_from_def)

lemma color_step:
  assumes "coherent r"
  defines "p \<equiv> if marked (r_rendererState r) INVALID_RENDERER_SURFACE then updateRendererSurface r else r"
  defines "q \<equiv> if marked (r_rendererState r) INVALID_INTERNAL_COLOR then updateInternalColor p else p"
  shows "valid_below (r_rendererState r) q" "color_level q"
    "flags_from (r_rendererState r) (r_rendererState q)" "\<not> marked (r_rendererState q) INVALID_INTERNAL_COLOR"
proof -
  note s = surface_step [OF assms(1), folded p_def]
  have c: "\<not> marked (r_rendererState r) INVALID_INTERNAL_COLOR \<Longrightarrow> color_level r"
    using assms(1) by (simp add: coherent_def)
  show "valid_below (r_rendererState r) q" "color_level q"
    using s(1,2) c by (auto simp: q_def valid_below_def color_update)
  show "flags_from (r_rendererState r) (r_rendererState q)" "\<not> marked (r_rendererState q) INVALID_INTERNAL_COLOR"
    using s(3) by (auto simp: q_def flags_from_def color_update flags)
qed

definition validated :: "'f Renderer \<Rightarrow> bool" where
  "validated r \<longleftrightarrow> \<not> marked (r_rendererState r) INVALID_BLITTING_MASK \<and> r_imageType r = TYPE_INT_ARGB_PRE \<and>
     modes_ok r \<and> surface_level r \<and> mask_level r \<and> comp_level r \<and> paint_level r \<and> color_level r"

lemma validated_coherent: "validated r \<Longrightarrow> coherent r"
  by (simp add: validated_def coherent_def)

lemma VALIDATE_BLITTING_validated:
  assumes "coherent r"
  shows "validated (VALIDATE_BLITTING r)"
proof (cases "marked (r_rendererState r) INVALID_BLITTING_MASK")
  case False
  then show ?thesis
    using assms by (simp add: VALIDATE_BLITTING_def validated_def coherent_def invalid_mask_iff)
next
  case True
  define p where "p = (if marked (r_rendererState r) INVALID_RENDERER_SURFACE then updateRendererSurface r else r)"
  define q where "q = (if marked (r_rendererState r) INVALID_INTERNAL_COLOR then updateInternalColor p else p)"
  note q = color_step [OF assms, folded p_def, folded q_def]
  have e: "VALIDATE_BLITTING r = (let st = r_rendererState r in
      if marked st INVALID_MASK_DEPENDED_ROUTINES then updateMaskDependedRoutines q
      else if marked st INVALID_COMPOSITE_DEPENDED_ROUTINES then updateCompositeDependedRoutines q
      else if marked st INVALID_PAINT_DEPENDED_ROUTINES then updatePaintDependedRoutines q else q)"
    using True by (simp add: VALIDATE_BLITTING_def Let_def p_def q_def)
  have v: "modes_ok q" "r_imageType q = TYPE_INT_ARGB_PRE" "surface_level q"
    using q(1) by (simp_all add: valid_below_def)
  note f = flags_validated [OF q(3)]
  consider (m) "marked (r_rendererState r) INVALID_MASK_DEPENDED_ROUTINES"
    | (c) "\<not> marked (r_rendererState r) INVALID_MASK_DEPENDED_ROUTINES" "marked (r_rendererState r) INVALID_COMPOSITE_DEPENDED_ROUTINES"
    | (p) "\<not> marked (r_rendererState r) INVALID_MASK_DEPENDED_ROUTINES"
        "\<not> marked (r_rendererState r) INVALID_COMPOSITE_DEPENDED_ROUTINES" "marked (r_rendererState r) INVALID_PAINT_DEPENDED_ROUTINES"
    | (n) "\<not> marked (r_rendererState r) INVALID_MASK_DEPENDED_ROUTINES"
        "\<not> marked (r_rendererState r) INVALID_COMPOSITE_DEPENDED_ROUTINES" "\<not> marked (r_rendererState r) INVALID_PAINT_DEPENDED_ROUTINES"
    by blast
  then show ?thesis
  proof cases
    case m
    then have "VALIDATE_BLITTING r = updateMaskDependedRoutines q" unfolding e by simp
    then show ?thesis
      using v q(2,4) f(1) mask_update [OF v(1,3)] by (simp add: validated_def invalid_mask_iff flags)
  next
    case c
    then have "VALIDATE_BLITTING r = updateCompositeDependedRoutines q" "mask_level q"
      using q(1) unfolding e by (simp_all add: valid_below_def)
    then show ?thesis
      using v q(2,4) f(1) f(5) c(1) comp_update [OF v(1,3)] by (auto simp add: validated_def invalid_mask_iff flags)
  next
    case p
    then have "VALIDATE_BLITTING r = updatePaintDependedRoutines q" "mask_level q" "comp_level q"
      using q(1) unfolding e by (simp_all add: valid_below_def)
    then show ?thesis
      using v q(2,4) f(1) f(3,5) p(1,2) paint_update [OF v(1)] by (auto simp add: validated_def invalid_mask_iff flags)
  next
    case n
    then have "VALIDATE_BLITTING r = q" "mask_level q" "comp_level q" "paint_level q"
      using q(1) unfolding e by (simp_all add: valid_below_def)
    then show ?thesis
      using v q(2,4) f(1) f(3,4,5) n by (auto simp add: validated_def invalid_mask_iff)
  qed
qed

section \<open>Setters keep the invariant\<close>

lemma createCommon_coherent:
  assumes "s_imageType sf = TYPE_INT_ARGB_PRE"
  shows "coherent (createCommon z sf)"
proof -
  have "modes_ok (createCommon z sf)"
    using assms by (simp add: createCommon_def modes_ok_def)
  moreover have "marked INVALID_ALL INVALID_RENDERER_SURFACE" "marked INVALID_ALL INVALID_INTERNAL_COLOR"
    by (simp_all add: invalid_defs marked_def)
  moreover have "r_imageType (createCommon z sf) \<noteq> TYPE_INT_ARGB_PRE" "r_rendererState (createCommon z sf) = INVALID_ALL"
    by (simp_all add: createCommon_def pisces_consts)
  ultimately show ?thesis by (simp add: coherent_def)
qed

text \<open>A state with the same modes, flags and derived fields is coherent as well.\<close>

lemma coherent_cong:
  assumes "surface_level q = surface_level r" "mask_level q = mask_level r" "comp_level q = comp_level r"
    "paint_level q = paint_level r" "color_level q = color_level r" "modes_ok q = modes_ok r"
    "r_imageType q = r_imageType r" "r_rendererState q = r_rendererState r"
  shows "coherent q = coherent r"
  using assms by (simp add: coherent_def)

lemma flag_self:
  "marked INVALID_INTERNAL_COLOR INVALID_INTERNAL_COLOR" "marked INVALID_RENDERER_SURFACE INVALID_RENDERER_SURFACE"
  "marked INVALID_COMPOSITE_DEPENDED_ROUTINES INVALID_COMPOSITE_DEPENDED_ROUTINES"
  "marked INVALID_PAINT_DEPENDED_ROUTINES INVALID_PAINT_DEPENDED_ROUTINES"
  "marked INVALID_MASK_DEPENDED_ROUTINES INVALID_MASK_DEPENDED_ROUTINES"
  by (simp_all add: invalid_defs marked_def)

lemma setClip_coherent: "coherent (renderer_setClip a b c d r) = coherent r"
  by (rule coherent_cong) (simp_all add: renderer_setClip_def levels modes_ok_def)

lemma setPaintMode_coherent:
  assumes "coherent r" "pm \<in> {PAINT_FLAT_COLOR, PAINT_LINEAR_GRADIENT, PAINT_RADIAL_GRADIENT, PAINT_TEXTURE8888,
       PAINT_TEXTURE8888_MULTIPLY}"
  shows "coherent (setPaintMode pm r)"
proof (cases "r_paintMode r = pm")
  case False
  define q where "q = setPaintMode pm r"
  have q: "surface_level q = surface_level r" "mask_level q = mask_level r" "comp_level q = comp_level r"
    "color_level q = color_level r" "r_imageType q = r_imageType r"
    "r_rendererState q = r_rendererState r OR INVALID_PAINT_DEPENDED_ROUTINES"
    unfolding q_def setPaintMode_def using False by (simp_all add: mark_def levels)
  have "modes_ok q"
    using assms unfolding q_def setPaintMode_def modes_ok_def coherent_def using False by (simp add: mark_def)
  then show ?thesis
    using assms(1) unfolding q_def [symmetric] by (auto simp add: coherent_def q flag_self)
qed (use assms in \<open>simp add: setPaintMode_def\<close>)


lemma coherent_color_upd:
  assumes "coherent r" "marked (r_rendererState r) INVALID_INTERNAL_COLOR"
  shows "coherent (r\<lparr>r_ured := a, r_ugreen := b, r_ublue := c, r_ualpha := d\<rparr>)"
proof -
  define q where "q = r\<lparr>r_ured := a, r_ugreen := b, r_ublue := c, r_ualpha := d\<rparr>"
  have "surface_level q = surface_level r" "mask_level q = mask_level r" "comp_level q = comp_level r"
    "paint_level q = paint_level r" "modes_ok q = modes_ok r" "r_imageType q = r_imageType r"
    "r_rendererState q = r_rendererState r"
    unfolding q_def by (simp_all add: levels modes_ok_def)
  then show ?thesis using assms unfolding q_def [symmetric] by (simp add: coherent_def)
qed

lemma coherent_mark: "coherent r \<Longrightarrow> coherent (mark f r)"
  by (auto simp add: coherent_def)

lemma setColor_coherent:
  assumes "coherent r"
  shows "coherent (renderer_setColor red green blue alpha r)"
  unfolding renderer_setColor_def Let_def
  by (rule setPaintMode_coherent)
    (use assms in \<open>auto intro!: coherent_color_upd coherent_mark simp: flag_self\<close>)

lemma setCompositeRule_coherent:
  assumes "coherent r" "rule \<in> {COMPOSITE_CLEAR, COMPOSITE_SRC, COMPOSITE_SRC_OVER}"
  shows "coherent (renderer_setCompositeRule rule r)"
proof (cases "r_compositeRule r = rule")
  case False
  define p where "p = mark (INVALID_INTERNAL_COLOR OR INVALID_COMPOSITE_DEPENDED_ROUTINES) r"
  define p' where "p' = (if rule = COMPOSITE_SRC_OVER \<or> (rule = COMPOSITE_CLEAR \<or> rule = COMPOSITE_SRC) \<and>
                        r_imageType p = TYPE_INT_ARGB_PRE
                     then mark (INVALID_COLOR_ALPHA_MAP OR INVALID_PAINT_ALPHA_MAP) p else p)"
  define q where "q = p'\<lparr>r_compositeRule := rule\<rparr>"
  have e: "renderer_setCompositeRule rule r = q"
    unfolding renderer_setCompositeRule_def Let_def p_def p'_def q_def using False by (simp only: if_True not_False_eq_True)
  have p: "coherent p'" "marked (r_rendererState p') INVALID_INTERNAL_COLOR"
    "marked (r_rendererState p') INVALID_COMPOSITE_DEPENDED_ROUTINES"
    using assms(1) by (auto simp: p'_def p_def coherent_mark flag_self)
  have q: "surface_level q = surface_level p'" "mask_level q = mask_level p'" "r_imageType q = r_imageType p'"
    "r_rendererState q = r_rendererState p'"
    unfolding q_def by (simp_all add: levels)
  have "modes_ok q" using p(1) assms(2) by (simp add: q_def coherent_def modes_ok_def)
  then show ?thesis unfolding e using p by (simp add: coherent_def q)
qed (use assms in \<open>simp add: renderer_setCompositeRule_def\<close>)

lemma coherent_mask_upd:
  assumes "coherent r" "mt \<in> {NO_MASK, ALPHA_MASK, LCD_ALPHA_MASK}"
  shows "coherent (mark (INVALID_BLITTING_MASK OR INVALID_MASK_DEPENDED_ROUTINES)
    (r\<lparr>r_mask_free := fd, r_maskType := mt, r_mask_byteData := d, r_mask_width := w, r_mask_height := h\<rparr>))"
proof -
  define q where "q = r\<lparr>r_mask_free := fd, r_maskType := mt, r_mask_byteData := d, r_mask_width := w, r_mask_height := h\<rparr>"
  have q: "surface_level q = surface_level r" "color_level q = color_level r" "r_imageType q = r_imageType r"
    "r_rendererState q = r_rendererState r"
    unfolding q_def by (simp_all add: levels)
  have "modes_ok q" using assms by (simp add: q_def coherent_def modes_ok_def)
  then show ?thesis
    unfolding q_def [symmetric] using assms(1) by (auto simp add: coherent_def q flag_self)
qed

lemma setMask_coherent:
  assumes "coherent r" "mt \<in> {NO_MASK, ALPHA_MASK, LCD_ALPHA_MASK}"
  shows "coherent (renderer_setMask mt d w h fd r)"
  unfolding renderer_setMask_def by (rule coherent_mask_upd [OF assms])

lemma removeMask_coherent:
  assumes "coherent r"
  shows "coherent (renderer_removeMask r)"
proof -
  have "r\<lparr>r_maskType := NO_MASK, r_mask_byteData := []\<rparr> =
    r\<lparr>r_mask_free := r_mask_free r, r_maskType := NO_MASK, r_mask_byteData := [], r_mask_width := r_mask_width r,
      r_mask_height := r_mask_height r\<rparr>" by simp
  then show ?thesis
    unfolding renderer_removeMask_def by (simp only:) (rule coherent_mask_upd [OF assms], simp)
qed


lemma setLinearGradient_coherent:
  assumes "coherent r"
  shows "coherent (renderer_setLinearGradient F x0 y0 x1 y1 cs t r)"
proof -
  have 1: "coherent (q\<lparr>r_gradient_colors := c\<rparr>) = coherent q" for q :: "'a Renderer" and c
    by (rule coherent_cong) (simp_all add: levels modes_ok_def)
  have 2: "coherent (r\<lparr>r_lg_mx := a, r_lg_my := b, r_lg_b := c\<rparr>)" for a b c
    using assms by (subst coherent_cong [of _ r]) (simp_all add: levels modes_ok_def)
  show ?thesis
    unfolding renderer_setLinearGradient_def Let_def 1 by (rule setPaintMode_coherent [OF 2]) simp
qed

lemma setRadialGradient_coherent:
  assumes "coherent r"
  shows "coherent (renderer_setRadialGradient F cx cy fx fy rad cs t r)"
proof -
  have 1: "coherent (q\<lparr>r_gradient_colors := c\<rparr>) = coherent q" for q :: "'a Renderer" and c
    by (rule coherent_cong) (simp_all add: levels modes_ok_def)
  have 2: "coherent (r\<lparr>r_rg_a00 := a00, r_rg_a01 := a01, r_rg_a02 := a02, r_rg_a10 := a10, r_rg_a11 := a11, r_rg_a12 := a12,
      r_rg_a00a00 := b, r_rg_a10a10 := c, r_rg_a00a10 := d, r_rg_r := rr, r_rg_rsq := rsq, r_rg_cx := cx', r_rg_cy := cy',
      r_rg_fx := fx', r_rg_fy := fy'\<rparr>)" for a00 a01 a02 a10 a11 a12 b c d rr rsq cx' cy' fx' fy'
    using assms by (subst coherent_cong [of _ r]) (simp_all add: levels modes_ok_def)
  show ?thesis
    unfolding renderer_setRadialGradient_def Let_def split_beta 1 by (rule setPaintMode_coherent [OF 2]) simp
qed

lemma texture_smooth_coherent: "coherent (texture_smooth b r) = coherent r"
  by (rule coherent_cong) (simp_all add: texture_smooth_def levels modes_ok_def)

lemma texture_kind_coherent: "coherent (texture_kind r) = coherent r"
  by (rule coherent_cong) (simp_all add: texture_kind_def levels modes_ok_def)

lemma setTexture_coherent:
  assumes "coherent r"
  shows "coherent (renderer_setTexture F mode d w h st rep sm t fd al x0 y0 x1 y1 r)"
proof -
  define p where "p = setPaintMode (if mode = IMAGE_MODE_NORMAL then PAINT_TEXTURE8888
                            else PAINT_TEXTURE8888_MULTIPLY) r"
  have "coherent p" unfolding p_def by (rule setPaintMode_coherent [OF assms]) simp
  then show ?thesis
    unfolding renderer_setTexture_def p_def [symmetric] Let_def texture_kind_coherent texture_smooth_coherent
    by (subst coherent_cong [of _ p]) (simp_all add: levels modes_ok_def)
qed

lemma surface_coherent:
  assumes "coherent r" "s_imageType sf = TYPE_INT_ARGB_PRE"
  shows "coherent (INVALIDATE_RENDERER_SURFACE (r\<lparr>r_surface := sf\<rparr>))"
proof -
  define q where "q = r\<lparr>r_surface := sf\<rparr>"
  have q: "surface_level q = surface_level r" "mask_level q = mask_level r" "comp_level q = comp_level r"
    "paint_level q = paint_level r" "color_level q = color_level r" "r_imageType q = r_imageType r"
    "r_rendererState q = r_rendererState r"
    unfolding q_def by (simp_all add: levels)
  have "modes_ok q" using assms by (simp add: q_def coherent_def modes_ok_def)
  then show ?thesis
    unfolding INVALIDATE_RENDERER_SURFACE_def q_def [symmetric] using assms(1)
    by (auto simp add: coherent_def q flag_self)
qed


section \<open>Reachable states\<close>

text \<open>The states that the calls of the renderer interface produce. A call that draws first replaces the
  surface by the acquired one and marks it, then validates.\<close>

inductive reachable :: "'f fops \<Rightarrow> 'f Renderer \<Rightarrow> bool" for F :: "'f fops" where
  create: "s_imageType sf = TYPE_INT_ARGB_PRE \<Longrightarrow> reachable F (createCommon z sf)"
| clip: "reachable F r \<Longrightarrow> reachable F (renderer_setClip x y w h r)"
| color: "reachable F r \<Longrightarrow> reachable F (renderer_setColor red green blue alpha r)"
| rule: "reachable F r \<Longrightarrow> cr \<in> {COMPOSITE_CLEAR, COMPOSITE_SRC, COMPOSITE_SRC_OVER} \<Longrightarrow>
    reachable F (renderer_setCompositeRule cr r)"
| linear: "reachable F r \<Longrightarrow> reachable F (renderer_setLinearGradient F x0 y0 x1 y1 colors t r)"
| radial: "reachable F r \<Longrightarrow> reachable F (renderer_setRadialGradient F cx cy fx fy radius colors t r)"
| texture: "reachable F r \<Longrightarrow> reachable F (renderer_setTexture F mode d w h st rep sm t fd al x0 y0 x1 y1 r)"
| mask: "reachable F r \<Longrightarrow> mt \<in> {NO_MASK, ALPHA_MASK, LCD_ALPHA_MASK} \<Longrightarrow>
    reachable F (renderer_setMask mt md w h fd r)"
| unmask: "reachable F r \<Longrightarrow> reachable F (renderer_removeMask r)"
| surface: "reachable F r \<Longrightarrow> s_imageType sf = TYPE_INT_ARGB_PRE \<Longrightarrow>
    reachable F (INVALIDATE_RENDERER_SURFACE (r\<lparr>r_surface := sf\<rparr>))"
| validate: "reachable F r \<Longrightarrow> reachable F (VALIDATE_BLITTING r)"

lemma reachable_coherent: "reachable F r \<Longrightarrow> coherent r"
proof (induction rule: reachable.induct)
  case (validate r)
  then show ?case using VALIDATE_BLITTING_validated validated_coherent by blast
qed (simp_all add: createCommon_coherent setClip_coherent setColor_coherent setCompositeRule_coherent
  setLinearGradient_coherent setRadialGradient_coherent setTexture_coherent setMask_coherent removeMask_coherent
  surface_coherent)

section \<open>What validation leaves alone\<close>

lemma paint_update_rest [simp]:
  "r_maskType (updatePaintDependedRoutines r) = r_maskType r"
  "r_compositeRule (updatePaintDependedRoutines r) = r_compositeRule r"
  "r_paintMode (updatePaintDependedRoutines r) = r_paintMode r"
  "r_surface (updatePaintDependedRoutines r) = r_surface r"
  "r_ured (updatePaintDependedRoutines r) = r_ured r"
  "r_ugreen (updatePaintDependedRoutines r) = r_ugreen r"
  "r_ublue (updatePaintDependedRoutines r) = r_ublue r"
  "r_ualpha (updatePaintDependedRoutines r) = r_ualpha r"
  "r_clip_bbMinX (updatePaintDependedRoutines r) = r_clip_bbMinX r"
  "r_clip_bbMinY (updatePaintDependedRoutines r) = r_clip_bbMinY r"
  "r_clip_bbMaxX (updatePaintDependedRoutines r) = r_clip_bbMaxX r"
  "r_clip_bbMaxY (updatePaintDependedRoutines r) = r_clip_bbMaxY r"
  "r_mask_byteData (updatePaintDependedRoutines r) = r_mask_byteData r"
  "r_alphaMap (updatePaintDependedRoutines r) = r_alphaMap r"
  "r_rowAAInt (updatePaintDependedRoutines r) = r_rowAAInt r"
  "r_paint (updatePaintDependedRoutines r) = r_paint r"
  "r_rectX (updatePaintDependedRoutines r) = r_rectX r"
  "r_rectY (updatePaintDependedRoutines r) = r_rectY r"
  "r_gradient_colors (updatePaintDependedRoutines r) = r_gradient_colors r"
  "r_gradient_cycleMethod (updatePaintDependedRoutines r) = r_gradient_cycleMethod r"
  "r_texture_intData (updatePaintDependedRoutines r) = r_texture_intData r"
  by (simp_all add: updatePaintDependedRoutines_def unmark_def)

lemma comp_update_rest [simp]:
  "r_maskType (updateCompositeDependedRoutines r) = r_maskType r"
  "r_compositeRule (updateCompositeDependedRoutines r) = r_compositeRule r"
  "r_paintMode (updateCompositeDependedRoutines r) = r_paintMode r"
  "r_surface (updateCompositeDependedRoutines r) = r_surface r"
  "r_ured (updateCompositeDependedRoutines r) = r_ured r"
  "r_ugreen (updateCompositeDependedRoutines r) = r_ugreen r"
  "r_ublue (updateCompositeDependedRoutines r) = r_ublue r"
  "r_ualpha (updateCompositeDependedRoutines r) = r_ualpha r"
  "r_clip_bbMinX (updateCompositeDependedRoutines r) = r_clip_bbMinX r"
  "r_clip_bbMinY (updateCompositeDependedRoutines r) = r_clip_bbMinY r"
  "r_clip_bbMaxX (updateCompositeDependedRoutines r) = r_clip_bbMaxX r"
  "r_clip_bbMaxY (updateCompositeDependedRoutines r) = r_clip_bbMaxY r"
  "r_mask_byteData (updateCompositeDependedRoutines r) = r_mask_byteData r"
  "r_alphaMap (updateCompositeDependedRoutines r) = r_alphaMap r"
  "r_rowAAInt (updateCompositeDependedRoutines r) = r_rowAAInt r"
  "r_paint (updateCompositeDependedRoutines r) = r_paint r"
  "r_rectX (updateCompositeDependedRoutines r) = r_rectX r"
  "r_rectY (updateCompositeDependedRoutines r) = r_rectY r"
  "r_gradient_colors (updateCompositeDependedRoutines r) = r_gradient_colors r"
  "r_gradient_cycleMethod (updateCompositeDependedRoutines r) = r_gradient_cycleMethod r"
  "r_texture_intData (updateCompositeDependedRoutines r) = r_texture_intData r"
  by (simp_all add: updateCompositeDependedRoutines_def unmark_def)

lemma mask_update_rest [simp]:
  "r_maskType (updateMaskDependedRoutines r) = r_maskType r"
  "r_compositeRule (updateMaskDependedRoutines r) = r_compositeRule r"
  "r_paintMode (updateMaskDependedRoutines r) = r_paintMode r"
  "r_surface (updateMaskDependedRoutines r) = r_surface r"
  "r_ured (updateMaskDependedRoutines r) = r_ured r"
  "r_ugreen (updateMaskDependedRoutines r) = r_ugreen r"
  "r_ublue (updateMaskDependedRoutines r) = r_ublue r"
  "r_ualpha (updateMaskDependedRoutines r) = r_ualpha r"
  "r_clip_bbMinX (updateMaskDependedRoutines r) = r_clip_bbMinX r"
  "r_clip_bbMinY (updateMaskDependedRoutines r) = r_clip_bbMinY r"
  "r_clip_bbMaxX (updateMaskDependedRoutines r) = r_clip_bbMaxX r"
  "r_clip_bbMaxY (updateMaskDependedRoutines r) = r_clip_bbMaxY r"
  "r_mask_byteData (updateMaskDependedRoutines r) = r_mask_byteData r"
  "r_alphaMap (updateMaskDependedRoutines r) = r_alphaMap r"
  "r_rowAAInt (updateMaskDependedRoutines r) = r_rowAAInt r"
  "r_paint (updateMaskDependedRoutines r) = r_paint r"
  "r_rectX (updateMaskDependedRoutines r) = r_rectX r"
  "r_rectY (updateMaskDependedRoutines r) = r_rectY r"
  "r_gradient_colors (updateMaskDependedRoutines r) = r_gradient_colors r"
  "r_gradient_cycleMethod (updateMaskDependedRoutines r) = r_gradient_cycleMethod r"
  "r_texture_intData (updateMaskDependedRoutines r) = r_texture_intData r"
  by (simp_all add: updateMaskDependedRoutines_def unmark_def)

lemma surface_update_rest [simp]:
  "r_maskType (updateRendererSurface r) = r_maskType r"
  "r_compositeRule (updateRendererSurface r) = r_compositeRule r"
  "r_paintMode (updateRendererSurface r) = r_paintMode r"
  "r_surface (updateRendererSurface r) = r_surface r"
  "r_ured (updateRendererSurface r) = r_ured r"
  "r_ugreen (updateRendererSurface r) = r_ugreen r"
  "r_ublue (updateRendererSurface r) = r_ublue r"
  "r_ualpha (updateRendererSurface r) = r_ualpha r"
  "r_clip_bbMinX (updateRendererSurface r) = r_clip_bbMinX r"
  "r_clip_bbMinY (updateRendererSurface r) = r_clip_bbMinY r"
  "r_clip_bbMaxX (updateRendererSurface r) = r_clip_bbMaxX r"
  "r_clip_bbMaxY (updateRendererSurface r) = r_clip_bbMaxY r"
  "r_mask_byteData (updateRendererSurface r) = r_mask_byteData r"
  "r_alphaMap (updateRendererSurface r) = r_alphaMap r"
  "r_rowAAInt (updateRendererSurface r) = r_rowAAInt r"
  "r_paint (updateRendererSurface r) = r_paint r"
  "r_rectX (updateRendererSurface r) = r_rectX r"
  "r_rectY (updateRendererSurface r) = r_rectY r"
  "r_gradient_colors (updateRendererSurface r) = r_gradient_colors r"
  "r_gradient_cycleMethod (updateRendererSurface r) = r_gradient_cycleMethod r"
  "r_texture_intData (updateRendererSurface r) = r_texture_intData r"
  by (simp_all add: updateRendererSurface_def updateSurfaceDependedRoutines_def unmark_def mark_def Let_def)

lemma color_update_rest [simp]:
  "r_maskType (updateInternalColor r) = r_maskType r"
  "r_compositeRule (updateInternalColor r) = r_compositeRule r"
  "r_paintMode (updateInternalColor r) = r_paintMode r"
  "r_surface (updateInternalColor r) = r_surface r"
  "r_ured (updateInternalColor r) = r_ured r"
  "r_ugreen (updateInternalColor r) = r_ugreen r"
  "r_ublue (updateInternalColor r) = r_ublue r"
  "r_ualpha (updateInternalColor r) = r_ualpha r"
  "r_clip_bbMinX (updateInternalColor r) = r_clip_bbMinX r"
  "r_clip_bbMinY (updateInternalColor r) = r_clip_bbMinY r"
  "r_clip_bbMaxX (updateInternalColor r) = r_clip_bbMaxX r"
  "r_clip_bbMaxY (updateInternalColor r) = r_clip_bbMaxY r"
  "r_mask_byteData (updateInternalColor r) = r_mask_byteData r"
  "r_alphaMap (updateInternalColor r) = r_alphaMap r"
  "r_rowAAInt (updateInternalColor r) = r_rowAAInt r"
  "r_paint (updateInternalColor r) = r_paint r"
  "r_rectX (updateInternalColor r) = r_rectX r"
  "r_rectY (updateInternalColor r) = r_rectY r"
  "r_gradient_colors (updateInternalColor r) = r_gradient_colors r"
  "r_gradient_cycleMethod (updateInternalColor r) = r_gradient_cycleMethod r"
  "r_texture_intData (updateInternalColor r) = r_texture_intData r"
  by (simp_all add: updateInternalColor_def unmark_def)

lemma VALIDATE_BLITTING_rest [simp]:
  "r_maskType (VALIDATE_BLITTING r) = r_maskType r"
  "r_compositeRule (VALIDATE_BLITTING r) = r_compositeRule r"
  "r_paintMode (VALIDATE_BLITTING r) = r_paintMode r"
  "r_surface (VALIDATE_BLITTING r) = r_surface r"
  "r_ured (VALIDATE_BLITTING r) = r_ured r"
  "r_ugreen (VALIDATE_BLITTING r) = r_ugreen r"
  "r_ublue (VALIDATE_BLITTING r) = r_ublue r"
  "r_ualpha (VALIDATE_BLITTING r) = r_ualpha r"
  "r_clip_bbMinX (VALIDATE_BLITTING r) = r_clip_bbMinX r"
  "r_clip_bbMinY (VALIDATE_BLITTING r) = r_clip_bbMinY r"
  "r_clip_bbMaxX (VALIDATE_BLITTING r) = r_clip_bbMaxX r"
  "r_clip_bbMaxY (VALIDATE_BLITTING r) = r_clip_bbMaxY r"
  "r_mask_byteData (VALIDATE_BLITTING r) = r_mask_byteData r"
  "r_alphaMap (VALIDATE_BLITTING r) = r_alphaMap r"
  "r_rowAAInt (VALIDATE_BLITTING r) = r_rowAAInt r"
  "r_paint (VALIDATE_BLITTING r) = r_paint r"
  "r_rectX (VALIDATE_BLITTING r) = r_rectX r"
  "r_rectY (VALIDATE_BLITTING r) = r_rectY r"
  "r_gradient_colors (VALIDATE_BLITTING r) = r_gradient_colors r"
  "r_gradient_cycleMethod (VALIDATE_BLITTING r) = r_gradient_cycleMethod r"
  "r_texture_intData (VALIDATE_BLITTING r) = r_texture_intData r"
  by (simp_all add: VALIDATE_BLITTING_def Let_def)

lemma paint_update_view [simp]:
  "r_width (updatePaintDependedRoutines r) = r_width r"
  "r_height (updatePaintDependedRoutines r) = r_height r"
  "r_data (updatePaintDependedRoutines r) = r_data r"
  "r_imageOffset (updatePaintDependedRoutines r) = r_imageOffset r"
  "r_imageScanlineStride (updatePaintDependedRoutines r) = r_imageScanlineStride r"
  "r_imagePixelStride (updatePaintDependedRoutines r) = r_imagePixelStride r"
  by (simp_all add: updatePaintDependedRoutines_def unmark_def)

lemma comp_update_view [simp]:
  "r_width (updateCompositeDependedRoutines r) = r_width r"
  "r_height (updateCompositeDependedRoutines r) = r_height r"
  "r_data (updateCompositeDependedRoutines r) = r_data r"
  "r_imageOffset (updateCompositeDependedRoutines r) = r_imageOffset r"
  "r_imageScanlineStride (updateCompositeDependedRoutines r) = r_imageScanlineStride r"
  "r_imagePixelStride (updateCompositeDependedRoutines r) = r_imagePixelStride r"
  by (simp_all add: updateCompositeDependedRoutines_def unmark_def)

lemma mask_update_view [simp]:
  "r_width (updateMaskDependedRoutines r) = r_width r"
  "r_height (updateMaskDependedRoutines r) = r_height r"
  "r_data (updateMaskDependedRoutines r) = r_data r"
  "r_imageOffset (updateMaskDependedRoutines r) = r_imageOffset r"
  "r_imageScanlineStride (updateMaskDependedRoutines r) = r_imageScanlineStride r"
  "r_imagePixelStride (updateMaskDependedRoutines r) = r_imagePixelStride r"
  by (simp_all add: updateMaskDependedRoutines_def unmark_def)

lemma color_update_view [simp]:
  "r_width (updateInternalColor r) = r_width r"
  "r_height (updateInternalColor r) = r_height r"
  "r_data (updateInternalColor r) = r_data r"
  "r_imageOffset (updateInternalColor r) = r_imageOffset r"
  "r_imageScanlineStride (updateInternalColor r) = r_imageScanlineStride r"
  "r_imagePixelStride (updateInternalColor r) = r_imagePixelStride r"
  by (simp_all add: updateInternalColor_def unmark_def)

lemma view_surface_update: "view_ok (updateRendererSurface r)"
  unfolding view_ok_def surface_update_rest
  by (simp_all add: updateRendererSurface_def updateSurfaceDependedRoutines_def unmark_def mark_def Let_def)

lemma VALIDATE_BLITTING_view:
  assumes "marked (r_rendererState r) INVALID_RENDERER_SURFACE"
  shows "view_ok (VALIDATE_BLITTING r)"
  using view_surface_update [of r] assms
  by (simp add: VALIDATE_BLITTING_def Let_def view_ok_def invalid_mask_iff)

section \<open>Properties\<close>

text \<open>C2: Lazy validation refines the routine table. In every reachable state, after
  \<^verbatim>\<open>VALIDATE_BLITTING\<close> nothing that drawing depends on is marked invalid, the routine pointers are the
  ones that mask, composite rule and paint mode select, the internal colour is the one that was set
  (transparent black for \<^verbatim>\<open>COMPOSITE_CLEAR\<close>), and validating again changes nothing.\<close>

theorem VALIDATE_BLITTING_refines_table:
  assumes "reachable F r"
  defines "q \<equiv> VALIDATE_BLITTING r"
  shows "\<not> marked (r_rendererState q) INVALID_BLITTING_MASK \<and>
    r_emitRows q = rows_table (r_maskType r) (r_compositeRule r) (r_paintMode r) \<and>
    r_emitLine q = line_table (r_compositeRule r) (r_paintMode r) \<and>
    r_genPaint q = gen_table (r_paintMode r) \<and>
    (r_cred q, r_cgreen q, r_cblue q, r_calpha q) =
      (if r_compositeRule r = COMPOSITE_CLEAR then (0, 0, 0, 0) else (r_ured r, r_ugreen r, r_ublue r, r_ualpha r)) \<and>
    VALIDATE_BLITTING q = q"
proof -
  have v: "validated q" unfolding q_def by (rule VALIDATE_BLITTING_validated [OF reachable_coherent [OF assms(1)]])
  moreover have "VALIDATE_BLITTING q = q" using v unfolding VALIDATE_BLITTING_def [of q] by (simp add: validated_def)
  moreover have "paint_level q" "color_level q" using v by (simp_all add: validated_def)
  then have "r_emitRows q = rows_table (r_maskType r) (r_compositeRule r) (r_paintMode r)"
    "r_emitLine q = line_table (r_compositeRule r) (r_paintMode r)" "r_genPaint q = gen_table (r_paintMode r)"
    "(r_cred q, r_cgreen q, r_cblue q, r_calpha q) =
      (if r_compositeRule r = COMPOSITE_CLEAR then (0, 0, 0, 0) else (r_ured r, r_ugreen r, r_ublue r, r_ualpha r))"
    unfolding paint_level_def color_level_def q_def by simp_all
  ultimately show ?thesis by (simp add: validated_def)
qed

text \<open>A state in which every flag matters: the colour, the rule and the mask were set after a
  validation.\<close>

definition wit_state :: "int Renderer" where
  "wit_state = renderer_setMask ALPHA_MASK [1] 1 1 False (renderer_setCompositeRule COMPOSITE_SRC
     (renderer_setColor 1 2 3 4 (VALIDATE_BLITTING (createCommon 0 wit_surface))))"

lemma wit_state_reachable: "reachable F wit_state"
  unfolding wit_state_def
  by (intro reachable.mask reachable.rule reachable.color reachable.validate reachable.create)
    (simp_all add: wit_surface_def)

theorem VALIDATE_BLITTING_refines_table_witness:
  "r_emitRows (VALIDATE_BLITTING wit_state) = Some BlitSrcMask \<and> r_calpha (VALIDATE_BLITTING wit_state) = 4"
proof -
  have m: "r_maskType wit_state = ALPHA_MASK" "r_compositeRule wit_state = COMPOSITE_SRC" "r_paintMode wit_state = PAINT_FLAT_COLOR"
    "r_ualpha wit_state = 4" by code_simp+
  show ?thesis
    using VALIDATE_BLITTING_refines_table [OF wit_state_reachable] unfolding m
    by (simp add: tables pisces_consts)
qed

text \<open>C27: The combinations of modes for which a reachable, validated renderer has no row routine: an LCD
  mask with \<^verbatim>\<open>COMPOSITE_SRC\<close>, or with \<^verbatim>\<open>COMPOSITE_SRC_OVER\<close> and a paint. Drawing rows calls a null pointer
  exactly in these states; drawing lines never does.\<close>

theorem no_row_routine_iff:
  assumes "reachable F r"
  shows "(r_emitRows (VALIDATE_BLITTING r) = None \<longleftrightarrow>
      r_maskType r = LCD_ALPHA_MASK \<and>
        (r_compositeRule r = COMPOSITE_SRC \<or> r_compositeRule r = COMPOSITE_SRC_OVER \<and> r_paintMode r \<noteq> PAINT_FLAT_COLOR)) \<and>
    r_emitLine (VALIDATE_BLITTING r) \<noteq> None"
proof -
  define q where "q = VALIDATE_BLITTING r"
  have v: "validated q" unfolding q_def by (rule VALIDATE_BLITTING_validated [OF reachable_coherent [OF assms]])
  have p: "r_emitRows q = rows_table (r_maskType r) (r_compositeRule r) (r_paintMode r)"
    "r_emitLine q = line_table (r_compositeRule r) (r_paintMode r)"
    using v unfolding validated_def paint_level_def q_def by simp_all
  have "modes_ok r" using reachable_coherent [OF assms] by (simp add: coherent_def)
  then show ?thesis
    unfolding q_def [symmetric] p
    by (auto simp add: modes_ok_def tables pisces_consts)
qed

theorem no_row_routine_iff_witness:
  "r_emitRows (VALIDATE_BLITTING (renderer_setMask LCD_ALPHA_MASK [1] 1 1 False wit_state)) = None"
proof -
  have "reachable undefined (renderer_setMask LCD_ALPHA_MASK [1] 1 1 False wit_state)"
    by (intro reachable.mask wit_state_reachable) simp
  moreover have "r_maskType (renderer_setMask LCD_ALPHA_MASK [1] 1 1 False wit_state) = LCD_ALPHA_MASK"
    "r_compositeRule (renderer_setMask LCD_ALPHA_MASK [1] 1 1 False wit_state) = COMPOSITE_SRC" by code_simp+
  ultimately show ?thesis using no_row_routine_iff by fastforce
qed

end
