(* ===== verification/JPiscesRenderer.thy ===== *)
theory JPiscesRenderer
  imports PiscesValidation
begin

text \<open>
  The native methods of \<^verbatim>\<open>com.sun.pisces.PiscesRenderer\<close> (\<^verbatim>\<open>JPiscesRenderer.c\<close>), with the memory error
  flag of \<^verbatim>\<open>PiscesSysutils.c\<close> and the acquisition of the pixels of a \<^verbatim>\<open>JavaSurface\<close> (\<^verbatim>\<open>JJavaSurface.c\<close>).

  A Java array that the code asks the virtual machine for is an argument of type \<open>'a list option\<close>;
  \<open>None\<close> says that \<^verbatim>\<open>GetPrimitiveArrayCritical\<close> returned \<^verbatim>\<open>NULL\<close>. The pixels of the surface are the field
  \<open>s_data\<close> of \<open>r_surface\<close>. While the surface is acquired, \<^verbatim>\<open>rdr->_data\<close> and \<^verbatim>\<open>surface->data\<close> are one pointer;
  the model keeps two lists and copies the first to the second when the drawing is done
  (\<open>sync_surface\<close>).

  A native method returns \<open>None\<close> when it would access memory out of range or call a null pointer, and
  otherwise the new state with the exception it leaves pending.
\<close>

section \<open>The memory error flag and the surface\<close>

record 'f Native =
  n_rdr :: "'f Renderer"
  n_memError :: bool
  n_gamma :: "'f Gamma"

datatype jexception = OutOfMemoryError | IllegalStateException | IllegalArgumentException

type_synonym 'f native_result = "('f Native \<times> jexception option) option"

definition setMemErrorFlag :: "'f Native \<Rightarrow> 'f Native" where
  "setMemErrorFlag n = n\<lparr>n_memError := True\<rparr>"

definition readMemErrorFlag :: "'f Native \<Rightarrow> bool" where
  "readMemErrorFlag n = n_memError n"

definition readAndClearMemErrorFlag :: "'f Native \<Rightarrow> bool \<times> 'f Native" where
  "readAndClearMemErrorFlag n = (if n_memError n then (True, n\<lparr>n_memError := False\<rparr>) else (False, n))"

text \<open>The last statement of every native method: report the flag as an exception.\<close>

definition report :: "'f Native \<Rightarrow> 'f Native \<times> jexception option" where
  "report n = (let (err, n) = readAndClearMemErrorFlag n in (n, if err then Some OutOfMemoryError else None))"

definition surface_acquire :: "jint list option \<Rightarrow> 'f Native \<Rightarrow> 'f Native" where
  "surface_acquire dataInt n =
     (let r = n_rdr n;
          n = n\<lparr>n_rdr := r\<lparr>r_surface := (r_surface r)\<lparr>s_data := case_option [] id dataInt\<rparr>\<rparr>\<rparr>
      in if dataInt = None then setMemErrorFlag n else n)"

definition sync_surface :: "'f Renderer \<Rightarrow> 'f Renderer" where
  "sync_surface r = r\<lparr>r_surface := (r_surface r)\<lparr>s_data := r_data r\<rparr>\<rparr>"

text \<open>\<^verbatim>\<open>ACQUIRE_SURFACE\<close> ... \<^verbatim>\<open>RELEASE_SURFACE\<close>: the body runs only when no memory error is pending.\<close>

definition with_surface :: "jint list option \<Rightarrow> ('f Native \<Rightarrow> 'f Native option) \<Rightarrow> 'f Native \<Rightarrow> 'f Native option" where
  "with_surface dataInt body n =
     (let n = surface_acquire dataInt n in if \<not> readMemErrorFlag n then body n else Some n)"

section \<open>Calls through the routine pointers\<close>

text \<open>What a paint routine needs beside the renderer: the floating point operations and whether the
  buffer of \<^verbatim>\<open>genTexturePaintMultiply\<close> can be allocated.\<close>

record 'f Env =
  e_fops :: "'f fops"
  e_alloc :: bool

text \<open>\<^verbatim>\<open>len\<close> is converted to \<^verbatim>\<open>size_t\<close>: a negative product asks for more memory than there is, and the
  pointer that comes back is used unchecked.\<close>

definition ALLOC3 :: "jint list \<Rightarrow> jint \<Rightarrow> jint list option" where
  "ALLOC3 paint len =
     (if len < 0 then None
      else Some (if int (length paint) < len then replicate (nat len) 0 else paint))"

definition call_emitRows :: "'f Gamma \<Rightarrow> 'f Renderer \<Rightarrow> jint \<Rightarrow> 'f Renderer option" where
  "call_emitRows g r h =
     (case r_emitRows r of
        None \<Rightarrow> None
      | Some f \<Rightarrow> (case f of
          BlitSrcOver \<Rightarrow> blitSrcOver8888_pre r h
        | BlitPTSrcOver \<Rightarrow> blitPTSrcOver8888_pre r h
        | BlitSrc \<Rightarrow> blitSrc8888_pre r h
        | BlitPTSrc \<Rightarrow> blitPTSrc8888_pre r h
        | BlitSrcOverMask \<Rightarrow> blitSrcOverMask8888_pre r h
        | BlitPTSrcOverMask \<Rightarrow> blitPTSrcOverMask8888_pre r h
        | BlitSrcMask \<Rightarrow> blitSrcMask8888_pre r h
        | BlitPTSrcMask \<Rightarrow> blitPTSrcMask8888_pre r h
        | BlitSrcOverLCDMask \<Rightarrow> blitSrcOverLCDMask8888_pre g r h))"

definition call_emitLine :: "'f Renderer \<Rightarrow> jint \<Rightarrow> jint \<Rightarrow> 'f Renderer option" where
  "call_emitLine r h frac =
     (case r_emitLine r of
        None \<Rightarrow> None
      | Some f \<Rightarrow> (case f of
          EmitLineSource \<Rightarrow> emitLineSource8888_pre r h frac
        | EmitLineSourceOver \<Rightarrow> emitLineSourceOver8888_pre r h frac
        | EmitLinePTSource \<Rightarrow> emitLinePTSource8888_pre r h frac
        | EmitLinePTSourceOver \<Rightarrow> emitLinePTSourceOver8888_pre r h frac))"

definition call_genPaint :: "'f Env \<Rightarrow> gen_routine \<Rightarrow> 'f Renderer \<Rightarrow> jint \<Rightarrow> 'f Renderer option" where
  "call_genPaint E f r h =
     (case f of
        GenLinearGradientPaint \<Rightarrow> genLinearGradientPaint (e_fops E) r h
      | GenRadialGradientPaint \<Rightarrow> genRadialGradientPaint (e_fops E) r h
      | GenTexturePaint \<Rightarrow> genTexturePaint r h
      | GenTexturePaintMultiply \<Rightarrow> genTexturePaintMultiply (e_fops E) (e_alloc E) r h)"

text \<open>The paint of \<open>h\<close> lines of \<open>w\<close> pixels, when the mode has one.\<close>

definition prepare_paint :: "'f Env \<Rightarrow> 'f Renderer \<Rightarrow> jint \<Rightarrow> jint \<Rightarrow> 'f Renderer option" where
  "prepare_paint E r w h =
     (case r_genPaint r of
        None \<Rightarrow> Some r
      | Some f \<Rightarrow> do {
          paint \<leftarrow> ALLOC3 (r_paint r) (s32 (w * h));
          call_genPaint E f (r\<lparr>r_paint := paint\<rparr>) h })"

section \<open>Setters\<close>

definition initialize :: "'f \<Rightarrow> Surface \<Rightarrow> bool \<Rightarrow> 'f Native \<Rightarrow> 'f Native \<times> jexception option" where
  "initialize z surface sfieldsOK n =
     (if sfieldsOK then report (n\<lparr>n_rdr := createCommon z surface\<rparr>) else (n, Some IllegalStateException))"

definition setClipImpl :: "jint \<Rightarrow> jint \<Rightarrow> jint \<Rightarrow> jint \<Rightarrow> 'f Native \<Rightarrow> 'f Native \<times> jexception option" where
  "setClipImpl minX minY width height n = report (n\<lparr>n_rdr := renderer_setClip minX minY width height (n_rdr n)\<rparr>)"

definition setColorImpl :: "jint \<Rightarrow> jint \<Rightarrow> jint \<Rightarrow> jint \<Rightarrow> 'f Native \<Rightarrow> 'f Native \<times> jexception option" where
  "setColorImpl red green blue alpha n = report (n\<lparr>n_rdr := renderer_setColor red green blue alpha (n_rdr n)\<rparr>)"

definition setCompositeRuleImpl :: "jint \<Rightarrow> 'f Native \<Rightarrow> 'f Native \<times> jexception option" where
  "setCompositeRuleImpl rule n = report (n\<lparr>n_rdr := renderer_setCompositeRule rule (n_rdr n)\<rparr>)"

definition clearRectImpl :: "jint list option \<Rightarrow> jint \<Rightarrow> jint \<Rightarrow> jint \<Rightarrow> jint \<Rightarrow> 'f Native \<Rightarrow> 'f native_result" where
  "clearRectImpl dataInt x y w h n = do {
     n \<leftarrow> with_surface dataInt (\<lambda>n. do {
         let r = INVALIDATE_RENDERER_SURFACE (n_rdr n);
         let r = r\<lparr>r_imagePixelStride := 1, r_imageScanlineStride := s_width (r_surface r)\<rparr>;
         r \<leftarrow> renderer_clearRect x y w h r;
         Some (n\<lparr>n_rdr := sync_surface r\<rparr>) }) n;
     Some (report n) }"

definition setLinearGradientImpl :: "'f Env \<Rightarrow> jint \<Rightarrow> jint \<Rightarrow> jint \<Rightarrow> jint \<Rightarrow> jint list option \<Rightarrow> jint \<Rightarrow> Transform6 \<Rightarrow>
    'f Native \<Rightarrow> 'f Native \<times> jexception option" where
  "setLinearGradientImpl E x0 y0 x1 y1 jramp cycleMethod t n = report
     (case jramp of
        Some ramp \<Rightarrow> n\<lparr>n_rdr := renderer_setLinearGradient (e_fops E) x0 y0 x1 y1 ramp t
                          ((n_rdr n)\<lparr>r_gradient_cycleMethod := cycleMethod\<rparr>)\<rparr>
      | None \<Rightarrow> setMemErrorFlag n)"

definition setRadialGradientImpl :: "'f Env \<Rightarrow> jint \<Rightarrow> jint \<Rightarrow> jint \<Rightarrow> jint \<Rightarrow> jint \<Rightarrow> jint list option \<Rightarrow> jint \<Rightarrow> Transform6 \<Rightarrow>
    'f Native \<Rightarrow> 'f Native \<times> jexception option" where
  "setRadialGradientImpl E cx cy fx fy radius jramp cycleMethod t n = report
     (case jramp of
        Some ramp \<Rightarrow> n\<lparr>n_rdr := renderer_setRadialGradient (e_fops E) cx cy fx fy radius ramp t
                          ((n_rdr n)\<lparr>r_gradient_cycleMethod := cycleMethod\<rparr>)\<rparr>
      | None \<Rightarrow> setMemErrorFlag n)"

text \<open>\<^verbatim>\<open>memcpy(dst + di, src + si, sizeof(jint) * len)\<close>, and the loop of \<^verbatim>\<open>setTextureImpl\<close> over the lines.\<close>

definition copy_ints :: "jint list \<Rightarrow> int \<Rightarrow> jint list \<Rightarrow> int \<Rightarrow> int \<Rightarrow> jint list option" where
  "copy_ints dst di src si len =
     (if 0 \<le> len \<and> 0 \<le> di \<and> di + len \<le> int (length dst) \<and> 0 \<le> si \<and> si + len \<le> int (length src)
      then Some (take (nat di) dst @ take (nat len) (drop (nat si) src) @ drop (nat (di + len)) dst) else None)"

fun copy_lines :: "jint list \<Rightarrow> jint \<Rightarrow> jint list \<Rightarrow> jint \<Rightarrow> nat \<Rightarrow> jint \<Rightarrow> jint list option" where
  "copy_lines dst width src stride 0 i = Some dst"
| "copy_lines dst width src stride (Suc n) i = do {
     dst \<leftarrow> copy_ints dst (s32 (i * width)) src (s32 (i * stride)) width;
     copy_lines dst width src stride n (i + 1) }"

text \<open>\<open>alloc\<close>: the allocation of \<^verbatim>\<open>width * height\<close> integers succeeds; a negative size never does.\<close>

definition setTextureImpl :: "'f Env \<Rightarrow> bool \<Rightarrow> jint list option \<Rightarrow> jint \<Rightarrow> jint \<Rightarrow> jint \<Rightarrow> Transform6 \<Rightarrow> bool \<Rightarrow> bool \<Rightarrow>
    'f Native \<Rightarrow> 'f native_result" where
  "setTextureImpl E alloc dataArray width height stride t rep hasAlpha n = do {
     n \<leftarrow> (case dataArray of
        Some data \<Rightarrow>
          if alloc \<and> 0 \<le> s32 (width * height)
          then do {
            let buf = replicate (nat (s32 (width * height))) 0;
            buf \<leftarrow> (if stride = width then copy_ints buf 0 data 0 (width * height)
                    else copy_lines buf width data stride (nat height) 0);
            Some (n\<lparr>n_rdr := renderer_setTexture (e_fops E) IMAGE_MODE_NORMAL buf width height width rep True t True
                       hasAlpha 0 0 (s32 (width - 1)) (s32 (height - 1)) (n_rdr n)\<rparr>) }
          else Some (setMemErrorFlag n)
      | None \<Rightarrow> Some (setMemErrorFlag n));
     Some (report n) }"

definition setLCDGammaCorrectionImpl :: "'f Env \<Rightarrow> ('f \<Rightarrow> 'f \<Rightarrow> bool) \<Rightarrow> (int \<Rightarrow> 'f \<Rightarrow> jint) \<Rightarrow> 'f \<Rightarrow> 'f Native \<Rightarrow> 'f Native" where
  "setLCDGammaCorrectionImpl E feq pow255 gamma n = n\<lparr>n_gamma := initGammaArrays (e_fops E) feq pow255 gamma (n_gamma n)\<rparr>"

section \<open>Rectangles\<close>

text \<open>How the treatment of an edge changes the first (or last) covered position, \<open>step\<close> further inside,
  and its fraction.\<close>

definition cut_edge :: "jint \<Rightarrow> jint \<Rightarrow> jint \<Rightarrow> int \<Rightarrow> jint \<times> jint" where
  "cut_edge edge frac pos step =
     (if edge = IMAGE_FRAC_EDGE_PAD then (pos, 0)
      else if edge = IMAGE_FRAC_EDGE_TRIM then (if frac \<noteq> 0 then s32 (pos + step) else pos, 0)
      else (pos, frac))"

text \<open>One group of lines: paint, line routine, and the advance to the next line.\<close>

definition fill_lines :: "'f Env \<Rightarrow> jint \<Rightarrow> jint \<Rightarrow> jint \<Rightarrow> jint \<Rightarrow> 'f Renderer \<Rightarrow> 'f Renderer option" where
  "fill_lines E x_from x_to rows frac r = do {
     r \<leftarrow> prepare_paint E r (s32 (x_to - x_from + 1)) rows;
     call_emitLine r rows frac }"

definition next_lines :: "jint \<Rightarrow> jint \<Rightarrow> 'f Renderer \<Rightarrow> 'f Renderer" where
  "next_lines x_from rows r =
     r\<lparr>r_currX := x_from, r_currY := s32 (r_currY r + rows),
       r_currImageOffset := s32 (s32 (r_currY r + rows) * s_width (r_surface r)),
       r_rowNum := s32 (r_rowNum r + rows)\<rparr>"

text \<open>The lines that are fully covered, at most \<^verbatim>\<open>NUM_ALPHA_ROWS\<close> at a time.\<close>

function fill_middle :: "'f Env \<Rightarrow> jint \<Rightarrow> jint \<Rightarrow> jint \<Rightarrow> 'f Renderer \<Rightarrow> 'f Renderer option" where
  "fill_middle E x_from x_to rows_to_render r =
     (if 0 < rows_to_render
      then do {
        let rows = min rows_to_render NUM_ALPHA_ROWS;
        r \<leftarrow> fill_lines E x_from x_to rows 0x10000 r;
        fill_middle E x_from x_to (rows_to_render - rows) (next_lines x_from rows r) }
      else Some r)"
  by pat_completeness auto
termination
  by (relation "measure (\<lambda>(E, x_from, x_to, rows, r). nat rows)") (auto simp: NUM_ALPHA_ROWS_def)

declare fill_middle.simps [simp del]

text \<open>The covered pixels and the fractions of the four edges, after edge treatment and clip.\<close>

record Span =
  p_from :: jint
  p_to :: jint
  p_ffrac :: jint
  p_tfrac :: jint

definition fill_span :: "jint \<Rightarrow> jint \<Rightarrow> jint \<Rightarrow> jint \<Rightarrow> jint \<Rightarrow> jint \<Rightarrow> Span" where
  "fill_span x w fEdge tEdge clipMin clipMax =
     (let ffrac = (0x10000 - (x AND 0xFFFF)) AND 0xFFFF;
          tfrac = s32 (x + w) AND 0xFFFF;
          from = drop_bit 16 x;
          to = s32 (x + w);
          to = (if tfrac \<noteq> 0 then drop_bit 16 to else drop_bit 16 to - 1);
          (from, ffrac) = cut_edge fEdge ffrac from 1;
          (to, tfrac) = cut_edge tEdge tfrac to (- 1);
          (from, ffrac) = (if from < clipMin then (clipMin, 0) else (from, ffrac));
          (to, tfrac) = (if to > clipMax then (clipMax, 0) else (to, tfrac))
      in \<lparr>p_from = from, p_to = to, p_ffrac = ffrac, p_tfrac = tfrac\<rparr>)"

text \<open>A span of one fractional pixel has one fraction.\<close>

definition merge_span :: "Span \<Rightarrow> Span" where
  "merge_span p =
     (if p_from p = p_to p \<and> p_ffrac p OR p_tfrac p \<noteq> 0
      then p\<lparr>p_ffrac := (p_tfrac p - 0x10000 + p_ffrac p) AND 0xFFFF, p_tfrac := 0\<rparr> else p)"

definition fill_setup :: "Span \<Rightarrow> Span \<Rightarrow> 'f Renderer \<Rightarrow> 'f Renderer" where
  "fill_setup xs ys r =
     (let W = s_width (r_surface r) in
      r\<lparr>r_minTouched := p_from xs, r_maxTouched := p_to xs, r_currX := p_from xs, r_currY := p_from ys,
        r_alphaWidth := s32 (p_to xs - p_from xs + 1), r_currImageOffset := s32 (p_from ys * W),
        r_imageScanlineStride := W, r_imagePixelStride := 1, r_rowNum := 0,
        r_el_lfrac := p_ffrac (merge_span xs), r_el_rfrac := p_tfrac (merge_span xs)\<rparr>)"

definition fill_body :: "'f Env \<Rightarrow> Span \<Rightarrow> Span \<Rightarrow> 'f Renderer \<Rightarrow> 'f Renderer option" where
  "fill_body E xs ys r =
     (let x_from = p_from xs; x_to = p_to xs;
          rows = s32 (p_to ys - p_from ys + 1);
          tfrac = p_ffrac (merge_span ys); bfrac = p_tfrac (merge_span ys);
          rows = (if bfrac \<noteq> 0 then rows - 1 else rows)
      in do {
        (rows, r) \<leftarrow> (if tfrac \<noteq> 0
          then do { r \<leftarrow> fill_lines E x_from x_to 1 tfrac r; Some (rows - 1, next_lines x_from 1 r) }
          else Some (rows, r));
        r \<leftarrow> fill_middle E x_from x_to rows r;
        if bfrac \<noteq> 0 then fill_lines E x_from x_to 1 bfrac r else Some r })"

definition fillRect :: "'f Env \<Rightarrow> jint list option \<Rightarrow> jint \<Rightarrow> jint \<Rightarrow> jint \<Rightarrow> jint \<Rightarrow> jint \<Rightarrow> jint \<Rightarrow> jint \<Rightarrow> jint \<Rightarrow>
    'f Native \<Rightarrow> 'f native_result" where
  "fillRect E dataInt x y w h lEdge rEdge tEdge bEdge n =
     (let r = (n_rdr n)\<lparr>r_rectX := drop_bit 16 x, r_rectY := drop_bit 16 y\<rparr>;
          n = n\<lparr>n_rdr := r\<rparr>;
          xs = fill_span x w lEdge rEdge (r_clip_bbMinX r) (r_clip_bbMaxX r);
          ys = fill_span y h tEdge bEdge (r_clip_bbMinY r) (r_clip_bbMaxY r)
      in if p_from xs \<le> p_to xs \<and> p_from ys \<le> p_to ys
         then do {
           n \<leftarrow> with_surface dataInt (\<lambda>n. do {
               r \<leftarrow> fill_body E xs ys (fill_setup xs ys (VALIDATE_BLITTING (INVALIDATE_RENDERER_SURFACE (n_rdr n))));
               Some (n\<lparr>n_rdr := sync_surface r\<rparr>) }) n;
           Some (report n) }
         else Some (n, None))"

definition fillRectImpl :: "'f Env \<Rightarrow> jint list option \<Rightarrow> jint \<Rightarrow> jint \<Rightarrow> jint \<Rightarrow> jint \<Rightarrow> 'f Native \<Rightarrow> 'f native_result" where
  "fillRectImpl E dataInt x y w h n = fillRect E dataInt x y w h IMAGE_FRAC_EDGE_KEEP IMAGE_FRAC_EDGE_KEEP
     IMAGE_FRAC_EDGE_KEEP IMAGE_FRAC_EDGE_KEEP n"

text \<open>\<^verbatim>\<open>data + offset\<close> is a pointer into the Java array: reads before it are counted as out of range.\<close>

definition drawImageImpl :: "'f Env \<Rightarrow> jint list option \<Rightarrow> jint \<Rightarrow> jint list option \<Rightarrow> jint \<Rightarrow> jint \<Rightarrow> jint \<Rightarrow> jint \<Rightarrow>
    Transform6 \<Rightarrow> bool \<Rightarrow> jint \<Rightarrow> jint \<Rightarrow> jint \<Rightarrow> jint \<Rightarrow> jint \<Rightarrow> jint \<Rightarrow> jint \<Rightarrow> jint \<Rightarrow> jint \<Rightarrow> jint \<Rightarrow> jint \<Rightarrow> jint \<Rightarrow>
    bool \<Rightarrow> 'f Native \<Rightarrow> 'f native_result" where
  "drawImageImpl E dataInt imageMode dataArray width height offset stride t rep bboxX bboxY bboxW bboxH
     lEdge rEdge tEdge bEdge txMin tyMin txMax tyMax hasAlpha n =
     (case dataArray of
        Some data \<Rightarrow>
          if 0 \<le> offset \<and> offset \<le> int (length data)
          then do {
            let r = renderer_setTexture (e_fops E) imageMode (drop (nat offset) data) width height stride rep True t
                      False hasAlpha txMin tyMin txMax tyMax (n_rdr n);
            (n, exc) \<leftarrow> fillRect E dataInt bboxX bboxY bboxW bboxH lEdge rEdge tEdge bEdge (n\<lparr>n_rdr := r\<rparr>);
            let (n, exc') = report (n\<lparr>n_rdr := (n_rdr n)\<lparr>r_texture_intData := []\<rparr>\<rparr>);
            Some (n, case exc of None \<Rightarrow> exc' | Some e \<Rightarrow> Some e) }
          else None
      | None \<Rightarrow> Some (report (setMemErrorFlag n)))"

section \<open>Anti-aliased lines\<close>

text \<open>The result carries the deltas that the Java array holds afterwards.\<close>

definition emitAndClearAlphaRowImpl :: "'f Env \<Rightarrow> jint list option \<Rightarrow> jbyte list option \<Rightarrow> jint list option \<Rightarrow>
    jint \<Rightarrow> jint \<Rightarrow> jint \<Rightarrow> jint \<Rightarrow> 'f Native \<Rightarrow> (jint list option \<times> 'f Native \<times> jexception option) option" where
  "emitAndClearAlphaRowImpl E dataInt jAlphaMap jAlphaDeltas y x_from x_to rowNum n =
     (let n = surface_acquire dataInt n in
      if readMemErrorFlag n then Some (jAlphaDeltas, report n)
      else let r = VALIDATE_BLITTING (INVALIDATE_RENDERER_SURFACE (n_rdr n)); n = n\<lparr>n_rdr := r\<rparr> in
        case (jAlphaMap, jAlphaDeltas) of
          (Some alphaMap, Some alphaRow) \<Rightarrow>
            (let x_from = max x_from (r_clip_bbMinX r); x_to = min x_to (r_clip_bbMaxX r) in
             if x_to \<ge> x_from \<and> y \<ge> r_clip_bbMinY r \<and> y \<le> r_clip_bbMaxY r
             then do {
               let W = s_width (r_surface r);
               let r = r\<lparr>r_minTouched := x_from, r_maxTouched := x_to, r_currX := x_from, r_currY := y,
                     r_rowNum := rowNum, r_alphaMap := alphaMap, r_rowAAInt := alphaRow,
                     r_alphaWidth := s32 (x_to - x_from + 1), r_currImageOffset := s32 (y * W),
                     r_imageScanlineStride := W, r_imagePixelStride := 1\<rparr>;
               r \<leftarrow> prepare_paint E r (s32 (x_to - x_from + 1)) 1;
               r \<leftarrow> call_emitRows (n_gamma n) r 1;
               Some (Some (r_rowAAInt r), report (n\<lparr>n_rdr := (sync_surface r)\<lparr>r_rowAAInt := []\<rparr>\<rparr>)) }
             else Some (Some alphaRow, report n))
        | _ \<Rightarrow> Some (jAlphaDeltas, report (setMemErrorFlag n)))"

section \<open>Masks\<close>

fun mask_lines :: "'f Env \<Rightarrow> 'f Gamma \<Rightarrow> jint \<Rightarrow> jint \<Rightarrow> jint \<Rightarrow> nat \<Rightarrow> 'f Renderer \<Rightarrow> 'f Renderer option" where
  "mask_lines E g width maskWidth x 0 r = Some r"
| "mask_lines E g width maskWidth x (Suc rows) r = do {
     let r = r\<lparr>r_currImageOffset := s32 (r_currY r * s_width (r_surface r))\<rparr>;
     r \<leftarrow> prepare_paint E r width 1;
     r \<leftarrow> call_emitRows g r 1;
     mask_lines E g width maskWidth x rows
       (r\<lparr>r_maskOffset := s32 (r_maskOffset r + maskWidth), r_rowNum := s32 (r_rowNum r + 1), r_currX := x,
          r_currY := s32 (r_currY r + 1)\<rparr>) }"

definition mask_setup :: "jint \<Rightarrow> jint \<Rightarrow> jint \<Rightarrow> jint \<Rightarrow> 'f Renderer \<Rightarrow> 'f Renderer" where
  "mask_setup minX minY maxX offset r =
     r\<lparr>r_minTouched := minX, r_maxTouched := maxX, r_currX := minX, r_currY := minY,
       r_alphaWidth := s32 (maxX - minX + 1), r_imageScanlineStride := s_width (r_surface r),
       r_imagePixelStride := 1, r_rowNum := 0, r_maskOffset := offset\<rparr>"

definition fillAlphaMask :: "'f Env \<Rightarrow> jint list option \<Rightarrow> jint \<Rightarrow> jint \<Rightarrow> jint \<Rightarrow> jint \<Rightarrow> jint \<Rightarrow> jbyte list option \<Rightarrow>
    jint \<Rightarrow> jint \<Rightarrow> jint \<Rightarrow> jint \<Rightarrow> 'f Native \<Rightarrow> 'f native_result" where
  "fillAlphaMask E dataInt minX minY maxX maxY maskType jmask x maskWidth maskHeight offset n =
     (if maxX \<ge> minX \<and> maxY \<ge> minY
      then do {
        n \<leftarrow> with_surface dataInt (\<lambda>n.
          case jmask of
            None \<Rightarrow> Some (setMemErrorFlag n)
          | Some mdata \<Rightarrow> do {
              let r = VALIDATE_BLITTING (INVALIDATE_RENDERER_SURFACE
                        (renderer_setMask maskType mdata maskWidth maskHeight False (n_rdr n)));
              r \<leftarrow> mask_lines E (n_gamma n) (s32 (maxX - minX + 1)) maskWidth x (nat (s32 (maxY - minY + 1)))
                     (mask_setup minX minY maxX offset r);
              Some (n\<lparr>n_rdr := renderer_removeMask (sync_surface r)\<rparr>) }) n;
        Some (report n) }
      else Some (n, None))"

definition fillAlphaMaskImpl :: "'f Env \<Rightarrow> jint list option \<Rightarrow> jbyte list option \<Rightarrow> jint \<Rightarrow> jint \<Rightarrow> jint \<Rightarrow> jint \<Rightarrow> jint \<Rightarrow>
    'f Native \<Rightarrow> 'f native_result" where
  "fillAlphaMaskImpl E dataInt jmask x y maskWidth maskHeight offset n =
     (let r = n_rdr n;
          minX = max x (r_clip_bbMinX r); minY = max y (r_clip_bbMinY r);
          maxX = min (s32 (x + maskWidth - 1)) (r_clip_bbMaxX r);
          maxY = min (s32 (y + maskHeight - 1)) (r_clip_bbMaxY r);
          maskOffset = s32 (offset + (minY - y) * maskWidth + minX - x)
      in fillAlphaMask E dataInt minX minY maxX maxY ALPHA_MASK jmask x maskWidth maskHeight maskOffset n)"

text \<open>Division of C, which truncates.\<close>

definition c_quot :: "int \<Rightarrow> int \<Rightarrow> int" where
  "c_quot x y = sgn x * sgn y * (\<bar>x\<bar> div \<bar>y\<bar>)"

definition fillLCDAlphaMaskImpl :: "'f Env \<Rightarrow> jint list option \<Rightarrow> jbyte list option \<Rightarrow> jint \<Rightarrow> jint \<Rightarrow> jint \<Rightarrow> jint \<Rightarrow> jint \<Rightarrow>
    'f Native \<Rightarrow> 'f native_result" where
  "fillLCDAlphaMaskImpl E dataInt jmask x y maskWidth maskHeight offset n =
     (let r = n_rdr n;
          minX = max x (r_clip_bbMinX r); minY = max y (r_clip_bbMinY r);
          maxX = min (s32 (x + c_quot maskWidth 3 - 1)) (r_clip_bbMaxX r);
          maxY = min (s32 (y + maskHeight - 1)) (r_clip_bbMaxY r);
          maskOffset = s32 (offset + (minY - y) * maskWidth + (minX - x) * 3)
      in fillAlphaMask E dataInt minX minY maxX maxY LCD_ALPHA_MASK jmask x maskWidth maskHeight maskOffset n)"

end
