(* ===== verification/JPiscesFill.thy ===== *)
theory JPiscesFill
  imports JPiscesRenderer
begin

text \<open>
  Rectangles: what \<^verbatim>\<open>fillRect\<close> of \<^verbatim>\<open>JPiscesRenderer.c\<close> draws. The interface \<open>line_filler\<close> states what the
  rectangle code needs from a line routine; it is interpreted on the routines for a flat colour.
\<close>

section \<open>Joining groups of lines\<close>

lemma upd_rows_append:
  assumes "0 < W"
  shows "upd_rows (upd_rows d i W w h f) (i + h * W) W w h' g =
    upd_rows d i W w (h + h') (\<lambda>j. if j < h then f j else g (j - h))"
proof (rule nth_equalityI)
  fix p assume "p < length (upd_rows (upd_rows d i W w h f) (i + h * W) W w h' g)"
  then have p: "p < length d" by simp
  consider "p < i" | "i \<le> p" "p < i + h * W" | "i + h * W \<le> p" by linarith
  then show "upd_rows (upd_rows d i W w h f) (i + h * W) W w h' g ! p =
    upd_rows d i W w (h + h') (\<lambda>j. if j < h then f j else g (j - h)) ! p"
  proof cases
    case 2
    then have "(p - i) div W < h" using assms by (simp add: less_mult_imp_div_less)
    then show ?thesis using p 2 by (simp add: nth_upd_rows)
  next
    case 3
    then obtain q where q: "p = i + h * W + q" using le_Suc_ex by blast
    have "(h * W + q) div W = h + q div W" "(h * W + q) mod W = q mod W" using assms by simp_all
    then show ?thesis using p q assms by (simp add: nth_upd_rows)
  qed (use p in \<open>simp add: nth_upd_rows\<close>)
qed simp

section \<open>The canvas\<close>

text \<open>The state after \<open>n\<close> lines: new pixels \<open>d\<close>, the position moved down.\<close>

definition advance :: "int \<Rightarrow> jint list \<Rightarrow> jint \<Rightarrow> jint \<Rightarrow> 'f Renderer \<Rightarrow> 'f Renderer" where
  "advance n d cx rn r = r\<lparr>r_data := d, r_currX := cx, r_currY := r_currY r + n,
     r_currImageOffset := (r_currY r + n) * s_width (r_surface r), r_rowNum := rn\<rparr>"

text \<open>Lines \<open>0..<H\<close> of the surface are backed by pixels, and the state points at the start of the
  current line.\<close>

definition canvas :: "int \<Rightarrow> 'f Renderer \<Rightarrow> bool" where
  "canvas H r \<longleftrightarrow> r_imagePixelStride r = 1 \<and> r_imageScanlineStride r = s_width (r_surface r) \<and>
     0 \<le> r_minTouched r \<and> r_minTouched r \<le> r_maxTouched r \<and> r_maxTouched r < s_width (r_surface r) \<and>
     s_width (r_surface r) < 2 ^ 31 \<and> edges_ok r \<and> 0 \<le> r_currY r \<and>
     r_currImageOffset r = r_currY r * s_width (r_surface r) \<and>
     H * s_width (r_surface r) \<le> int (length (r_data r)) \<and> length (r_data r) < 2 ^ 31"

lemma advance_advance: "advance n2 d2 x2 rn2 (advance n1 d1 x1 rn1 r) = advance (n1 + n2) d2 x2 rn2 r"
  by (simp add: advance_def add.assoc)

lemma advance_simps [simp]:
  "r_data (advance n d cx rn r) = d" "r_currY (advance n d cx rn r) = r_currY r + n"
  "r_surface (advance n d cx rn r) = r_surface r" "r_alphaWidth (advance n d cx rn r) = r_alphaWidth r"
  "r_imageScanlineStride (advance n d cx rn r) = r_imageScanlineStride r"
  "r_minTouched (advance n d cx rn r) = r_minTouched r"
  "r_currImageOffset (advance n d cx rn r) = (r_currY r + n) * s_width (r_surface r)"
  by (simp_all add: advance_def)

lemma edges_ok_advance [simp]: "edges_ok (advance n d cx rn r) = edges_ok r"
  by (simp add: edges_ok_def advance_def touched_w_def)

lemma canvas_advance:
  assumes "canvas H r" "length d = length (r_data r)" "0 \<le> n"
  shows "canvas H (advance n d cx rn r)"
  using assms unfolding canvas_def edges_ok_advance by (simp add: advance_def)

lemma canvas_touched:
  assumes "canvas H r"
  shows "touched_w r = r_maxTouched r - r_minTouched r + 1" "touched_w r = r_alphaWidth r"
    "0 < touched_w r" "r_minTouched r + touched_w r \<le> s_width (r_surface r)"
proof -
  have c: "0 \<le> r_minTouched r" "r_minTouched r \<le> r_maxTouched r" "r_maxTouched r < s_width (r_surface r)"
    "s_width (r_surface r) < 2147483648" "edges_ok r"
    using assms by (simp_all add: canvas_def)
  show t: "touched_w r = r_maxTouched r - r_minTouched r + 1"
    unfolding touched_w_def if_P [OF c(2)] by (rule s32_eq) (use c in linarith)+
  show "touched_w r = r_alphaWidth r" using c by (simp add: edges_ok_def)
  show "0 < touched_w r" "r_minTouched r + touched_w r \<le> s_width (r_surface r)" unfolding t using c by linarith+
qed

text \<open>A group of lines inside of the canvas is a legal area for the line routines.\<close>

lemma canvas_rows:
  assumes "canvas H r" "0 \<le> rows" "r_currY r + rows \<le> H"
  shows "area_ok r rows" "(r_currY r + rows) * s_width (r_surface r) \<le> int (length (r_data r))"
    "area_start (advance rows d cx rn r) = area_start r + nat rows * nat (s_width (r_surface r))"
proof -
  let ?W = "s_width (r_surface r)"
  note t = canvas_touched [OF assms(1)]
  have W: "0 < ?W" "0 \<le> r_currY r" "H * ?W \<le> int (length (r_data r))" "r_currImageOffset r = r_currY r * ?W" "0 \<le> r_minTouched r"
    using assms(1) by (auto simp: canvas_def)
  have "(r_currY r + rows) * ?W \<le> H * ?W" using assms(3) W(1) by (intro mult_right_mono) auto
  then show b: "(r_currY r + rows) * ?W \<le> int (length (r_data r))" using W(3) by linarith
  have p: "0 \<le> r_currY r * ?W" using W by simp
  have "r_currImageOffset r + (rows - 1) * ?W + r_minTouched r + touched_w r \<le> int (length (r_data r))"
  proof -
    have "(r_currY r + rows) * ?W = r_currY r * ?W + (rows - 1) * ?W + ?W" by (simp add: algebra_simps)
    then show ?thesis using b t(4) W(4) by linarith
  qed
  then show "area_ok r rows"
    using assms(1) t p W unfolding area_ok_def canvas_def by auto
  have "nat ((r_currY r + rows) * ?W + r_minTouched r) = nat (r_currY r * ?W + r_minTouched r) + nat (rows * ?W)"
    using p W assms(2) by (simp add: distrib_right nat_add_distrib)
  then show "area_start (advance rows d cx rn r) = area_start r + nat rows * nat ?W"
    using W assms(2) by (simp add: area_start_def nat_mult_distrib)
qed

section \<open>Spans\<close>

definition span_ok :: "Span \<Rightarrow> bool" where
  "span_ok p \<longleftrightarrow> 0 \<le> p_ffrac p \<and> p_ffrac p < 65536 \<and> 0 \<le> p_tfrac p \<and> p_tfrac p < 65536"

lemma and_FFFF: "(x :: int) AND 0xFFFF = x mod 65536"
  using take_bit_eq_mask [of 16 x] by (simp add: mask_eq_exp_minus_1 take_bit_eq_mod)

lemma cut_edge_frac: "0 \<le> f \<Longrightarrow> f < 65536 \<Longrightarrow> 0 \<le> snd (cut_edge e f p s) \<and> snd (cut_edge e f p s) < 65536"
  by (simp add: cut_edge_def)

lemma fill_span_ok: "span_ok (fill_span x w e1 e2 cmin cmax)"
  unfolding span_ok_def fill_span_def Let_def split_beta and_FFFF
  by (simp add: cut_edge_frac if_distrib [of fst] if_distrib [of snd])

lemma fill_span_clip: "cmin \<le> p_from (fill_span x w e1 e2 cmin cmax)" "p_to (fill_span x w e1 e2 cmin cmax) \<le> cmax"
  unfolding fill_span_def Let_def split_beta by (simp_all add: if_distrib [of fst] if_distrib [of snd])

lemma merge_span_ok:
  assumes "span_ok p" "p_from p \<le> p_to p"
  shows "0 \<le> p_ffrac (merge_span p)" "p_ffrac (merge_span p) < 65536" "0 \<le> p_tfrac (merge_span p)"
    "p_tfrac (merge_span p) < 65536"
    "p_ffrac (merge_span p) \<noteq> 0 \<Longrightarrow> p_tfrac (merge_span p) \<noteq> 0 \<Longrightarrow> p_from p < p_to p"
  using assms by (auto simp: merge_span_def span_ok_def and_FFFF or_eq_0 split: if_splits)

text \<open>The coverage of line \<open>j\<close> of a vertical span.\<close>

definition line_frac :: "Span \<Rightarrow> nat \<Rightarrow> jint" where
  "line_frac p j =
     (if j = 0 \<and> p_ffrac (merge_span p) \<noteq> 0 then p_ffrac (merge_span p)
      else if int j = p_to p - p_from p \<and> p_tfrac (merge_span p) \<noteq> 0 then p_tfrac (merge_span p)
      else 65536)"

section \<open>The interface of a line routine\<close>

text \<open>\<open>ok\<close> says that the state selects the routine and its data is good, \<open>px r frac k\<close> is what happens to
  column \<open>k\<close> of a line with coverage \<open>frac\<close>.\<close>

locale line_filler =
  fixes E :: "'f Env"
    and ok :: "'f Renderer \<Rightarrow> bool"
    and px :: "'f Renderer \<Rightarrow> jint \<Rightarrow> nat \<Rightarrow> jint \<Rightarrow> jint"
  assumes fill: "ok r \<Longrightarrow> area_ok r rows \<Longrightarrow> edges_ok r \<Longrightarrow> 0 \<le> frac \<Longrightarrow> frac \<le> 65536 \<Longrightarrow>
      fill_lines E xf xt rows frac r = Some (r\<lparr>r_data := upd_rows (r_data r) (area_start r)
        (nat (r_imageScanlineStride r)) (nat (r_alphaWidth r)) (nat rows) (\<lambda>_. px r frac)\<rparr>)"
    and ok_advance: "ok (advance n d cx rn r) = ok r"
    and px_advance: "px (advance n d cx rn r) = px r"
begin

definition painted :: "'f Renderer \<Rightarrow> nat \<Rightarrow> (nat \<Rightarrow> jint) \<Rightarrow> jint list" where
  "painted r rows frac = upd_rows (r_data r) (area_start r) (nat (s_width (r_surface r))) (nat (r_alphaWidth r)) rows
     (\<lambda>j. px r (frac j))"

lemma length_painted [simp]: "length (painted r rows frac) = length (r_data r)"
  by (simp add: painted_def)

lemma painted_0 [simp]: "painted r 0 frac = r_data r"
  by (simp add: painted_def)

lemma painted_append:
  assumes "canvas H r" "r_currY r + int rows \<le> H"
  shows "painted (advance (int rows) (painted r rows frac) cx rn r) rows' frac' =
    painted r (rows + rows') (\<lambda>j. if j < rows then frac j else frac' (j - rows))"
proof -
  have "0 < nat (s_width (r_surface r))" using assms(1) by (auto simp: canvas_def)
  then show ?thesis
    using canvas_rows(3) [OF assms(1) _ assms(2)]
    by (simp add: painted_def px_advance upd_rows_append if_distrib)
qed

lemma fill_step:
  assumes "ok r" "canvas H r" "0 \<le> rows" "r_currY r + rows \<le> H" "0 \<le> frac" "frac \<le> 65536"
  shows "fill_lines E xf xt rows frac r = Some (r\<lparr>r_data := painted r (nat rows) (\<lambda>_. frac)\<rparr>)"
    and "next_lines xf rows (r\<lparr>r_data := painted r (nat rows) (\<lambda>_. frac)\<rparr>) =
      advance rows (painted r (nat rows) (\<lambda>_. frac)) xf (s32 (r_rowNum r + rows)) r"
proof -
  note c = canvas_rows [OF assms(2,3,4)]
  have e: "edges_ok r" "r_imageScanlineStride r = s_width (r_surface r)" using assms(2) by (auto simp: canvas_def)
  show "fill_lines E xf xt rows frac r = Some (r\<lparr>r_data := painted r (nat rows) (\<lambda>_. frac)\<rparr>)"
    using fill [OF assms(1) c(1) e(1) assms(5,6)] by (simp add: painted_def e(2))
  let ?W = "s_width (r_surface r)"
  have b: "0 \<le> r_currY r" "1 \<le> ?W" "int (length (r_data r)) < 2147483648" using assms(2) by (auto simp: canvas_def)
  define Y where "Y = r_currY r + rows"
  have y: "0 \<le> Y" "Y * ?W \<le> int (length (r_data r))" using c(2) b assms(3) by (simp_all add: Y_def)
  have "Y * 1 \<le> Y * ?W" using y b by (intro mult_left_mono) auto
  moreover have "0 \<le> Y * ?W" using y b by simp
  ultimately have "s32 Y = Y" "s32 (Y * ?W) = Y * ?W"
    using y(1,2) b(3) by (auto intro!: s32_eq)
  then show "next_lines xf rows (r\<lparr>r_data := painted r (nat rows) (\<lambda>_. frac)\<rparr>) =
      advance rows (painted r (nat rows) (\<lambda>_. frac)) xf (s32 (r_rowNum r + rows)) r"
    by (simp add: next_lines_def advance_def Y_def)
qed

lemma advance_0:
  assumes "canvas H r"
  shows "\<exists>cx rn. r = advance 0 (r_data r) cx rn r"
proof -
  have "r = advance 0 (r_data r) (r_currX r) (r_rowNum r) r" using assms by (simp add: advance_def canvas_def)
  then show ?thesis by blast
qed

text \<open>The loop over the covered lines ends, and has filled all of them.\<close>

lemma fill_middle_upd:
  assumes "ok r" "canvas H r" "0 \<le> rows" "r_currY r + rows \<le> H"
  shows "\<exists>cx rn. fill_middle E xf xt rows r = Some (advance rows (painted r (nat rows) (\<lambda>_. 65536)) cx rn r)"
  using assms
proof (induction "nat rows" arbitrary: rows r rule: less_induct)
  case less
  show ?case
  proof (cases "0 < rows")
    case True
    define m where "m = min rows 8"
    define p where "p = painted r (nat m) (\<lambda>_. 65536)"
    define r1 where "r1 = advance m p xf (s32 (r_rowNum r + m)) r"
    have m: "0 \<le> m" "m \<le> rows" "0 < m" "r_currY r + m \<le> H" using True less.prems(4) by (auto simp: m_def)
    note f = fill_step [OF less.prems(1,2) m(1,4), of 65536, simplified, folded p_def]
    have c1: "canvas H r1" unfolding r1_def by (rule canvas_advance [OF less.prems(2)]) (use m in \<open>simp_all add: p_def\<close>)
    have "nat (rows - m) < nat rows" "ok r1" "0 \<le> rows - m" "r_currY r1 + (rows - m) \<le> H"
      using m less.prems by (simp_all add: r1_def ok_advance)
    then obtain cx rn where ih: "fill_middle E xf xt (rows - m) r1 =
        Some (advance (rows - m) (painted r1 (nat (rows - m)) (\<lambda>_. 65536)) cx rn r1)"
      using less.hyps [of "rows - m" r1] c1 by blast
    have "painted r1 (nat (rows - m)) (\<lambda>_. 65536) = painted r (nat rows) (\<lambda>_. 65536)"
      using painted_append [OF less.prems(2), of "nat m" "\<lambda>_. 65536" xf _ "nat (rows - m)" "\<lambda>_. 65536"] m
      by (simp add: r1_def p_def nat_add_distrib [symmetric])
    moreover have "advance (rows - m) d cx rn r1 = advance rows d cx rn r" for d
      by (simp add: r1_def advance_advance)
    ultimately have "fill_middle E xf xt rows r = Some (advance rows (painted r (nat rows) (\<lambda>_. 65536)) cx rn r)"
      using True f(1) ih
      by (subst fill_middle.simps) (simp add: NUM_ALPHA_ROWS_def m_def [symmetric] f(2) r1_def [symmetric])
    then show ?thesis by blast
  next
    case False
    then have r0: "rows = 0" using less.prems by simp
    then show ?thesis using advance_0 [OF less.prems(2)] by (subst fill_middle.simps) simp
  qed
qed

lemma painted_cong: "(\<And>j. j < rows \<Longrightarrow> f j = g j) \<Longrightarrow> painted r rows f = painted r rows g"
  by (auto simp: painted_def intro: upd_rows_cong)

text \<open>The three parts of the body: a fractional first line, the covered lines, a fractional last line.\<close>

lemma fill_top:
  assumes "ok r" "canvas H r" "r_currY r < H" "0 \<le> t" "t < 65536"
  defines "k \<equiv> if t \<noteq> 0 then 1 else 0"
  shows "\<exists>cx rn. (if t \<noteq> 0 then do { r \<leftarrow> fill_lines E xf xt 1 t r; Some (rows - 1, next_lines xf 1 r) } else Some (rows, r)) =
    Some (rows - int k, advance (int k) (painted r k (\<lambda>_. t)) cx rn r)"
proof (cases "t = 0")
  case True
  then show ?thesis using advance_0 [OF assms(2)] by (auto simp: k_def)
next
  case False
  then show ?thesis using fill_step [OF assms(1,2), of 1 t xf] assms(3-5) by (auto simp: k_def)
qed

lemma fill_rest:
  assumes "ok r" "canvas H r" "r_currY r + int k + mid \<le> H" "0 \<le> mid"
  shows "\<exists>cx rn. fill_middle E xf xt mid (advance (int k) (painted r k f) cx0 rn0 r) =
    Some (advance (int k + mid) (painted r (k + nat mid) (\<lambda>j. if j < k then f j else 65536)) cx rn r)"
proof -
  define q where "q = advance (int k) (painted r k f) cx0 rn0 r"
  have "canvas H q" "ok q" "r_currY q + mid \<le> H"
    unfolding q_def using assms by (auto intro!: canvas_advance simp: ok_advance)
  then obtain cx rn where "fill_middle E xf xt mid q = Some (advance mid (painted q (nat mid) (\<lambda>_. 65536)) cx rn q)"
    using fill_middle_upd assms(4) by blast
  then show ?thesis
    using painted_append [OF assms(2), of k] assms(3,4) by (auto simp: q_def advance_advance)
qed

lemma fill_bottom:
  assumes "ok r" "canvas H r" "r_currY r + int k + (if b \<noteq> 0 then 1 else 0) \<le> H" "0 \<le> b" "b < 65536"
    and q_def: "q = advance (int k) (painted r k f) cx0 rn0 r"
  shows "\<exists>cx cy o' rn. (if b \<noteq> 0 then fill_lines E xf xt 1 b q else Some q) =
    Some (r\<lparr>r_data := painted r (k + (if b \<noteq> 0 then 1 else 0)) (\<lambda>j. if j < k then f j else b),
     r_currX := cx, r_currY := cy, r_currImageOffset := o', r_rowNum := rn\<rparr>)"
proof (cases "b = 0")
  case True
  then show ?thesis using painted_cong [of k f "\<lambda>j. if j < k then f j else b"] by (auto simp: q_def advance_def)
next
  case False
  have "canvas H q" "ok q" "r_currY q + 1 \<le> H"
    unfolding q_def using assms False by (auto intro!: canvas_advance simp: ok_advance)
  then have "fill_lines E xf xt 1 b q = Some (q\<lparr>r_data := painted q 1 (\<lambda>_. b)\<rparr>)"
    using fill_step(1) [of q H 1 b] assms(4,5) by simp
  moreover have "painted q 1 (\<lambda>_. b) = painted r (k + 1) (\<lambda>j. if j < k then f j else b)"
    using painted_append [OF assms(2), of k f cx0 rn0 1 "\<lambda>_. b"] assms(3) False by (simp add: q_def)
  moreover have "q\<lparr>r_data := d\<rparr> = r\<lparr>r_data := d, r_currX := cx0, r_currY := r_currY r + int k,
      r_currImageOffset := (r_currY r + int k) * s_width (r_surface r), r_rowNum := rn0\<rparr>" for d
    by (simp add: q_def advance_def)
  ultimately show ?thesis using False by auto
qed

lemma canvas_count:
  assumes "canvas H r" "0 \<le> n" "r_currY r + n \<le> H"
  shows "s32 n = n"
proof -
  have W: "1 \<le> s_width (r_surface r)" "int (length (r_data r)) < 2147483648" "0 \<le> r_currY r" using assms(1) by (auto simp: canvas_def)
  define Y where "Y = r_currY r + n"
  have "Y * s_width (r_surface r) < 2147483648" using canvas_rows(2) [OF assms] W by (simp add: Y_def)
  moreover have "Y * 1 \<le> Y * s_width (r_surface r)" using W assms(2) by (intro mult_left_mono) (auto simp: Y_def)
  ultimately have "Y < 2147483648" by linarith
  then show ?thesis using W assms(2) by (intro s32_eq) (auto simp: Y_def)
qed

lemma fill_body_upd:
  assumes "ok r" "canvas H r" "r_currY r = p_from ys" "p_from ys \<le> p_to ys" "p_to ys < H" "span_ok ys"
  shows "\<exists>cx cy o' rn. fill_body E xs ys r = Some (r\<lparr>r_data := painted r (nat (p_to ys - p_from ys + 1)) (line_frac ys),
     r_currX := cx, r_currY := cy, r_currImageOffset := o', r_rowNum := rn\<rparr>)"
proof -
  define t b where "t = p_ffrac (merge_span ys)" and "b = p_tfrac (merge_span ys)"
  define n where "n = p_to ys - p_from ys + 1"
  have tb: "0 \<le> t" "t < 65536" "0 \<le> b" "b < 65536" "t \<noteq> 0 \<Longrightarrow> b \<noteq> 0 \<Longrightarrow> 1 < n"
    using merge_span_ok [OF assms(6,4)] by (auto simp: t_def b_def n_def)
  define k l where "k = (if t \<noteq> 0 then 1 else 0 :: nat)" and "l = (if b \<noteq> 0 then 1 else 0 :: nat)"
  define mid where "mid = n - int k - int l"
  have n: "0 < n" "r_currY r + n \<le> H" "r_currY r < H" and s: "s32 n = n" and mid: "0 \<le> mid"
    using assms tb canvas_count [OF assms(2), of n] by (auto simp: n_def mid_def k_def l_def)
  have rows: "(if b \<noteq> 0 then n - 1 else n) = int k + mid" by (simp add: mid_def l_def)
  obtain cx1 rn1 where top: "(if t \<noteq> 0 then do { r \<leftarrow> fill_lines E (p_from xs) (p_to xs) 1 t r;
       Some ((if b \<noteq> 0 then n - 1 else n) - 1, next_lines (p_from xs) 1 r) } else Some (if b \<noteq> 0 then n - 1 else n, r)) =
    Some (mid, advance (int k) (painted r k (\<lambda>_. t)) cx1 rn1 r)"
    using fill_top [OF assms(1,2) n(3) tb(1,2), of "p_from xs" "p_to xs" "int k + mid", folded k_def] unfolding rows by auto
  obtain cx2 rn2 where m: "fill_middle E (p_from xs) (p_to xs) mid (advance (int k) (painted r k (\<lambda>_. t)) cx1 rn1 r) =
    Some (advance (int k + mid) (painted r (k + nat mid) (\<lambda>j. if j < k then t else 65536)) cx2 rn2 r)"
    using fill_rest [OF assms(1,2) _ mid, of k "p_from xs" "p_to xs" "\<lambda>_. t" cx1 rn1] n by (auto simp: mid_def)
  define q where "q = advance (int (k + nat mid)) (painted r (k + nat mid) (\<lambda>j. if j < k then t else 65536)) cx2 rn2 r"
  have "r_currY r + int (k + nat mid) + (if b \<noteq> 0 then 1 else 0) \<le> H" using n mid by (auto simp: mid_def l_def)
  from fill_bottom [OF assms(1,2) this tb(3,4) q_def, folded l_def]
  obtain cx cy o' rn where bot: "(if b \<noteq> 0 then fill_lines E (p_from xs) (p_to xs) 1 b q else Some q) =
    Some (r\<lparr>r_data := painted r (k + nat mid + l) (\<lambda>j. if j < k + nat mid then if j < k then t else 65536 else b),
     r_currX := cx, r_currY := cy, r_currImageOffset := o', r_rowNum := rn\<rparr>)"
    by blast
  have kn: "k + nat mid + l = nat n" using mid by (simp add: mid_def)
  have "painted r (nat n) (\<lambda>j. if j < k + nat mid then if j < k then t else 65536 else b) = painted r (nat n) (line_frac ys)"
    by (rule painted_cong) (use kn mid tb in \<open>auto simp: line_frac_def t_def [symmetric] b_def [symmetric] k_def l_def n_def split: if_splits\<close>)
  note bot = bot [unfolded kn this]
  have m': "fill_middle E (p_from xs) (p_to xs) mid (advance (int k) (painted r k (\<lambda>_. t)) cx1 rn1 r) = Some q"
    using m mid by (simp add: q_def)
  have "fill_body E xs ys r = (if b \<noteq> 0 then fill_lines E (p_from xs) (p_to xs) 1 b q else Some q)"
    unfolding fill_body_def Let_def t_def [symmetric] b_def [symmetric] n_def [symmetric] s top by (simp add: m')
  then show ?thesis unfolding bot n_def [symmetric] by blast
qed

end

section \<open>The flat colour\<close>

definition flat_over :: "'f Renderer \<Rightarrow> bool" where
  "flat_over r \<longleftrightarrow> r_genPaint r = None \<and> r_emitLine r = Some EmitLineSourceOver \<and> colour_ok r"

text \<open>The weight of the colour in column \<open>k\<close>: the alpha of the line, reduced at the two edges.\<close>

definition column_weight :: "int \<Rightarrow> jint \<Rightarrow> jint \<Rightarrow> nat \<Rightarrow> nat \<Rightarrow> int" where
  "column_weight alpha lfrac rfrac w k =
     (if k = 0 \<and> lfrac \<noteq> 0 then edge_weight alpha lfrac
      else if Suc k = w \<and> rfrac \<noteq> 0 then edge_weight alpha rfrac else alpha)"

definition flat_px :: "'f Renderer \<Rightarrow> jint \<Rightarrow> nat \<Rightarrow> jint \<Rightarrow> jint" where
  "flat_px r frac k = over_px (column_weight (r_calpha r * frac div 65536) (r_el_lfrac r) (r_el_rfrac r)
     (nat (r_alphaWidth r)) k) (r_cred r) (r_cgreen r) (r_cblue r)"

interpretation flat: line_filler E flat_over flat_px for E :: "'f Env"
proof unfold_locales
  fix r :: "'f Renderer" and rows frac xf xt
  assume "flat_over r" "area_ok r rows" "edges_ok r" "0 \<le> frac" "frac \<le> (65536 :: int)"
  then show "fill_lines E xf xt rows frac r = Some (r\<lparr>r_data := upd_rows (r_data r) (area_start r)
        (nat (r_imageScanlineStride r)) (nat (r_alphaWidth r)) (nat rows) (\<lambda>_. flat_px r frac)\<rparr>)"
    by (simp add: fill_lines_def prepare_paint_def call_emitLine_def flat_over_def emitLineSourceOver8888_pre_upd
      flat_px_def [abs_def] column_weight_def [abs_def] Let_def)
qed (simp_all add: flat_over_def flat_px_def [abs_def] advance_def colour_ok_def)

section \<open>The whole rectangle\<close>

text \<open>The clip lies in the surface, whose pixels are all there.\<close>

definition clip_ok :: "'f Renderer \<Rightarrow> jint list \<Rightarrow> bool" where
  "clip_ok r d \<longleftrightarrow> 0 \<le> r_clip_bbMinX r \<and> r_clip_bbMaxX r < s_width (r_surface r) \<and>
     0 \<le> r_clip_bbMinY r \<and> r_clip_bbMaxY r < s_height (r_surface r) \<and>
     s_width (r_surface r) < 2 ^ 31 \<and>
     s_height (r_surface r) * s_width (r_surface r) \<le> int (length d) \<and> length d < 2 ^ 31"

lemma fill_setup_canvas:
  assumes "clip_ok q (r_data q)" "span_ok xs" "p_from xs \<le> p_to xs" "r_clip_bbMinX q \<le> p_from xs" "p_to xs \<le> r_clip_bbMaxX q"
    "r_clip_bbMinY q \<le> p_from ys" "p_from ys \<le> p_to ys" "p_to ys \<le> r_clip_bbMaxY q"
  shows "canvas (s_height (r_surface q)) (fill_setup xs ys q)"
    "area_start (fill_setup xs ys q) = nat (p_from ys * s_width (r_surface q) + p_from xs)"
    "s32 (p_to xs - p_from xs + 1) = p_to xs - p_from xs + 1"
proof -
  let ?W = "s_width (r_surface q)" and ?H = "s_height (r_surface q)"
  have c: "0 \<le> p_from xs" "p_to xs < ?W" "0 \<le> p_from ys" "p_from ys < ?H" "?W < 2147483648"
    "?H * ?W \<le> int (length (r_data q))" "int (length (r_data q)) < 2147483648"
    using assms unfolding clip_ok_def by auto
  show w: "s32 (p_to xs - p_from xs + 1) = p_to xs - p_from xs + 1"
    by (rule s32_eq) (use c assms(3) in linarith)+
  have "p_from ys * ?W \<le> ?H * ?W" using c assms(3) by (intro mult_right_mono) auto
  moreover have "0 \<le> p_from ys * ?W" using c assms(3) by simp
  ultimately have s: "s32 (p_from ys * ?W) = p_from ys * ?W"
    by (intro s32_eq) (use c in linarith)+
  note m = merge_span_ok [OF assms(2,3)]
  have "edges_ok (fill_setup xs ys q)"
    using m assms(3) by (auto simp: edges_ok_def fill_setup_def touched_w_def Let_def w)
  then show "canvas ?H (fill_setup xs ys q)"
    unfolding canvas_def using c assms(3) by (simp add: fill_setup_def Let_def s)
  show "area_start (fill_setup xs ys q) = nat (p_from ys * ?W + p_from xs)"
    by (simp add: area_start_def fill_setup_def Let_def s)
qed

text \<open>The state in which the body starts: the surface is acquired, marked and validated.\<close>

definition start_state :: "jint list \<Rightarrow> 'f Renderer \<Rightarrow> 'f Renderer" where
  "start_state d r = VALIDATE_BLITTING (INVALIDATE_RENDERER_SURFACE (r\<lparr>r_surface := (r_surface r)\<lparr>s_data := d\<rparr>\<rparr>))"

lemma start_state:
  assumes "coherent r"
  shows "validated (start_state d r)" "r_data (start_state d r) = d"
    "r_surface (start_state d r) = (r_surface r)\<lparr>s_data := d\<rparr>"
    "r_clip_bbMinX (start_state d r) = r_clip_bbMinX r" "r_clip_bbMaxX (start_state d r) = r_clip_bbMaxX r"
    "r_clip_bbMinY (start_state d r) = r_clip_bbMinY r" "r_clip_bbMaxY (start_state d r) = r_clip_bbMaxY r"
    "r_maskType (start_state d r) = r_maskType r" "r_compositeRule (start_state d r) = r_compositeRule r"
    "r_paintMode (start_state d r) = r_paintMode r"
    "r_ured (start_state d r) = r_ured r" "r_ugreen (start_state d r) = r_ugreen r"
    "r_ublue (start_state d r) = r_ublue r" "r_ualpha (start_state d r) = r_ualpha r"
proof -
  let ?p = "INVALIDATE_RENDERER_SURFACE (r\<lparr>r_surface := (r_surface r)\<lparr>s_data := d\<rparr>\<rparr>)"
  have "coherent ?p"
    by (rule surface_coherent [OF assms]) (use assms in \<open>simp add: coherent_def modes_ok_def\<close>)
  then show "validated (start_state d r)" unfolding start_state_def by (rule VALIDATE_BLITTING_validated)
  have "marked (r_rendererState ?p) INVALID_RENDERER_SURFACE"
    by (simp add: INVALIDATE_RENDERER_SURFACE_def flag_self)
  from VALIDATE_BLITTING_view [OF this]
  show "r_data (start_state d r) = d" by (simp add: start_state_def view_ok_def INVALIDATE_RENDERER_SURFACE_def mark_def)
qed (simp_all add: start_state_def INVALIDATE_RENDERER_SURFACE_def mark_def)

text \<open>Drawing moves the position and changes pixels, nothing that validation depends on.\<close>

lemma drawn_coherent:
  assumes "validated q"
  shows "coherent (sync_surface ((fill_setup xs ys q)\<lparr>r_data := d, r_currX := cx, r_currY := cy, r_currImageOffset := o',
    r_rowNum := rn\<rparr>))"
proof -
  have "coherent q" by (rule validated_coherent [OF assms])
  then show ?thesis
    by (subst coherent_cong [of _ q]) (simp_all add: sync_surface_def fill_setup_def Let_def levels modes_ok_def)
qed

text \<open>The image after a rectangle was filled: pixel (\<open>k\<close>, \<open>j\<close>) of the clipped rectangle is blended with the
  user's colour, with the alpha reduced by the coverage of its line and, at the left and right edge, of
  its column.\<close>

definition rect_image :: "'f Renderer \<Rightarrow> jint list \<Rightarrow> Span \<Rightarrow> Span \<Rightarrow> jint list" where
  "rect_image r d xs ys =
     upd_rows d (nat (p_from ys * s_width (r_surface r) + p_from xs)) (nat (s_width (r_surface r)))
       (nat (p_to xs - p_from xs + 1)) (nat (p_to ys - p_from ys + 1))
       (\<lambda>j k. over_px (column_weight (r_ualpha r * line_frac ys j div 65536) (p_ffrac (merge_span xs))
           (p_tfrac (merge_span xs)) (nat (p_to xs - p_from xs + 1)) k) (r_ured r) (r_ugreen r) (r_ublue r))"

text \<open>The renderer draws a flat colour, and the surface \<open>d\<close> holds the clip.\<close>

definition flat_ready :: "'f Native \<Rightarrow> jint list \<Rightarrow> bool" where
  "flat_ready n d \<longleftrightarrow> \<not> n_memError n \<and> r_paintMode (n_rdr n) = PAINT_FLAT_COLOR \<and>
     r_compositeRule (n_rdr n) = COMPOSITE_SRC_OVER \<and> is_u8 (r_ualpha (n_rdr n)) \<and> is_u8 (r_ured (n_rdr n)) \<and>
     is_u8 (r_ugreen (n_rdr n)) \<and> is_u8 (r_ublue (n_rdr n)) \<and> clip_ok (n_rdr n) d"

lemma fillRect_flat:
  fixes x y w h lEdge rEdge tEdge bEdge :: jint
  assumes "coherent (n_rdr n)" "flat_ready n d"
  defines "xs \<equiv> fill_span x w lEdge rEdge (r_clip_bbMinX (n_rdr n)) (r_clip_bbMaxX (n_rdr n))"
    and "ys \<equiv> fill_span y h tEdge bEdge (r_clip_bbMinY (n_rdr n)) (r_clip_bbMaxY (n_rdr n))"
  assumes ne: "p_from xs \<le> p_to xs" "p_from ys \<le> p_to ys"
  shows "\<exists>n'. fillRect E (Some d) x y w h lEdge rEdge tEdge bEdge n = Some (n', None) \<and>
    s_data (r_surface (n_rdr n')) = rect_image (n_rdr n) d xs ys \<and> coherent (n_rdr n')"
proof -
  define r0 where "r0 = (n_rdr n)\<lparr>r_rectX := drop_bit 16 x, r_rectY := drop_bit 16 y\<rparr>"
  have co: "coherent r0" unfolding r0_def using assms(1) by (subst coherent_cong [of _ "n_rdr n"]) (simp_all add: levels modes_ok_def)
  define q where "q = start_state d r0"
  note q = start_state [OF co, of d, folded q_def]
  define p where "p = fill_setup xs ys q"
  have q': "clip_ok q (r_data q)" using assms(2) by (simp add: clip_ok_def flat_ready_def q r0_def)
  have cl: "span_ok xs" "span_ok ys" "r_clip_bbMinX q \<le> p_from xs" "p_to xs \<le> r_clip_bbMaxX q"
    "r_clip_bbMinY q \<le> p_from ys" "p_to ys \<le> r_clip_bbMaxY q"
    unfolding q by (simp_all add: r0_def xs_def ys_def fill_span_ok fill_span_clip)
  note cv = fill_setup_canvas [OF q' cl(1) ne(1) cl(3,4,5) ne(2) cl(6), folded p_def]
  have lv: "paint_level q" "color_level q" using q(1) by (simp_all add: validated_def)
  have fo: "flat_over p"
    using lv assms(2) unfolding flat_ready_def paint_level_def color_level_def q
    by (simp add: flat_over_def p_def fill_setup_def Let_def r0_def tables colour_ok_def pisces_consts)
  have px: "flat_px p = (\<lambda>frac k. over_px (column_weight (r_ualpha (n_rdr n) * frac div 65536) (p_ffrac (merge_span xs))
            (p_tfrac (merge_span xs)) (nat (p_to xs - p_from xs + 1)) k)
          (r_ured (n_rdr n)) (r_ugreen (n_rdr n)) (r_ublue (n_rdr n)))"
    using lv(2) assms(2) unfolding flat_ready_def color_level_def q
    by (simp add: flat_px_def [abs_def] p_def fill_setup_def Let_def r0_def cv(3) pisces_consts)
  have "r_currY p = p_from ys" "p_to ys < s_height (r_surface q)" using cl(6) q' by (auto simp: p_def fill_setup_def Let_def clip_ok_def)
  from flat.fill_body_upd [OF fo cv(1) this(1) ne(2) this(2) cl(2), of E xs]
  obtain cx cy o' rn where b: "fill_body E xs ys p = Some (p\<lparr>r_data := flat.painted p (nat (p_to ys - p_from ys + 1)) (line_frac ys),
     r_currX := cx, r_currY := cy, r_currImageOffset := o', r_rowNum := rn\<rparr>)" by blast
  have dp: "flat.painted p (nat (p_to ys - p_from ys + 1)) (line_frac ys) = rect_image (n_rdr n) d xs ys"
    unfolding flat.painted_def px cv(2) rect_image_def by (simp add: p_def fill_setup_def Let_def q cv(3) r0_def)
  have r0c: "r_clip_bbMinX r0 = r_clip_bbMinX (n_rdr n)" "r_clip_bbMaxX r0 = r_clip_bbMaxX (n_rdr n)"
    "r_clip_bbMinY r0 = r_clip_bbMinY (n_rdr n)" "r_clip_bbMaxY r0 = r_clip_bbMaxY (n_rdr n)" by (simp_all add: r0_def)
  have "coherent (sync_surface (p\<lparr>r_data := dd, r_currX := cx, r_currY := cy, r_currImageOffset := o', r_rowNum := rn\<rparr>))" for dd
    unfolding p_def by (rule drawn_coherent [OF q(1)])
  then show ?thesis
    unfolding fillRect_def r0_def [symmetric] Let_def r0c xs_def [symmetric] ys_def [symmetric]
    using assms(2) ne b unfolding flat_ready_def
    by (simp add: with_surface_def surface_acquire_def readMemErrorFlag_def start_state_def [symmetric] q_def [symmetric]
      p_def [symmetric] report_def readAndClearMemErrorFlag_def sync_surface_def dp)
qed

lemma fillRect_empty:
  assumes "\<not> (let xs = fill_span x w lEdge rEdge (r_clip_bbMinX (n_rdr n)) (r_clip_bbMaxX (n_rdr n));
      ys = fill_span y h tEdge bEdge (r_clip_bbMinY (n_rdr n)) (r_clip_bbMaxY (n_rdr n))
    in p_from xs \<le> p_to xs \<and> p_from ys \<le> p_to ys)"
  shows "fillRect E dataInt x y w h lEdge rEdge tEdge bEdge n =
    Some (n\<lparr>n_rdr := (n_rdr n)\<lparr>r_rectX := drop_bit 16 x, r_rectY := drop_bit 16 y\<rparr>\<rparr>, None)"
  using assms unfolding Let_def fillRect_def by auto

section \<open>Coverage\<close>

lemma sum_line_frac:
  assumes "p_from p \<le> p_to p" "p_ffrac (merge_span p) \<noteq> 0 \<Longrightarrow> p_tfrac (merge_span p) \<noteq> 0 \<Longrightarrow> p_from p < p_to p"
  shows "(\<Sum>j < nat (p_to p - p_from p + 1). line_frac p j) = 65536 * (p_to p - p_from p + 1)
     - (if p_ffrac (merge_span p) \<noteq> 0 then 65536 - p_ffrac (merge_span p) else 0)
     - (if p_tfrac (merge_span p) \<noteq> 0 then 65536 - p_tfrac (merge_span p) else 0)"
proof -
  define n t b where "n = nat (p_to p - p_from p)" and "t = p_ffrac (merge_span p)" and "b = p_tfrac (merge_span p)"
  have n: "nat (p_to p - p_from p + 1) = Suc n" "int n = p_to p - p_from p" using assms(1) by (simp_all add: n_def)
  have "0 < n" if "t \<noteq> 0" "b \<noteq> 0" using assms(2) that n(2) by (simp add: t_def b_def)
  then have "line_frac p j = 65536 - (if j = 0 \<and> t \<noteq> 0 then 65536 - t else 0) - (if j = n \<and> b \<noteq> 0 then 65536 - b else 0)" for j
    unfolding line_frac_def t_def [symmetric] b_def [symmetric] n(2) [symmetric] by auto
  then have "(\<Sum>j < Suc n. line_frac p j) = (\<Sum>j < Suc n. 65536) - (\<Sum>j < Suc n. if j = 0 \<and> t \<noteq> 0 then 65536 - t else 0)
      - (\<Sum>j < Suc n. if j = n \<and> b \<noteq> 0 then 65536 - b else 0)"
    by (simp add: sum_subtractf)
  also have "(\<Sum>j < Suc n. if j = 0 \<and> t \<noteq> 0 then 65536 - t else 0) = (if t \<noteq> 0 then 65536 - t else 0)"
    by (cases "t = 0") (simp_all add: sum.delta)
  also have "(\<Sum>j < Suc n. if j = n \<and> b \<noteq> 0 then 65536 - b else 0) = (if b \<noteq> 0 then 65536 - b else 0)"
    by (cases "b = 0") (simp_all add: sum.delta)
  finally show ?thesis using n by (simp add: t_def b_def)
qed

text \<open>The span of an interval that is not clipped, in terms of the pixels \<open>a\<close> and \<open>b\<close> of its ends.\<close>

lemma fill_span_keep:
  assumes "x = 65536 * a + f" "0 \<le> f" "f < 65536" "x + w = 65536 * b + g" "0 \<le> g" "g < 65536"
    "is_jint (x + w)" "cmin \<le> a" "b \<le> cmax"
  shows "fill_span x w IMAGE_FRAC_EDGE_KEEP IMAGE_FRAC_EDGE_KEEP cmin cmax =
    \<lparr>p_from = a, p_to = (if g \<noteq> 0 then b else b - 1), p_ffrac = (if f = 0 then 0 else 65536 - f), p_tfrac = g\<rparr>"
proof -
  have s: "s32 (x + w) = 65536 * b + g" using assms(4,7) by (simp add: s32_idem)
  have 1: "x AND 0xFFFF = f" "drop_bit 16 x = a" "(65536 * b + g) AND 0xFFFF = g" "drop_bit 16 (65536 * b + g) = b"
    using assms by (simp_all add: and_FFFF drop_bit_eq_div)
  have 2: "(0x10000 - f) AND 0xFFFF = (if f = 0 then 0 else 65536 - f)"
    using assms(2,3) mod_pos_pos_trivial [of "65536 - f" 65536] unfolding and_FFFF by (cases "f = 0") simp_all
  show ?thesis
    unfolding fill_span_def Let_def s 1 2 cut_edge_def pisces_consts using assms(8,9) by auto
qed

lemma fill_span_sum:
  assumes "is_jint (x + w)" "0 < w" "cmin \<le> x div 65536" "(x + w) div 65536 \<le> cmax"
  defines "p \<equiv> fill_span x w IMAGE_FRAC_EDGE_KEEP IMAGE_FRAC_EDGE_KEEP cmin cmax"
  shows "p_from p \<le> p_to p" "(\<Sum>j < nat (p_to p - p_from p + 1). line_frac p j) = w"
proof -
  define a f b g where "a = x div 65536" and "f = x mod 65536" and "b = (x + w) div 65536" and "g = (x + w) mod 65536"
  have d: "x = 65536 * a + f" "0 \<le> f" "f < 65536" "x + w = 65536 * b + g" "0 \<le> g" "g < 65536"
    by (simp_all add: a_def f_def b_def g_def)
  have p: "p = \<lparr>p_from = a, p_to = (if g \<noteq> 0 then b else b - 1), p_ffrac = (if f = 0 then 0 else 65536 - f), p_tfrac = g\<rparr>"
    unfolding p_def by (rule fill_span_keep [OF d assms(1)]) (use assms in \<open>simp_all add: a_def b_def\<close>)
  have ab: "65536 * (b - a) + g - f = w" using d by simp
  show le: "p_from p \<le> p_to p" using ab d assms(2) by (auto simp: p)
  have ok: "span_ok p" using d by (simp add: p span_ok_def)
  note m = merge_span_ok [OF ok le]
  show "(\<Sum>j < nat (p_to p - p_from p + 1). line_frac p j) = w"
  proof (cases "p_from p = p_to p \<and> (f \<noteq> 0 \<or> g \<noteq> 0)")
    case True
    have "p_tfrac p - 0x10000 + p_ffrac p = w \<or> p_tfrac p - 0x10000 + p_ffrac p = w - 65536" and w: "w < 65536"
      using True ab d by (auto simp: p split: if_splits)
    then have "(p_tfrac p - 0x10000 + p_ffrac p) AND 0xFFFF = w mod 65536"
      unfolding and_FFFF using minus_mod_self2 [of w 65536] by metis
    then have "merge_span p = p\<lparr>p_ffrac := w, p_tfrac := 0\<rparr>"
      using True assms(2) w d by (auto simp: merge_span_def or_eq_0 p)
    then show ?thesis using sum_line_frac [OF le m(5)] True assms(2) by simp
  next
    case False
    have "p_ffrac p = 0 \<longleftrightarrow> f = 0" "p_tfrac p = g" using d(3) by (simp_all add: p)
    then have "\<not> (p_from p = p_to p \<and> p_ffrac p OR p_tfrac p \<noteq> 0)" using False by (simp add: or_eq_0)
    then have e: "merge_span p = p" unfolding merge_span_def by (simp only: if_False)
    have "65536 * (p_to p - p_from p + 1) - (if p_ffrac p \<noteq> 0 then 65536 - p_ffrac p else 0)
        - (if p_tfrac p \<noteq> 0 then 65536 - p_tfrac p else 0) = w"
      using ab d(3) by (simp add: p)
    then show ?thesis using sum_line_frac [OF le m(5)] unfolding e by (simp only: not_False_eq_True simp_thms)
  qed
qed

section \<open>The geometry of a rectangle\<close>

text \<open>
  What a rectangle should cover, in 65536ths of a pixel and without reference to the code: an end that is padded
  or trimmed is moved to the boundary of a pixel outside or inside of the interval, and pixel \<open>i\<close> is covered
  by the length of its intersection with the interval.
\<close>

definition shown_lo :: "jint \<Rightarrow> int \<Rightarrow> int" where
  "shown_lo edge v = (if edge = IMAGE_FRAC_EDGE_PAD then 65536 * (v div 65536)
     else if edge = IMAGE_FRAC_EDGE_TRIM then 65536 * ((v + 65535) div 65536) else v)"

definition shown_hi :: "jint \<Rightarrow> int \<Rightarrow> int" where
  "shown_hi edge v = (if edge = IMAGE_FRAC_EDGE_PAD then 65536 * ((v + 65535) div 65536)
     else if edge = IMAGE_FRAC_EDGE_TRIM then 65536 * (v div 65536) else v)"

definition cover :: "int \<Rightarrow> int \<Rightarrow> int \<Rightarrow> int" where
  "cover lo hi i = max 0 (min hi (65536 * (i + 1)) - max lo (65536 * i))"

text \<open>The weight of the colour in a pixel: alpha times the two coverages, rounded down in two steps.\<close>

definition rect_weight :: "int \<Rightarrow> int \<Rightarrow> int \<Rightarrow> int" where
  "rect_weight alpha cx cy = (let a = alpha * cy div 65536 in
     if cx = 65536 then a else if a = 255 then cx div 256 else cx * a div 65536)"

lemma rect_weight_close:
  assumes "0 \<le> alpha" "alpha \<le> 255" "0 \<le> cx" "cx \<le> 65536" "0 \<le> cy" "cy \<le> 65536"
  shows "\<bar>rect_weight alpha cx cy * 65536 ^ 2 - alpha * cx * cy\<bar> < 2 * 65536 ^ 2"
proof -
  define a where "a = alpha * cy div 65536"
  define u where "u = alpha * cy - 65536 * a"
  have u: "0 \<le> u" "u < 65536" "alpha * cy = 65536 * a + u" unfolding u_def a_def by (simp_all add: minus_mult_div_eq_mod)
  have "0 \<le> alpha * cy" using assms by simp
  moreover have "alpha * cy \<le> 255 * 65536" using assms by (intro mult_mono) auto
  ultimately have a: "0 \<le> a" "a \<le> 255" by (auto simp: a_def intro: zdiv_mono1 [of _ "255 * 65536" 65536, simplified])
  have e: "alpha * cx * cy = 65536 * (a * cx) + u * cx"
    by (metis (no_types, opaque_lifting) distrib_right mult.assoc mult.commute u(3))
  have uc: "0 \<le> u * cx" "u * cx \<le> 65536 * 65536"
    using u assms by (auto intro: mult_mono [of u 65536 cx 65536, simplified])
  consider "cx = 65536" | "cx < 65536" "a = 255" | "cx < 65536" "a \<noteq> 255" using assms(4) by linarith
  then show ?thesis
  proof cases
    case 1
    then show ?thesis using e uc by (simp add: rect_weight_def a_def [symmetric] Let_def power2_eq_square)
  next
    case 2
    have "256 * (cx div 256) \<le> cx" "cx < 256 * (cx div 256) + 256" by linarith+
    then show ?thesis using 2 e uc assms by (simp add: rect_weight_def a_def [symmetric] Let_def power2_eq_square)
  next
    case 3
    define v where "v = cx * a div 65536"
    have "65536 * v \<le> cx * a" "cx * a < 65536 * v + 65536" unfolding v_def by linarith+
    then show ?thesis using 3 e uc unfolding rect_weight_def a_def [symmetric] Let_def v_def [symmetric]
      by (simp add: power2_eq_square mult.commute)
  qed
qed

text \<open>The span in terms of the interval.\<close>

definition clip_span :: "jint \<Rightarrow> jint \<Rightarrow> int \<Rightarrow> int \<Rightarrow> Span" where
  "clip_span cmin cmax lo hi = (let from = lo div 65536; to = (hi - 1) div 65536 in
     \<lparr>p_from = max from cmin, p_to = min to cmax, p_ffrac = (if from < cmin then 0 else (- lo) mod 65536),
      p_tfrac = (if to > cmax then 0 else hi mod 65536)\<rparr>)"

lemma shown_parts:
  fixes c h :: int
  assumes "0 \<le> h" "h < 65536"
  shows "shown_lo e (65536 * c + h) div 65536 = (if e = IMAGE_FRAC_EDGE_TRIM \<and> h \<noteq> 0 then c + 1 else c)"
    "(- shown_lo e (65536 * c + h)) mod 65536 = (if e = IMAGE_FRAC_EDGE_TRIM \<or> e = IMAGE_FRAC_EDGE_PAD \<or> h = 0 then 0 else 65536 - h)"
    "(shown_hi e (65536 * c + h) - 1) div 65536 = (if e = IMAGE_FRAC_EDGE_TRIM \<or> h = 0 then c - 1 else c)"
    "shown_hi e (65536 * c + h) mod 65536 = (if e = IMAGE_FRAC_EDGE_TRIM \<or> e = IMAGE_FRAC_EDGE_PAD then 0 else h)"
proof -
  have up: "(65536 * c + h + 65535) div 65536 = (if h = 0 then c else c + 1)" and dn: "(65536 * c + h) div 65536 = c"
    and pr: "(65536 * c + h - 1) div 65536 = (if h = 0 then c - 1 else c)" "(65536 * c - 1) div 65536 = c - 1"
    using assms by auto
  have m: "(- (65536 * c + h)) mod 65536 = (if h = 0 then 0 else 65536 - h)"
  proof (cases "h = 0")
    case False
    have "- (65536 * c + h) = (65536 - h) + 65536 * (- c - 1)" by simp
    then have "(- (65536 * c + h)) mod 65536 = (65536 - h) mod 65536" by (simp only: mod_mult_self2)
    also have "\<dots> = 65536 - h" using False assms by (intro mod_pos_pos_trivial) simp_all
    finally show ?thesis using False by simp
  qed simp
  show "shown_lo e (65536 * c + h) div 65536 = (if e = IMAGE_FRAC_EDGE_TRIM \<and> h \<noteq> 0 then c + 1 else c)"
    unfolding shown_lo_def up dn pisces_consts using dn by simp
  show "(- shown_lo e (65536 * c + h)) mod 65536 = (if e = IMAGE_FRAC_EDGE_TRIM \<or> e = IMAGE_FRAC_EDGE_PAD \<or> h = 0 then 0 else 65536 - h)"
    unfolding shown_lo_def up dn pisces_consts using m by simp
  show "(shown_hi e (65536 * c + h) - 1) div 65536 = (if e = IMAGE_FRAC_EDGE_TRIM \<or> h = 0 then c - 1 else c)"
    unfolding shown_hi_def up dn pisces_consts using pr by auto
  show "shown_hi e (65536 * c + h) mod 65536 = (if e = IMAGE_FRAC_EDGE_TRIM \<or> e = IMAGE_FRAC_EDGE_PAD then 0 else h)"
    unfolding shown_hi_def up dn pisces_consts using assms by simp
qed

lemma fill_span_clip_span:
  assumes "is_jint x" "is_jint (x + w)"
  shows "fill_span x w e1 e2 cmin cmax = clip_span cmin cmax (shown_lo e1 x) (shown_hi e2 (x + w))"
proof -
  define a f b g where "a = x div 65536" and "f = x mod 65536" and "b = (x + w) div 65536" and "g = (x + w) mod 65536"
  have d: "x = 65536 * a + f" "0 \<le> f" "f < 65536" "x + w = 65536 * b + g" "0 \<le> g" "g < 65536"
    by (simp_all add: a_def f_def b_def g_def)
  have s: "s32 (65536 * b + g) = 65536 * b + g" using assms(2) d(4) by (simp add: s32_idem)
  have 1: "(65536 * c + h) AND 0xFFFF = h" "drop_bit 16 (65536 * c + h) = c" if "0 \<le> h" "h < 65536" for c h :: int
    using that by (simp_all add: and_FFFF drop_bit_eq_div)
  have 2: "(0x10000 - f) AND 0xFFFF = (if f = 0 then 0 else 65536 - f)"
    using d(2,3) mod_pos_pos_trivial [of "65536 - f" 65536] unfolding and_FFFF by (cases "f = 0") simp_all
  have ab: "is_jint (a + 1)" "is_jint (b - 1)" "is_jint (b - 1 - 1)" using assms d by (auto simp: is_jint_def)
  then have n: "s32 (a + 1) = a + 1" "s32 (b + - 1) = b - 1" "s32 (b - 1 + - 1) = b - 1 - 1"
    using s32_idem [OF ab(1)] s32_idem [OF ab(2)] s32_idem [OF ab(3)] by simp_all
  show ?thesis
    unfolding fill_span_def clip_span_def Let_def d(4) s unfolding d(1)
    unfolding 1 [OF d(2,3)] 1 [OF d(5,6)] 2 shown_parts [OF d(2,3)] shown_parts [OF d(5,6)] cut_edge_def pisces_consts
    using n d(3) by auto
qed

text \<open>The coverage that the fractions of a span give to its pixels.\<close>

lemma line_frac_sum:
  assumes "span_ok p" "p_from p \<le> p_to p" "int j \<le> p_to p - p_from p"
    and "p_from p = p_to p \<Longrightarrow> p_ffrac p \<noteq> 0 \<Longrightarrow> p_tfrac p \<noteq> 0 \<Longrightarrow> 65536 < p_ffrac p + p_tfrac p"
  shows "line_frac p j = (if j = 0 \<and> p_ffrac p \<noteq> 0 then p_ffrac p else 65536) +
     (if int j = p_to p - p_from p \<and> p_tfrac p \<noteq> 0 then p_tfrac p else 65536) - 65536"
proof (cases "p_from p = p_to p \<and> p_ffrac p OR p_tfrac p \<noteq> 0")
  case True
  let ?F = "p_ffrac p" and ?T = "p_tfrac p"
  have r: "0 \<le> ?F" "?F < 65536" "0 \<le> ?T" "?T < 65536" using assms(1) by (simp_all add: span_ok_def)
  have nz: "?F \<noteq> 0 \<or> ?T \<noteq> 0" using True by (auto simp: or_eq_0)
  define m where "m = (?T - 0x10000 + ?F) mod 65536"
  have e: "(?T - 0x10000 + ?F) mod 65536 = (?T + ?F) mod 65536"
    using minus_mod_self2 [of "?T + ?F" 65536] by (simp add: algebra_simps)
  have m: "m = (if ?F = 0 then ?T else if ?T = 0 then ?F else ?F + ?T - 65536)"
  proof (cases "?F \<noteq> 0 \<and> ?T \<noteq> 0")
    case both: True
    have "65536 < ?F + ?T" using assms(4) True both by blast
    then show ?thesis using both r unfolding m_def by simp
  next
    case False
    then show ?thesis using r nz unfolding m_def e by auto
  qed
  have "m \<noteq> 0" using m nz True assms(4) r by (auto split: if_splits)
  moreover have "j = 0" using assms(3) True by simp
  ultimately have "line_frac p j = m" using True by (simp add: line_frac_def merge_span_def and_FFFF m_def [symmetric])
  then show ?thesis using m True nz \<open>j = 0\<close> by auto
next
  case False
  then have e: "merge_span p = p" unfolding merge_span_def by (simp only: if_False)
  have "\<not> (p_from p = p_to p \<and> (p_ffrac p \<noteq> 0 \<or> p_tfrac p \<noteq> 0))" using False by (auto simp: or_eq_0)
  then show ?thesis unfolding line_frac_def e by auto
qed

lemma clip_span_cover:
  assumes i: "cmin \<le> i" "i \<le> cmax" and lh: "lo < hi \<or> lo mod 65536 = 0 \<or> hi mod 65536 = 0"
  defines "p \<equiv> clip_span cmin cmax lo hi"
  shows "0 < cover lo hi i \<longleftrightarrow> p_from p \<le> i \<and> i \<le> p_to p"
    and "0 < cover lo hi i \<Longrightarrow> line_frac p (nat (i - p_from p)) = cover lo hi i"
proof -
  define a f b g where "a = lo div 65536" and "f = lo mod 65536" and "b = (hi - 1) div 65536" and "g = (hi - 1) mod 65536"
  have d: "lo = 65536 * a + f" "0 \<le> f" "f < 65536" "hi = 65536 * b + g + 1" "0 \<le> g" "g < 65536"
    by (simp_all add: a_def f_def b_def g_def)
  have hm: "hi mod 65536 = (if g = 65535 then 0 else g + 1)"
  proof (cases "g = 65535")
    case True
    then have "hi = 65536 * (b + 1)" using d(4) by simp
    then show ?thesis using True by simp
  next
    case False
    then have "(65536 * b + (g + 1)) mod 65536 = g + 1" using d(5,6) by simp
    then show ?thesis using False d(4) by (simp add: add.assoc)
  qed
  have lm: "(- lo) mod 65536 = (if f = 0 then 0 else 65536 - f)"
    unfolding f_def by (rule zmod_zminus1_eq_if)
  have le: "lo < hi" if "a \<le> b"
    using lh
  proof (elim disjE)
    assume "lo mod 65536 = 0"
    then show ?thesis using that d f_def by linarith
  next
    assume "hi mod 65536 = 0"
    then have "g = 65535" using hm d(5) by (simp split: if_splits)
    then show ?thesis using that d by linarith
  qed
  have p: "p = \<lparr>p_from = max a cmin, p_to = min b cmax, p_ffrac = (if a < cmin \<or> f = 0 then 0 else 65536 - f),
      p_tfrac = (if b > cmax \<or> g = 65535 then 0 else g + 1)\<rparr>"
    unfolding p_def clip_span_def Let_def a_def [symmetric] b_def [symmetric] lm hm by simp
  have ib: "p_from p \<le> i \<and> i \<le> p_to p \<longleftrightarrow> a \<le> i \<and> i \<le> b" using i by (auto simp: p)
  have cv: "0 < cover lo hi i \<longleftrightarrow> lo < hi \<and> lo < 65536 * (i + 1) \<and> 65536 * i < hi"
    by (auto simp: cover_def max_def min_def)
  have "a \<le> i" if "lo < 65536 * (i + 1)"
  proof (rule ccontr)
    assume "\<not> a \<le> i"
    then have "65536 * (i + 1) \<le> 65536 * a" by simp
    then show False using that d by linarith
  qed
  moreover have "lo < 65536 * (i + 1)" if "a \<le> i" using that d(1,3) by auto
  moreover have "i \<le> b" if "65536 * i < hi" using that d(4,6) by auto
  moreover have "65536 * i < hi" if "i \<le> b" using that d(4,5) by auto
  ultimately have ab: "lo < 65536 * (i + 1) \<longleftrightarrow> a \<le> i" "65536 * i < hi \<longleftrightarrow> i \<le> b" by blast+
  show c: "0 < cover lo hi i \<longleftrightarrow> p_from p \<le> i \<and> i \<le> p_to p"
    unfolding ib cv ab using le by auto
  assume "0 < cover lo hi i"
  then have r: "a \<le> i" "i \<le> b" "lo < hi" "p_from p \<le> i" "i \<le> p_to p" using cv ab c by auto
  have sh: "min hi (65536 * (i + 1)) = 65536 * i + min 65536 (hi - 65536 * i)" "max lo (65536 * i) = 65536 * i + max 0 (lo - 65536 * i)"
    by (simp_all add: min_def max_def)
  have ok: "span_ok p" using d by (simp add: p span_ok_def)
  have j: "int (nat (i - p_from p)) = i - p_from p" "nat (i - p_from p) = 0 \<longleftrightarrow> i = p_from p" using r by auto
  have s1: "65536 < p_ffrac p + p_tfrac p" if "p_from p = p_to p" "p_ffrac p \<noteq> 0" "p_tfrac p \<noteq> 0"
  proof -
    have "\<not> a < cmin" "\<not> b > cmax" using that(2,3) by (auto simp: p split: if_splits)
    then have "a = b" using that(1) i r by (simp add: p)
    then show ?thesis using r(3) that(2,3) d by (simp add: p split: if_splits)
  qed
  have "line_frac p (nat (i - p_from p)) = (if i = p_from p \<and> p_ffrac p \<noteq> 0 then p_ffrac p else 65536) +
     (if i = p_to p \<and> p_tfrac p \<noteq> 0 then p_tfrac p else 65536) - 65536"
    using line_frac_sum [OF ok _ _ s1, of "nat (i - p_from p)"] r(4,5) j by simp
  also have "(if i = p_from p \<and> p_ffrac p \<noteq> 0 then p_ffrac p else 65536) = 65536 - max 0 (lo - 65536 * i)"
  proof (cases "i = a")
    case True
    then show ?thesis using d i(1) by (auto simp: p)
  next
    case False
    then have "lo \<le> 65536 * i" using r(1) d by linarith
    moreover have "\<not> (i = p_from p \<and> p_ffrac p \<noteq> 0)" using False by (auto simp: p max_def split: if_splits)
    ultimately show ?thesis by simp
  qed
  also have "(if i = p_to p \<and> p_tfrac p \<noteq> 0 then p_tfrac p else 65536) = min 65536 (hi - 65536 * i)"
  proof (cases "i = b")
    case True
    then show ?thesis using d i(2) by (auto simp: p)
  next
    case False
    then have "65536 * i + 65536 \<le> hi" using r(2) d by linarith
    moreover have "\<not> (i = p_to p \<and> p_tfrac p \<noteq> 0)" using False by (auto simp: p min_def split: if_splits)
    ultimately show ?thesis by simp
  qed
  finally show "line_frac p (nat (i - p_from p)) = cover lo hi i"
    using \<open>0 < cover lo hi i\<close> unfolding cover_def sh by linarith
qed

text \<open>A pixel of a rectangle of whole pixels.\<close>

lemma nth_upd_rect:
  assumes "q < length d" "xf \<le> xt" "xt < W"
  shows "upd_rows d (yf * W + xf) W (Suc xt - xf) n f ! q =
    (if xf \<le> q mod W \<and> q mod W \<le> xt \<and> yf \<le> q div W \<and> q div W < yf + n then f (q div W - yf) (q mod W - xf) (d ! q) else d ! q)"
proof -
  define X Y where "X = q mod W" and "Y = q div W"
  have W: "0 < W" "X < W" using assms by (auto simp: X_def)
  have q: "q = Y * W + X" by (simp add: X_def Y_def)
  show ?thesis
  proof (cases "yf * W + xf \<le> q")
    case False
    have "yf * W + xf \<le> Y * W + X" if "xf \<le> X" "yf \<le> Y" using that by (intro add_mono mult_le_mono1)
    then have "\<not> (xf \<le> X \<and> yf \<le> Y)" using False q by auto
    then show ?thesis using False assms(1) by (auto simp: nth_upd_rows X_def Y_def)
  next
    case True
    have yf: "yf \<le> Y"
    proof (rule ccontr)
      assume "\<not> yf \<le> Y"
      then have "Suc Y * W \<le> yf * W" by (intro mult_le_mono1) simp
      then show False using True q W by simp
    qed
    then obtain k where k: "Y = yf + k" using le_Suc_ex by blast
    show ?thesis
    proof (cases "xf \<le> X")
      case x: True
      have "q - (yf * W + xf) = k * W + (X - xf)" using q k x by (simp add: distrib_right)
      then have "(q - (yf * W + xf)) div W = k" "(q - (yf * W + xf)) mod W = X - xf" using W by simp_all
      then show ?thesis using True assms x k by (auto simp: nth_upd_rows X_def [symmetric] Y_def [symmetric])
    next
      case False
      then have "0 < k" using True q k by (cases k) auto
      then obtain k' where k': "k = Suc k'" by (cases k) auto
      have "q - (yf * W + xf) = k' * W + (W + X - xf)" using q k k' False assms by (simp add: distrib_right)
      then have "(q - (yf * W + xf)) mod W = W + X - xf" using W False by simp
      moreover have "\<not> W + X - xf < Suc xt - xf" using assms False by auto
      ultimately show ?thesis using True assms False by (auto simp: nth_upd_rows X_def [symmetric])
    qed
  qed
qed

lemma column_weight_frac:
  assumes "p_from p \<le> p_to p" "k < nat (p_to p - p_from p + 1)" "span_ok p"
  shows "column_weight a (p_ffrac (merge_span p)) (p_tfrac (merge_span p)) (nat (p_to p - p_from p + 1)) k =
    (if line_frac p k = 65536 then a else edge_weight a (line_frac p k))"
proof -
  have "Suc k = nat (p_to p - p_from p + 1) \<longleftrightarrow> int k = p_to p - p_from p" using assms(1) by linarith
  then show ?thesis using merge_span_ok [OF assms(3,1)] by (auto simp: column_weight_def line_frac_def)
qed

definition rect_pixel :: "'f Renderer \<Rightarrow> int \<times> int \<Rightarrow> int \<times> int \<Rightarrow> int \<Rightarrow> int \<Rightarrow> jint \<Rightarrow> jint" where
  "rect_pixel r xs ys X Y p = (
     let cx = cover (fst xs) (snd xs) X; cy = cover (fst ys) (snd ys) Y
     in if r_clip_bbMinX r \<le> X \<and> X \<le> r_clip_bbMaxX r \<and> r_clip_bbMinY r \<le> Y \<and> Y \<le> r_clip_bbMaxY r \<and> 0 < cx \<and> 0 < cy
        then over_px (rect_weight (r_ualpha r) cx cy) (r_ured r) (r_ugreen r) (r_ublue r) p else p)"

text \<open>An interval has a pixel between the two bounds of the clip.\<close>

definition visible :: "int \<times> int \<Rightarrow> int \<Rightarrow> int \<Rightarrow> bool" where
  "visible s cmin cmax \<longleftrightarrow> (\<exists>i\<in>{cmin..cmax}. 0 < cover (fst s) (snd s) i)"

definition interval_ok :: "int \<times> int \<Rightarrow> bool" where
  "interval_ok s \<longleftrightarrow> fst s < snd s \<or> fst s mod 65536 = 0 \<or> snd s mod 65536 = 0"

lemma shown_interval_ok: "0 < w \<Longrightarrow> interval_ok (shown_lo e1 x, shown_hi e2 (x + w))"
  by (auto simp: interval_ok_def shown_lo_def shown_hi_def)

lemma visible_clip_span:
  fixes cmin cmax :: int
  assumes "interval_ok s"
  defines "p \<equiv> clip_span cmin cmax (fst s) (snd s)"
  shows "visible s cmin cmax \<longleftrightarrow> p_from p \<le> p_to p"
proof -
  have b: "cmin \<le> p_from p" "p_to p \<le> cmax" by (simp_all add: p_def clip_span_def Let_def)
  have c: "0 < cover (fst s) (snd s) i \<longleftrightarrow> p_from p \<le> i \<and> i \<le> p_to p" if "i \<in> {cmin..cmax}" for i
    unfolding p_def by (rule clip_span_cover(1)) (use that assms(1) in \<open>auto simp: interval_ok_def\<close>)
  show ?thesis
  proof
    assume "visible s cmin cmax"
    then obtain i where "i \<in> {cmin..cmax}" "0 < cover (fst s) (snd s) i" by (auto simp: visible_def)
    then show "p_from p \<le> p_to p" using c [of i] by auto
  next
    assume "p_from p \<le> p_to p"
    moreover from this b have "p_from p \<in> {cmin..cmax}" by simp
    ultimately show "visible s cmin cmax" using c [of "p_from p"] by (auto simp: visible_def)
  qed
qed

lemma rect_image_pixel:
  assumes "clip_ok r d" "interval_ok sx" "interval_ok sy" "q < length d"
  defines "xs \<equiv> clip_span (r_clip_bbMinX r) (r_clip_bbMaxX r) (fst sx) (snd sx)"
    and "ys \<equiv> clip_span (r_clip_bbMinY r) (r_clip_bbMaxY r) (fst sy) (snd sy)"
  assumes ne: "p_from xs \<le> p_to xs" "p_from ys \<le> p_to ys"
  shows "rect_image r d xs ys ! q =
    rect_pixel r sx sy (int q mod s_width (r_surface r)) (int q div s_width (r_surface r)) (d ! q)"
proof -
  let ?W = "s_width (r_surface r)"
  have ok: "span_ok xs" "span_ok ys" by (auto simp: xs_def ys_def clip_span_def span_ok_def Let_def)
  have cl: "r_clip_bbMinX r \<le> p_from xs" "p_to xs \<le> r_clip_bbMaxX r" "r_clip_bbMinY r \<le> p_from ys" "p_to ys \<le> r_clip_bbMaxY r"
    by (simp_all add: xs_def ys_def clip_span_def Let_def)
  then have b: "0 \<le> p_from xs" "p_to xs < ?W" "0 \<le> p_from ys" using assms(1) by (auto simp: clip_ok_def)
  define xf xt yf n W where "xf = nat (p_from xs)" and "xt = nat (p_to xs)" and "yf = nat (p_from ys)"
    and "n = nat (p_to ys - p_from ys + 1)" and "W = nat ?W"
  have i: "p_from xs = int xf" "p_to xs = int xt" "p_from ys = int yf" "?W = int W" "p_to ys = int yf + int n - 1"
    using b ne by (auto simp: xf_def xt_def yf_def n_def W_def)
  have nn: "nat (p_from ys * ?W + p_from xs) = yf * W + xf" "nat (p_to xs - p_from xs + 1) = Suc xt - xf"
    using ne unfolding i by (simp_all add: nat_int_add flip: of_nat_mult)
  let ?X = "int q mod ?W" and ?Y = "int q div ?W"
  have XY: "?X = int (q mod W)" "?Y = int (q div W)" unfolding i by (simp_all add: zmod_int zdiv_int)
  have px: "rect_image r d xs ys ! q = (if xf \<le> q mod W \<and> q mod W \<le> xt \<and> yf \<le> q div W \<and> q div W < yf + n
      then over_px (column_weight (r_ualpha r * line_frac ys (q div W - yf) div 65536) (p_ffrac (merge_span xs))
           (p_tfrac (merge_span xs)) (Suc xt - xf) (q mod W - xf)) (r_ured r) (r_ugreen r) (r_ublue r) (d ! q) else d ! q)"
    unfolding rect_image_def nn n_def [symmetric] W_def [symmetric]
    by (rule nth_upd_rect [OF assms(4)]) (use ne b i in auto)
  have nd: "nat (int k - int l) = k - l" for k l by linarith
  have inX: "xf \<le> q mod W \<and> q mod W \<le> xt \<longleftrightarrow> r_clip_bbMinX r \<le> ?X \<and> ?X \<le> r_clip_bbMaxX r \<and> 0 < cover (fst sx) (snd sx) ?X"
    and fX: "xf \<le> q mod W \<Longrightarrow> q mod W \<le> xt \<Longrightarrow> line_frac xs (q mod W - xf) = cover (fst sx) (snd sx) ?X"
    using clip_span_cover [of "r_clip_bbMinX r" ?X "r_clip_bbMaxX r" "fst sx" "snd sx", folded xs_def] assms(2) cl(1,2) i(1,2) XY(1)
    by (auto simp: interval_ok_def nd)
  have inY: "yf \<le> q div W \<and> q div W < yf + n \<longleftrightarrow> r_clip_bbMinY r \<le> ?Y \<and> ?Y \<le> r_clip_bbMaxY r \<and> 0 < cover (fst sy) (snd sy) ?Y"
    and fY: "yf \<le> q div W \<Longrightarrow> q div W < yf + n \<Longrightarrow> line_frac ys (q div W - yf) = cover (fst sy) (snd sy) ?Y"
    using clip_span_cover [of "r_clip_bbMinY r" ?Y "r_clip_bbMaxY r" "fst sy" "snd sy", folded ys_def] assms(3) cl(3,4) i(3,5) XY(2)
    by (auto simp: interval_ok_def nd)
  show ?thesis
  proof (cases "xf \<le> q mod W \<and> q mod W \<le> xt \<and> yf \<le> q div W \<and> q div W < yf + n")
    case True
    then have k: "q mod W - xf < nat (p_to xs - p_from xs + 1)" using nn(2) by linarith
    have "column_weight (r_ualpha r * line_frac ys (q div W - yf) div 65536) (p_ffrac (merge_span xs))
        (p_tfrac (merge_span xs)) (Suc xt - xf) (q mod W - xf) =
      rect_weight (r_ualpha r) (cover (fst sx) (snd sx) ?X) (cover (fst sy) (snd sy) ?Y)"
      using column_weight_frac [OF ne(1) k ok(1)] fX fY True
      by (simp add: nn(2) rect_weight_def edge_weight_def Let_def)
    then show ?thesis using px True inX inY by (simp add: rect_pixel_def Let_def)
  next
    case False
    then show ?thesis using px inX inY by (auto simp: rect_pixel_def Let_def)
  qed
qed

section \<open>Properties\<close>

text \<open>C1: \<^verbatim>\<open>fillRect\<close> with a flat colour and the source-over rule, from any reachable state of the renderer and with a
  clip inside of the surface: no access out of range, no null call, no exception, and the state stays
  consistent, for all arguments. For a rectangle of positive size whose coordinates do not overflow, every pixel of the
  clip is blended with the weight of the part of it that the rectangle covers (alpha times the coverage of its
  column and of its line, rounded down twice, so less than 2 of 255 below or above the exact product), every other pixel
  stays, and nothing is drawn if no pixel of the clip is covered.\<close>

theorem fillRect_flat_correct:
  assumes "reachable F (n_rdr n)" "flat_ready n d"
  shows "\<exists>n'. fillRect E (Some d) x y w h lEdge rEdge tEdge bEdge n = Some (n', None) \<and> coherent (n_rdr n') \<and>
    (0 < w \<and> 0 < h \<and> is_jint x \<and> is_jint y \<and> is_jint (x + w) \<and> is_jint (y + h) \<longrightarrow>
      (let r = n_rdr n; W = s_width (r_surface r);
           sx = (shown_lo lEdge x, shown_hi rEdge (x + w)); sy = (shown_lo tEdge y, shown_hi bEdge (y + h))
       in if visible sx (r_clip_bbMinX r) (r_clip_bbMaxX r) \<and> visible sy (r_clip_bbMinY r) (r_clip_bbMaxY r)
          then length (s_data (r_surface (n_rdr n'))) = length d \<and>
            (\<forall>q < length d. s_data (r_surface (n_rdr n')) ! q = rect_pixel r sx sy (int q mod W) (int q div W) (d ! q)) \<and>
            (\<forall>cx\<in>{0..65536}. \<forall>cy\<in>{0..65536}.
               \<bar>rect_weight (r_ualpha r) cx cy * 65536 ^ 2 - r_ualpha r * cx * cy\<bar> < 2 * 65536 ^ 2)
          else n_rdr n' = r\<lparr>r_rectX := drop_bit 16 x, r_rectY := drop_bit 16 y\<rparr>))"
proof -
  define xs ys where "xs = fill_span x w lEdge rEdge (r_clip_bbMinX (n_rdr n)) (r_clip_bbMaxX (n_rdr n))"
    and "ys = fill_span y h tEdge bEdge (r_clip_bbMinY (n_rdr n)) (r_clip_bbMaxY (n_rdr n))"
  define sx sy where "sx = (shown_lo lEdge x, shown_hi rEdge (x + w))" and "sy = (shown_lo tEdge y, shown_hi bEdge (y + h))"
  note c = reachable_coherent [OF assms(1)]
  have rdy: "clip_ok (n_rdr n) d" "0 \<le> r_ualpha (n_rdr n)" "r_ualpha (n_rdr n) \<le> 255"
    using assms(2) by (auto simp: flat_ready_def is_u8_def)
  have sp: "xs = clip_span (r_clip_bbMinX (n_rdr n)) (r_clip_bbMaxX (n_rdr n)) (fst sx) (snd sx)"
      "ys = clip_span (r_clip_bbMinY (n_rdr n)) (r_clip_bbMaxY (n_rdr n)) (fst sy) (snd sy)" "interval_ok sx" "interval_ok sy"
    if "0 < w \<and> 0 < h \<and> is_jint x \<and> is_jint y \<and> is_jint (x + w) \<and> is_jint (y + h)"
    using that by (simp_all add: xs_def ys_def sx_def sy_def fill_span_clip_span shown_interval_ok)
  have vis: "visible sx (r_clip_bbMinX (n_rdr n)) (r_clip_bbMaxX (n_rdr n)) \<and>
      visible sy (r_clip_bbMinY (n_rdr n)) (r_clip_bbMaxY (n_rdr n)) \<longleftrightarrow> p_from xs \<le> p_to xs \<and> p_from ys \<le> p_to ys"
    if "0 < w \<and> 0 < h \<and> is_jint x \<and> is_jint y \<and> is_jint (x + w) \<and> is_jint (y + h)"
    using visible_clip_span [OF sp(3) [OF that]] visible_clip_span [OF sp(4) [OF that]] sp(1,2) [OF that] by simp
  show ?thesis
  proof (cases "p_from xs \<le> p_to xs \<and> p_from ys \<le> p_to ys")
    case True
    then obtain n' where n': "fillRect E (Some d) x y w h lEdge rEdge tEdge bEdge n = Some (n', None)" "coherent (n_rdr n')"
        "s_data (r_surface (n_rdr n')) = rect_image (n_rdr n) d xs ys"
      using fillRect_flat [OF c assms(2), of x w lEdge rEdge y h tEdge bEdge E] by (auto simp: xs_def ys_def)
    have px: "rect_image (n_rdr n) d xs ys ! q = rect_pixel (n_rdr n) sx sy (int q mod s_width (r_surface (n_rdr n)))
        (int q div s_width (r_surface (n_rdr n))) (d ! q)"
      if "0 < w \<and> 0 < h \<and> is_jint x \<and> is_jint y \<and> is_jint (x + w) \<and> is_jint (y + h)" "q < length d" for q
      using rect_image_pixel [OF rdy(1) sp(3,4) [OF that(1)] that(2), folded sp(1,2) [OF that(1)]] True by simp
    have "length (rect_image (n_rdr n) d xs ys) = length d" by (simp add: rect_image_def)
    then show ?thesis
      using n' px vis True rect_weight_close [OF rdy(2,3)] by (auto simp: Let_def sx_def [symmetric] sy_def [symmetric])
  next
    case False
    have "coherent ((n_rdr n)\<lparr>r_rectX := drop_bit 16 x, r_rectY := drop_bit 16 y\<rparr>)"
      using c by (subst coherent_cong [of _ "n_rdr n"]) (simp_all add: levels modes_ok_def)
    moreover have "fillRect E (Some d) x y w h lEdge rEdge tEdge bEdge n =
        Some (n\<lparr>n_rdr := (n_rdr n)\<lparr>r_rectX := drop_bit 16 x, r_rectY := drop_bit 16 y\<rparr>\<rparr>, None)"
      using False by (intro fillRect_empty) (simp add: xs_def ys_def Let_def)
    ultimately show ?thesis using vis False by (simp add: Let_def sx_def [symmetric] sy_def [symmetric]) blast
  qed
qed

text \<open>A red rectangle from a quarter to three quarters of column 1, over both lines of the image.\<close>

definition wit_env :: "int Env" where
  "wit_env = \<lparr>e_fops = wit_fops, e_alloc = True\<rparr>"

definition wit_native :: "int Native" where
  "wit_native = \<lparr>n_rdr = renderer_setColor 255 0 0 255 (createCommon 0 wit_surface), n_memError = False,
     n_gamma = \<lparr>currentGamma = 0, gammaArray = [], invGammaArray = []\<rparr>\<rparr>"

lemma wit_native_reachable: "reachable F (n_rdr wit_native)"
  unfolding wit_native_def by (auto intro!: reachable.color reachable.create simp: wit_surface_def)

lemma wit_native_ready: "flat_ready wit_native [-1, -1, -1, -1, -1, -1]"
  by (simp add: flat_ready_def wit_native_def clip_ok_def renderer_setColor_def createCommon_def wit_surface_def
    setPaintMode_def mark_def Let_def is_u8_def zero_Renderer_def pisces_consts)

theorem fillRect_flat_correct_witness:
  "\<exists>n'. fillRect wit_env (Some [-1, -1, -1, -1, -1, -1]) 81920 0 32768 131072 0 0 0 0 wit_native = Some (n', None) \<and>
    s_data (r_surface (n_rdr n')) = [-1, - 32897, -1, -1, - 32897, -1]"
proof -
  let ?sx = "(shown_lo 0 81920, shown_hi 0 (81920 + 32768))" and ?sy = "(shown_lo 0 0, shown_hi 0 (0 + 131072))"
  have v: "visible ?sx (r_clip_bbMinX (n_rdr wit_native)) (r_clip_bbMaxX (n_rdr wit_native)) \<and>
      visible ?sy (r_clip_bbMinY (n_rdr wit_native)) (r_clip_bbMaxY (n_rdr wit_native))"
    by code_simp
  have p: "map (\<lambda>q. rect_pixel (n_rdr wit_native) ?sx ?sy (int q mod s_width (r_surface (n_rdr wit_native)))
      (int q div s_width (r_surface (n_rdr wit_native))) (-1)) [0..<6] = [-1, - 32897, -1, -1, - 32897, -1]"
    by code_simp
  have j: "is_jint 81920 \<and> is_jint 0 \<and> is_jint (81920 + 32768) \<and> is_jint (0 + 131072)" by (simp add: is_jint_def)
  obtain n' where n': "fillRect wit_env (Some [-1, -1, -1, -1, -1, -1]) 81920 0 32768 131072 0 0 0 0 wit_native = Some (n', None)"
      "length (s_data (r_surface (n_rdr n'))) = 6"
      "\<forall>q < 6. s_data (r_surface (n_rdr n')) ! q = rect_pixel (n_rdr wit_native) ?sx ?sy
        (int q mod s_width (r_surface (n_rdr wit_native))) (int q div s_width (r_surface (n_rdr wit_native))) ([-1, -1, -1, -1, -1, -1] ! q)"
    using fillRect_flat_correct [OF wit_native_reachable wit_native_ready, of wit_env 81920 0 32768 131072 0 0 0 0] j
    unfolding Let_def if_P [OF v] by auto
  have w: "[-1, -1, -1, -1, -1, -1 :: jint] ! q = -1" if "q < 6" for q
    using that by (auto simp: less_Suc_eq numeral_eq_Suc)
  have "s_data (r_surface (n_rdr n')) = map (\<lambda>q. s_data (r_surface (n_rdr n')) ! q) [0..<6]"
    using map_nth [of "s_data (r_surface (n_rdr n'))"] n'(2) by simp
  also have "\<dots> = [-1, - 32897, -1, -1, - 32897, -1]"
    unfolding p [symmetric] by (rule map_cong) (use n'(3) w in auto)
  finally show ?thesis using n'(1) by blast
qed

text \<open>The coverages that \<^verbatim>\<open>fillRect\<close> gives to the pixels of an unclipped interval of positive width add up to
  exactly that width (in 65536ths of a pixel), also when both ends fall into one pixel.\<close>

lemma fill_span_coverage:
  assumes "is_jint (x + w)" "0 < w" "cmin \<le> x div 65536" "(x + w) div 65536 \<le> cmax"
  shows "let p = fill_span x w IMAGE_FRAC_EDGE_KEEP IMAGE_FRAC_EDGE_KEEP cmin cmax in
    p_from p = x div 65536 \<and> p_from p \<le> p_to p \<and> (\<Sum>j < nat (p_to p - p_from p + 1). line_frac p j) = w"
proof -
  have "p_from (fill_span x w IMAGE_FRAC_EDGE_KEEP IMAGE_FRAC_EDGE_KEEP cmin cmax) = x div 65536"
    by (subst fill_span_keep [of x "x div 65536" "x mod 65536" w "(x + w) div 65536" "(x + w) mod 65536"])
      (use assms in simp_all)
  then show ?thesis using fill_span_sum [OF assms] by (simp add: Let_def)
qed

lemma fill_span_coverage_witness:
  "(let p = fill_span 98304 40000 IMAGE_FRAC_EDGE_KEEP IMAGE_FRAC_EDGE_KEEP 0 9 in
    p_from p = 1 \<and> (\<Sum>j < nat (p_to p - p_from p + 1). line_frac p j) = 40000)"
  using fill_span_coverage [of 98304 40000 0 9] by (auto simp: Let_def is_jint_def)

text \<open>An interval of width zero that does not start at a pixel boundary is not empty for \<^verbatim>\<open>fillRect\<close>: the two
  fractions of its pixel cancel to zero, which stands for a fully covered pixel.\<close>

lemma fill_span_zero_width:
  assumes "is_jint x" "x mod 65536 \<noteq> 0" "cmin \<le> x div 65536" "x div 65536 \<le> cmax"
  shows "let p = fill_span x 0 IMAGE_FRAC_EDGE_KEEP IMAGE_FRAC_EDGE_KEEP cmin cmax in
    p_from p = x div 65536 \<and> p_to p = x div 65536 \<and> line_frac p 0 = 65536"
proof -
  have p: "fill_span x 0 IMAGE_FRAC_EDGE_KEEP IMAGE_FRAC_EDGE_KEEP cmin cmax =
    \<lparr>p_from = x div 65536, p_to = x div 65536, p_ffrac = 65536 - x mod 65536, p_tfrac = x mod 65536\<rparr>"
    by (subst fill_span_keep [of x "x div 65536" "x mod 65536" 0 "x div 65536" "x mod 65536"])
      (use assms in simp_all)
  then show ?thesis
    using assms(2) unfolding p Let_def by (simp add: line_frac_def merge_span_def or_eq_0)
qed

lemma fill_span_zero_width_witness:
  "line_frac (fill_span 32768 0 IMAGE_FRAC_EDGE_KEEP IMAGE_FRAC_EDGE_KEEP 0 9) 0 = 65536"
  using fill_span_zero_width [of 32768 0 9] by (simp add: Let_def is_jint_def)

end
