(* ===== verification/JPiscesMask.thy ===== *)
theory JPiscesMask
  imports JPiscesFill
begin

text \<open>
  Masks and cleared rectangles: what \<^verbatim>\<open>fillAlphaMaskImpl\<close>, \<^verbatim>\<open>fillLCDAlphaMaskImpl\<close> and \<^verbatim>\<open>clearRectImpl\<close> of
  \<^verbatim>\<open>JPiscesRenderer.c\<close> draw. The interface \<open>row_blitter\<close> states what the loop over the lines of a mask
  needs from a row routine; it is interpreted on the alpha mask and on the LCD mask routine.
\<close>

section \<open>The interface of a row routine\<close>

text \<open>\<open>bpp\<close> bytes of the mask belong to a pixel, \<open>px r off k\<close> is what happens to column \<open>k\<close> of a line whose
  mask starts at \<open>off\<close>.\<close>

locale row_blitter =
  fixes E :: "'f Env"
    and g :: "'f Gamma"
    and ok :: "'f Renderer \<Rightarrow> bool"
    and px :: "'f Renderer \<Rightarrow> int \<Rightarrow> nat \<Rightarrow> jint \<Rightarrow> jint"
    and bpp :: int
  assumes blit: "ok r \<Longrightarrow> area_ok r 1 \<Longrightarrow> 0 \<le> r_maskOffset r \<Longrightarrow>
      r_maskOffset r + bpp * touched_w r \<le> int (length (r_mask_byteData r)) \<Longrightarrow>
      prepare_paint E r w 1 \<bind> (\<lambda>r. call_emitRows g r 1) =
        Some (r\<lparr>r_data := upd_seg (r_data r) (area_start r) (nat (touched_w r)) (px r (r_maskOffset r))\<rparr>)"
    and ok_blit: "ok r \<Longrightarrow> ok (r\<lparr>r_data := upd_seg (r_data r) i n (px r off)\<rparr>)"
    and ok_move: "ok (r\<lparr>r_currImageOffset := o', r_maskOffset := m, r_rowNum := rn, r_currX := cx, r_currY := cy\<rparr>) = ok r"
    and px_blit: "px (r\<lparr>r_data := d\<rparr>) = px r"
    and px_move: "px (r\<lparr>r_currImageOffset := o', r_maskOffset := m, r_rowNum := rn, r_currX := cx, r_currY := cy\<rparr>) = px r"
begin

text \<open>\<open>rows\<close> more lines fit into the surface and into the mask.\<close>

definition fits :: "'f Renderer \<Rightarrow> int \<Rightarrow> nat \<Rightarrow> bool" where
  "fits r maskWidth rows \<longleftrightarrow> r_imagePixelStride r = 1 \<and> r_imageScanlineStride r = s_width (r_surface r) \<and>
     0 \<le> r_minTouched r \<and> r_minTouched r \<le> r_maxTouched r \<and> r_maxTouched r < s_width (r_surface r) \<and>
     s_width (r_surface r) < 2 ^ 31 \<and> length (r_data r) < 2 ^ 31 \<and> length (r_mask_byteData r) < 2 ^ 31 \<and>
     0 \<le> maskWidth \<and> 0 \<le> bpp \<and>
     (0 < rows \<longrightarrow> 0 \<le> r_currY r \<and> (r_currY r + int rows) * s_width (r_surface r) \<le> int (length (r_data r)) \<and>
       0 \<le> r_maskOffset r \<and> r_maskOffset r + (int rows - 1) * maskWidth + bpp * touched_w r \<le> int (length (r_mask_byteData r)))"

lemma fits_step:
  assumes "fits r mw (Suc rows)"
  defines "W \<equiv> s_width (r_surface r)"
  shows "touched_w r = r_maxTouched r - r_minTouched r + 1" "0 < touched_w r" "r_minTouched r + touched_w r \<le> W"
    "s32 (r_currY r * W) = r_currY r * W" "0 \<le> r_currY r * W" "(r_currY r + 1) * W \<le> int (length (r_data r))"
    "r_maskOffset r + bpp * touched_w r \<le> int (length (r_mask_byteData r))"
    "0 < rows \<Longrightarrow> s32 (r_currY r + 1) = r_currY r + 1" "0 < rows \<Longrightarrow> s32 (r_maskOffset r + mw) = r_maskOffset r + mw"
proof -
  have f: "0 \<le> r_minTouched r" "r_minTouched r \<le> r_maxTouched r" "r_maxTouched r < W" "W < 2147483648"
    "int (length (r_data r)) < 2147483648" "int (length (r_mask_byteData r)) < 2147483648" "0 \<le> mw" "0 \<le> bpp" "0 \<le> r_currY r"
    "(r_currY r + 1 + int rows) * W \<le> int (length (r_data r))" "0 \<le> r_maskOffset r"
    "r_maskOffset r + int rows * mw + bpp * touched_w r \<le> int (length (r_mask_byteData r))"
    using assms by (auto simp: fits_def add.assoc)
  show t: "touched_w r = r_maxTouched r - r_minTouched r + 1"
    unfolding touched_w_def if_P [OF f(2)] by (rule s32_eq) (use f in linarith)+
  show t2: "0 < touched_w r" "r_minTouched r + touched_w r \<le> W" unfolding t using f by linarith+
  have W: "1 \<le> W" using f by linarith
  have "(r_currY r + 1) * W \<le> (r_currY r + 1 + int rows) * W" using W by (intro mult_right_mono) auto
  then show l: "(r_currY r + 1) * W \<le> int (length (r_data r))" using f by linarith
  show p: "0 \<le> r_currY r * W" using f W by simp
  show "s32 (r_currY r * W) = r_currY r * W"
    by (rule s32_eq) (use p l [unfolded distrib_right] f(5) W in linarith)+
  have b: "0 \<le> bpp * touched_w r" "0 \<le> int rows * mw" using f t2 by simp_all
  then show "r_maskOffset r + bpp * touched_w r \<le> int (length (r_mask_byteData r))" using f by linarith
  define Y where "Y = r_currY r + 1"
  have "Y * 1 \<le> Y * W" "0 \<le> Y" using f W by (auto simp: Y_def intro: mult_left_mono)
  then show "s32 (r_currY r + 1) = r_currY r + 1"
    unfolding Y_def [symmetric] by (intro s32_eq) (use f l [folded Y_def] in linarith)+
  show "s32 (r_maskOffset r + mw) = r_maskOffset r + mw" if "0 < rows"
  proof -
    have "1 * mw \<le> int rows * mw" using that f by (intro mult_right_mono) auto
    then show ?thesis by (intro s32_eq) (use f b in linarith)+
  qed
qed

text \<open>One line, and the state with which the loop goes on.\<close>

definition next_row :: "int \<Rightarrow> jint \<Rightarrow> 'f Renderer \<Rightarrow> 'f Renderer" where
  "next_row mw x r = r\<lparr>r_data := upd_seg (r_data r) (nat (r_currY r * s_width (r_surface r) + r_minTouched r))
       (nat (touched_w r)) (px r (r_maskOffset r)), r_currImageOffset := r_currY r * s_width (r_surface r),
     r_maskOffset := s32 (r_maskOffset r + mw), r_rowNum := s32 (r_rowNum r + 1), r_currX := x,
     r_currY := s32 (r_currY r + 1)\<rparr>"

lemma mask_lines_step:
  assumes "ok r" "fits r mw (Suc rows)"
  shows "mask_lines E g w mw x (Suc rows) r = mask_lines E g w mw x rows (next_row mw x r)"
    "ok (next_row mw x r)" "fits (next_row mw x r) mw rows"
proof -
  let ?W = "s_width (r_surface r)"
  note s = fits_step [OF assms(2)]
  define q where "q = r\<lparr>r_currImageOffset := r_currY r * ?W, r_maskOffset := r_maskOffset r, r_rowNum := r_rowNum r,
    r_currX := r_currX r, r_currY := r_currY r\<rparr>"
  have q: "r_minTouched q = r_minTouched r" "r_maxTouched q = r_maxTouched r" "r_maskOffset q = r_maskOffset r"
    "r_mask_byteData q = r_mask_byteData r" "r_data q = r_data r" "r_currImageOffset q = r_currY r * ?W"
    "r_surface q = r_surface r" "touched_w q = touched_w r"
    by (simp_all add: q_def touched_w_def)
  have okq: "ok q" "px q = px r" unfolding q_def ok_move px_move using assms(1) by simp_all
  have "area_ok q 1"
    unfolding area_ok_def q using assms(2) s by (simp add: fits_def q_def distrib_right touched_w_def)
  from blit [OF okq(1) this, of w] have b: "prepare_paint E q w 1 \<bind> (\<lambda>r. call_emitRows g r 1) =
      Some (q\<lparr>r_data := upd_seg (r_data r) (nat (r_currY r * ?W + r_minTouched r)) (nat (touched_w r)) (px r (r_maskOffset r))\<rparr>)"
    using assms(2) s(7) by (simp add: fits_def q okq(2) area_start_def)
  have "r\<lparr>r_currImageOffset := s32 (r_currY r * ?W)\<rparr> = q" by (simp add: q_def s(4))
  then have "mask_lines E g w mw x (Suc rows) r = prepare_paint E q w 1 \<bind> (\<lambda>r. call_emitRows g r 1 \<bind>
      (\<lambda>r. mask_lines E g w mw x rows (r\<lparr>r_maskOffset := s32 (r_maskOffset r + mw), r_rowNum := s32 (r_rowNum r + 1),
         r_currX := x, r_currY := s32 (r_currY r + 1)\<rparr>)))"
    by (simp add: Let_def)
  also have "\<dots> = mask_lines E g w mw x rows (next_row mw x r)"
    unfolding bind_assoc [symmetric] b Option.bind.simps
    by (rule arg_cong [where f = "mask_lines E g w mw x rows"]) (simp add: next_row_def q_def)
  finally show "mask_lines E g w mw x (Suc rows) r = mask_lines E g w mw x rows (next_row mw x r)" .
  have "next_row mw x r = (r\<lparr>r_data := upd_seg (r_data r) (nat (r_currY r * ?W + r_minTouched r))
       (nat (touched_w r)) (px r (r_maskOffset r))\<rparr>)\<lparr>r_currImageOffset := r_currY r * ?W,
     r_maskOffset := s32 (r_maskOffset r + mw), r_rowNum := s32 (r_rowNum r + 1), r_currX := x, r_currY := s32 (r_currY r + 1)\<rparr>"
    by (simp add: next_row_def)
  then show "ok (next_row mw x r)" using ok_blit [OF assms(1)] by (simp only: ok_move)
  show "fits (next_row mw x r) mw rows"
    using assms(2) s(8,9) by (auto simp: fits_def next_row_def touched_w_def algebra_simps)
qed

lemma px_next_row: "px (next_row mw x r) = px r"
proof -
  have "next_row mw x r = (r\<lparr>r_data := upd_seg (r_data r) (nat (r_currY r * s_width (r_surface r) + r_minTouched r))
       (nat (touched_w r)) (px r (r_maskOffset r))\<rparr>)\<lparr>r_currImageOffset := r_currY r * s_width (r_surface r),
     r_maskOffset := s32 (r_maskOffset r + mw), r_rowNum := s32 (r_rowNum r + 1), r_currX := x, r_currY := s32 (r_currY r + 1)\<rparr>"
    by (simp add: next_row_def)
  then show ?thesis by (simp only: px_move px_blit)
qed

lemma mask_lines_upd:
  assumes "ok r" "fits r mw rows"
  shows "\<exists>o' m rn cx cy. mask_lines E g w mw x rows r = Some (r\<lparr>r_data :=
      upd_rows (r_data r) (nat (r_currY r * s_width (r_surface r) + r_minTouched r)) (nat (s_width (r_surface r)))
        (nat (touched_w r)) rows (\<lambda>j. px r (r_maskOffset r + int j * mw)),
      r_currImageOffset := o', r_maskOffset := m, r_rowNum := rn, r_currX := cx, r_currY := cy\<rparr>)"
  using assms
proof (induction rows arbitrary: r)
  case 0
  have "r = r\<lparr>r_data := r_data r, r_currImageOffset := r_currImageOffset r, r_maskOffset := r_maskOffset r,
    r_rowNum := r_rowNum r, r_currX := r_currX r, r_currY := r_currY r\<rparr>" by simp
  then show ?case unfolding mask_lines.simps upd_rows_0 by blast
next
  case (Suc rows)
  let ?q = "next_row mw x r" and ?W = "s_width (r_surface r)"
  note st = mask_lines_step [OF Suc.prems] and s = fits_step [OF Suc.prems(2)]
  have fr: "r_surface ?q = r_surface r" "r_minTouched ?q = r_minTouched r" "touched_w ?q = touched_w r"
    by (simp_all add: next_row_def touched_w_def)
  obtain o' m rn cx cy where ih: "mask_lines E g w mw x rows ?q = Some (?q\<lparr>r_data :=
      upd_rows (r_data ?q) (nat (r_currY ?q * ?W + r_minTouched r)) (nat ?W)
        (nat (touched_w r)) rows (\<lambda>j. px r (r_maskOffset ?q + int j * mw)),
      r_currImageOffset := o', r_maskOffset := m, r_rowNum := rn, r_currX := cx, r_currY := cy\<rparr>)"
    using Suc.IH [OF st(2,3), of x] unfolding px_next_row fr by blast
  have "upd_rows (r_data ?q) (nat (r_currY ?q * ?W + r_minTouched r)) (nat ?W) (nat (touched_w r)) rows
        (\<lambda>j. px r (r_maskOffset ?q + int j * mw)) =
      upd_rows (r_data r) (nat (r_currY r * ?W + r_minTouched r)) (nat ?W) (nat (touched_w r)) (Suc rows)
        (\<lambda>j. px r (r_maskOffset r + int j * mw))" (is "?lhs = ?rhs")
  proof -
    have w: "nat (touched_w r) \<le> nat ?W" "0 < nat ?W" "0 \<le> r_minTouched r" using s(2,3) Suc.prems(2) by (auto simp: fits_def)
    show ?thesis
    proof (cases "rows = 0")
      case True
      then show ?thesis using upd_rows_1 [OF w(1,2), of "r_data r" _ "\<lambda>j. px r (r_maskOffset r + int j * mw)"]
        by (simp add: next_row_def)
    next
      case False
      have "nat (r_currY r * ?W + r_minTouched r) + nat ?W = nat ((r_currY r + 1) * ?W + r_minTouched r)"
        using s(5) w by (simp add: distrib_right nat_add_distrib [symmetric] algebra_simps)
      then show ?thesis
        using upd_rows_Suc [OF w(1,2), of "r_data r" "nat (r_currY r * ?W + r_minTouched r)"
            "\<lambda>j. px r (r_maskOffset r + int j * mw)" rows] s(8,9) False
        by (simp add: next_row_def algebra_simps)
    qed
  qed
  then have "mask_lines E g w mw x (Suc rows) r = Some (r\<lparr>r_data := ?rhs, r_currImageOffset := o', r_maskOffset := m,
      r_rowNum := rn, r_currX := cx, r_currY := cy\<rparr>)"
    unfolding st(1) ih by (simp only: option.inject) (simp add: next_row_def)
  then show ?case by blast
qed

end

section \<open>The two mask routines\<close>

definition alpha_ready :: "'f Renderer \<Rightarrow> bool" where
  "alpha_ready r \<longleftrightarrow> r_genPaint r = None \<and> r_emitRows r = Some BlitSrcOverMask \<and> colour_ok r \<and> 0 \<le> r_alphaWidth r \<and>
     length (r_mask_byteData r) < 2 ^ 31 \<and> (\<forall>p \<in> set (r_data r). is_jint p)"

definition alpha_px :: "'f Renderer \<Rightarrow> int \<Rightarrow> nat \<Rightarrow> jint \<Rightarrow> jint" where
  "alpha_px r off k = over_px (weight r (r_mask_byteData r ! nat (off + int k))) (r_cred r) (r_cgreen r) (r_cblue r)"

lemma upd_seg_all: "(\<forall>x \<in> set d. P x) \<Longrightarrow> (\<And>k x. P (f k x)) \<Longrightarrow> \<forall>x \<in> set (upd_seg d i n f). P x"
  by (auto simp: upd_seg_def)

interpretation alpha: row_blitter E g alpha_ready alpha_px 1 for E :: "'f Env" and g
proof unfold_locales
  fix r :: "'f Renderer" and w
  assume a: "alpha_ready r" "area_ok r 1" "0 \<le> r_maskOffset r" "r_maskOffset r + 1 * touched_w r \<le> int (length (r_mask_byteData r))"
  have m: "mask_ok r (r_alphaWidth r) 1" using a by (simp add: mask_ok_def alpha_ready_def)
  have W: "nat (touched_w r) \<le> nat (r_imageScanlineStride r)" "0 < nat (r_imageScanlineStride r)"
    using a(2) by (auto simp: area_ok_def)
  show "prepare_paint E r w 1 \<bind> (\<lambda>r. call_emitRows g r 1) =
        Some (r\<lparr>r_data := upd_seg (r_data r) (area_start r) (nat (touched_w r)) (alpha_px r (r_maskOffset r))\<rparr>)"
    using a(1) blitSrcOverMask8888_pre_upd [OF a(2) m]
      upd_rows_1 [OF W, of "r_data r" "area_start r" "\<lambda>j. alpha_px r (r_maskOffset r + int j * r_alphaWidth r)"]
    by (simp add: prepare_paint_def call_emitRows_def alpha_ready_def alpha_px_def [abs_def])
next
  fix r :: "'f Renderer" and i n off
  assume "alpha_ready r"
  then show "alpha_ready (r\<lparr>r_data := upd_seg (r_data r) i n (alpha_px r off)\<rparr>)"
    using upd_seg_all [of "r_data r" is_jint "alpha_px r off"] by (simp add: alpha_ready_def colour_ok_def alpha_px_def)
qed (simp_all add: alpha_ready_def colour_ok_def alpha_px_def [abs_def] weight_def)

definition lcd_ready :: "'f Gamma \<Rightarrow> 'f Renderer \<Rightarrow> bool" where
  "lcd_ready g r \<longleftrightarrow> r_genPaint r = None \<and> r_emitRows r = Some BlitSrcOverLCDMask \<and> colour_ok r \<and> gamma_ok g"

definition lcd_pixel :: "'f Gamma \<Rightarrow> 'f Renderer \<Rightarrow> int \<Rightarrow> nat \<Rightarrow> jint \<Rightarrow> jint" where
  "lcd_pixel g r off k =
     (let m = \<lambda>c. r_mask_byteData r ! nat (off + 3 * int k + c); t = \<lambda>c. invGammaArray g ! nat c in
      lcd_val g (t (r_calpha r)) (t (r_cred r)) (t (r_cgreen r)) (t (r_cblue r)) (m 0) (m 1) (m 2))"

interpretation lcd: row_blitter E g "lcd_ready g" "lcd_pixel g" 3 for E :: "'f Env" and g
proof unfold_locales
  fix r :: "'f Renderer" and w
  assume a: "lcd_ready g r" "area_ok r 1" "0 \<le> r_maskOffset r" "r_maskOffset r + 3 * touched_w r \<le> int (length (r_mask_byteData r))"
  show "prepare_paint E r w 1 \<bind> (\<lambda>r. call_emitRows g r 1) =
        Some (r\<lparr>r_data := upd_seg (r_data r) (area_start r) (nat (touched_w r)) (lcd_pixel g r (r_maskOffset r))\<rparr>)"
    using a(1) blitSrcOverLCDMask8888_pre_upd [OF a(2) _ _ a(3,4), of g]
    by (simp add: prepare_paint_def call_emitRows_def lcd_ready_def lcd_pixel_def [abs_def])
qed (simp_all add: lcd_ready_def colour_ok_def lcd_pixel_def [abs_def])

section \<open>The state in which the lines of a mask are drawn\<close>

definition mask_start :: "jint list \<Rightarrow> jint \<Rightarrow> jbyte list \<Rightarrow> jint \<Rightarrow> jint \<Rightarrow> 'f Renderer \<Rightarrow> 'f Renderer" where
  "mask_start d mt md mw mh r = VALIDATE_BLITTING (INVALIDATE_RENDERER_SURFACE
     (renderer_setMask mt md mw mh False (r\<lparr>r_surface := (r_surface r)\<lparr>s_data := d\<rparr>\<rparr>)))"

lemma coherent_data: "coherent (r\<lparr>r_surface := (r_surface r)\<lparr>s_data := d\<rparr>\<rparr>) = coherent r"
  by (rule coherent_cong) (simp_all add: levels modes_ok_def)

lemma mask_start:
  assumes "coherent r" "mt \<in> {NO_MASK, ALPHA_MASK, LCD_ALPHA_MASK}"
  shows "validated (mask_start d mt md mw mh r)" "r_data (mask_start d mt md mw mh r) = d"
    "r_surface (mask_start d mt md mw mh r) = (r_surface r)\<lparr>s_data := d\<rparr>"
    "r_mask_byteData (mask_start d mt md mw mh r) = md"
    "r_maskType (mask_start d mt md mw mh r) = mt" "r_compositeRule (mask_start d mt md mw mh r) = r_compositeRule r"
    "r_paintMode (mask_start d mt md mw mh r) = r_paintMode r"
    "r_ured (mask_start d mt md mw mh r) = r_ured r" "r_ugreen (mask_start d mt md mw mh r) = r_ugreen r"
    "r_ublue (mask_start d mt md mw mh r) = r_ublue r" "r_ualpha (mask_start d mt md mw mh r) = r_ualpha r"
proof -
  let ?p = "INVALIDATE_RENDERER_SURFACE (renderer_setMask mt md mw mh False (r\<lparr>r_surface := (r_surface r)\<lparr>s_data := d\<rparr>\<rparr>))"
  have "coherent ?p"
    unfolding INVALIDATE_RENDERER_SURFACE_def
    by (intro coherent_mark setMask_coherent) (use assms in \<open>simp_all add: coherent_data\<close>)
  then show "validated (mask_start d mt md mw mh r)" unfolding mask_start_def by (rule VALIDATE_BLITTING_validated)
  have "marked (r_rendererState ?p) INVALID_RENDERER_SURFACE"
    by (simp add: INVALIDATE_RENDERER_SURFACE_def flag_self)
  from VALIDATE_BLITTING_view [OF this]
  show "r_data (mask_start d mt md mw mh r) = d"
    by (simp add: mask_start_def view_ok_def INVALIDATE_RENDERER_SURFACE_def renderer_setMask_def mark_def)
qed (simp_all add: mask_start_def INVALIDATE_RENDERER_SURFACE_def renderer_setMask_def mark_def)

lemma mask_drawn_coherent:
  assumes "validated q"
  shows "coherent (renderer_removeMask (sync_surface ((mask_setup minX minY maxX off q)\<lparr>r_data := d, r_currImageOffset := o',
    r_maskOffset := m, r_rowNum := rn, r_currX := cx, r_currY := cy\<rparr>)))"
proof (rule removeMask_coherent)
  have "coherent q" by (rule validated_coherent [OF assms])
  then show "coherent (sync_surface ((mask_setup minX minY maxX off q)\<lparr>r_data := d, r_currImageOffset := o',
    r_maskOffset := m, r_rowNum := rn, r_currX := cx, r_currY := cy\<rparr>))"
    by (subst coherent_cong [of _ q]) (simp_all add: sync_surface_def mask_setup_def levels modes_ok_def)
qed

section \<open>The clipped mask\<close>

lemma le_of_mult:
  fixes a w n :: int
  assumes "a * w \<le> n" "1 \<le> w" "0 \<le> a"
  shows "a \<le> n"
  using mult_left_mono [OF assms(2,3)] assms(1) by simp

text \<open>A mask of \<open>cols\<close> by \<open>mh\<close> pixels at (\<open>x\<close>, \<open>y\<close>), lines \<open>mw\<close> bytes apart from \<open>offset\<close> on, is inside of its array and
  of the range of coordinates.\<close>

definition mask_fits :: "int \<Rightarrow> jint \<Rightarrow> jint \<Rightarrow> jint \<Rightarrow> jint \<Rightarrow> jint \<Rightarrow> jbyte list \<Rightarrow> bool" where
  "mask_fits cols x y mw mh offset md \<longleftrightarrow> 0 \<le> offset \<and> 0 \<le> mw \<and> offset + mh * mw \<le> int (length md) \<and>
     length md < 2 ^ 31 \<and> is_jint (x + cols - 1) \<and> is_jint (y + mh - 1)"

text \<open>The arithmetic of the clip: the first byte used, and the last one.\<close>

lemma clip_mask:
  fixes x y mw mh offset cminX cmaxX cminY cmaxY bpp cols :: int
  assumes "mask_fits cols x y mw mh offset md" "bpp * cols \<le> mw" "0 \<le> bpp"
  defines "minX \<equiv> max x cminX" and "minY \<equiv> max y cminY"
    and "maxX \<equiv> min (x + cols - 1) cmaxX" and "maxY \<equiv> min (y + mh - 1) cmaxY"
  assumes "minX \<le> maxX" "minY \<le> maxY"
  defines "off \<equiv> offset + (minY - y) * mw + (minX - x) * bpp"
  shows "0 \<le> off" "off + (maxY - minY) * mw + bpp * (maxX - minX + 1) \<le> int (length md)" "s32 off = off"
proof -
  have f: "0 \<le> offset" "0 \<le> mw" "offset + mh * mw \<le> int (length md)" "int (length md) < 2147483648"
    using assms(1) by (simp_all add: mask_fits_def)
  have nn: "0 \<le> minY - y" "0 \<le> minX - x" "maxY - y + 1 \<le> mh" "maxX - x + 1 \<le> cols"
    by (auto simp: minX_def minY_def maxX_def maxY_def)
  have m: "0 \<le> (minY - y) * mw" "0 \<le> (minX - x) * bpp" "0 \<le> (maxY - minY) * mw" "0 \<le> bpp * (maxX - minX + 1)"
    using nn f assms(3,8,9) by simp_all
  show o0: "0 \<le> off" using m f by (simp add: off_def)
  have "(maxY - y + 1) * mw \<le> mh * mw" using nn f by (intro mult_right_mono) auto
  moreover have "bpp * (maxX - x + 1) \<le> bpp * cols" using nn assms(3) by (intro mult_left_mono) auto
  moreover have "(maxY - y + 1) * mw = (minY - y) * mw + (maxY - minY) * mw + mw"
    "bpp * (maxX - x + 1) = (minX - x) * bpp + bpp * (maxX - minX + 1)" by (simp_all add: algebra_simps)
  ultimately show e: "off + (maxY - minY) * mw + bpp * (maxX - minX + 1) \<le> int (length md)"
    unfolding off_def using f assms(2) by linarith
  show "s32 off = off" by (rule s32_eq) (use o0 e m f in linarith)+
qed

text \<open>The geometry of the clipped rectangle inside of the surface.\<close>

lemma clip_surface:
  assumes "clip_ok r d" "r_clip_bbMinX r \<le> minX" "minX \<le> maxX" "maxX \<le> r_clip_bbMaxX r"
    "r_clip_bbMinY r \<le> minY" "minY \<le> maxY" "maxY \<le> r_clip_bbMaxY r"
  shows "0 \<le> minX" "maxX < s_width (r_surface r)" "0 \<le> minY" "(maxY + 1) * s_width (r_surface r) \<le> int (length d)"
    "s32 (maxX - minX + 1) = maxX - minX + 1" "s32 (maxY - minY + 1) = maxY - minY + 1"
proof -
  let ?W = "s_width (r_surface r)"
  have c: "0 \<le> minX" "maxX < ?W" "0 \<le> minY" "maxY < s_height (r_surface r)" "?W < 2147483648"
    "s_height (r_surface r) * ?W \<le> int (length d)" "int (length d) < 2147483648"
    using assms by (auto simp: clip_ok_def)
  show "0 \<le> minX" "maxX < ?W" "0 \<le> minY" by fact+
  have W: "1 \<le> ?W" using c assms(3) by linarith
  have "(maxY + 1) * ?W \<le> s_height (r_surface r) * ?W" using c W by (intro mult_right_mono) auto
  then show l: "(maxY + 1) * ?W \<le> int (length d)" using c by linarith
  show "s32 (maxX - minX + 1) = maxX - minX + 1" by (rule s32_eq) (use c assms(3) in linarith)+
  have "maxY + 1 \<le> int (length d)" by (rule le_of_mult [OF l W]) (use c assms(6) in linarith)
  then have "maxY + 1 < 2147483648" using c by linarith
  then show "s32 (maxY - minY + 1) = maxY - minY + 1" using c assms(6) by (intro s32_eq) linarith+
qed

context row_blitter
begin

lemma fillAlphaMask_upd:
  assumes "coherent (n_rdr n)" "\<not> n_memError n" "n_gamma n = g" "mt \<in> {NO_MASK, ALPHA_MASK, LCD_ALPHA_MASK}"
    "minX \<le> maxX" "minY \<le> maxY"
    and p_def: "p = mask_setup minX minY maxX off (mask_start d mt md mw mh (n_rdr n))"
    and rows_def: "rows = nat (s32 (maxY - minY + 1))"
    and p: "ok p" "fits p mw rows"
  shows "\<exists>n'. fillAlphaMask E (Some d) minX minY maxX maxY mt (Some md) x mw mh off n = Some (n', None) \<and>
    coherent (n_rdr n') \<and> r_maskType (n_rdr n') = NO_MASK \<and>
    s_data (r_surface (n_rdr n')) =
      upd_rows d (nat (minY * s_width (r_surface (n_rdr n)) + minX)) (nat (s_width (r_surface (n_rdr n))))
        (nat (touched_w p)) rows (\<lambda>j. px p (off + int j * mw))"
proof -
  note st = mask_start [OF assms(1,4), of d md mw mh]
  obtain o' m rn cx cy where l: "mask_lines E g (s32 (maxX - minX + 1)) mw x rows p = Some (p\<lparr>r_data :=
      upd_rows (r_data p) (nat (r_currY p * s_width (r_surface p) + r_minTouched p)) (nat (s_width (r_surface p)))
        (nat (touched_w p)) rows (\<lambda>j. px p (r_maskOffset p + int j * mw)),
      r_currImageOffset := o', r_maskOffset := m, r_rowNum := rn, r_currX := cx, r_currY := cy\<rparr>)"
    using mask_lines_upd [OF p] by blast
  have d: "upd_rows (r_data p) (nat (r_currY p * s_width (r_surface p) + r_minTouched p)) (nat (s_width (r_surface p)))
        (nat (touched_w p)) rows (\<lambda>j. px p (r_maskOffset p + int j * mw)) =
      upd_rows d (nat (minY * s_width (r_surface (n_rdr n)) + minX)) (nat (s_width (r_surface (n_rdr n))))
        (nat (touched_w p)) rows (\<lambda>j. px p (off + int j * mw))"
    by (simp add: p_def mask_setup_def st)
  have c: "coherent (renderer_removeMask (sync_surface (p\<lparr>r_data := dd, r_currImageOffset := o',
    r_maskOffset := m, r_rowNum := rn, r_currX := cx, r_currY := cy\<rparr>)))" for dd
    unfolding p_def by (rule mask_drawn_coherent [OF st(1)])
  show ?thesis
    using assms(2,3,5,6) l [unfolded d] c
    by (simp add: fillAlphaMask_def with_surface_def surface_acquire_def readMemErrorFlag_def mask_start_def [symmetric]
      p_def [symmetric] rows_def [symmetric] report_def readAndClearMemErrorFlag_def renderer_removeMask_def
      mark_def sync_surface_def Let_def)
qed

text \<open>The same for a mask that is cut off at the clip.\<close>

lemma fill_clipped:
  assumes "coherent (n_rdr n)" "\<not> n_memError n" "n_gamma n = g" "mt \<in> {NO_MASK, ALPHA_MASK, LCD_ALPHA_MASK}"
    "mask_fits cols x y mw mh offset md" "bpp * cols \<le> mw" "0 \<le> bpp" "clip_ok (n_rdr n) d"
    and minX: "minX = max x (r_clip_bbMinX (n_rdr n))" and maxX: "maxX = min (x + cols - 1) (r_clip_bbMaxX (n_rdr n))"
    and minY: "minY = max y (r_clip_bbMinY (n_rdr n))" and maxY: "maxY = min (y + mh - 1) (r_clip_bbMaxY (n_rdr n))"
    and ne: "minX \<le> maxX" "minY \<le> maxY"
    and off: "off = offset + (minY - y) * mw + (minX - x) * bpp"
    and p_def: "p = mask_setup minX minY maxX off (mask_start d mt md mw mh (n_rdr n))" and "ok p"
  shows "\<exists>n'. fillAlphaMask E (Some d) minX minY maxX maxY mt (Some md) x mw mh (s32 off) n = Some (n', None) \<and>
    coherent (n_rdr n') \<and> r_maskType (n_rdr n') = NO_MASK \<and>
    s_data (r_surface (n_rdr n')) =
      upd_rows d (nat (minY * s_width (r_surface (n_rdr n)) + minX)) (nat (s_width (r_surface (n_rdr n))))
        (nat (maxX - minX + 1)) (nat (maxY - minY + 1)) (\<lambda>j. px p (off + int j * mw))"
proof -
  note st = mask_start [OF assms(1,4), of d md mw mh]
  note cm = clip_mask [OF assms(5-7) ne [unfolded minX maxX minY maxY], folded minX maxX minY maxY, folded off]
  note cs = clip_surface [OF assms(8) _ ne(1) _ _ ne(2)]
  have b: "r_clip_bbMinX (n_rdr n) \<le> minX" "maxX \<le> r_clip_bbMaxX (n_rdr n)" "r_clip_bbMinY (n_rdr n) \<le> minY"
    "maxY \<le> r_clip_bbMaxY (n_rdr n)" by (simp_all add: minX maxX minY maxY)
  note cs = cs [OF b]
  have t: "touched_w p = maxX - minX + 1" using ne cs(5) by (simp add: p_def mask_setup_def touched_w_def)
  have "fits p mw (nat (maxY - minY + 1))"
    using assms(5,7,8) cs(1-4) cm(1,2) ne unfolding fits_def t
    by (simp add: p_def mask_setup_def st mask_fits_def clip_ok_def)
  from fillAlphaMask_upd [OF assms(1-4) ne p_def refl assms(17), unfolded cs(6), OF this, of x]
  show ?thesis unfolding t cm(3) .
qed

end

lemma flat_levels:
  assumes "flat_ready n d" "validated q" "r_maskType q = mt" "r_compositeRule q = r_compositeRule (n_rdr n)"
    "r_paintMode q = r_paintMode (n_rdr n)" "r_ured q = r_ured (n_rdr n)" "r_ugreen q = r_ugreen (n_rdr n)"
    "r_ublue q = r_ublue (n_rdr n)" "r_ualpha q = r_ualpha (n_rdr n)"
  shows "r_genPaint q = None" "r_emitRows q = over_table mt" "colour_ok q"
    "r_calpha q = r_ualpha (n_rdr n)" "r_cred q = r_ured (n_rdr n)" "r_cgreen q = r_ugreen (n_rdr n)" "r_cblue q = r_ublue (n_rdr n)"
proof -
  have "paint_level q" "color_level q" using assms(2) by (simp_all add: validated_def)
  note l = this [unfolded paint_level_def color_level_def assms(3-9)]
  have m: "r_paintMode (n_rdr n) = PAINT_FLAT_COLOR" "r_compositeRule (n_rdr n) = COMPOSITE_SRC_OVER"
    "is_u8 (r_ualpha (n_rdr n))" "is_u8 (r_ured (n_rdr n))" "is_u8 (r_ugreen (n_rdr n))" "is_u8 (r_ublue (n_rdr n))"
    using assms(1) by (simp_all add: flat_ready_def)
  show "r_calpha q = r_ualpha (n_rdr n)" "r_cred q = r_ured (n_rdr n)" "r_cgreen q = r_ugreen (n_rdr n)" "r_cblue q = r_ublue (n_rdr n)"
    using l(2) by (simp_all add: m pisces_consts)
  then show "colour_ok q" using m by (simp add: colour_ok_def)
  show "r_genPaint q = None" "r_emitRows q = over_table mt"
    using l(1) by (simp_all add: m gen_table_def rows_table_def bl_table_def pisces_consts)
qed

section \<open>Properties\<close>

text \<open>C3: \<^verbatim>\<open>fillAlphaMaskImpl\<close> with a flat colour and source-over, from any reachable state, with the clip inside
  of the surface and the mask inside of its array: no access out of range, no exception. Every pixel of
  the mask inside of the clip is blended with the user's colour weighted by the byte of the mask that
  belongs to it, every other pixel stays, and the mask is removed again.\<close>

theorem fillAlphaMaskImpl_flat_correct:
  fixes x y mw mh offset :: jint
  assumes "reachable F (n_rdr n)" "flat_ready n d" "\<forall>p \<in> set d. is_jint p" "mask_fits mw x y mw mh offset md"
  shows "let r = n_rdr n; W = s_width (r_surface r);
      minX = max x (r_clip_bbMinX r); minY = max y (r_clip_bbMinY r);
      maxX = min (x + mw - 1) (r_clip_bbMaxX r); maxY = min (y + mh - 1) (r_clip_bbMaxY r)
    in \<exists>n'. fillAlphaMaskImpl E (Some d) (Some md) x y mw mh offset n = Some (n', None) \<and> coherent (n_rdr n') \<and>
      (if minX \<le> maxX \<and> minY \<le> maxY
       then r_maskType (n_rdr n') = NO_MASK \<and>
         s_data (r_surface (n_rdr n')) =
           upd_rows d (nat (minY * W + minX)) (nat W) (nat (maxX - minX + 1)) (nat (maxY - minY + 1))
             (\<lambda>j k. over_px (scale256 (r_ualpha r)
                 ((md ! nat (offset + (minY + int j - y) * mw + (minX + int k - x)) AND 255) + 1))
               (r_ured r) (r_ugreen r) (r_ublue r))
       else n' = n)"
proof -
  define r W minX minY maxX maxY off where "r = n_rdr n" and "W = s_width (r_surface r)"
    and "minX = max x (r_clip_bbMinX r)" and "minY = max y (r_clip_bbMinY r)"
    and "maxX = min (x + mw - 1) (r_clip_bbMaxX r)" and "maxY = min (y + mh - 1) (r_clip_bbMaxY r)"
    and "off = offset + (minY - y) * mw + (minX - x)"
  have co: "coherent (n_rdr n)" by (rule reachable_coherent [OF assms(1)])
  have j: "s32 (x + mw - 1) = x + mw - 1" "s32 (y + mh - 1) = y + mh - 1"
    using assms(4) by (simp_all add: mask_fits_def s32_idem)
  have e: "fillAlphaMaskImpl E (Some d) (Some md) x y mw mh offset n =
    fillAlphaMask E (Some d) minX minY maxX maxY ALPHA_MASK (Some md) x mw mh (s32 off) n"
    unfolding fillAlphaMaskImpl_def Let_def j by (simp add: minX_def minY_def maxX_def maxY_def r_def off_def algebra_simps)
  show ?thesis
  proof (cases "minX \<le> maxX \<and> minY \<le> maxY")
    case True
    define p where "p = mask_setup minX minY maxX off (mask_start d ALPHA_MASK md mw mh (n_rdr n))"
    note st = mask_start [OF co, of ALPHA_MASK d md mw mh, simplified]
    note fl = flat_levels [OF assms(2) st(1,5-11)]
    have cl: "clip_ok (n_rdr n) d" "\<not> n_memError n" using assms(2) by (simp_all add: flat_ready_def)
    have "s32 (maxX - minX + 1) = maxX - minX + 1"
      using True by (intro clip_surface(5) [OF cl(1), of minX maxX minY maxY]) (auto simp: minX_def maxX_def minY_def maxY_def r_def)
    then have "alpha_ready p"
      using True assms(3,4) fl st(2,4)
      by (simp add: p_def mask_setup_def alpha_ready_def colour_ok_def over_table_def pisces_consts mask_fits_def)
    from alpha.fill_clipped [OF co cl(2) refl _ assms(4) _ _ cl(1) minX_def [unfolded r_def] maxX_def [unfolded r_def]
        minY_def [unfolded r_def] maxY_def [unfolded r_def] _ _ _ p_def this, where E = E]
    obtain n' where n': "fillAlphaMask E (Some d) minX minY maxX maxY ALPHA_MASK (Some md) x mw mh (s32 off) n = Some (n', None)"
      "coherent (n_rdr n')" "r_maskType (n_rdr n') = NO_MASK" "s_data (r_surface (n_rdr n')) =
        upd_rows d (nat (minY * W + minX)) (nat W) (nat (maxX - minX + 1)) (nat (maxY - minY + 1))
          (\<lambda>j. alpha_px p (off + int j * mw))"
      using True by (auto simp: off_def W_def r_def)
    have "alpha_px p (off + int j * mw) = (\<lambda>k. over_px (scale256 (r_ualpha r)
                 ((md ! nat (offset + (minY + int j - y) * mw + (minX + int k - x)) AND 255) + 1))
               (r_ured r) (r_ugreen r) (r_ublue r))" for j
      using fl st(4) by (simp add: alpha_px_def [abs_def] p_def mask_setup_def weight_def r_def off_def algebra_simps)
    then show ?thesis
      using n' True unfolding Let_def e r_def [symmetric] minX_def [symmetric] maxX_def [symmetric] minY_def [symmetric]
        maxY_def [symmetric] W_def [symmetric] by auto
  next
    case False
    then have "fillAlphaMask E (Some d) minX minY maxX maxY ALPHA_MASK (Some md) x mw mh (s32 off) n = Some (n, None)"
      by (auto simp: fillAlphaMask_def)
    then show ?thesis
      using False co unfolding Let_def e r_def [symmetric] minX_def [symmetric] maxX_def [symmetric] minY_def [symmetric]
        maxY_def [symmetric] W_def [symmetric] by (auto simp: r_def)
  qed
qed

text \<open>The upper left pixel of the mask is cut off at the border of the image.\<close>

theorem fillAlphaMaskImpl_flat_correct_witness:
  "\<exists>n'. fillAlphaMaskImpl wit_env (Some [0, 0, 0, 0, 0, 0]) (Some [1, 2, 127, -1]) (-1) 0 2 2 0 wit_native = Some (n', None) \<and>
    s_data (r_surface (n_rdr n')) = [33685504, 0, 0, - 65536, 0, 0]"
proof -
  let ?d = "[0, 0, 0, 0, 0, 0] :: jint list" and ?md = "[1, 2, 127, -1] :: jbyte list"
  have f: "flat_ready wit_native ?d" "\<forall>p \<in> set ?d. is_jint p" "mask_fits 2 (-1) 0 2 2 0 ?md"
    by (simp_all add: flat_ready_def wit_native_def clip_ok_def renderer_setColor_def createCommon_def wit_surface_def
      setPaintMode_def mark_def Let_def is_u8_def zero_Renderer_def pisces_consts is_jint_def mask_fits_def)
  have c: "max (- 1) (r_clip_bbMinX (n_rdr wit_native)) = 0" "max 0 (r_clip_bbMinY (n_rdr wit_native)) = 0"
    "min (- 1 + 2 - 1) (r_clip_bbMaxX (n_rdr wit_native)) = 0" "min (0 + 2 - 1) (r_clip_bbMaxY (n_rdr wit_native)) = 1"
    "s_width (r_surface (n_rdr wit_native)) = 3" by code_simp+
  have i: "upd_rows ?d (nat (0 * 3 + 0)) (nat 3) (nat (0 - 0 + 1)) (nat (1 - 0 + 1))
     (\<lambda>j k. over_px (scale256 (r_ualpha (n_rdr wit_native))
         ((?md ! nat (0 + (0 + int j - 0) * 2 + (0 + int k - - 1)) AND 255) + 1))
       (r_ured (n_rdr wit_native)) (r_ugreen (n_rdr wit_native)) (r_ublue (n_rdr wit_native))) =
    [33685504, 0, 0, - 65536, 0, 0]" by code_simp
  show ?thesis
    using fillAlphaMaskImpl_flat_correct [OF wit_native_reachable f, of wit_env] unfolding Let_def c i by auto
qed

text \<open>C4: \<^verbatim>\<open>fillLCDAlphaMaskImpl\<close> is safe under the same conditions, with three bytes of the mask for a pixel and
  gamma tables that are set up: every access is in range, only the pixels of the mask inside of the clip
  change, each of its three channels by its own byte of the mask.\<close>

theorem fillLCDAlphaMaskImpl_flat_correct:
  fixes x y mw mh offset :: jint
  assumes "reachable F (n_rdr n)" "flat_ready n d" "gamma_ok (n_gamma n)" "mask_fits (mw div 3) x y mw mh offset md"
  shows "let r = n_rdr n; W = s_width (r_surface r); t = \<lambda>c. invGammaArray (n_gamma n) ! nat c;
      minX = max x (r_clip_bbMinX r); minY = max y (r_clip_bbMinY r);
      maxX = min (x + mw div 3 - 1) (r_clip_bbMaxX r); maxY = min (y + mh - 1) (r_clip_bbMaxY r)
    in \<exists>n'. fillLCDAlphaMaskImpl E (Some d) (Some md) x y mw mh offset n = Some (n', None) \<and> coherent (n_rdr n') \<and>
      (if minX \<le> maxX \<and> minY \<le> maxY
       then r_maskType (n_rdr n') = NO_MASK \<and>
         s_data (r_surface (n_rdr n')) =
           upd_rows d (nat (minY * W + minX)) (nat W) (nat (maxX - minX + 1)) (nat (maxY - minY + 1))
             (\<lambda>j k. let m = \<lambda>c. md ! nat (offset + (minY + int j - y) * mw + (minX + int k - x) * 3 + c) in
               lcd_val (n_gamma n) (t (r_ualpha r)) (t (r_ured r)) (t (r_ugreen r)) (t (r_ublue r)) (m 0) (m 1) (m 2))
       else n' = n)"
proof -
  define r W minX minY maxX maxY off where "r = n_rdr n" and "W = s_width (r_surface r)"
    and "minX = max x (r_clip_bbMinX r)" and "minY = max y (r_clip_bbMinY r)"
    and "maxX = min (x + mw div 3 - 1) (r_clip_bbMaxX r)" and "maxY = min (y + mh - 1) (r_clip_bbMaxY r)"
    and "off = offset + (minY - y) * mw + (minX - x) * 3"
  have co: "coherent (n_rdr n)" by (rule reachable_coherent [OF assms(1)])
  have mw: "0 \<le> mw" "3 * (mw div 3) \<le> mw" using assms(4) by (simp_all add: mask_fits_def)
  have j: "s32 (x + c_quot mw 3 - 1) = x + mw div 3 - 1" "s32 (y + mh - 1) = y + mh - 1"
  proof -
    have "c_quot mw 3 = mw div 3" using mw(1) by (cases "mw = 0") (simp_all add: c_quot_def)
    then show "s32 (x + c_quot mw 3 - 1) = x + mw div 3 - 1" "s32 (y + mh - 1) = y + mh - 1"
      using assms(4) by (simp_all add: mask_fits_def s32_idem)
  qed
  have e: "fillLCDAlphaMaskImpl E (Some d) (Some md) x y mw mh offset n =
    fillAlphaMask E (Some d) minX minY maxX maxY LCD_ALPHA_MASK (Some md) x mw mh (s32 off) n"
    unfolding fillLCDAlphaMaskImpl_def Let_def j by (simp add: minX_def minY_def maxX_def maxY_def r_def off_def algebra_simps)
  show ?thesis
  proof (cases "minX \<le> maxX \<and> minY \<le> maxY")
    case True
    define p where "p = mask_setup minX minY maxX off (mask_start d LCD_ALPHA_MASK md mw mh (n_rdr n))"
    note st = mask_start [OF co, of LCD_ALPHA_MASK d md mw mh, simplified]
    note fl = flat_levels [OF assms(2) st(1,5-11)]
    have cl: "clip_ok (n_rdr n) d" "\<not> n_memError n" using assms(2) by (simp_all add: flat_ready_def)
    have "lcd_ready (n_gamma n) p"
      using True assms(3,4) fl st(2,4)
      by (simp add: p_def mask_setup_def lcd_ready_def colour_ok_def over_table_def pisces_consts)
    from lcd.fill_clipped [OF co cl(2) refl _ assms(4) mw(2) _ cl(1) minX_def [unfolded r_def] maxX_def [unfolded r_def]
        minY_def [unfolded r_def] maxY_def [unfolded r_def] _ _ _ p_def this, where E = E]
    obtain n' where n': "fillAlphaMask E (Some d) minX minY maxX maxY LCD_ALPHA_MASK (Some md) x mw mh (s32 off) n = Some (n', None)"
      "coherent (n_rdr n')" "r_maskType (n_rdr n') = NO_MASK" "s_data (r_surface (n_rdr n')) =
        upd_rows d (nat (minY * W + minX)) (nat W) (nat (maxX - minX + 1)) (nat (maxY - minY + 1))
          (\<lambda>j. lcd_pixel (n_gamma n) p (off + int j * mw))"
      using True by (auto simp: off_def W_def r_def)
    have "lcd_pixel (n_gamma n) p (off + int j * mw) =
      (\<lambda>k. let m = \<lambda>c. md ! nat (offset + (minY + int j - y) * mw + (minX + int k - x) * 3 + c); t = \<lambda>c. invGammaArray (n_gamma n) ! nat c in
        lcd_val (n_gamma n) (t (r_ualpha r)) (t (r_ured r)) (t (r_ugreen r)) (t (r_ublue r)) (m 0) (m 1) (m 2))" for j
      using fl st(4) by (simp add: lcd_pixel_def [abs_def] p_def mask_setup_def r_def off_def algebra_simps Let_def)
    then show ?thesis
      using n' True unfolding Let_def e r_def [symmetric] minX_def [symmetric] maxX_def [symmetric] minY_def [symmetric]
        maxY_def [symmetric] W_def [symmetric] by auto
  next
    case False
    then have "fillAlphaMask E (Some d) minX minY maxX maxY LCD_ALPHA_MASK (Some md) x mw mh (s32 off) n = Some (n, None)"
      by (auto simp: fillAlphaMask_def)
    then show ?thesis
      using False co unfolding Let_def e r_def [symmetric] minX_def [symmetric] maxX_def [symmetric] minY_def [symmetric]
        maxY_def [symmetric] W_def [symmetric] by (auto simp: r_def)
  qed
qed

definition wit_lcd :: "int Native" where
  "wit_lcd = wit_native\<lparr>n_gamma := \<lparr>currentGamma = 1, gammaArray = [0..255], invGammaArray = [0..255]\<rparr>\<rparr>"

theorem fillLCDAlphaMaskImpl_flat_correct_witness:
  "\<exists>n'. fillLCDAlphaMaskImpl wit_env (Some [-1, -1, -1, -1, -1, -1]) (Some [-1, -1, 0]) 1 1 3 1 0 wit_lcd = Some (n', None) \<and>
    s_data (r_surface (n_rdr n')) = [-1, -1, -1, -1, - 65281, -1]"
proof -
  let ?d = "[-1, -1, -1, -1, -1, -1] :: jint list" and ?md = "[-1, -1, 0] :: jbyte list"
  have r: "n_rdr wit_lcd = n_rdr wit_native" by (simp add: wit_lcd_def)
  have f: "flat_ready wit_lcd ?d" "gamma_ok (n_gamma wit_lcd)" "mask_fits (3 div 3) 1 1 3 1 0 ?md"
    using wit_native_ready by (simp_all add: wit_lcd_def flat_ready_def is_jint_def mask_fits_def gamma_ok_def is_u8_def)
  have c: "max 1 (r_clip_bbMinX (n_rdr wit_lcd)) = 1" "max 1 (r_clip_bbMinY (n_rdr wit_lcd)) = 1"
    "min (1 + 3 div 3 - 1) (r_clip_bbMaxX (n_rdr wit_lcd)) = 1" "min (1 + 1 - 1) (r_clip_bbMaxY (n_rdr wit_lcd)) = 1"
    "s_width (r_surface (n_rdr wit_lcd)) = 3" by code_simp+
  have i: "upd_rows ?d (nat (1 * 3 + 1)) (nat 3) (nat (1 - 1 + 1)) (nat (1 - 1 + 1))
     (\<lambda>j k. lcd_val (n_gamma wit_lcd) (invGammaArray (n_gamma wit_lcd) ! nat (r_ualpha (n_rdr wit_lcd)))
        (invGammaArray (n_gamma wit_lcd) ! nat (r_ured (n_rdr wit_lcd))) (invGammaArray (n_gamma wit_lcd) ! nat (r_ugreen (n_rdr wit_lcd)))
        (invGammaArray (n_gamma wit_lcd) ! nat (r_ublue (n_rdr wit_lcd)))
        (?md ! nat (0 + (1 + int j - 1) * 3 + (1 + int k - 1) * 3 + 0)) (?md ! nat (0 + (1 + int j - 1) * 3 + (1 + int k - 1) * 3 + 1))
        (?md ! nat (0 + (1 + int j - 1) * 3 + (1 + int k - 1) * 3 + 2))) =
    [-1, -1, -1, -1, - 65281, -1]" by code_simp
  have "reachable undefined (n_rdr wit_lcd)" unfolding r by (rule wit_native_reachable)
  from fillLCDAlphaMaskImpl_flat_correct [OF this f, of wit_env] show ?thesis unfolding Let_def c i by auto
qed

section \<open>Cleared rectangles\<close>

text \<open>A surface as \<^verbatim>\<open>JavaSurface_initialize\<close> makes it.\<close>

definition java_surface :: "Surface \<Rightarrow> bool" where
  "java_surface sf \<longleftrightarrow> s_offset sf = 0 \<and> s_scanlineStride sf = s_width sf \<and> s_pixelStride sf = 1"

definition clear_start :: "jint list \<Rightarrow> 'f Renderer \<Rightarrow> 'f Renderer" where
  "clear_start d r = VALIDATE_BLITTING ((INVALIDATE_RENDERER_SURFACE (r\<lparr>r_surface := (r_surface r)\<lparr>s_data := d\<rparr>\<rparr>))
     \<lparr>r_imagePixelStride := 1, r_imageScanlineStride := s_width (r_surface r)\<rparr>)"

lemma clear_start:
  fixes d :: "jint list"
  assumes "coherent r" "java_surface (r_surface r)"
  defines "q \<equiv> clear_start d r"
  shows "validated q" "r_data q = d" "r_surface q = (r_surface r)\<lparr>s_data := d\<rparr>" "r_width q = s_width (r_surface r)"
    "r_height q = s_height (r_surface r)" "r_imageOffset q = 0" "r_imageScanlineStride q = s_width (r_surface r)"
    "r_imagePixelStride q = 1" "r_clip_bbMinX q = r_clip_bbMinX r" "r_clip_bbMaxX q = r_clip_bbMaxX r"
    "r_clip_bbMinY q = r_clip_bbMinY r" "r_clip_bbMaxY q = r_clip_bbMaxY r"
    "r_compositeRule q = r_compositeRule r" "r_ured q = r_ured r" "r_ugreen q = r_ugreen r" "r_ublue q = r_ublue r"
    "r_ualpha q = r_ualpha r"
proof -
  define p where "p = (INVALIDATE_RENDERER_SURFACE (r\<lparr>r_surface := (r_surface r)\<lparr>s_data := d\<rparr>\<rparr>))
     \<lparr>r_imagePixelStride := 1, r_imageScanlineStride := s_width (r_surface r)\<rparr>"
  have q: "q = VALIDATE_BLITTING p" by (simp add: q_def clear_start_def p_def)
  have "coherent (INVALIDATE_RENDERER_SURFACE (r\<lparr>r_surface := (r_surface r)\<lparr>s_data := d\<rparr>\<rparr>))"
    unfolding INVALIDATE_RENDERER_SURFACE_def by (intro coherent_mark) (simp add: coherent_data assms(1))
  then have "coherent p"
    unfolding p_def by (subst coherent_cong [of _ "INVALIDATE_RENDERER_SURFACE (r\<lparr>r_surface := (r_surface r)\<lparr>s_data := d\<rparr>\<rparr>)"])
      (simp_all add: levels modes_ok_def)
  then show "validated q" unfolding q by (rule VALIDATE_BLITTING_validated)
  have "marked (r_rendererState p) INVALID_RENDERER_SURFACE"
    by (simp add: p_def INVALIDATE_RENDERER_SURFACE_def flag_self)
  note v = VALIDATE_BLITTING_view [OF this, folded q]
  have sf: "r_surface p = (r_surface r)\<lparr>s_data := d\<rparr>" by (simp add: p_def INVALIDATE_RENDERER_SURFACE_def mark_def)
  show "r_surface q = (r_surface r)\<lparr>s_data := d\<rparr>" unfolding q by (simp add: sf)
  with v assms(2) show "r_data q = d" "r_width q = s_width (r_surface r)" "r_height q = s_height (r_surface r)"
    "r_imageOffset q = 0" "r_imageScanlineStride q = s_width (r_surface r)" "r_imagePixelStride q = 1"
    by (simp_all add: view_ok_def java_surface_def)
qed (simp_all add: q_def clear_start_def INVALIDATE_RENDERER_SURFACE_def mark_def)

text \<open>\<^verbatim>\<open>clearRectImpl\<close> from any reachable state: the part of the rectangle that lies in the clip and in the
  surface gets the internal colour (transparent black under \<^verbatim>\<open>COMPOSITE_CLEAR\<close>), everything else stays, and
  no access is out of range, whatever the clip and the rectangle are.\<close>

lemma clearRectImpl_correct:
  fixes x y w h :: jint
  assumes "reachable F (n_rdr n)" "\<not> n_memError n" "java_surface (r_surface (n_rdr n))"
    "s_width (r_surface (n_rdr n)) * s_height (r_surface (n_rdr n)) \<le> int (length d)" "4 * length d < 2 ^ 31"
    "is_jint (s_width (r_surface (n_rdr n)) - 1)" "is_jint (s_height (r_surface (n_rdr n)) - 1)"
    "is_jint (x + w - 1)" "is_jint (y + h - 1)"
  shows "let r = n_rdr n; W = s_width (r_surface r);
      minX = max (max x 0) (r_clip_bbMinX r); minY = max (max y 0) (r_clip_bbMinY r);
      maxX = min (min (x + w - 1) (W - 1)) (r_clip_bbMaxX r);
      maxY = min (min (y + h - 1) (s_height (r_surface r) - 1)) (r_clip_bbMaxY r);
      c = (if r_compositeRule r = COMPOSITE_CLEAR then 0 else argb (r_ualpha r) (r_ured r) (r_ugreen r) (r_ublue r))
    in \<exists>n'. clearRectImpl (Some d) x y w h n = Some (n', None) \<and>
      s_data (r_surface (n_rdr n')) =
        (if minX \<le> maxX \<and> minY \<le> maxY
         then upd_rows d (nat (minY * W + minX)) (nat W) (nat (maxX - minX + 1)) (nat (maxY - minY + 1)) (\<lambda>_ _ _. c)
         else d)"
proof -
  define r W H where "r = n_rdr n" and "W = s_width (r_surface r)" and "H = s_height (r_surface r)"
  define q where "q = clear_start d r"
  note cs = clear_start [OF reachable_coherent [OF assms(1)] assms(3), of d, folded r_def, folded W_def H_def, folded q_def]
  define minX minY maxX maxY where "minX = max (max x 0) (r_clip_bbMinX r)" and "minY = max (max y 0) (r_clip_bbMinY r)"
    and "maxX = min (min (x + w - 1) (W - 1)) (r_clip_bbMaxX r)" and "maxY = min (min (y + h - 1) (H - 1)) (r_clip_bbMaxY r)"
  define c where "c = (if r_compositeRule r = COMPOSITE_CLEAR then 0 else argb (r_ualpha r) (r_ured r) (r_ugreen r) (r_ublue r))"
  have j: "s32 (x + w - 1) = x + w - 1" "s32 (y + h - 1) = y + h - 1" "s32 (W - 1) = W - 1" "s32 (H - 1) = H - 1"
    using assms(6-9) by (simp_all add: s32_idem r_def W_def H_def)
  have lv: "r_clearRect q" "argb (r_calpha q) (r_cred q) (r_cgreen q) (r_cblue q) = c"
  proof -
    have l: "surface_level q" "color_level q" using cs(1) by (simp_all add: validated_def)
    show "r_clearRect q" using l(1) by (simp add: surface_level_def)
    have "argb 0 0 0 0 = 0" by code_simp
    then show "argb (r_calpha q) (r_cred q) (r_cgreen q) (r_cblue q) = c"
      using l(2) unfolding color_level_def cs c_def by (simp split: if_splits)
  qed
  have rc: "renderer_clearRect x y w h (INVALIDATE_RENDERER_SURFACE (r\<lparr>r_surface := (r_surface r)\<lparr>s_data := d\<rparr>\<rparr>)
     \<lparr>r_imagePixelStride := 1, r_imageScanlineStride := W\<rparr>) =
    (if minX \<le> maxX \<and> minY \<le> maxY then clearRect8888_any q minX minY (s32 (maxX - minX + 1)) (s32 (maxY - minY + 1)) else Some q)"
    unfolding renderer_clearRect_def Let_def j W_def clear_start_def [symmetric] q_def [symmetric] cs
    by (simp add: lv(1) minX_def minY_def maxX_def maxY_def W_def [symmetric] j)
  have cl: "clearRect8888_any q minX minY (s32 (maxX - minX + 1)) (s32 (maxY - minY + 1)) = Some (q\<lparr>r_data :=
      upd_rows d (nat (minY * W + minX)) (nat W) (nat (maxX - minX + 1)) (nat (maxY - minY + 1)) (\<lambda>_ _ _. c)\<rparr>)"
    if ne: "minX \<le> maxX" "minY \<le> maxY"
  proof -
    have b: "0 \<le> minX" "maxX < W" "0 \<le> minY" "maxY < H" "W * H \<le> int (length d)" "4 * int (length d) < 2147483648"
      using assms(4,5) by (auto simp: minX_def minY_def maxX_def maxY_def W_def H_def r_def)
    have W: "1 \<le> W" using b ne by linarith
    have l: "(maxY + 1) * W \<le> int (length d)"
    proof -
      have "(maxY + 1) * W \<le> H * W" using b W by (intro mult_right_mono) auto
      then show ?thesis using b(5) by (simp add: mult.commute)
    qed
    have "maxY + 1 \<le> int (length d)" by (rule le_of_mult [OF l W]) (use b ne in linarith)
    moreover have "W \<le> int (length d)"
    proof -
      have "1 * W \<le> (maxY + 1) * W" using b ne W by (intro mult_right_mono) auto
      then show ?thesis using l by linarith
    qed
    ultimately have s: "s32 (maxX - minX + 1) = maxX - minX + 1" "s32 (maxY - minY + 1) = maxY - minY + 1"
      using b ne by (auto intro!: s32_eq)
    have "clear_ok q minX minY (maxX - minX + 1) (maxY - minY + 1)"
      unfolding clear_ok_def cs using b ne l assms(5) by (simp add: algebra_simps)
    from clearRect8888_any_upd [OF this] show ?thesis
      unfolding s lv(2) cs rect_start_def by simp
  qed
  have im: "clearRectImpl (Some d) x y w h n = Some (report (n\<lparr>n_rdr := sync_surface q'\<rparr>))"
    if "renderer_clearRect x y w h (INVALIDATE_RENDERER_SURFACE (r\<lparr>r_surface := (r_surface r)\<lparr>s_data := d\<rparr>\<rparr>)
     \<lparr>r_imagePixelStride := 1, r_imageScanlineStride := W\<rparr>) = Some q'" for q'
    using that assms(2)
    by (simp add: clearRectImpl_def with_surface_def surface_acquire_def readMemErrorFlag_def r_def W_def Let_def
      INVALIDATE_RENDERER_SURFACE_def mark_def)
  have "\<exists>n'. clearRectImpl (Some d) x y w h n = Some (n', None) \<and>
      s_data (r_surface (n_rdr n')) =
        (if minX \<le> maxX \<and> minY \<le> maxY
         then upd_rows d (nat (minY * W + minX)) (nat W) (nat (maxX - minX + 1)) (nat (maxY - minY + 1)) (\<lambda>_ _ _. c)
         else d)"
  proof (cases "minX \<le> maxX \<and> minY \<le> maxY")
    case True
    then show ?thesis
      using im [OF trans [OF rc trans [OF if_P [OF True] cl]]] assms(2)
      by (simp add: report_def readAndClearMemErrorFlag_def sync_surface_def)
  next
    case False
    then show ?thesis
      using im [OF trans [OF rc if_not_P [OF False]]] assms(2) cs(2)
      by (auto simp add: report_def readAndClearMemErrorFlag_def sync_surface_def)
  qed
  then show ?thesis
    unfolding Let_def r_def [symmetric] W_def [symmetric] H_def [symmetric] minX_def [symmetric] minY_def [symmetric]
      maxX_def [symmetric] maxY_def [symmetric] c_def [symmetric] .
qed

lemma clearRectImpl_correct_witness:
  "\<exists>n'. clearRectImpl (Some [1, 2, 3, 4, 5, 6]) 2 0 9 1 wit_native = Some (n', None) \<and>
    s_data (r_surface (n_rdr n')) = [1, 2, - 65536, 4, 5, 6]"
proof -
  let ?d = "[1, 2, 3, 4, 5, 6] :: jint list"
  have w: "s_width (r_surface (n_rdr wit_native)) = 3" "s_height (r_surface (n_rdr wit_native)) = 2" by code_simp+
  have f: "\<not> n_memError wit_native" "java_surface (r_surface (n_rdr wit_native))"
    "s_width (r_surface (n_rdr wit_native)) * s_height (r_surface (n_rdr wit_native)) \<le> int (length ?d)" "4 * length ?d < 2 ^ 31"
    "is_jint (s_width (r_surface (n_rdr wit_native)) - 1)" "is_jint (s_height (r_surface (n_rdr wit_native)) - 1)"
    "is_jint (2 + 9 - 1)" "is_jint (0 + 1 - 1)"
    unfolding w by (simp_all add: is_jint_def) (code_simp+)
  have c: "max (max 2 0) (r_clip_bbMinX (n_rdr wit_native)) = 2" "max (max 0 0) (r_clip_bbMinY (n_rdr wit_native)) = 0"
    "min (min (2 + 9 - 1) (3 - 1)) (r_clip_bbMaxX (n_rdr wit_native)) = 2"
    "min (min (0 + 1 - 1) (2 - 1)) (r_clip_bbMaxY (n_rdr wit_native)) = 0" by code_simp+
  have i: "upd_rows ?d (nat (0 * 3 + 2)) (nat 3) (nat (2 - 2 + 1)) (nat (0 - 0 + 1)) (\<lambda>_ _ _.
      if r_compositeRule (n_rdr wit_native) = COMPOSITE_CLEAR then 0
      else argb (r_ualpha (n_rdr wit_native)) (r_ured (n_rdr wit_native)) (r_ugreen (n_rdr wit_native)) (r_ublue (n_rdr wit_native))) =
    [1, 2, - 65536, 4, 5, 6]" by code_simp
  show ?thesis
    using clearRectImpl_correct [OF wit_native_reachable f] unfolding Let_def w c i by simp
qed

end
