(* ===== verification/JSurface.thy ===== *)
theory JSurface
  imports JPiscesRenderer
begin

text \<open>
  Surfaces: \<^verbatim>\<open>JavaSurface_initialize\<close> (\<^verbatim>\<open>JJavaSurface.c\<close>) and the copying of pixels between a surface and a
  Java array (\<^verbatim>\<open>getRGBImpl\<close>, \<^verbatim>\<open>setRGBImpl\<close> of \<^verbatim>\<open>JAbstractSurface.c\<close>, \<^verbatim>\<open>surface_setRGB\<close> and \<^verbatim>\<open>setRGB\<close> of
  \<^verbatim>\<open>PiscesSurface.inl\<close>). Both directions clip the rectangle with \<^verbatim>\<open>CORRECT_DIMS\<close>, check the range of the
  array and run the same loop; what is shown of the loop is used for both.
\<close>

section \<open>Definitions\<close>

definition JavaSurface_initialize :: "jint \<Rightarrow> jint \<Rightarrow> jint \<Rightarrow> Surface" where
  "JavaSurface_initialize dataType width height =
     \<lparr>s_width = width, s_height = height, s_offset = 0, s_scanlineStride = width, s_pixelStride = 1,
      s_imageType = dataType, s_data = []\<rparr>"

record Dims =
  d_x :: jint
  d_y :: jint
  d_w :: jint
  d_h :: jint
  d_x1 :: jint
  d_y1 :: jint

definition CORRECT_DIMS :: "Surface \<Rightarrow> jint \<Rightarrow> jint \<Rightarrow> jint \<Rightarrow> jint \<Rightarrow> Dims" where
  "CORRECT_DIMS sf x y w h =
     (let (x, w, x1) = (if x < 0 then (0, s32 (w + x), s32 (0 - x)) else (x, w, 0));
          (y, h, y1) = (if y < 0 then (0, s32 (h + y), s32 (0 - y)) else (y, h, 0));
          w = (if s32 (x + w) > s_width sf then s32 (s_width sf - x) else w);
          h = (if s32 (y + h) > s_height sf then s32 (s_height sf - y) else h)
      in \<lparr>d_x = x, d_y = y, d_w = w, d_h = h, d_x1 = x1, d_y1 = y1\<rparr>)"

text \<open>\<^verbatim>\<open>*dst++ = *src++\<close> for \<open>n\<close> pixels, and the loop over the lines.\<close>

fun copy_px :: "nat \<Rightarrow> jint list \<Rightarrow> int \<Rightarrow> jint list \<Rightarrow> int \<Rightarrow> jint list option" where
  "copy_px 0 src si dst di = Some dst"
| "copy_px (Suc n) src si dst di = do {
     p \<leftarrow> load src si;
     dst \<leftarrow> store dst di p;
     copy_px n src (si + 1) dst (di + 1) }"

fun setRGB :: "nat \<Rightarrow> jint list \<Rightarrow> int \<Rightarrow> jint \<Rightarrow> jint list \<Rightarrow> int \<Rightarrow> jint \<Rightarrow> jint \<Rightarrow> jint list option" where
  "setRGB 0 dst di dstScanLength src si srcScanLength width = Some dst"
| "setRGB (Suc height) dst di dstScanLength src si srcScanLength width = do {
     dst \<leftarrow> copy_px (nat width) src si dst di;
     setRGB height dst (di + max 0 width + s32 (dstScanLength - width)) dstScanLength
       src (si + max 0 width + s32 (srcScanLength - width)) srcScanLength width }"

definition surface_setRGB :: "Surface \<Rightarrow> jint \<Rightarrow> jint \<Rightarrow> jint \<Rightarrow> jint \<Rightarrow> jint list \<Rightarrow> jint \<Rightarrow> jint \<Rightarrow> jint list option" where
  "surface_setRGB sf x y width height src si scanLength =
     setRGB (nat height) (s_data sf) (s32 (y * s_width sf) + x) (s_width sf) src si scanLength width"

text \<open>The check that both directions make of the array: the position of the first pixel, or the exception.\<close>

definition array_start :: "nat \<Rightarrow> jint \<Rightarrow> jint \<Rightarrow> Dims \<Rightarrow> jexception + jint" where
  "array_start len offset scanLength c =
     (let start = s32 (offset + d_y1 c * scanLength + d_x1 c);
          stop = s32 (start + d_h c * scanLength - 1)
      in if start < 0 \<or> start \<ge> int len \<or> stop < 0 \<or> stop \<ge> int len then Inl IllegalArgumentException
         else Inr start)"

text \<open>\<open>arr\<close> is the Java array, \<open>pinned\<close> says that \<^verbatim>\<open>GetPrimitiveArrayCritical\<close> returns it, \<open>dataInt\<close> are the pixels
  of the surface. The result is the content of the array and the pending exception.\<close>

definition getRGBImpl :: "jint list option \<Rightarrow> bool \<Rightarrow> jint list \<Rightarrow> jint \<Rightarrow> jint \<Rightarrow> jint \<Rightarrow> jint \<Rightarrow> jint \<Rightarrow> jint \<Rightarrow> Surface \<Rightarrow>
    (jint list \<times> jexception option) option" where
  "getRGBImpl dataInt pinned arr offset scanLength x y width height sf =
     (let c = CORRECT_DIMS sf x y width height in
      if d_w c > 0 \<and> d_h c > 0
      then case array_start (length arr) offset scanLength c of
          Inl e \<Rightarrow> Some (arr, Some e)
        | Inr start \<Rightarrow>
            if \<not> pinned then Some (arr, Some OutOfMemoryError)
            else case dataInt of
                None \<Rightarrow> Some (arr, Some OutOfMemoryError)
              | Some d \<Rightarrow> do {
                  arr \<leftarrow> setRGB (nat (d_h c)) arr start scanLength d (s32 (d_y c * s_width sf) + d_x c) (s_width sf) (d_w c);
                  Some (arr, None) }
      else Some (arr, None))"

text \<open>The result is the content of the pixels, \<open>None\<close> when they were not acquired, and the exception.\<close>

definition setRGBImpl :: "jint list option \<Rightarrow> bool \<Rightarrow> jint list \<Rightarrow> jint \<Rightarrow> jint \<Rightarrow> jint \<Rightarrow> jint \<Rightarrow> jint \<Rightarrow> jint \<Rightarrow> Surface \<Rightarrow>
    (jint list option \<times> jexception option) option" where
  "setRGBImpl dataInt pinned arr offset scanLength x y width height sf =
     (let c = CORRECT_DIMS sf x y width height in
      if d_w c > 0 \<and> d_h c > 0
      then case array_start (length arr) offset scanLength c of
          Inl e \<Rightarrow> Some (dataInt, Some e)
        | Inr start \<Rightarrow>
            if \<not> pinned then Some (dataInt, Some OutOfMemoryError)
            else case dataInt of
                None \<Rightarrow> Some (None, Some OutOfMemoryError)
              | Some d \<Rightarrow> do {
                  d \<leftarrow> surface_setRGB (sf\<lparr>s_data := d\<rparr>) (d_x c) (d_y c) (d_w c) (d_h c) arr start scanLength;
                  Some (Some d, None) }
      else Some (dataInt, None))"

section \<open>The loops\<close>

lemma copy_px_upd:
  assumes "0 \<le> si" "si + int n \<le> int (length src)" "0 \<le> di" "di + int n \<le> int (length dst)"
  shows "copy_px n src si dst di = Some (upd_seg dst (nat di) n (\<lambda>k _. src ! (nat si + k)))"
  using assms
proof (induction n arbitrary: si dst di)
  case (Suc n)
  have "load src si = Some (src ! nat si)" "store dst di (src ! nat si) = Some (dst[nat di := src ! nat si])"
    using Suc.prems by (simp_all add: load_def store_def in_arr_def)
  moreover have "copy_px n src (si + 1) (dst[nat di := src ! nat si]) (di + 1) =
    Some (upd_seg (dst[nat di := src ! nat si]) (Suc (nat di)) n (\<lambda>k _. src ! (nat si + Suc k)))"
    using Suc.IH [of "si + 1" "di + 1" "dst[nat di := src ! nat si]"] Suc.prems by (simp add: nat_add_distrib)
  ultimately show ?case
    using upd_seg_Suc [of "nat di" dst "\<lambda>k _. src ! (nat si + k)" n] Suc.prems by simp
qed simp

lemma setRGB_upd:
  assumes "0 \<le> si" "0 \<le> di" "0 < w" "w \<le> S" "w \<le> D" "S < 2 ^ 31" "D < 2 ^ 31"
    "0 < h \<Longrightarrow> si + (int h - 1) * S + w \<le> int (length src)" "0 < h \<Longrightarrow> di + (int h - 1) * D + w \<le> int (length dst)"
  shows "setRGB h dst di D src si S w =
    Some (upd_rows dst (nat di) (nat D) (nat w) h (\<lambda>j k _. src ! (nat si + j * nat S + k)))"
  using assms
proof (induction h arbitrary: si di dst)
  case (Suc h)
  have s: "s32 (D - w) = D - w" "s32 (S - w) = S - w" using Suc.prems(3-7) by (auto intro!: s32_eq)
  have hs: "0 \<le> int h * S" "0 \<le> int h * D" using Suc.prems by simp_all
  have "si + int h * S + w \<le> int (length src)" "di + int h * D + w \<le> int (length dst)" using Suc.prems(8,9) by simp_all
  then have b: "si + w \<le> int (length src)" "di + w \<le> int (length dst)" using hs by linarith+
  define d where "d = upd_seg dst (nat di) (nat w) (\<lambda>k _. src ! (nat si + k))"
  have c: "copy_px (nat w) src si dst di = Some d"
    unfolding d_def by (rule copy_px_upd) (use Suc.prems b in auto)
  have "setRGB h d (di + D) D src (si + S) S w =
    Some (upd_rows d (nat (di + D)) (nat D) (nat w) h (\<lambda>j k _. src ! (nat (si + S) + j * nat S + k)))"
    by (rule Suc.IH) (use Suc.prems in \<open>auto simp: d_def algebra_simps\<close>)
  moreover have "(\<lambda>j k (_ :: jint). src ! (nat (si + S) + j * nat S + k)) = (\<lambda>j k _. src ! (nat si + Suc j * nat S + k))"
    using Suc.prems by (simp add: nat_add_distrib algebra_simps)
  moreover have "nat (di + D) = nat di + nat D" using Suc.prems by (simp add: nat_add_distrib)
  ultimately show ?case
    using upd_rows_Suc [of "nat w" "nat D" dst "nat di" "\<lambda>j k _. src ! (nat si + j * nat S + k)" h] Suc.prems c
    by (simp add: s d_def max_def)
qed simp

section \<open>Clipping\<close>

text \<open>A surface with all of its pixels, and a rectangle whose ends are representable.\<close>

definition surface_ok :: "Surface \<Rightarrow> jint list \<Rightarrow> bool" where
  "surface_ok sf d \<longleftrightarrow> 0 \<le> s_width sf \<and> 0 \<le> s_height sf \<and> s_width sf < 2 ^ 31 \<and> s_height sf < 2 ^ 31 \<and>
     s_height sf * s_width sf \<le> int (length d) \<and> length d < 2 ^ 31"

definition rect_ok :: "jint \<Rightarrow> jint \<Rightarrow> jint \<Rightarrow> jint \<Rightarrow> bool" where
  "rect_ok x y w h \<longleftrightarrow> is_jint (- x) \<and> is_jint (- y) \<and> is_jint w \<and> is_jint h \<and> is_jint (x + w) \<and> is_jint (y + h)"

lemma CORRECT_DIMS_eq:
  assumes "surface_ok sf d" "rect_ok x y w h"
  shows "CORRECT_DIMS sf x y w h =
    \<lparr>d_x = max x 0, d_y = max y 0, d_w = min (x + w) (s_width sf) - max x 0, d_h = min (y + h) (s_height sf) - max y 0,
      d_x1 = max (- x) 0, d_y1 = max (- y) 0\<rparr>"
proof -
  have b: "- 2147483648 \<le> - x" "- x < 2147483648" "- 2147483648 \<le> - y" "- y < 2147483648" "- 2147483648 \<le> x + w"
    "x + w < 2147483648" "- 2147483648 \<le> y + h" "y + h < 2147483648" "0 \<le> s_width sf" "0 \<le> s_height sf"
    "s_width sf < 2147483648" "s_height sf < 2147483648"
    using assms by (simp_all add: surface_ok_def rect_ok_def is_jint_def)
  have "s32 (w + x) = x + w" "s32 (h + y) = y + h" "s32 (x + w) = x + w" "s32 (y + h) = y + h" "s32 (- x) = - x" "s32 (- y) = - y"
    using b by (simp_all add: add.commute)
  moreover have "s32 (s_width sf - x) = s_width sf - x" if "0 \<le> x" using b that by (intro s32_eq) linarith+
  moreover have "s32 (s_height sf - y) = s_height sf - y" if "0 \<le> y" using b that by (intro s32_eq) linarith+
  ultimately show ?thesis
    using b unfolding CORRECT_DIMS_def Let_def by (auto simp: min_def max_def)
qed

text \<open>Inside of the surface, line \<open>j\<close> of the clipped rectangle starts at a position that is in range.\<close>

lemma dims_in_surface:
  assumes "surface_ok sf d" "0 \<le> x" "0 \<le> y" "0 < w" "0 < h" "x + w \<le> s_width sf" "y + h \<le> s_height sf"
  shows "s32 (y * s_width sf) = y * s_width sf" "0 \<le> y * s_width sf + x"
    "y * s_width sf + x + (h - 1) * s_width sf + w \<le> int (length d)"
proof -
  let ?W = "s_width sf"
  have c: "s_height sf * ?W \<le> int (length d)" "int (length d) < 2147483648" "0 < ?W"
    using assms by (auto simp: surface_ok_def)
  have p: "0 \<le> y * ?W" "0 \<le> (h - 1) * ?W" using assms c by simp_all
  have "(y + h) * ?W \<le> s_height sf * ?W" using assms c by (intro mult_right_mono) auto
  moreover have "(y + h) * ?W = y * ?W + (h - 1) * ?W + ?W" by (simp add: algebra_simps)
  ultimately have e: "y * ?W + (h - 1) * ?W + ?W \<le> int (length d)" using c by linarith
  then show "y * ?W + x + (h - 1) * ?W + w \<le> int (length d)" using assms(6) by linarith
  show "0 \<le> y * ?W + x" using p assms by linarith
  show "s32 (y * ?W) = y * ?W" by (rule s32_eq) (use p e c in linarith)+
qed

text \<open>What passes the check of the array is inside of it, when the lines do not overlap.\<close>

lemma array_start_ok:
  assumes "array_start len offset scan c = Inr start" "0 < d_w c" "d_w c \<le> scan" "0 < d_h c" "len < 2 ^ 31"
    "is_jint (offset + d_y1 c * scan + d_x1 c)" "is_jint (offset + d_y1 c * scan + d_x1 c + d_h c * scan - 1)"
  shows "start = offset + d_y1 c * scan + d_x1 c" "0 \<le> start" "start + (d_h c - 1) * scan + d_w c \<le> int len"
proof -
  define st where "st = offset + d_y1 c * scan + d_x1 c"
  have e: "s32 st = st" "s32 (st + d_h c * scan - 1) = st + d_h c * scan - 1"
    using assms(6,7) by (simp_all add: s32_idem st_def)
  have "start = st" "0 \<le> st" "st + d_h c * scan - 1 < int len"
    using assms(1) unfolding array_start_def Let_def st_def [symmetric] e by (auto split: if_splits)
  then show "start = offset + d_y1 c * scan + d_x1 c" "0 \<le> start" "start + (d_h c - 1) * scan + d_w c \<le> int len"
    using assms(3) by (simp_all add: st_def left_diff_distrib)
qed

section \<open>Both directions\<close>

text \<open>The arguments are in the range for which no position overflows, and the lines in the array do not
  overlap.\<close>

definition transfer_ok :: "jint list \<Rightarrow> nat \<Rightarrow> jint \<Rightarrow> jint \<Rightarrow> jint \<Rightarrow> jint \<Rightarrow> jint \<Rightarrow> jint \<Rightarrow> Surface \<Rightarrow> bool" where
  "transfer_ok d len offset scan x y w h sf \<longleftrightarrow> surface_ok sf d \<and> rect_ok x y w h \<and> len < 2 ^ 31 \<and> scan < 2 ^ 31 \<and>
     (let c = CORRECT_DIMS sf x y w h in d_w c \<le> scan \<and> is_jint (offset + d_y1 c * scan + d_x1 c) \<and>
       is_jint (offset + d_y1 c * scan + d_x1 c + d_h c * scan - 1))"

lemma transfer_bounds:
  assumes "transfer_ok d len offset scan x y w h sf" "c = CORRECT_DIMS sf x y w h" "0 < d_w c" "0 < d_h c"
    "array_start len offset scan c = Inr start"
  shows "0 \<le> start" "start + (int (nat (d_h c)) - 1) * scan + d_w c \<le> int len" "d_w c \<le> scan" "scan < 2 ^ 31"
    "s32 (d_y c * s_width sf) = d_y c * s_width sf" "0 \<le> d_y c * s_width sf + d_x c" "d_w c \<le> s_width sf" "s_width sf < 2 ^ 31"
    "d_y c * s_width sf + d_x c + (int (nat (d_h c)) - 1) * s_width sf + d_w c \<le> int (length d)"
proof -
  have t: "surface_ok sf d" "rect_ok x y w h" "len < 2 ^ 31" "scan < 2 ^ 31" "d_w c \<le> scan"
    "is_jint (offset + d_y1 c * scan + d_x1 c)" "is_jint (offset + d_y1 c * scan + d_x1 c + d_h c * scan - 1)"
    using assms(1,2) by (simp_all add: transfer_ok_def Let_def)
  note c = CORRECT_DIMS_eq [OF t(1,2), folded assms(2)]
  have d: "0 \<le> d_x c" "0 \<le> d_y c" "d_x c + d_w c \<le> s_width sf" "d_y c + d_h c \<le> s_height sf"
    unfolding c by simp_all
  show "d_w c \<le> scan" "scan < 2 ^ 31" by fact+
  show "0 \<le> start" "start + (int (nat (d_h c)) - 1) * scan + d_w c \<le> int len"
    using array_start_ok(2,3) [OF assms(5,3) t(5) assms(4) t(3,6,7)] assms(4) by simp_all
  show "s32 (d_y c * s_width sf) = d_y c * s_width sf" "0 \<le> d_y c * s_width sf + d_x c"
    "d_y c * s_width sf + d_x c + (int (nat (d_h c)) - 1) * s_width sf + d_w c \<le> int (length d)"
    using dims_in_surface [OF t(1) d(1,2) assms(3,4) d(3,4)] assms(4) by simp_all
  show "d_w c \<le> s_width sf" "s_width sf < 2 ^ 31" using d t(1) by (auto simp: surface_ok_def)
qed

lemma getRGBImpl_eq:
  assumes "transfer_ok d (length arr) offset scan x y w h sf"
  shows "getRGBImpl (Some d) True arr offset scan x y w h sf =
    (let c = CORRECT_DIMS sf x y w h in
     if d_w c > 0 \<and> d_h c > 0
     then case array_start (length arr) offset scan c of
         Inl e \<Rightarrow> Some (arr, Some e)
       | Inr start \<Rightarrow> Some (upd_rows arr (nat start) (nat scan) (nat (d_w c)) (nat (d_h c))
           (\<lambda>j k _. d ! (nat (d_y c * s_width sf + d_x c) + j * nat (s_width sf) + k)), None)
     else Some (arr, None))"
proof -
  define c where "c = CORRECT_DIMS sf x y w h"
  have "setRGB (nat (d_h c)) arr start scan d (s32 (d_y c * s_width sf) + d_x c) (s_width sf) (d_w c) =
    Some (upd_rows arr (nat start) (nat scan) (nat (d_w c)) (nat (d_h c))
      (\<lambda>j k _. d ! (nat (d_y c * s_width sf + d_x c) + j * nat (s_width sf) + k)))"
    if "d_w c > 0" "d_h c > 0" "array_start (length arr) offset scan c = Inr start" for start
    unfolding transfer_bounds(5) [OF assms c_def that]
    by (rule setRGB_upd) (use transfer_bounds [OF assms c_def that] that in auto)
  then show ?thesis
    unfolding getRGBImpl_def Let_def c_def [symmetric] by (auto split: sum.split)
qed

lemma setRGBImpl_eq:
  assumes "transfer_ok d (length arr) offset scan x y w h sf"
  shows "setRGBImpl (Some d) True arr offset scan x y w h sf =
    (let c = CORRECT_DIMS sf x y w h in
     if d_w c > 0 \<and> d_h c > 0
     then case array_start (length arr) offset scan c of
         Inl e \<Rightarrow> Some (Some d, Some e)
       | Inr start \<Rightarrow> Some (Some (upd_rows d (nat (d_y c * s_width sf + d_x c)) (nat (s_width sf)) (nat (d_w c)) (nat (d_h c))
           (\<lambda>j k _. arr ! (nat start + j * nat scan + k))), None)
     else Some (Some d, None))"
proof -
  define c where "c = CORRECT_DIMS sf x y w h"
  have "surface_setRGB (sf\<lparr>s_data := d\<rparr>) (d_x c) (d_y c) (d_w c) (d_h c) arr start scan =
    Some (upd_rows d (nat (d_y c * s_width sf + d_x c)) (nat (s_width sf)) (nat (d_w c)) (nat (d_h c))
      (\<lambda>j k _. arr ! (nat start + j * nat scan + k)))"
    if "d_w c > 0" "d_h c > 0" "array_start (length arr) offset scan c = Inr start" for start
    unfolding surface_setRGB_def
    by (simp add: transfer_bounds(5) [OF assms c_def that])
      (rule setRGB_upd; use transfer_bounds [OF assms c_def that] that in auto)
  then show ?thesis
    unfolding setRGBImpl_def Let_def c_def [symmetric] by (auto split: sum.split)
qed

text \<open>What a block of pixels holds after it was written.\<close>

lemma upd_rows_read:
  assumes "j < h" "k < w" "w \<le> W" "i + j * W + k < length d"
  shows "upd_rows d i W w h f ! (i + j * W + k) = f j k (d ! (i + j * W + k))"
proof -
  have "(j * W + k) div W = j" "(j * W + k) mod W = k" using assms by (simp_all add: div_add1_eq)
  then show ?thesis using assms by (simp add: nth_upd_rows)
qed

lemma upd_rows_same: "(\<And>j k. j < h \<Longrightarrow> k < w \<Longrightarrow> f j k (d ! (i + j * W + k)) = d ! (i + j * W + k)) \<Longrightarrow> upd_rows d i W w h f = d"
proof (rule nth_equalityI)
  fix p assume a: "\<And>j k. j < h \<Longrightarrow> k < w \<Longrightarrow> f j k (d ! (i + j * W + k)) = d ! (i + j * W + k)"
    and "p < length (upd_rows d i W w h f)"
  then have p: "p < length d" by simp
  show "upd_rows d i W w h f ! p = d ! p"
  proof (cases "i \<le> p")
    case True
    then have "i + ((p - i) div W) * W + (p - i) mod W = p" by simp
    then show ?thesis using a [of "(p - i) div W" "(p - i) mod W"] p by (simp only: nth_upd_rows) simp
  qed (use p in \<open>simp add: nth_upd_rows\<close>)
qed simp

section \<open>Properties\<close>

text \<open>C25: \<^verbatim>\<open>getRGBImpl\<close> copies exactly the part of the rectangle that lies in the surface to its place in the array:
  no read outside of the surface, no write outside of the array, all other elements stay; a range that
  does not fit is refused with an exception and nothing is written.\<close>

theorem getRGBImpl_correct:
  assumes "transfer_ok d (length arr) offset scan x y w h sf"
  shows "let x0 = max x 0; y0 = max y 0; cw = min (x + w) (s_width sf) - x0; ch = min (y + h) (s_height sf) - y0;
      start = offset + (y0 - y) * scan + (x0 - x)
    in getRGBImpl (Some d) True arr offset scan x y w h sf =
      (if cw \<le> 0 \<or> ch \<le> 0 then Some (arr, None)
       else if start < 0 \<or> int (length arr) \<le> start \<or> int (length arr) \<le> start + ch * scan - 1
       then Some (arr, Some IllegalArgumentException)
       else Some (upd_rows arr (nat start) (nat scan) (nat cw) (nat ch)
         (\<lambda>j k _. d ! (nat (y0 * s_width sf + x0) + j * nat (s_width sf) + k)), None))"
proof -
  have t: "surface_ok sf d" "rect_ok x y w h" using assms by (simp_all add: transfer_ok_def Let_def)
  define c where "c = CORRECT_DIMS sf x y w h"
  note ce = CORRECT_DIMS_eq [OF t, folded c_def]
  define start where "start = offset + d_y1 c * scan + d_x1 c"
  have b: "is_jint start" "is_jint (start + d_h c * scan - 1)" "d_w c \<le> scan"
    using assms by (simp_all add: transfer_ok_def Let_def c_def start_def)
  have st: "start = offset + (max y 0 - y) * scan + (max x 0 - x)" unfolding start_def ce by (simp add: max_def)
  have as: "array_start (length arr) offset scan c =
    (if start < 0 \<or> int (length arr) \<le> start \<or> int (length arr) \<le> start + d_h c * scan - 1 then Inl IllegalArgumentException
     else Inr start)" if "0 < d_w c" "0 < d_h c"
  proof -
    have "0 < d_h c * scan" using that b(3) by simp
    then show ?thesis
      unfolding array_start_def Let_def start_def [symmetric] s32_idem [OF b(1)] s32_idem [OF b(2)] by auto
  qed
  show ?thesis
    unfolding getRGBImpl_eq [OF assms] Let_def c_def [symmetric] st [symmetric]
    using as by (auto simp: ce not_less split: if_splits)
qed

text \<open>A surface of 3 by 2 pixels for the witnesses, and a rectangle that sticks out on the left and below.\<close>

definition wit_sf :: Surface where
  "wit_sf = JavaSurface_initialize TYPE_INT_ARGB_PRE 3 2"

lemma wit_transfer: "transfer_ok [1, 2, 3, 4, 5, 6] (length [9, 9, 9, 9, 9, 9, 9 :: jint]) 1 3 (-1) 1 3 2 wit_sf"
proof -
  have "surface_ok wit_sf [1, 2, 3, 4, 5, 6]" "rect_ok (-1) 1 3 2"
    by (simp_all add: surface_ok_def rect_ok_def wit_sf_def JavaSurface_initialize_def is_jint_def)
  moreover from CORRECT_DIMS_eq [OF this] have "CORRECT_DIMS wit_sf (-1) 1 3 2 =
    \<lparr>d_x = 0, d_y = 1, d_w = 2, d_h = 1, d_x1 = 1, d_y1 = 0\<rparr>"
    by (simp add: wit_sf_def JavaSurface_initialize_def)
  ultimately show ?thesis by (simp add: transfer_ok_def Let_def is_jint_def)
qed

theorem getRGBImpl_correct_witness:
  "getRGBImpl (Some [1, 2, 3, 4, 5, 6]) True [9, 9, 9, 9, 9, 9, 9] 1 3 (-1) 1 3 2 wit_sf = Some ([9, 9, 4, 5, 9, 9, 9], None)"
proof -
  have u: "upd_rows [9, 9, 9, 9, 9, 9, 9] (nat 2) (nat 3) (nat 2) (nat 1)
      (\<lambda>j k _. [1, 2, 3, 4, 5, 6] ! (nat 3 + j * nat 3 + k)) = [9, 9, 4, 5, 9, 9, 9 :: jint]" by code_simp
  show ?thesis
    using getRGBImpl_correct [OF wit_transfer] u by (simp add: Let_def wit_sf_def JavaSurface_initialize_def)
qed

text \<open>C26: Reading back what was written: after \<^verbatim>\<open>setRGBImpl\<close>, \<^verbatim>\<open>getRGBImpl\<close> with the same arguments returns the
  array unchanged, with the same exception, whatever part of the rectangle lies in the surface.\<close>

theorem setRGB_getRGB_round_trip:
  assumes "transfer_ok d (length arr) offset scan x y w h sf"
  shows "\<exists>d' exc. setRGBImpl (Some d) True arr offset scan x y w h sf = Some (Some d', exc) \<and> length d' = length d \<and>
    getRGBImpl (Some d') True arr offset scan x y w h sf = Some (arr, exc)"
proof -
  define c where "c = CORRECT_DIMS sf x y w h"
  define i W where "i = nat (d_y c * s_width sf + d_x c)" and "W = nat (s_width sf)"
  define d' where "d' = (\<lambda>start. upd_rows d i W (nat (d_w c)) (nat (d_h c)) (\<lambda>j k _. arr ! (nat start + j * nat scan + k)))"
  have t: "transfer_ok (d' start) (length arr) offset scan x y w h sf" for start
    using assms by (simp add: transfer_ok_def surface_ok_def d'_def)
  have r: "upd_rows arr (nat start) (nat scan) (nat (d_w c)) (nat (d_h c)) (\<lambda>j k _. d' start ! (i + j * W + k)) = arr"
    if *: "0 < d_w c" "0 < d_h c" "array_start (length arr) offset scan c = Inr start" for start
  proof (rule upd_rows_same)
    fix j k assume jk: "j < nat (d_h c)" "k < nat (d_w c)"
    note b = transfer_bounds [OF assms c_def *]
    have w: "nat (d_w c) \<le> W" using b(7) by (simp add: W_def)
    have "int i + int j * s_width sf + int k < int (length d)"
    proof -
      have "int j * s_width sf \<le> (int (nat (d_h c)) - 1) * s_width sf" using jk * b(7) by (intro mult_right_mono) auto
      then show ?thesis using b(6,9) jk by (simp add: i_def)
    qed
    moreover have "s_width sf = int W" using * b(7) by (simp add: W_def)
    ultimately have "int (i + j * W + k) < int (length d)" by simp
    then have "i + j * W + k < length d" by (simp only: of_nat_less_iff)
    then show "d' start ! (i + j * W + k) = arr ! (nat start + j * nat scan + k)"
      unfolding d'_def by (rule upd_rows_read [OF jk w])
  qed
  consider (empty) "\<not> (0 < d_w c \<and> 0 < d_h c)" | (err) e where "0 < d_w c \<and> 0 < d_h c" "array_start (length arr) offset scan c = Inl e"
    | (copy) start where "0 < d_w c \<and> 0 < d_h c" "array_start (length arr) offset scan c = Inr start"
    by (cases "array_start (length arr) offset scan c") auto
  then show ?thesis
  proof cases
    case empty
    then show ?thesis
      using getRGBImpl_eq [OF assms] setRGBImpl_eq [OF assms] by (auto simp: Let_def c_def)
  next
    case err
    then show ?thesis
      using getRGBImpl_eq [OF assms] setRGBImpl_eq [OF assms] by (auto simp: Let_def c_def)
  next
    case copy
    then have "getRGBImpl (Some (d' start)) True arr offset scan x y w h sf = Some (arr, None)"
      unfolding getRGBImpl_eq [OF t] Let_def c_def [symmetric] i_def [symmetric] W_def [symmetric] using r by simp
    moreover have "setRGBImpl (Some d) True arr offset scan x y w h sf = Some (Some (d' start), None)"
      using copy unfolding setRGBImpl_eq [OF assms] Let_def c_def [symmetric] by (simp add: d'_def i_def W_def)
    ultimately show ?thesis by (auto simp: d'_def)
  qed
qed

theorem setRGB_getRGB_round_trip_witness:
  "\<exists>d' exc. setRGBImpl (Some [1, 2, 3, 4, 5, 6]) True [9, 9, 9, 9, 9, 9, 9] 1 3 (-1) 1 3 2 wit_sf = Some (Some d', exc) \<and>
    getRGBImpl (Some d') True [9, 9, 9, 9, 9, 9, 9] 1 3 (-1) 1 3 2 wit_sf = Some ([9, 9, 9, 9, 9, 9, 9], exc)"
  using setRGB_getRGB_round_trip [OF wit_transfer] by blast

text \<open>The range check uses the distance of the lines, not their length: with a \<^verbatim>\<open>scanLength\<close> smaller than the
  width it accepts an array that is too short, and the copy of the last line writes behind its end.\<close>

lemma getRGBImpl_short_scan_unsafe:
  "getRGBImpl (Some [1, 2, 3, 4, 5, 6]) True [0] 0 1 0 0 3 1 wit_sf = None"
  by code_simp

end
