(* ===== verification/PiscesMath.thy ===== *)
theory PiscesMath
  imports JPiscesRenderer
begin

text \<open>
  Fixed point arithmetic of \<^verbatim>\<open>PiscesMath.c\<close>: angles are numbers with 16 fractional bits. The table \<^verbatim>\<open>sintab\<close>
  that \<^verbatim>\<open>piscesmath_moduleInitialize\<close> allocates is an argument, the empty list while it is \<^verbatim>\<open>NULL\<close>; its entries come from
  the parameter \<open>fsin\<close>, which stands for \<^verbatim>\<open>(jint)(PISCESsin(theta) * 65536.0)\<close> at the angle of an entry. The
  inverse functions on \<^verbatim>\<open>float\<close> are not modelled.
\<close>

section \<open>Definitions\<close>

definition PISCES_PI :: int where "PISCES_PI = 205887"
definition PISCES_TWO_PI :: int where "PISCES_TWO_PI = 411774"
definition PISCES_PI_OVER_TWO :: int where "PISCES_PI_OVER_TWO = 102943"
definition PISCES_360_DEGREES :: int where "PISCES_360_DEGREES = 23592960"
definition PISCES_RADIANS_TO_DEGREES_MULTIPLIER :: int where "PISCES_RADIANS_TO_DEGREES_MULTIPLIER = 3754936"
definition PISCES_DEGREES_TO_RADIANS_MULTIPLIER :: int where "PISCES_DEGREES_TO_RADIANS_MULTIPLIER = 1143"
definition PISCES_SINTAB_ENTRIES :: int where "PISCES_SINTAB_ENTRIES = 1024"

lemmas math_consts = PISCES_PI_def PISCES_TWO_PI_def PISCES_PI_OVER_TWO_def PISCES_360_DEGREES_def
  PISCES_RADIANS_TO_DEGREES_MULTIPLIER_def PISCES_DEGREES_TO_RADIANS_MULTIPLIER_def PISCES_SINTAB_ENTRIES_def

definition piscesmath_moduleInitialize :: "(int \<Rightarrow> jint) \<Rightarrow> bool \<Rightarrow> jint list \<Rightarrow> jint list \<times> bool" where
  "piscesmath_moduleInitialize fsin alloc sintab =
     (if sintab = []
      then if alloc then (map fsin [0..PISCES_SINTAB_ENTRIES], True) else ([], False)
      else (sintab, True))"

definition piscesmath_moduleFinalize :: "jint list \<Rightarrow> jint list" where
  "piscesmath_moduleFinalize sintab = []"

text \<open>The loop \<^verbatim>\<open>while (theta >= PISCES_TWO_PI) theta -= PISCES_TWO_PI\<close>.\<close>

function reduce_angle :: "jint \<Rightarrow> jint" where
  "reduce_angle theta = (if theta \<ge> PISCES_TWO_PI then reduce_angle (theta - PISCES_TWO_PI) else theta)"
  by pat_completeness auto
termination by (relation "measure nat") (auto simp: PISCES_TWO_PI_def)

declare reduce_angle.simps [simp del]

definition piscesmath_sin :: "jint list \<Rightarrow> jint \<Rightarrow> jint option" where
  "piscesmath_sin sintab theta =
     (let (theta, sign) = (if theta < 0 then (s32 (- theta), - 1) else (theta, 1));
          theta = reduce_angle theta;
          (theta, sign) = (if theta \<ge> PISCES_PI then (PISCES_TWO_PI - theta, - sign) else (theta, sign));
          theta = (if theta > PISCES_PI_OVER_TWO then PISCES_PI - theta else theta);
          itheta = s32 (c_quot (theta * PISCES_SINTAB_ENTRIES) PISCES_PI_OVER_TWO)
      in do { v \<leftarrow> load sintab itheta; Some (s32 (sign * v)) })"

definition piscesmath_cos :: "jint list \<Rightarrow> jint \<Rightarrow> jint option" where
  "piscesmath_cos sintab theta = piscesmath_sin sintab (s32 (PISCES_PI_OVER_TWO - theta))"

definition piscesmath_toRadians :: "jint \<Rightarrow> jint" where
  "piscesmath_toRadians thetaDegrees =
     s32 (drop_bit 16 (c_rem thetaDegrees PISCES_360_DEGREES * PISCES_DEGREES_TO_RADIANS_MULTIPLIER))"

definition piscesmath_toDegrees :: "jint \<Rightarrow> jint" where
  "piscesmath_toDegrees thetaRadians =
     s32 (drop_bit 16 (c_rem thetaRadians PISCES_TWO_PI * PISCES_RADIANS_TO_DEGREES_MULTIPLIER))"

definition piscesmath_abs :: "jint \<Rightarrow> jint" where
  "piscesmath_abs x = (if x \<ge> 0 then x else s32 (- x))"

definition piscesmath_ceil :: "'f fops \<Rightarrow> 'f \<Rightarrow> jint" where
  "piscesmath_ceil F x =
     (let x = (if flt F x (fofint F 0) then fneg F x else x);
          dx = fsub F x (fofint F (ftoint F x))
      in if flt F (fofint F 0) dx then ftoint F (fadd F x (fofint F 1)) else ftoint F x)"

section \<open>The sine\<close>

lemma reduce_angle_mod: "0 \<le> theta \<Longrightarrow> reduce_angle theta = theta mod PISCES_TWO_PI"
proof (induction theta rule: reduce_angle.induct)
  case (1 theta)
  show ?case
  proof (cases "theta \<ge> PISCES_TWO_PI")
    case True
    then have "reduce_angle theta = (theta - PISCES_TWO_PI) mod PISCES_TWO_PI"
      using 1 by (subst reduce_angle.simps) simp
    then show ?thesis by simp
  next
    case False
    then show ?thesis using 1(2) by (subst reduce_angle.simps) simp
  qed
qed

text \<open>The entry of the table for an angle of a full turn, and whether it is negated.\<close>

definition quarter :: "int \<Rightarrow> int" where
  "quarter u = (let u = (if u \<ge> PISCES_PI then PISCES_TWO_PI - u else u)
     in if u > PISCES_PI_OVER_TWO then PISCES_PI - u else u)"

definition sin_index :: "int \<Rightarrow> nat" where
  "sin_index u = nat (quarter u * 1024 div 102943)"

lemma quarter_range: "0 \<le> u \<Longrightarrow> u < PISCES_TWO_PI \<Longrightarrow> 0 \<le> quarter u \<and> quarter u \<le> 102943"
  by (auto simp: quarter_def Let_def math_consts)

lemma sin_index_range:
  assumes "0 \<le> u" "u < PISCES_TWO_PI"
  shows "sin_index u \<le> 1024" "int (sin_index u) = quarter u * 1024 div 102943"
proof -
  have "quarter u * 1024 div 102943 \<le> 102943 * 1024 div 102943"
    using quarter_range [OF assms] by (intro zdiv_mono1) auto
  then show "sin_index u \<le> 1024" by (simp add: sin_index_def)
  show "int (sin_index u) = quarter u * 1024 div 102943" using quarter_range [OF assms] by (simp add: sin_index_def)
qed

lemma sin_pos:
  assumes "length tab = 1025" "\<forall>v \<in> set tab. is_jint v \<and> is_jint (- v)" "0 \<le> theta" "theta < 2 ^ 31" "sgn0 \<in> {1, - 1}"
  defines "u \<equiv> theta mod PISCES_TWO_PI"
  shows "(let theta = reduce_angle theta;
          (theta, sign) = (if theta \<ge> PISCES_PI then (PISCES_TWO_PI - theta, - sgn0) else (theta, sgn0));
          theta = (if theta > PISCES_PI_OVER_TWO then PISCES_PI - theta else theta);
          itheta = s32 (c_quot (theta * PISCES_SINTAB_ENTRIES) PISCES_PI_OVER_TWO)
      in do { v \<leftarrow> load tab itheta; Some (s32 (sign * v)) }) =
    Some (sgn0 * (if u \<ge> PISCES_PI then - tab ! sin_index u else tab ! sin_index u))"
proof -
  have u: "0 \<le> u" "u < PISCES_TWO_PI" by (simp_all add: u_def PISCES_TWO_PI_def)
  note r = sin_index_range [OF u] and q = quarter_range [OF u]
  have "c_quot (quarter u * 1024) 102943 = quarter u * 1024 div 102943"
    using q by (cases "quarter u = 0") (simp_all add: c_quot_def sgn_if)
  then have i: "s32 (c_quot (quarter u * PISCES_SINTAB_ENTRIES) PISCES_PI_OVER_TWO) = int (sin_index u)"
    using r by (simp add: math_consts)
  have l: "load tab (int (sin_index u)) = Some (tab ! sin_index u)" using r(1) assms(1) by (simp add: load_def in_arr_def)
  have "tab ! sin_index u \<in> set tab" using r(1) assms(1) by simp
  then have s: "s32 (tab ! sin_index u) = tab ! sin_index u" "s32 (- tab ! sin_index u) = - tab ! sin_index u"
    using assms(2) by (simp_all add: s32_idem)
  have qe: "(if (if u \<ge> PISCES_PI then PISCES_TWO_PI - u else u) > PISCES_PI_OVER_TWO
     then PISCES_PI - (if u \<ge> PISCES_PI then PISCES_TWO_PI - u else u) else (if u \<ge> PISCES_PI then PISCES_TWO_PI - u else u)) = quarter u"
    by (simp add: quarter_def)
  show ?thesis
    unfolding reduce_angle_mod [OF assms(3)] u_def [symmetric] Let_def
    using assms(5) i l s qe by (auto split: if_splits)
qed

text \<open>The smallest integer is not handled by \<^verbatim>\<open>piscesmath_sin\<close>: its negation overflows, the angle stays negative
  and the table is read before its start.\<close>

lemma piscesmath_sin_min_int: "piscesmath_sin tab (- 2147483648) = None"
proof -
  have s: "s32 2147483648 = - 2147483648" by code_simp
  have r: "reduce_angle (- 2147483648) = - 2147483648" by (subst reduce_angle.simps) (simp add: math_consts)
  have q: "s32 (c_quot (- 2147483648 * PISCES_SINTAB_ENTRIES) PISCES_PI_OVER_TWO) = - 21361561" by code_simp
  show ?thesis unfolding piscesmath_sin_def Let_def using s r q by (simp add: load_def in_arr_def math_consts)
qed

text \<open>The sine of an angle of a full turn, by its quadrant, from the entries of the first quadrant.\<close>

definition table_sin :: "(int \<Rightarrow> jint) \<Rightarrow> int \<Rightarrow> jint" where
  "table_sin fsin u = (let entry = (\<lambda>v. fsin (v * 1024 div 102943)) in
     if u \<le> 102943 then entry u else if u < 205887 then entry (205887 - u)
     else if u < 308831 then - entry (u - 205887) else - entry (411774 - u))"

lemma table_sin_quarter:
  assumes "0 \<le> u" "u < PISCES_TWO_PI"
  shows "(if u \<ge> PISCES_PI then - map fsin [0..1024] ! sin_index u else map fsin [0..1024] ! sin_index u) = table_sin fsin u"
proof -
  have "map fsin [0..1024] ! sin_index u = fsin (quarter u * 1024 div 102943)"
    using sin_index_range [OF assms] by (simp add: nth_upto)
  then show ?thesis using assms(2) by (auto simp: table_sin_def quarter_def Let_def math_consts)
qed

text \<open>Half a turn away, and backwards, the sine changes its sign.\<close>

lemma table_sin_back:
  assumes "0 < u" "u < PISCES_TWO_PI" "fsin 0 = 0"
  shows "table_sin fsin (PISCES_TWO_PI - u) = - table_sin fsin u"
  using assms by (auto simp: table_sin_def Let_def math_consts)

lemma table_sin_minus:
  assumes "fsin 0 = 0"
  shows "table_sin fsin (- t mod PISCES_TWO_PI) = - table_sin fsin (t mod PISCES_TWO_PI)"
proof (cases "t mod PISCES_TWO_PI = 0")
  case True
  then show ?thesis using assms by (simp add: zmod_zminus1_eq_if table_sin_def)
next
  case False
  have "0 \<le> t mod PISCES_TWO_PI" "t mod PISCES_TWO_PI < PISCES_TWO_PI" by (simp_all add: PISCES_TWO_PI_def)
  with False table_sin_back [of "t mod PISCES_TWO_PI" fsin] assms show ?thesis by (simp add: zmod_zminus1_eq_if)
qed

lemma piscesmath_sin_value:
  assumes "fsin 0 = 0" "\<forall>i \<in> {0..1024}. \<bar>fsin i\<bar> \<le> 65536" "is_jint t" "t \<noteq> - 2147483648"
  shows "piscesmath_sin (map fsin [0..1024]) t = Some (table_sin fsin (t mod PISCES_TWO_PI))"
proof -
  let ?tab = "map fsin [0..1024]"
  have tab: "length ?tab = 1025" "\<forall>v \<in> set ?tab. is_jint v \<and> is_jint (- v)"
    using assms(2) by (force simp: is_jint_def abs_le_iff)+
  have u: "0 \<le> x mod PISCES_TWO_PI" "x mod PISCES_TWO_PI < PISCES_TWO_PI" for x by (simp_all add: PISCES_TWO_PI_def)
  note q = table_sin_quarter [where fsin = fsin, OF u]
  have j: "is_jint (- t)" using assms(3,4) by (auto simp: is_jint_def)
  show ?thesis
  proof (cases "t < 0")
    case True
    then have "piscesmath_sin ?tab t = Some (- table_sin fsin (- t mod PISCES_TWO_PI))"
      using sin_pos [OF tab, of "- t" "- 1"] j q
      unfolding piscesmath_sin_def s32_idem [OF j] by (simp add: is_jint_def Let_def)
    then show ?thesis using table_sin_minus [of fsin, OF assms(1)] by simp
  next
    case False
    then show ?thesis
      using sin_pos [OF tab, of t 1] assms(3) q
      unfolding piscesmath_sin_def by (simp add: is_jint_def Let_def)
  qed
qed

section \<open>Properties\<close>

text \<open>C28: \<^verbatim>\<open>piscesmath_sin\<close> with the table that \<^verbatim>\<open>piscesmath_moduleInitialize\<close> makes, when the entry of the angle 0 is 0
  and all entries are at most 1.0 in absolute value. For every angle but the smallest integer the loop ends, the index is
  inside of the table, and the result is the entry for the angle modulo \<^verbatim>\<open>PISCES_TWO_PI\<close>, mirrored into the first quadrant,
  with the sign of the quadrant; so the function is odd and has period \<^verbatim>\<open>PISCES_TWO_PI\<close>, for positive and negative angles.
  For the smallest integer it reads before the start of the table.\<close>

theorem piscesmath_sin_correct:
  assumes "fsin 0 = 0" "\<forall>i \<in> {0..1024}. \<bar>fsin i\<bar> \<le> 65536" "is_jint theta"
  shows "let tab = fst (piscesmath_moduleInitialize fsin True []) in
    piscesmath_sin tab theta =
      (if theta = - 2147483648 then None else Some (table_sin fsin (theta mod PISCES_TWO_PI))) \<and>
    (theta \<noteq> - 2147483648 \<and> is_jint (theta + PISCES_TWO_PI) \<longrightarrow>
      piscesmath_sin tab (theta + PISCES_TWO_PI) = piscesmath_sin tab theta) \<and>
    (theta \<noteq> - 2147483648 \<longrightarrow> piscesmath_sin tab (- theta) = map_option uminus (piscesmath_sin tab theta))"
proof -
  have tab: "fst (piscesmath_moduleInitialize fsin True []) = map fsin [0..1024]"
    by (simp add: piscesmath_moduleInitialize_def PISCES_SINTAB_ENTRIES_def)
  note e = piscesmath_sin_value [of fsin, OF assms(1,2)]
  have "piscesmath_sin (map fsin [0..1024]) (theta + PISCES_TWO_PI) = piscesmath_sin (map fsin [0..1024]) theta"
    if "theta \<noteq> - 2147483648" "is_jint (theta + PISCES_TWO_PI)"
    using e [OF assms(3) that(1)] e [OF that(2)] assms(3) by (simp add: is_jint_def PISCES_TWO_PI_def)
  moreover have "piscesmath_sin (map fsin [0..1024]) (- theta) = map_option uminus (piscesmath_sin (map fsin [0..1024]) theta)"
    if "theta \<noteq> - 2147483648"
  proof -
    have "is_jint (- theta)" "- theta \<noteq> - 2147483648" using assms(3) that by (auto simp: is_jint_def)
    then show ?thesis using e [OF assms(3) that] e [of "- theta"] table_sin_minus [of fsin, OF assms(1)] by simp
  qed
  ultimately show ?thesis
    unfolding tab Let_def using e [OF assms(3)] piscesmath_sin_min_int by simp
qed

theorem piscesmath_sin_correct_witness:
  "let tab = fst (piscesmath_moduleInitialize (\<lambda>i. 64 * i) True []) in
     piscesmath_sin tab (- 102943) = Some (- 65536) \<and> piscesmath_sin tab (- 102943 + PISCES_TWO_PI) = Some (- 65536) \<and>
     piscesmath_sin tab 102943 = Some 65536"
proof -
  have b: "(\<lambda>i. 64 * i) 0 = (0 :: int)" "\<forall>i \<in> {0..1024 :: int}. \<bar>(\<lambda>i. 64 * i) i\<bar> \<le> 65536" by auto
  have j: "is_jint (- 102943)" "is_jint (- 102943 + PISCES_TWO_PI)" by (simp_all add: is_jint_def PISCES_TWO_PI_def)
  have "table_sin (\<lambda>i. 64 * i) (- 102943 mod PISCES_TWO_PI) = - 65536" by (simp add: table_sin_def PISCES_TWO_PI_def)
  then show ?thesis using piscesmath_sin_correct [of "\<lambda>i. 64 * i", OF b j(1)] j(2) unfolding Let_def by simp
qed

text \<open>\<^verbatim>\<open>piscesmath_ceil\<close> of a negative number is the result for its absolute value: the variable \<^verbatim>\<open>sign\<close> is set
  and never used, so that the function rounds a negative number up to a positive one.\<close>

lemma piscesmath_ceil_drops_sign:
  assumes "flt F x (fofint F 0)" "\<not> flt F (fneg F x) (fofint F 0)"
  shows "piscesmath_ceil F x = piscesmath_ceil F (fneg F x)"
  using assms by (simp add: piscesmath_ceil_def Let_def)

text \<open>Numbers of halves: exact arithmetic, truncation towards zero.\<close>

definition halves :: "int fops" where
  "halves = \<lparr>fadd = (+), fsub = (-), fmul = (\<lambda>x y. x * y div 2), fdiv = (\<lambda>x y. 2 * x div y), fneg = uminus, flt = (<),
     fofint = (\<lambda>i. 2 * i), flit = (\<lambda>i. i div 50), fsqrt = (\<lambda>x. x), ftoint = (\<lambda>x. c_quot x 2), fsum_sqrt = (+)\<rparr>"

lemma piscesmath_ceil_drops_sign_witness: "piscesmath_ceil halves (- 3) = 2"
proof -
  have "piscesmath_ceil halves (- 3) = piscesmath_ceil halves (fneg halves (- 3))"
    by (rule piscesmath_ceil_drops_sign) (simp_all add: halves_def)
  also have "\<dots> = 2" by code_simp
  finally show ?thesis .
qed

end
