(* ===== verification/FlvParser.thy ===== *)
theory FlvParser
  imports Prelude
begin

text \<open>
  The FLV block parser (\<^verbatim>\<open>vp6/flvparser.c\<close>): a state machine that is given one block of the
  file at a time (header, skipped block, tag prefix, tag body), decodes it, and announces the
  size of the next block.

  A buffer is the list of bytes behind the pointer; \<open>buffer_size\<close> is the size the caller claims,
  a \<open>gsize\<close>. A read outside of the list is \<open>None\<close>. The struct that a function fills in is an
  argument and a result, since an error return leaves it partly written. \<open>gsize\<close> and \<open>guint64\<close>
  are 64 bit words, so every size computation wraps as in C; a \<open>gint\<close> is a 32 bit word read as
  signed.
\<close>

datatype FlvParserResult = FLV_PARSER_OK | FLV_PARSER_BUFFER_UNDERRUN | FLV_PARSER_BAD_STREAM
  | FLV_PARSER_UNSUPPORTED_STREAM | FLV_PARSER_INVALID_STATE

datatype FlvParserState = FLV_PARSER_EXPECT_HEADER | FLV_PARSER_EXPECT_SKIP_BLOCK
  | FLV_PARSER_EXPECT_TAG_PREFIX | FLV_PARSER_EXPECT_VIDEO_TAG_BODY | FLV_PARSER_EXPECT_AUDIO_TAG_BODY
  | FLV_PARSER_EXPECT_SCRIPT_DATA_TAG_BODY | FLV_PARSER_EOF

type_synonym gint = "32 word"

record FlvParser =
  fp_state :: FlvParserState
  file_position :: guint64
  parsed_block_size :: gsize
  next_block_size :: gsize

record FlvHeader =
  file_version :: gint
  has_audio_tags :: bool
  has_video_tags :: bool

record FlvTagPrefix =
  tag_type :: byte
  body_size :: gsize
  timestamp :: gint

record FlvAudioTag =
  sound_format :: byte
  sampling_rate :: byte
  is_16bit :: bool
  is_stereo :: bool
  audio_packet_offset :: gsize
  audio_packet_size :: gsize

record FlvVideoTag =
  codec_id :: byte
  frame_type :: byte
  video_packet_offset :: gsize
  video_packet_size :: gsize

text \<open>A script data reader: two pointers into the buffer, as offsets of its first byte.\<close>

record FlvScriptDataReader =
  rd_position :: nat
  rd_end :: nat

abbreviation "FLV_HEADER_SIZE \<equiv> 9 :: gsize"
abbreviation "FLV_TAG_PREFIX_SIZE \<equiv> 11 :: gsize"
abbreviation "FLV_TAG_SUFFIX_SIZE \<equiv> 4 :: gsize"
abbreviation "FLV_TAG_TYPE_AUDIO \<equiv> 8 :: byte"
abbreviation "FLV_TAG_TYPE_VIDEO \<equiv> 9 :: byte"
abbreviation "FLV_TAG_TYPE_SCRIPT_DATA \<equiv> 18 :: byte"

definition flv_audio_format_data_size :: "gsize list" where
  "flv_audio_format_data_size = [0, 0, 0, 0,  0, 0, 0, 0,  0, 0, 1, 0,  0, 0, 0, 0]"

definition flv_video_codec_data_size :: "gsize list" where
  "flv_video_codec_data_size = [0, 0, 0, 0,  1, 1, 0, 6,  0, 0, 0, 0,  0, 0, 0, 0]"

text \<open>Big endian reads. \<^verbatim>\<open>GST_READ_UINT16_BE\<close> is promoted to \<open>int\<close> where it is shifted.\<close>

definition GST_READ_UINT16_BE :: "byte list \<Rightarrow> int \<Rightarrow> gint option" where
  "GST_READ_UINT16_BE d i = do {
     a \<leftarrow> load d i; b \<leftarrow> load d (i + 1);
     Some (push_bit 8 (ucast a) OR ucast b) }"

definition GST_READ_UINT32_BE :: "byte list \<Rightarrow> int \<Rightarrow> gint option" where
  "GST_READ_UINT32_BE d i = do {
     a \<leftarrow> load d i; b \<leftarrow> load d (i + 1); c \<leftarrow> load d (i + 2); e \<leftarrow> load d (i + 3);
     Some (push_bit 24 (ucast a) OR push_bit 16 (ucast b) OR push_bit 8 (ucast c) OR ucast e) }"

definition FLV_READ_UINT24_BE :: "byte list \<Rightarrow> int \<Rightarrow> gint option" where
  "FLV_READ_UINT24_BE d i = do {
     h \<leftarrow> GST_READ_UINT16_BE d i; c \<leftarrow> load d (i + 2);
     Some (push_bit 8 h OR ucast c) }"

definition FLV_READ_TS32 :: "byte list \<Rightarrow> int \<Rightarrow> gint option" where
  "FLV_READ_TS32 d i = do {
     h \<leftarrow> GST_READ_UINT16_BE d i; c \<leftarrow> load d (i + 2); e \<leftarrow> load d (i + 3);
     Some (push_bit 8 h OR ucast c OR push_bit 24 (ucast e)) }"

definition flv_parser_init :: "FlvParser \<Rightarrow> FlvParser" where
  "flv_parser_init p = p\<lparr>fp_state := FLV_PARSER_EXPECT_HEADER, parsed_block_size := 0, file_position := 0,
     next_block_size := FLV_HEADER_SIZE\<rparr>"

definition flv_parser_reset :: "FlvParser \<Rightarrow> FlvParser" where
  "flv_parser_reset p = p\<lparr>fp_state := FLV_PARSER_EXPECT_HEADER, parsed_block_size := 0, file_position := 0,
     next_block_size := FLV_HEADER_SIZE\<rparr>"

definition flv_parser_seek :: "guint64 \<Rightarrow> FlvParser \<Rightarrow> FlvParser" where
  "flv_parser_seek new_position p = p\<lparr>fp_state := FLV_PARSER_EXPECT_TAG_PREFIX, file_position := new_position,
     parsed_block_size := 0, next_block_size := FLV_TAG_PREFIX_SIZE\<rparr>"

text \<open>The update at the end of a successful read: the block of size \<open>n\<close> has been parsed.\<close>

definition parser_advance :: "gsize \<Rightarrow> gsize \<Rightarrow> FlvParser \<Rightarrow> FlvParser" where
  "parser_advance n next p = p\<lparr>parsed_block_size := n, file_position := file_position p + n, next_block_size := next\<rparr>"

type_synonym 'a parser_result = "(FlvParserResult \<times> FlvParser \<times> 'a) option"

definition flv_parser_read_header :: "byte list \<Rightarrow> gsize \<Rightarrow> FlvParser \<Rightarrow> FlvHeader \<Rightarrow> FlvHeader parser_result" where
  "flv_parser_read_header buffer buffer_size p header =
     (if fp_state p \<noteq> FLV_PARSER_EXPECT_HEADER then Some (FLV_PARSER_INVALID_STATE, p, header)
      else if buffer_size < FLV_HEADER_SIZE then Some (FLV_PARSER_BUFFER_UNDERRUN, p, header)
      else do {
        b0 \<leftarrow> load buffer 0; b1 \<leftarrow> load buffer 1; b2 \<leftarrow> load buffer 2;
        if b0 \<noteq> 0x46 \<or> b1 \<noteq> 0x4C \<or> b2 \<noteq> 0x56 then Some (FLV_PARSER_BAD_STREAM, p, header)
        else do {
          b3 \<leftarrow> load buffer 3;
          let header = header\<lparr>file_version := ucast b3\<rparr>;
          if file_version header \<noteq> 1 then Some (FLV_PARSER_UNSUPPORTED_STREAM, p, header)
          else do {
            b4 \<leftarrow> load buffer 4;
            if b4 AND 0xFA \<noteq> 0 then Some (FLV_PARSER_BAD_STREAM, p, header)
            else do {
              let header = header\<lparr>has_audio_tags := (b4 AND 0x04 \<noteq> 0), has_video_tags := (b4 AND 0x01 \<noteq> 0)\<rparr>;
              off \<leftarrow> GST_READ_UINT32_BE buffer 5;
              let data_offset = (ucast off :: gsize);
              if data_offset < FLV_HEADER_SIZE then Some (FLV_PARSER_BAD_STREAM, p, header)
              else Some (FLV_PARSER_OK,
                (parser_advance FLV_HEADER_SIZE
                  (if data_offset = FLV_HEADER_SIZE then FLV_TAG_SUFFIX_SIZE
                   else data_offset - FLV_HEADER_SIZE + FLV_TAG_SUFFIX_SIZE) p)
                  \<lparr>fp_state := FLV_PARSER_EXPECT_SKIP_BLOCK\<rparr>, header) } } } })"

definition flv_parser_skip :: "gsize \<Rightarrow> FlvParser \<Rightarrow> FlvParserResult \<times> FlvParser" where
  "flv_parser_skip buffer_size p =
     (if fp_state p \<noteq> FLV_PARSER_EXPECT_SKIP_BLOCK then (FLV_PARSER_INVALID_STATE, p)
      else if buffer_size < next_block_size p then (FLV_PARSER_BUFFER_UNDERRUN, p)
      else (FLV_PARSER_OK, (parser_advance (next_block_size p) FLV_TAG_PREFIX_SIZE p)
              \<lparr>fp_state := FLV_PARSER_EXPECT_TAG_PREFIX\<rparr>))"

definition flv_parser_read_tag_prefix :: "byte list \<Rightarrow> gsize \<Rightarrow> FlvParser \<Rightarrow> FlvTagPrefix \<Rightarrow> FlvTagPrefix parser_result" where
  "flv_parser_read_tag_prefix buffer buffer_size p tag =
     (if fp_state p \<noteq> FLV_PARSER_EXPECT_TAG_PREFIX then Some (FLV_PARSER_INVALID_STATE, p, tag)
      else if buffer_size < FLV_TAG_PREFIX_SIZE then Some (FLV_PARSER_BUFFER_UNDERRUN, p, tag)
      else do {
        b0 \<leftarrow> load buffer 0; bs \<leftarrow> FLV_READ_UINT24_BE buffer 1; ts \<leftarrow> FLV_READ_TS32 buffer 4;
        let tag = tag\<lparr>tag_type := b0, body_size := ucast bs, timestamp := ts\<rparr>;
        stream_id \<leftarrow> FLV_READ_UINT24_BE buffer 8;
        if stream_id \<noteq> 0 then Some (FLV_PARSER_UNSUPPORTED_STREAM, p, tag)
        else
          let p = parser_advance FLV_TAG_PREFIX_SIZE (body_size tag + FLV_TAG_SUFFIX_SIZE) p in
          if tag_type tag = FLV_TAG_TYPE_AUDIO then
            Some (FLV_PARSER_OK, p\<lparr>fp_state := FLV_PARSER_EXPECT_AUDIO_TAG_BODY\<rparr>, tag)
          else if tag_type tag = FLV_TAG_TYPE_VIDEO then
            Some (FLV_PARSER_OK, p\<lparr>fp_state := FLV_PARSER_EXPECT_VIDEO_TAG_BODY\<rparr>, tag)
          else if tag_type tag = FLV_TAG_TYPE_SCRIPT_DATA then
            Some (FLV_PARSER_OK, p\<lparr>fp_state := FLV_PARSER_EXPECT_SCRIPT_DATA_TAG_BODY\<rparr>, tag)
          else Some (FLV_PARSER_UNSUPPORTED_STREAM, p, tag) })"

definition flv_parser_read_audio_tag :: "byte list \<Rightarrow> gsize \<Rightarrow> FlvParser \<Rightarrow> FlvAudioTag \<Rightarrow> FlvAudioTag parser_result" where
  "flv_parser_read_audio_tag buffer buffer_size p tag =
     (if fp_state p \<noteq> FLV_PARSER_EXPECT_AUDIO_TAG_BODY then Some (FLV_PARSER_INVALID_STATE, p, tag)
      else if buffer_size < next_block_size p then Some (FLV_PARSER_BUFFER_UNDERRUN, p, tag)
      else do {
        b \<leftarrow> load buffer 0;
        let tag = tag\<lparr>sound_format := drop_bit 4 (b AND 0xF0), sampling_rate := drop_bit 2 (b AND 0x0C),
                      is_16bit := (b AND 0x02 \<noteq> 0), is_stereo := (b AND 0x01 \<noteq> 0)\<rparr>;
        n \<leftarrow> load flv_audio_format_data_size (uint (sound_format tag));
        let tag = tag\<lparr>audio_packet_offset := 1 + n\<rparr>;
        let tag = tag\<lparr>audio_packet_size := next_block_size p - FLV_TAG_SUFFIX_SIZE - audio_packet_offset tag\<rparr>;
        Some (FLV_PARSER_OK, (parser_advance (next_block_size p) FLV_TAG_PREFIX_SIZE p)
                \<lparr>fp_state := FLV_PARSER_EXPECT_TAG_PREFIX\<rparr>, tag) })"

definition flv_parser_read_video_tag :: "byte list \<Rightarrow> gsize \<Rightarrow> FlvParser \<Rightarrow> FlvVideoTag \<Rightarrow> FlvVideoTag parser_result" where
  "flv_parser_read_video_tag buffer buffer_size p tag =
     (if fp_state p \<noteq> FLV_PARSER_EXPECT_VIDEO_TAG_BODY then Some (FLV_PARSER_INVALID_STATE, p, tag)
      else if buffer_size < next_block_size p then Some (FLV_PARSER_BUFFER_UNDERRUN, p, tag)
      else do {
        b \<leftarrow> load buffer 0;
        let tag = tag\<lparr>frame_type := drop_bit 4 (b AND 0xF0), codec_id := b AND 0x0F\<rparr>;
        n \<leftarrow> load flv_video_codec_data_size (uint (codec_id tag));
        let tag = tag\<lparr>video_packet_offset := 1 + n\<rparr>;
        let tag = tag\<lparr>video_packet_size := next_block_size p - FLV_TAG_SUFFIX_SIZE - video_packet_offset tag\<rparr>;
        Some (FLV_PARSER_OK, (parser_advance (next_block_size p) FLV_TAG_PREFIX_SIZE p)
                \<lparr>fp_state := FLV_PARSER_EXPECT_TAG_PREFIX\<rparr>, tag) })"

definition flv_parser_read_script_data_tag :: "gsize \<Rightarrow> FlvParser \<Rightarrow> FlvScriptDataReader \<Rightarrow>
    FlvParserResult \<times> FlvParser \<times> FlvScriptDataReader" where
  "flv_parser_read_script_data_tag buffer_size p reader =
     (if fp_state p \<noteq> FLV_PARSER_EXPECT_SCRIPT_DATA_TAG_BODY then (FLV_PARSER_INVALID_STATE, p, reader)
      else if buffer_size < next_block_size p then (FLV_PARSER_BUFFER_UNDERRUN, p, reader)
      else (FLV_PARSER_OK,
            (parser_advance (next_block_size p) FLV_TAG_PREFIX_SIZE p)\<lparr>fp_state := FLV_PARSER_EXPECT_TAG_PREFIX\<rparr>,
            reader\<lparr>rd_position := 0, rd_end := unat (next_block_size p - FLV_TAG_SUFFIX_SIZE)\<rparr>))"

section \<open>Sizes of the fields\<close>

lemma or_push_add:
  fixes x y :: "'a :: len word"
  assumes "unat y < 2 ^ n"
  shows "push_bit n x OR y = push_bit n x + y"
proof -
  have "take_bit n y = y"
    using assms by (intro word_unat_eq_iff [THEN iffD2]) (simp add: unsigned_take_bit_eq take_bit_nat_eq_self)
  then have "push_bit n x AND y = 0"
    by (metis (no_types) bit_eqI bit_and_iff bit_push_bit_iff bit_take_bit_iff bit_0_eq bot_apply bot_bool_def not_le)
  then show ?thesis by (simp add: disjunctive_add_eq_or)
qed

lemma unat_push_small:
  fixes x :: gint
  assumes "unat x < 2 ^ k" "k + n \<le> 32"
  shows "unat (push_bit n x) = unat x * 2 ^ n"
proof -
  have "unat x * 2 ^ n < 2 ^ (k + n)" using assms by (simp add: power_add)
  also have "\<dots> \<le> 2 ^ 32" using assms(2) by (rule power_increasing) simp
  finally show ?thesis
    by (simp add: unsigned_push_bit_eq push_bit_nat_def take_bit_nat_eq_self)
qed

lemma unat_push_or:
  fixes x y :: gint
  assumes "unat x < 2 ^ k" "k + n \<le> 32" "unat y < 2 ^ n"
  shows "unat (push_bit n x OR y) = unat x * 2 ^ n + unat y"
proof -
  have "(unat x + 1) * 2 ^ n \<le> 2 ^ k * 2 ^ n" using assms(1) by (intro mult_le_mono1) simp
  also have "\<dots> \<le> 2 ^ 32" unfolding power_add [symmetric] using assms(2) by (rule power_increasing) simp
  finally have "unat x * 2 ^ n + unat y < 2 ^ 32" using assms(3) by simp
  then show ?thesis
    using assms by (simp add: or_push_add unat_push_small unat_word_ariths)
qed

lemma unat_byte: "unat (b :: byte) < 256"
  using unsigned_less [of b, where 'a = nat] by simp

lemma unat_ucast_byte [simp]: "unat (ucast (b :: byte) :: gint) = unat b"
  by (simp add: unsigned_ucast_eq take_bit_nat_eq_self order_less_trans [OF unat_byte])

lemma be16: "unat (push_bit 8 (ucast a) OR ucast b :: gint) = unat (a :: byte) * 256 + unat (b :: byte)"
  using unat_push_or [of "ucast a" 8 8 "ucast b"] unat_byte [of a] unat_byte [of b] by simp

lemma be24: "unat (push_bit 8 (push_bit 8 (ucast a) OR ucast b) OR ucast c :: gint) =
    (unat (a :: byte) * 256 + unat (b :: byte)) * 256 + unat (c :: byte)"
  using unat_push_or [of "push_bit 8 (ucast a) OR ucast b" 16 8 "ucast c"] be16 [of a b]
    unat_byte [of a] unat_byte [of b] unat_byte [of c] by simp

lemma FLV_READ_UINT24_BE_value:
  assumes "0 \<le> i" "i + 2 < int (length d)"
  shows "\<exists>w. FLV_READ_UINT24_BE d i = Some w \<and>
    unat w = (unat (d ! nat i) * 256 + unat (d ! nat (i + 1))) * 256 + unat (d ! nat (i + 2))"
proof -
  have "load d i = Some (d ! nat i)" "load d (i + 1) = Some (d ! nat (i + 1))" "load d (i + 2) = Some (d ! nat (i + 2))"
    using assms by (simp_all add: load_def)
  then show ?thesis
    unfolding FLV_READ_UINT24_BE_def GST_READ_UINT16_BE_def
    by (simp only: bind.bind_lunit option.inject ex_simps simp_thms be24)
qed

lemma FLV_READ_UINT24_BE_range:
  assumes "FLV_READ_UINT24_BE d i = Some w"
  shows "unat w < 2 ^ 24"
proof -
  obtain a b c :: byte where "w = push_bit 8 (push_bit 8 (ucast a) OR ucast b) OR ucast c"
    using assms by (auto simp: FLV_READ_UINT24_BE_def GST_READ_UINT16_BE_def bind_eq_Some_conv)
  then show ?thesis
    using be24 [of a b c] unat_byte [of a] unat_byte [of b] unat_byte [of c] by simp
qed

lemma reads_defined [arr]:
  assumes "0 \<le> i"
  shows "i + 2 < int (length d) \<Longrightarrow> \<exists>w. FLV_READ_UINT24_BE d i = Some w"
    and "i + 3 < int (length d) \<Longrightarrow> \<exists>w. FLV_READ_TS32 d i = Some w"
    and "i + 3 < int (length d) \<Longrightarrow> \<exists>w. GST_READ_UINT32_BE d i = Some w"
  using assms by (simp_all add: FLV_READ_UINT24_BE_def FLV_READ_TS32_def GST_READ_UINT16_BE_def
      GST_READ_UINT32_BE_def load_def)

lemma load_table:
  assumes "unat (b :: byte) < length t"
  shows "load t (uint b) = Some (t ! unat b)"
proof -
  have "uint b = int (unat b)" by (simp only: int_nat_eq uint_ge_0 if_True nat_uint_eq [symmetric])
  then show ?thesis using assms by (simp only: load_def nat_int of_nat_0_le_iff of_nat_less_iff if_True simp_thms)
qed

lemma low_nibble: "unat ((b :: byte) AND 0x0F) < 16"
proof -
  have "b AND 0x0F \<le> 0x0F" by (rule word_and_le1)
  then show ?thesis by (simp add: word_le_nat_alt)
qed

lemma high_nibble: "unat (drop_bit 4 ((b :: byte) AND 0xF0)) < 16"
proof -
  have "drop_bit 4 b AND 0x0F \<le> 0x0F" by (rule word_and_le1)
  then show ?thesis by (simp add: word_le_nat_alt)
qed

section \<open>The invariant of the state machine\<close>

text \<open>
  The size of the announced block fits the state. A tag prefix of unknown type leaves the state
  unchanged and the size of the unknown body behind, so for this state the size is only bounded.
\<close>

fun flv_parser_wf :: "FlvParser \<Rightarrow> bool" where
  "flv_parser_wf p = (case fp_state p of
      FLV_PARSER_EXPECT_HEADER \<Rightarrow> next_block_size p = 9
    | FLV_PARSER_EXPECT_SKIP_BLOCK \<Rightarrow> 4 \<le> next_block_size p \<and> next_block_size p < 2 ^ 32
    | FLV_PARSER_EOF \<Rightarrow> False
    | _ \<Rightarrow> 4 \<le> next_block_size p \<and> next_block_size p < 2 ^ 24 + 4)"

lemma body_next_size:
  assumes "unat (w :: gint) < 2 ^ 24"
  shows "4 \<le> (ucast w + 4 :: gsize)" "(ucast w + 4 :: gsize) < 2 ^ 24 + 4"
    and "unat (ucast w + 4 :: gsize) = unat w + 4"
proof -
  have "unat (ucast w :: gsize) = unat w"
    using assms by (simp add: unsigned_ucast_eq take_bit_nat_eq_self)
  then show "unat (ucast w + 4 :: gsize) = unat w + 4"
    using assms by (simp add: unat_word_ariths)
  then show "4 \<le> (ucast w + 4 :: gsize)" "(ucast w + 4 :: gsize) < 2 ^ 24 + 4"
    using assms by (simp_all add: word_le_nat_alt word_less_nat_alt)
qed

lemma header_next_size:
  fixes w :: gint
  assumes "\<not> (ucast w :: gsize) < 9"
  shows "4 \<le> (ucast w - 9 + 4 :: gsize)" "(ucast w - 9 + 4 :: gsize) < 2 ^ 32"
proof -
  have w: "unat (ucast w :: gsize) = unat w" "unat w < 2 ^ 32"
    using unsigned_less [of w, where 'a = nat] by (simp_all add: unsigned_ucast_eq take_bit_nat_eq_self)
  have ge: "9 \<le> unat w" using assms w by (simp add: word_less_nat_alt)
  then have "unat (ucast w - 5 :: gsize) = unat w - 5"
    using w by (subst unat_sub) (simp_all add: word_le_nat_alt)
  then show "4 \<le> (ucast w - 9 + 4 :: gsize)" "(ucast w - 9 + 4 :: gsize) < 2 ^ 32"
    using w ge by (simp_all add: word_le_nat_alt word_less_nat_alt)
qed

lemma parser_advance_simps [simp]:
  "fp_state (parser_advance n k p) = fp_state p" "parsed_block_size (parser_advance n k p) = n"
  "file_position (parser_advance n k p) = file_position p + n" "next_block_size (parser_advance n k p) = k"
  by (simp_all add: parser_advance_def)

lemma flv_parser_read_header_wf:
  assumes "flv_parser_read_header buffer n p h = Some (res, p', h')" "flv_parser_wf p"
  shows "flv_parser_wf p'"
  using assms header_next_size
  by (auto simp: flv_parser_read_header_def Let_def bind_eq_Some_conv split: if_splits)

lemma flv_parser_skip_wf:
  assumes "flv_parser_skip n p = (res, p')" "flv_parser_wf p"
  shows "flv_parser_wf p'"
  using assms by (auto simp: flv_parser_skip_def split: if_splits)

lemma flv_parser_read_tag_prefix_wf:
  assumes "flv_parser_read_tag_prefix buffer n p t = Some (res, p', t')" "flv_parser_wf p"
  shows "flv_parser_wf p'"
  using assms body_next_size [OF FLV_READ_UINT24_BE_range]
  by (auto simp: flv_parser_read_tag_prefix_def Let_def bind_eq_Some_conv split: if_splits)

lemma flv_parser_read_audio_tag_wf:
  assumes "flv_parser_read_audio_tag buffer n p t = Some (res, p', t')" "flv_parser_wf p"
  shows "flv_parser_wf p'"
  using assms by (auto simp: flv_parser_read_audio_tag_def Let_def bind_eq_Some_conv split: if_splits)

lemma flv_parser_read_video_tag_wf:
  assumes "flv_parser_read_video_tag buffer n p t = Some (res, p', t')" "flv_parser_wf p"
  shows "flv_parser_wf p'"
  using assms by (auto simp: flv_parser_read_video_tag_def Let_def bind_eq_Some_conv split: if_splits)

lemma flv_parser_read_script_data_tag_wf:
  assumes "flv_parser_read_script_data_tag n p rd = (res, p', rd')" "flv_parser_wf p"
  shows "flv_parser_wf p'"
  using assms by (auto simp: flv_parser_read_script_data_tag_def split: if_splits)

text \<open>
  What a reader does to the parser when it is given \<open>n\<close> bytes: success consumes at least four and
  at most \<open>n\<close> bytes and changes the state; a failure changes nothing, except that a prefix with an
  unknown tag type has already been consumed.
\<close>

definition block_read :: "gsize \<Rightarrow> FlvParser \<Rightarrow> FlvParserResult \<Rightarrow> FlvParser \<Rightarrow> bool" where
  "block_read n p res p' \<longleftrightarrow>
     (if res = FLV_PARSER_OK
      then 4 \<le> parsed_block_size p' \<and> parsed_block_size p' \<le> n \<and>
           file_position p' = file_position p + parsed_block_size p' \<and> fp_state p' \<noteq> fp_state p
      else p' = p \<or> res = FLV_PARSER_UNSUPPORTED_STREAM \<and> fp_state p = FLV_PARSER_EXPECT_TAG_PREFIX \<and>
           fp_state p' = FLV_PARSER_EXPECT_TAG_PREFIX)"

lemma load_0: "4 \<le> length d \<Longrightarrow> load d 0 = Some (d ! 0)"
  by (auto simp: load_def)

lemma unat_le_length:
  assumes "unat (n :: gsize) \<le> length d" "\<not> n < m"
  shows "unat m \<le> length d"
  using assms by (simp add: word_less_nat_alt)

lemma flv_parser_read_header_safe:
  assumes n: "unat n \<le> length buffer"
  shows "\<exists>res p' h'. flv_parser_read_header buffer n p h = Some (res, p', h') \<and> block_read n p res p'"
proof (cases "fp_state p = FLV_PARSER_EXPECT_HEADER \<and> \<not> n < FLV_HEADER_SIZE")
  case True
  then have len: "9 \<le> length buffer" using unat_le_length [OF n, of FLV_HEADER_SIZE] by simp
  obtain off where "GST_READ_UINT32_BE buffer 5 = Some off" using reads_defined(3) [of 5 buffer] len by auto
  with True len show ?thesis
    by (auto simp: flv_parser_read_header_def load_def block_read_def Let_def not_less)
qed (auto simp: flv_parser_read_header_def block_read_def)

lemma flv_parser_skip_safe:
  assumes "flv_parser_wf p"
  shows "\<exists>res p'. flv_parser_skip n p = (res, p') \<and> block_read n p res p'"
  using assms by (auto simp: flv_parser_skip_def block_read_def not_less)

lemma flv_parser_read_tag_prefix_safe:
  assumes n: "unat n \<le> length buffer"
  shows "\<exists>res p' t'. flv_parser_read_tag_prefix buffer n p t = Some (res, p', t') \<and> block_read n p res p'"
proof (cases "fp_state p = FLV_PARSER_EXPECT_TAG_PREFIX \<and> \<not> n < FLV_TAG_PREFIX_SIZE")
  case True
  then have len: "11 \<le> length buffer" using unat_le_length [OF n, of FLV_TAG_PREFIX_SIZE] by simp
  obtain bs ts sid where "FLV_READ_UINT24_BE buffer 1 = Some bs" "FLV_READ_TS32 buffer 4 = Some ts"
      "FLV_READ_UINT24_BE buffer 8 = Some sid" "load buffer 0 = Some (buffer ! 0)"
    using reads_defined(1) [of 1 buffer] reads_defined(1) [of 8 buffer] reads_defined(2) [of 4 buffer] len
      load_0 [of buffer] by auto
  with True show ?thesis
    by (auto simp: flv_parser_read_tag_prefix_def block_read_def Let_def not_less)
qed (auto simp: flv_parser_read_tag_prefix_def block_read_def)

lemma body_first_byte:
  assumes "unat (n :: gsize) \<le> length buffer" "\<not> n < next_block_size p" "4 \<le> next_block_size p"
  shows "load buffer 0 = Some (buffer ! 0)"
  using unat_le_length [OF assms(1,2)] assms(3) by (intro load_0) (simp add: word_le_nat_alt)

lemma flv_parser_read_audio_tag_safe:
  assumes n: "unat n \<le> length buffer" and wf: "flv_parser_wf p"
  shows "\<exists>res p' t'. flv_parser_read_audio_tag buffer n p t = Some (res, p', t') \<and> block_read n p res p'"
proof (cases "fp_state p = FLV_PARSER_EXPECT_AUDIO_TAG_BODY \<and> \<not> n < next_block_size p")
  case True
  then have "4 \<le> next_block_size p" "load buffer 0 = Some (buffer ! 0)"
    using wf body_first_byte [OF n] by auto
  moreover have "\<exists>k. load flv_audio_format_data_size (uint (drop_bit 4 (buffer ! 0 AND 0xF0))) = Some k"
    using high_nibble [of "buffer ! 0"] by (subst load_table) (simp_all add: flv_audio_format_data_size_def)
  ultimately show ?thesis
    using True by (auto simp del: drop_bit_and simp: flv_parser_read_audio_tag_def block_read_def Let_def not_less)
qed (auto simp: flv_parser_read_audio_tag_def block_read_def)

lemma flv_parser_read_video_tag_safe:
  assumes n: "unat n \<le> length buffer" and wf: "flv_parser_wf p"
  shows "\<exists>res p' t'. flv_parser_read_video_tag buffer n p t = Some (res, p', t') \<and> block_read n p res p'"
proof (cases "fp_state p = FLV_PARSER_EXPECT_VIDEO_TAG_BODY \<and> \<not> n < next_block_size p")
  case True
  then have "4 \<le> next_block_size p" "load buffer 0 = Some (buffer ! 0)"
    using wf body_first_byte [OF n] by auto
  moreover have "\<exists>k. load flv_video_codec_data_size (uint (buffer ! 0 AND 0x0F)) = Some k"
    using low_nibble [of "buffer ! 0"] by (subst load_table) (simp_all add: flv_video_codec_data_size_def)
  ultimately show ?thesis
    using True by (auto simp: flv_parser_read_video_tag_def block_read_def Let_def not_less)
qed (auto simp: flv_parser_read_video_tag_def block_read_def)

lemma flv_parser_read_script_data_tag_safe:
  assumes "flv_parser_wf p"
  shows "\<exists>res p' rd'. flv_parser_read_script_data_tag n p rd = (res, p', rd') \<and> block_read n p res p' \<and>
    (res = FLV_PARSER_OK \<longrightarrow> rd_position rd' = 0 \<and> rd_end rd' \<le> unat n)"
proof -
  have "unat (next_block_size p - 4) \<le> unat n"
    if "4 \<le> next_block_size p" "next_block_size p \<le> n"
    using that by (subst unat_sub) (auto simp: word_le_nat_alt)
  then show ?thesis
    using assms by (auto simp: flv_parser_read_script_data_tag_def block_read_def not_less)
qed

section \<open>The parser as a state machine\<close>

text \<open>The states a client can reach with any calls on any buffers, failing calls included.\<close>

inductive flv_reach :: "FlvParser \<Rightarrow> bool" where
  init: "flv_reach (flv_parser_init p)"
| reset: "flv_reach p \<Longrightarrow> flv_reach (flv_parser_reset p)"
| seek: "flv_reach p \<Longrightarrow> flv_reach (flv_parser_seek pos p)"
| header: "flv_reach p \<Longrightarrow> flv_parser_read_header buffer n p h = Some (res, p', h') \<Longrightarrow> flv_reach p'"
| skip: "flv_reach p \<Longrightarrow> flv_parser_skip n p = (res, p') \<Longrightarrow> flv_reach p'"
| prefix: "flv_reach p \<Longrightarrow> flv_parser_read_tag_prefix buffer n p t = Some (res, p', t') \<Longrightarrow> flv_reach p'"
| audio: "flv_reach p \<Longrightarrow> flv_parser_read_audio_tag buffer n p a = Some (res, p', a') \<Longrightarrow> flv_reach p'"
| video: "flv_reach p \<Longrightarrow> flv_parser_read_video_tag buffer n p v = Some (res, p', v') \<Longrightarrow> flv_reach p'"
| script: "flv_reach p \<Longrightarrow> flv_parser_read_script_data_tag n p rd = (res, p', rd') \<Longrightarrow> flv_reach p'"

lemma flv_parser_start_wf: "flv_parser_wf (flv_parser_init p)" "flv_parser_wf (flv_parser_reset p)"
    "flv_parser_wf (flv_parser_seek pos p)"
  by (simp_all add: flv_parser_init_def flv_parser_reset_def flv_parser_seek_def)

lemma flv_reach_wf: "flv_reach p \<Longrightarrow> flv_parser_wf p"
proof (induction rule: flv_reach.induct)
  case (header p buffer n h res p' h')
  then show ?case by (blast intro: flv_parser_read_header_wf)
next
  case (skip p n res p')
  then show ?case by (blast intro: flv_parser_skip_wf)
next
  case (prefix p buffer n t res p' t')
  then show ?case by (blast intro: flv_parser_read_tag_prefix_wf)
next
  case (audio p buffer n a res p' a')
  then show ?case by (blast intro: flv_parser_read_audio_tag_wf)
next
  case (video p buffer n v res p' v')
  then show ?case by (blast intro: flv_parser_read_video_tag_wf)
next
  case (script p n rd res p' rd')
  then show ?case by (blast intro: flv_parser_read_script_data_tag_wf)
qed (rule flv_parser_start_wf)+


definition wit_flv_bytes :: "byte list" where
  "wit_flv_bytes = [0x46, 0x4C, 0x56, 1, 5, 0, 0, 0, 9]"

definition wit_parser :: FlvParser where
  "wit_parser = flv_parser_init \<lparr>fp_state = FLV_PARSER_EOF, file_position = 7, parsed_block_size = 7, next_block_size = 0\<rparr>"

lemma wit_parser_reach: "flv_reach wit_parser"
  unfolding wit_parser_def by (rule flv_reach.init)


section \<open>The packet inside a tag body\<close>

lemma packet_size:
  fixes nb off :: gsize
  assumes "4 \<le> nb" "nb < 2 ^ 24 + 4" "unat off \<le> 7"
  shows "unat (nb - 4 - off) =
    (if unat off \<le> unat nb - 4 then unat nb - 4 - unat off else 2 ^ 64 + (unat nb - 4) - unat off)"
proof -
  have b: "unat (nb - 4) = unat nb - 4"
    using assms(1) by (subst unat_sub) simp_all
  show ?thesis
  proof (cases "off \<le> nb - 4")
    case True
    then show ?thesis using b by (simp add: unat_sub word_le_nat_alt)
  next
    case False
    then have "unat (nb - 4 - off) = 2 ^ 64 + unat (nb - 4) - unat off"
      by (subst unat_sub_if_size) (simp add: word_le_nat_alt word_size)
    then show ?thesis using False b by (simp add: word_le_nat_alt)
  qed
qed

lemma audio_table_small: "load flv_audio_format_data_size i = Some k \<Longrightarrow> unat (1 + k) \<le> 2"
  by (auto simp: load_Some_iff flv_audio_format_data_size_def in_arr_def nth_Cons' split: if_splits)

lemma video_table_small: "load flv_video_codec_data_size i = Some k \<Longrightarrow> unat (1 + k) \<le> 7"
  by (auto simp: load_Some_iff flv_video_codec_data_size_def in_arr_def nth_Cons' split: if_splits)

text \<open>C32: the packet that an audio or a video tag announces lies inside the tag body exactly when the
  body is at least as long as the codec bytes in front of the packet. For a shorter body (an empty
  audio tag, for instance) the size computation wraps around, and the announced packet is larger
  than any buffer. No reader reports this as an error.\<close>

theorem flv_packet_size:
  assumes "flv_reach p"
  shows "(flv_parser_read_audio_tag buffer n p a = Some (FLV_PARSER_OK, p', a') \<longrightarrow>
      (let body = unat (next_block_size p) - 4; off = unat (audio_packet_offset a') in
       unat (audio_packet_size a') = (if off \<le> body then body - off else 2 ^ 64 + body - off) \<and>
       (off + unat (audio_packet_size a') \<le> body \<longleftrightarrow> off \<le> body))) \<and>
    (flv_parser_read_video_tag buffer n p v = Some (FLV_PARSER_OK, p', v') \<longrightarrow>
      (let body = unat (next_block_size p) - 4; off = unat (video_packet_offset v') in
       unat (video_packet_size v') = (if off \<le> body then body - off else 2 ^ 64 + body - off) \<and>
       (off + unat (video_packet_size v') \<le> body \<longleftrightarrow> off \<le> body)))"
proof -
  define body where "body = unat (next_block_size p) - 4"
  have wf: "flv_parser_wf p" using assms by (rule flv_reach_wf)
  have inside: "off + (if off \<le> body then body - off else 2 ^ 64 + body - off) \<le> body \<longleftrightarrow> off \<le> body"
    if "off \<le> 7" for off
    using that by auto
  have audio: "unat (audio_packet_offset a') \<le> 7 \<and>
      audio_packet_size a' = next_block_size p - 4 - audio_packet_offset a' \<and>
      4 \<le> next_block_size p \<and> next_block_size p < 2 ^ 24 + 4"
    if "flv_parser_read_audio_tag buffer n p a = Some (FLV_PARSER_OK, p', a')"
    using that wf audio_table_small
    by (fastforce simp: flv_parser_read_audio_tag_def Let_def bind_eq_Some_conv split: if_splits)
  have video: "unat (video_packet_offset v') \<le> 7 \<and>
      video_packet_size v' = next_block_size p - 4 - video_packet_offset v' \<and>
      4 \<le> next_block_size p \<and> next_block_size p < 2 ^ 24 + 4"
    if "flv_parser_read_video_tag buffer n p v = Some (FLV_PARSER_OK, p', v')"
    using that wf video_table_small
    by (fastforce simp: flv_parser_read_video_tag_def Let_def bind_eq_Some_conv split: if_splits)
  show ?thesis
    unfolding Let_def body_def [symmetric]
    using audio video packet_size [of "next_block_size p" "audio_packet_offset a'", folded body_def]
      packet_size [of "next_block_size p" "video_packet_offset v'", folded body_def] inside
    by auto
qed

definition wit_audio_prefix :: "byte list" where
  "wit_audio_prefix = [8,  0, 0, 0,  0, 0, 0, 0,  0, 0, 0]"

definition wit_audio_parser :: FlvParser where
  "wit_audio_parser = \<lparr>fp_state = FLV_PARSER_EXPECT_AUDIO_TAG_BODY, file_position = 24, parsed_block_size = 11,
     next_block_size = 4\<rparr>"

definition wit_audio_tag :: FlvAudioTag where
  "wit_audio_tag = \<lparr>sound_format = 2, sampling_rate = 3, is_16bit = True, is_stereo = True,
     audio_packet_offset = 1, audio_packet_size = - 1\<rparr>"

lemma wit_audio_parser_reach: "flv_reach wit_audio_parser"
proof -
  have "flv_parser_read_tag_prefix wit_audio_prefix 11 (flv_parser_seek 13 wit_parser)
      \<lparr>tag_type = 0, body_size = 0, timestamp = 0\<rparr> =
    Some (FLV_PARSER_OK, wit_audio_parser, \<lparr>tag_type = 8, body_size = 0, timestamp = 0\<rparr>)"
    by code_simp
  then show ?thesis
    by (rule flv_reach.prefix [OF flv_reach.seek [OF wit_parser_reach]])
qed

theorem flv_packet_size_witness:
  "flv_reach wit_audio_parser \<and>
   flv_parser_read_audio_tag [0x2F, 0, 0, 11] 4 wit_audio_parser wit_audio_tag =
     Some (FLV_PARSER_OK, flv_parser_seek 28 wit_parser\<lparr>parsed_block_size := 4\<rparr>, wit_audio_tag) \<and>
   unat (audio_packet_size wit_audio_tag) = 2 ^ 64 - 1"
proof -
  have read: "flv_parser_read_audio_tag [0x2F, 0, 0, 11] 4 wit_audio_parser wit_audio_tag =
     Some (FLV_PARSER_OK, flv_parser_seek 28 wit_parser\<lparr>parsed_block_size := 4\<rparr>, wit_audio_tag)"
    by code_simp
  have "unat (audio_packet_size wit_audio_tag) = 2 ^ 64 - 1"
    using mp [OF conjunct1 [OF flv_packet_size [OF wit_audio_parser_reach]] read]
    by (simp add: Let_def wit_audio_tag_def wit_audio_parser_def)
  with read wit_audio_parser_reach show ?thesis by blast
qed

end
