(* ===== verification/FlvMetadata.thy ===== *)
theory FlvMetadata
  imports FlvParser "HOL-Library.AList"
begin

text \<open>
  The reader of FLV script data (\<^verbatim>\<open>vp6/flvmetadata.c\<close>): AMF values, objects, ECMA and strict
  arrays, and the handlers that fill the metadata from an \<^verbatim>\<open>onMetaData\<close> tag.

  \<^item> \<open>m\<close> is the memory behind the buffer of the tag, a reader is a pair of offsets into it. A read
    outside of \<open>m\<close>, a \<open>strcmp\<close> on \<open>NULL\<close> and a write outside of the keyframe array are \<open>None\<close>.
    Reading functions return the value or nothing (the C result \<^verbatim>\<open>FALSE\<close>) and the reader.
  \<^item> a callback is an argument of the functions that read objects and arrays. The recursion of the
    skip handler through objects carries its depth, and the loop over an object the number of its
    iterations; both are bounded by the number of bytes that are left, and the theorems show that
    this is enough.
  \<^item> a \<open>gdouble\<close> is its 64 bit pattern (the reader assembles it byte by byte on a little endian
    machine); the conversions of a double to an integer are the parameter \<open>D\<close>.
  \<^item> a C string is the list of its bytes before the terminating zero.
\<close>

type_synonym gdouble = "64 word"
type_synonym GstClockTime = guint64
type_synonym cstring = "byte list"

record dops =
  d_clock :: "gdouble \<Rightarrow> GstClockTime" \<comment> \<open>\<^verbatim>\<open>(GstClockTime)(d * GST_SECOND)\<close>\<close>
  d_gint :: "gdouble \<Rightarrow> gint"
  d_guint64 :: "gdouble \<Rightarrow> guint64"
  d_rate :: "gdouble \<Rightarrow> gint" \<comment> \<open>\<^verbatim>\<open>(gint)(d * 100)\<close>\<close>

record FlvKeyframe =
  kf_time :: GstClockTime
  kf_fileposition :: guint64

text \<open>A tag list of GStreamer: names with values; adding with \<^verbatim>\<open>GST_TAG_MERGE_REPLACE\<close> replaces.\<close>

datatype TagValue = TagTime GstClockTime | TagString cstring
type_synonym GstTagList = "(cstring \<times> TagValue) list"

record FlvMetadata =
  md_duration :: GstClockTime
  md_file_size :: gint
  md_can_seek_to_end :: gint
  md_video_codec_id :: gint
  md_video_data_rate :: gdouble
  md_width :: gint
  md_height :: gint
  md_par_x :: gint
  md_par_y :: gint
  md_framerate :: gdouble
  md_audio_codec_id :: gint
  md_audio_data_rate :: gint
  md_audio_sample_size :: gint
  md_is_stereo :: gint
  md_tag_list :: "GstTagList option"
  md_keyframes :: "FlvKeyframe list option"

abbreviation "GST_CLOCK_TIME_NONE \<equiv> - 1 :: GstClockTime"

definition ascii :: "string \<Rightarrow> cstring" where
  "ascii s = map of_char s"

definition c_string :: "byte list \<Rightarrow> cstring" where
  "c_string bs = takeWhile (\<lambda>b. b \<noteq> 0) bs"

definition flv_metadata_new :: FlvMetadata where
  "flv_metadata_new = \<lparr>md_duration = GST_CLOCK_TIME_NONE, md_file_size = 0, md_can_seek_to_end = 0,
     md_video_codec_id = 0, md_video_data_rate = 0, md_width = 0, md_height = 0, md_par_x = 0, md_par_y = 0,
     md_framerate = 0, md_audio_codec_id = 0, md_audio_data_rate = 0, md_audio_sample_size = 0, md_is_stereo = 0,
     md_tag_list = None, md_keyframes = None\<rparr>"

section \<open>Primitive readers\<close>

definition load_block :: "byte list \<Rightarrow> nat \<Rightarrow> nat \<Rightarrow> byte list option" where
  "load_block m p n = (if p + n \<le> length m then Some (take n (drop p m)) else None)"

definition FLV_READ_DOUBLE_BE :: "byte list \<Rightarrow> nat \<Rightarrow> gdouble option" where
  "FLV_READ_DOUBLE_BE m p = do {
     bs \<leftarrow> load_block m p 8;
     Some (horner_sum ucast 256 (rev bs)) }"

type_synonym 'a reading = "('a option \<times> FlvScriptDataReader) option"

abbreviation move :: "nat \<Rightarrow> FlvScriptDataReader \<Rightarrow> FlvScriptDataReader" where
  "move n r \<equiv> r\<lparr>rd_position := rd_position r + n\<rparr>"

definition flv_script_data_read_ui8 :: "byte list \<Rightarrow> FlvScriptDataReader \<Rightarrow> byte reading" where
  "flv_script_data_read_ui8 m r =
     (if rd_position r + 1 > rd_end r then Some (None, r)
      else do { b \<leftarrow> load m (int (rd_position r)); Some (Some b, move 1 r) })"

definition flv_script_data_read_ui32 :: "byte list \<Rightarrow> FlvScriptDataReader \<Rightarrow> 32 word reading" where
  "flv_script_data_read_ui32 m r =
     (if rd_position r + 4 > rd_end r then Some (None, r)
      else do { w \<leftarrow> GST_READ_UINT32_BE m (int (rd_position r)); Some (Some w, move 4 r) })"

definition flv_script_data_read_double :: "byte list \<Rightarrow> FlvScriptDataReader \<Rightarrow> gdouble reading" where
  "flv_script_data_read_double m r =
     (if rd_position r + 8 > rd_end r then Some (None, r)
      else do { d \<leftarrow> FLV_READ_DOUBLE_BE m (rd_position r); Some (Some d, move 8 r) })"

definition flv_script_data_read_string :: "byte list \<Rightarrow> bool \<Rightarrow> FlvScriptDataReader \<Rightarrow> cstring reading" where
  "flv_script_data_read_string m longString r =
     (if rd_position r + (if longString then 4 else 2) > rd_end r then Some (None, r)
      else do {
        (len, r) \<leftarrow> (if longString
          then do { w \<leftarrow> GST_READ_UINT32_BE m (int (rd_position r)); Some (unat w, move 4 r) }
          else do { w \<leftarrow> GST_READ_UINT16_BE m (int (rd_position r)); Some (unat w, move 2 r) });
        if rd_position r + len > rd_end r then Some (None, r)
        else if int len \<ge> 2 ^ 64 - 2 then Some (None, r)
        else do { bs \<leftarrow> load_block m (rd_position r) len; Some (Some (c_string bs), move len r) } })"

section \<open>Objects and arrays\<close>

abbreviation "TYPE_DOUBLE \<equiv> 0 :: byte"
abbreviation "TYPE_BOOL \<equiv> 1 :: byte"
abbreviation "TYPE_STRING \<equiv> 2 :: byte"
abbreviation "TYPE_OBJECT \<equiv> 3 :: byte"
abbreviation "TYPE_MOVIE_CLIP \<equiv> 4 :: byte"
abbreviation "TYPE_NULL \<equiv> 5 :: byte"
abbreviation "TYPE_UNDEFINED \<equiv> 6 :: byte"
abbreviation "TYPE_REFERENCE \<equiv> 7 :: byte"
abbreviation "TYPE_ECMA \<equiv> 8 :: byte"
abbreviation "TYPE_TERMINATOR \<equiv> 9 :: byte"
abbreviation "TYPE_STRICT \<equiv> 10 :: byte"
abbreviation "TYPE_DATE \<equiv> 11 :: byte"
abbreviation "TYPE_LONG_STRING \<equiv> 12 :: byte"

text \<open>The result of a callback and of the functions that use one: the C result, the reader, the parameter.\<close>

type_synonym 's handling = "(bool \<times> FlvScriptDataReader \<times> 's) option"
type_synonym 's handler = "FlvScriptDataReader \<Rightarrow> cstring option \<Rightarrow> byte \<Rightarrow> 's \<Rightarrow> 's handling"

text \<open>The head of an entry: the terminator, or a name and a value type.\<close>

definition read_entry :: "byte list \<Rightarrow> FlvScriptDataReader \<Rightarrow> (cstring option \<times> byte) reading" where
  "read_entry m r = do {
     b0 \<leftarrow> load m (int (rd_position r)); b1 \<leftarrow> load m (int (rd_position r) + 1); b2 \<leftarrow> load m (int (rd_position r) + 2);
     if b0 = 0 \<and> b1 = 0 \<and> b2 = 9 then Some (Some (None, TYPE_TERMINATOR), move 3 r)
     else do {
       (name, r) \<leftarrow> flv_script_data_read_string m False r;
       case name of
         None \<Rightarrow> Some (None, r)
       | Some name \<Rightarrow> do {
           (ty, r) \<leftarrow> flv_script_data_read_ui8 m r;
           case ty of
             None \<Rightarrow> Some (None, r)
           | Some ty \<Rightarrow> Some (Some (Some name, ty), r) } } }"

fun object_loop :: "byte list \<Rightarrow> 's handler \<Rightarrow> nat \<Rightarrow> FlvScriptDataReader \<Rightarrow> 's \<Rightarrow> 's handling" where
  "object_loop m cb 0 r s = None"
| "object_loop m cb (Suc k) r s =
     (if \<not> rd_position r < rd_end r then Some (True, r, s)
      else if rd_position r + 3 > rd_end r then Some (False, r, s)
      else do {
        (entry, r) \<leftarrow> read_entry m r;
        case entry of
          None \<Rightarrow> Some (False, r, s)
        | Some (name, ty) \<Rightarrow> do {
            (result, r, s) \<leftarrow> cb r name ty s;
            if ty = TYPE_TERMINATOR then Some (True, r, s)
            else if \<not> result then Some (False, r, s)
            else object_loop m cb k r s } })"

definition flv_script_data_read_object :: "byte list \<Rightarrow> 's handler \<Rightarrow> FlvScriptDataReader \<Rightarrow> 's \<Rightarrow> 's handling" where
  "flv_script_data_read_object m cb r s = object_loop m cb (Suc (rd_end r - rd_position r)) r s"

definition flv_script_data_read_ecma :: "byte list \<Rightarrow> 's handler \<Rightarrow> FlvScriptDataReader \<Rightarrow> 's \<Rightarrow> 's handling" where
  "flv_script_data_read_ecma m cb r s = do {
     (sz, r) \<leftarrow> flv_script_data_read_ui32 m r;
     case sz of
       None \<Rightarrow> Some (False, r, s)
     | Some _ \<Rightarrow> object_loop m cb (Suc (rd_end r - rd_position r)) r s }"

fun strict_loop :: "byte list \<Rightarrow> 's handler \<Rightarrow> nat \<Rightarrow> FlvScriptDataReader \<Rightarrow> 's \<Rightarrow> 's handling" where
  "strict_loop m cb 0 r s = Some (True, r, s)"
| "strict_loop m cb (Suc n) r s = do {
     (ty, r) \<leftarrow> flv_script_data_read_ui8 m r;
     case ty of
       None \<Rightarrow> Some (False, r, s)
     | Some ty \<Rightarrow> do {
         (result, r, s) \<leftarrow> cb r None ty s;
         if \<not> result then Some (False, r, s) else strict_loop m cb n r s } }"

definition flv_script_data_read_strict_array :: "byte list \<Rightarrow> 's handler \<Rightarrow> FlvScriptDataReader \<Rightarrow> 's \<Rightarrow> 's handling" where
  "flv_script_data_read_strict_array m cb r s = do {
     (sz, r) \<leftarrow> flv_script_data_read_ui32 m r;
     case sz of
       None \<Rightarrow> Some (False, r, s)
     | Some sz \<Rightarrow> strict_loop m cb (unat sz) r s }"

section \<open>The keyframe table\<close>

definition no_keyframe :: FlvKeyframe where
  "no_keyframe = \<lparr>kf_time = 0, kf_fileposition = 0\<rparr>"

text \<open>\<^verbatim>\<open>g_array_set_size\<close> of an array that was created with the clear flag.\<close>

definition g_array_set_size :: "FlvKeyframe list \<Rightarrow> nat \<Rightarrow> FlvKeyframe list" where
  "g_array_set_size ks n = take n ks @ replicate (n - length ks) no_keyframe"

definition store_field :: "dops \<Rightarrow> int \<Rightarrow> gdouble \<Rightarrow> FlvKeyframe \<Rightarrow> FlvKeyframe" where
  "store_field D whichField d e =
     (if whichField = 1 then e\<lparr>kf_time := d_clock D d\<rparr>
      else if whichField = 2 then e\<lparr>kf_fileposition := d_guint64 D d\<rparr> else e)"

fun keyframe_loop :: "dops \<Rightarrow> byte list \<Rightarrow> int \<Rightarrow> nat \<Rightarrow> nat \<Rightarrow> 32 word \<Rightarrow> FlvScriptDataReader \<Rightarrow> FlvKeyframe list \<Rightarrow>
    FlvKeyframe list handling" where
  "keyframe_loop D m whichField i 0 readSize r ks = Some (True, r, ks)"
| "keyframe_loop D m whichField i (Suc n) readSize r ks = do {
     (ty, r) \<leftarrow> flv_script_data_read_ui8 m r;
     case ty of
       None \<Rightarrow> Some (False, r, ks)
     | Some ty \<Rightarrow>
         if ty \<noteq> TYPE_DOUBLE then Some (False, r, ks)
         else do {
           (d, r) \<leftarrow> flv_script_data_read_double m r;
           case d of
             None \<Rightarrow> Some (False, r, ks)
           | Some d \<Rightarrow> do {
               ks \<leftarrow> (if readSize > 0 \<and> whichField > 0
                     then do { e \<leftarrow> load ks (int i); store ks (int i) (store_field D whichField d e) }
                     else Some ks);
               keyframe_loop D m whichField (Suc i) n (readSize - 1) r ks } } }"

definition flv_script_read_keyframe_array :: "dops \<Rightarrow> byte list \<Rightarrow> FlvScriptDataReader \<Rightarrow> cstring option \<Rightarrow> FlvKeyframe list \<Rightarrow>
    FlvKeyframe list handling" where
  "flv_script_read_keyframe_array D m r value_name keyframes = do {
     (sz, r) \<leftarrow> flv_script_data_read_ui32 m r;
     case sz of
       None \<Rightarrow> Some (False, r, keyframes)
     | Some sz \<Rightarrow> do {
         name \<leftarrow> value_name;
         let whichField = (if name = ascii ''times'' then 1 else if name = ascii ''filepositions'' then 2 else 0);
         let (keyframes, readSize) =
           (if length keyframes > 0
            then if length keyframes > unat sz then (g_array_set_size keyframes (unat sz), sz)
                 else if length keyframes < unat sz then (keyframes, of_nat (length keyframes))
                 else (keyframes, sz)
            else (keyframes, sz));
         let keyframes = (if length keyframes \<noteq> unat readSize then g_array_set_size keyframes (unat readSize) else keyframes);
         keyframe_loop D m whichField 0 (unat sz) readSize r keyframes } }"

definition flv_metadata_keyframe_handler :: "dops \<Rightarrow> byte list \<Rightarrow> FlvMetadata handler" where
  "flv_metadata_keyframe_handler D m r value_name value_type md =
     (if value_type = TYPE_TERMINATOR then Some (True, r, md)
      else if value_type = TYPE_STRICT then do {
        (result, r, ks) \<leftarrow> flv_script_read_keyframe_array D m r value_name
                            (case md_keyframes md of None \<Rightarrow> [] | Some ks \<Rightarrow> ks);
        Some (result, r, md\<lparr>md_keyframes := Some ks\<rparr>) }
      else Some (False, r, md))"

section \<open>The handlers\<close>

text \<open>A value that is read and dropped.\<close>

definition skipped :: "'a reading \<Rightarrow> 's \<Rightarrow> 's handling" where
  "skipped rd s = do { (v, r) \<leftarrow> rd; Some (v \<noteq> None, r, s) }"

primrec flv_metadata_skip_handler :: "byte list \<Rightarrow> nat \<Rightarrow> 's handler" where
  "flv_metadata_skip_handler m 0 = (\<lambda>r value_name value_type s. None)"
| "flv_metadata_skip_handler m (Suc depth) = (\<lambda>r value_name value_type s.
     if value_type = TYPE_DOUBLE then skipped (flv_script_data_read_double m r) s
     else if value_type = TYPE_BOOL then skipped (flv_script_data_read_ui8 m r) s
     else if value_type = TYPE_STRING then skipped (flv_script_data_read_string m False r) s
     else if value_type = TYPE_OBJECT then flv_script_data_read_object m (flv_metadata_skip_handler m depth) r s
     else if value_type = TYPE_ECMA then flv_script_data_read_ecma m (flv_metadata_skip_handler m depth) r s
     else if value_type = TYPE_TERMINATOR then Some (True, r, s)
     else if value_type = TYPE_STRICT then flv_script_data_read_strict_array m (flv_metadata_skip_handler m depth) r s
     else Some (False, r, s))"

definition tag_add :: "cstring \<Rightarrow> TagValue \<Rightarrow> FlvMetadata \<Rightarrow> FlvMetadata" where
  "tag_add k v md = md\<lparr>md_tag_list := map_option (AList.update k v) (md_tag_list md)\<rparr>"

definition set_double :: "dops \<Rightarrow> cstring \<Rightarrow> gdouble \<Rightarrow> FlvMetadata \<Rightarrow> FlvMetadata" where
  "set_double D name d md =
     (if name = ascii ''duration''
      then tag_add (ascii ''duration'') (TagTime (d_clock D d)) (md\<lparr>md_duration := d_clock D d\<rparr>)
      else if name = ascii ''filesize'' then md\<lparr>md_file_size := d_gint D d\<rparr>
      else if name = ascii ''videocodecid'' then md\<lparr>md_video_codec_id := d_gint D d\<rparr>
      else if name = ascii ''videodatarate'' then md\<lparr>md_video_data_rate := d\<rparr>
      else if name = ascii ''width'' then md\<lparr>md_width := d_gint D d\<rparr>
      else if name = ascii ''height'' then md\<lparr>md_height := d_gint D d\<rparr>
      else if name = ascii ''AspectRatioX'' then md\<lparr>md_par_x := d_gint D d\<rparr>
      else if name = ascii ''AspectRatioY'' then md\<lparr>md_par_y := d_gint D d\<rparr>
      else if name = ascii ''framerate'' then md\<lparr>md_framerate := d\<rparr>
      else if name = ascii ''audiocodecid'' then md\<lparr>md_audio_codec_id := d_gint D d\<rparr>
      else if name = ascii ''audiosamplesize'' then md\<lparr>md_audio_sample_size := d_gint D d\<rparr>
      else md)"

definition set_bool :: "cstring \<Rightarrow> byte \<Rightarrow> FlvMetadata \<Rightarrow> FlvMetadata" where
  "set_bool name b md =
     (if name = ascii ''canSeekToEnd'' then md\<lparr>md_can_seek_to_end := ucast b\<rparr>
      else if name = ascii ''stereo'' then md\<lparr>md_is_stereo := ucast b\<rparr>
      else md)"

text \<open>A value that is read and stored under a name; a missing name is dereferenced.\<close>

definition stored :: "'a reading \<Rightarrow> cstring option \<Rightarrow> (cstring \<Rightarrow> 'a \<Rightarrow> FlvMetadata \<Rightarrow> FlvMetadata) \<Rightarrow> FlvMetadata \<Rightarrow>
    FlvMetadata handling" where
  "stored rd value_name f md = do {
     (v, r) \<leftarrow> rd;
     case v of
       None \<Rightarrow> Some (False, r, md)
     | Some v \<Rightarrow> do { name \<leftarrow> value_name; Some (True, r, f name v md) } }"

definition flv_metadata_value_handler :: "dops \<Rightarrow> byte list \<Rightarrow> FlvMetadata handler" where
  "flv_metadata_value_handler D m r value_name value_type md =
     (let skip = flv_metadata_skip_handler m (Suc (rd_end r)) in
      if value_type = TYPE_DOUBLE then stored (flv_script_data_read_double m r) value_name (set_double D) md
      else if value_type = TYPE_BOOL then stored (flv_script_data_read_ui8 m r) value_name set_bool md
      else if value_type = TYPE_STRING \<or> value_type = TYPE_LONG_STRING then
        stored (flv_script_data_read_string m (value_type = TYPE_LONG_STRING) r) value_name
          (\<lambda>name v. tag_add name (TagString v)) md
      else if value_type = TYPE_OBJECT then do {
        name \<leftarrow> value_name;
        if name = ascii ''keyframes'' \<and> md_keyframes md = None
        then flv_script_data_read_object m (flv_metadata_keyframe_handler D m) r md
        else flv_script_data_read_object m skip r md }
      else if value_type = TYPE_MOVIE_CLIP then Some (False, r, md)
      else if value_type = TYPE_NULL \<or> value_type = TYPE_UNDEFINED then Some (True, r, md)
      else if value_type = TYPE_REFERENCE then Some (True, move 2 r, md)
      else if value_type = TYPE_ECMA then flv_script_data_read_ecma m skip r md
      else if value_type = TYPE_TERMINATOR then Some (True, r, md)
      else if value_type = TYPE_STRICT then flv_script_data_read_strict_array m skip r md
      else if value_type = TYPE_DATE then Some (True, move 10 r, md)
      else Some (False, r, md))"

definition flv_script_data_read :: "dops \<Rightarrow> byte list \<Rightarrow> FlvScriptDataReader \<Rightarrow> FlvMetadata \<Rightarrow> FlvMetadata handling" where
  "flv_script_data_read D m r md = do {
     (ty, r) \<leftarrow> flv_script_data_read_ui8 m r;
     if ty \<noteq> Some TYPE_STRING then Some (True, r, md)
     else do {
       (str, r) \<leftarrow> flv_script_data_read_string m False r;
       if str = None then Some (False, r, md)
       else if str \<noteq> Some (ascii ''onMetaData'') then Some (True, r, md)
       else do {
         (ty, r) \<leftarrow> flv_script_data_read_ui8 m r;
         if ty \<noteq> Some TYPE_ECMA then Some (False, r, md)
         else do {
           let md = (if md_tag_list md = None then md\<lparr>md_tag_list := Some []\<rparr> else md);
           (result, r, md) \<leftarrow> flv_script_data_read_ecma m (flv_metadata_value_handler D m) r md;
           Some (result, r, if result then md else md\<lparr>md_tag_list := None\<rparr>) } } } }"

section \<open>Readers move forward and stay inside the buffer\<close>

definition forward :: "FlvScriptDataReader \<Rightarrow> FlvScriptDataReader \<Rightarrow> bool" where
  "forward r r' \<longleftrightarrow> rd_end r' = rd_end r \<and> rd_position r \<le> rd_position r'"

lemma forward_refl [simp]: "forward r r"
  by (simp add: forward_def)

lemma forward_move [simp]: "forward r (move n r)"
  by (simp add: forward_def)

lemma forward_trans: "forward r r' \<Longrightarrow> forward r' r'' \<Longrightarrow> forward r r''"
  by (auto simp: forward_def)

lemma ui8_reads:
  assumes "rd_end r \<le> length m"
  shows "flv_script_data_read_ui8 m r = Some (None, r) \<and> rd_end r \<le> rd_position r \<or>
    (\<exists>b. flv_script_data_read_ui8 m r = Some (Some b, move 1 r) \<and> rd_position r < rd_end r)"
  using assms by (auto simp: flv_script_data_read_ui8_def load_def)

lemma ui32_reads:
  assumes "rd_end r \<le> length m"
  shows "flv_script_data_read_ui32 m r = Some (None, r) \<or>
    (\<exists>w. flv_script_data_read_ui32 m r = Some (Some w, move 4 r) \<and> rd_position r + 4 \<le> rd_end r)"
  using assms reads_defined(3) [of "int (rd_position r)" m] by (auto simp: flv_script_data_read_ui32_def)

lemma double_reads:
  assumes "rd_end r \<le> length m"
  shows "flv_script_data_read_double m r = Some (None, r) \<or>
    (\<exists>d. flv_script_data_read_double m r = Some (Some d, move 8 r) \<and> rd_position r + 8 \<le> rd_end r)"
  using assms by (auto simp: flv_script_data_read_double_def FLV_READ_DOUBLE_BE_def load_block_def)

lemma uint16_defined: "0 \<le> i \<Longrightarrow> i + 1 < int (length d) \<Longrightarrow> \<exists>w. GST_READ_UINT16_BE d i = Some w"
  by (simp add: GST_READ_UINT16_BE_def load_def)

lemma string_reads:
  assumes "rd_end r \<le> length m"
  shows "\<exists>v r'. flv_script_data_read_string m longString r = Some (v, r') \<and> forward r r' \<and>
    (v \<noteq> None \<longrightarrow> rd_position r + 2 \<le> rd_position r' \<and> rd_position r' \<le> rd_end r)"
proof (cases "rd_position r + (if longString then 4 else 2) > rd_end r")
  case False
  obtain w where "(if longString then GST_READ_UINT32_BE m (int (rd_position r)) else GST_READ_UINT16_BE m (int (rd_position r))) = Some w"
    using False assms reads_defined(3) [of "int (rd_position r)" m] uint16_defined [of "int (rd_position r)" m]
    by (cases longString) auto
  with False assms show ?thesis
    by (cases longString) (auto simp: flv_script_data_read_string_def load_block_def forward_def)
qed (simp add: flv_script_data_read_string_def)

text \<open>The handling returns, has moved forward only, and leaves a parameter with the property.\<close>

definition keeps :: "('s \<Rightarrow> bool) \<Rightarrow> FlvScriptDataReader \<Rightarrow> 's handling \<Rightarrow> bool" where
  "keeps P r h = (case h of None \<Rightarrow> False | Some (res, r', s') \<Rightarrow> forward r r' \<and> P s')"

lemma keeps_simps [simp]: "keeps P r (Some (res, r', s')) = (forward r r' \<and> P s')" "\<not> keeps P r None"
  by (simp_all add: keeps_def)

lemma keepsE:
  assumes "keeps P r h"
  obtains res r' s' where "h = Some (res, r', s')" "forward r r'" "P s'"
  using assms by (auto simp: keeps_def split: option.splits)

lemma keeps_forward: "forward r r' \<Longrightarrow> keeps P r' h \<Longrightarrow> keeps P r h"
  by (auto simp: keeps_def forward_def split: option.splits)

lemma read_entry_reads:
  assumes "rd_end r \<le> length m" "rd_position r + 3 \<le> rd_end r"
  shows "\<exists>e r'. read_entry m r = Some (e, r') \<and> forward r r' \<and>
    (\<forall>name ty. e = Some (name, ty) \<longrightarrow> rd_position r + 3 \<le> rd_position r' \<and> (name \<noteq> None \<or> ty = TYPE_TERMINATOR))"
proof -
  obtain v r1 where str: "flv_script_data_read_string m False r = Some (v, r1)" "forward r r1"
      "v \<noteq> None \<Longrightarrow> rd_position r + 2 \<le> rd_position r1"
    using string_reads [OF assms(1), of False] by blast
  have r1: "rd_end r1 \<le> length m" using str(2) assms by (simp add: forward_def)
  obtain b0 b1 b2 where "load m (int (rd_position r)) = Some b0" "load m (int (rd_position r) + 1) = Some b1"
      "load m (int (rd_position r) + 2) = Some b2"
    using assms by (auto simp: load_def)
  with str ui8_reads [OF r1] show ?thesis
    by (cases v) (auto simp: read_entry_def forward_def)
qed

text \<open>
  The contract of a callback: on a reader inside the buffer, with fewer bytes left than the depth it
  is made for, it returns, moves forward, and keeps a property of the parameter. A callback that
  needs the name of the value is only called without a name for the terminator. From this the
  object and array readers inherit memory safety and termination.
\<close>

locale script_handler =
  fixes m :: "byte list" and cb :: "'s handler" and depth :: nat and inv_s :: "'s \<Rightarrow> bool" and anon :: bool
  assumes cb_safe: "rd_end r \<le> length m \<Longrightarrow> rd_end r - rd_position r < depth \<Longrightarrow> inv_s s \<Longrightarrow>
    name \<noteq> None \<or> ty = TYPE_TERMINATOR \<or> anon \<Longrightarrow> keeps inv_s r (cb r name ty s)"
begin

lemma object_loop_safe:
  assumes "rd_end r \<le> length m" "rd_end r - rd_position r \<le> depth" "rd_end r - rd_position r < k" "inv_s s"
  shows "keeps inv_s r (object_loop m cb k r s)"
  using assms
proof (induction k arbitrary: r s)
  case (Suc k)
  show ?case
  proof (cases "rd_position r + 3 \<le> rd_end r")
    case True
    obtain e r1 where e: "read_entry m r = Some (e, r1)" "forward r r1"
        "\<forall>name ty. e = Some (name, ty) \<longrightarrow> rd_position r + 3 \<le> rd_position r1 \<and> (name \<noteq> None \<or> ty = TYPE_TERMINATOR)"
      using read_entry_reads [OF Suc.prems(1) True] by blast
    show ?thesis
    proof (cases e)
      case None
      with True e Suc.prems show ?thesis by auto
    next
      case (Some nt)
      obtain name ty where nt: "nt = (name, ty)" by fastforce
      then have fw: "rd_position r + 3 \<le> rd_position r1" "name \<noteq> None \<or> ty = TYPE_TERMINATOR \<or> anon"
        using Some e(3) by auto
      have r1: "rd_end r1 = rd_end r" using e(2) by (simp add: forward_def)
      moreover have "rd_end r - rd_position r1 < depth" using fw(1) True Suc.prems(2) by linarith
      ultimately have "keeps inv_s r1 (cb r1 name ty s)"
        using fw(2) Suc.prems by (intro cb_safe) simp_all
      then obtain res r2 s2 where c: "cb r1 name ty s = Some (res, r2, s2)" "forward r1 r2" "inv_s s2"
        by (rule keepsE)
      have fw2: "forward r r2" "rd_end r2 - rd_position r2 < k" "rd_end r2 - rd_position r2 \<le> depth"
        using e(2) c(2) fw(1) True Suc.prems(2,3) by (auto simp: forward_def)
      moreover have "keeps inv_s r2 (object_loop m cb k r2 s2)"
        using fw2 c Suc.prems(1) r1 by (intro Suc.IH) (simp_all add: forward_def)
      ultimately show ?thesis
        using True e(1) Some nt c by (auto intro: keeps_forward)
    qed
  qed (use Suc.prems in auto)
qed simp

lemma read_object_safe:
  assumes "rd_end r \<le> length m" "rd_end r - rd_position r \<le> depth" "inv_s s"
  shows "keeps inv_s r (flv_script_data_read_object m cb r s)"
  unfolding flv_script_data_read_object_def using assms by (intro object_loop_safe) auto

lemma read_ecma_safe:
  assumes "rd_end r \<le> length m" "rd_end r - rd_position r \<le> depth" "inv_s s"
  shows "keeps inv_s r (flv_script_data_read_ecma m cb r s)"
proof -
  have "keeps inv_s (move 4 r) (object_loop m cb (Suc (rd_end r - (rd_position r + 4))) (move 4 r) s)"
    using assms by (intro object_loop_safe) auto
  then have "keeps inv_s r (object_loop m cb (Suc (rd_end r - (rd_position r + 4))) (move 4 r) s)"
    by (rule keeps_forward [OF forward_move])
  then show ?thesis
    using ui32_reads [OF assms(1)] assms(3)
    by (auto simp: flv_script_data_read_ecma_def simp del: object_loop.simps)
qed

lemma strict_loop_safe:
  assumes "rd_end r \<le> length m" "rd_end r - rd_position r \<le> depth" "inv_s s" anon
  shows "keeps inv_s r (strict_loop m cb k r s)"
  using assms
proof (induction k arbitrary: r s)
  case (Suc k)
  show ?case
  proof (cases "rd_position r < rd_end r")
    case True
    then obtain b where b: "flv_script_data_read_ui8 m r = Some (Some b, move 1 r)"
      using ui8_reads [OF Suc.prems(1)] by auto
    have "keeps inv_s (move 1 r) (cb (move 1 r) None b s)"
      using True Suc.prems by (intro cb_safe) auto
    then obtain res r2 s2 where c: "cb (move 1 r) None b s = Some (res, r2, s2)" "forward (move 1 r) r2" "inv_s s2"
      by (rule keepsE)
    have fw: "forward r r2" using forward_trans [OF forward_move c(2)] .
    then have "keeps inv_s r2 (strict_loop m cb k r2 s2)"
      using c(3) Suc.prems by (intro Suc.IH) (auto simp: forward_def)
    then show ?thesis using fw b c by (auto intro: keeps_forward)
  qed (use Suc.prems ui8_reads [OF Suc.prems(1)] in auto)
qed simp

lemma read_strict_array_safe:
  assumes "rd_end r \<le> length m" "rd_end r - rd_position r \<le> depth" "inv_s s" anon
  shows "keeps inv_s r (flv_script_data_read_strict_array m cb r s)"
proof -
  have "keeps inv_s (move 4 r) (strict_loop m cb k (move 4 r) s)" for k
    using assms by (intro strict_loop_safe) auto
  then have "keeps inv_s r (strict_loop m cb k (move 4 r) s)" for k
    by (rule keeps_forward [OF forward_move])
  then show ?thesis
    using ui32_reads [OF assms(1)] assms(3) by (auto simp: flv_script_data_read_strict_array_def)
qed

end

lemma skipped_safe:
  assumes "rd_end r \<le> length m" "P s"
  shows "keeps P r (skipped (flv_script_data_read_double m r) s)"
    and "keeps P r (skipped (flv_script_data_read_ui8 m r) s)"
    and "keeps P r (skipped (flv_script_data_read_string m long r) s)"
  using double_reads [OF assms(1)] ui8_reads [OF assms(1)] string_reads [OF assms(1), of long] assms(2)
  by (auto simp: skipped_def simp del: One_nat_def)

lemma skip_handler_contract: "script_handler m (flv_metadata_skip_handler m d) d P True"
proof (induction d)
  case (Suc d)
  note safe = script_handler.read_object_safe [OF Suc.IH] script_handler.read_ecma_safe [OF Suc.IH]
    script_handler.read_strict_array_safe [OF Suc.IH]
  show ?case
  proof
    fix r :: FlvScriptDataReader and s :: 'a and name ty
    assume a: "rd_end r \<le> length m" "rd_end r - rd_position r < Suc d" "P s"
    then have d: "rd_end r - rd_position r \<le> d" by simp
    show "keeps P r (flv_metadata_skip_handler m (Suc d) r name ty s)"
      using safe [OF a(1) d a(3)] skipped_safe [OF a(1), of P s] a(3) by auto
  qed
qed (unfold_locales, simp)

interpretation skip: script_handler m "flv_metadata_skip_handler m d" d P True for m d P
  by (rule skip_handler_contract)

lemma stored_safe:
  assumes "rd_end r \<le> length m" "P md" "\<And>v. P (f name v md)"
  shows "keeps P r (stored (flv_script_data_read_double m r) (Some name) f md)"
  using double_reads [OF assms(1)] assms by (auto simp: stored_def)

lemma stored_safe_ui8:
  assumes "rd_end r \<le> length m" "P md" "\<And>v. P (f name v md)"
  shows "keeps P r (stored (flv_script_data_read_ui8 m r) (Some name) f md)"
  using ui8_reads [OF assms(1)] assms by (auto simp: stored_def simp del: One_nat_def)

lemma stored_safe_string:
  assumes "rd_end r \<le> length m" "P md" "\<And>v. P (f name v md)"
  shows "keeps P r (stored (flv_script_data_read_string m long r) (Some name) f md)"
  using string_reads [OF assms(1), of long] assms by (auto simp: stored_def split: option.split)

lemma keyframes_kept [simp]:
  "md_keyframes (tag_add k v md) = md_keyframes md"
  "md_keyframes (set_double D name d md) = md_keyframes md"
  "md_keyframes (set_bool name b md) = md_keyframes md"
  by (simp_all add: tag_add_def set_double_def set_bool_def)

interpretation metadata: script_handler m "flv_metadata_value_handler D m" "Suc (length m)"
    "\<lambda>md. md_keyframes md = Some ks" False for m D ks
proof
  fix r :: FlvScriptDataReader and s :: FlvMetadata and name :: "cstring option" and ty
  assume a: "rd_end r \<le> length m" "md_keyframes s = Some ks" "name \<noteq> None \<or> ty = TYPE_TERMINATOR \<or> False"
  have d: "rd_end r - rd_position r \<le> Suc (rd_end r)" by simp
  note safe = skip.read_object_safe [OF a(1) d] skip.read_ecma_safe [OF a(1) d] skip.read_strict_array_safe [OF a(1) d]
  note safe = safe [where P = "\<lambda>md. md_keyframes md = Some ks", OF a(2)]
  show "keeps (\<lambda>md. md_keyframes md = Some ks) r (flv_metadata_value_handler D m r name ty s)"
    using a safe
    by (auto simp: flv_metadata_value_handler_def Let_def forward_def
        simp del: flv_metadata_skip_handler.simps intro!: stored_safe stored_safe_ui8 stored_safe_string)
qed

lemma ui8_safe:
  assumes "rd_end r \<le> length m"
  obtains v r' where "flv_script_data_read_ui8 m r = Some (v, r')" "forward r r'"
  using ui8_reads [OF assms] by (auto simp del: One_nat_def)

lemma flv_script_data_read_keeps:
  assumes m: "rd_end r \<le> length m" and ks: "md_keyframes md = Some ks"
  shows "keeps (\<lambda>md. md_keyframes md = Some ks) r (flv_script_data_read D m r md)"
proof -
  obtain t1 r1 where r1: "flv_script_data_read_ui8 m r = Some (t1, r1)" "forward r r1"
    using m by (rule ui8_safe)
  then obtain v r2 where r2: "flv_script_data_read_string m False r1 = Some (v, r2)" "forward r1 r2"
    using string_reads [of r1 m False] m by (auto simp: forward_def)
  then obtain t3 r3 where r3: "flv_script_data_read_ui8 m r2 = Some (t3, r3)" "forward r2 r3"
    using r1 m ui8_safe [of r2 m] by (auto simp: forward_def)
  have fw: "forward r r2" "forward r r3"
    using r1(2) r2(2) r3(2) by (auto simp: forward_def)
  define md1 where "md1 = (if md_tag_list md = None then md\<lparr>md_tag_list := Some []\<rparr> else md)"
  have "keeps (\<lambda>md. md_keyframes md = Some ks) r3
      (flv_script_data_read_ecma m (flv_metadata_value_handler D m) r3 md1)"
    using fw(2) m ks by (intro metadata.read_ecma_safe) (auto simp: forward_def md1_def)
  then obtain res r4 md4 where r4: "flv_script_data_read_ecma m (flv_metadata_value_handler D m) r3 md1 = Some (res, r4, md4)"
      "forward r3 r4" "md_keyframes md4 = Some ks"
    by (rule keepsE)
  show ?thesis
    using r1 r2 r3 r4 fw ks forward_trans [OF fw(2) r4(2)]
    by (simp add: flv_script_data_read_def md1_def [symmetric])
qed

text \<open>C8: on any bytes whatsoever, and whatever the floating point conversions return, the script data
  reader terminates, reads only inside the tag body and never moves backwards, provided that the
  metadata already has a keyframe table (which is then left as it is). This covers arbitrarily
  nested objects and arrays, unterminated ones, truncated values, unknown types and the two types
  that are skipped without a look at the end of the buffer.\<close>

theorem flv_script_data_read_safe:
  assumes "rd_end r \<le> length m" "md_keyframes md = Some ks"
  shows "\<exists>result r' md'. flv_script_data_read D m r md = Some (result, r', md') \<and> rd_end r' = rd_end r \<and>
    rd_position r \<le> rd_position r' \<and> md_keyframes md' = Some ks"
  using flv_script_data_read_keeps [OF assms, of D] by (rule keepsE) (auto simp: forward_def)

definition wit_dops :: dops where
  "wit_dops = \<lparr>d_clock = (\<lambda>d. d), d_gint = ucast, d_guint64 = (\<lambda>d. d), d_rate = ucast\<rparr>"

definition wit_script :: "byte list" where
  "wit_script = [2, 0, 10] @ ascii ''onMetaData'' @ [8, 0, 0, 0, 2, 0, 5] @ ascii ''width'' @ [0, 0, 0, 0, 0, 0, 0, 1, 64] @
     [0, 1] @ ascii ''x'' @ [3, 0, 1] @ ascii ''y'' @ [1, 1, 0, 0, 9, 0, 4] @ ascii ''date'' @ [11, 0]"

definition wit_metadata :: FlvMetadata where
  "wit_metadata = flv_metadata_new\<lparr>md_keyframes := Some []\<rparr>"

theorem flv_script_data_read_safe_witness:
  "(\<exists>result r' md'. flv_script_data_read wit_dops wit_script \<lparr>rd_position = 0, rd_end = 54\<rparr> wit_metadata = Some (result, r', md') \<and>
     rd_end r' = 54 \<and> md_keyframes md' = Some []) \<and>
   map_option (\<lambda>(result, r', md'). (result, rd_position r', md_width md'))
     (flv_script_data_read wit_dops wit_script \<lparr>rd_position = 0, rd_end = 54\<rparr> wit_metadata) = Some (True, 63, 320)"
proof
  have "length wit_script = 54" by code_simp
  moreover have "md_keyframes wit_metadata = Some []" by code_simp
  ultimately show "\<exists>result r' md'. flv_script_data_read wit_dops wit_script \<lparr>rd_position = 0, rd_end = 54\<rparr> wit_metadata = Some (result, r', md') \<and>
     rd_end r' = 54 \<and> md_keyframes md' = Some []"
    using flv_script_data_read_safe [of "\<lparr>rd_position = 0, rd_end = 54\<rparr>" wit_script wit_metadata "[]" wit_dops] by auto
qed code_simp

section \<open>The keyframe table overflows\<close>

lemma ui8_at:
  assumes "rd_end r \<le> length m" "rd_position r < rd_end r"
  shows "flv_script_data_read_ui8 m r = Some (Some (m ! rd_position r), move 1 r)"
  using assms by (auto simp: flv_script_data_read_ui8_def load_def)

lemma double_at:
  assumes "rd_end r \<le> length m" "rd_position r + 8 \<le> rd_end r"
  shows "\<exists>d. flv_script_data_read_double m r = Some (Some d, move 8 r)"
  using assms by (auto simp: flv_script_data_read_double_def FLV_READ_DOUBLE_BE_def load_block_def)

lemma keyframe_loop_None_iff:
  assumes "rd_end r \<le> length m" "rd_position r + 9 * n \<le> rd_end r" "\<forall>j < n. m ! (rd_position r + 9 * j) = TYPE_DOUBLE"
    and "0 < w" "unat rs + i = length ks"
  shows "keyframe_loop D m w i n rs r ks = None \<longleftrightarrow> unat rs + 1 < n"
  using assms
proof (induction n arbitrary: r i rs ks)
  case (Suc n)
  let ?r = "move 8 (move 1 r)"
  have ty: "flv_script_data_read_ui8 m r = Some (Some TYPE_DOUBLE, move 1 r)"
    using ui8_at [of r m] Suc.prems(1-3) by auto
  obtain d where d: "flv_script_data_read_double m (move 1 r) = Some (Some d, ?r)"
    using double_at [of "move 1 r" m] Suc.prems(1,2) by auto
  have m': "rd_end ?r \<le> length m" "rd_position ?r + 9 * n \<le> rd_end ?r"
      "\<forall>j < n. m ! (rd_position ?r + 9 * j) = TYPE_DOUBLE"
    using Suc.prems(1,2) Suc.prems(3) [rule_format, of "Suc _"] by (auto simp: algebra_simps)
  show ?case
  proof (cases "rs = 0")
    case True
    show ?thesis
    proof (cases n)
      case 0
      with True ty d show ?thesis by simp
    next
      case (Suc n')
      let ?q = "move 8 (move 1 ?r)"
      have ty2: "flv_script_data_read_ui8 m ?r = Some (Some TYPE_DOUBLE, move 1 ?r)"
        using ui8_at [of ?r m] m' Suc by auto
      obtain d2 where d2: "flv_script_data_read_double m (move 1 ?r) = Some (Some d2, ?q)"
        using double_at [of "move 1 ?r" m] m' Suc by auto
      have "load ks (int (Suc i)) = None" using True Suc.prems(5) by (simp add: load_def)
      moreover have "(0 :: 32 word) < - 1" by (simp add: word_greater_zero_iff)
      ultimately show ?thesis using True Suc ty d ty2 d2 \<open>0 < w\<close> by simp
    qed
  next
    case False
    then have rs: "0 < rs" "unat (rs - 1) + 1 = unat rs"
      by (simp_all add: word_greater_zero_iff unat_minus_one unat_gt_0)
    then have i: "i < length ks" using Suc.prems(5) by linarith
    have "keyframe_loop D m w (Suc i) n (rs - 1) ?r (ks[i := e]) = None \<longleftrightarrow> unat (rs - 1) + 1 < n" for e
      using m' \<open>0 < w\<close> rs Suc.prems(5) by (intro Suc.IH) auto
    then show ?thesis
      using ty d rs i \<open>0 < w\<close> by (simp add: load_def store_def)
  qed
qed simp

text \<open>C40: when the second of the two arrays \<^verbatim>\<open>times\<close> and \<^verbatim>\<open>filepositions\<close> of a keyframe object is well
  formed, the table is written outside of its bounds exactly if the array is longer than the table
  by at least two entries: the counter of the entries that are still to be stored is decremented
  past zero and becomes positive again.\<close>

theorem keyframe_array_overflow_iff:
  assumes "rd_end r \<le> length m" "GST_READ_UINT32_BE m (int (rd_position r)) = Some sz"
    and "rd_position r + 4 + 9 * unat sz \<le> rd_end r" "\<forall>j < unat sz. m ! (rd_position r + 4 + 9 * j) = TYPE_DOUBLE"
    and "name \<in> {ascii ''times'', ascii ''filepositions''}" "length ks < 2 ^ 32"
  shows "flv_script_read_keyframe_array D m r (Some name) ks = None \<longleftrightarrow> ks \<noteq> [] \<and> length ks + 1 < unat sz"
proof -
  define w :: int where "w = (if name = ascii ''times'' then 1 else if name = ascii ''filepositions'' then 2 else 0)"
  have w: "0 < w" using assms(5) by (auto simp: w_def)
  have rd: "flv_script_data_read_ui32 m r = Some (Some sz, move 4 r)"
    using assms(2,3) by (simp add: flv_script_data_read_ui32_def)
  have loop: "keyframe_loop D m w 0 (unat sz) rs (move 4 r) xs = None \<longleftrightarrow> unat rs + 1 < unat sz"
    if "length xs = unat rs" for rs xs
    using keyframe_loop_None_iff [of "move 4 r" m "unat sz" w rs 0 xs D] assms w that by (simp add: add.assoc)
  have len: "unat (of_nat (length ks) :: 32 word) = length ks"
    using assms(6) by (simp add: unat_of_nat take_bit_nat_eq_self)
  have [simp]: "length (g_array_set_size xs n) = n" for xs n
    by (simp add: g_array_set_size_def)
  define kr where "kr = (if length ks > 0
      then if length ks > unat sz then (g_array_set_size ks (unat sz), sz)
           else if length ks < unat sz then (ks, of_nat (length ks)) else (ks, sz)
      else (ks, sz))"
  define xs where "xs = (if length (fst kr) \<noteq> unat (snd kr) then g_array_set_size (fst kr) (unat (snd kr)) else fst kr)"
  have xs: "length xs = unat (snd kr)" by (simp add: xs_def)
  have "unat (snd kr) + 1 < unat sz \<longleftrightarrow> ks \<noteq> [] \<and> length ks + 1 < unat sz"
    using len by (auto simp: kr_def)
  moreover have "flv_script_read_keyframe_array D m r (Some name) ks =
      keyframe_loop D m w 0 (unat sz) (snd kr) (move 4 r) xs"
    by (simp add: flv_script_read_keyframe_array_def rd Let_def w_def [symmetric] kr_def xs_def)
  ultimately show ?thesis using loop [OF xs] by simp
qed

definition wit_positions :: "byte list" where
  "wit_positions = [0, 0, 0, 3] @ replicate 27 0"

theorem keyframe_array_overflow_iff_witness:
  "flv_script_read_keyframe_array wit_dops wit_positions \<lparr>rd_position = 0, rd_end = 31\<rparr> (Some (ascii ''times'')) [no_keyframe] = None"
proof -
  have "length wit_positions = 31" "GST_READ_UINT32_BE wit_positions 0 = Some 3" by code_simp+
  moreover have "\<forall>j < 3. wit_positions ! (4 + 9 * j) = TYPE_DOUBLE"
    by (simp add: wit_positions_def nth_append)
  ultimately show ?thesis
    using keyframe_array_overflow_iff [of "\<lparr>rd_position = 0, rd_end = 31\<rparr>" wit_positions 3 "ascii ''times''" "[no_keyframe]" wit_dops]
    by simp
qed

end
