(* ===== verification/FlvDemux.thy ===== *)
theory FlvDemux
  imports FlvMetadata
begin

text \<open>
  The FLV demuxer (\<^verbatim>\<open>vp6/flvdemux.c\<close>): blocks of the file are parsed, audio and video packets
  go to the source pads, keyframes into the seek index, script data into the metadata.

  The pads and the element of GStreamer are a parameter: every call of the demuxer into them is
  an \<open>Action\<close> at the end of the trace, and its answer is a function of the trace so far (\<open>GstEnv\<close>), so
  that the environment may answer as it likes and may remember everything. The adapter is kept
  beside the filter (\<open>FlvPush\<close>), since only the chain function touches it: a list of bytes.

  \<open>None\<close> is undefined behaviour: a packet copied from outside of the block, or undefined behaviour
  of the metadata reader.
\<close>

type_synonym GstFlowReturn = int
abbreviation "GST_FLOW_OK \<equiv> 0 :: GstFlowReturn"
abbreviation "GST_FLOW_NOT_LINKED \<equiv> - 1 :: GstFlowReturn"
abbreviation "GST_FLOW_UNEXPECTED \<equiv> - 3 :: GstFlowReturn"
abbreviation "GST_FLOW_ERROR \<equiv> - 5 :: GstFlowReturn"
abbreviation "GST_MSECOND \<equiv> 1000000 :: GstClockTime"
abbreviation "GST_SECOND \<equiv> 1000000000 :: GstClockTime"

type_synonym guint = "32 word"
type_synonym GstFormat = int
abbreviation "GST_FORMAT_UNDEFINED \<equiv> 0 :: GstFormat"
abbreviation "GST_FORMAT_TIME \<equiv> 3 :: GstFormat"

record GstSegment =
  sg_rate :: gdouble
  sg_flags :: guint
  sg_format :: GstFormat
  sg_start :: jlong
  sg_stop :: jlong
  sg_time :: jlong
  sg_last_stop :: jlong

datatype Pad = SinkPad | AudioPad | VideoPad

datatype Caps = AudioUnsupported | AudioMpeg guint guint
  | VideoCaps string "gint option" "gint option" "gint option" "(gint \<times> gint) option"

record OutBuffer =
  ob_data :: "byte list"
  ob_timestamp :: GstClockTime
  ob_duration :: GstClockTime
  ob_offset :: guint64
  ob_offset_end :: guint64
  ob_delta :: bool
  ob_discont :: bool

datatype Event = FlushStart | FlushStop | Eos | RangeReady | NewSegment GstSegment
  | SeekBytes gdouble guint64 | Other

datatype Action = SetCaps Pad Caps | SetActive Pad | AddPad Pad | NoMorePads | AllocBuffer Pad gint
  | PushBuffer Pad OutBuffer | PushEvent Pad Event | DefaultEvent Event | FoundTags GstTagList | Warning | Error
  | PullRange guint64 guint | StartTask | PauseTask | SegmentStart GstFormat jlong

record GstEnv =
  answers_bool :: "Action list \<Rightarrow> bool"
  answers_flow :: "Action list \<Rightarrow> GstFlowReturn"
  answers_pull :: "Action list \<Rightarrow> GstFlowReturn \<times> byte list"

record FlvDemux =
  fd_parser :: FlvParser
  is_pulling :: bool
  need_parser_flush :: bool
  has_video :: bool
  has_audio :: bool
  fd_metadata :: "FlvMetadata option"
  queued_tags :: "GstTagList option"
  last_file_position :: guint64
  current_timestamp :: GstClockTime
  fd_keyframes :: "FlvKeyframe list"
  copied_metadata_keyframes :: bool
  fd_segment :: GstSegment
  is_flushing :: bool
  audio_src_pad :: bool
  video_src_pad :: bool
  fd_sound_format :: guint
  audio_linked :: bool
  audio_offset :: guint
  audio_discont :: bool
  audio_prev_timestamp :: GstClockTime
  audio_frame_duration :: GstClockTime
  video_codec_id :: guint
  video_linked :: bool
  video_offset :: guint
  video_discont :: bool
  video_prev_timestamp :: GstClockTime
  video_frame_duration :: GstClockTime
  fd_trace :: "Action list"

definition emit :: "Action \<Rightarrow> FlvDemux \<Rightarrow> FlvDemux" where
  "emit a f = f\<lparr>fd_trace := fd_trace f @ [a]\<rparr>"

definition ask :: "GstEnv \<Rightarrow> Action \<Rightarrow> FlvDemux \<Rightarrow> bool \<times> FlvDemux" where
  "ask E a f = (answers_bool E (fd_trace f @ [a]), emit a f)"

definition ask_flow :: "GstEnv \<Rightarrow> Action \<Rightarrow> FlvDemux \<Rightarrow> GstFlowReturn \<times> FlvDemux" where
  "ask_flow E a f = (answers_flow E (fd_trace f @ [a]), emit a f)"

definition ask_pull :: "GstEnv \<Rightarrow> Action \<Rightarrow> FlvDemux \<Rightarrow> GstFlowReturn \<times> byte list \<times> FlvDemux" where
  "ask_pull E a f = (fst (answers_pull E (fd_trace f @ [a])), snd (answers_pull E (fd_trace f @ [a])), emit a f)"

definition gst_segment_init :: GstSegment where
  "gst_segment_init = \<lparr>sg_rate = 0x3FF0000000000000, sg_flags = 0, sg_format = GST_FORMAT_TIME, sg_start = 0,
     sg_stop = - 1, sg_time = 0, sg_last_stop = 0\<rparr>"

definition gst_segment_set_last_stop :: "GstFormat \<Rightarrow> jlong \<Rightarrow> GstSegment \<Rightarrow> GstSegment" where
  "gst_segment_set_last_stop format position s =
     (let s' = (if sg_format s = GST_FORMAT_UNDEFINED then s\<lparr>sg_format := format\<rparr> else s) in
      if sg_format s \<noteq> GST_FORMAT_UNDEFINED \<and> sg_format s \<noteq> format then s
      else s'\<lparr>sg_last_stop := max (sg_start s) position\<rparr>)"

definition flv_demux_init :: "FlvDemux \<Rightarrow> FlvDemux" where
  "flv_demux_init f = f\<lparr>fd_parser := flv_parser_init (fd_parser f), need_parser_flush := False,
     current_timestamp := GST_CLOCK_TIME_NONE, last_file_position := 0, fd_keyframes := [],
     copied_metadata_keyframes := False, is_flushing := False, fd_segment := gst_segment_init,
     fd_metadata := Some flv_metadata_new, queued_tags := None, audio_src_pad := False, video_src_pad := False,
     fd_sound_format := 0, audio_linked := False, audio_offset := 0, audio_discont := True,
     audio_prev_timestamp := GST_CLOCK_TIME_NONE, audio_frame_duration := GST_CLOCK_TIME_NONE,
     video_codec_id := 0, video_linked := False, video_offset := 0, video_discont := True,
     video_prev_timestamp := GST_CLOCK_TIME_NONE, video_frame_duration := GST_CLOCK_TIME_NONE\<rparr>"

section \<open>The seek index\<close>

text \<open>\<^verbatim>\<open>g_list_find_custom\<close> compares the times; \<^verbatim>\<open>g_list_insert_sorted\<close> inserts before the first entry that
  is not smaller.\<close>

definition compare_keyframes :: "FlvKeyframe \<Rightarrow> FlvKeyframe \<Rightarrow> int" where
  "compare_keyframes first second =
     (if kf_time first < kf_time second then - 1 else if kf_time first = kf_time second then 0 else 1)"

fun g_list_insert_sorted :: "FlvKeyframe list \<Rightarrow> FlvKeyframe \<Rightarrow> FlvKeyframe list" where
  "g_list_insert_sorted [] x = [x]"
| "g_list_insert_sorted (y # ys) x =
     (if compare_keyframes x y > 0 then y # g_list_insert_sorted ys x else x # y # ys)"

definition index_insert :: "FlvKeyframe \<Rightarrow> FlvKeyframe list \<Rightarrow> FlvKeyframe list" where
  "index_insert k ks = (if \<exists>e \<in> set ks. compare_keyframes e k = 0 then ks else g_list_insert_sorted ks k)"

definition flv_demux_index_add_entry :: "GstClockTime \<Rightarrow> guint64 \<Rightarrow> FlvDemux \<Rightarrow> FlvDemux" where
  "flv_demux_index_add_entry index_time index_pos f =
     f\<lparr>fd_keyframes := index_insert \<lparr>kf_time = index_time, kf_fileposition = index_pos\<rparr> (fd_keyframes f)\<rparr>"

text \<open>The search for the entry before a time; \<open>None\<close> is the access through the \<open>NULL\<close> predecessor of the
  first entry.\<close>

fun lookup_loop :: "GstClockTime \<Rightarrow> FlvKeyframe option \<Rightarrow> FlvKeyframe list \<Rightarrow> FlvKeyframe option option" where
  "lookup_loop t prev [] = Some None"
| "lookup_loop t prev (e # es) =
     (if kf_time e = t then Some (Some e)
      else if kf_time e > t then do { p \<leftarrow> prev; Some (Some p) }
      else lookup_loop t (Some e) es)"

definition flv_demux_index_lookup :: "GstClockTime \<Rightarrow> FlvKeyframe list \<Rightarrow> FlvKeyframe option option" where
  "flv_demux_index_lookup t ks =
     (if ks = [] then Some None
      else if kf_time (hd ks) > t then Some None
      else if kf_time (last ks) < t then Some None
      else lookup_loop t None ks)"

section \<open>Tags\<close>

definition push_tags :: "FlvDemux \<Rightarrow> FlvDemux" where
  "push_tags f = (case queued_tags f of None \<Rightarrow> f | Some ts \<Rightarrow> (emit (FoundTags ts) f)\<lparr>queued_tags := None\<rparr>)"

definition queue_tag :: "cstring \<Rightarrow> TagValue \<Rightarrow> FlvDemux \<Rightarrow> FlvDemux" where
  "queue_tag k v f = f\<lparr>queued_tags := Some (AList.update k v (case queued_tags f of None \<Rightarrow> [] | Some ts \<Rightarrow> ts))\<rparr>"

section \<open>Audio\<close>

definition flv_demux_negotiate_audio_caps :: "GstEnv \<Rightarrow> byte \<Rightarrow> byte \<Rightarrow> bool \<Rightarrow> FlvDemux \<Rightarrow> bool \<times> FlvDemux" where
  "flv_demux_negotiate_audio_caps E format rate stereo f =
     (let caps = (if format \<noteq> 2 then AudioUnsupported
                  else AudioMpeg (if rate = 0 then 5500 else if rate = 1 then 11025 else if rate = 2 then 22050
                                  else if rate = 3 then 44100 else 0)
                                 (if stereo then 2 else 1));
          codec_name = (if format \<noteq> 2 then ''Unsupported'' else ''MPEG 1 Audio'');
          (result, f) = ask E (SetCaps AudioPad caps) f
      in if result
         then let f = queue_tag (ascii ''audio-codec'') (TagString (ascii codec_name)) (f\<lparr>fd_sound_format := ucast format\<rparr>)
              in (True, if \<not> has_video f \<or> video_linked f then push_tags f else f)
         else (False, f))"

text \<open>The part that creates the pad for the first tag; the result says whether to go on.\<close>

definition create_audio_pad :: "GstEnv \<Rightarrow> FlvAudioTag \<Rightarrow> FlvDemux \<Rightarrow> bool \<times> FlvDemux" where
  "create_audio_pad E t f =
     (if audio_src_pad f then (True, f)
      else let (ok, f) = flv_demux_negotiate_audio_caps E (sound_format t) (sampling_rate t) (is_stereo t)
                           (f\<lparr>audio_src_pad := True\<rparr>) in
        if \<not> ok then (False, f\<lparr>audio_src_pad := False\<rparr>)
        else let (ok, f) = ask E (SetActive AudioPad) f in
          if \<not> ok then (False, f)
          else let (ok, f) = ask E (AddPad AudioPad) f in
            if \<not> ok then (False, f)
            else (True, if video_src_pad f \<or> \<not> has_video f then emit NoMorePads f else f))"

definition longer_duration :: "GstClockTime \<Rightarrow> GstClockTime \<Rightarrow> GstClockTime \<Rightarrow> bool \<Rightarrow> GstClockTime" where
  "longer_duration now prev duration discont =
     (if prev \<noteq> GST_CLOCK_TIME_NONE \<and> \<not> discont
      then let d = now - prev in if duration = GST_CLOCK_TIME_NONE \<or> duration < d then d else duration
      else duration)"

definition send_audio :: "GstEnv \<Rightarrow> FlvAudioTag \<Rightarrow> byte list \<Rightarrow> FlvDemux \<Rightarrow> (GstFlowReturn \<times> FlvDemux) option" where
  "send_audio E t data f =
     (let (flow, f) = ask_flow E (AllocBuffer AudioPad (ucast (audio_packet_size t))) f
      in if flow \<noteq> GST_FLOW_OK then Some (flow, if flow = GST_FLOW_NOT_LINKED then f\<lparr>audio_linked := False\<rparr> else f)
      else do {
        let f = f\<lparr>audio_linked := True,
                  audio_frame_duration := longer_duration (current_timestamp f) (audio_prev_timestamp f)
                                            (audio_frame_duration f) (audio_discont f),
                  audio_prev_timestamp := current_timestamp f\<rparr>;
        bytes \<leftarrow> load_block data (unat (audio_packet_offset t)) (unat (audio_packet_size t));
        let out = \<lparr>ob_data = bytes, ob_timestamp = current_timestamp f, ob_duration = audio_frame_duration f,
                   ob_offset = ucast (audio_offset f), ob_offset_end = ucast (audio_offset f + 1),
                   ob_delta = False, ob_discont = audio_discont f\<rparr>;
        let f = f\<lparr>audio_offset := audio_offset f + 1,
                  fd_segment := gst_segment_set_last_stop GST_FORMAT_TIME (sint (ob_timestamp out)) (fd_segment f)\<rparr>;
        let f = (if audio_discont f
                 then (emit (PushEvent AudioPad (NewSegment (fd_segment f))) f)\<lparr>audio_discont := False\<rparr> else f);
        let f = (if \<not> has_video f then flv_demux_index_add_entry (current_timestamp f) (last_file_position f) f else f);
        Some (ask_flow E (PushBuffer AudioPad out) f) })"

definition push_audio :: "GstEnv \<Rightarrow> FlvAudioTag \<Rightarrow> byte list \<Rightarrow> FlvDemux \<Rightarrow> (GstFlowReturn \<times> FlvDemux) option" where
  "push_audio E t data f = send_audio E t data
     (if fd_sound_format f \<noteq> ucast (sound_format t)
      then snd (flv_demux_negotiate_audio_caps E (sound_format t) (sampling_rate t) (is_stereo t) f) else f)"

definition blank_audio_tag :: FlvAudioTag where
  "blank_audio_tag = \<lparr>sound_format = 0, sampling_rate = 0, is_16bit = False, is_stereo = False,
     audio_packet_offset = 0, audio_packet_size = 0\<rparr>"

definition flv_demux_parse_audio_tag :: "GstEnv \<Rightarrow> byte list \<Rightarrow> gsize \<Rightarrow> FlvDemux \<Rightarrow> (GstFlowReturn \<times> FlvDemux) option" where
  "flv_demux_parse_audio_tag E data sz f = do {
     (res, p, t) \<leftarrow> flv_parser_read_audio_tag data sz (fd_parser f) blank_audio_tag;
     let f = f\<lparr>fd_parser := p\<rparr>;
     if res \<noteq> FLV_PARSER_OK then Some (GST_FLOW_ERROR, f)
     else case create_audio_pad E t (f\<lparr>has_audio := True\<rparr>) of (ok, f) \<Rightarrow>
       if \<not> ok then Some (GST_FLOW_ERROR, f)
       else if sound_format t \<noteq> 2
         then Some (GST_FLOW_OK, (if audio_prev_timestamp f = GST_CLOCK_TIME_NONE then emit Warning f else f)
                     \<lparr>audio_prev_timestamp := current_timestamp f\<rparr>)
         else push_audio E t data f }"

section \<open>Video\<close>

definition flv_video_mime_type :: "string list" where
  "flv_video_mime_type = replicate 4 ''video/unsupported'' @ [''video/x-vp6-flash'', ''video/x-vp6-alpha''] @
     replicate 10 ''video/unsupported''"

definition flv_video_codec_name :: "string list" where
  "flv_video_codec_name = replicate 4 ''Unsupported'' @ [''On2 VP6 Video'', ''On2 VP6-Alpha Video''] @
     replicate 10 ''Unsupported''"

definition video_caps :: "dops \<Rightarrow> string \<Rightarrow> FlvMetadata \<Rightarrow> Caps" where
  "video_caps D mime md = VideoCaps mime
     (if md_width md \<noteq> 0 then Some (md_width md) else None)
     (if md_height md \<noteq> 0 then Some (md_height md) else None)
     (if md_framerate md \<noteq> 0 \<and> md_framerate md \<noteq> 0x8000000000000000 then Some (d_rate D (md_framerate md)) else None)
     (if md_par_x md \<noteq> 0 \<and> md_par_y md \<noteq> 0 then Some (md_par_x md, md_par_y md) else None)"

definition flv_demux_negotiate_video_caps :: "GstEnv \<Rightarrow> dops \<Rightarrow> byte \<Rightarrow> FlvDemux \<Rightarrow> (bool \<times> FlvDemux) option" where
  "flv_demux_negotiate_video_caps E D codec f = do {
     mime_type \<leftarrow> load flv_video_mime_type (uint codec);
     codec_name \<leftarrow> load flv_video_codec_name (uint codec);
     case fd_metadata f of
       None \<Rightarrow> Some (False, f)
     | Some md \<Rightarrow>
         let (result, f) = ask E (SetCaps VideoPad (video_caps D mime_type md)) f in
         if result
         then let f = queue_tag (ascii ''video-codec'') (TagString (ascii codec_name)) (f\<lparr>video_codec_id := ucast codec\<rparr>)
              in Some (True, if \<not> has_audio f \<or> audio_linked f then push_tags f else f)
         else Some (False, f) }"

definition create_video_pad :: "GstEnv \<Rightarrow> dops \<Rightarrow> FlvVideoTag \<Rightarrow> FlvDemux \<Rightarrow> (bool \<times> FlvDemux) option" where
  "create_video_pad E D t f =
     (if video_src_pad f then Some (True, f)
      else do {
        (ok, f) \<leftarrow> flv_demux_negotiate_video_caps E D (codec_id t) (f\<lparr>video_src_pad := True\<rparr>);
        if \<not> ok then Some (False, f\<lparr>video_src_pad := False\<rparr>)
        else let (ok, f) = ask E (SetActive VideoPad) f in
          if \<not> ok then Some (False, f)
          else let (ok, f) = ask E (AddPad VideoPad) f in
            if \<not> ok then Some (False, f)
            else Some (True, if audio_src_pad f \<or> \<not> has_audio f then emit NoMorePads f else f) })"

definition send_video :: "GstEnv \<Rightarrow> FlvVideoTag \<Rightarrow> byte list \<Rightarrow> FlvDemux \<Rightarrow> (GstFlowReturn \<times> FlvDemux) option" where
  "send_video E t data f =
     (let (flow, f) = ask_flow E (AllocBuffer VideoPad (ucast (video_packet_size t))) f
      in if flow \<noteq> GST_FLOW_OK then Some (flow, if flow = GST_FLOW_NOT_LINKED then f\<lparr>video_linked := False\<rparr> else f)
      else do {
        let f = f\<lparr>video_linked := True,
                  video_frame_duration := longer_duration (current_timestamp f) (video_prev_timestamp f)
                                            (video_frame_duration f) (video_discont f),
                  video_prev_timestamp := current_timestamp f\<rparr>;
        bytes \<leftarrow> load_block data (unat (video_packet_offset t)) (unat (video_packet_size t));
        let out = \<lparr>ob_data = bytes, ob_timestamp = current_timestamp f, ob_duration = video_frame_duration f,
                   ob_offset = ucast (video_offset f), ob_offset_end = ucast (video_offset f + 1),
                   ob_delta = (frame_type t \<noteq> 1), ob_discont = video_discont f\<rparr>;
        let f = f\<lparr>video_offset := video_offset f + 1,
                  fd_segment := gst_segment_set_last_stop GST_FORMAT_TIME (sint (ob_timestamp out)) (fd_segment f)\<rparr>;
        let f = (if video_discont f
                 then (emit (PushEvent VideoPad (NewSegment (fd_segment f))) f)\<lparr>video_discont := False\<rparr> else f);
        let f = (if frame_type t = 1 then flv_demux_index_add_entry (current_timestamp f) (last_file_position f) f else f);
        Some (ask_flow E (PushBuffer VideoPad out) f) })"

definition push_video :: "GstEnv \<Rightarrow> dops \<Rightarrow> FlvVideoTag \<Rightarrow> bool \<Rightarrow> byte list \<Rightarrow> FlvDemux \<Rightarrow> (GstFlowReturn \<times> FlvDemux) option" where
  "push_video E D t need_push_tags data f = do {
     f \<leftarrow> (if video_codec_id f \<noteq> ucast (codec_id t)
          then map_option snd (flv_demux_negotiate_video_caps E D (codec_id t) f) else Some f);
     send_video E t data (if need_push_tags then push_tags f else f) }"

definition blank_video_tag :: FlvVideoTag where
  "blank_video_tag = \<lparr>codec_id = 0, frame_type = 0, video_packet_offset = 0, video_packet_size = 0\<rparr>"

definition flv_demux_parse_video_tag :: "GstEnv \<Rightarrow> dops \<Rightarrow> byte list \<Rightarrow> gsize \<Rightarrow> FlvDemux \<Rightarrow> (GstFlowReturn \<times> FlvDemux) option" where
  "flv_demux_parse_video_tag E D data sz f = do {
     (res, p, t) \<leftarrow> flv_parser_read_video_tag data sz (fd_parser f) blank_video_tag;
     let f = f\<lparr>fd_parser := p\<rparr>;
     if res \<noteq> FLV_PARSER_OK then Some (GST_FLOW_ERROR, f)
     else do {
       (ok, g) \<leftarrow> create_video_pad E D t (f\<lparr>has_video := True\<rparr>);
       if \<not> ok then Some (GST_FLOW_ERROR, g)
       else if codec_id t \<noteq> 4 \<and> codec_id t \<noteq> 5
         then Some (GST_FLOW_OK, (if video_prev_timestamp g = GST_CLOCK_TIME_NONE then emit Warning g else g)
                     \<lparr>video_prev_timestamp := current_timestamp g\<rparr>)
         else push_video E D t (\<not> video_src_pad f) data g } }"

section \<open>Blocks\<close>

definition add_entries :: "FlvKeyframe list \<Rightarrow> FlvDemux \<Rightarrow> FlvDemux" where
  "add_entries ks f = fold (\<lambda>k. flv_demux_index_add_entry (kf_time k) (kf_fileposition k)) ks f"

text \<open>The branch for script data, after the parser has accepted the tag.\<close>

definition handle_script_data :: "dops \<Rightarrow> byte list \<Rightarrow> FlvScriptDataReader \<Rightarrow> FlvMetadata \<Rightarrow> FlvDemux \<Rightarrow> FlvDemux option" where
  "handle_script_data D data reader md f = do {
     (ok, _, md) \<leftarrow> flv_script_data_read D data reader md;
     let f = f\<lparr>fd_metadata := Some md\<rparr>;
     let f = (case md_tag_list md of
                Some tags \<Rightarrow> if ok then f\<lparr>queued_tags := Some (case queued_tags f of
                               None \<Rightarrow> tags | Some q \<Rightarrow> fold (\<lambda>(k, v). AList.update k v) tags q)\<rparr> else f
              | None \<Rightarrow> f);
     Some (case md_keyframes md of
             Some ks \<Rightarrow> if copied_metadata_keyframes f then f
                        else (add_entries ks f)\<lparr>copied_metadata_keyframes := True\<rparr>
           | None \<Rightarrow> f) }"

definition blank_header :: FlvHeader where
  "blank_header = \<lparr>file_version = 0, has_audio_tags = False, has_video_tags = False\<rparr>"

definition blank_prefix :: FlvTagPrefix where
  "blank_prefix = \<lparr>tag_type = 0, body_size = 0, timestamp = 0\<rparr>"

definition blank_reader :: FlvScriptDataReader where
  "blank_reader = \<lparr>rd_position = 0, rd_end = 0\<rparr>"

definition clock_of_timestamp :: "gint \<Rightarrow> GstClockTime" where
  "clock_of_timestamp ts = scast ts * GST_MSECOND"

text \<open>The dispatch on the parser state.\<close>

definition dispatch_block :: "GstEnv \<Rightarrow> dops \<Rightarrow> byte list \<Rightarrow> gsize \<Rightarrow> FlvDemux \<Rightarrow> (GstFlowReturn \<times> FlvDemux) option" where
  "dispatch_block E D data sz f =
     (let p = fd_parser f in case fp_state p of
        FLV_PARSER_EXPECT_HEADER \<Rightarrow> do {
          (res, p', h) \<leftarrow> flv_parser_read_header data sz p blank_header;
          let f = f\<lparr>fd_parser := p'\<rparr>;
          if res = FLV_PARSER_OK
          then Some (GST_FLOW_OK, f\<lparr>has_audio := has_audio_tags h, has_video := has_video_tags h\<rparr>)
          else Some (GST_FLOW_ERROR, f) }
      | FLV_PARSER_EXPECT_SKIP_BLOCK \<Rightarrow>
          (case flv_parser_skip sz p of (res, p') \<Rightarrow>
             Some (if res = FLV_PARSER_OK then GST_FLOW_OK else GST_FLOW_ERROR, f\<lparr>fd_parser := p'\<rparr>))
      | FLV_PARSER_EXPECT_TAG_PREFIX \<Rightarrow> do {
          (res, p', t) \<leftarrow> flv_parser_read_tag_prefix data sz p blank_prefix;
          let f = f\<lparr>fd_parser := p'\<rparr>;
          if res = FLV_PARSER_OK
          then Some (GST_FLOW_OK, f\<lparr>current_timestamp := clock_of_timestamp (timestamp t),
                                     last_file_position := file_position p\<rparr>)
          else Some (GST_FLOW_ERROR, f) }
      | FLV_PARSER_EXPECT_VIDEO_TAG_BODY \<Rightarrow> flv_demux_parse_video_tag E D data sz f
      | FLV_PARSER_EXPECT_AUDIO_TAG_BODY \<Rightarrow> flv_demux_parse_audio_tag E data sz f
      | FLV_PARSER_EXPECT_SCRIPT_DATA_TAG_BODY \<Rightarrow>
          (case flv_parser_read_script_data_tag sz p blank_reader of (res, p', reader) \<Rightarrow>
             let f = f\<lparr>fd_parser := p'\<rparr> in
             case fd_metadata f of
               Some md \<Rightarrow> if res = FLV_PARSER_OK
                 then map_option (Pair GST_FLOW_OK) (handle_script_data D data reader md f)
                 else Some (GST_FLOW_ERROR, f)
             | None \<Rightarrow> Some (GST_FLOW_ERROR, f))
      | FLV_PARSER_EOF \<Rightarrow> Some (GST_FLOW_ERROR, f))"

definition flv_demux_parse_next_block :: "GstEnv \<Rightarrow> dops \<Rightarrow> byte list \<Rightarrow> gsize \<Rightarrow> FlvDemux \<Rightarrow>
    (GstFlowReturn \<times> FlvDemux) option" where
  "flv_demux_parse_next_block E D data sz f = do {
     (result, f) \<leftarrow> dispatch_block E D data sz f;
     Some (result, if result = GST_FLOW_ERROR then emit Error f else f) }"

section \<open>Push mode\<close>

record FlvPush =
  adapter :: "byte list"
  filter_of :: FlvDemux

definition gst_adapter_peek :: "nat \<Rightarrow> byte list \<Rightarrow> byte list option" where
  "gst_adapter_peek n a = (if n = 0 \<or> length a < n then None else Some (take n a))"

text \<open>The loop of the chain function. A peek that fails leaves everything as it is, and the loop
  runs again; \<open>None\<close> therefore stands for undefined behaviour and for a loop that does not end.\<close>

partial_function (option) flv_demux_chain_loop :: "GstEnv \<Rightarrow> dops \<Rightarrow> GstFlowReturn \<Rightarrow> FlvPush \<Rightarrow>
    (GstFlowReturn \<times> FlvPush) option" where
  "flv_demux_chain_loop E D result s =
     (let block_size = next_block_size (fd_parser (filter_of s)); n = unat (ucast block_size :: guint) in
      if length (adapter s) < unat block_size then Some (result, s)
      else case gst_adapter_peek n (adapter s) of
        None \<Rightarrow> flv_demux_chain_loop E D result s
      | Some data \<Rightarrow> do {
          (result, f) \<leftarrow> flv_demux_parse_next_block E D data block_size (filter_of s);
          let s = \<lparr>adapter = drop n (adapter s), filter_of = f\<rparr>;
          if result \<noteq> GST_FLOW_OK then Some (result, s) else flv_demux_chain_loop E D result s })"

lemmas flv_demux_chain_loop_code [code] = flv_demux_chain_loop.simps

definition chain_flush :: "guint64 \<Rightarrow> FlvPush \<Rightarrow> FlvPush" where
  "chain_flush offset s =
     (let f = filter_of s in
      if need_parser_flush f
      then \<lparr>adapter = [], filter_of = f\<lparr>need_parser_flush := False,
              fd_parser := (if offset \<noteq> 0 then flv_parser_seek offset (fd_parser f) else flv_parser_reset (fd_parser f))\<rparr>\<rparr>
      else s)"

definition flv_demux_chain :: "GstEnv \<Rightarrow> dops \<Rightarrow> byte list \<Rightarrow> guint64 \<Rightarrow> FlvPush \<Rightarrow> (GstFlowReturn \<times> FlvPush) option" where
  "flv_demux_chain E D buf offset s =
     (let s = chain_flush offset s in
      flv_demux_chain_loop E D GST_FLOW_OK (s\<lparr>adapter := adapter s @ buf\<rparr>))"

section \<open>Events of the sink pad and state changes\<close>

text \<open>An event of the sink pad. The new segment event carries its format and what
  \<^verbatim>\<open>gst_segment_set_newsegment\<close> makes of the segment with its values.\<close>

datatype SinkEvent = SinkFlushStart | SinkFlushStop | SinkEos | SinkRangeReady
  | SinkNewSegment GstFormat "GstSegment \<Rightarrow> GstSegment" | SinkOther

definition flv_demux_push_src_event :: "Event \<Rightarrow> FlvDemux \<Rightarrow> bool \<times> FlvDemux" where
  "flv_demux_push_src_event ev f =
     (let f = (if audio_src_pad f then emit (PushEvent AudioPad ev) f else f);
          f = (if video_src_pad f then emit (PushEvent VideoPad ev) f else f)
      in (True, f))"

definition flv_demux_sink_event :: "GstEnv \<Rightarrow> SinkEvent \<Rightarrow> FlvDemux \<Rightarrow> bool \<times> FlvDemux" where
  "flv_demux_sink_event E ev f = (case ev of
      SinkFlushStart \<Rightarrow> (True, emit (DefaultEvent FlushStart) (f\<lparr>is_flushing := True\<rparr>))
    | SinkFlushStop \<Rightarrow> (True, emit (DefaultEvent FlushStop) (f\<lparr>is_flushing := False, need_parser_flush := True\<rparr>))
    | SinkEos \<Rightarrow> flv_demux_push_src_event Eos (emit NoMorePads f)
    | SinkRangeReady \<Rightarrow> ask E StartTask f
    | SinkNewSegment format upd \<Rightarrow>
        (True, f\<lparr>fd_segment := (if format = GST_FORMAT_TIME then upd (fd_segment f) else fd_segment f),
                 audio_discont := True, video_discont := True\<rparr>)
    | SinkOther \<Rightarrow> flv_demux_push_src_event Other f)"

definition flv_demux_change_state :: "bool \<Rightarrow> FlvDemux \<Rightarrow> FlvDemux" where
  "flv_demux_change_state ready_to_paused f =
     (if ready_to_paused then f\<lparr>last_file_position := 0, current_timestamp := 0, need_parser_flush := True\<rparr> else f)"

definition flv_demux_sink_activate_pull :: "GstEnv \<Rightarrow> bool \<Rightarrow> FlvDemux \<Rightarrow> bool \<times> FlvDemux" where
  "flv_demux_sink_activate_pull E active f =
     (if active then ask E StartTask (f\<lparr>is_pulling := True\<rparr>) else ask E PauseTask (f\<lparr>is_pulling := True\<rparr>))"

definition flv_demux_sink_activate_push :: "FlvDemux \<Rightarrow> bool \<times> FlvDemux" where
  "flv_demux_sink_activate_push f = (True, f\<lparr>is_pulling := False\<rparr>)"

section \<open>Pull mode\<close>

text \<open>One run of the pulling task; \<open>True\<close> when the task goes on.\<close>

definition flv_demux_loop :: "GstEnv \<Rightarrow> dops \<Rightarrow> FlvDemux \<Rightarrow> (bool \<times> FlvDemux) option" where
  "flv_demux_loop E D f =
     (let (result, block, f) = ask_pull E (PullRange (file_position (fd_parser f)) (ucast (next_block_size (fd_parser f)))) f
      in do {
        (result, f) \<leftarrow> (if result = GST_FLOW_OK
          then flv_demux_parse_next_block E D block (of_nat (length block)) f
          else Some (result, f));
        if result = GST_FLOW_OK then Some (True, f)
        else let f = emit PauseTask f in
          Some (False, if result = GST_FLOW_UNEXPECTED then snd (flv_demux_push_src_event Eos f)
                       else if result = GST_FLOW_ERROR then emit Error f else f) })"

partial_function (option) indexing_loop :: "GstEnv \<Rightarrow> GstClockTime \<Rightarrow> FlvParser \<Rightarrow> GstClockTime \<Rightarrow> FlvDemux \<Rightarrow>
    (bool \<times> FlvDemux) option" where
  "indexing_loop E indexTo p time f =
     (if \<not> time < indexTo then Some (True, f)
      else let pos = file_position p;
               (flow, block, f) = ask_pull E (PullRange pos (ucast (next_block_size p + 1))) f
        in if flow \<noteq> GST_FLOW_OK then Some (False, f)
        else do {
          (res, p, t) \<leftarrow> flv_parser_read_tag_prefix block (of_nat (length block)) p blank_prefix;
          if res \<noteq> FLV_PARSER_OK then Some (False, f)
          else do {
            let time = clock_of_timestamp (timestamp t);
            f \<leftarrow> (if tag_type t = FLV_TAG_TYPE_VIDEO then do {
                   frame_info \<leftarrow> load block (uint (parsed_block_size p));
                   Some (if drop_bit 4 (frame_info AND 0xF0) = 1 then flv_demux_index_add_entry time pos f else f) }
                 else Some (if tag_type t = FLV_TAG_TYPE_AUDIO \<and> \<not> has_video f
                            then flv_demux_index_add_entry time pos f else f));
            indexing_loop E indexTo (flv_parser_seek (file_position p + next_block_size p) p) time f } })"

lemmas indexing_loop_code [code] = indexing_loop.simps

text \<open>\<open>junk\<close> is the value of the local variables before they are assigned.\<close>

definition flv_demux_do_indexing_pull :: "GstEnv \<Rightarrow> GstClockTime \<Rightarrow> FlvParser \<Rightarrow> GstClockTime \<Rightarrow> GstClockTime \<Rightarrow> FlvDemux \<Rightarrow>
    (bool \<times> FlvDemux) option" where
  "flv_demux_do_indexing_pull E junk junk_parser indexFrom indexTo f = do {
     let p = flv_parser_init junk_parser;
     found \<leftarrow> flv_demux_index_lookup indexFrom (fd_keyframes f);
     case found of
       None \<Rightarrow> indexing_loop E indexTo p junk f
     | Some e \<Rightarrow> indexing_loop E indexTo (flv_parser_seek (kf_fileposition e) p) (kf_time e) f }"

section \<open>Seeking\<close>

text \<open>A seek event: the test \<^verbatim>\<open>rate <= 0\<close> of the floating point rate and what \<^verbatim>\<open>gst_segment_set_seek\<close>
  makes of the segment are part of it.\<close>

record SeekEvent =
  se_forward :: bool
  se_format :: GstFormat
  se_flush :: bool
  se_keyframe :: bool
  se_update :: "GstSegment \<Rightarrow> GstSegment"

definition seek_key_unit :: "SeekEvent \<Rightarrow> GstClockTime \<Rightarrow> GstSegment \<Rightarrow> GstSegment" where
  "seek_key_unit ev time s =
     (if se_keyframe ev
      then (if time < of_int (sg_start s) then s\<lparr>sg_start := sint time\<rparr> else s)\<lparr>sg_last_stop := sint time\<rparr>
      else s)"

definition take_segment :: "GstSegment \<Rightarrow> FlvDemux \<Rightarrow> FlvDemux" where
  "take_segment s f =
     (let f = f\<lparr>fd_segment := s\<rparr>;
          f = (if sg_flags s AND 8 \<noteq> 0 then emit (SegmentStart (sg_format s) (sg_last_stop s)) f else f)
      in f\<lparr>audio_discont := True, video_discont := True\<rparr>)"

definition seek_target :: "GstClockTime \<Rightarrow> FlvKeyframe list \<Rightarrow> GstClockTime \<times> guint64 \<Rightarrow> (GstClockTime \<times> guint64) option" where
  "seek_target t ks def = do {
     found \<leftarrow> flv_demux_index_lookup t ks;
     Some (case found of None \<Rightarrow> def | Some e \<Rightarrow> (kf_time e, kf_fileposition e)) }"

text \<open>The nearest keyframe, after indexing the file up to the seek position when it is far away, and the
  parser set to it.\<close>

definition seek_indexed :: "GstEnv \<Rightarrow> GstClockTime \<Rightarrow> FlvParser \<Rightarrow> GstClockTime \<Rightarrow> FlvDemux \<Rightarrow>
    (GstClockTime \<times> guint64 \<times> FlvDemux) option" where
  "seek_indexed E junk junk_parser start f = do {
     (time, pos) \<leftarrow> seek_target start (fd_keyframes f) (0, 0);
     if start - time > 5 * GST_SECOND
     then do {
       (_, f) \<leftarrow> flv_demux_do_indexing_pull E junk junk_parser time start f;
       (time, pos) \<leftarrow> seek_target start (fd_keyframes f) (time, pos);
       Some (time, pos, f) }
     else Some (time, pos, f) }"

definition seek_parser :: "guint64 \<Rightarrow> FlvDemux \<Rightarrow> FlvDemux" where
  "seek_parser pos f = f\<lparr>fd_parser := (if pos \<noteq> 0 then flv_parser_seek pos (fd_parser f) else flv_parser_reset (fd_parser f))\<rparr>"

definition flv_demux_seek_pull :: "GstEnv \<Rightarrow> GstClockTime \<Rightarrow> FlvParser \<Rightarrow> SeekEvent \<Rightarrow> FlvDemux \<Rightarrow> (bool \<times> FlvDemux) option" where
  "flv_demux_seek_pull E junk junk_parser ev f =
     (if se_format ev \<noteq> GST_FORMAT_TIME \<or> \<not> se_forward ev then Some (False, f)
      else do {
        let f = (if se_flush ev then emit (PushEvent SinkPad FlushStop)
                   (snd (flv_demux_push_src_event FlushStart (emit (PushEvent SinkPad FlushStart) f))) else f);
        let s = se_update ev (fd_segment f);
        (s, f) \<leftarrow> (if se_flush ev \<or> sg_last_stop s \<noteq> sg_last_stop (fd_segment f)
          then do {
            (time, pos, f) \<leftarrow> seek_indexed E junk junk_parser (of_int (sg_start s)) f;
            Some (seek_key_unit ev time s, seek_parser pos f) }
          else Some (s, f));
        let f = (if se_flush ev then snd (flv_demux_push_src_event FlushStop f) else f);
        Some (True, emit StartTask (take_segment s f)) })"

definition flv_demux_seek_push :: "GstEnv \<Rightarrow> SeekEvent \<Rightarrow> FlvDemux \<Rightarrow> (bool \<times> FlvDemux) option" where
  "flv_demux_seek_push E ev f =
     (if se_format ev \<noteq> GST_FORMAT_TIME \<or> \<not> se_forward ev then Some (False, f)
      else do {
        let s = se_update ev (fd_segment f);
        (res, s, f) \<leftarrow> (if se_flush ev \<or> sg_last_stop s \<noteq> sg_last_stop (fd_segment f)
          then do {
            (time, pos) \<leftarrow> seek_target (of_int (sg_start s)) (fd_keyframes f) (0, 0);
            let s = seek_key_unit ev time s;
            let (res, f) = ask E (PushEvent SinkPad (SeekBytes (sg_rate s) pos)) (f\<lparr>need_parser_flush := True\<rparr>);
            Some (res, s, f) }
          else Some (True, s, f));
        Some (res, if res then take_segment s f else f) })"

definition flv_demux_src_event :: "GstEnv \<Rightarrow> GstClockTime \<Rightarrow> FlvParser \<Rightarrow> SeekEvent option \<Rightarrow> FlvDemux \<Rightarrow>
    (bool \<times> FlvDemux) option" where
  "flv_demux_src_event E junk junk_parser ev f = (case ev of
      Some sk \<Rightarrow> if is_pulling f then flv_demux_seek_pull E junk junk_parser sk f else flv_demux_seek_push E sk f
    | None \<Rightarrow> Some (ask E (PushEvent SinkPad Other) f))"

end
