(* ===== verification/FlvDemuxProps.thy ===== *)
theory FlvDemuxProps
  imports FlvDemux
begin

text \<open>
  Correctness of the FLV demuxer: the seek index, the bytes that the chain function consumes, and
  the independence of the way in which the stream is cut into buffers.
\<close>

section \<open>The seek index\<close>

definition index_wf :: "FlvKeyframe list \<Rightarrow> bool" where
  "index_wf ks = sorted_wrt (\<lambda>a b. kf_time a < kf_time b) ks"

lemma compare_keyframes_iff: "compare_keyframes a b > 0 \<longleftrightarrow> kf_time a > kf_time b"
    "compare_keyframes a b = 0 \<longleftrightarrow> kf_time a = kf_time b"
  by (auto simp: compare_keyframes_def)

lemma set_g_list_insert_sorted [simp]: "set (g_list_insert_sorted ks k) = insert k (set ks)"
  by (induction ks) auto

lemma index_wf_insert_sorted:
  "index_wf ks \<Longrightarrow> kf_time k \<notin> kf_time ` set ks \<Longrightarrow> index_wf (g_list_insert_sorted ks k)"
  by (induction ks) (auto simp: index_wf_def compare_keyframes_iff not_less le_less intro: less_trans)

lemma index_insert_wf: "index_wf ks \<Longrightarrow> index_wf (index_insert k ks)"
  by (force simp: index_insert_def compare_keyframes_iff intro: index_wf_insert_sorted)

lemma index_insert_times: "kf_time ` set (index_insert k ks) = insert (kf_time k) (kf_time ` set ks)"
  by (auto simp: index_insert_def compare_keyframes_iff insert_absorb image_iff, metis)

lemma index_insert_subset: "set (index_insert k ks) \<subseteq> insert k (set ks)"
  by (auto simp: index_insert_def)

lemma keyframe_eta [simp]: "\<lparr>kf_time = kf_time k, kf_fileposition = kf_fileposition k\<rparr> = k"
  by (cases k) simp

lemma lookup_loop_correct:
  assumes "index_wf ks" "\<exists>e \<in> set ks. t \<le> kf_time e"
    and "case prev of None \<Rightarrow> kf_time (hd ks) \<le> t | Some p \<Rightarrow> kf_time p < t \<and> (\<forall>e \<in> set ks. kf_time p < kf_time e)"
  shows "\<exists>e. lookup_loop t prev ks = Some (Some e) \<and> e \<in> set ks \<union> set_option prev \<and> kf_time e \<le> t \<and>
    (\<forall>x \<in> set ks. kf_time x \<le> t \<longrightarrow> kf_time x \<le> kf_time e)"
  using assms
proof (induction ks arbitrary: prev)
  case (Cons k ks)
  have sorted: "index_wf ks" "\<forall>e \<in> set ks. kf_time k < kf_time e"
    using Cons.prems(1) by (auto simp: index_wf_def)
  consider "kf_time k = t" | "t < kf_time k" | "kf_time k < t" by force
  then show ?case
  proof cases
    case 1
    with sorted show ?thesis by force
  next
    case 2
    then obtain p where "prev = Some p" using Cons.prems(3) by (cases prev) auto
    with 2 sorted Cons.prems(3) show ?thesis by force
  next
    case 3
    then have "\<exists>e \<in> set ks. t \<le> kf_time e" using Cons.prems(2) by auto
    with Cons.IH [of "Some k"] sorted 3
    obtain e where "lookup_loop t (Some k) ks = Some (Some e)" "e \<in> set ks \<union> {k}" "kf_time e \<le> t"
        "\<forall>x \<in> set ks. kf_time x \<le> t \<longrightarrow> kf_time x \<le> kf_time e" by auto
    with 3 sorted show ?thesis by (auto intro: less_imp_le)
  qed
qed simp

lemma index_wf_hd_last:
  assumes "index_wf ks" "x \<in> set ks"
  shows "kf_time (hd ks) \<le> kf_time x" "kf_time x \<le> kf_time (last ks)"
  using assms by (induction ks) (auto simp: index_wf_def intro: less_imp_le)

lemma index_lookup_correct:
  assumes "index_wf ks"
  shows "case flv_demux_index_lookup t ks of
      None \<Rightarrow> False
    | Some None \<Rightarrow> (\<forall>x \<in> set ks. t < kf_time x) \<or> (\<forall>x \<in> set ks. kf_time x < t)
    | Some (Some e) \<Rightarrow> e \<in> set ks \<and> kf_time e \<le> t \<and> (\<exists>x \<in> set ks. t \<le> kf_time x) \<and>
        (\<forall>x \<in> set ks. kf_time x \<le> t \<longrightarrow> kf_time x \<le> kf_time e)"
proof (cases "ks = [] \<or> kf_time (hd ks) > t \<or> kf_time (last ks) < t")
  case True
  then show ?thesis
    using index_wf_hd_last [OF assms] by (auto simp: flv_demux_index_lookup_def intro: less_le_trans le_less_trans)
next
  case False
  then have "\<exists>e \<in> set ks. t \<le> kf_time e" by (auto simp: not_less intro!: bexI [of _ "last ks"])
  then show ?thesis
    using lookup_loop_correct [OF assms, of t None] False by (auto simp: flv_demux_index_lookup_def not_less)
qed

lemma fd_keyframes_add_entries:
  "fd_keyframes (add_entries xs f) = fold index_insert xs (fd_keyframes f)"
  by (induction xs arbitrary: f) (simp_all add: add_entries_def flv_demux_index_add_entry_def)

lemma fold_index_insert:
  assumes "index_wf ks"
  shows "index_wf (fold index_insert xs ks) \<and> kf_time ` set (fold index_insert xs ks) = kf_time ` set (ks @ xs) \<and>
    set (fold index_insert xs ks) \<subseteq> set (ks @ xs)"
  using assms
proof (induction xs arbitrary: ks)
  case (Cons x xs)
  from Cons.IH [OF index_insert_wf [OF Cons.prems, of x]] index_insert_times [of x ks] index_insert_subset [of x ks]
  show ?case by (auto simp: image_Un)
qed simp

text \<open>C9: however the entries of the seek index arrive, in any order and with any duplicates, the index
  is strictly increasing in time and holds exactly the times that were added. The search in it never
  follows the \<open>NULL\<close> predecessor of the first entry. If the given time is before the first entry or
  after the last entry (or there is no entry) it returns nothing; otherwise it returns the last entry
  that is not after the given time.\<close>

theorem flv_demux_index_correct:
  "let ks = fd_keyframes (add_entries xs (flv_demux_init f)) in
     index_wf ks \<and> kf_time ` set ks = kf_time ` set xs \<and> set ks \<subseteq> set xs \<and>
     (case flv_demux_index_lookup t ks of
        None \<Rightarrow> False
      | Some None \<Rightarrow> (\<forall>x \<in> set xs. t < kf_time x) \<or> (\<forall>x \<in> set xs. kf_time x < t)
      | Some (Some e) \<Rightarrow> e \<in> set xs \<and> kf_time e \<le> t \<and> (\<exists>x \<in> set xs. t \<le> kf_time x) \<and>
          (\<forall>x \<in> set xs. kf_time x \<le> t \<longrightarrow> kf_time x \<le> kf_time e))"
proof -
  define ks where "ks = fold index_insert xs []"
  have ks: "index_wf ks" "kf_time ` set ks = kf_time ` set xs" "set ks \<subseteq> set xs"
    using fold_index_insert [of "[]" xs] by (auto simp: ks_def index_wf_def)
  have times: "(\<forall>x \<in> set ks. P (kf_time x)) \<longleftrightarrow> (\<forall>x \<in> set xs. P (kf_time x))" for P
    using ks(2) by (metis (no_types, lifting) image_iff)
  have "fd_keyframes (add_entries xs (flv_demux_init f)) = ks"
    by (simp add: fd_keyframes_add_entries flv_demux_init_def ks_def)
  then show ?thesis
    using ks index_lookup_correct [OF ks(1), of t] times [of "\<lambda>y. t < y"] times [of "\<lambda>y. y < t"]
      times [of "\<lambda>y. y \<le> t \<longrightarrow> y \<le> kf_time _"]
    by (auto simp: Let_def split: option.splits)
qed

section \<open>What a block does to the parser\<close>

text \<open>Everything but the parser itself leaves the parser and the flush request alone.\<close>

definition same_parser :: "FlvDemux \<Rightarrow> FlvDemux \<Rightarrow> bool" where
  "same_parser f g \<longleftrightarrow> fd_parser g = fd_parser f \<and> need_parser_flush g = need_parser_flush f"

lemma same_parser_trans: "same_parser f g \<Longrightarrow> same_parser g h \<Longrightarrow> same_parser f h"
  by (simp add: same_parser_def)

lemma same_parser_basic [simp]:
  "same_parser f f" "same_parser f (emit a f)" "same_parser f (snd (ask E a f))" "same_parser f (snd (ask_flow E a f))"
  "same_parser f (flv_demux_index_add_entry t p f)" "same_parser f (push_tags f)" "same_parser f (queue_tag k v f)"
  by (auto simp: same_parser_def emit_def ask_def ask_flow_def flv_demux_index_add_entry_def push_tags_def
      queue_tag_def split: option.splits)

lemma emit_fields [simp]: "fd_parser (emit a f) = fd_parser f" "need_parser_flush (emit a f) = need_parser_flush f"
  by (simp_all add: emit_def)

lemma push_tags_fields [simp]: "fd_parser (push_tags f) = fd_parser f" "need_parser_flush (push_tags f) = need_parser_flush f"
  by (auto simp: push_tags_def split: option.splits)

lemma queue_tag_fields [simp]: "fd_parser (queue_tag k v f) = fd_parser f" "need_parser_flush (queue_tag k v f) = need_parser_flush f"
  by (simp_all add: queue_tag_def)

lemma add_entry_fields [simp]: "fd_parser (flv_demux_index_add_entry t p f) = fd_parser f"
    "need_parser_flush (flv_demux_index_add_entry t p f) = need_parser_flush f"
  by (simp_all add: flv_demux_index_add_entry_def)

lemma add_entries_fields [simp]: "fd_parser (add_entries xs f) = fd_parser f"
    "need_parser_flush (add_entries xs f) = need_parser_flush f"
  by (induction xs arbitrary: f) (simp_all add: add_entries_def)

lemmas frame_defs = same_parser_def ask_def ask_flow_def Let_def

lemma negotiate_audio_frame: "same_parser f (snd (flv_demux_negotiate_audio_caps E a b c f))"
  by (simp add: flv_demux_negotiate_audio_caps_def frame_defs)

lemma create_audio_pad_frame: "create_audio_pad E t f = (ok, g) \<Longrightarrow> same_parser f g"
  using negotiate_audio_frame [of "f\<lparr>audio_src_pad := True\<rparr>" E "sound_format t" "sampling_rate t" "is_stereo t"]
  by (auto simp: create_audio_pad_def frame_defs split: if_splits prod.splits)

lemma send_audio_frame: "send_audio E t data f = Some (res, g) \<Longrightarrow> same_parser f g"
  by (auto simp: send_audio_def frame_defs bind_eq_Some_conv split: if_splits)

lemma push_audio_frame: "push_audio E t data f = Some (res, g) \<Longrightarrow> same_parser f g"
  unfolding push_audio_def
  by (auto dest!: send_audio_frame intro: same_parser_trans [OF negotiate_audio_frame] split: if_splits)

lemma negotiate_video_frame: "flv_demux_negotiate_video_caps E D c f = Some (ok, g) \<Longrightarrow> same_parser f g"
  by (auto simp: flv_demux_negotiate_video_caps_def frame_defs bind_eq_Some_conv split: if_splits option.splits)

lemma create_video_pad_frame:
  assumes "create_video_pad E D t f = Some (ok, g)"
  shows "same_parser f g"
proof (cases "video_src_pad f")
  case False
  with assms obtain ok1 h where h: "flv_demux_negotiate_video_caps E D (codec_id t) (f\<lparr>video_src_pad := True\<rparr>) = Some (ok1, h)"
    by (auto simp: create_video_pad_def bind_eq_Some_conv)
  with False assms negotiate_video_frame [OF h] show ?thesis
    by (auto simp: create_video_pad_def frame_defs split: if_splits)
qed (use assms in \<open>simp add: create_video_pad_def\<close>)

lemma send_video_frame: "send_video E t data f = Some (res, g) \<Longrightarrow> same_parser f g"
  by (auto simp: send_video_def frame_defs bind_eq_Some_conv split: if_splits)

lemma push_video_frame:
  assumes "push_video E D t b data f = Some (res, g)"
  shows "same_parser f g"
proof -
  obtain h where h: "(if video_codec_id f \<noteq> ucast (codec_id t)
      then map_option snd (flv_demux_negotiate_video_caps E D (codec_id t) f) else Some f) = Some h"
      and g: "send_video E t data (if b then push_tags h else h) = Some (res, g)"
    using assms unfolding push_video_def bind_eq_Some_conv by blast
  have "same_parser f h" using h by (auto dest: negotiate_video_frame split: if_splits)
  moreover have "same_parser h (if b then push_tags h else h)" by simp
  ultimately show ?thesis using send_video_frame [OF g] by (blast intro: same_parser_trans)
qed

lemma handle_script_data_frame: "handle_script_data D data rd md f = Some g \<Longrightarrow> same_parser f g"
  by (auto simp: handle_script_data_def frame_defs bind_eq_Some_conv split: if_splits option.splits)

text \<open>The parser's part of a block.\<close>

definition parser_after :: "byte list \<Rightarrow> gsize \<Rightarrow> FlvParser \<Rightarrow> (FlvParserResult \<times> FlvParser) option" where
  "parser_after data sz p = (case fp_state p of
      FLV_PARSER_EXPECT_HEADER \<Rightarrow> map_option (\<lambda>(r, q, _). (r, q)) (flv_parser_read_header data sz p blank_header)
    | FLV_PARSER_EXPECT_SKIP_BLOCK \<Rightarrow> Some (flv_parser_skip sz p)
    | FLV_PARSER_EXPECT_TAG_PREFIX \<Rightarrow> map_option (\<lambda>(r, q, _). (r, q)) (flv_parser_read_tag_prefix data sz p blank_prefix)
    | FLV_PARSER_EXPECT_VIDEO_TAG_BODY \<Rightarrow> map_option (\<lambda>(r, q, _). (r, q)) (flv_parser_read_video_tag data sz p blank_video_tag)
    | FLV_PARSER_EXPECT_AUDIO_TAG_BODY \<Rightarrow> map_option (\<lambda>(r, q, _). (r, q)) (flv_parser_read_audio_tag data sz p blank_audio_tag)
    | FLV_PARSER_EXPECT_SCRIPT_DATA_TAG_BODY \<Rightarrow>
        Some (case flv_parser_read_script_data_tag sz p blank_reader of (r, q, _) \<Rightarrow> (r, q))
    | FLV_PARSER_EOF \<Rightarrow> Some (FLV_PARSER_INVALID_STATE, p))"

definition block_parser :: "byte list \<Rightarrow> gsize \<Rightarrow> FlvDemux \<Rightarrow> GstFlowReturn \<Rightarrow> FlvDemux \<Rightarrow> bool" where
  "block_parser data sz f res g \<longleftrightarrow> need_parser_flush g = need_parser_flush f \<and>
     (\<exists>r. parser_after data sz (fd_parser f) = Some (r, fd_parser g) \<and> (res = GST_FLOW_OK \<longrightarrow> r = FLV_PARSER_OK))"

lemma parse_audio_tag_parser:
  assumes "flv_demux_parse_audio_tag E data sz f = Some (res, g)" "fp_state (fd_parser f) = FLV_PARSER_EXPECT_AUDIO_TAG_BODY"
  shows "block_parser data sz f res g"
proof -
  obtain r p t where r: "flv_parser_read_audio_tag data sz (fd_parser f) blank_audio_tag = Some (r, p, t)"
    using assms(1) by (auto simp: flv_demux_parse_audio_tag_def bind_eq_Some_conv)
  obtain ok h where h: "create_audio_pad E t (f\<lparr>fd_parser := p, has_audio := True\<rparr>) = (ok, h)"
    by fastforce
  have "same_parser (f\<lparr>fd_parser := p, has_audio := True\<rparr>) h" using h by (rule create_audio_pad_frame)
  then show ?thesis
    using assms r h push_audio_frame [of E t data h res g]
    by (auto simp: flv_demux_parse_audio_tag_def block_parser_def parser_after_def same_parser_def Let_def split: if_splits)
qed

lemma parse_video_tag_parser:
  assumes "flv_demux_parse_video_tag E D data sz f = Some (res, g)" "fp_state (fd_parser f) = FLV_PARSER_EXPECT_VIDEO_TAG_BODY"
  shows "block_parser data sz f res g"
proof -
  obtain r p t where r: "flv_parser_read_video_tag data sz (fd_parser f) blank_video_tag = Some (r, p, t)"
    using assms(1) by (auto simp: flv_demux_parse_video_tag_def bind_eq_Some_conv)
  show ?thesis
  proof (cases "r = FLV_PARSER_OK")
    case True
    then obtain ok h where h: "create_video_pad E D t (f\<lparr>fd_parser := p, has_video := True\<rparr>) = Some (ok, h)"
      using assms(1) r by (auto simp: flv_demux_parse_video_tag_def bind_eq_Some_conv Let_def)
    have "same_parser (f\<lparr>fd_parser := p, has_video := True\<rparr>) h" using h by (rule create_video_pad_frame)
    then show ?thesis
      using assms r h True push_video_frame [of E D t "\<not> video_src_pad f" data h res g]
      by (auto simp: flv_demux_parse_video_tag_def block_parser_def parser_after_def same_parser_def Let_def split: if_splits)
  qed (use assms r in \<open>auto simp: flv_demux_parse_video_tag_def block_parser_def parser_after_def\<close>)
qed

lemma parse_next_block_parser:
  assumes "flv_demux_parse_next_block E D data sz f = Some (res, g)"
  shows "block_parser data sz f res g"
proof -
  obtain h where h: "dispatch_block E D data sz f = Some (res, h)" "fd_parser g = fd_parser h"
      "need_parser_flush g = need_parser_flush h"
    using assms by (auto simp: flv_demux_parse_next_block_def bind_eq_Some_conv)
  have "block_parser data sz f res h"
  proof (cases "fp_state (fd_parser f)")
    case FLV_PARSER_EXPECT_SCRIPT_DATA_TAG_BODY
    then show ?thesis
      using h(1)
      by (auto simp: dispatch_block_def block_parser_def parser_after_def Let_def
          dest!: handle_script_data_frame simp: same_parser_def split: if_splits option.splits prod.splits)
  next
    case FLV_PARSER_EXPECT_VIDEO_TAG_BODY
    then show ?thesis using h(1) parse_video_tag_parser by (simp add: dispatch_block_def)
  next
    case FLV_PARSER_EXPECT_AUDIO_TAG_BODY
    then show ?thesis using h(1) parse_audio_tag_parser by (simp add: dispatch_block_def)
  next
    case FLV_PARSER_EXPECT_HEADER
    then obtain r p hd where "flv_parser_read_header data sz (fd_parser f) blank_header = Some (r, p, hd)"
      using h(1) by (auto simp: dispatch_block_def Let_def bind_eq_Some_conv)
    with FLV_PARSER_EXPECT_HEADER h(1) show ?thesis
      by (simp add: dispatch_block_def block_parser_def parser_after_def Let_def split: if_splits) auto
  next
    case FLV_PARSER_EXPECT_TAG_PREFIX
    then obtain r p t where "flv_parser_read_tag_prefix data sz (fd_parser f) blank_prefix = Some (r, p, t)"
      using h(1) by (auto simp: dispatch_block_def Let_def bind_eq_Some_conv)
    with FLV_PARSER_EXPECT_TAG_PREFIX h(1) show ?thesis
      by (simp add: dispatch_block_def block_parser_def parser_after_def Let_def split: if_splits) auto
  next
    case FLV_PARSER_EXPECT_SKIP_BLOCK
    obtain r p where "flv_parser_skip sz (fd_parser f) = (r, p)" by fastforce
    with FLV_PARSER_EXPECT_SKIP_BLOCK h(1) show ?thesis
      by (simp add: dispatch_block_def block_parser_def parser_after_def Let_def split: if_splits) auto
  qed (use h(1) in \<open>auto simp: dispatch_block_def block_parser_def parser_after_def Let_def\<close>)
  then show ?thesis using h(2,3) by (simp add: block_parser_def)
qed

text \<open>A parser whose announced size is the size of the block: what every success preserves.\<close>

definition in_step :: "FlvParser \<Rightarrow> bool" where
  "in_step p \<longleftrightarrow> flv_parser_wf p \<and> (fp_state p = FLV_PARSER_EXPECT_TAG_PREFIX \<longrightarrow> next_block_size p = FLV_TAG_PREFIX_SIZE)"

lemma in_step_start: "in_step (flv_parser_init p)" "in_step (flv_parser_reset p)" "in_step (flv_parser_seek pos p)"
  by (simp_all add: in_step_def flv_parser_init_def flv_parser_reset_def flv_parser_seek_def)

lemma in_step_size:
  assumes "in_step p"
  shows "4 \<le> unat (next_block_size p)" "unat (ucast (next_block_size p) :: guint) = unat (next_block_size p)"
proof -
  have "4 \<le> next_block_size p" "next_block_size p < 2 ^ 32"
    using assms by (auto simp: in_step_def word_le_nat_alt word_less_nat_alt split: FlvParserState.splits)
  then show "4 \<le> unat (next_block_size p)" "unat (ucast (next_block_size p) :: guint) = unat (next_block_size p)"
    by (simp_all add: word_le_nat_alt word_less_nat_alt unsigned_ucast_eq take_bit_nat_eq_self)
qed

lemma parser_after_wf:
  assumes "flv_parser_wf p" "parser_after data sz p = Some (r, q)"
  shows "flv_parser_wf q"
  using assms(2) flv_parser_read_header_wf [OF _ assms(1)] flv_parser_skip_wf [OF _ assms(1)]
    flv_parser_read_tag_prefix_wf [OF _ assms(1)] flv_parser_read_audio_tag_wf [OF _ assms(1)]
    flv_parser_read_video_tag_wf [OF _ assms(1)] flv_parser_read_script_data_tag_wf [OF _ assms(1)] assms(1)
  by (auto simp: parser_after_def simp del: flv_parser_wf.simps split: FlvParserState.splits prod.splits)

lemma parser_after_in_step:
  assumes p: "in_step p" and q: "parser_after data (next_block_size p) p = Some (FLV_PARSER_OK, q)"
  shows "in_step q \<and> file_position q = file_position p + next_block_size p"
proof -
  have wf: "flv_parser_wf q" using p q parser_after_wf by (auto simp: in_step_def simp del: flv_parser_wf.simps)
  have "(fp_state q = FLV_PARSER_EXPECT_TAG_PREFIX \<longrightarrow> next_block_size q = FLV_TAG_PREFIX_SIZE) \<and>
      file_position q = file_position p + next_block_size p"
  proof (cases "fp_state p")
    case FLV_PARSER_EXPECT_HEADER
    then show ?thesis using p q
      by (auto simp: in_step_def parser_after_def flv_parser_read_header_def Let_def bind_eq_Some_conv split: if_splits)
  next
    case FLV_PARSER_EXPECT_TAG_PREFIX
    then show ?thesis using p q
      by (auto simp: in_step_def parser_after_def flv_parser_read_tag_prefix_def Let_def bind_eq_Some_conv split: if_splits)
  qed (use q in \<open>auto simp: parser_after_def flv_parser_skip_def flv_parser_read_audio_tag_def flv_parser_read_video_tag_def
      flv_parser_read_script_data_tag_def Let_def bind_eq_Some_conv split: if_splits\<close>)
  with wf show ?thesis by (simp add: in_step_def del: flv_parser_wf.simps)
qed

section \<open>Blocks that are parsed without undefined behaviour\<close>

text \<open>The blocks on which the demuxer may run into undefined behaviour: a tag body that is shorter
  than the longest codec header, and script data while there is no keyframe table yet.\<close>

definition risky_block :: "FlvDemux \<Rightarrow> bool" where
  "risky_block f \<longleftrightarrow>
     (case fp_state (fd_parser f) of
        FLV_PARSER_EXPECT_AUDIO_TAG_BODY \<Rightarrow> unat (next_block_size (fd_parser f)) < 11
      | FLV_PARSER_EXPECT_VIDEO_TAG_BODY \<Rightarrow> unat (next_block_size (fd_parser f)) < 11
      | FLV_PARSER_EXPECT_SCRIPT_DATA_TAG_BODY \<Rightarrow> \<exists>md. fd_metadata f = Some md \<and> md_keyframes md = None
      | _ \<Rightarrow> False)"

lemma packet_in_block:
  fixes nb off :: gsize
  assumes "4 \<le> nb" "nb < 2 ^ 24 + 4" "unat off \<le> 7" "11 \<le> unat nb" "unat nb \<le> length data"
  shows "load_block data (unat off) (unat (nb - 4 - off)) \<noteq> None"
  using packet_size [OF assms(1-3)] assms(3-5) by (auto simp: load_block_def)

lemma send_audio_defined:
  assumes "load_block data (unat (audio_packet_offset t)) (unat (audio_packet_size t)) \<noteq> None"
  shows "send_audio E t data f \<noteq> None"
  using assms by (auto simp: send_audio_def Let_def ask_flow_def)

lemma send_video_defined:
  assumes "load_block data (unat (video_packet_offset t)) (unat (video_packet_size t)) \<noteq> None"
  shows "send_video E t data f \<noteq> None"
  using assms by (auto simp: send_video_def Let_def ask_flow_def)

lemma audio_tag_packet:
  assumes "flv_parser_read_audio_tag data n p a = Some (FLV_PARSER_OK, p', t)" "flv_parser_wf p"
    "11 \<le> unat (next_block_size p)" "unat (next_block_size p) \<le> length data"
  shows "load_block data (unat (audio_packet_offset t)) (unat (audio_packet_size t)) \<noteq> None"
proof -
  have "unat (audio_packet_offset t) \<le> 7 \<and> audio_packet_size t = next_block_size p - 4 - audio_packet_offset t \<and>
      4 \<le> next_block_size p \<and> next_block_size p < 2 ^ 24 + 4"
    using assms(1,2) audio_table_small
    by (fastforce simp: flv_parser_read_audio_tag_def Let_def bind_eq_Some_conv split: if_splits)
  then show ?thesis using packet_in_block assms(3,4) by auto
qed

lemma video_tag_packet:
  assumes "flv_parser_read_video_tag data n p a = Some (FLV_PARSER_OK, p', t)" "flv_parser_wf p"
    "11 \<le> unat (next_block_size p)" "unat (next_block_size p) \<le> length data"
  shows "load_block data (unat (video_packet_offset t)) (unat (video_packet_size t)) \<noteq> None \<and> unat (codec_id t) < 16"
proof -
  have "unat (video_packet_offset t) \<le> 7 \<and> video_packet_size t = next_block_size p - 4 - video_packet_offset t \<and>
      4 \<le> next_block_size p \<and> next_block_size p < 2 ^ 24 + 4 \<and> unat (codec_id t) < 16"
    using assms(1,2) video_table_small low_nibble
    by (fastforce simp: flv_parser_read_video_tag_def Let_def bind_eq_Some_conv split: if_splits)
  then show ?thesis using packet_in_block assms(3,4) by auto
qed

lemma negotiate_video_defined:
  assumes "unat c < 16"
  shows "\<exists>ok g. flv_demux_negotiate_video_caps E D c f = Some (ok, g)"
proof -
  have "load flv_video_mime_type (uint c) = Some (flv_video_mime_type ! unat c)"
      "load flv_video_codec_name (uint c) = Some (flv_video_codec_name ! unat c)"
    using assms by (simp_all add: load_table flv_video_mime_type_def flv_video_codec_name_def)
  then show ?thesis
    by (auto simp: flv_demux_negotiate_video_caps_def ask_def Let_def split: option.split)
qed

lemma create_video_pad_defined:
  assumes "unat (codec_id t) < 16"
  shows "\<exists>ok g. create_video_pad E D t f = Some (ok, g)"
  using negotiate_video_defined [OF assms, of E D "f\<lparr>video_src_pad := True\<rparr>"]
  by (auto simp: create_video_pad_def ask_def Let_def)

lemma parse_audio_defined:
  assumes "flv_parser_wf (fd_parser f)" "11 \<le> unat (next_block_size (fd_parser f))"
    "unat (next_block_size (fd_parser f)) \<le> length data" "unat sz \<le> length data"
  shows "flv_demux_parse_audio_tag E data sz f \<noteq> None"
proof -
  obtain r p t where r: "flv_parser_read_audio_tag data sz (fd_parser f) blank_audio_tag = Some (r, p, t)"
    using flv_parser_read_audio_tag_safe [OF assms(4,1), of blank_audio_tag] by blast
  have "push_audio E t data h \<noteq> None" if "r = FLV_PARSER_OK" for h
    unfolding push_audio_def using r that assms audio_tag_packet by (intro send_audio_defined) blast
  then show ?thesis
    using r by (auto simp: flv_demux_parse_audio_tag_def Let_def split: prod.split)
qed

lemma parse_video_defined:
  assumes "flv_parser_wf (fd_parser f)" "11 \<le> unat (next_block_size (fd_parser f))"
    "unat (next_block_size (fd_parser f)) \<le> length data" "unat sz \<le> length data"
  shows "flv_demux_parse_video_tag E D data sz f \<noteq> None"
proof -
  obtain r p t where r: "flv_parser_read_video_tag data sz (fd_parser f) blank_video_tag = Some (r, p, t)"
    using flv_parser_read_video_tag_safe [OF assms(4,1), of blank_video_tag] by blast
  show ?thesis
  proof (cases "r = FLV_PARSER_OK")
    case True
    then have t: "load_block data (unat (video_packet_offset t)) (unat (video_packet_size t)) \<noteq> None" "unat (codec_id t) < 16"
      using r assms video_tag_packet by blast+
    then have "push_video E D t b data h \<noteq> None" for b h
      using negotiate_video_defined [OF t(2), of E D h] send_video_defined [OF t(1), of E]
      by (auto simp: push_video_def)
    moreover obtain ok h where "create_video_pad E D t (f\<lparr>fd_parser := p, has_video := True\<rparr>) = Some (ok, h)"
      using create_video_pad_defined [OF t(2)] by blast
    ultimately show ?thesis
      using r True by (auto simp: flv_demux_parse_video_tag_def Let_def)
  qed (use r in \<open>auto simp: flv_demux_parse_video_tag_def Let_def\<close>)
qed

lemma handle_script_data_defined:
  assumes "rd_end rd \<le> length data" "md_keyframes md = Some ks"
  shows "handle_script_data D data rd md f \<noteq> None"
  using flv_script_data_read_keeps [OF assms, of D]
  by (auto elim!: keepsE simp: handle_script_data_def Let_def)

lemma parse_next_block_defined:
  assumes wf: "flv_parser_wf (fd_parser f)" and safe: "\<not> risky_block f"
    and len: "length data = unat (next_block_size (fd_parser f))"
  shows "\<exists>res g. flv_demux_parse_next_block E D data (next_block_size (fd_parser f)) f = Some (res, g)"
proof -
  let ?n = "next_block_size (fd_parser f)"
  have n: "unat ?n \<le> length data" using len by simp
  have "dispatch_block E D data ?n f \<noteq> None"
  proof (cases "fp_state (fd_parser f)")
    case FLV_PARSER_EXPECT_HEADER
    then show ?thesis
      using flv_parser_read_header_safe [OF n, of "fd_parser f" blank_header] by (auto simp: dispatch_block_def Let_def)
  next
    case FLV_PARSER_EXPECT_TAG_PREFIX
    then show ?thesis
      using flv_parser_read_tag_prefix_safe [OF n, of "fd_parser f" blank_prefix] by (auto simp: dispatch_block_def Let_def)
  next
    case FLV_PARSER_EXPECT_AUDIO_TAG_BODY
    then show ?thesis
      using safe parse_audio_defined [OF wf _ n n, of E] by (simp add: dispatch_block_def risky_block_def)
  next
    case FLV_PARSER_EXPECT_VIDEO_TAG_BODY
    then show ?thesis
      using safe parse_video_defined [OF wf _ n n, of E D] by (simp add: dispatch_block_def risky_block_def)
  next
    case FLV_PARSER_EXPECT_SCRIPT_DATA_TAG_BODY
    obtain r p rd where rd: "flv_parser_read_script_data_tag ?n (fd_parser f) blank_reader = (r, p, rd)"
        "r = FLV_PARSER_OK \<longrightarrow> rd_end rd \<le> length data"
      using flv_parser_read_script_data_tag_safe [OF wf, of ?n blank_reader] len by auto
    have "handle_script_data D data rd md g \<noteq> None" if ok: "r = FLV_PARSER_OK" and md: "fd_metadata f = Some md" for md g
    proof -
      obtain ks where "md_keyframes md = Some ks"
        using md safe FLV_PARSER_EXPECT_SCRIPT_DATA_TAG_BODY by (auto simp: risky_block_def)
      then show ?thesis using rd(2) ok by (intro handle_script_data_defined) simp_all
    qed
    then show ?thesis
      using FLV_PARSER_EXPECT_SCRIPT_DATA_TAG_BODY rd(1)
      by (auto simp: dispatch_block_def Let_def split: option.split)
  qed (auto simp: dispatch_block_def Let_def split: prod.split)
  then show ?thesis by (auto simp: flv_demux_parse_next_block_def)
qed

section \<open>The chain function\<close>

text \<open>The iterations of the loop of the chain function.\<close>

inductive chain_reach :: "GstEnv \<Rightarrow> dops \<Rightarrow> FlvPush \<Rightarrow> FlvPush \<Rightarrow> bool" for E D where
  here: "chain_reach E D s s"
| block: "unat n \<le> length (adapter s) \<Longrightarrow> n = next_block_size (fd_parser (filter_of s)) \<Longrightarrow>
    flv_demux_parse_next_block E D (take (unat n) (adapter s)) n (filter_of s) = Some (GST_FLOW_OK, f) \<Longrightarrow>
    chain_reach E D \<lparr>adapter = drop (unat n) (adapter s), filter_of = f\<rparr> t \<Longrightarrow> chain_reach E D s t"

definition drained :: "FlvPush \<Rightarrow> FlvPush \<Rightarrow> bool" where
  "drained s s' \<longleftrightarrow> length (adapter s') < unat (next_block_size (fd_parser (filter_of s'))) \<and> in_step (fd_parser (filter_of s')) \<and>
     (\<exists>k \<le> length (adapter s). adapter s' = drop k (adapter s) \<and>
        file_position (fd_parser (filter_of s')) = file_position (fd_parser (filter_of s)) + of_nat k)"

lemma chain_loop_unfold:
  assumes "in_step (fd_parser (filter_of s))"
  defines "n \<equiv> next_block_size (fd_parser (filter_of s))"
  shows "flv_demux_chain_loop E D r s =
    (if length (adapter s) < unat n then Some (r, s)
     else case flv_demux_parse_next_block E D (take (unat n) (adapter s)) n (filter_of s) of
       None \<Rightarrow> None
     | Some (res, f) \<Rightarrow> (let s1 = \<lparr>adapter = drop (unat n) (adapter s), filter_of = f\<rparr> in
         if res \<noteq> GST_FLOW_OK then Some (res, s1) else flv_demux_chain_loop E D res s1))"
proof -
  note sz = in_step_size [OF assms(1), folded n_def]
  have "gst_adapter_peek (unat n) (adapter s) = Some (take (unat n) (adapter s))" if "\<not> length (adapter s) < unat n"
    using that sz(1) by (simp add: gst_adapter_peek_def)
  then show ?thesis
    by (subst flv_demux_chain_loop.simps)
      (simp add: Let_def n_def [symmetric] sz(2) split: option.split)
qed

lemma in_step_block:
  assumes "in_step (fd_parser f)" "flv_demux_parse_next_block E D data (next_block_size (fd_parser f)) f = Some (GST_FLOW_OK, g)"
  shows "in_step (fd_parser g)" "file_position (fd_parser g) = file_position (fd_parser f) + next_block_size (fd_parser f)"
  using parse_next_block_parser [OF assms(2)] assms(1) parser_after_in_step by (auto simp: block_parser_def)

lemma drained_step:
  assumes "drained \<lparr>adapter = drop (unat n) (adapter s), filter_of = f\<rparr> s'" "unat (n :: gsize) \<le> length (adapter s)"
    "file_position (fd_parser f) = file_position (fd_parser (filter_of s)) + n"
  shows "drained s s'"
proof -
  obtain k where k: "k \<le> length (adapter s) - unat n" "adapter s' = drop (k + unat n) (adapter s)"
      "file_position (fd_parser (filter_of s')) = file_position (fd_parser f) + of_nat k"
    using assms(1) by (auto simp: drained_def)
  moreover have "k + unat n \<le> length (adapter s)" using k(1) assms(2) by linarith
  moreover from k(3) have "file_position (fd_parser (filter_of s')) =
      file_position (fd_parser (filter_of s)) + of_nat (k + unat n)"
    using assms(3) by (simp add: algebra_simps)
  ultimately show ?thesis using assms(1) by (auto simp: drained_def)
qed

lemma chain_loop_drains:
  assumes "in_step (fd_parser (filter_of s))" "flv_demux_chain_loop E D GST_FLOW_OK s = Some (GST_FLOW_OK, s')"
  shows "drained s s'"
  using assms
proof (induction "length (adapter s)" arbitrary: s rule: less_induct)
  case less
  let ?n = "next_block_size (fd_parser (filter_of s))"
  note unfolded = chain_loop_unfold [OF less.prems(1), of E D GST_FLOW_OK]
  show ?case
  proof (cases "length (adapter s) < unat ?n")
    case True
    with unfolded less.prems have "s' = s" by simp
    with True less.prems(1) show ?thesis by (auto simp: drained_def intro!: exI [of _ 0])
  next
    case False
    obtain f where f: "flv_demux_parse_next_block E D (take (unat ?n) (adapter s)) ?n (filter_of s) = Some (GST_FLOW_OK, f)"
        "flv_demux_chain_loop E D GST_FLOW_OK \<lparr>adapter = drop (unat ?n) (adapter s), filter_of = f\<rparr> = Some (GST_FLOW_OK, s')"
      using unfolded less.prems(2) False by (auto simp: Let_def split: option.splits if_splits)
    note step = in_step_block [OF less.prems(1) f(1)]
    have "drained \<lparr>adapter = drop (unat ?n) (adapter s), filter_of = f\<rparr> s'"
    proof (rule less.hyps [OF _ _ f(2)])
      show "length (adapter \<lparr>adapter = drop (unat ?n) (adapter s), filter_of = f\<rparr>) < length (adapter s)"
        using in_step_size(1) [OF less.prems(1)] False by auto
    qed (use step(1) in simp)
    then show ?thesis using drained_step [of ?n s f s'] step(2) False by (simp add: not_less)
  qed
qed

text \<open>A block whose handling has no defined result; \<open>risky_block_only\<close> below says which ones can be.\<close>

definition undefined_block :: "GstEnv \<Rightarrow> dops \<Rightarrow> FlvPush \<Rightarrow> bool" where
  "undefined_block E D s \<longleftrightarrow> (let n = next_block_size (fd_parser (filter_of s)) in
     unat n \<le> length (adapter s) \<and>
     flv_demux_parse_next_block E D (take (unat n) (adapter s)) n (filter_of s) = None)"

lemma risky_block_only:
  assumes "in_step (fd_parser (filter_of s))" "undefined_block E D s"
  shows "risky_block (filter_of s)"
  using assms parse_next_block_defined [of "filter_of s" "take (unat (next_block_size (fd_parser (filter_of s)))) (adapter s)" E D]
  by (auto simp: undefined_block_def Let_def in_step_def simp del: flv_parser_wf.simps)

lemma chain_reach_in_step:
  assumes "chain_reach E D s t" "in_step (fd_parser (filter_of s))"
  shows "in_step (fd_parser (filter_of t))"
  using assms by (induction rule: chain_reach.induct) (simp_all add: in_step_block(1))

lemma chain_loop_undefined:
  assumes "chain_reach E D s t" "in_step (fd_parser (filter_of s))" "undefined_block E D t"
  shows "flv_demux_chain_loop E D GST_FLOW_OK s = None"
  using assms
proof (induction rule: chain_reach.induct)
  case (here s)
  then show ?case by (simp add: chain_loop_unfold undefined_block_def Let_def)
next
  case (block n s f t)
  then have "in_step (fd_parser f)" using in_step_block(1) by blast
  with block show ?case by (simp add: chain_loop_unfold Let_def)
qed

lemma chain_loop_returns:
  assumes "in_step (fd_parser (filter_of s))"
  shows "flv_demux_chain_loop E D GST_FLOW_OK s \<noteq> None \<or> (\<exists>t. chain_reach E D s t \<and> undefined_block E D t)"
  using assms
proof (induction "length (adapter s)" arbitrary: s rule: less_induct)
  case less
  let ?n = "next_block_size (fd_parser (filter_of s))"
  note unfolded = chain_loop_unfold [OF less.prems, of E D GST_FLOW_OK]
  show ?case
  proof (cases "length (adapter s) < unat ?n \<or> undefined_block E D s")
    case True
    then show ?thesis using unfolded chain_reach.here by auto
  next
    case False
    then obtain res f where f: "flv_demux_parse_next_block E D (take (unat ?n) (adapter s)) ?n (filter_of s) = Some (res, f)"
      by (auto simp: undefined_block_def Let_def not_less)
    let ?s1 = "\<lparr>adapter = drop (unat ?n) (adapter s), filter_of = f\<rparr>"
    show ?thesis
    proof (cases "res = GST_FLOW_OK")
      case True
      have "flv_demux_chain_loop E D GST_FLOW_OK ?s1 \<noteq> None \<or> (\<exists>t. chain_reach E D ?s1 t \<and> undefined_block E D t)"
      proof (rule less.hyps)
        show "length (adapter ?s1) < length (adapter s)"
          using in_step_size(1) [OF less.prems] False by simp linarith
        show "in_step (fd_parser (filter_of ?s1))"
          using in_step_block(1) [OF less.prems] f True by simp
      qed
      moreover have "chain_reach E D s t" if "chain_reach E D ?s1 t" for t
        using chain_reach.block [of ?n s E D f t] False f True that by simp
      ultimately show ?thesis using unfolded f True False by (auto simp: Let_def)
    qed (use unfolded f False in \<open>auto simp: Let_def\<close>)
  qed
qed

lemma chain_loop_returns_iff:
  assumes "in_step (fd_parser (filter_of s))"
  shows "flv_demux_chain_loop E D GST_FLOW_OK s = None \<longleftrightarrow>
    (\<exists>t. chain_reach E D s t \<and> risky_block (filter_of t) \<and> undefined_block E D t)"
  using chain_loop_returns [OF assms] chain_loop_undefined [OF _ assms] risky_block_only chain_reach_in_step [OF _ assms]
  by blast

definition chain_start :: "byte list \<Rightarrow> guint64 \<Rightarrow> FlvPush \<Rightarrow> FlvPush" where
  "chain_start buf offset s = (let s = chain_flush offset s in s\<lparr>adapter := adapter s @ buf\<rparr>)"

lemma chain_eq: "flv_demux_chain E D buf offset s = flv_demux_chain_loop E D GST_FLOW_OK (chain_start buf offset s)"
  by (simp add: flv_demux_chain_def chain_start_def Let_def)

lemma chain_start_in_step: "in_step (fd_parser (filter_of s)) \<Longrightarrow> in_step (fd_parser (filter_of (chain_start buf offset s)))"
  by (simp add: chain_start_def chain_flush_def Let_def in_step_start)


definition wit_env_gst :: GstEnv where
  "wit_env_gst = \<lparr>answers_bool = (\<lambda>_. True), answers_flow = (\<lambda>_. GST_FLOW_OK), answers_pull = (\<lambda>_. (GST_FLOW_OK, []))\<rparr>"

definition wit_demux :: FlvDemux where
  "wit_demux = flv_demux_init \<lparr>fd_parser = wit_parser, is_pulling = False, need_parser_flush = False, has_video = False,
     has_audio = False, fd_metadata = None, queued_tags = None, last_file_position = 0, current_timestamp = 0,
     fd_keyframes = [], copied_metadata_keyframes = False, fd_segment = gst_segment_init, is_flushing = False,
     audio_src_pad = False, video_src_pad = False, fd_sound_format = 0, audio_linked = False, audio_offset = 0,
     audio_discont = False, audio_prev_timestamp = 0, audio_frame_duration = 0, video_codec_id = 0,
     video_linked = False, video_offset = 0, video_discont = False, video_prev_timestamp = 0,
     video_frame_duration = 0, fd_trace = []\<rparr>"

definition wit_stream :: "byte list" where
  "wit_stream = wit_flv_bytes @ [0, 0, 0, 0] @ [8,  0, 0, 8,  0, 0, 0, 0,  0, 0, 0] @ [0x2F, 1, 2, 3, 4, 5, 6, 7, 0, 0, 0, 19] @ [9, 0]"

lemma wit_demux_in_step: "in_step (fd_parser wit_demux)"
  unfolding wit_demux_def flv_demux_init_def by (simp add: in_step_start)

definition wit_entries :: "FlvKeyframe list" where
  "wit_entries = [\<lparr>kf_time = 9000000, kf_fileposition = 900\<rparr>, \<lparr>kf_time = 4000000, kf_fileposition = 400\<rparr>,
     \<lparr>kf_time = 9000000, kf_fileposition = 901\<rparr>]"

theorem flv_demux_index_correct_witness:
  "index_wf (fd_keyframes (add_entries wit_entries (flv_demux_init wit_demux))) \<and>
   flv_demux_index_lookup 7000000 (fd_keyframes (add_entries wit_entries (flv_demux_init wit_demux))) =
     Some (Some \<lparr>kf_time = 4000000, kf_fileposition = 400\<rparr>)"
proof
  show "index_wf (fd_keyframes (add_entries wit_entries (flv_demux_init wit_demux)))"
    using flv_demux_index_correct [of wit_entries wit_demux 7000000] by (simp add: Let_def)
qed code_simp

abbreviation wit_push :: FlvPush where
  "wit_push \<equiv> \<lparr>adapter = [], filter_of = wit_demux\<rparr>"


section \<open>Buffers of any size\<close>

lemma take_append_long: "n \<le> length a \<Longrightarrow> take n (a @ b) = take n a"
  by simp

lemma chain_loop_append:
  assumes "flv_demux_chain_loop E D r s = Some y"
  shows "fst y = GST_FLOW_OK \<longrightarrow>
    flv_demux_chain_loop E D r (s\<lparr>adapter := adapter s @ b\<rparr>) =
      flv_demux_chain_loop E D (fst y) ((snd y)\<lparr>adapter := adapter (snd y) @ b\<rparr>) \<and>
    need_parser_flush (filter_of (snd y)) = need_parser_flush (filter_of s)"
  using assms
proof (induction E D r s y rule: flv_demux_chain_loop.raw_induct [rotated, consumes 1, case_names step])
  case (step rec E D r s y)
  let ?n = "next_block_size (fd_parser (filter_of s))" and ?sb = "s\<lparr>adapter := adapter s @ b\<rparr>"
  define n where "n = unat (ucast ?n :: guint)"
  have nle: "n \<le> unat ?n"
    by (simp add: n_def unsigned_ucast_eq take_bit_nat_less_eq_self)
  show ?case
  proof (cases "length (adapter s) < unat ?n")
    case True
    with step.hyps have "y = (r, s)" by (simp add: Let_def)
    then show ?thesis by auto
  next
    case long: False
    show ?thesis
    proof (cases "n = 0")
      case True
      then have "rec E D r s = Some y" using step.hyps long by (simp add: Let_def n_def [symmetric] gst_adapter_peek_def)
      then show ?thesis by (rule step.IH)
    next
      case False
      have peek: "gst_adapter_peek n (adapter s) = Some (take n (adapter s))"
          "gst_adapter_peek n (adapter ?sb) = Some (take n (adapter s))"
        using False long nle by (simp_all add: gst_adapter_peek_def)
      obtain res f where f: "flv_demux_parse_next_block E D (take n (adapter s)) ?n (filter_of s) = Some (res, f)"
        using step.hyps long peek(1) by (auto simp: Let_def n_def [symmetric] bind_eq_Some_conv)
      define s1 where "s1 = \<lparr>adapter = drop n (adapter s), filter_of = f\<rparr>"
      have y: "(if res \<noteq> GST_FLOW_OK then Some (res, s1) else rec E D res s1) = Some y"
        using step.hyps long peek(1) f by (auto simp: Let_def n_def [symmetric] s1_def)
      have "s1\<lparr>adapter := adapter s1 @ b\<rparr> = \<lparr>adapter = drop n (adapter ?sb), filter_of = f\<rparr>"
        using long nle by (simp add: s1_def)
      then have loop: "flv_demux_chain_loop E D r ?sb =
          (if res \<noteq> GST_FLOW_OK then Some (res, s1\<lparr>adapter := adapter s1 @ b\<rparr>)
           else flv_demux_chain_loop E D res (s1\<lparr>adapter := adapter s1 @ b\<rparr>))"
        using long peek(2) f by (subst flv_demux_chain_loop.simps) (simp add: Let_def n_def [symmetric])
      have "need_parser_flush f = need_parser_flush (filter_of s)"
        using parse_next_block_parser [OF f] by (simp add: block_parser_def)
      with y loop step.IH [of E D res s1 y] show ?thesis
        by (cases "res = GST_FLOW_OK") (auto simp: s1_def)
    qed
  qed
qed

text \<open>C6: the demuxer does not depend on how the upstream element cuts the stream into buffers: a call of the
  chain function with a first piece that succeeds, followed by a call with a second piece, has the
  same result, sends the same buffers, events and messages to the pads in the same order, and ends
  in the same state as one call with the two pieces together.\<close>

theorem flv_demux_chain_split:
  assumes "flv_demux_chain E D b1 offset s = Some (GST_FLOW_OK, s1)"
  shows "flv_demux_chain E D b2 offset2 s1 = flv_demux_chain E D (b1 @ b2) offset s"
proof -
  let ?s = "chain_start b1 offset s"
  note app = chain_loop_append [OF assms [unfolded chain_eq], of b2, simplified]
  have "need_parser_flush (filter_of ?s) = False"
    by (simp add: chain_start_def chain_flush_def Let_def)
  with app have "chain_start b2 offset2 s1 = s1\<lparr>adapter := adapter s1 @ b2\<rparr>"
    by (simp add: chain_start_def chain_flush_def Let_def)
  moreover have "chain_start (b1 @ b2) offset s = ?s\<lparr>adapter := adapter ?s @ b2\<rparr>"
    by (simp add: chain_start_def Let_def)
  ultimately show ?thesis unfolding chain_eq using app by simp
qed

definition wit_middle :: FlvPush where
  "wit_middle = snd (the (flv_demux_chain wit_env_gst wit_dops (take 20 wit_stream) 0 wit_push))"

theorem flv_demux_chain_split_witness:
  "flv_demux_chain wit_env_gst wit_dops (take 20 wit_stream) 0 wit_push = Some (GST_FLOW_OK, wit_middle) \<and>
   flv_demux_chain wit_env_gst wit_dops (drop 20 wit_stream) 20 wit_middle =
     flv_demux_chain wit_env_gst wit_dops wit_stream 0 wit_push"
proof -
  have "map_option fst (flv_demux_chain wit_env_gst wit_dops (take 20 wit_stream) 0 wit_push) = Some 0"
    by code_simp
  then have first: "flv_demux_chain wit_env_gst wit_dops (take 20 wit_stream) 0 wit_push = Some (GST_FLOW_OK, wit_middle)"
    by (auto simp: wit_middle_def)
  then show ?thesis
    using flv_demux_chain_split [OF first, of "drop 20 wit_stream" 20] by simp
qed

section \<open>Seeking in pull mode\<close>

lemma index_insert_mono: "set ks \<subseteq> set (index_insert k ks)"
  by (auto simp: index_insert_def)

lemma emit_keyframes [simp]: "fd_keyframes (emit a f) = fd_keyframes f" "has_video (emit a f) = has_video f"
    "fd_segment (emit a f) = fd_segment f"
  by (simp_all add: emit_def)

lemma ask_pull_simp: "ask_pull E a f =
    (fst (answers_pull E (fd_trace f @ [a])), snd (answers_pull E (fd_trace f @ [a])), emit a f)"
  by (rule ask_pull_def)

text \<open>indexing in pull mode needs an entry to start from: when the search for the start time finds
  none, the fresh parser still expects the file header, so that the first tag is refused, or the
  loop is not even entered, depending on a variable that was never assigned. Not one entry is
  added to the index, whatever the file contains.\<close>

lemma flv_demux_do_indexing_pull_no_start:
  assumes "flv_demux_index_lookup from (fd_keyframes f) = Some None"
  shows "\<exists>g. flv_demux_do_indexing_pull E junk jp from to f = Some (\<not> junk < to, g) \<and> fd_keyframes g = fd_keyframes f"
  using assms
  by (simp add: flv_demux_do_indexing_pull_def indexing_loop.simps ask_pull_simp Let_def
      flv_parser_read_tag_prefix_def flv_parser_init_def)

lemma flv_demux_do_indexing_pull_no_start_witness:
  "\<exists>g. flv_demux_do_indexing_pull wit_env_gst 0 wit_parser 0 5 wit_demux = Some (False, g) \<and> fd_keyframes g = []"
proof -
  have "fd_keyframes wit_demux = []" by (simp add: wit_demux_def flv_demux_init_def)
  moreover from this have "flv_demux_index_lookup 0 (fd_keyframes wit_demux) = Some None"
    by (simp add: flv_demux_index_lookup_def)
  ultimately show ?thesis
    using flv_demux_do_indexing_pull_no_start [of 0 wit_demux wit_env_gst 0 wit_parser 5] by simp
qed

text \<open>The index only grows, and stays sorted.\<close>

definition index_grows :: "FlvDemux \<Rightarrow> FlvDemux \<Rightarrow> bool" where
  "index_grows f g \<longleftrightarrow> set (fd_keyframes f) \<subseteq> set (fd_keyframes g) \<and> (index_wf (fd_keyframes f) \<longrightarrow> index_wf (fd_keyframes g))"

lemma index_grows_basic [simp]: "index_grows f f" "index_grows f (emit a f)"
    "index_grows f (flv_demux_index_add_entry t pos f)" "index_grows f (flv_demux_index_add_entry t pos (emit a f))"
  using index_insert_mono index_insert_wf
  by (simp_all add: index_grows_def flv_demux_index_add_entry_def)

lemma index_grows_trans: "index_grows f g \<Longrightarrow> index_grows g h \<Longrightarrow> index_grows f h"
  by (auto simp: index_grows_def)

text \<open>A source that serves ranges of one file: an answer \<^verbatim>\<open>GST_FLOW_OK\<close> carries all the bytes that were
  asked for, as \<^verbatim>\<open>progress_buffer_getrange\<close> (\<^verbatim>\<open>progressbuffer.c:1040\<close>) and \<^verbatim>\<open>cache_read_buffer_from_position\<close>
  (\<^verbatim>\<open>filecache.c:143\<close>) do; any request may fail, and one that reaches behind the end of the file does.\<close>

definition serves :: "GstEnv \<Rightarrow> byte list \<Rightarrow> bool" where
  "serves E file \<longleftrightarrow> (\<forall>tr pos n b. answers_pull E (tr @ [PullRange pos n]) = (GST_FLOW_OK, b) \<longrightarrow>
     unat pos + unat n \<le> length file \<and> b = take (unat n) (drop (unat pos) file))"

text \<open>An entry that indexing may add: the file has a tag at its position, a video tag with a key frame, or an
  audio tag when there is no video, and the time of the entry is the time stamp of this tag.\<close>

definition indexed_tag :: "byte list \<Rightarrow> bool \<Rightarrow> FlvKeyframe \<Rightarrow> bool" where
  "indexed_tag file video e \<longleftrightarrow> (let pos = unat (kf_fileposition e) in
     pos + 11 < length file \<and>
     (\<exists>ts. FLV_READ_TS32 file (int pos + 4) = Some ts \<and> kf_time e = clock_of_timestamp ts) \<and>
     (file ! pos = FLV_TAG_TYPE_VIDEO \<and> drop_bit 4 (file ! (pos + 11) AND 0xF0) = 1 \<or>
      file ! pos = FLV_TAG_TYPE_AUDIO \<and> \<not> video))"

lemma load_take_drop:
  assumes "0 \<le> i" "i < int n"
  shows "load (take n (drop p xs)) i = load xs (int p + i)"
proof -
  have "nat (int p + i) = p + nat i" using assms(1) by simp
  then show ?thesis using assms by (auto simp: load_def)
qed

lemma FLV_READ_TS32_take:
  "i + 4 \<le> n \<Longrightarrow> FLV_READ_TS32 (take n (drop p xs)) (int i) = FLV_READ_TS32 xs (int p + int i)"
  by (simp add: FLV_READ_TS32_def GST_READ_UINT16_BE_def load_take_drop add.assoc)

lemma read_tag_prefix_file:
  assumes "pos + 12 \<le> length file" "file_position p = of_nat pos" "fp_state p = FLV_PARSER_EXPECT_TAG_PREFIX"
  obtains res q t where "flv_parser_read_tag_prefix (take 12 (drop pos file)) 12 p blank_prefix = Some (res, q, t)"
    "res = FLV_PARSER_OK \<longrightarrow> parsed_block_size q = 11 \<and> tag_type t = file ! pos \<and>
       FLV_READ_TS32 file (int pos + 4) = Some (timestamp t) \<and> file_position q = of_nat (pos + 11) \<and>
       (\<exists>n < 2 ^ 24 + 4. next_block_size q = of_nat n)"
proof -
  let ?b = "take 12 (drop pos file)"
  obtain res q t where r: "flv_parser_read_tag_prefix ?b 12 p blank_prefix = Some (res, q, t)"
    using flv_parser_read_tag_prefix_safe [of 12 ?b p blank_prefix] assms(1) by auto
  have b0: "load ?b 0 = Some (file ! pos)" using assms(1) by (simp add: load_take_drop) (simp add: load_def)
  have ts: "FLV_READ_TS32 ?b 4 = FLV_READ_TS32 file (int pos + 4)" using FLV_READ_TS32_take [of 4 12 pos "file"] by simp
  have body: "\<exists>n < 2 ^ 24 + 4. (ucast w + 4 :: gsize) = of_nat n" if "FLV_READ_UINT24_BE ?b 1 = Some w" for w
    using FLV_READ_UINT24_BE_range [OF that] by (intro exI [of _ "unat w + 4"]) simp
  show thesis
  proof (rule that [OF r], rule impI)
    assume "res = FLV_PARSER_OK"
    then show "parsed_block_size q = 11 \<and> tag_type t = file ! pos \<and> FLV_READ_TS32 file (int pos + 4) = Some (timestamp t) \<and>
        file_position q = of_nat (pos + 11) \<and> (\<exists>n < 2 ^ 24 + 4. next_block_size q = of_nat n)"
      using r b0 ts body assms(2,3)
      by (auto simp: flv_parser_read_tag_prefix_def parser_advance_def bind_eq_Some_conv Let_def split: if_splits)
  qed
qed

text \<open>What indexing does to the index of the demuxer when the file is \<open>file\<close>.\<close>

definition indexed_more :: "byte list \<Rightarrow> FlvDemux \<Rightarrow> FlvDemux \<Rightarrow> bool" where
  "indexed_more file f g \<longleftrightarrow> index_grows f g \<and> has_video g = has_video f \<and>
     (\<forall>e \<in> set (fd_keyframes g) - set (fd_keyframes f). indexed_tag file (has_video f) e)"

lemma indexed_more_trans: "indexed_more file f g \<Longrightarrow> indexed_more file g h \<Longrightarrow> indexed_more file f h"
  by (auto simp: indexed_more_def intro: index_grows_trans)

lemma indexed_more_basic [simp]: "indexed_more file f f" "indexed_more file f (emit a f)"
  by (auto simp: indexed_more_def emit_def index_grows_def)

lemma indexed_more_add:
  assumes "indexed_tag file (has_video f) \<lparr>kf_time = t, kf_fileposition = pos\<rparr>"
  shows "indexed_more file f (flv_demux_index_add_entry t pos (emit a f))"
proof -
  have "set (fd_keyframes (flv_demux_index_add_entry t pos (emit a f))) \<subseteq>
      insert \<lparr>kf_time = t, kf_fileposition = pos\<rparr> (set (fd_keyframes f))"
    using index_insert_subset [of "\<lparr>kf_time = t, kf_fileposition = pos\<rparr>" "fd_keyframes f"]
    by (simp add: flv_demux_index_add_entry_def)
  moreover have "has_video (flv_demux_index_add_entry t pos (emit a f)) = has_video f"
    by (simp add: flv_demux_index_add_entry_def emit_def)
  ultimately show ?thesis using assms by (auto simp: indexed_more_def)
qed

lemma indexing_loop_file:
  assumes "serves E file" "length file < 2 ^ 63" "fp_state p = FLV_PARSER_EXPECT_TAG_PREFIX" "next_block_size p = 11"
  shows "\<exists>b g. indexing_loop E to p time f = Some (b, g) \<and> indexed_more file f g"
  using assms(3,4)
proof (induction "length file - unat (file_position p)" arbitrary: p time f rule: less_induct)
  case less
  let ?pos = "unat (file_position p)" and ?a = "PullRange (file_position p) 12"
  obtain flow block where pull: "answers_pull E (fd_trace f @ [?a]) = (flow, block)" by fastforce
  show ?case
  proof (cases "time < to \<and> flow = GST_FLOW_OK")
    case True
    then have block: "?pos + 12 \<le> length file" "block = take 12 (drop ?pos file)"
      using assms(1) [unfolded serves_def, rule_format, of "fd_trace f" "file_position p" 12 block] pull by simp_all
    obtain res q t where r: "flv_parser_read_tag_prefix block 12 p blank_prefix = Some (res, q, t)" and
      ok: "res = FLV_PARSER_OK \<longrightarrow> parsed_block_size q = 11 \<and> tag_type t = file ! ?pos \<and>
        FLV_READ_TS32 file (int ?pos + 4) = Some (timestamp t) \<and> file_position q = of_nat (?pos + 11) \<and>
        (\<exists>n < 2 ^ 24 + 4. next_block_size q = of_nat n)"
      using read_tag_prefix_file [OF block(1) _ less.prems(1)] block(2) by auto
    show ?thesis
    proof (cases "res = FLV_PARSER_OK")
      case False
      with True pull r block show ?thesis
        by (subst indexing_loop.simps) (auto simp: ask_pull_simp Let_def less.prems(2))
    next
      case k: True
      let ?t = "clock_of_timestamp (timestamp t)" and ?q = "flv_parser_seek (file_position q + next_block_size q) q"
      obtain n where n: "n < 2 ^ 24 + 4" "next_block_size q = of_nat n" using ok k by blast
      have pos: "unat (file_position ?q) = ?pos + 11 + n"
      proof -
        have "file_position ?q = of_nat (?pos + 11 + n)" using ok k n(2) by (simp add: flv_parser_seek_def)
        moreover have "?pos + 11 + n < 2 ^ 64" using block(1) assms(2) n(1) by simp
        ultimately show ?thesis by (simp add: unsigned_of_nat take_bit_nat_eq_self del: of_nat_add)
      qed
      define frame where "frame = file ! (?pos + 11)"
      have frame: "load block 11 = Some frame"
        using block by (simp add: load_def frame_def add.commute)
      define add where "add \<longleftrightarrow> (if tag_type t = FLV_TAG_TYPE_VIDEO then drop_bit 4 (frame AND 0xF0) = 1
        else tag_type t = FLV_TAG_TYPE_AUDIO \<and> \<not> has_video f)"
      define g where "g = (if add then flv_demux_index_add_entry ?t (file_position p) (emit ?a f) else emit ?a f)"
      have loop: "indexing_loop E to p time f = indexing_loop E to ?q ?t g"
        using True pull r block k ok frame
        by (subst indexing_loop.simps) (simp add: ask_pull_simp Let_def less.prems(2) g_def add_def)
      have "indexed_tag file (has_video f) \<lparr>kf_time = ?t, kf_fileposition = file_position p\<rparr>" if add
        using that ok k block(1) by (auto simp: indexed_tag_def add_def frame_def split: if_splits)
      then have g: "indexed_more file f g" by (simp add: g_def indexed_more_add)
      have "\<exists>b h. indexing_loop E to ?q ?t g = Some (b, h) \<and> indexed_more file g h"
        using pos block(1) by (intro less.hyps) (simp_all add: flv_parser_seek_def)
      then show ?thesis using loop g indexed_more_trans by metis
    qed
  next
    case False
    with pull show ?thesis by (subst indexing_loop.simps) (auto simp: ask_pull_simp Let_def less.prems(2))
  qed
qed

text \<open>The position a seek to time \<open>t\<close> should lead to: the last entry that is not after \<open>t\<close>, if the index
  reaches from before \<open>t\<close> to after \<open>t\<close>, and \<open>d\<close> otherwise.\<close>

definition seek_choice :: "GstClockTime \<Rightarrow> FlvKeyframe list \<Rightarrow> GstClockTime \<times> guint64 \<Rightarrow> GstClockTime \<times> guint64" where
  "seek_choice t ks d =
     (if (\<exists>x \<in> set ks. kf_time x \<le> t) \<and> (\<exists>x \<in> set ks. t \<le> kf_time x)
      then let e = last (filter (\<lambda>x. kf_time x \<le> t) ks) in (kf_time e, kf_fileposition e)
      else d)"

lemma index_wf_time_inj: "index_wf ks \<Longrightarrow> x \<in> set ks \<Longrightarrow> y \<in> set ks \<Longrightarrow> kf_time x = kf_time y \<Longrightarrow> x = y"
  by (induction ks) (auto simp: index_wf_def)

lemma index_wf_last_filter:
  assumes "index_wf ks" "e \<in> set ks" "kf_time e \<le> t" "\<forall>x \<in> set ks. kf_time x \<le> t \<longrightarrow> kf_time x \<le> kf_time e"
  shows "last (filter (\<lambda>x. kf_time x \<le> t) ks) = e"
proof -
  let ?l = "filter (\<lambda>x. kf_time x \<le> t) ks"
  have e: "e \<in> set ?l" using assms(2,3) by simp
  then have l: "last ?l \<in> set ?l" by (intro last_in_set) (metis list.distinct(1) list.set_cases)
  have "kf_time e \<le> kf_time (last ?l)"
    using index_wf_hd_last(2) [OF _ e] assms(1) by (simp add: index_wf_def sorted_wrt_filter)
  then have "kf_time (last ?l) = kf_time e" using l assms(4) by (simp add: order_antisym)
  then show ?thesis using index_wf_time_inj [OF assms(1)] l assms(2) by auto
qed

lemma seek_target_choice: "index_wf ks \<Longrightarrow> seek_target t ks d = Some (seek_choice t ks d)"
  using index_lookup_correct [of ks t]
  by (force simp: seek_target_def seek_choice_def Let_def index_wf_last_filter not_le [symmetric] split: option.splits)

lemma seek_choice_default: "seek_choice t ks (seek_choice t ks d) = seek_choice t ks d"
  by (simp add: seek_choice_def)

lemma push_src_event_fields [simp]: "fd_keyframes (snd (flv_demux_push_src_event ev f)) = fd_keyframes f"
    "fd_parser (snd (flv_demux_push_src_event ev f)) = fd_parser f"
    "fd_segment (snd (flv_demux_push_src_event ev f)) = fd_segment f"
    "has_video (snd (flv_demux_push_src_event ev f)) = has_video f"
  by (simp_all add: flv_demux_push_src_event_def Let_def emit_def)

lemma take_segment_fields [simp]: "fd_keyframes (take_segment s f) = fd_keyframes f" "fd_parser (take_segment s f) = fd_parser f"
    "fd_segment (take_segment s f) = s"
  by (simp_all add: take_segment_def Let_def emit_def)

lemma do_indexing_pull_file:
  assumes "serves E file" "length file < 2 ^ 63" "index_wf (fd_keyframes f)"
  shows "\<exists>b g. flv_demux_do_indexing_pull E junk jp from to f = Some (b, g) \<and> indexed_more file f g"
proof (cases "flv_demux_index_lookup from (fd_keyframes f)")
  case None
  then show ?thesis using index_lookup_correct [OF assms(3), of "from"] by simp
next
  case (Some found)
  show ?thesis
  proof (cases found)
    case None
    with Some show ?thesis
      by (simp add: flv_demux_do_indexing_pull_def indexing_loop.simps ask_pull_simp Let_def
          flv_parser_read_tag_prefix_def flv_parser_init_def) blast
  next
    case (Some e)
    with \<open>flv_demux_index_lookup from (fd_keyframes f) = Some found\<close> show ?thesis
      using indexing_loop_file [OF assms(1,2)] by (simp add: flv_demux_do_indexing_pull_def flv_parser_seek_def)
  qed
qed

text \<open>The choice of a seek: from the index as it is, and again from the grown index when the file was
  indexed.\<close>

definition seek_result :: "GstClockTime \<Rightarrow> FlvDemux \<Rightarrow> FlvDemux \<Rightarrow> GstClockTime \<times> guint64" where
  "seek_result start f g = seek_choice start (fd_keyframes g) (seek_choice start (fd_keyframes f) (0, 0))"

definition seek_near :: "GstClockTime \<Rightarrow> FlvDemux \<Rightarrow> bool" where
  "seek_near start f \<longleftrightarrow> start - fst (seek_choice start (fd_keyframes f) (0, 0)) \<le> 5 * GST_SECOND"

lemma seek_indexed_file:
  assumes "serves E file" "length file < 2 ^ 63" "index_wf (fd_keyframes f)"
  obtains g where "seek_indexed E junk jp start f = Some (fst (seek_result start f g), snd (seek_result start f g), g)"
    "indexed_more file f g" "seek_near start f \<Longrightarrow> fd_keyframes g = fd_keyframes f"
proof (cases "seek_near start f")
  case True
  then show thesis
    using that [of f] seek_target_choice [OF assms(3)]
    by (simp add: seek_indexed_def seek_result_def seek_near_def seek_choice_default not_less [symmetric] split_beta)
next
  case False
  obtain b g where g: "flv_demux_do_indexing_pull E junk jp (fst (seek_choice start (fd_keyframes f) (0, 0))) start f = Some (b, g)"
      "indexed_more file f g"
    using do_indexing_pull_file [OF assms] by blast
  moreover from g(2) assms(3) have "index_wf (fd_keyframes g)" by (simp add: indexed_more_def index_grows_def)
  ultimately show thesis
    using that [of g] False seek_target_choice [OF assms(3)] seek_target_choice [of "fd_keyframes g"]
    by (simp add: seek_indexed_def seek_result_def seek_near_def not_le split_beta)
qed

text \<open>The start of the segment a seek event asks for.\<close>

definition seek_start :: "SeekEvent \<Rightarrow> FlvDemux \<Rightarrow> GstClockTime" where
  "seek_start ev f = of_int (sg_start (se_update ev (fd_segment f)))"

text \<open>C10: over a source that serves the bytes of a file or refuses a request, with a sorted index, a flushing
  seek in pull mode always returns. An unsupported one (another format, or a rate that is not
  positive) changes nothing and reports failure. A supported one succeeds and leaves the parser in
  step at exactly the position of the last entry of the index that is not after the start time, or
  at the start of the file if the start time is before the first or after the last entry. If the
  chosen entry is at most five seconds before the start time (or, when there is none, the start time
  is at most five seconds), the index is unchanged; otherwise the file is indexed first and the choice is made again from the grown index (with the first choice kept
  if the grown index does not reach the start time either). The grown index is sorted, and every
  entry that was added is a key frame, or an audio tag when there is no video, which the file really
  has at the entry's position, with the entry's time as its time stamp. A key unit seek continues
  from the time of the chosen entry.\<close>

theorem flv_demux_seek_pull_position:
  assumes "index_wf (fd_keyframes f)" "se_flush ev" "serves E file" "length file < 2 ^ 63"
  shows "if se_format ev = GST_FORMAT_TIME \<and> se_forward ev
    then \<exists>g. flv_demux_seek_pull E junk jp ev f = Some (True, g) \<and> in_step (fd_parser g) \<and>
      file_position (fd_parser g) = snd (seek_result (seek_start ev f) f g) \<and>
      (se_keyframe ev \<longrightarrow> sg_last_stop (fd_segment g) = sint (fst (seek_result (seek_start ev f) f g))) \<and>
      index_wf (fd_keyframes g) \<and> set (fd_keyframes f) \<subseteq> set (fd_keyframes g) \<and>
      (\<forall>e \<in> set (fd_keyframes g) - set (fd_keyframes f). indexed_tag file (has_video f) e) \<and>
      (seek_near (seek_start ev f) f \<longrightarrow> fd_keyframes g = fd_keyframes f)
    else flv_demux_seek_pull E junk jp ev f = Some (False, f)"
proof (cases "se_format ev = GST_FORMAT_TIME \<and> se_forward ev")
  case False
  then show ?thesis by (auto simp: flv_demux_seek_pull_def)
next
  case True
  define f1 where "f1 = emit (PushEvent SinkPad FlushStop)
    (snd (flv_demux_push_src_event FlushStart (emit (PushEvent SinkPad FlushStart) f)))"
  have f1: "fd_keyframes f1 = fd_keyframes f" "fd_segment f1 = fd_segment f" "has_video f1 = has_video f"
    by (simp_all add: f1_def)
  define start where "start = seek_start ev f"
  obtain h where h: "seek_indexed E junk jp start f1 = Some (fst (seek_result start f h), snd (seek_result start f h), h)"
      "indexed_more file f1 h" "seek_near start f \<Longrightarrow> fd_keyframes h = fd_keyframes f"
    using seek_indexed_file [OF assms(3,4), of f1 junk jp start] assms(1) f1
    by (auto simp: seek_result_def seek_near_def)
  let ?t = "fst (seek_result start f h)" and ?pos = "snd (seek_result start f h)"
  define g where "g = emit StartTask (take_segment (seek_key_unit ev ?t (se_update ev (fd_segment f)))
    (snd (flv_demux_push_src_event FlushStop (seek_parser ?pos h))))"
  have "flv_demux_seek_pull E junk jp ev f = Some (True, g)"
    using True assms(2) h(1) f1(2)
    by (simp add: flv_demux_seek_pull_def f1_def [symmetric] start_def seek_start_def g_def Let_def)
  moreover have "fd_keyframes g = fd_keyframes h" "fd_parser g = fd_parser (seek_parser ?pos h)"
      "fd_segment g = seek_key_unit ev ?t (se_update ev (fd_segment f))"
    by (simp_all add: g_def seek_parser_def)
  moreover have "in_step (fd_parser (seek_parser ?pos h))" "file_position (fd_parser (seek_parser ?pos h)) = ?pos"
    using in_step_start by (auto simp: seek_parser_def flv_parser_seek_def flv_parser_reset_def)
  ultimately show ?thesis
    using True h(2,3) assms(1) f1
    by (auto simp: start_def seek_result_def seek_key_unit_def indexed_more_def index_grows_def)
qed

text \<open>A file with three key frames, at 0, 4 and 8 seconds, of which only the first is indexed.\<close>

definition wit_key_tag :: "byte \<Rightarrow> byte \<Rightarrow> byte list" where
  "wit_key_tag hi lo = [9,  0, 0, 2,  0, hi, lo, 0,  0, 0, 0,  0x14, 0,  0, 0, 0, 13]"

definition wit_file :: "byte list" where
  "wit_file = wit_flv_bytes @ [0, 0, 0, 0] @ wit_key_tag 0 0 @ wit_key_tag 0x0F 0xA0 @ wit_key_tag 0x1F 0x40"

definition wit_env_file :: GstEnv where
  "wit_env_file = \<lparr>answers_bool = (\<lambda>_. True), answers_flow = (\<lambda>_. GST_FLOW_OK),
     answers_pull = (\<lambda>tr. case last tr of
         PullRange pos n \<Rightarrow> (if unat pos + unat n \<le> length wit_file then (GST_FLOW_OK, take (unat n) (drop (unat pos) wit_file))
           else (GST_FLOW_UNEXPECTED, []))
       | _ \<Rightarrow> (GST_FLOW_ERROR, []))\<rparr>"

definition wit_seek :: SeekEvent where
  "wit_seek = \<lparr>se_forward = True, se_format = GST_FORMAT_TIME, se_flush = True, se_keyframe = True,
     se_update = (\<lambda>s. s\<lparr>sg_start := 7000000000, sg_last_stop := 7000000000\<rparr>)\<rparr>"

definition wit_indexed :: FlvDemux where
  "wit_indexed = add_entries [\<lparr>kf_time = 0, kf_fileposition = 13\<rparr>] wit_demux"

lemma wit_serves: "serves wit_env_file wit_file"
  by (auto simp: serves_def wit_env_file_def split: if_splits)

theorem flv_demux_seek_pull_position_witness:
  "\<exists>g. flv_demux_seek_pull wit_env_file 0 wit_parser wit_seek wit_indexed = Some (True, g) \<and> in_step (fd_parser g) \<and>
     file_position (fd_parser g) = 30 \<and> sg_last_stop (fd_segment g) = 4000000000"
proof -
  have "map_option (\<lambda>(ok, g). (ok, file_position (fd_parser g), sg_last_stop (fd_segment g)))
      (flv_demux_seek_pull wit_env_file 0 wit_parser wit_seek wit_indexed) = Some (True, 30, 4000000000)"
    by code_simp
  moreover have "index_wf (fd_keyframes wit_indexed)"
    by code_simp
  moreover have "length wit_file < 2 ^ 63"
    by (simp add: wit_file_def wit_key_tag_def wit_flv_bytes_def)
  ultimately show ?thesis
    using flv_demux_seek_pull_position [of wit_indexed wit_seek wit_env_file wit_file 0 wit_parser] wit_serves
    by (auto simp: wit_seek_def)
qed

end
