(* ===== verification/LensWindow.thy ===== *)
theory LensWindow
  imports Prelude
begin

text \<open>
  The windows of the Lens window system: the records of \<^verbatim>\<open>LensCommon.h\<close>, the state that
  \<^verbatim>\<open>LensWindow.c\<close> and \<^verbatim>\<open>LensWindowManager.c\<close> keep in static variables, and the doubly linked list of
  windows of \<^verbatim>\<open>LensWindow.c\<close>.

  Windows and views are objects on the C heap: \<open>windows\<close> and \<open>views\<close> are partial maps from addresses, and
  reading or writing an address that is not allocated (a \<open>NULL\<close> pointer, or a pointer to freed memory) is
  \<open>None\<close>. The list is linked by the fields of the windows themselves. The list operations are shown to
  implement operations on a list of addresses, ordered from back to front; the locale \<open>z_list\<close> is the
  contract that the window manager uses.
\<close>

section \<open>Data\<close>

type_synonym wid = nat
type_synonym vid = nat

datatype NativeWindowState = NWS_NORMAL | NWS_MINIMIZED | NWS_MAXIMIZED | NWS_FULLSCREEN

record LensBounds =
  lb_x :: jint
  lb_y :: jint
  lb_width :: jint
  lb_height :: jint

text \<open>
  The fields of \<^verbatim>\<open>struct _NativeWindow\<close> that are read somewhere in the window manager. The others (\<open>id\<close>,
  which only occurs in messages, \<open>screen\<close>, \<open>opacity\<close>, \<open>data\<close>, \<open>alpha\<close>, \<open>hideCursorInFulscreen\<close> and the
  reference to the Java object) are written and never read there.
\<close>

record NativeWindow =
  nw_owner :: "wid option"
  nw_creationMask :: jint
  nw_currentBounds :: LensBounds
  nw_cachedBounds :: LensBounds
  nw_processEvents :: bool
  nw_minWidth :: jint
  nw_maxWidth :: jint
  nw_minHeight :: jint
  nw_maxHeight :: jint
  nw_state :: NativeWindowState
  nw_previousWindow :: "wid option"
  nw_nextWindow :: "wid option"
  nw_view :: "vid option"
  nw_root :: "wid option"
  nw_isFocusable :: bool
  nw_isVisible :: bool
  nw_isEnabled :: bool

record NativeView =
  nv_lensView :: bool  \<comment> \<open>the reference to the Java object is not \<open>NULL\<close>\<close>
  nv_parent :: "wid option"

datatype WindowEventType = WE_RESIZE | WE_CLOSE | WE_DESTROY | WE_MINIMIZE | WE_MAXIMIZE | WE_RESTORE |
  WE_FOCUS_LOST | WE_FOCUS_GAINED | WE_FOCUS_DISABLED | WE_FOCUS_UNGRAB

datatype ViewEventType = VE_ADD | VE_REMOVE | VE_REPAINT | VE_FULLSCREEN_ENTER | VE_FULLSCREEN_EXIT

datatype MouseEventType = ME_DOWN | ME_UP | ME_MOVE | ME_ENTER | ME_EXIT

text \<open>What the native code reports to the Java application, to the platform and to the screen.\<close>

datatype GlassEvent =
    WindowEvent wid WindowEventType
  | WindowResize wid WindowEventType jint jint
  | WindowMove wid jint jint
  | ViewEvent vid ViewEventType jint jint jint jint
  | MouseEvent vid MouseEventType jint jint jint jint jint jint bool
  | MenuEvent vid jint jint jint jint
  | KeyEvent vid jint jint jint string
  | RaiseSigint
  | ScrollEvent vid jint jint jint jint jint jint
  | TouchEvent vid jint jlong jint jint jint jint
  | MultiTouchEvent vid "jint list" "jlong list" "jint list" "jint list" jint jint
  | VisibleListAdd wid
  | VisibleListRemove wid
  | PlatformMinimize wid bool
  | PlatformSetVisible wid bool
  | ScreenClear
  | CursorPosition jint jint

record LensWM =
  windows :: "wid \<rightharpoonup> NativeWindow"
  views :: "vid \<rightharpoonup> NativeView"
  windowList_head :: "wid option"
  windowList_tail :: "wid option"
  windowList_size :: int
  focusedWindow :: "wid option"
  grabbedWindow :: "wid option"
  mouseWindow :: "wid option"
  mousePosX :: jint
  mousePosY :: jint
  onDraggingAction :: bool
  dragGrabbingWindow :: "wid option"
  mousePressedButton :: jint
  touchWindow :: "wid option"
  isDnDStarted :: bool
  modifiersMask :: jint
  pApplication :: bool  \<comment> \<open>the reference to the Java application is not \<open>NULL\<close>\<close>
  screen_width :: jint
  screen_height :: jint
  glass_trace :: "GlassEvent list"

section \<open>Heap access\<close>

definition emit :: "GlassEvent \<Rightarrow> LensWM \<Rightarrow> LensWM" where
  "emit e s = s\<lparr>glass_trace := glass_trace s @ [e]\<rparr>"

text \<open>\<open>p->field = v\<close>.\<close>

definition win_upd :: "wid \<Rightarrow> (NativeWindow \<Rightarrow> NativeWindow) \<Rightarrow> LensWM \<Rightarrow> LensWM option" where
  "win_upd w f s = do {
     n \<leftarrow> windows s w;
     Some (s\<lparr>windows := (windows s)(w \<mapsto> f n)\<rparr>)
   }"

text \<open>\<open>if (p) p->field = v\<close>.\<close>

definition win_upd_if :: "wid option \<Rightarrow> (NativeWindow \<Rightarrow> NativeWindow) \<Rightarrow> LensWM \<Rightarrow> LensWM option" where
  "win_upd_if p f s = (case p of None \<Rightarrow> Some s | Some w \<Rightarrow> win_upd w f s)"

text \<open>
  The loops over the list have the form \<open>while (w) { ...; w = w->nextWindow; }\<close> (or \<open>previousWindow\<close>), where the
  body may leave the loop with a result (\<open>Inl\<close>) or go on with an accumulator (\<open>Inr\<close>). A list that is
  linked to a cycle may keep the loop from ending, which is \<open>None\<close> as well.
\<close>

partial_function (option) window_walk :: "(wid \<rightharpoonup> 'n) \<Rightarrow> ('n \<Rightarrow> wid option) \<Rightarrow>
    (wid \<Rightarrow> 'n \<Rightarrow> 'a \<Rightarrow> 'r + 'a) \<Rightarrow> wid option \<Rightarrow> 'a \<Rightarrow> ('r + 'a) option" where
  "window_walk h nxt body p acc = (case p of
     None \<Rightarrow> Some (Inr acc)
   | Some w \<Rightarrow> do {
       n \<leftarrow> h w;
       case body w n acc of
         Inl r \<Rightarrow> Some (Inl r)
       | Inr acc' \<Rightarrow> window_walk h nxt body (nxt n) acc'
     })"

lemmas window_walk_code [code] = window_walk.simps

section \<open>The list of windows\<close>

definition glass_window_isExist :: "wid option \<Rightarrow> LensWM \<Rightarrow> bool option" where
  "glass_window_isExist window s = do {
     r \<leftarrow> window_walk (windows s) nw_nextWindow
            (\<lambda>w n acc. if Some w = window then Inl True else Inr acc) (windowList_head s) ();
     Some (case r of Inl b \<Rightarrow> b | Inr _ \<Rightarrow> False)
   }"

definition glass_window_list_toFront :: "wid \<Rightarrow> LensWM \<Rightarrow> (bool \<times> LensWM) option" where
  "glass_window_list_toFront window s = (
     if windowList_tail s = Some window then Some (False, s)
     else do {
       ex \<leftarrow> glass_window_isExist (Some window) s;
       if \<not> ex then Some (False, s)
       else do {
         n \<leftarrow> windows s window;
         s \<leftarrow> win_upd_if (nw_previousWindow n) (\<lambda>p. p\<lparr>nw_nextWindow := nw_nextWindow n\<rparr>) s;
         n \<leftarrow> windows s window;
         s \<leftarrow> win_upd_if (nw_nextWindow n) (\<lambda>x. x\<lparr>nw_previousWindow := nw_previousWindow n\<rparr>) s;
         n \<leftarrow> windows s window;
         let s = (if windowList_head s = Some window then s\<lparr>windowList_head := nw_nextWindow n\<rparr> else s);
         s \<leftarrow> win_upd window (\<lambda>n. n\<lparr>nw_previousWindow := windowList_tail s, nw_nextWindow := None\<rparr>) s;
         tail \<leftarrow> windowList_tail s;
         s \<leftarrow> win_upd tail (\<lambda>t. t\<lparr>nw_nextWindow := Some window\<rparr>) s;
         Some (True, s\<lparr>windowList_tail := Some window\<rparr>)
       }
     })"

definition glass_window_list_toBack :: "wid \<Rightarrow> LensWM \<Rightarrow> (bool \<times> LensWM) option" where
  "glass_window_list_toBack window s = (
     if windowList_head s = Some window then Some (False, s)
     else do {
       ex \<leftarrow> glass_window_isExist (Some window) s;
       if \<not> ex then Some (False, s)
       else do {
         n \<leftarrow> windows s window;
         s \<leftarrow> win_upd_if (nw_previousWindow n) (\<lambda>p. p\<lparr>nw_nextWindow := nw_nextWindow n\<rparr>) s;
         n \<leftarrow> windows s window;
         s \<leftarrow> win_upd_if (nw_nextWindow n) (\<lambda>x. x\<lparr>nw_previousWindow := nw_previousWindow n\<rparr>) s;
         n \<leftarrow> windows s window;
         let s = (if windowList_tail s = Some window then s\<lparr>windowList_tail := nw_previousWindow n\<rparr> else s);
         s \<leftarrow> win_upd window (\<lambda>n. n\<lparr>nw_previousWindow := None, nw_nextWindow := windowList_head s\<rparr>) s;
         head \<leftarrow> windowList_head s;
         s \<leftarrow> win_upd head (\<lambda>h. h\<lparr>nw_previousWindow := Some window\<rparr>) s;
         Some (True, s\<lparr>windowList_head := Some window\<rparr>)
       }
     })"

definition glass_window_list_add :: "wid option \<Rightarrow> LensWM \<Rightarrow> LensWM option" where
  "glass_window_list_add window s = (case window of
     None \<Rightarrow> Some s
   | Some w \<Rightarrow> do {
       let s = (if windowList_head s = None then s\<lparr>windowList_head := Some w\<rparr> else s);
       s \<leftarrow> win_upd_if (windowList_tail s) (\<lambda>t. t\<lparr>nw_nextWindow := Some w\<rparr>) s;
       s \<leftarrow> win_upd w (\<lambda>n. n\<lparr>nw_previousWindow := windowList_tail s, nw_nextWindow := None\<rparr>) s;
       Some (s\<lparr>windowList_tail := Some w, windowList_size := windowList_size s + 1\<rparr>)
     })"

definition glass_window_list_remove :: "wid option \<Rightarrow> LensWM \<Rightarrow> LensWM option" where
  "glass_window_list_remove window s = (case window of
     None \<Rightarrow> Some s
   | Some w \<Rightarrow> do {
       ex \<leftarrow> glass_window_isExist window s;
       if \<not> ex then Some s
       else do {
         n \<leftarrow> windows s w;
         s \<leftarrow> (case nw_previousWindow n of
                 Some p \<Rightarrow> win_upd p (\<lambda>pn. pn\<lparr>nw_nextWindow := nw_nextWindow n\<rparr>) s
               | None \<Rightarrow> Some (s\<lparr>windowList_head := nw_nextWindow n\<rparr>));
         n \<leftarrow> windows s w;
         s \<leftarrow> (case nw_nextWindow n of
                 Some x \<Rightarrow> win_upd x (\<lambda>xn. xn\<lparr>nw_previousWindow := nw_previousWindow n\<rparr>) s
               | None \<Rightarrow> Some (s\<lparr>windowList_tail := nw_previousWindow n\<rparr>));
         Some (s\<lparr>windowList_size := windowList_size s - 1\<rparr>)
       }
     })"

definition glass_window_resetFocusedWindow :: "wid option \<Rightarrow> LensWM \<Rightarrow> LensWM" where
  "glass_window_resetFocusedWindow window s =
     (if window = focusedWindow s then s\<lparr>focusedWindow := None\<rparr> else s)"

section \<open>The list that the links represent\<close>

text \<open>Each of the two link fields is a partial map of its own; an update of one does not touch the other.\<close>

definition nexts :: "LensWM \<Rightarrow> wid \<rightharpoonup> wid option" where
  "nexts s = (\<lambda>w. map_option nw_nextWindow (windows s w))"

definition prevs :: "LensWM \<Rightarrow> wid \<rightharpoonup> wid option" where
  "prevs s = (\<lambda>w. map_option nw_previousWindow (windows s w))"

fun path :: "(wid \<rightharpoonup> wid option) \<Rightarrow> wid option \<Rightarrow> wid list \<Rightarrow> bool" where
  "path m p [] \<longleftrightarrow> p = None"
| "path m p (w # ws) \<longleftrightarrow> p = Some w \<and> (case m w of None \<Rightarrow> False | Some p' \<Rightarrow> path m p' ws)"

declare path.simps(2) [simp del]

lemma path_Cons [simp]: "path m p (w # ws) \<longleftrightarrow> p = Some w \<and> (\<exists>p'. m w = Some p' \<and> path m p' ws)"
  by (auto simp: path.simps(2) split: option.splits)

definition dllist :: "LensWM \<Rightarrow> wid list \<Rightarrow> bool" where
  "dllist s xs \<longleftrightarrow> distinct xs \<and> path (nexts s) (windowList_head s) xs \<and>
     path (prevs s) (windowList_tail s) (rev xs) \<and> windowList_size s = int (length xs)"

text \<open>Everything but the links.\<close>

definition win_core :: "NativeWindow \<Rightarrow> NativeWindow" where
  "win_core n = n\<lparr>nw_previousWindow := None, nw_nextWindow := None\<rparr>"

definition unlinked :: "LensWM \<Rightarrow> LensWM" where
  "unlinked s = s\<lparr>windows := map_option win_core \<circ> windows s, windowList_head := None,
     windowList_tail := None, windowList_size := 0\<rparr>"

definition ptr_hd :: "wid list \<Rightarrow> wid option" where
  "ptr_hd xs = (case xs of [] \<Rightarrow> None | x # _ \<Rightarrow> Some x)"

definition ptr_last :: "wid list \<Rightarrow> wid option" where
  "ptr_last xs = ptr_hd (rev xs)"

definition relink :: "(wid \<rightharpoonup> wid option) \<Rightarrow> wid option \<Rightarrow> wid option \<Rightarrow> wid \<rightharpoonup> wid option" where
  "relink m q r = (case q of None \<Rightarrow> m | Some a \<Rightarrow> m(a \<mapsto> r))"

lemma ptr_simps [simp]:
  "ptr_hd [] = None" "ptr_hd (x # xs) = Some x" "ptr_last [] = None" "ptr_last (xs @ [x]) = Some x"
  by (simp_all add: ptr_hd_def ptr_last_def)

lemma ptr_last_Cons [simp]: "ptr_last (x # xs) = (if xs = [] then Some x else ptr_last xs)"
  by (cases xs rule: rev_cases) (auto simp: ptr_hd_def ptr_last_def)

lemma ptr_last_append [simp]: "ptr_last (xs @ ys) = (if ys = [] then ptr_last xs else ptr_last ys)"
  by (cases ys rule: rev_cases) (auto simp: ptr_hd_def ptr_last_def)

lemma ptr_hd_append [simp]: "ptr_hd (xs @ ys) = (if xs = [] then ptr_hd ys else ptr_hd xs)"
  by (cases xs) auto

lemma ptr_hd_rev [simp]: "ptr_hd (rev xs) = ptr_last xs" "ptr_last (rev xs) = ptr_hd xs"
  by (simp_all only: ptr_last_def rev_rev_ident)

lemma ptr_None [simp]: "ptr_hd xs = None \<longleftrightarrow> xs = []" "ptr_last xs = None \<longleftrightarrow> xs = []"
  by (simp_all add: ptr_hd_def ptr_last_def split: list.splits)

lemma ptr_last_Some: "ptr_last xs = Some w \<longleftrightarrow> (\<exists>as. xs = as @ [w])"
  by (cases xs rule: rev_cases) auto

lemma ptr_hd_Some: "ptr_hd xs = Some w \<longleftrightarrow> (\<exists>as. xs = w # as)"
  by (cases xs) auto

lemma path_hd: "path m p xs \<Longrightarrow> p = ptr_hd xs"
  by (cases xs) auto

lemma path_upd [simp]: "w \<notin> set xs \<Longrightarrow> path (m(w := v)) p xs = path m p xs"
  by (induction xs arbitrary: p) auto

lemma path_dom: "path m p xs \<Longrightarrow> w \<in> set xs \<Longrightarrow> \<exists>p'. m w = Some p'"
  by (induction xs arbitrary: p) auto

lemma path_next: "path m p (as @ w # bs) \<Longrightarrow> m w = Some (ptr_hd bs)"
  by (induction as arbitrary: p) (auto dest: path_hd)

lemma path_snoc:
  assumes "path m p xs" "distinct xs" "w \<notin> set xs" "m w \<noteq> None"
  shows "path ((relink m (ptr_last xs) (Some w))(w \<mapsto> None)) (if xs = [] then Some w else p) (xs @ [w])"
  using assms
proof (induction xs arbitrary: p)
  case (Cons x xs)
  then obtain q where q: "m x = Some q" "path m q xs" "p = Some x" by auto
  show ?case
  proof (cases "xs = []")
    case False
    with Cons q show ?thesis
      by (cases xs rule: rev_cases) (auto simp: relink_def)
  qed (use Cons in \<open>auto simp: relink_def\<close>)
qed simp

lemma path_unlink:
  assumes "path m p (as @ w # bs)" "distinct (as @ w # bs)"
  shows "path (relink m (ptr_last as) (ptr_hd bs)) (if as = [] then ptr_hd bs else p) (as @ bs)"
  using assms
proof (induction as arbitrary: p)
  case Nil
  then show ?case by (auto simp: relink_def dest: path_hd)
next
  case (Cons a as)
  then obtain q where q: "m a = Some q" "path m q (as @ w # bs)" "p = Some a" by auto
  show ?case
  proof (cases "as = []")
    case True
    then have "path m (ptr_hd bs) bs" using q(2) by (auto dest: path_hd)
    with True Cons.prems q show ?thesis by (auto simp: relink_def fun_upd_same simp del: fun_upd_apply)
  next
    case False
    have "relink m (ptr_last as) (ptr_hd bs) a = Some q"
      using False q(1) Cons.prems(2) by (cases as rule: rev_cases) (auto simp: relink_def)
    with Cons q False show ?thesis by auto
  qed
qed

lemma path_relink_other:
  assumes "path m p xs" "a \<notin> set xs"
  shows "path (relink m (Some a) r) p xs"
  using assms by (simp add: relink_def)

lemma dllist_ends: "dllist s xs \<Longrightarrow> windowList_head s = ptr_hd xs" "dllist s xs \<Longrightarrow> windowList_tail s = ptr_last xs"
  by (auto simp: dllist_def dest: path_hd)

lemma dllist_links:
  assumes "dllist s (as @ w # bs)"
  obtains n where "windows s w = Some n" "nw_nextWindow n = ptr_hd bs" "nw_previousWindow n = ptr_last as"
proof -
  have "nexts s w = Some (ptr_hd bs)" "prevs s w = Some (ptr_hd (rev as))"
    using assms path_next [of _ _ as w bs] path_next [of _ _ "rev bs" w "rev as"]
    by (auto simp: dllist_def simp del: ptr_hd_rev)
  then show ?thesis using that by (auto simp: nexts_def prevs_def)
qed

lemma dllist_distinct: "dllist s xs \<Longrightarrow> distinct xs"
  by (simp add: dllist_def)

lemma dllist_live: "dllist s xs \<Longrightarrow> w \<in> set xs \<Longrightarrow> \<exists>n. windows s w = Some n"
  by (auto simp: in_set_conv_decomp elim: dllist_links)

section \<open>Loops over the list\<close>

fun walk_list :: "(wid \<rightharpoonup> 'n) \<Rightarrow> (wid \<Rightarrow> 'n \<Rightarrow> 'a \<Rightarrow> 'r + 'a) \<Rightarrow> wid list \<Rightarrow> 'a \<Rightarrow> 'r + 'a" where
  "walk_list h body [] acc = Inr acc"
| "walk_list h body (w # ws) acc = (case body w (the (h w)) acc of
     Inl r \<Rightarrow> Inl r | Inr acc' \<Rightarrow> walk_list h body ws acc')"

lemma window_walk_path:
  assumes "path (\<lambda>w. map_option nxt (h w)) p xs"
  shows "window_walk h nxt body p acc = Some (walk_list h body xs acc)"
  using assms
proof (induction xs arbitrary: p acc)
  case Nil
  then show ?case by (simp add: window_walk.simps)
next
  case (Cons w ws)
  then obtain n where n: "h w = Some n" "path (\<lambda>w. map_option nxt (h w)) (nxt n) ws" "p = Some w" by auto
  show ?case
    using n Cons.IH [OF n(2)] by (subst window_walk.simps) (simp split: sum.splits)
qed

lemma walk_forward:
  "dllist s xs \<Longrightarrow> window_walk (windows s) nw_nextWindow body (windowList_head s) acc =
     Some (walk_list (windows s) body xs acc)"
  by (rule window_walk_path) (simp add: dllist_def nexts_def)

lemma walk_backward:
  "dllist s xs \<Longrightarrow> window_walk (windows s) nw_previousWindow body (windowList_tail s) acc =
     Some (walk_list (windows s) body (rev xs) acc)"
  by (rule window_walk_path) (simp add: dllist_def prevs_def)

text \<open>A loop that leaves with the first window that satisfies a condition.\<close>

lemma walk_list_find:
  "walk_list h (\<lambda>w n a. if P w n then Inl (f w n) else Inr a) xs acc =
     (case find (\<lambda>w. P w (the (h w))) xs of None \<Rightarrow> Inr acc | Some w \<Rightarrow> Inl (f w (the (h w))))"
  by (induction xs) auto

lemma walk_backward_find:
  "dllist s xs \<Longrightarrow>
    window_walk (windows s) nw_previousWindow (\<lambda>w n a. if P n then Inl (f w n) else Inr a) (windowList_tail s) acc =
    Some (case find (\<lambda>w. P (the (windows s w))) (rev xs) of None \<Rightarrow> Inr acc | Some w \<Rightarrow> Inl (f w (the (windows s w))))"
  by (simp add: walk_backward walk_list_find)

lemma glass_window_isExist_iff:
  "dllist s xs \<Longrightarrow> glass_window_isExist p s = Some (\<exists>w\<in>set xs. p = Some w)"
proof -
  assume d: "dllist s xs"
  have "walk_list h (\<lambda>w n acc. if Some w = p then Inl True else Inr acc) xs () =
      (if \<exists>w\<in>set xs. p = Some w then Inl True else Inr ())" for h :: "wid \<rightharpoonup> NativeWindow"
    by (induction xs) auto
  then show ?thesis by (simp add: glass_window_isExist_def walk_forward [OF d])
qed

section \<open>Correctness of the list operations\<close>

definition list_ends :: "LensWM \<Rightarrow> wid option \<times> wid option \<times> int" where
  "list_ends s = (windowList_head s, windowList_tail s, windowList_size s)"

lemma set_next:
  assumes "nexts s w \<noteq> None"
  obtains s' where "win_upd w (\<lambda>n. n\<lparr>nw_nextWindow := v\<rparr>) s = Some s'" "nexts s' = (nexts s)(w \<mapsto> v)"
    "prevs s' = prevs s" "unlinked s' = unlinked s" "list_ends s' = list_ends s"
proof -
  obtain n where n: "windows s w = Some n" using assms by (auto simp: nexts_def)
  show ?thesis
    by (rule that [of "s\<lparr>windows := (windows s)(w \<mapsto> n\<lparr>nw_nextWindow := v\<rparr>)\<rparr>"])
      (use n in \<open>auto simp: win_upd_def nexts_def prevs_def unlinked_def list_ends_def win_core_def fun_eq_iff\<close>)
qed

lemma set_prev:
  assumes "prevs s w \<noteq> None"
  obtains s' where "win_upd w (\<lambda>n. n\<lparr>nw_previousWindow := v\<rparr>) s = Some s'" "prevs s' = (prevs s)(w \<mapsto> v)"
    "nexts s' = nexts s" "unlinked s' = unlinked s" "list_ends s' = list_ends s"
proof -
  obtain n where n: "windows s w = Some n" using assms by (auto simp: prevs_def)
  show ?thesis
    by (rule that [of "s\<lparr>windows := (windows s)(w \<mapsto> n\<lparr>nw_previousWindow := v\<rparr>)\<rparr>"])
      (use n in \<open>auto simp: win_upd_def nexts_def prevs_def unlinked_def list_ends_def win_core_def fun_eq_iff\<close>)
qed

lemma set_both:
  assumes "nexts s w \<noteq> None"
  obtains s' where "win_upd w (\<lambda>n. n\<lparr>nw_previousWindow := a, nw_nextWindow := b\<rparr>) s = Some s'"
    "nexts s' = (nexts s)(w \<mapsto> b)" "prevs s' = (prevs s)(w \<mapsto> a)" "unlinked s' = unlinked s"
    "list_ends s' = list_ends s"
proof -
  obtain n where n: "windows s w = Some n" using assms by (auto simp: nexts_def)
  show ?thesis
    by (rule that [of "s\<lparr>windows := (windows s)(w \<mapsto> n\<lparr>nw_previousWindow := a, nw_nextWindow := b\<rparr>)\<rparr>"])
      (use n in \<open>auto simp: win_upd_def nexts_def prevs_def unlinked_def list_ends_def win_core_def fun_eq_iff\<close>)
qed

lemma set_next_if:
  assumes "\<And>w. q = Some w \<Longrightarrow> nexts s w \<noteq> None"
  obtains s' where "win_upd_if q (\<lambda>n. n\<lparr>nw_nextWindow := v\<rparr>) s = Some s'" "nexts s' = relink (nexts s) q v"
    "prevs s' = prevs s" "unlinked s' = unlinked s" "list_ends s' = list_ends s"
proof (cases q)
  case None
  then show ?thesis using that [of s] by (simp add: win_upd_if_def relink_def)
next
  case (Some w)
  then show ?thesis
    using set_next [of s w v] assms that by (auto simp: win_upd_if_def relink_def)
qed

lemma set_prev_if:
  assumes "\<And>w. q = Some w \<Longrightarrow> prevs s w \<noteq> None"
  obtains s' where "win_upd_if q (\<lambda>n. n\<lparr>nw_previousWindow := v\<rparr>) s = Some s'" "prevs s' = relink (prevs s) q v"
    "nexts s' = nexts s" "unlinked s' = unlinked s" "list_ends s' = list_ends s"
proof (cases q)
  case None
  then show ?thesis using that [of s] by (simp add: win_upd_if_def relink_def)
next
  case (Some w)
  then show ?thesis
    using set_prev [of s w v] assms that by (auto simp: win_upd_if_def relink_def)
qed

lemma window_of_links:
  assumes "nexts s w = Some a" "prevs s w = Some b"
  obtains n where "windows s w = Some n" "nw_nextWindow n = a" "nw_previousWindow n = b"
  using assms by (auto simp: nexts_def prevs_def)

text \<open>
  The two updates that take a window out of the list, which \<open>toFront\<close>, \<open>toBack\<close> and \<open>remove\<close> share.
\<close>

lemma unlink_window:
  assumes d: "dllist s (as @ w # bs)"
  obtains n s1 n1 s2 n2 where "windows s w = Some n" "nw_previousWindow n = ptr_last as" "nw_nextWindow n = ptr_hd bs"
    "win_upd_if (ptr_last as) (\<lambda>p. p\<lparr>nw_nextWindow := ptr_hd bs\<rparr>) s = Some s1"
    "windows s1 w = Some n1" "nw_previousWindow n1 = ptr_last as" "nw_nextWindow n1 = ptr_hd bs"
    "win_upd_if (ptr_hd bs) (\<lambda>p. p\<lparr>nw_previousWindow := ptr_last as\<rparr>) s1 = Some s2"
    "windows s2 w = Some n2" "nw_previousWindow n2 = ptr_last as" "nw_nextWindow n2 = ptr_hd bs"
    "list_ends s1 = list_ends s" "list_ends s2 = list_ends s" "unlinked s2 = unlinked s"
    "path (nexts s2) (ptr_hd (as @ bs)) (as @ bs)" "path (prevs s2) (ptr_last (as @ bs)) (rev (as @ bs))"
    "nexts s2 w \<noteq> None" "prevs s2 w \<noteq> None"
proof -
  have di: "distinct (as @ w # bs)" using d by (simp add: dllist_def)
  have pn: "path (nexts s) (windowList_head s) (as @ w # bs)"
    and pp: "path (prevs s) (windowList_tail s) (rev bs @ w # rev as)"
    using d by (auto simp: dllist_def)
  have w: "nexts s w = Some (ptr_hd bs)" "prevs s w = Some (ptr_last as)"
    using path_next [OF pn] path_next [OF pp] by auto
  obtain n where n: "windows s w = Some n" "nw_nextWindow n = ptr_hd bs" "nw_previousWindow n = ptr_last as"
    using window_of_links [OF w] by blast
  have a: "nexts s x \<noteq> None" if "ptr_last as = Some x" for x
    using path_dom [OF pn, of x] that by (auto simp: ptr_last_Some)
  obtain s1 where s1: "win_upd_if (ptr_last as) (\<lambda>p. p\<lparr>nw_nextWindow := ptr_hd bs\<rparr>) s = Some s1"
    "nexts s1 = relink (nexts s) (ptr_last as) (ptr_hd bs)" "prevs s1 = prevs s"
    "unlinked s1 = unlinked s" "list_ends s1 = list_ends s"
    by (rule set_next_if [OF a])
  have w1: "nexts s1 w = Some (ptr_hd bs)" "prevs s1 w = Some (ptr_last as)"
    using w s1 di by (auto simp: relink_def ptr_last_Some split: option.splits)
  obtain n1 where n1: "windows s1 w = Some n1" "nw_nextWindow n1 = ptr_hd bs" "nw_previousWindow n1 = ptr_last as"
    using window_of_links [OF w1] by blast
  have b: "prevs s1 x \<noteq> None" if "ptr_hd bs = Some x" for x
    using path_dom [OF pp, of x] that s1(3) by (auto simp: ptr_hd_Some)
  obtain s2 where s2: "win_upd_if (ptr_hd bs) (\<lambda>p. p\<lparr>nw_previousWindow := ptr_last as\<rparr>) s1 = Some s2"
    "prevs s2 = relink (prevs s1) (ptr_hd bs) (ptr_last as)" "nexts s2 = nexts s1"
    "unlinked s2 = unlinked s1" "list_ends s2 = list_ends s1"
    by (rule set_prev_if [OF b])
  have w2: "nexts s2 w = Some (ptr_hd bs)" "prevs s2 w = Some (ptr_last as)"
    using w1 s2 di by (auto simp: relink_def ptr_hd_Some split: option.splits)
  obtain n2 where n2: "windows s2 w = Some n2" "nw_nextWindow n2 = ptr_hd bs" "nw_previousWindow n2 = ptr_last as"
    using window_of_links [OF w2] by blast
  have "path (nexts s2) (ptr_hd (as @ bs)) (as @ bs)"
    using path_unlink [OF pn di] path_hd [OF path_unlink [OF pn di]] s1(2) s2(3) by simp
  moreover have di': "distinct (rev bs @ w # rev as)" using di by auto
  have "path (prevs s2) (ptr_last (as @ bs)) (rev (as @ bs))"
    using path_unlink [OF pp di'] path_hd [OF path_unlink [OF pp di']] s1(3) s2(2) by (simp split: if_splits)
  ultimately show ?thesis
    using that [OF n(1,3,2) s1(1) n1(1,3,2) s2(1) n2(1,3,2)] s1 s2 w2 by simp
qed

lemma list_ends_eq:
  "list_ends s = list_ends s' \<longleftrightarrow> windowList_head s = windowList_head s' \<and> windowList_tail s = windowList_tail s' \<and>
     windowList_size s = windowList_size s'"
  by (auto simp: list_ends_def)

lemma links_of_ends [simp]:
  "nexts (s\<lparr>windowList_head := p\<rparr>) = nexts s" "prevs (s\<lparr>windowList_head := p\<rparr>) = prevs s"
  "nexts (s\<lparr>windowList_tail := p\<rparr>) = nexts s" "prevs (s\<lparr>windowList_tail := p\<rparr>) = prevs s"
  "nexts (s\<lparr>windowList_size := i\<rparr>) = nexts s" "prevs (s\<lparr>windowList_size := i\<rparr>) = prevs s"
  "unlinked (s\<lparr>windowList_head := p\<rparr>) = unlinked s" "unlinked (s\<lparr>windowList_tail := p\<rparr>) = unlinked s"
  "unlinked (s\<lparr>windowList_size := i\<rparr>) = unlinked s"
  by (simp_all add: nexts_def prevs_def unlinked_def)

lemma path_cons_at:
  assumes "path m p xs" "w \<notin> set xs"
  shows "path (m(w \<mapsto> p)) (Some w) (w # xs)"
  using assms by simp

lemma link_last:
  assumes "path nx (ptr_hd xs) xs" "path pv (ptr_last xs) (rev xs)" "distinct xs" "w \<notin> set xs" "nx w \<noteq> None"
  shows "path ((relink nx (ptr_last xs) (Some w))(w \<mapsto> None)) (ptr_hd (xs @ [w])) (xs @ [w])"
    and "path (pv(w \<mapsto> ptr_last xs)) (ptr_last (xs @ [w])) (rev (xs @ [w]))"
  using path_snoc [OF assms(1,3,4,5)] path_cons_at [OF assms(2)] assms(4) by (auto split: if_splits)

lemma link_first:
  assumes "path nx (ptr_hd xs) xs" "path pv (ptr_last xs) (rev xs)" "distinct xs" "w \<notin> set xs" "pv w \<noteq> None"
  shows "path (nx(w \<mapsto> ptr_hd xs)) (ptr_hd (w # xs)) (w # xs)"
    and "path ((relink pv (ptr_hd xs) (Some w))(w \<mapsto> None)) (ptr_last (w # xs)) (rev (w # xs))"
  using link_last [of pv "rev xs" nx w] assms by (auto split: if_splits)

lemma append_window:
  assumes p: "path (nexts s) (ptr_hd ys) ys" "path (prevs s) (ptr_last ys) (rev ys)" and ys: "distinct ys" "w \<notin> set ys"
    and w: "nexts s w \<noteq> None" and t: "ptr_last ys = Some t"
  obtains s1 s2 where "win_upd w (\<lambda>n. n\<lparr>nw_previousWindow := Some t, nw_nextWindow := None\<rparr>) s = Some s1"
    "win_upd t (\<lambda>n. n\<lparr>nw_nextWindow := Some w\<rparr>) s1 = Some s2"
    "path (nexts s2) (ptr_hd (ys @ [w])) (ys @ [w])" "path (prevs s2) (ptr_last (ys @ [w])) (rev (ys @ [w]))"
    "unlinked s2 = unlinked s" "list_ends s1 = list_ends s" "list_ends s2 = list_ends s"
proof -
  have tw: "t \<noteq> w" "t \<in> set ys" using t ys by (auto simp: ptr_last_Some)
  obtain s1 where s1: "win_upd w (\<lambda>n. n\<lparr>nw_previousWindow := Some t, nw_nextWindow := None\<rparr>) s = Some s1"
    "nexts s1 = (nexts s)(w \<mapsto> None)" "prevs s1 = (prevs s)(w \<mapsto> Some t)" "unlinked s1 = unlinked s"
    "list_ends s1 = list_ends s"
    by (rule set_both [OF w])
  have t1: "nexts s1 t \<noteq> None"
    using path_dom [OF p(1) tw(2)] s1(2) tw(1) by auto
  obtain s2 where s2: "win_upd t (\<lambda>n. n\<lparr>nw_nextWindow := Some w\<rparr>) s1 = Some s2"
    "nexts s2 = (nexts s1)(t \<mapsto> Some w)" "prevs s2 = prevs s1" "unlinked s2 = unlinked s1" "list_ends s2 = list_ends s1"
    by (rule set_next [OF t1])
  have "(relink (nexts s) (ptr_last ys) (Some w))(w \<mapsto> None) = nexts s2"
    using s1(2) s2(2) tw(1) t by (auto simp: relink_def)
  then have "path (nexts s2) (ptr_hd (ys @ [w])) (ys @ [w])"
    "path (prevs s2) (ptr_last (ys @ [w])) (rev (ys @ [w]))"
    using link_last [OF p ys w] s1(3) s2(3) t by auto
  with s1 s2 show ?thesis using that by simp
qed

lemma prepend_window:
  assumes p: "path (nexts s) (ptr_hd ys) ys" "path (prevs s) (ptr_last ys) (rev ys)" and ys: "distinct ys" "w \<notin> set ys"
    and w: "nexts s w \<noteq> None" "prevs s w \<noteq> None" and t: "ptr_hd ys = Some t"
  obtains s1 s2 where "win_upd w (\<lambda>n. n\<lparr>nw_previousWindow := None, nw_nextWindow := Some t\<rparr>) s = Some s1"
    "win_upd t (\<lambda>n. n\<lparr>nw_previousWindow := Some w\<rparr>) s1 = Some s2"
    "path (nexts s2) (ptr_hd (w # ys)) (w # ys)" "path (prevs s2) (ptr_last (w # ys)) (rev (w # ys))"
    "unlinked s2 = unlinked s" "list_ends s1 = list_ends s" "list_ends s2 = list_ends s"
proof -
  have tw: "t \<noteq> w" "t \<in> set ys" using t ys by (auto simp: ptr_hd_Some)
  obtain s1 where s1: "win_upd w (\<lambda>n. n\<lparr>nw_previousWindow := None, nw_nextWindow := Some t\<rparr>) s = Some s1"
    "nexts s1 = (nexts s)(w \<mapsto> Some t)" "prevs s1 = (prevs s)(w \<mapsto> None)" "unlinked s1 = unlinked s"
    "list_ends s1 = list_ends s"
    by (rule set_both [OF w(1)])
  have t1: "prevs s1 t \<noteq> None"
    using path_dom [OF p(2)] tw s1(3) by auto
  obtain s2 where s2: "win_upd t (\<lambda>n. n\<lparr>nw_previousWindow := Some w\<rparr>) s1 = Some s2"
    "prevs s2 = (prevs s1)(t \<mapsto> Some w)" "nexts s2 = nexts s1" "unlinked s2 = unlinked s1" "list_ends s2 = list_ends s1"
    by (rule set_prev [OF t1])
  have "(relink (prevs s) (ptr_hd ys) (Some w))(w \<mapsto> None) = prevs s2"
    using s1(3) s2(2) tw(1) t by (auto simp: relink_def)
  then have "path (nexts s2) (ptr_hd (w # ys)) (w # ys)" "path (prevs s2) (ptr_last (w # ys)) (rev (w # ys))"
    using link_first [OF p ys w(2)] s1(2) s2(3) t by auto
  with s1 s2 show ?thesis using that by simp
qed

lemma glass_window_list_toFront_correct:
  assumes d: "dllist s xs"
  shows "w \<notin> set xs \<Longrightarrow> glass_window_list_toFront w s = Some (False, s)"
    and "w \<in> set xs \<Longrightarrow> \<exists>s'. glass_window_list_toFront w s = Some (ptr_last xs \<noteq> Some w, s') \<and>
      dllist s' (remove1 w xs @ [w]) \<and> unlinked s' = unlinked s"
proof -
  show "w \<notin> set xs \<Longrightarrow> glass_window_list_toFront w s = Some (False, s)"
    using glass_window_isExist_iff [OF d, of "Some w"] by (simp add: glass_window_list_toFront_def)
next
  assume "w \<in> set xs"
  then obtain as bs where xs: "xs = as @ w # bs" by (auto simp: in_set_conv_decomp)
  have di: "distinct (as @ w # bs)" using d xs by (simp add: dllist_def)
  then have rm: "remove1 w xs = as @ bs" by (simp add: xs remove1_append)
  show "\<exists>s'. glass_window_list_toFront w s = Some (ptr_last xs \<noteq> Some w, s') \<and>
      dllist s' (remove1 w xs @ [w]) \<and> unlinked s' = unlinked s"
  proof (cases "bs = []")
    case True
    with d xs rm show ?thesis by (simp add: glass_window_list_toFront_def dllist_ends [OF d])
  next
    case False
    then obtain bs' t where bs: "bs = bs' @ [t]" by (cases bs rule: rev_cases) auto
    obtain n s1 n1 s2 n2 where u: "windows s w = Some n" "nw_previousWindow n = ptr_last as" "nw_nextWindow n = ptr_hd bs"
      "win_upd_if (ptr_last as) (\<lambda>p. p\<lparr>nw_nextWindow := ptr_hd bs\<rparr>) s = Some s1"
      "windows s1 w = Some n1" "nw_previousWindow n1 = ptr_last as" "nw_nextWindow n1 = ptr_hd bs"
      "win_upd_if (ptr_hd bs) (\<lambda>p. p\<lparr>nw_previousWindow := ptr_last as\<rparr>) s1 = Some s2"
      "windows s2 w = Some n2" "nw_previousWindow n2 = ptr_last as" "nw_nextWindow n2 = ptr_hd bs"
      "list_ends s1 = list_ends s" "list_ends s2 = list_ends s" "unlinked s2 = unlinked s"
      "path (nexts s2) (ptr_hd (as @ bs)) (as @ bs)" "path (prevs s2) (ptr_last (as @ bs)) (rev (as @ bs))"
      "nexts s2 w \<noteq> None" "prevs s2 w \<noteq> None"
      by (rule unlink_window [OF d [unfolded xs]])
    define s3 where "s3 = (if windowList_head s2 = Some w then s2\<lparr>windowList_head := ptr_hd bs\<rparr> else s2)"
    have s3: "nexts s3 = nexts s2" "prevs s3 = prevs s2" "unlinked s3 = unlinked s2"
      "windowList_tail s3 = Some t" "windowList_head s3 = ptr_hd (as @ bs)" "windowList_size s3 = int (length xs)"
      using dllist_ends [OF d] u(13) d xs bs di ptr_hd_Some [of as w] by (auto simp: s3_def list_ends_eq dllist_def)
    obtain s4 s5 where s5: "win_upd w (\<lambda>n. n\<lparr>nw_previousWindow := Some t, nw_nextWindow := None\<rparr>) s3 = Some s4"
      "win_upd t (\<lambda>n. n\<lparr>nw_nextWindow := Some w\<rparr>) s4 = Some s5"
      "path (nexts s5) (ptr_hd ((as @ bs) @ [w])) ((as @ bs) @ [w])"
      "path (prevs s5) (ptr_last ((as @ bs) @ [w])) (rev ((as @ bs) @ [w]))"
      "unlinked s5 = unlinked s3" "list_ends s4 = list_ends s3" "list_ends s5 = list_ends s3"
      by (rule append_window [of s3 "as @ bs" w t]) (use u(15-17) di bs in \<open>auto simp: s3\<close>)
    have tl: "windowList_tail s = Some t" "windowList_tail s4 = Some t" "ptr_last xs \<noteq> Some w" "t \<noteq> w"
      using dllist_ends [OF d] s5(6) s3(4) xs bs di by (auto simp: list_ends_eq)
    have "glass_window_list_toFront w s = Some (True, s5\<lparr>windowList_tail := Some w\<rparr>)"
      using glass_window_isExist_iff [OF d, of "Some w"] xs s5(1) s3(4)
      by (cases "windowList_head s2 = Some w")
        (simp_all add: glass_window_list_toFront_def tl u(1-11) s3_def s5(2))
    moreover have "dllist (s5\<lparr>windowList_tail := Some w\<rparr>) (remove1 w xs @ [w])"
      using s5(3,4,7) rm di s3(5,6) xs False by (auto simp: dllist_def list_ends_eq split: if_splits)
    ultimately show ?thesis using tl(3) s5(5) s3(3) u(14) by simp
  qed
qed

lemma glass_window_list_toBack_correct:
  assumes d: "dllist s xs"
  shows "w \<notin> set xs \<Longrightarrow> glass_window_list_toBack w s = Some (False, s)"
    and "w \<in> set xs \<Longrightarrow> \<exists>s'. glass_window_list_toBack w s = Some (ptr_hd xs \<noteq> Some w, s') \<and>
      dllist s' (w # remove1 w xs) \<and> unlinked s' = unlinked s"
proof -
  show "w \<notin> set xs \<Longrightarrow> glass_window_list_toBack w s = Some (False, s)"
    using glass_window_isExist_iff [OF d, of "Some w"] by (simp add: glass_window_list_toBack_def)
next
  assume "w \<in> set xs"
  then obtain as bs where xs: "xs = as @ w # bs" by (auto simp: in_set_conv_decomp)
  have di: "distinct (as @ w # bs)" using d xs by (simp add: dllist_def)
  then have rm: "remove1 w xs = as @ bs" by (simp add: xs remove1_append)
  show "\<exists>s'. glass_window_list_toBack w s = Some (ptr_hd xs \<noteq> Some w, s') \<and>
      dllist s' (w # remove1 w xs) \<and> unlinked s' = unlinked s"
  proof (cases "as = []")
    case True
    with d xs rm show ?thesis by (simp add: glass_window_list_toBack_def dllist_ends [OF d])
  next
    case False
    then obtain as' t where bs: "as = t # as'" by (cases as) auto
    obtain n s1 n1 s2 n2 where u: "windows s w = Some n" "nw_previousWindow n = ptr_last as" "nw_nextWindow n = ptr_hd bs"
      "win_upd_if (ptr_last as) (\<lambda>p. p\<lparr>nw_nextWindow := ptr_hd bs\<rparr>) s = Some s1"
      "windows s1 w = Some n1" "nw_previousWindow n1 = ptr_last as" "nw_nextWindow n1 = ptr_hd bs"
      "win_upd_if (ptr_hd bs) (\<lambda>p. p\<lparr>nw_previousWindow := ptr_last as\<rparr>) s1 = Some s2"
      "windows s2 w = Some n2" "nw_previousWindow n2 = ptr_last as" "nw_nextWindow n2 = ptr_hd bs"
      "list_ends s1 = list_ends s" "list_ends s2 = list_ends s" "unlinked s2 = unlinked s"
      "path (nexts s2) (ptr_hd (as @ bs)) (as @ bs)" "path (prevs s2) (ptr_last (as @ bs)) (rev (as @ bs))"
      "nexts s2 w \<noteq> None" "prevs s2 w \<noteq> None"
      by (rule unlink_window [OF d [unfolded xs]])
    define s3 where "s3 = (if windowList_tail s2 = Some w then s2\<lparr>windowList_tail := ptr_last as\<rparr> else s2)"
    have s3: "nexts s3 = nexts s2" "prevs s3 = prevs s2" "unlinked s3 = unlinked s2"
      "windowList_head s3 = Some t" "windowList_tail s3 = ptr_last (as @ bs)" "windowList_size s3 = int (length xs)"
      using dllist_ends [OF d] u(13) d xs bs di ptr_last_Some [of bs w] by (auto simp: s3_def list_ends_eq dllist_def)
    obtain s4 s5 where s5: "win_upd w (\<lambda>n. n\<lparr>nw_previousWindow := None, nw_nextWindow := Some t\<rparr>) s3 = Some s4"
      "win_upd t (\<lambda>n. n\<lparr>nw_previousWindow := Some w\<rparr>) s4 = Some s5"
      "path (nexts s5) (ptr_hd (w # (as @ bs))) (w # (as @ bs))"
      "path (prevs s5) (ptr_last (w # (as @ bs))) (rev (w # (as @ bs)))"
      "unlinked s5 = unlinked s3" "list_ends s4 = list_ends s3" "list_ends s5 = list_ends s3"
      by (rule prepend_window [of s3 "as @ bs" w t]) (use u(15-18) di bs in \<open>auto simp: s3\<close>)
    have tl: "windowList_head s = Some t" "windowList_head s4 = Some t" "ptr_hd xs \<noteq> Some w" "t \<noteq> w"
      using dllist_ends [OF d] s5(6) s3(4) xs bs di by (auto simp: list_ends_eq)
    have "glass_window_list_toBack w s = Some (True, s5\<lparr>windowList_head := Some w\<rparr>)"
      using glass_window_isExist_iff [OF d, of "Some w"] xs s5(1) s3(4)
      by (cases "windowList_tail s2 = Some w")
        (simp_all add: glass_window_list_toBack_def tl u(1-11) s3_def s5(2))
    moreover have "dllist (s5\<lparr>windowList_head := Some w\<rparr>) (w # remove1 w xs)"
      using s5(3,4,7) rm di s3(5,6) xs False by (auto simp: dllist_def list_ends_eq split: if_splits)
    ultimately show ?thesis using tl(3) s5(5) s3(3) u(14) by simp
  qed
qed

lemma glass_window_list_add_correct:
  assumes d: "dllist s xs" and w: "w \<notin> set xs" "windows s w \<noteq> None"
  shows "\<exists>s'. glass_window_list_add (Some w) s = Some s' \<and> dllist s' (xs @ [w]) \<and> unlinked s' = unlinked s"
proof -
  define s0 where "s0 = (if windowList_head s = None then s\<lparr>windowList_head := Some w\<rparr> else s)"
  have s0: "nexts s0 = nexts s" "prevs s0 = prevs s" "unlinked s0 = unlinked s" "windowList_tail s0 = ptr_last xs"
    "windowList_head s0 = ptr_hd (xs @ [w])" "windowList_size s0 = int (length xs)"
    using d dllist_ends [OF d] by (auto simp: s0_def dllist_def)
  have p: "path (nexts s) (ptr_hd xs) xs" "path (prevs s) (ptr_last xs) (rev xs)" "distinct xs"
    using d dllist_ends [OF d] by (auto simp: dllist_def)
  have t0: "nexts s0 x \<noteq> None" if "ptr_last xs = Some x" for x
    using path_dom [OF p(1), of x] that s0(1) by (auto simp: ptr_last_Some)
  obtain s1 where s1: "win_upd_if (ptr_last xs) (\<lambda>n. n\<lparr>nw_nextWindow := Some w\<rparr>) s0 = Some s1"
    "nexts s1 = relink (nexts s0) (ptr_last xs) (Some w)" "prevs s1 = prevs s0" "unlinked s1 = unlinked s0"
    "list_ends s1 = list_ends s0"
    by (rule set_next_if [OF t0])
  have w0: "nexts s w \<noteq> None" using w(2) by (simp add: nexts_def)
  have w1: "nexts s1 w \<noteq> None"
    using w0 s1(2) s0(1) by (auto simp: relink_def split: option.splits)
  obtain s2 where s2: "win_upd w (\<lambda>n. n\<lparr>nw_previousWindow := ptr_last xs, nw_nextWindow := None\<rparr>) s1 = Some s2"
    "nexts s2 = (nexts s1)(w \<mapsto> None)" "prevs s2 = (prevs s1)(w \<mapsto> ptr_last xs)" "unlinked s2 = unlinked s1"
    "list_ends s2 = list_ends s1"
    by (rule set_both [OF w1])
  have t1: "windowList_tail s1 = ptr_last xs" using s1(5) s0(4) by (simp add: list_ends_eq)
  have "glass_window_list_add (Some w) s = Some (s2\<lparr>windowList_tail := Some w, windowList_size := windowList_size s2 + 1\<rparr>)"
    by (simp add: glass_window_list_add_def s0_def [symmetric] s0(4) s1(1) t1 s2(1) Let_def)
  moreover have "dllist (s2\<lparr>windowList_tail := Some w, windowList_size := windowList_size s2 + 1\<rparr>) (xs @ [w])"
    using link_last [OF p w(1) w0] s2 s1 s0 w(1) p(3) by (auto simp: dllist_def list_ends_eq)
  ultimately show ?thesis using s2(4) s1(4) s0(3) by simp
qed

lemma glass_window_list_remove_correct:
  assumes d: "dllist s xs"
  shows "w \<notin> set xs \<Longrightarrow> glass_window_list_remove (Some w) s = Some s"
    and "w \<in> set xs \<Longrightarrow> \<exists>s'. glass_window_list_remove (Some w) s = Some s' \<and> dllist s' (remove1 w xs) \<and>
      unlinked s' = unlinked s"
proof -
  show "w \<notin> set xs \<Longrightarrow> glass_window_list_remove (Some w) s = Some s"
    using glass_window_isExist_iff [OF d, of "Some w"] by (simp add: glass_window_list_remove_def)
next
  assume "w \<in> set xs"
  then obtain as bs where xs: "xs = as @ w # bs" by (auto simp: in_set_conv_decomp)
  have di: "distinct (as @ w # bs)" using d xs by (simp add: dllist_def)
  then have rm: "remove1 w xs = as @ bs" by (simp add: xs remove1_append)
  obtain n s1 n1 s2 n2 where u: "windows s w = Some n" "nw_previousWindow n = ptr_last as" "nw_nextWindow n = ptr_hd bs"
    "win_upd_if (ptr_last as) (\<lambda>p. p\<lparr>nw_nextWindow := ptr_hd bs\<rparr>) s = Some s1"
    "windows s1 w = Some n1" "nw_previousWindow n1 = ptr_last as" "nw_nextWindow n1 = ptr_hd bs"
    "win_upd_if (ptr_hd bs) (\<lambda>p. p\<lparr>nw_previousWindow := ptr_last as\<rparr>) s1 = Some s2"
    "windows s2 w = Some n2" "nw_previousWindow n2 = ptr_last as" "nw_nextWindow n2 = ptr_hd bs"
    "list_ends s1 = list_ends s" "list_ends s2 = list_ends s" "unlinked s2 = unlinked s"
    "path (nexts s2) (ptr_hd (as @ bs)) (as @ bs)" "path (prevs s2) (ptr_last (as @ bs)) (rev (as @ bs))"
    "nexts s2 w \<noteq> None" "prevs s2 w \<noteq> None"
    by (rule unlink_window [OF d [unfolded xs]])
  have e2: "windowList_head s2 = ptr_hd xs" "windowList_tail s2 = ptr_last xs" "windowList_size s2 = int (length xs)"
    using u(13) dllist_ends [OF d] d by (auto simp: list_ends_eq dllist_def)
  have ex: "glass_window_isExist (Some w) s = Some True"
    using glass_window_isExist_iff [OF d, of "Some w"] xs by simp
  let ?a = "\<lambda>s. if as = [] then s\<lparr>windowList_head := ptr_hd bs\<rparr> else s"
  let ?b = "\<lambda>s. if bs = [] then s\<lparr>windowList_tail := ptr_last as\<rparr> else s"
  have 1: "(case ptr_last as of Some p \<Rightarrow> win_upd p (\<lambda>pn. pn\<lparr>nw_nextWindow := ptr_hd bs\<rparr>) s
      | None \<Rightarrow> Some (s\<lparr>windowList_head := ptr_hd bs\<rparr>)) = Some (?a s1)"
    using u(4) by (cases "ptr_last as") (auto simp: win_upd_if_def)
  have 2: "(case ptr_hd bs of Some x \<Rightarrow> win_upd x (\<lambda>pn. pn\<lparr>nw_previousWindow := ptr_last as\<rparr>) (?a s1)
      | None \<Rightarrow> Some ((?a s1)\<lparr>windowList_tail := ptr_last as\<rparr>)) = Some (?b (?a s2))"
    using u(8) by (cases "ptr_hd bs") (auto simp: win_upd_if_def win_upd_def bind_eq_Some_conv)
  have "windows (?a s1) w = Some n1" using u(5) by simp
  then have "glass_window_list_remove (Some w) s =
      Some ((?b (?a s2))\<lparr>windowList_size := windowList_size (?b (?a s2)) - 1\<rparr>)"
    using 1 2 by (simp only: glass_window_list_remove_def ex u(1-3,6,7) option.case bind.bind_lunit not_True_eq_False if_False)
  moreover have "dllist ((?b (?a s2))\<lparr>windowList_size := windowList_size (?b (?a s2)) - 1\<rparr>) (remove1 w xs)"
    using u(15,16) rm di e2 xs by (auto simp: dllist_def)
  ultimately show "\<exists>s'. glass_window_list_remove (Some w) s = Some s' \<and> dllist s' (remove1 w xs) \<and>
      unlinked s' = unlinked s"
    using u(14) by auto
qed

section \<open>The contract of the list\<close>

text \<open>
  Specification: the z-order is a list of windows without duplicates, the back-most first. An operation
  returns whether it changed the order (\<open>add\<close> and \<open>remove\<close> return nothing in C).
\<close>

datatype z_op = ZAdd wid | ZRemove wid | ZFront wid | ZBack wid

fun z_win :: "z_op \<Rightarrow> wid" where
  "z_win (ZAdd w) = w" | "z_win (ZRemove w) = w" | "z_win (ZFront w) = w" | "z_win (ZBack w) = w"

fun z_spec :: "z_op \<Rightarrow> wid list \<Rightarrow> bool \<times> wid list" where
  "z_spec (ZAdd w) xs = (True, xs @ [w])"
| "z_spec (ZRemove w) xs = (True, remove1 w xs)"
| "z_spec (ZFront w) xs = (if w \<in> set xs \<and> ptr_last xs \<noteq> Some w then (True, remove1 w xs @ [w]) else (False, xs))"
| "z_spec (ZBack w) xs = (if w \<in> set xs \<and> ptr_hd xs \<noteq> Some w then (True, w # remove1 w xs) else (False, xs))"

definition z_ok :: "z_op \<Rightarrow> wid list \<Rightarrow> bool" where
  "z_ok op xs \<longleftrightarrow> (case op of ZAdd w \<Rightarrow> w \<notin> set xs | _ \<Rightarrow> True)"

fun z_spec_run :: "z_op list \<Rightarrow> wid list \<Rightarrow> (bool list \<times> wid list) option" where
  "z_spec_run [] xs = Some ([], xs)"
| "z_spec_run (op # ops) xs = (if z_ok op xs then do {
     let (b, xs) = z_spec op xs;
     (bs, xs) \<leftarrow> z_spec_run ops xs;
     Some (b # bs, xs)
   } else None)"

fun z_exec :: "z_op \<Rightarrow> LensWM \<Rightarrow> (bool \<times> LensWM) option" where
  "z_exec (ZAdd w) s = do { s \<leftarrow> glass_window_list_add (Some w) s; Some (True, s) }"
| "z_exec (ZRemove w) s = do { s \<leftarrow> glass_window_list_remove (Some w) s; Some (True, s) }"
| "z_exec (ZFront w) s = glass_window_list_toFront w s"
| "z_exec (ZBack w) s = glass_window_list_toBack w s"

fun z_run :: "(z_op \<Rightarrow> 's \<Rightarrow> (bool \<times> 's) option) \<Rightarrow> z_op list \<Rightarrow> 's \<Rightarrow> (bool list \<times> 's) option" where
  "z_run ex [] s = Some ([], s)"
| "z_run ex (op # ops) s = do {
     (b, s) \<leftarrow> ex op s;
     (bs, s) \<leftarrow> z_run ex ops s;
     Some (b # bs, s)
   }"

locale z_list =
  fixes repr :: "'s \<Rightarrow> wid list \<Rightarrow> bool"
    and alloc :: "'s \<Rightarrow> wid \<Rightarrow> bool"
    and rest :: "'s \<Rightarrow> 'r"
    and ex :: "z_op \<Rightarrow> 's \<Rightarrow> (bool \<times> 's) option"
  assumes repr_distinct: "repr s xs \<Longrightarrow> distinct xs"
    and repr_alloc: "repr s xs \<Longrightarrow> w \<in> set xs \<Longrightarrow> alloc s w"
    and alloc_rest: "rest s = rest s' \<Longrightarrow> alloc s w \<longleftrightarrow> alloc s' w"
    and step: "repr s xs \<Longrightarrow> z_ok op xs \<Longrightarrow> alloc s (z_win op) \<Longrightarrow> z_spec op xs = (b, ys) \<Longrightarrow>
      \<exists>s'. ex op s = Some (b, s') \<and> repr s' ys \<and> rest s' = rest s"
begin

lemma run_refines:
  assumes "repr s xs" "\<forall>op\<in>set ops. alloc s (z_win op)" "z_spec_run ops xs = Some (bs, ys)"
  shows "\<exists>s'. z_run ex ops s = Some (bs, s') \<and> repr s' ys \<and> rest s' = rest s"
  using assms
proof (induction ops arbitrary: s xs bs)
  case (Cons op ops)
  obtain b zs where sp: "z_spec op xs = (b, zs)" by fastforce
  with Cons.prems(3) obtain bs' where ok: "z_ok op xs" and run: "z_spec_run ops zs = Some (bs', ys)" "bs = b # bs'"
    by (auto simp: bind_eq_Some_conv split: if_splits)
  obtain s1 where s1: "ex op s = Some (b, s1)" "repr s1 zs" "rest s1 = rest s"
    using step [OF Cons.prems(1) ok _ sp] Cons.prems(2) by auto
  have al: "\<forall>op\<in>set ops. alloc s1 (z_win op)"
    using Cons.prems(2) alloc_rest [OF s1(3)] by simp
  show ?case
    using Cons.IH [OF s1(2) al run(1)] s1 run(2) by auto
qed simp

text \<open>A window that was brought to the front stays there when it is brought to the front again.\<close>

lemma front_idempotent:
  assumes r: "repr s xs" and w: "w \<in> set xs"
  shows "\<exists>b s' s''. ex (ZFront w) s = Some (b, s') \<and> repr s' (remove1 w xs @ [w]) \<and>
    ex (ZFront w) s' = Some (False, s'') \<and> repr s'' (remove1 w xs @ [w])"
proof -
  have al: "alloc s w" using repr_alloc [OF r w] .
  have sp: "\<exists>b. z_spec (ZFront w) xs = (b, remove1 w xs @ [w])"
    using w repr_distinct [OF r] by (auto simp: ptr_last_Some remove1_append)
  then obtain b s' where 1: "ex (ZFront w) s = Some (b, s')" "repr s' (remove1 w xs @ [w])" "rest s' = rest s"
    using step [OF r, of "ZFront w"] al by (auto simp: z_ok_def)
  obtain s'' where 2: "ex (ZFront w) s' = Some (False, s'')" "repr s'' (remove1 w xs @ [w])"
    using step [OF 1(2), of "ZFront w" False] al alloc_rest [OF 1(3)] by (auto simp: z_ok_def)
  show ?thesis using 1(1,2) 2 by blast
qed

end

lemma z_exec_step:
  assumes d: "dllist s xs" and ok: "z_ok op xs" and al: "windows s (z_win op) \<noteq> None"
    and sp: "z_spec op xs = (b, ys)"
  shows "\<exists>s'. z_exec op s = Some (b, s') \<and> dllist s' ys \<and> unlinked s' = unlinked s"
proof (cases op)
  case (ZAdd w)
  then show ?thesis using glass_window_list_add_correct [OF d, of w] ok al sp by (auto simp: z_ok_def)
next
  case (ZRemove w)
  then show ?thesis
    using glass_window_list_remove_correct [OF d, of w] sp d by (cases "w \<in> set xs") (auto simp: remove1_idem)
next
  case (ZFront w)
  have "remove1 w xs @ [w] = xs" if "ptr_last xs = Some w"
    using that d by (auto simp: ptr_last_Some remove1_append dllist_def)
  with ZFront show ?thesis
    using glass_window_list_toFront_correct [OF d, of w] sp d
    by (cases "w \<in> set xs") (auto split: if_splits)
next
  case (ZBack w)
  have "w # remove1 w xs = xs" if "ptr_hd xs = Some w"
    using that by (auto simp: ptr_hd_Some)
  with ZBack show ?thesis
    using glass_window_list_toBack_correct [OF d, of w] sp d
    by (cases "w \<in> set xs") (auto split: if_splits)
qed

lemma unlinked_window:
  assumes "unlinked s' = unlinked s"
  shows "map_option win_core (windows s' w) = map_option win_core (windows s w)"
  using arg_cong [OF assms, of "\<lambda>s. windows s w"] by (simp add: unlinked_def)

interpretation window_list: z_list dllist "\<lambda>s w. windows s w \<noteq> None" unlinked z_exec
proof unfold_locales
  fix s s' :: LensWM and w
  assume "unlinked s = unlinked s'"
  from unlinked_window [OF this, of w] show "(windows s w \<noteq> None) = (windows s' w \<noteq> None)"
    by (cases "windows s w"; cases "windows s' w") auto
qed (auto dest: dllist_distinct dllist_live intro: z_exec_step)

text \<open>C13: The doubly linked list of windows implements the z-order. From a well-formed list, any sequence of
  \<open>add\<close> (of a window that is not in the list), \<open>remove\<close>, \<open>toFront\<close> and \<open>toBack\<close> on allocated windows
  accesses only allocated memory, returns the answers of the specification, leaves the forward and
  the backward links, both ends and the size in agreement with the list that the specification
  computes, and changes nothing but the links.\<close>

theorem window_list_refines_z_order:
  assumes "dllist s xs" and "\<forall>op\<in>set ops. windows s (z_win op) \<noteq> None"
    and "z_spec_run ops xs = Some (bs, ys)"
  shows "\<exists>s'. z_run z_exec ops s = Some (bs, s') \<and> dllist s' ys \<and> unlinked s' = unlinked s"
  by (rule window_list.run_refines [OF assms])

definition example_heap :: LensWM where
  "example_heap = (
     let b = \<lparr>lb_x = 0, lb_y = 0, lb_width = 1, lb_height = 1\<rparr>;
         n = \<lparr>nw_owner = None, nw_creationMask = 0, nw_currentBounds = b, nw_cachedBounds = b, nw_processEvents = False,
           nw_minWidth = 0, nw_maxWidth = 0, nw_minHeight = 0, nw_maxHeight = 0, nw_state = NWS_NORMAL,
           nw_previousWindow = None, nw_nextWindow = None, nw_view = None, nw_root = None,
           nw_isFocusable = True, nw_isVisible = False, nw_isEnabled = True\<rparr>
     in \<lparr>windows = [1 \<mapsto> n, 2 \<mapsto> n, 3 \<mapsto> n], views = Map.empty, windowList_head = None, windowList_tail = None,
       windowList_size = 0, focusedWindow = None, grabbedWindow = None, mouseWindow = None, mousePosX = 0, mousePosY = 0,
       onDraggingAction = False, dragGrabbingWindow = None, mousePressedButton = 0, touchWindow = None,
       isDnDStarted = False, modifiersMask = 0, pApplication = True, screen_width = 800, screen_height = 600,
       glass_trace = []\<rparr>)"

theorem window_list_refines_z_order_witness:
  "\<exists>s'. z_run z_exec [ZAdd 1, ZAdd 2, ZAdd 3, ZFront 1, ZBack 3, ZBack 3, ZRemove 2] example_heap =
      Some ([True, True, True, True, True, False, True], s') \<and> dllist s' [3, 1]"
proof -
  have "dllist example_heap []" by code_simp
  moreover have "\<forall>op\<in>set [ZAdd 1, ZAdd 2, ZAdd 3, ZFront 1, ZBack 3, ZBack 3, ZRemove 2]. windows example_heap (z_win op) \<noteq> None"
    by (simp add: example_heap_def Let_def)
  moreover have "z_spec_run [ZAdd 1, ZAdd 2, ZAdd 3, ZFront 1, ZBack 3, ZBack 3, ZRemove 2] [] =
      Some ([True, True, True, True, True, False, True], [3, 1])" by code_simp
  ultimately show ?thesis using window_list_refines_z_order by blast
qed

end
