(* ===== verification/LensWindowManager.thy ===== *)
theory LensWindowManager
  imports LensWindow
begin

text \<open>
  The window manager of Lens: \<^verbatim>\<open>wm/LensWindowManager.c\<close> with the functions of \<^verbatim>\<open>LensWindow.c\<close>, \<^verbatim>\<open>LensView.c\<close>,
  \<^verbatim>\<open>LensApplication.c\<close> and \<^verbatim>\<open>LensInputEvents.c\<close> that it calls. Every function takes the whole state and returns
  the new one, or \<open>None\<close> where the C code follows a pointer to memory that is not allocated.

  A report to Java, to the platform or to the screen is an entry at the end of \<open>glass_trace\<close>; the listeners
  run after the native function has returned, as they do for calls from the input thread. The mutexes
  are left out: every function is one step. Messages of the logger are left out.
\<close>

section \<open>Reports to the application\<close>

definition BUTTON_NONE :: jint where "BUTTON_NONE = 211"

definition BUTTON_LEFT :: jint where "BUTTON_LEFT = 212"

definition BUTTON_RIGHT :: jint where "BUTTON_RIGHT = 213"

definition BUTTON_OTHER :: jint where "BUTTON_OTHER = 214"

definition glass_inputEvents_updateMouseButtonModifiers :: "jint \<Rightarrow> MouseEventType \<Rightarrow> LensWM \<Rightarrow> LensWM" where
  "glass_inputEvents_updateMouseButtonModifiers button eventType s = (
     if eventType \<noteq> ME_DOWN \<and> eventType \<noteq> ME_UP then s
     else let msk = (if button = BUTTON_LEFT then 32 else if button = BUTTON_RIGHT then 64
                     else if button = BUTTON_OTHER then 128 else 0)
       in if msk \<noteq> 0 then
            (if eventType = ME_DOWN then s\<lparr>modifiersMask := modifiersMask s OR msk\<rparr>
             else s\<lparr>modifiersMask := modifiersMask s AND NOT msk\<rparr>)
          else s)"

definition glass_application_notifyWindowEvent :: "wid option \<Rightarrow> WindowEventType \<Rightarrow> LensWM \<Rightarrow> LensWM option" where
  "glass_application_notifyWindowEvent window t s = (
     if \<not> pApplication s then Some s
     else case window of None \<Rightarrow> Some s
       | Some w \<Rightarrow> do { _ \<leftarrow> windows s w; Some (emit (WindowEvent w t) s) })"

definition glass_application_notifyWindowEvent_resize ::
    "wid option \<Rightarrow> WindowEventType \<Rightarrow> jint \<Rightarrow> jint \<Rightarrow> LensWM \<Rightarrow> LensWM option" where
  "glass_application_notifyWindowEvent_resize window t width height s = (
     if \<not> pApplication s then Some s
     else case window of None \<Rightarrow> Some s
       | Some w \<Rightarrow>
         if t \<in> {WE_RESTORE, WE_MAXIMIZE, WE_MINIMIZE, WE_RESIZE}
         then do { _ \<leftarrow> windows s w; Some (emit (WindowResize w t width height) s) }
         else Some s)"

text \<open>The move event is the only one that does not look whether there is an application.\<close>

definition glass_application_notifyWindowEvent_move :: "wid option \<Rightarrow> jint \<Rightarrow> jint \<Rightarrow> LensWM \<Rightarrow> LensWM option" where
  "glass_application_notifyWindowEvent_move window x y s = (case window of
     None \<Rightarrow> Some s
   | Some w \<Rightarrow> if \<not> pApplication s then None
       else do { _ \<leftarrow> windows s w; Some (emit (WindowMove w x y) s) })"

definition glass_application_notifyViewEvent ::
    "vid option \<Rightarrow> ViewEventType \<Rightarrow> jint \<Rightarrow> jint \<Rightarrow> jint \<Rightarrow> jint \<Rightarrow> LensWM \<Rightarrow> LensWM option" where
  "glass_application_notifyViewEvent view t x y width height s = (
     if \<not> pApplication s then Some s
     else case view of None \<Rightarrow> Some s
       | Some v \<Rightarrow> do {
           nv \<leftarrow> views s v;
           if nv_lensView nv then Some (emit (ViewEvent v t x y width height) s) else Some s
         })"

definition glass_application_notifyMenuEvent ::
    "vid option \<Rightarrow> jint \<Rightarrow> jint \<Rightarrow> jint \<Rightarrow> jint \<Rightarrow> LensWM \<Rightarrow> LensWM option" where
  "glass_application_notifyMenuEvent view x y xAbs yAbs s = (
     if \<not> pApplication s then Some s
     else case view of None \<Rightarrow> Some s
       | Some v \<Rightarrow> do {
           nv \<leftarrow> views s v;
           if nv_lensView nv then Some (emit (MenuEvent v x y xAbs yAbs) s) else Some s
         })"

definition has_lens_view :: "vid option \<Rightarrow> LensWM \<Rightarrow> bool option" where
  "has_lens_view view s = (case view of None \<Rightarrow> Some False | Some v \<Rightarrow> map_option nv_lensView (views s v))"

definition glass_application_notifyMouseEvent :: "wid \<Rightarrow> MouseEventType \<Rightarrow> jint \<Rightarrow> jint \<Rightarrow> jint \<Rightarrow> jint \<Rightarrow>
    jint \<Rightarrow> LensWM \<Rightarrow> LensWM option" where
  "glass_application_notifyMouseEvent window t x y absx absy button s = (
     if \<not> pApplication s then Some s
     else do {
       n \<leftarrow> windows s window;
       if nw_isEnabled n then do {
         lens \<leftarrow> has_lens_view (nw_view n) s;
         if \<not> lens then Some s
         else do {
           let isPopupTrigger = (t = ME_UP \<and> button = BUTTON_RIGHT);
           let s = glass_inputEvents_updateMouseButtonModifiers button t s;
           v \<leftarrow> nw_view n;
           let s = emit (MouseEvent v t x y absx absy button (modifiersMask s) isPopupTrigger) s;
           if isPopupTrigger then glass_application_notifyMenuEvent (nw_view n) x y absx absy s else Some s
         }
       } else glass_application_notifyWindowEvent (Some window) WE_FOCUS_DISABLED s
     })"

definition glass_application_notifyScrollEvent :: "wid \<Rightarrow> jint \<Rightarrow> jint \<Rightarrow> jint \<Rightarrow> jint \<Rightarrow> jint \<Rightarrow> LensWM \<Rightarrow>
    LensWM option" where
  "glass_application_notifyScrollEvent window x y xabs yabs dy s = (
     if \<not> pApplication s then Some s
     else do {
       n \<leftarrow> windows s window;
       lens \<leftarrow> has_lens_view (nw_view n) s;
       if \<not> lens then Some s
       else do { v \<leftarrow> nw_view n; Some (emit (ScrollEvent v x y xabs yabs dy (modifiersMask s)) s) }
     })"

text \<open>The first \<open>count\<close> entries of an array, which JNI copies.\<close>

definition region :: "'a list \<Rightarrow> jint \<Rightarrow> 'a list option" where
  "region xs count = (if 0 \<le> count \<and> count \<le> int (length xs) then Some (take (nat count) xs) else None)"

definition glass_application_notifyMultiTouchEvent :: "wid \<Rightarrow> jint \<Rightarrow> jint list \<Rightarrow> jlong list \<Rightarrow> jint list \<Rightarrow> jint list \<Rightarrow>
    jint \<Rightarrow> jint \<Rightarrow> LensWM \<Rightarrow> LensWM option" where
  "glass_application_notifyMultiTouchEvent window count states ids xs ys dx dy s = (
     if \<not> pApplication s then Some s
     else do {
       n \<leftarrow> windows s window;
       if nw_isEnabled n then do {
         lens \<leftarrow> has_lens_view (nw_view n) s;
         if \<not> lens then Some s
         else do {
           v \<leftarrow> nw_view n;
           if count = 1 then do {
             st \<leftarrow> load states 0; i \<leftarrow> load ids 0; x \<leftarrow> load xs 0; y \<leftarrow> load ys 0;
             Some (emit (TouchEvent v st i (s32 (x + dx)) (s32 (y + dy)) x y) s)
           } else do {
             st \<leftarrow> region states count; is \<leftarrow> region ids count; rx \<leftarrow> region xs count; ry \<leftarrow> region ys count;
             Some (emit (MultiTouchEvent v st is rx ry dx dy) s)
           }
         }
       } else glass_application_notifyWindowEvent (Some window) WE_FOCUS_DISABLED s
     })"

text \<open>Java keeps the list of windows that are painted; the two calls read the window's Java object.\<close>

definition glass_application_addWindowToVisibleWindowList :: "wid \<Rightarrow> LensWM \<Rightarrow> LensWM option" where
  "glass_application_addWindowToVisibleWindowList window s = do {
     _ \<leftarrow> windows s window;
     Some (emit (VisibleListAdd window) s)
   }"

definition glass_application_RemoveWindowFromVisibleWindowList :: "wid \<Rightarrow> LensWM \<Rightarrow> LensWM option" where
  "glass_application_RemoveWindowFromVisibleWindowList window s = do {
     _ \<leftarrow> windows s window;
     Some (emit (VisibleListRemove window) s)
   }"

text \<open>
  The platform is told about minimisation and visibility; on the frame buffer platforms
  (\<^verbatim>\<open>wm/screen/fbdevScreen.c\<close>) both calls do nothing.
\<close>

definition lens_platform_windowMinimize :: "wid \<Rightarrow> bool \<Rightarrow> LensWM \<Rightarrow> LensWM option" where
  "lens_platform_windowMinimize window toMinimize s = Some (emit (PlatformMinimize window toMinimize) s)"

definition lens_platform_windowSetVisible :: "wid \<Rightarrow> bool \<Rightarrow> LensWM \<Rightarrow> LensWM option" where
  "lens_platform_windowSetVisible window visible s = Some (emit (PlatformSetVisible window visible) s)"

section \<open>Repainting\<close>

definition lens_wm_repaint_all :: "LensWM \<Rightarrow> LensWM option" where
  "lens_wm_repaint_all s = do {
     r \<leftarrow> window_walk (windows s) nw_nextWindow
       (\<lambda>w n acc. Inr (if nw_view n \<noteq> None then do {
            s \<leftarrow> acc;
            glass_application_notifyViewEvent (nw_view n) VE_REPAINT
              (lb_x (nw_currentBounds n)) (lb_y (nw_currentBounds n))
              (lb_width (nw_currentBounds n)) (lb_height (nw_currentBounds n)) s
          } else acc)) (windowList_head s) (Some s);
     case r of Inl b \<Rightarrow> b | Inr acc \<Rightarrow> acc
   }"

definition lens_wm_repaint :: "wid option \<Rightarrow> LensWM \<Rightarrow> LensWM option" where
  "lens_wm_repaint window s = (
     let s = emit ScreenClear s
     in case window of None \<Rightarrow> Some s
       | Some w \<Rightarrow> do {
           n \<leftarrow> windows s w;
           if nw_view n \<noteq> None then
             glass_application_notifyViewEvent (nw_view n) VE_REPAINT
               (lb_x (nw_currentBounds n)) (lb_y (nw_currentBounds n))
               (lb_width (nw_currentBounds n)) (lb_height (nw_currentBounds n)) s
           else Some s
         })"

section \<open>Focus and grab\<close>

definition glass_window_ungrabFocus :: "wid option \<Rightarrow> LensWM \<Rightarrow> LensWM option" where
  "glass_window_ungrabFocus window s = (
     if window = None then Some s
     else if window \<noteq> grabbedWindow s then Some s
     else glass_application_notifyWindowEvent window WE_FOCUS_UNGRAB (s\<lparr>grabbedWindow := None\<rparr>))"

definition glass_window_grabFocus :: "wid \<Rightarrow> LensWM \<Rightarrow> bool \<times> LensWM" where
  "glass_window_grabFocus window s = (
     if grabbedWindow s = Some window then (True, s)
     else if grabbedWindow s = None \<and> focusedWindow s = Some window
     then (True, s\<lparr>grabbedWindow := Some window\<rparr>)
     else (False, s))"

definition lens_wm_setFocusedWindow :: "wid option \<Rightarrow> LensWM \<Rightarrow> LensWM option" where
  "lens_wm_setFocusedWindow window s = (
     if window \<noteq> focusedWindow s then do {
       s \<leftarrow> (if focusedWindow s \<noteq> None then do {
               let focused = focusedWindow s;
               s \<leftarrow> glass_window_ungrabFocus focused s;
               glass_application_notifyWindowEvent focused WE_FOCUS_LOST s
             } else Some s);
       let s = s\<lparr>focusedWindow := window\<rparr>;
       if window \<noteq> None then glass_application_notifyWindowEvent window WE_FOCUS_GAINED s else Some s
     } else Some s)"

definition next_focusable :: "NativeWindow \<Rightarrow> bool" where
  "next_focusable n \<longleftrightarrow> nw_isVisible n \<and> nw_state n \<noteq> NWS_MINIMIZED \<and> nw_owner n = None \<and> nw_isFocusable n"

definition lens_wm_unsetFocusedWindow :: "wid \<Rightarrow> LensWM \<Rightarrow> (wid option \<times> LensWM) option" where
  "lens_wm_unsetFocusedWindow window s = (
     if focusedWindow s = Some window then do {
       s \<leftarrow> glass_window_ungrabFocus (Some window) s;
       s \<leftarrow> lens_wm_setFocusedWindow None s;
       r \<leftarrow> window_walk (windows s) nw_previousWindow
              (\<lambda>w n acc. if next_focusable n then Inl w else Inr acc) (windowList_tail s) ();
       case r of
         Inl w \<Rightarrow> do { s \<leftarrow> lens_wm_setFocusedWindow (Some w) s; Some (Some w, s) }
       | Inr _ \<Rightarrow> Some (None, s)
     } else Some (focusedWindow s, s))"

definition glass_window_requestFocus :: "wid option \<Rightarrow> LensWM \<Rightarrow> (bool \<times> LensWM) option" where
  "glass_window_requestFocus window s = (case window of
     None \<Rightarrow> Some (False, s)
   | Some w \<Rightarrow>
       if focusedWindow s = window then Some (True, s)
       else do {
         n \<leftarrow> windows s w;
         if \<not> nw_isFocusable n then Some (False, s)
         else if \<not> nw_isEnabled n then Some (False, s)
         else if \<not> nw_isVisible n then Some (False, s)
         else do { s \<leftarrow> lens_wm_setFocusedWindow window s; Some (True, s) }
       })"

definition glass_window_setFocusable :: "wid \<Rightarrow> bool \<Rightarrow> LensWM \<Rightarrow> LensWM option" where
  "glass_window_setFocusable window isFocusable s = do {
     n \<leftarrow> windows s window;
     if nw_isFocusable n = isFocusable then Some s
     else do {
       s \<leftarrow> (if \<not> isFocusable \<and> focusedWindow s = Some window then lens_wm_setFocusedWindow None s else Some s);
       win_upd window (\<lambda>n. n\<lparr>nw_isFocusable := isFocusable\<rparr>) s
     }
   }"

section \<open>Bounds and states of a window\<close>

definition lens_wm_windowCacheBounds :: "wid \<Rightarrow> LensWM \<Rightarrow> LensWM option" where
  "lens_wm_windowCacheBounds window s = win_upd window (\<lambda>n. n\<lparr>nw_cachedBounds := nw_currentBounds n\<rparr>) s"

definition lens_wm_windowUncacheBounds :: "wid \<Rightarrow> LensWM \<Rightarrow> LensWM option" where
  "lens_wm_windowUncacheBounds window s = win_upd window (\<lambda>n. n\<lparr>nw_currentBounds := nw_cachedBounds n\<rparr>) s"

definition check_dimension :: "jint \<Rightarrow> jint \<Rightarrow> jint \<Rightarrow> bool \<times> jint" where
  "check_dimension mn mx v = (
     if mn > 0 \<and> v < mn then (False, mn)
     else if mx > 0 \<and> v > mx then (False, mx)
     else (True, v))"

definition glass_window_check_bounds :: "NativeWindow \<Rightarrow> jint \<Rightarrow> jint \<Rightarrow> bool \<times> jint \<times> jint" where
  "glass_window_check_bounds n width height = (
     let (validW, w) = check_dimension (nw_minWidth n) (nw_maxWidth n) width;
         (validH, h) = check_dimension (nw_minHeight n) (nw_maxHeight n) height
     in (validW \<and> validH, w, h))"

definition update_size :: "wid \<Rightarrow> jint \<Rightarrow> jint \<Rightarrow> bool \<Rightarrow> LensWM \<Rightarrow> LensWM option" where
  "update_size window width height needToUpdateSize s = do {
     n \<leftarrow> windows s window;
     if needToUpdateSize \<and> (lb_width (nw_currentBounds n) \<noteq> width \<or> lb_height (nw_currentBounds n) \<noteq> height)
     then do {
       s \<leftarrow> win_upd window (\<lambda>n. n\<lparr>nw_currentBounds := (nw_currentBounds n)\<lparr>lb_width := width, lb_height := height\<rparr>\<rparr>) s;
       glass_application_notifyWindowEvent_resize (Some window) WE_RESIZE width height s
     } else Some s
   }"

definition update_position :: "wid \<Rightarrow> jint \<Rightarrow> jint \<Rightarrow> bool \<Rightarrow> LensWM \<Rightarrow> LensWM option" where
  "update_position window x y needToUpdatePostion s = do {
     n \<leftarrow> windows s window;
     if needToUpdatePostion \<and> (lb_x (nw_currentBounds n) \<noteq> x \<or> lb_y (nw_currentBounds n) \<noteq> y)
     then do {
       s \<leftarrow> win_upd window (\<lambda>n. n\<lparr>nw_currentBounds := (nw_currentBounds n)\<lparr>lb_x := x, lb_y := y\<rparr>\<rparr>) s;
       s \<leftarrow> glass_application_notifyWindowEvent_move (Some window) x y s;
       lens_wm_repaint (Some window) s
     } else Some s
   }"

definition glass_window_setBoundsImpl :: "wid \<Rightarrow> jint \<Rightarrow> jint \<Rightarrow> jint \<Rightarrow> jint \<Rightarrow> bool \<Rightarrow> bool \<Rightarrow> bool \<Rightarrow>
    LensWM \<Rightarrow> LensWM option" where
  "glass_window_setBoundsImpl window x y width height needToUpdatePostion needToUpdateSize isContentSize s = do {
     let needToUpdateSize = (if isContentSize \<and> \<not> needToUpdateSize then isContentSize else needToUpdateSize);
     s \<leftarrow> update_size window width height needToUpdateSize s;
     update_position window x y needToUpdatePostion s
   }"

definition set_state :: "wid \<Rightarrow> NativeWindowState \<Rightarrow> LensWM \<Rightarrow> LensWM option" where
  "set_state window st s = win_upd window (\<lambda>n. n\<lparr>nw_state := st\<rparr>) s"

definition leave_state :: "wid \<Rightarrow> LensWM \<Rightarrow> LensWM option" where
  "leave_state window s = do {
     n \<leftarrow> windows s window;
     case nw_state n of
       NWS_MINIMIZED \<Rightarrow> do {
         s \<leftarrow> lens_platform_windowMinimize window False s;
         if nw_isVisible n then glass_application_addWindowToVisibleWindowList window s else Some s
       }
     | NWS_FULLSCREEN \<Rightarrow>
         glass_application_notifyViewEvent (nw_view n) VE_FULLSCREEN_EXIT
           (lb_x (nw_cachedBounds n)) (lb_y (nw_cachedBounds n))
           (lb_width (nw_cachedBounds n)) (lb_height (nw_cachedBounds n)) s
     | _ \<Rightarrow> Some s
   }"

definition lens_wm_windowRestore :: "wid \<Rightarrow> LensWM \<Rightarrow> LensWM option" where
  "lens_wm_windowRestore window s = do {
     n \<leftarrow> windows s window;
     if nw_state n = NWS_NORMAL then Some s
     else do {
       s \<leftarrow> leave_state window s;
       s \<leftarrow> set_state window NWS_NORMAL s;
       n \<leftarrow> windows s window;
       s \<leftarrow> glass_window_setBoundsImpl window (lb_x (nw_cachedBounds n)) (lb_y (nw_cachedBounds n))
              (lb_width (nw_cachedBounds n)) (lb_height (nw_cachedBounds n)) True True False s;
       s \<leftarrow> lens_wm_windowUncacheBounds window s;
       n \<leftarrow> windows s window;
       s \<leftarrow> glass_application_notifyWindowEvent_resize (Some window) WE_RESTORE
              (lb_width (nw_currentBounds n)) (lb_height (nw_currentBounds n)) s;
       lens_wm_setFocusedWindow (Some window) s
     }
   }"

definition lens_wm_windowMinimize :: "wid \<Rightarrow> LensWM \<Rightarrow> LensWM option" where
  "lens_wm_windowMinimize window s = do {
     n \<leftarrow> windows s window;
     if nw_state n = NWS_MINIMIZED then Some s
     else do {
       s \<leftarrow> (if nw_state n = NWS_FULLSCREEN then lens_wm_windowRestore window s else Some s);
       s \<leftarrow> lens_wm_windowCacheBounds window s;
       s \<leftarrow> lens_platform_windowMinimize window True s;
       s \<leftarrow> set_state window NWS_MINIMIZED s;
       (_, s) \<leftarrow> lens_wm_unsetFocusedWindow window s;
       s \<leftarrow> glass_application_RemoveWindowFromVisibleWindowList window s;
       n \<leftarrow> windows s window;
       glass_application_notifyWindowEvent_resize (Some window) WE_MINIMIZE
         (lb_width (nw_cachedBounds n)) (lb_height (nw_cachedBounds n)) s
     }
   }"

definition maximized_bounds :: "NativeWindow \<Rightarrow> LensWM \<Rightarrow> jint \<times> jint \<times> jint \<times> jint" where
  "maximized_bounds n s = (
     let (valid, width, height) = glass_window_check_bounds n (screen_width s) (screen_height s)
     in if valid then (0, 0, width, height)
        else if width > lb_width (nw_currentBounds n) \<or> height > lb_height (nw_currentBounds n)
        then (s32 (screen_width s - width - 1), s32 (screen_height s - height - 1), width, height)
        else (lb_x (nw_currentBounds n), lb_y (nw_currentBounds n), width, height))"

definition lens_wm_windowMaximize :: "wid \<Rightarrow> LensWM \<Rightarrow> LensWM option" where
  "lens_wm_windowMaximize window s = do {
     n \<leftarrow> windows s window;
     if nw_state n = NWS_MAXIMIZED then Some s
     else do {
       s \<leftarrow> (if nw_state n = NWS_MINIMIZED \<or> nw_state n = NWS_FULLSCREEN
             then lens_wm_windowRestore window s else Some s);
       s \<leftarrow> lens_wm_windowCacheBounds window s;
       n \<leftarrow> windows s window;
       let (x, y, width, height) = maximized_bounds n s;
       s \<leftarrow> glass_window_setBoundsImpl window x y width height True True False s;
       s \<leftarrow> set_state window NWS_MAXIMIZED s;
       s \<leftarrow> glass_application_notifyWindowEvent_resize (Some window) WE_MAXIMIZE width height s;
       lens_wm_setFocusedWindow (Some window) s
     }
   }"

definition lens_wm_windowEnterFullscreen :: "wid \<Rightarrow> LensWM \<Rightarrow> LensWM option" where
  "lens_wm_windowEnterFullscreen window s = do {
     n \<leftarrow> windows s window;
     if nw_state n = NWS_FULLSCREEN then Some s
     else do {
       s \<leftarrow> (if nw_state n = NWS_MINIMIZED then lens_wm_windowRestore window s else Some s);
       s \<leftarrow> lens_wm_windowCacheBounds window s;
       s \<leftarrow> glass_window_setBoundsImpl window 0 0 (screen_width s) (screen_height s) True True False s;
       n \<leftarrow> windows s window;
       s \<leftarrow> glass_application_notifyViewEvent (nw_view n) VE_FULLSCREEN_ENTER
              (lb_x (nw_currentBounds n)) (lb_y (nw_currentBounds n))
              (lb_width (nw_currentBounds n)) (lb_height (nw_currentBounds n)) s;
       s \<leftarrow> lens_wm_setFocusedWindow (Some window) s;
       set_state window NWS_FULLSCREEN s
     }
   }"

definition glass_window_setVisible :: "wid \<Rightarrow> bool \<Rightarrow> LensWM \<Rightarrow> LensWM option" where
  "glass_window_setVisible window visible s = do {
     s \<leftarrow> lens_platform_windowSetVisible window visible s;
     s \<leftarrow> win_upd window (\<lambda>n. n\<lparr>nw_isVisible := visible\<rparr>) s;
     if \<not> visible then do { (_, s) \<leftarrow> lens_wm_unsetFocusedWindow window s; Some s }
     else do {
       n \<leftarrow> windows s window;
       if nw_isFocusable n \<and> nw_isEnabled n then lens_wm_setFocusedWindow (Some window) s else Some s
     }
   }"

definition glass_window_toFront :: "wid \<Rightarrow> LensWM \<Rightarrow> LensWM option" where
  "glass_window_toFront window s = do {
     (b, s) \<leftarrow> glass_window_list_toFront window s;
     if b then lens_wm_repaint (Some window) s else Some s
   }"

definition glass_window_toBack :: "wid \<Rightarrow> LensWM \<Rightarrow> LensWM option" where
  "glass_window_toBack window s = do {
     (b, s) \<leftarrow> glass_window_list_toBack window s;
     if b then lens_wm_repaint (Some window) s else Some s
   }"

definition fit_size :: "wid \<Rightarrow> LensWM \<Rightarrow> LensWM option" where
  "fit_size window s = do {
     n \<leftarrow> windows s window;
     let (_, width, height) = glass_window_check_bounds n (lb_width (nw_currentBounds n)) (lb_height (nw_currentBounds n));
     if width \<noteq> lb_width (nw_currentBounds n) \<or> height \<noteq> lb_height (nw_currentBounds n)
     then glass_window_setBoundsImpl window 0 0 width height False True False s
     else Some s
   }"

definition glass_window_setMinimumSize :: "wid \<Rightarrow> jint \<Rightarrow> jint \<Rightarrow> LensWM \<Rightarrow> LensWM option" where
  "glass_window_setMinimumSize window width height s = do {
     s \<leftarrow> win_upd window (\<lambda>n. n\<lparr>nw_minWidth := width, nw_minHeight := height\<rparr>) s;
     fit_size window s
   }"

definition glass_window_setMaximumSize :: "wid \<Rightarrow> jint \<Rightarrow> jint \<Rightarrow> LensWM \<Rightarrow> LensWM option" where
  "glass_window_setMaximumSize window width height s = do {
     s \<leftarrow> win_upd window (\<lambda>n. n\<lparr>nw_maxWidth := width, nw_maxHeight := height\<rparr>) s;
     fit_size window s
   }"

definition glass_window_minimize :: "wid \<Rightarrow> bool \<Rightarrow> LensWM \<Rightarrow> LensWM option" where
  "glass_window_minimize window toMinimize s =
     (if toMinimize then lens_wm_windowMinimize window s else lens_wm_windowRestore window s)"

definition glass_window_maximize :: "wid \<Rightarrow> bool \<Rightarrow> bool \<Rightarrow> LensWM \<Rightarrow> (bool \<times> LensWM) option" where
  "glass_window_maximize window toMaximize isMaximized s = (
     if toMaximize \<and> \<not> isMaximized then do { s \<leftarrow> lens_wm_windowMaximize window s; Some (True, s) }
     else if \<not> toMaximize \<and> isMaximized then do { s \<leftarrow> lens_wm_windowRestore window s; Some (True, s) }
     else Some (False, s))"

section \<open>Input events\<close>

definition hit :: "jint \<Rightarrow> jint \<Rightarrow> NativeWindow \<Rightarrow> bool" where
  "hit absX absY n \<longleftrightarrow> nw_isVisible n \<and> nw_state n \<noteq> NWS_MINIMIZED \<and>
     (let b = nw_currentBounds n
      in absX \<ge> lb_x b \<and> absX < s32 (lb_x b + lb_width b) \<and>
         absY \<ge> lb_y b \<and> absY < s32 (lb_y b + lb_height b)) \<and>
     nw_isEnabled n"

definition glass_window_findWindowAtLocation :: "jint \<Rightarrow> jint \<Rightarrow> LensWM \<Rightarrow> (wid \<times> jint \<times> jint) option option" where
  "glass_window_findWindowAtLocation absX absY s = do {
     r \<leftarrow> window_walk (windows s) nw_previousWindow
       (\<lambda>w n acc. if hit absX absY n
          then Inl (w, s32 (absX - lb_x (nw_currentBounds n)), s32 (absY - lb_y (nw_currentBounds n)))
          else Inr acc) (windowList_tail s) ();
     Some (case r of Inl x \<Rightarrow> Some x | Inr _ \<Rightarrow> None)
   }"

definition break_grab :: "wid option \<Rightarrow> LensWM \<Rightarrow> LensWM option" where
  "break_grab window s = (case grabbedWindow s of
     None \<Rightarrow> Some s
   | Some g \<Rightarrow> (case window of
       None \<Rightarrow> glass_window_ungrabFocus (Some g) s
     | Some w \<Rightarrow> do {
         n \<leftarrow> windows s w;
         gn \<leftarrow> windows s g;
         if nw_root n \<noteq> nw_root gn then glass_window_ungrabFocus (Some g) s else Some s
       }))"

definition handleClickOrTouchEvent :: "jint \<Rightarrow> jint \<Rightarrow> LensWM \<Rightarrow> LensWM option" where
  "handleClickOrTouchEvent xabs yabs s = do {
     found \<leftarrow> glass_window_findWindowAtLocation xabs yabs s;
     let window = map_option fst found;
     s \<leftarrow> break_grab window s;
     case window of
       None \<Rightarrow> Some s
     | Some w \<Rightarrow> (case focusedWindow s of
         None \<Rightarrow> Some s
       | Some f \<Rightarrow> do {
           n \<leftarrow> windows s w;
           fn \<leftarrow> windows s f;
           if nw_root n \<noteq> nw_root fn then lens_wm_setFocusedWindow (Some w) s else Some s
         })
   }"

definition lens_wm_notifyScrollEvent :: "jint \<Rightarrow> jint \<Rightarrow> jint \<Rightarrow> LensWM \<Rightarrow> LensWM option" where
  "lens_wm_notifyScrollEvent xabs yabs step s = do {
     found \<leftarrow> glass_window_findWindowAtLocation xabs yabs s;
     case found of
       None \<Rightarrow> Some s
     | Some (w, relX, relY) \<Rightarrow> glass_application_notifyScrollEvent w relX relY xabs yabs step s
   }"

text \<open>A mouse event at the current position, with coordinates relative to a window.\<close>

definition mouse_at :: "wid \<Rightarrow> MouseEventType \<Rightarrow> jint \<Rightarrow> LensWM \<Rightarrow> LensWM option" where
  "mouse_at w t button s = do {
     n \<leftarrow> windows s w;
     glass_application_notifyMouseEvent w t
       (s32 (mousePosX s - lb_x (nw_currentBounds n))) (s32 (mousePosY s - lb_y (nw_currentBounds n)))
       (mousePosX s) (mousePosY s) button s
   }"

text \<open>
  The variables \<open>relX\<close> and \<open>relY\<close> of the callers are not initialised; they have a value only when a window is
  found, or when the window that grabs the mouse is left. In the second case they are relative to
  that window, although the window that is returned is another one.
\<close>

definition enter_exit_drag :: "wid \<Rightarrow> wid option \<Rightarrow> (jint \<times> jint) option \<Rightarrow> LensWM \<Rightarrow>
    ((jint \<times> jint) option \<times> LensWM) option" where
  "enter_exit_drag d window rel s = (
     if window \<noteq> Some d \<and> mouseWindow s = Some d then do {
       n \<leftarrow> windows s d;
       let rel = (s32 (mousePosX s - lb_x (nw_currentBounds n)), s32 (mousePosY s - lb_y (nw_currentBounds n)));
       s \<leftarrow> glass_application_notifyMouseEvent d ME_EXIT (fst rel) (snd rel) (mousePosX s) (mousePosY s) BUTTON_NONE s;
       Some (Some rel, s)
     } else if window = Some d \<and> window \<noteq> mouseWindow s then do {
       r \<leftarrow> rel;
       s \<leftarrow> glass_application_notifyMouseEvent d ME_ENTER (fst r) (snd r) (mousePosX s) (mousePosY s) BUTTON_NONE s;
       Some (rel, s)
     } else Some (rel, s))"

definition enter_exit_free :: "wid option \<Rightarrow> (jint \<times> jint) option \<Rightarrow> LensWM \<Rightarrow> LensWM option" where
  "enter_exit_free window rel s = (
     if window \<noteq> mouseWindow s then do {
       s \<leftarrow> (case mouseWindow s of None \<Rightarrow> Some s | Some l \<Rightarrow> mouse_at l ME_EXIT BUTTON_NONE s);
       case window of
         None \<Rightarrow> Some s
       | Some w \<Rightarrow> do {
           r \<leftarrow> rel;
           glass_application_notifyMouseEvent w ME_ENTER (fst r) (snd r) (mousePosX s) (mousePosY s) BUTTON_NONE s
         }
     } else Some s)"

definition lens_wm_notifyEnterExitEvents :: "LensWM \<Rightarrow> ((wid option \<times> (jint \<times> jint) option) \<times> LensWM) option" where
  "lens_wm_notifyEnterExitEvents s = do {
     found \<leftarrow> glass_window_findWindowAtLocation (mousePosX s) (mousePosY s) s;
     let window = map_option fst found;
     let rel = map_option snd found;
     (rel, s) \<leftarrow> (case dragGrabbingWindow s of
        Some d \<Rightarrow> if onDraggingAction s then enter_exit_drag d window rel s else Some (rel, s)
      | None \<Rightarrow> Some (rel, s));
     s \<leftarrow> (if \<not> onDraggingAction s then enter_exit_free window rel s else Some s);
     Some ((window, rel), s)
   }"

definition stop_drag :: "LensWM \<Rightarrow> LensWM" where
  "stop_drag s = s\<lparr>onDraggingAction := False, dragGrabbingWindow := None\<rparr>"

definition track_button :: "bool \<Rightarrow> jint \<Rightarrow> LensWM \<Rightarrow> LensWM" where
  "track_button pressed button s = (
     if mousePressedButton s = BUTTON_NONE then
       (if onDraggingAction s then stop_drag s else s)\<lparr>mousePressedButton := button\<rparr>
     else if \<not> pressed \<and> button = mousePressedButton s then stop_drag (s\<lparr>mousePressedButton := BUTTON_NONE\<rparr>)
     else s)"

definition send_button :: "bool \<Rightarrow> jint \<Rightarrow> wid option \<Rightarrow> (jint \<times> jint) option \<Rightarrow> LensWM \<Rightarrow> LensWM option" where
  "send_button pressed button window rel s = (
     if onDraggingAction s then do {
       s \<leftarrow> (case dragGrabbingWindow s of None \<Rightarrow> Some s | Some d \<Rightarrow> mouse_at d ME_UP button s);
       Some (if button = mousePressedButton s then stop_drag s else s)
     } else (case window of
       None \<Rightarrow> Some s
     | Some w \<Rightarrow> do {
         r \<leftarrow> rel;
         glass_application_notifyMouseEvent w (if pressed then ME_DOWN else ME_UP) (fst r) (snd r)
           (mousePosX s) (mousePosY s) button s
       }))"

definition lens_wm_notifyButtonEvent :: "bool \<Rightarrow> jint \<Rightarrow> jint \<Rightarrow> jint \<Rightarrow> LensWM \<Rightarrow> LensWM option" where
  "lens_wm_notifyButtonEvent pressed button xabs yabs s = do {
     let s = s\<lparr>mousePosX := xabs, mousePosY := yabs\<rparr>;
     ((window, rel), s) \<leftarrow> lens_wm_notifyEnterExitEvents s;
     let s = track_button pressed button (s\<lparr>mouseWindow := window\<rparr>);
     s \<leftarrow> send_button pressed button window rel s;
     handleClickOrTouchEvent xabs yabs s
   }"

definition start_drag :: "LensWM \<Rightarrow> LensWM" where
  "start_drag s = (
     if mousePressedButton s \<noteq> BUTTON_NONE \<and> \<not> onDraggingAction s \<and> \<not> isDnDStarted s
     then s\<lparr>onDraggingAction := True, dragGrabbingWindow := mouseWindow s\<rparr> else s)"

definition lens_wm_notifyMotionEvent :: "jint \<Rightarrow> jint \<Rightarrow> LensWM \<Rightarrow> LensWM option" where
  "lens_wm_notifyMotionEvent x y s = do {
     let s = emit (CursorPosition x y) (s\<lparr>mousePosX := x, mousePosY := y\<rparr>);
     let s = start_drag s;
     ((window, rel), s) \<leftarrow> lens_wm_notifyEnterExitEvents s;
     let s = s\<lparr>mouseWindow := window\<rparr>;
     if onDraggingAction s then
       (case dragGrabbingWindow s of None \<Rightarrow> Some s | Some d \<Rightarrow> mouse_at d ME_MOVE BUTTON_NONE s)
     else (case window of
       None \<Rightarrow> Some s
     | Some w \<Rightarrow> do {
         r \<leftarrow> rel;
         glass_application_notifyMouseEvent w ME_MOVE (fst r) (snd r) (mousePosX s) (mousePosY s) BUTTON_NONE s
       })
   }"

definition TOUCH_PRESSED :: jint where "TOUCH_PRESSED = 811"

definition TOUCH_MOVED :: jint where "TOUCH_MOVED = 812"

definition TOUCH_RELEASED :: jint where "TOUCH_RELEASED = 813"

definition TOUCH_STILL :: jint where "TOUCH_STILL = 814"

text \<open>The loop over the states of the points; \<open>k\<close> points are left.\<close>

fun all_pressed :: "nat \<Rightarrow> jint \<Rightarrow> jint list \<Rightarrow> bool option" where
  "all_pressed 0 i states = Some True"
| "all_pressed (Suc k) i states = do {
     st \<leftarrow> load states i;
     if st \<noteq> TOUCH_PRESSED then Some False else all_pressed k (i + 1) states
   }"

definition find_touch_window :: "jint \<Rightarrow> jint list \<Rightarrow> jint list \<Rightarrow> jint list \<Rightarrow> jint \<Rightarrow> LensWM \<Rightarrow> LensWM option" where
  "find_touch_window count states xabs yabs primaryPointIndex s = (
     if touchWindow s = None \<and> primaryPointIndex \<ge> 0 \<and> \<not> onDraggingAction s then do {
       x \<leftarrow> load xabs primaryPointIndex;
       y \<leftarrow> load yabs primaryPointIndex;
       found \<leftarrow> glass_window_findWindowAtLocation x y s;
       case found of
         None \<Rightarrow> Some (s\<lparr>touchWindow := None\<rparr>)
       | Some (w, _) \<Rightarrow> do {
           first \<leftarrow> all_pressed (nat count) 0 states;
           Some (s\<lparr>touchWindow := (if first then Some w else None)\<rparr>)
         }
     } else Some s)"

definition touch_to_mouse :: "jint list \<Rightarrow> jint list \<Rightarrow> jint list \<Rightarrow> jint \<Rightarrow> LensWM \<Rightarrow> LensWM option" where
  "touch_to_mouse states xabs yabs primaryPointIndex s = (
     if primaryPointIndex = - 1 then lens_wm_notifyButtonEvent False BUTTON_LEFT (mousePosX s) (mousePosY s) s
     else do {
       absX \<leftarrow> load xabs primaryPointIndex;
       absY \<leftarrow> load yabs primaryPointIndex;
       st \<leftarrow> load states primaryPointIndex;
       if st = TOUCH_PRESSED then do {
         s \<leftarrow> (if absX \<noteq> mousePosX s \<or> absY \<noteq> mousePosY s then lens_wm_notifyMotionEvent absX absY s else Some s);
         s \<leftarrow> lens_wm_notifyButtonEvent True BUTTON_LEFT absX absY s;
         Some (emit (CursorPosition absX absY) s)
       } else if st = TOUCH_MOVED then lens_wm_notifyMotionEvent absX absY s
       else if st = TOUCH_STILL then Some (s\<lparr>mousePosX := absX, mousePosY := absY\<rparr>)
       else Some s
     })"

definition deliver_touch :: "jint \<Rightarrow> jint list \<Rightarrow> jlong list \<Rightarrow> jint list \<Rightarrow> jint list \<Rightarrow> jint \<Rightarrow> LensWM \<Rightarrow> LensWM option" where
  "deliver_touch count states ids xabs yabs primaryPointIndex s = (case touchWindow s of
     None \<Rightarrow> Some s
   | Some w \<Rightarrow> do {
       ex \<leftarrow> glass_window_isExist (Some w) s;
       if ex then do {
         n \<leftarrow> windows s w;
         s \<leftarrow> glass_application_notifyMultiTouchEvent w count states ids xabs yabs
                (s32 (- lb_x (nw_currentBounds n))) (s32 (- lb_y (nw_currentBounds n))) s;
         Some (if primaryPointIndex = - 1 then s\<lparr>touchWindow := None\<rparr> else s)
       } else Some s
     })"

definition lens_wm_notifyMultiTouchEvent :: "jint \<Rightarrow> jint list \<Rightarrow> jlong list \<Rightarrow> jint list \<Rightarrow> jint list \<Rightarrow> jint \<Rightarrow>
    LensWM \<Rightarrow> LensWM option" where
  "lens_wm_notifyMultiTouchEvent count states ids xabs yabs primaryPointIndex s = do {
     s \<leftarrow> find_touch_window count states xabs yabs primaryPointIndex s;
     s \<leftarrow> touch_to_mouse states xabs yabs primaryPointIndex s;
     deliver_touch count states ids xabs yabs primaryPointIndex s
   }"

definition notify_lens_wm_DnDStarted :: "LensWM \<Rightarrow> LensWM" where
  "notify_lens_wm_DnDStarted s = stop_drag (s\<lparr>isDnDStarted := True\<rparr>)"

definition notify_lens_wm_DnDEnded :: "LensWM \<Rightarrow> LensWM" where
  "notify_lens_wm_DnDEnded s = s\<lparr>isDnDStarted := False\<rparr>"

definition lens_wm_setPointerPosition :: "jint \<Rightarrow> jint \<Rightarrow> LensWM \<Rightarrow> LensWM" where
  "lens_wm_setPointerPosition x y s = emit (CursorPosition x y) (s\<lparr>mousePosX := x, mousePosY := y\<rparr>)"

section \<open>Life of windows and views\<close>

definition reset_pointers :: "wid \<Rightarrow> LensWM \<Rightarrow> LensWM" where
  "reset_pointers window s = (
     let s = (if mouseWindow s = Some window then s\<lparr>mouseWindow := None\<rparr> else s);
         s = (if grabbedWindow s = Some window then s\<lparr>grabbedWindow := None\<rparr> else s)
     in if focusedWindow s = Some window then s\<lparr>focusedWindow := None\<rparr> else s)"

definition lens_wm_notifyPlatformWindowRelease :: "wid \<Rightarrow> LensWM \<Rightarrow> LensWM option" where
  "lens_wm_notifyPlatformWindowRelease window s = do {
     let s = reset_pointers window s;
     case windowList_head s of
       None \<Rightarrow> Some s
     | Some h \<Rightarrow> do {
         n \<leftarrow> windows s h;
         if nw_view n \<noteq> None then lens_wm_repaint (Some h) s else Some s
       }
   }"

fun notify_close :: "wid list \<Rightarrow> LensWM \<Rightarrow> LensWM option" where
  "notify_close [] s = Some s"
| "notify_close (w # ws) s = do {
     s \<leftarrow> glass_application_notifyWindowEvent (Some w) WE_CLOSE s;
     notify_close ws s
   }"

text \<open>The result is a \<open>LensResult\<close>; the branch of the open view returns \<open>JNI_FALSE\<close>, which is \<open>LENS_OK\<close>.\<close>

definition glass_window_NativeWindow_release :: "wid option \<Rightarrow> LensWM \<Rightarrow> (jint \<times> LensWM) option" where
  "glass_window_NativeWindow_release window s = do {
     r \<leftarrow> window_walk (windows s) nw_nextWindow
            (\<lambda>w n acc. Inr (if nw_owner n = window then acc @ [w] else acc)) (windowList_head s) [];
     s \<leftarrow> notify_close (case r of Inl ws \<Rightarrow> ws | Inr ws \<Rightarrow> ws) s;
     s \<leftarrow> glass_window_list_remove window s;
     w \<leftarrow> window;
     s \<leftarrow> win_upd w (\<lambda>n. n\<lparr>nw_processEvents := False\<rparr>) s;
     s \<leftarrow> lens_wm_notifyPlatformWindowRelease w s;
     n \<leftarrow> windows s w;
     if nw_view n \<noteq> None then Some (0, s)
     else do {
       s \<leftarrow> glass_application_notifyWindowEvent window WE_DESTROY s;
       Some (0, s\<lparr>windows := (windows s)(w := None)\<rparr>)
     }
   }"

definition new_window :: "wid \<Rightarrow> wid option \<Rightarrow> wid option \<Rightarrow> jint \<Rightarrow> NativeWindow" where
  "new_window w owner root creationMask =
     \<lparr>nw_owner = owner, nw_creationMask = creationMask,
      nw_currentBounds = \<lparr>lb_x = 0, lb_y = 0, lb_width = 1, lb_height = 1\<rparr>,
      nw_cachedBounds = \<lparr>lb_x = 0, lb_y = 0, lb_width = 0, lb_height = 0\<rparr>,
      nw_processEvents = False, nw_minWidth = 0, nw_maxWidth = 0, nw_minHeight = 0, nw_maxHeight = 0,
      nw_state = NWS_NORMAL, nw_previousWindow = None, nw_nextWindow = None, nw_view = None, nw_root = root,
      nw_isFocusable = True, nw_isVisible = False, nw_isEnabled = True\<rparr>"

text \<open>
  \<open>mem\<close> is the result of \<open>calloc\<close>, \<open>ref_ok\<close> of \<open>NewGlobalRef\<close> and \<open>platform_ok\<close> of the platform's part of the creation.
  When one of them fails, the window is released and then freed once more.
\<close>

definition glass_create_native_window :: "wid option \<Rightarrow> bool \<Rightarrow> bool \<Rightarrow> wid option \<Rightarrow> jint \<Rightarrow> LensWM \<Rightarrow>
    (wid option \<times> LensWM) option" where
  "glass_create_native_window mem ref_ok platform_ok owner creationMask s = do {
     let release = (\<lambda>s. do {
       (_, s) \<leftarrow> glass_window_NativeWindow_release mem s;
       s \<leftarrow> (case mem of None \<Rightarrow> Some s
             | Some w \<Rightarrow> if windows s w = None then None else Some (s\<lparr>windows := (windows s)(w := None)\<rparr>));
       Some (None, s)
     });
     case mem of
       None \<Rightarrow> release s
     | Some w \<Rightarrow>
         if \<not> ref_ok then release (s\<lparr>windows := (windows s)(w \<mapsto> (new_window w None None 0)\<lparr>nw_isFocusable := False, nw_isEnabled := False\<rparr>)\<rparr>)
         else do {
           root \<leftarrow> (case owner of None \<Rightarrow> Some (Some w) | Some ow \<Rightarrow> do { on \<leftarrow> windows s ow; Some (nw_root on) });
           let s = s\<lparr>windows := (windows s)(w \<mapsto> new_window w owner root creationMask)\<rparr>;
           if platform_ok then do { s \<leftarrow> glass_window_list_add mem s; Some (mem, s) }
           else release s
         }
   }"

definition LensWindow_createChildWindow :: "wid option \<Rightarrow> bool \<Rightarrow> bool \<Rightarrow> wid option \<Rightarrow> LensWM \<Rightarrow>
    (wid option \<times> LensWM) option" where
  "LensWindow_createChildWindow mem ref_ok platform_ok owner s =
     (if owner = None then Some (None, s) else glass_create_native_window mem ref_ok platform_ok owner 0 s)"

definition LensWindow_close :: "wid \<Rightarrow> LensWM \<Rightarrow> (bool \<times> LensWM) option" where
  "LensWindow_close window s = do {
     (res, s) \<leftarrow> glass_window_NativeWindow_release (Some window) s;
     Some (res = 0, s)
   }"

definition LensWindow_attachViewToWindow :: "wid \<Rightarrow> vid option \<Rightarrow> LensWM \<Rightarrow> LensWM option" where
  "LensWindow_attachViewToWindow window view s = win_upd window (\<lambda>n. n\<lparr>nw_view := view\<rparr>) s"

definition LensWindow_setEnabled :: "wid \<Rightarrow> bool \<Rightarrow> LensWM \<Rightarrow> LensWM option" where
  "LensWindow_setEnabled window enabled s = do {
     s \<leftarrow> glass_window_setFocusable window enabled s;
     n \<leftarrow> windows s window;
     s \<leftarrow> (if \<not> enabled \<and> nw_view n \<noteq> None \<and> mouseWindow s = Some window
           then glass_application_notifyMouseEvent window ME_EXIT 0 0 0 0 BUTTON_NONE s else Some s);
     win_upd window (\<lambda>n. n\<lparr>nw_isEnabled := enabled\<rparr>) s
   }"

text \<open>\<open>v\<close> is the result of \<open>calloc\<close>, \<open>ref_ok\<close> of \<open>NewGlobalRef\<close>; the platform's part succeeds.\<close>

definition LensView_createNativeView :: "vid \<Rightarrow> bool \<Rightarrow> LensWM \<Rightarrow> LensWM" where
  "LensView_createNativeView v ref_ok s = s\<lparr>views := (views s)(v \<mapsto> \<lparr>nv_lensView = ref_ok, nv_parent = None\<rparr>)\<rparr>"

definition glass_view_releaseNativeView :: "vid \<Rightarrow> LensWM \<Rightarrow> LensWM option" where
  "glass_view_releaseNativeView v s = do { _ \<leftarrow> views s v; Some (s\<lparr>views := (views s)(v := None)\<rparr>) }"

definition glass_view_setParent :: "wid option \<Rightarrow> vid \<Rightarrow> LensWM \<Rightarrow> LensWM option" where
  "glass_view_setParent parent v s = do {
     nv \<leftarrow> views s v;
     s \<leftarrow> (case nv_parent nv of
        None \<Rightarrow> Some s
      | Some old \<Rightarrow> do {
          n \<leftarrow> windows s old;
          if nw_view n \<noteq> None then do {
            s \<leftarrow> glass_application_notifyViewEvent (nw_view n) VE_REMOVE 0 0 0 0 s;
            Some (s\<lparr>views := (views s)(v \<mapsto> nv\<lparr>nv_parent := None\<rparr>)\<rparr>)
          } else Some s
        });
     let s = s\<lparr>views := (views s)(v \<mapsto> nv\<lparr>nv_parent := parent\<rparr>)\<rparr>;
     case parent of
       None \<Rightarrow> Some s
     | Some p \<Rightarrow> do {
         n \<leftarrow> windows s p;
         if nw_view n \<noteq> None then glass_application_notifyViewEvent (nw_view n) VE_ADD 0 0 0 0 s else Some s
       }
   }"

definition glass_view_enterFullscreen :: "vid \<Rightarrow> LensWM \<Rightarrow> (bool \<times> LensWM) option" where
  "glass_view_enterFullscreen v s = do {
     nv \<leftarrow> views s v;
     case nv_parent nv of
       None \<Rightarrow> Some (False, s)
     | Some w \<Rightarrow> do { s \<leftarrow> lens_wm_windowEnterFullscreen w s; Some (True, s) }
   }"

definition glass_view_exitFullscreen :: "vid \<Rightarrow> LensWM \<Rightarrow> (bool \<times> LensWM) option" where
  "glass_view_exitFullscreen v s = do {
     nv \<leftarrow> views s v;
     case nv_parent nv of
       None \<Rightarrow> Some (False, s)
     | Some w \<Rightarrow> do { s \<leftarrow> lens_wm_windowRestore w s; Some (True, s) }
   }"

end
