(* ===== verification/LensInvariant.thy ===== *)
theory LensInvariant
  imports LensWindowManager
begin

text \<open>
  The invariant of the window manager and that every operation keeps it. \<open>post m Q\<close> says that a
  computation returns and that its result satisfies \<open>Q\<close>, so each rule below is a statement of memory
  safety as well. The rules compose along the structure of the functions.
\<close>

named_theorems lens_rules \<comment> \<open>what an operation guarantees, as \<open>post\<close> statements\<close>

lemma find_SomeD: "find P xs = Some x \<Longrightarrow> x \<in> set xs \<and> P x"
  by (induction xs) (auto split: if_splits)

section \<open>Total correctness of a computation\<close>

definition post :: "'a option \<Rightarrow> ('a \<Rightarrow> bool) \<Rightarrow> bool" where
  "post m Q \<longleftrightarrow> (\<exists>x. m = Some x \<and> Q x)"

lemma post_simps [simp]: "post (Some x) Q = Q x" "post None Q = False"
  by (auto simp: post_def)

lemma post_bind: "post (m \<bind> f) Q = post m (\<lambda>x. post (f x) Q)"
  by (auto simp: post_def bind_eq_Some_conv)

lemma post_mono: "post m P \<Longrightarrow> (\<And>x. P x \<Longrightarrow> Q x) \<Longrightarrow> post m Q"
  by (auto simp: post_def)

lemma post_conj: "post m P \<Longrightarrow> post m Q \<Longrightarrow> post m (\<lambda>x. P x \<and> Q x)"
  by (auto simp: post_def)

lemma post_bindI: "post m P \<Longrightarrow> (\<And>x. P x \<Longrightarrow> post (f x) Q) \<Longrightarrow> post (m \<bind> f) Q"
  by (auto simp: post_bind elim: post_mono)

lemma post_obtain:
  assumes "post m P"
  obtains x where "m = Some x" "P x"
  using assms by (auto simp: post_def)

section \<open>What an operation may change\<close>

text \<open>
  Relations between states, each the equality of what is left when some fields are blanked out: reports
  other than touch events change only the trace and the mask of pressed buttons (\<open>quiet\<close>); changes of the
  focus also the focused and the grabbed window (\<open>refocus\<close>); changes of the windows also all their fields but
  the links and the view (\<open>moves\<close>).
\<close>

fun is_touch :: "GlassEvent \<Rightarrow> bool" where
  "is_touch (TouchEvent _ _ _ _ _ _ _) = True"
| "is_touch (MultiTouchEvent _ _ _ _ _ _ _) = True"
| "is_touch _ = False"

definition touches :: "LensWM \<Rightarrow> GlassEvent list" where
  "touches s = filter is_touch (glass_trace s)"

definition silent :: "LensWM \<Rightarrow> LensWM" where
  "silent s = s\<lparr>glass_trace := touches s, modifiersMask := 0\<rparr>"

definition unfocused :: "LensWM \<Rightarrow> LensWM" where
  "unfocused s = (silent s)\<lparr>focusedWindow := None, grabbedWindow := None\<rparr>"

definition win_links :: "NativeWindow \<Rightarrow> NativeWindow" where
  "win_links n = (new_window 0 None None 0)\<lparr>nw_nextWindow := nw_nextWindow n, nw_previousWindow := nw_previousWindow n,
     nw_view := nw_view n\<rparr>"

definition faceless :: "LensWM \<Rightarrow> LensWM" where
  "faceless s = (unfocused s)\<lparr>windows := map_option win_links \<circ> windows s\<rparr>"

definition quiet :: "LensWM \<Rightarrow> LensWM \<Rightarrow> bool" where
  "quiet s s' \<longleftrightarrow> silent s' = silent s"

definition refocus :: "LensWM \<Rightarrow> LensWM \<Rightarrow> bool" where
  "refocus s s' \<longleftrightarrow> unfocused s' = unfocused s"

definition moves :: "LensWM \<Rightarrow> LensWM \<Rightarrow> bool" where
  "moves s s' \<longleftrightarrow> faceless s' = faceless s"

lemma frame_refl [simp]: "quiet s s" "refocus s s" "moves s s"
  by (simp_all add: quiet_def refocus_def moves_def)

lemma frame_trans:
  "quiet s t \<Longrightarrow> quiet t u \<Longrightarrow> quiet s u"
  "refocus s t \<Longrightarrow> refocus t u \<Longrightarrow> refocus s u"
  "moves s t \<Longrightarrow> moves t u \<Longrightarrow> moves s u"
  by (simp_all add: quiet_def refocus_def moves_def)

lemma quiet_refocus: "quiet s t \<Longrightarrow> refocus s t"
  by (simp add: quiet_def refocus_def unfocused_def)

lemma quiet_fields:
  assumes "quiet s t"
  shows "windows t = windows s" "views t = views s" "windowList_head t = windowList_head s"
    "windowList_tail t = windowList_tail s" "windowList_size t = windowList_size s"
    "focusedWindow t = focusedWindow s" "grabbedWindow t = grabbedWindow s" "mouseWindow t = mouseWindow s"
    "mousePosX t = mousePosX s" "mousePosY t = mousePosY s" "onDraggingAction t = onDraggingAction s"
    "dragGrabbingWindow t = dragGrabbingWindow s" "mousePressedButton t = mousePressedButton s"
    "touchWindow t = touchWindow s" "isDnDStarted t = isDnDStarted s" "pApplication t = pApplication s"
    "screen_width t = screen_width s" "screen_height t = screen_height s" "touches t = touches s"
  using assms by (cases s; cases t; simp add: quiet_def silent_def touches_def)+

lemma refocus_fields:
  assumes "refocus s t"
  shows "windows t = windows s" "views t = views s" "windowList_head t = windowList_head s"
    "windowList_tail t = windowList_tail s" "windowList_size t = windowList_size s"
    "mouseWindow t = mouseWindow s" "mousePosX t = mousePosX s" "mousePosY t = mousePosY s"
    "onDraggingAction t = onDraggingAction s" "dragGrabbingWindow t = dragGrabbingWindow s"
    "mousePressedButton t = mousePressedButton s" "touchWindow t = touchWindow s" "isDnDStarted t = isDnDStarted s"
    "pApplication t = pApplication s" "screen_width t = screen_width s" "screen_height t = screen_height s"
    "touches t = touches s"
  using assms by (cases s; cases t; simp add: refocus_def unfocused_def silent_def touches_def)+

lemma refocus_moves: "refocus s t \<Longrightarrow> moves s t"
  using refocus_fields(1) [of s t] by (simp add: refocus_def moves_def faceless_def)

lemma quiet_moves: "quiet s t \<Longrightarrow> moves s t"
  by (simp add: quiet_refocus refocus_moves)

lemma moves_fields:
  assumes "moves s t"
  shows "views t = views s" "windowList_head t = windowList_head s"
    "windowList_tail t = windowList_tail s" "windowList_size t = windowList_size s"
    "mouseWindow t = mouseWindow s" "mousePosX t = mousePosX s" "mousePosY t = mousePosY s"
    "onDraggingAction t = onDraggingAction s" "dragGrabbingWindow t = dragGrabbingWindow s"
    "mousePressedButton t = mousePressedButton s" "touchWindow t = touchWindow s" "isDnDStarted t = isDnDStarted s"
    "pApplication t = pApplication s" "screen_width t = screen_width s" "screen_height t = screen_height s"
    "touches t = touches s"
  using assms by (cases s; cases t; simp add: moves_def faceless_def unfocused_def silent_def touches_def)+

lemma moves_window:
  assumes "moves s t"
  shows "map_option win_links (windows t w) = map_option win_links (windows s w)"
  using arg_cong [OF assms [unfolded moves_def], of "\<lambda>s. windows s w"] by (simp add: faceless_def)

lemma win_links_eq:
  "win_links n = win_links n' \<longleftrightarrow> nw_nextWindow n = nw_nextWindow n' \<and> nw_previousWindow n = nw_previousWindow n' \<and>
     nw_view n = nw_view n'"
  by (auto simp: win_links_def new_window_def)

lemma moves_links:
  assumes "moves s t"
  shows "nexts t = nexts s" "prevs t = prevs s"
    "map_option nw_view (windows t w) = map_option nw_view (windows s w)"
proof -
  have *: "map_option nw_nextWindow (windows t w) = map_option nw_nextWindow (windows s w) \<and>
    map_option nw_previousWindow (windows t w) = map_option nw_previousWindow (windows s w) \<and>
    map_option nw_view (windows t w) = map_option nw_view (windows s w)" for w
    using moves_window [OF assms, of w] by (cases "windows t w"; cases "windows s w") (auto simp: win_links_eq)
  show "nexts t = nexts s" "prevs t = prevs s" using * by (simp_all add: nexts_def prevs_def)
  show "map_option nw_view (windows t w) = map_option nw_view (windows s w)" using * by blast
qed

lemma frame_emit [simp]:
  assumes "\<not> is_touch e"
  shows "quiet s (emit e t) \<longleftrightarrow> quiet s t" "refocus s (emit e t) \<longleftrightarrow> refocus s t" "moves s (emit e t) \<longleftrightarrow> moves s t"
  using assms by (simp_all add: quiet_def refocus_def moves_def emit_def silent_def touches_def unfocused_def faceless_def touches_def)

lemma lens_emit_fields [simp]: "windows (emit e s) = windows s" "views (emit e s) = views s"
    "pApplication (emit e s) = pApplication s" "focusedWindow (emit e s) = focusedWindow s"
    "grabbedWindow (emit e s) = grabbedWindow s" "mouseWindow (emit e s) = mouseWindow s"
    "glass_trace (emit e s) = glass_trace s @ [e]" "modifiersMask (emit e s) = modifiersMask s"
    "dragGrabbingWindow (emit e s) = dragGrabbingWindow s" "onDraggingAction (emit e s) = onDraggingAction s"
    "mousePressedButton (emit e s) = mousePressedButton s" "isDnDStarted (emit e s) = isDnDStarted s"
    "touchWindow (emit e s) = touchWindow s" "mousePosX (emit e s) = mousePosX s" "mousePosY (emit e s) = mousePosY s"
    "windowList_head (emit e s) = windowList_head s" "windowList_tail (emit e s) = windowList_tail s"
    "windowList_size (emit e s) = windowList_size s"
    "screen_width (emit e s) = screen_width s" "screen_height (emit e s) = screen_height s"
  by (simp_all add: emit_def)

section \<open>The invariant\<close>

definition ptr_in :: "wid option \<Rightarrow> wid list \<Rightarrow> bool" where
  "ptr_in p xs \<longleftrightarrow> (case p of None \<Rightarrow> True | Some w \<Rightarrow> w \<in> set xs)"

text \<open>
  \<open>xs\<close> are the windows from back to front. The window that has the focus, the one that holds the grab
  and the one under the mouse are in the list; only the focused window holds the grab; the view of a
  window and the parent of a view are allocated.
\<close>

definition wm_inv :: "LensWM \<Rightarrow> wid list \<Rightarrow> bool" where
  "wm_inv s xs \<longleftrightarrow> dllist s xs \<and> pApplication s \<and> ptr_in (focusedWindow s) xs \<and>
     (grabbedWindow s = None \<or> grabbedWindow s = focusedWindow s) \<and> ptr_in (mouseWindow s) xs \<and>
     (\<forall>w\<in>set xs. \<forall>n v. windows s w = Some n \<longrightarrow> nw_view n = Some v \<longrightarrow> views s v \<noteq> None) \<and>
     (\<forall>v nv. views s v = Some nv \<longrightarrow> ptr_in (nv_parent nv) xs)"

lemma ptr_in_simps [simp]: "ptr_in None xs" "ptr_in (Some w) xs \<longleftrightarrow> w \<in> set xs"
  by (simp_all add: ptr_in_def)

lemma moves_dllist: "moves s t \<Longrightarrow> dllist t xs \<longleftrightarrow> dllist s xs"
  by (simp add: dllist_def moves_links moves_fields)

lemma moves_inv:
  assumes "wm_inv s xs" "moves s t" "ptr_in (focusedWindow t) xs"
    "grabbedWindow t = None \<or> grabbedWindow t = focusedWindow t"
  shows "wm_inv t xs"
  unfolding wm_inv_def
proof (intro conjI ballI allI impI)
  fix w n v assume w: "w \<in> set xs" "windows t w = Some n" "nw_view n = Some v"
  then obtain n' where "windows s w = Some n'" "nw_view n' = Some v"
    using moves_links(3) [OF assms(2), of w] by (cases "windows s w") auto
  then show "views t v \<noteq> None"
    using assms(1) w(1) moves_fields(1) [OF assms(2)] by (auto simp: wm_inv_def)
qed (use assms in \<open>auto simp: wm_inv_def moves_dllist moves_fields\<close>)

lemma quiet_inv: "wm_inv s xs \<Longrightarrow> quiet s t \<Longrightarrow> wm_inv t xs"
  by (rule moves_inv [OF _ quiet_moves]) (auto simp: wm_inv_def quiet_fields)

lemma wm_inv_live:
  assumes "wm_inv s xs" "w \<in> set xs"
  obtains n where "windows s w = Some n" "\<And>v. nw_view n = Some v \<Longrightarrow> views s v \<noteq> None"
  using assms dllist_live [of s xs w] by (auto simp: wm_inv_def)

lemma wm_inv_parts:
  assumes "wm_inv s xs"
  shows "dllist s xs" "ptr_in (focusedWindow s) xs" "grabbedWindow s = None \<or> grabbedWindow s = focusedWindow s"
    "ptr_in (mouseWindow s) xs" "pApplication s" "views s v = Some nv \<Longrightarrow> ptr_in (nv_parent nv) xs"
  using assms by (auto simp: wm_inv_def)

section \<open>Reports\<close>

lemma notifyWindowEvent_post [lens_rules]:
  assumes "\<And>w. window = Some w \<Longrightarrow> windows s w \<noteq> None"
  shows "post (glass_application_notifyWindowEvent window t s) (quiet s)"
  using assms by (auto simp: glass_application_notifyWindowEvent_def post_bind split: option.splits)

lemma notifyWindowEvent_resize_post [lens_rules]:
  assumes "windows s w \<noteq> None"
  shows "post (glass_application_notifyWindowEvent_resize (Some w) t a b s) (quiet s)"
  using assms by (auto simp: glass_application_notifyWindowEvent_resize_def)

lemma notifyWindowEvent_move_post [lens_rules]:
  assumes "windows s w \<noteq> None" "pApplication s"
  shows "post (glass_application_notifyWindowEvent_move (Some w) x y s) (quiet s)"
  using assms by (auto simp: glass_application_notifyWindowEvent_move_def)

lemma notifyViewEvent_post [lens_rules]:
  assumes "\<And>v. view = Some v \<Longrightarrow> views s v \<noteq> None"
  shows "post (glass_application_notifyViewEvent view t x y a b s) (quiet s)"
  using assms by (auto simp: glass_application_notifyViewEvent_def post_bind split: option.splits)

lemma notifyMenuEvent_post [lens_rules]:
  assumes "\<And>v. view = Some v \<Longrightarrow> views s v \<noteq> None"
  shows "post (glass_application_notifyMenuEvent view x y a b s) (quiet s)"
  using assms by (auto simp: glass_application_notifyMenuEvent_def post_bind split: option.splits)

lemma updateMouseButtonModifiers_quiet [simp]:
  "quiet s (glass_inputEvents_updateMouseButtonModifiers button t u) \<longleftrightarrow> quiet s u"
  by (simp add: glass_inputEvents_updateMouseButtonModifiers_def quiet_def silent_def touches_def Let_def)

lemma notifyMouseEvent_post [lens_rules]:
  assumes "windows s w = Some n" "\<And>v. nw_view n = Some v \<Longrightarrow> views s v \<noteq> None"
  shows "post (glass_application_notifyMouseEvent w t x y a b button s) (quiet s)"
proof -
  let ?s = "glass_inputEvents_updateMouseButtonModifiers button t s"
  have q: "quiet s ?s" by simp
  have menu: "post (glass_application_notifyMenuEvent (nw_view n) x y a b (emit e ?s)) (quiet s)" if "\<not> is_touch e" for e
    by (rule post_mono [OF notifyMenuEvent_post [of "nw_view n"]])
      (use assms(2) q that in \<open>auto simp: quiet_fields(2) [OF q] intro: frame_trans(1) [rotated]\<close>)
  have dis: "post (glass_application_notifyWindowEvent (Some w) WE_FOCUS_DISABLED s) (quiet s)"
    by (rule notifyWindowEvent_post) (use assms in auto)
  show ?thesis
    using assms(2) menu dis
    by (auto simp: glass_application_notifyMouseEvent_def has_lens_view_def assms(1) Let_def split: option.splits)
qed

lemma notifyScrollEvent_post [lens_rules]:
  assumes "windows s w = Some n" "\<And>v. nw_view n = Some v \<Longrightarrow> views s v \<noteq> None"
  shows "post (glass_application_notifyScrollEvent w x y a b dy s) (quiet s)"
  using assms by (auto simp: glass_application_notifyScrollEvent_def has_lens_view_def split: option.splits)

lemma notifyMultiTouchEvent_post [lens_rules]:
  assumes "windows s w = Some n" "\<And>v. nw_view n = Some v \<Longrightarrow> views s v \<noteq> None"
    and c: "0 \<le> count" "count \<le> int (length states)" "count \<le> int (length ids)" "count \<le> int (length xs)" "count \<le> int (length ys)"
  shows "post (glass_application_notifyMultiTouchEvent w count states ids xs ys dx dy s)
    (\<lambda>t. quiet s t \<or> (\<exists>e. t = emit e s))"
proof -
  define Q where "Q t \<longleftrightarrow> quiet s t \<or> (\<exists>e. t = emit e s)" for t
  have dis: "post (glass_application_notifyWindowEvent (Some w) WE_FOCUS_DISABLED s) Q"
    by (rule post_mono [OF notifyWindowEvent_post]) (use assms(1) in \<open>auto simp: Q_def\<close>)
  have Q: "Q s" "\<And>e. Q (emit e s)" by (auto simp: Q_def)
  have one: "count = 1 \<Longrightarrow> load states 0 = Some (states ! 0) \<and> load ids 0 = Some (ids ! 0) \<and>
      load xs 0 = Some (xs ! 0) \<and> load ys 0 = Some (ys ! 0)"
    using c by (auto simp: load_def)
  have reg: "region states count = Some (take (nat count) states)" "region ids count = Some (take (nat count) ids)"
    "region xs count = Some (take (nat count) xs)" "region ys count = Some (take (nat count) ys)"
    using c by (simp_all add: region_def)
  have "post (glass_application_notifyMultiTouchEvent w count states ids xs ys dx dy s) Q"
    using assms(2) dis Q one reg
    by (auto simp: glass_application_notifyMultiTouchEvent_def has_lens_view_def assms(1) split: option.splits)
  then show ?thesis by (simp add: Q_def [abs_def])
qed

lemma repaint_post [lens_rules]:
  assumes "\<And>w. window = Some w \<Longrightarrow> \<exists>n. windows s w = Some n \<and> (\<forall>v. nw_view n = Some v \<longrightarrow> views s v \<noteq> None)"
  shows "post (lens_wm_repaint window s) (quiet s)"
proof (cases window)
  case (Some w)
  then obtain n where n: "windows s w = Some n" "\<And>v. nw_view n = Some v \<Longrightarrow> views s v \<noteq> None"
    using assms by blast
  have "post (glass_application_notifyViewEvent (nw_view n) t x y a b (emit ScreenClear s)) (quiet s)" for t x y a b
    by (rule post_mono [OF notifyViewEvent_post]) (use n(2) in \<open>auto simp: quiet_def emit_def silent_def touches_def\<close>)
  then show ?thesis using Some n(1) by (auto simp: lens_wm_repaint_def Let_def)
qed (simp add: lens_wm_repaint_def)

section \<open>Focus\<close>

lemma wm_inv_windows: "wm_inv s xs \<Longrightarrow> w \<in> set xs \<Longrightarrow> windows s w \<noteq> None"
  using dllist_live by (fastforce simp: wm_inv_def)

lemma ungrabFocus_post [lens_rules]:
  assumes "\<And>w. window = Some w \<Longrightarrow> windows s w \<noteq> None"
  shows "post (glass_window_ungrabFocus window s) (\<lambda>t. refocus s t \<and> focusedWindow t = focusedWindow s \<and>
    grabbedWindow t = (if window = grabbedWindow s then None else grabbedWindow s))"
proof -
  let ?s = "s\<lparr>grabbedWindow := None\<rparr>"
  have "post (glass_application_notifyWindowEvent window WE_FOCUS_UNGRAB ?s) (quiet ?s)"
    by (rule notifyWindowEvent_post) (use assms in auto)
  moreover have "refocus s ?s" by (simp add: refocus_def unfocused_def silent_def touches_def)
  ultimately have "post (glass_application_notifyWindowEvent window WE_FOCUS_UNGRAB ?s)
      (\<lambda>t. refocus s t \<and> focusedWindow t = focusedWindow s \<and> grabbedWindow t = None)"
    by (elim post_mono) (auto simp: quiet_fields dest: quiet_refocus intro: frame_trans)
  then show ?thesis by (auto simp: glass_window_ungrabFocus_def)
qed

lemma setFocusedWindow_post [lens_rules]:
  assumes inv: "wm_inv s xs" and w: "ptr_in window xs"
  shows "post (lens_wm_setFocusedWindow window s) (\<lambda>t. refocus s t \<and> focusedWindow t = window \<and>
    grabbedWindow t = (if window = focusedWindow s then grabbedWindow s else None))"
proof (cases "window = focusedWindow s")
  case False
  let ?f = "focusedWindow s"
  have f: "\<And>w. ?f = Some w \<Longrightarrow> windows s w \<noteq> None" "grabbedWindow s = None \<or> grabbedWindow s = ?f"
    using inv wm_inv_windows by (auto simp: wm_inv_def)
  let ?Q = "\<lambda>t. refocus s t \<and> grabbedWindow t = None"
  have lose: "post (if ?f \<noteq> None then do { s \<leftarrow> glass_window_ungrabFocus ?f s;
      glass_application_notifyWindowEvent ?f WE_FOCUS_LOST s } else Some s) ?Q"
  proof (cases "?f = None")
    case False
    show ?thesis
      unfolding if_P [OF False]
    proof (rule post_bindI [OF ungrabFocus_post [OF f(1)]])
      fix t assume t: "refocus s t \<and> focusedWindow t = ?f \<and> grabbedWindow t = (if ?f = grabbedWindow s then None else grabbedWindow s)"
      have "post (glass_application_notifyWindowEvent ?f WE_FOCUS_LOST t) (quiet t)"
        by (rule notifyWindowEvent_post) (use f(1) t in \<open>auto simp: refocus_fields\<close>)
      then show "post (glass_application_notifyWindowEvent ?f WE_FOCUS_LOST t) ?Q"
        by (rule post_mono) (use t f(2) in \<open>auto simp: quiet_fields dest: quiet_refocus intro: frame_trans\<close>)
    qed
  qed (use f(2) in auto)
  have gain: "post (if window \<noteq> None then glass_application_notifyWindowEvent window WE_FOCUS_GAINED (t\<lparr>focusedWindow := window\<rparr>)
      else Some (t\<lparr>focusedWindow := window\<rparr>)) (\<lambda>u. refocus s u \<and> focusedWindow u = window \<and> grabbedWindow u = None)"
    if t: "?Q t" for t
  proof -
    let ?t = "t\<lparr>focusedWindow := window\<rparr>"
    have "refocus s ?t" using t by (simp add: refocus_def unfocused_def silent_def touches_def)
    moreover have "post (glass_application_notifyWindowEvent window WE_FOCUS_GAINED ?t) (quiet ?t)"
      by (rule notifyWindowEvent_post) (use w wm_inv_windows [OF inv] t in \<open>auto simp: refocus_fields\<close>)
    ultimately show ?thesis
      using t by (auto simp: quiet_fields dest: quiet_refocus intro: frame_trans elim!: post_mono)
  qed
  show ?thesis
    unfolding lens_wm_setFocusedWindow_def Let_def if_P [OF False] if_not_P [OF False]
    by (rule post_bindI [OF lose]) (rule gain)
qed (simp add: lens_wm_setFocusedWindow_def)

lemma setFocusedWindow_inv:
  assumes inv: "wm_inv s xs" and w: "ptr_in window xs"
  shows "post (lens_wm_setFocusedWindow window s) (\<lambda>t. wm_inv t xs \<and> refocus s t \<and> focusedWindow t = window)"
  by (rule post_mono [OF setFocusedWindow_post [OF assms]])
    (use wm_inv_parts(3) [OF inv] w in \<open>auto intro!: moves_inv [OF inv refocus_moves] split: if_splits\<close>)

lemma unsetFocusedWindow_post [lens_rules]:
  assumes inv: "wm_inv s xs" and w: "window \<in> set xs"
  shows "post (lens_wm_unsetFocusedWindow window s) (\<lambda>(r, t). wm_inv t xs \<and> refocus s t \<and> r = focusedWindow t \<and>
    focusedWindow t = (if focusedWindow s = Some window
      then find (\<lambda>w. next_focusable (the (windows s w))) (rev xs) else focusedWindow s) \<and>
    (focusedWindow s = Some window \<longrightarrow> grabbedWindow t = None))"
proof (cases "focusedWindow s = Some window")
  case True
  let ?found = "find (\<lambda>w. next_focusable (the (windows s w))) (rev xs)"
  have "post (glass_window_ungrabFocus (Some window) s) (\<lambda>t. wm_inv t xs \<and> refocus s t)"
    by (rule post_mono [OF ungrabFocus_post])
      (use wm_inv_parts [OF inv] w wm_inv_windows [OF inv] in \<open>auto intro!: moves_inv [OF inv refocus_moves]\<close>)
  then have 1: "post (do { s \<leftarrow> glass_window_ungrabFocus (Some window) s; lens_wm_setFocusedWindow None s })
      (\<lambda>t. wm_inv t xs \<and> refocus s t \<and> focusedWindow t = None)"
    by (rule post_bindI, intro post_mono [OF setFocusedWindow_inv [of _ xs None]]) (auto intro: frame_trans)
  have 2: "post (do { r \<leftarrow> window_walk (windows t) nw_previousWindow
              (\<lambda>w n acc. if next_focusable n then Inl w else Inr acc) (windowList_tail t) ();
       case r of Inl w \<Rightarrow> do { s \<leftarrow> lens_wm_setFocusedWindow (Some w) t; Some (Some w, s) }
       | Inr _ \<Rightarrow> Some (None, t) })
     (\<lambda>(r, u). wm_inv u xs \<and> refocus s u \<and> r = focusedWindow u \<and> focusedWindow u = ?found \<and> grabbedWindow u = None)"
    if t: "wm_inv t xs \<and> refocus s t \<and> focusedWindow t = None" for t
  proof -
    have d: "dllist t xs" using t by (simp add: wm_inv_def)
    have win: "windows t = windows s" using t by (simp add: refocus_fields)
    have g: "grabbedWindow t = None" using t wm_inv_parts(3) [of t xs] by auto
    show ?thesis
    proof (cases ?found)
      case None
      then show ?thesis using t g unfolding walk_backward_find [OF d] unfolding win by simp
    next
      case (Some w')
      then have "w' \<in> set xs" by (auto dest: find_SomeD)
      then have "post (lens_wm_setFocusedWindow (Some w') t) (\<lambda>u. wm_inv u xs \<and> refocus t u \<and> focusedWindow u = Some w' \<and>
          grabbedWindow u = None)"
        using t g by (intro post_mono [OF post_conj [OF setFocusedWindow_inv [of t xs "Some w'"]
              setFocusedWindow_post [of t xs "Some w'"]]]) auto
      then show ?thesis
        using Some t unfolding walk_backward_find [OF d] unfolding win
        by (auto simp: post_bind elim!: post_mono intro: frame_trans)
    qed
  qed
  show ?thesis
    using True post_bindI [OF 1 2] by (simp add: lens_wm_unsetFocusedWindow_def bind_assoc)
qed (use inv in \<open>simp add: lens_wm_unsetFocusedWindow_def\<close>)

section \<open>Operations on one window\<close>

definition keeps :: "wid list \<Rightarrow> LensWM \<Rightarrow> LensWM \<Rightarrow> bool" where
  "keeps xs s t \<longleftrightarrow> wm_inv t xs \<and> moves s t"

lemma keep_bind:
  assumes "post m (keeps xs s)" "\<And>t. wm_inv t xs \<Longrightarrow> moves s t \<Longrightarrow> post (f t) (keeps xs t)"
  shows "post (m \<bind> f) (keeps xs s)"
  by (rule post_bindI [OF assms(1)], rule post_mono [OF assms(2)])
    (auto simp: keeps_def intro: frame_trans)

lemma keep_read:
  assumes "wm_inv s xs" "w \<in> set xs"
    "\<And>n. windows s w = Some n \<Longrightarrow> (\<And>v. nw_view n = Some v \<Longrightarrow> views s v \<noteq> None) \<Longrightarrow> post (f n) Q"
  shows "post (windows s w \<bind> f) Q"
  using wm_inv_live [OF assms(1,2)] assms(3) by (metis bind.bind_lunit)

lemma keep_refl: "wm_inv s xs \<Longrightarrow> post (Some s) (keeps xs s)"
  by (simp add: keeps_def)

lemma keep_quiet:
  assumes "wm_inv s xs" "post m (quiet s)"
  shows "post m (keeps xs s)"
  by (rule post_mono [OF assms(2)]) (auto simp: keeps_def intro: quiet_inv [OF assms(1)] quiet_moves)

lemma keep_focus:
  "wm_inv s xs \<Longrightarrow> ptr_in window xs \<Longrightarrow> post (lens_wm_setFocusedWindow window s) (keeps xs s)"
  by (rule post_mono [OF setFocusedWindow_inv]) (auto simp: keeps_def refocus_moves)

lemma wm_inv_emit [simp]: "wm_inv (emit e s) xs \<longleftrightarrow> wm_inv s xs"
  by (simp add: wm_inv_def dllist_def nexts_def prevs_def)

lemma platform_keeps:
  "wm_inv s xs \<Longrightarrow> post (lens_platform_windowMinimize w b s) (keeps xs s)"
  "wm_inv s xs \<Longrightarrow> post (lens_platform_windowSetVisible w b s) (keeps xs s)"
  "wm_inv s xs \<Longrightarrow> w \<in> set xs \<Longrightarrow> post (glass_application_addWindowToVisibleWindowList w s) (keeps xs s)"
  "wm_inv s xs \<Longrightarrow> w \<in> set xs \<Longrightarrow> post (glass_application_RemoveWindowFromVisibleWindowList w s) (keeps xs s)"
  using wm_inv_windows [of s xs w]
  by (auto simp: lens_platform_windowMinimize_def lens_platform_windowSetVisible_def keeps_def
      glass_application_addWindowToVisibleWindowList_def glass_application_RemoveWindowFromVisibleWindowList_def)

lemma keep_if: "(b \<Longrightarrow> post x Q) \<Longrightarrow> (\<not> b \<Longrightarrow> post y Q) \<Longrightarrow> post (if b then x else y) Q"
  by simp

lemma win_upd_post:
  assumes "windows s w = Some n" "win_links (f n) = win_links n"
  shows "post (win_upd w f s) (\<lambda>t. t = s\<lparr>windows := (windows s)(w \<mapsto> f n)\<rparr> \<and> moves s t)"
  using assms by (auto simp: win_upd_def moves_def faceless_def unfocused_def silent_def touches_def fun_eq_iff)

lemma keep_upd:
  assumes inv: "wm_inv s xs" and w: "w \<in> set xs" and f: "\<And>n. win_links (f n) = win_links n"
  shows "post (win_upd w f s) (keeps xs s)"
proof -
  obtain n where n: "windows s w = Some n" using wm_inv_windows [OF inv w] by auto
  show ?thesis
    by (rule post_mono [OF win_upd_post [of s w n f, OF n f]])
      (use wm_inv_parts [OF inv] in \<open>auto simp: keeps_def intro!: moves_inv [OF inv]\<close>)
qed

lemma moves_inv_windows: "wm_inv s xs \<Longrightarrow> w \<in> set xs \<Longrightarrow>
    \<exists>n. windows s w = Some n \<and> (\<forall>v. nw_view n = Some v \<longrightarrow> views s v \<noteq> None)"
  by (meson wm_inv_live)

lemmas keep_rules = keep_if keep_bind keep_read keep_refl keep_focus keep_upd

lemma repaint_keeps:
  assumes "wm_inv s xs" "ptr_in window xs"
  shows "post (lens_wm_repaint window s) (keeps xs s)"
  by (rule keep_quiet [OF assms(1) repaint_post]) (use assms moves_inv_windows [OF assms(1)] in auto)

lemma resize_keeps:
  "wm_inv s xs \<Longrightarrow> w \<in> set xs \<Longrightarrow> post (glass_application_notifyWindowEvent_resize (Some w) t a b s) (keeps xs s)"
  by (intro keep_quiet notifyWindowEvent_resize_post) (auto dest: wm_inv_windows)

lemma update_size_keeps:
  "wm_inv s xs \<Longrightarrow> w \<in> set xs \<Longrightarrow> post (update_size w width height b s) (keeps xs s)"
  unfolding update_size_def
  by (intro keep_rules resize_keeps) (auto simp: win_links_eq)

lemma update_position_keeps:
  "wm_inv s xs \<Longrightarrow> w \<in> set xs \<Longrightarrow> post (update_position w x y b s) (keeps xs s)"
  unfolding update_position_def
  by (intro keep_rules repaint_keeps keep_quiet notifyWindowEvent_move_post)
    (auto simp: win_links_eq dest: wm_inv_windows wm_inv_parts(5))

lemma setBoundsImpl_keeps:
  "wm_inv s xs \<Longrightarrow> w \<in> set xs \<Longrightarrow> post (glass_window_setBoundsImpl w x y width height b c d s) (keeps xs s)"
  unfolding glass_window_setBoundsImpl_def Let_def
  by (intro keep_bind update_size_keeps update_position_keeps)

lemma set_state_keeps: "wm_inv s xs \<Longrightarrow> w \<in> set xs \<Longrightarrow> post (set_state w st s) (keeps xs s)"
  unfolding set_state_def by (rule keep_upd) (auto simp: win_links_eq)

lemma cacheBounds_keeps:
  "wm_inv s xs \<Longrightarrow> w \<in> set xs \<Longrightarrow> post (lens_wm_windowCacheBounds w s) (keeps xs s)"
  "wm_inv s xs \<Longrightarrow> w \<in> set xs \<Longrightarrow> post (lens_wm_windowUncacheBounds w s) (keeps xs s)"
  unfolding lens_wm_windowCacheBounds_def lens_wm_windowUncacheBounds_def
  by (rule keep_upd; auto simp: win_links_eq)+

lemma leave_state_keeps:
  assumes inv: "wm_inv s xs" and w: "w \<in> set xs"
  shows "post (leave_state w s) (keeps xs s)"
proof -
  obtain n where n: "windows s w = Some n" "\<And>v. nw_view n = Some v \<Longrightarrow> views s v \<noteq> None"
    using wm_inv_live [OF inv w] by blast
  have "post (glass_application_notifyViewEvent (nw_view n) t x y a b s) (keeps xs s)" for t x y a b
    by (rule keep_quiet [OF inv notifyViewEvent_post]) (use n in auto)
  moreover have "post (do { s \<leftarrow> lens_platform_windowMinimize w False s;
      if nw_isVisible n then glass_application_addWindowToVisibleWindowList w s else Some s }) (keeps xs s)"
    by (intro keep_bind keep_if platform_keeps keep_refl inv w)
  ultimately show ?thesis
    using keep_refl [OF inv] by (simp add: leave_state_def n(1) split: NativeWindowState.splits)
qed

lemmas window_keeps = keep_if keep_bind keep_refl keep_read keep_focus leave_state_keeps set_state_keeps setBoundsImpl_keeps
  cacheBounds_keeps resize_keeps repaint_keeps platform_keeps

lemma windowRestore_keeps:
  "wm_inv s xs \<Longrightarrow> w \<in> set xs \<Longrightarrow> post (lens_wm_windowRestore w s) (keeps xs s)"
  unfolding lens_wm_windowRestore_def by (intro window_keeps) auto

text \<open>Releasing the focus, with the rest of a computation that ignores the result.\<close>

lemma unfocus_bind:
  assumes "wm_inv s xs" "w \<in> set xs" "\<And>t. wm_inv t xs \<Longrightarrow> moves s t \<Longrightarrow> post (f t) (keeps xs t)"
  shows "post (lens_wm_unsetFocusedWindow w s \<bind> (\<lambda>(_, t). f t)) (keeps xs s)"
proof (rule post_bindI [OF unsetFocusedWindow_post [OF assms(1,2)]], clarify)
  fix r t assume t: "wm_inv t xs" "refocus s t"
  show "post (f t) (keeps xs s)"
    by (rule post_mono [OF assms(3) [OF t(1) refocus_moves [OF t(2)]]])
      (use refocus_moves [OF t(2)] in \<open>auto simp: keeps_def intro: frame_trans\<close>)
qed

lemma windowMinimize_keeps:
  "wm_inv s xs \<Longrightarrow> w \<in> set xs \<Longrightarrow> post (lens_wm_windowMinimize w s) (keeps xs s)"
  unfolding lens_wm_windowMinimize_def by (intro window_keeps windowRestore_keeps unfocus_bind) auto

lemma windowMaximize_keeps:
  "wm_inv s xs \<Longrightarrow> w \<in> set xs \<Longrightarrow> post (lens_wm_windowMaximize w s) (keeps xs s)"
  unfolding lens_wm_windowMaximize_def Let_def split_def by (intro window_keeps windowRestore_keeps) auto

lemma windowEnterFullscreen_keeps:
  "wm_inv s xs \<Longrightarrow> w \<in> set xs \<Longrightarrow> post (lens_wm_windowEnterFullscreen w s) (keeps xs s)"
  unfolding lens_wm_windowEnterFullscreen_def
  by (intro window_keeps windowRestore_keeps keep_quiet [OF _ notifyViewEvent_post]) auto

lemma setVisible_keeps:
  "wm_inv s xs \<Longrightarrow> w \<in> set xs \<Longrightarrow> post (glass_window_setVisible w b s) (keeps xs s)"
  unfolding glass_window_setVisible_def
  by (intro unfocus_bind window_keeps keep_upd) (auto simp: win_links_eq)

lemma setFocusable_keeps:
  "wm_inv s xs \<Longrightarrow> w \<in> set xs \<Longrightarrow> post (glass_window_setFocusable w b s) (keeps xs s)"
  unfolding glass_window_setFocusable_def by (intro window_keeps keep_upd) (auto simp: win_links_eq)

lemma requestFocus_keeps:
  "wm_inv s xs \<Longrightarrow> ptr_in window xs \<Longrightarrow> post (glass_window_requestFocus window s) (\<lambda>(_, t). keeps xs s t)"
  unfolding glass_window_requestFocus_def
  by (cases window; simp add: keeps_def; intro conjI impI keep_read keep_if)
    (auto simp: keeps_def post_bind split_def intro: post_mono [OF keep_focus, unfolded keeps_def])

lemma fit_size_keeps: "wm_inv s xs \<Longrightarrow> w \<in> set xs \<Longrightarrow> post (fit_size w s) (keeps xs s)"
  unfolding fit_size_def Let_def split_def by (intro window_keeps)

lemma setSize_keeps:
  "wm_inv s xs \<Longrightarrow> w \<in> set xs \<Longrightarrow> post (glass_window_setMinimumSize w a b s) (keeps xs s)"
  "wm_inv s xs \<Longrightarrow> w \<in> set xs \<Longrightarrow> post (glass_window_setMaximumSize w a b s) (keeps xs s)"
  unfolding glass_window_setMinimumSize_def glass_window_setMaximumSize_def
  by (intro keep_bind keep_upd fit_size_keeps; auto simp: win_links_eq)+

section \<open>Input events\<close>

text \<open>
  The mouse handlers also follow the pointer to the window in which a drag began. That this window
  still exists is not part of the invariant: closing the window does not reset the pointer.
\<close>

definition drag_ok :: "LensWM \<Rightarrow> wid list \<Rightarrow> bool" where
  "drag_ok s xs \<longleftrightarrow> wm_inv s xs \<and> ptr_in (dragGrabbingWindow s) xs"

lemma dllist_frame [simp]:
  "dllist (s\<lparr>mousePosX := i\<rparr>) xs = dllist s xs" "dllist (s\<lparr>mousePosY := i\<rparr>) xs = dllist s xs"
  "dllist (s\<lparr>mouseWindow := p\<rparr>) xs = dllist s xs" "dllist (s\<lparr>onDraggingAction := b\<rparr>) xs = dllist s xs"
  "dllist (s\<lparr>dragGrabbingWindow := p\<rparr>) xs = dllist s xs" "dllist (s\<lparr>mousePressedButton := i\<rparr>) xs = dllist s xs"
  "dllist (s\<lparr>touchWindow := p\<rparr>) xs = dllist s xs" "dllist (s\<lparr>isDnDStarted := b\<rparr>) xs = dllist s xs"
  "dllist (s\<lparr>focusedWindow := p\<rparr>) xs = dllist s xs" "dllist (s\<lparr>grabbedWindow := p\<rparr>) xs = dllist s xs"
  "dllist (s\<lparr>views := v\<rparr>) xs = dllist s xs"
  by (simp_all add: dllist_def nexts_def prevs_def)

lemma wm_inv_frame [simp]:
  "wm_inv (s\<lparr>mousePosX := i\<rparr>) xs = wm_inv s xs" "wm_inv (s\<lparr>mousePosY := i\<rparr>) xs = wm_inv s xs"
  "wm_inv (s\<lparr>onDraggingAction := b\<rparr>) xs = wm_inv s xs" "wm_inv (s\<lparr>dragGrabbingWindow := p\<rparr>) xs = wm_inv s xs"
  "wm_inv (s\<lparr>mousePressedButton := i\<rparr>) xs = wm_inv s xs" "wm_inv (s\<lparr>touchWindow := p\<rparr>) xs = wm_inv s xs"
  "wm_inv (s\<lparr>isDnDStarted := b\<rparr>) xs = wm_inv s xs"
  by (simp_all add: wm_inv_def)

lemma wm_inv_mouse: "wm_inv s xs \<Longrightarrow> ptr_in p xs \<Longrightarrow> wm_inv (s\<lparr>mouseWindow := p\<rparr>) xs"
  by (simp add: wm_inv_def)

text \<open>Mouse events leave the touch window, the reported touch events and the views alone.\<close>

definition drags :: "wid list \<Rightarrow> LensWM \<Rightarrow> LensWM \<Rightarrow> bool" where
  "drags xs s t \<longleftrightarrow> drag_ok t xs \<and> touchWindow t = touchWindow s \<and> touches t = touches s \<and> views t = views s"

lemma drags_keeps: "drag_ok s xs \<Longrightarrow> post m (keeps xs s) \<Longrightarrow> post m (drags xs s)"
  by (erule post_mono) (auto simp: drag_ok_def drags_def keeps_def moves_fields)

lemma drags_bind:
  assumes "post m (drags xs s)" "\<And>t. drag_ok t xs \<Longrightarrow> post (f t) (drags xs t)"
  shows "post (m \<bind> f) (drags xs s)"
  by (rule post_bindI [OF assms(1)], rule post_mono [OF assms(2)]) (auto simp: drags_def)

lemma drags_from:
  "touchWindow s' = touchWindow s \<Longrightarrow> touches s' = touches s \<Longrightarrow> views s' = views s \<Longrightarrow>
    post m (drags xs s') \<Longrightarrow> post m (drags xs s)"
  by (erule post_mono) (simp add: drags_def)

lemma touches_frame [simp]:
  "touches (s\<lparr>mousePosX := i\<rparr>) = touches s" "touches (s\<lparr>mousePosY := i\<rparr>) = touches s"
  "touches (s\<lparr>mouseWindow := p\<rparr>) = touches s" "touches (s\<lparr>onDraggingAction := b\<rparr>) = touches s"
  "touches (s\<lparr>dragGrabbingWindow := p\<rparr>) = touches s" "touches (s\<lparr>mousePressedButton := i\<rparr>) = touches s"
  "touches (s\<lparr>touchWindow := p\<rparr>) = touches s" "\<not> is_touch e \<Longrightarrow> touches (emit e s) = touches s"
  by (simp_all add: touches_def emit_def)

definition rel_pos :: "LensWM \<Rightarrow> jint \<Rightarrow> jint \<Rightarrow> wid \<Rightarrow> jint \<times> jint" where
  "rel_pos s x y w = (let b = nw_currentBounds (the (windows s w)) in (s32 (x - lb_x b), s32 (y - lb_y b)))"

definition window_at :: "LensWM \<Rightarrow> wid list \<Rightarrow> jint \<Rightarrow> jint \<Rightarrow> wid option" where
  "window_at s xs x y = find (\<lambda>w. hit x y (the (windows s w))) (rev xs)"

lemma map_option_pair [simp]:
  "map_option fst (map_option (\<lambda>w. (w, f w)) p) = p" "map_option snd (map_option (\<lambda>w. (w, f w)) p) = map_option f p"
  by (cases p; simp)+

lemma findWindowAtLocation_eq:
  "dllist s xs \<Longrightarrow> glass_window_findWindowAtLocation x y s =
     Some (map_option (\<lambda>w. (w, rel_pos s x y w)) (window_at s xs x y))"
  unfolding glass_window_findWindowAtLocation_def
  by (subst walk_backward_find) (auto simp: rel_pos_def window_at_def Let_def split: option.splits)

lemma window_at_in: "ptr_in (window_at s xs x y) xs"
  by (auto simp: window_at_def ptr_in_def dest: find_SomeD split: option.splits)

lemma mouseEvent_keeps:
  assumes "wm_inv s xs" "w \<in> set xs"
  shows "post (glass_application_notifyMouseEvent w t x y a b button s) (keeps xs s)"
proof -
  obtain n where n: "windows s w = Some n" "\<And>v. nw_view n = Some v \<Longrightarrow> views s v \<noteq> None"
    using wm_inv_live [OF assms] by blast
  show ?thesis by (rule keep_quiet [OF assms(1) notifyMouseEvent_post [OF n]])
qed

lemma mouse_at_keeps: "wm_inv s xs \<Longrightarrow> w \<in> set xs \<Longrightarrow> post (mouse_at w t button s) (keeps xs s)"
  unfolding mouse_at_def by (intro keep_read mouseEvent_keeps)

lemma ungrab_keeps:
  assumes inv: "wm_inv s xs" and w: "ptr_in window xs"
  shows "post (glass_window_ungrabFocus window s) (keeps xs s)"
  by (rule post_mono [OF ungrabFocus_post])
    (use w wm_inv_parts [OF inv] wm_inv_windows [OF inv] in
      \<open>auto simp: keeps_def intro!: moves_inv [OF inv refocus_moves] refocus_moves\<close>)

lemma break_grab_keeps:
  assumes inv: "wm_inv s xs" and w: "ptr_in window xs"
  shows "post (break_grab window s) (keeps xs s)"
proof (cases "grabbedWindow s")
  case (Some g)
  then have g: "g \<in> set xs" using wm_inv_parts(2,3) [OF inv] by (cases "focusedWindow s") auto
  have u: "post (glass_window_ungrabFocus (Some g) s) (keeps xs s)"
    by (rule ungrab_keeps [OF inv]) (simp add: g)
  show ?thesis
  proof (cases window)
    case None
    then show ?thesis using Some u by (simp add: break_grab_def)
  next
    case (Some w)
    have "post (do { n \<leftarrow> windows s w; gn \<leftarrow> windows s g;
        if nw_root n \<noteq> nw_root gn then glass_window_ungrabFocus (Some g) s else Some s }) (keeps xs s)"
      using w Some inv g by (intro keep_read [of s xs] keep_if u keep_refl) auto
    then show ?thesis using Some \<open>grabbedWindow s = Some g\<close> by (simp add: break_grab_def)
  qed
qed (simp add: break_grab_def keeps_def inv)

lemma handleClickOrTouchEvent_keeps:
  assumes inv: "wm_inv s xs"
  shows "post (handleClickOrTouchEvent x y s) (keeps xs s)"
proof -
  let ?w = "window_at s xs x y"
  have "post (do { s \<leftarrow> break_grab ?w s;
      case ?w of None \<Rightarrow> Some s
      | Some w \<Rightarrow> (case focusedWindow s of None \<Rightarrow> Some s
         | Some f \<Rightarrow> do { n \<leftarrow> windows s w; fn \<leftarrow> windows s f;
             if nw_root n \<noteq> nw_root fn then lens_wm_setFocusedWindow (Some w) s else Some s }) }) (keeps xs s)"
  proof (rule keep_bind [OF break_grab_keeps [OF inv window_at_in]])
    fix t assume t: "wm_inv t xs"
    have "post (do { n \<leftarrow> windows t w; fn \<leftarrow> windows t f;
        if nw_root n \<noteq> nw_root fn then lens_wm_setFocusedWindow (Some w) t else Some t }) (keeps xs t)"
      if "?w = Some w" "focusedWindow t = Some f" for w f
      using that t window_at_in [of s xs x y] wm_inv_parts(2) [OF t]
      by (intro keep_read keep_if keep_refl keep_focus) auto
    then show "post (case ?w of None \<Rightarrow> Some t | Some w \<Rightarrow> (case focusedWindow t of None \<Rightarrow> Some t
         | Some f \<Rightarrow> do { n \<leftarrow> windows t w; fn \<leftarrow> windows t f;
             if nw_root n \<noteq> nw_root fn then lens_wm_setFocusedWindow (Some w) t else Some t })) (keeps xs t)"
      using keep_refl [OF t] by (auto split: option.splits)
  qed
  then show ?thesis
    unfolding handleClickOrTouchEvent_def findWindowAtLocation_eq [OF wm_inv_parts(1) [OF inv]]
      bind.bind_lunit Let_def map_option_pair .
qed

lemma notifyScrollEvent_keeps:
  assumes inv: "wm_inv s xs"
  shows "post (lens_wm_notifyScrollEvent x y step s) (keeps xs s)"
proof -
  have "post (glass_application_notifyScrollEvent w a b x y step s) (keeps xs s)" if w: "w \<in> set xs" for w a b
  proof -
    obtain n where n: "windows s w = Some n" "\<And>v. nw_view n = Some v \<Longrightarrow> views s v \<noteq> None"
      using wm_inv_live [OF inv w] by blast
    show ?thesis by (rule keep_quiet [OF inv notifyScrollEvent_post [OF n]])
  qed
  then show ?thesis
    using window_at_in [of s xs x y] keep_refl [OF inv]
    by (auto simp: lens_wm_notifyScrollEvent_def findWindowAtLocation_eq [OF wm_inv_parts(1) [OF inv]]
        split: option.splits prod.splits)
qed

lemma enter_exit_drag_keeps:
  assumes inv: "wm_inv s xs" and d: "d \<in> set xs" and rel: "window \<noteq> None \<Longrightarrow> rel \<noteq> None"
  shows "post (enter_exit_drag d window rel s) (\<lambda>(r, t). keeps xs s t \<and> (window \<noteq> None \<longrightarrow> r \<noteq> None))"
proof -
  obtain n where n: "windows s d = Some n" using wm_inv_windows [OF inv d] by auto
  have ev: "post (do { t \<leftarrow> glass_application_notifyMouseEvent d e a b (mousePosX s) (mousePosY s) BUTTON_NONE s; Some (r, t) })
      (\<lambda>(r, t). keeps xs s t \<and> (window \<noteq> None \<longrightarrow> r \<noteq> None))" if "window \<noteq> None \<longrightarrow> r \<noteq> None"
    for e a b and r :: "(jint \<times> jint) option"
    unfolding post_bind by (rule post_mono [OF mouseEvent_keeps [OF inv d]]) (use that in simp)
  show ?thesis
  proof (cases "window = Some d")
    case True
    then obtain r where r: "rel = Some r" using rel by auto
    show ?thesis
      using True r ev [of "Some r" ME_ENTER "fst r" "snd r"] keep_refl [OF inv]
      by (simp add: enter_exit_drag_def del: not_None_eq)
  next
    case False
    then show ?thesis using rel ev keep_refl [OF inv] by (simp add: enter_exit_drag_def n Let_def del: not_None_eq)
  qed
qed

lemma enter_exit_free_keeps:
  assumes inv: "wm_inv s xs" and w: "ptr_in window xs" and rel: "window \<noteq> None \<Longrightarrow> rel \<noteq> None"
  shows "post (enter_exit_free window rel s) (keeps xs s)"
proof -
  have 1: "post (case mouseWindow s of None \<Rightarrow> Some s | Some l \<Rightarrow> mouse_at l ME_EXIT BUTTON_NONE s) (keeps xs s)"
    using wm_inv_parts(4) [OF inv] keep_refl [OF inv] mouse_at_keeps [OF inv] by (auto split: option.splits)
  have 2: "post (case window of None \<Rightarrow> Some t | Some w \<Rightarrow> do { r \<leftarrow> rel;
      glass_application_notifyMouseEvent w ME_ENTER (fst r) (snd r) (mousePosX t) (mousePosY t) BUTTON_NONE t }) (keeps xs t)"
    if t: "wm_inv t xs" for t
    using w rel keep_refl [OF t] mouseEvent_keeps [OF t] by (cases window; cases rel) auto
  show ?thesis
    unfolding enter_exit_free_def by (intro keep_if keep_bind 1 2 keep_refl inv)
qed

lemma notifyEnterExitEvents_post:
  assumes ok: "drag_ok s xs"
  shows "post (lens_wm_notifyEnterExitEvents s) (\<lambda>((window, rel), t). keeps xs s t \<and>
    window = window_at s xs (mousePosX s) (mousePosY s) \<and> (window \<noteq> None \<longrightarrow> rel \<noteq> None))"
proof -
  let ?w = "window_at s xs (mousePosX s) (mousePosY s)"
  let ?rel = "map_option (rel_pos s (mousePosX s) (mousePosY s)) ?w"
  have inv: "wm_inv s xs" and d: "ptr_in (dragGrabbingWindow s) xs" using ok by (auto simp: drag_ok_def)
  have rel: "?w \<noteq> None \<Longrightarrow> ?rel \<noteq> None" by simp
  have 1: "post (case dragGrabbingWindow s of Some d \<Rightarrow> if onDraggingAction s then enter_exit_drag d ?w ?rel s else Some (?rel, s)
      | None \<Rightarrow> Some (?rel, s)) (\<lambda>(r, t). keeps xs s t \<and> (?w \<noteq> None \<longrightarrow> r \<noteq> None))"
    using d enter_exit_drag_keeps [OF inv _ rel] inv by (auto simp: keeps_def split: option.splits)
  have 2: "post (do { t \<leftarrow> (if \<not> onDraggingAction t then enter_exit_free ?w r t else Some t); Some ((?w, r), t) })
      (\<lambda>((window, rel), t). keeps xs s t \<and> window = ?w \<and> (window \<noteq> None \<longrightarrow> rel \<noteq> None))"
    if t: "keeps xs s t" "?w \<noteq> None \<longrightarrow> r \<noteq> None" for r t
  proof -
    have "post (if \<not> onDraggingAction t then enter_exit_free ?w r t else Some t) (keeps xs t)"
      using t window_at_in by (intro keep_if enter_exit_free_keeps keep_refl) (auto simp: keeps_def)
    then show ?thesis
      unfolding post_bind by (rule post_mono) (use t in \<open>auto simp: keeps_def intro: frame_trans\<close>)
  qed
  have "post (do { (r, t) \<leftarrow> (case dragGrabbingWindow s of Some d \<Rightarrow> if onDraggingAction s then enter_exit_drag d ?w ?rel s else Some (?rel, s)
      | None \<Rightarrow> Some (?rel, s)); t \<leftarrow> (if \<not> onDraggingAction t then enter_exit_free ?w r t else Some t); Some ((?w, r), t) })
      (\<lambda>((window, rel), t). keeps xs s t \<and> window = ?w \<and> (window \<noteq> None \<longrightarrow> rel \<noteq> None))"
    by (rule post_bindI [OF 1], clarify, rule 2)
  then show ?thesis
    unfolding lens_wm_notifyEnterExitEvents_def findWindowAtLocation_eq [OF wm_inv_parts(1) [OF inv]]
      bind.bind_lunit Let_def map_option_pair .
qed

lemma stop_drag_ok: "drag_ok s xs \<Longrightarrow> drags xs s (stop_drag s)"
  by (simp add: drags_def drag_ok_def stop_drag_def)

lemma track_button_ok: "drag_ok s xs \<Longrightarrow> drags xs s (track_button pressed button s)"
  by (simp add: track_button_def drags_def drag_ok_def stop_drag_def)

lemma start_drag_ok: "drag_ok s xs \<Longrightarrow> drags xs s (start_drag s)"
  using wm_inv_parts(4) by (auto simp: start_drag_def drags_def drag_ok_def)

lemma mouse_drags:
  assumes "drag_ok s xs" "w \<in> set xs"
  shows "post (mouse_at w e button s) (drags xs s)"
    "post (glass_application_notifyMouseEvent w e x y a b button s) (drags xs s)"
  using assms drags_keeps [OF assms(1)] mouse_at_keeps [of s xs w] mouseEvent_keeps [of s xs w]
  by (simp_all add: drag_ok_def)

lemma drags_refl: "drag_ok s xs \<Longrightarrow> post (Some s) (drags xs s)"
  by (simp add: drags_def)

text \<open>Mouse events to the window that was found, or to the one that grabs the mouse.\<close>

lemma to_found_drags:
  assumes ok: "drag_ok s xs" and w: "ptr_in window xs" and rel: "window \<noteq> None \<Longrightarrow> rel \<noteq> None"
  shows "post (case window of None \<Rightarrow> Some s | Some w \<Rightarrow> do { r \<leftarrow> rel;
      glass_application_notifyMouseEvent w e (fst r) (snd r) x y button s }) (drags xs s)"
  using w rel mouse_drags [OF ok] drags_refl [OF ok] by (cases window; cases rel) auto

lemma to_grabbing_drags:
  assumes ok: "drag_ok s xs"
  shows "post (case dragGrabbingWindow s of None \<Rightarrow> Some s | Some d \<Rightarrow> mouse_at d e button s) (drags xs s)"
  using ok mouse_drags [OF ok] drags_refl [OF ok] by (auto simp: drag_ok_def split: option.splits)

lemma send_button_drags:
  assumes ok: "drag_ok s xs" and w: "ptr_in window xs" and rel: "window \<noteq> None \<Longrightarrow> rel \<noteq> None"
  shows "post (send_button pressed button window rel s) (drags xs s)"
  unfolding send_button_def
  by (intro keep_if drags_bind [OF to_grabbing_drags [OF ok]] to_found_drags ok w rel)
    (auto simp: drags_def drag_ok_def stop_drag_def touches_def)

lemma enter_exit_bind:
  assumes ok: "drag_ok s xs"
    and f: "\<And>window rel t. drag_ok t xs \<Longrightarrow> moves s t \<Longrightarrow> window = window_at s xs (mousePosX s) (mousePosY s) \<Longrightarrow>
      ptr_in window xs \<Longrightarrow> (window \<noteq> None \<Longrightarrow> rel \<noteq> None) \<Longrightarrow> post (f window rel t) (drags xs t)"
  shows "post (lens_wm_notifyEnterExitEvents s \<bind> (\<lambda>((window, rel), t). f window rel t)) (drags xs s)"
proof (rule post_bindI [OF notifyEnterExitEvents_post [OF ok]], clarify)
  fix rel :: "(jint \<times> jint) option" and t assume t: "keeps xs s t"
    and r: "window_at s xs (mousePosX s) (mousePosY s) \<noteq> None \<longrightarrow> rel \<noteq> None"
  have "drag_ok t xs" using t ok by (auto simp: keeps_def drag_ok_def moves_fields)
  then have "post (f (window_at s xs (mousePosX s) (mousePosY s)) rel t) (drags xs t)"
    using f t r window_at_in by (simp add: keeps_def)
  then show "post (f (window_at s xs (mousePosX s) (mousePosY s)) rel t) (drags xs s)"
    by (rule drags_from [rotated 3]) (use t in \<open>simp_all add: keeps_def moves_fields\<close>)
qed

lemma notifyButtonEvent_drags:
  assumes ok: "drag_ok s xs"
  shows "post (lens_wm_notifyButtonEvent pressed button x y s) (drags xs s)"
  unfolding lens_wm_notifyButtonEvent_def Let_def
proof (rule drags_from [OF _ _ _ enter_exit_bind [where xs = xs]])
  show "drag_ok (s\<lparr>mousePosX := x, mousePosY := y\<rparr>) xs" using ok by (simp add: drag_ok_def)
next
  fix window and rel :: "(jint \<times> jint) option" and t
  assume t: "drag_ok t xs" and w: "ptr_in window xs" "window \<noteq> None \<Longrightarrow> rel \<noteq> None"
  let ?u = "t\<lparr>mouseWindow := window\<rparr>"
  let ?t = "track_button pressed button ?u"
  have "drag_ok ?u xs" using t w(1) by (auto simp: drag_ok_def intro: wm_inv_mouse)
  then have t': "drags xs ?u ?t" by (rule track_button_ok)
  have "post (do { s \<leftarrow> send_button pressed button window rel ?t; handleClickOrTouchEvent x y s }) (drags xs ?t)"
  proof (rule drags_bind [OF send_button_drags [OF _ w]])
    fix u assume "drag_ok u xs"
    then show "post (handleClickOrTouchEvent x y u) (drags xs u)"
      by (intro drags_keeps handleClickOrTouchEvent_keeps) (simp_all add: drag_ok_def)
  qed (use t' in \<open>simp_all add: drags_def\<close>)
  then show "post (do { s \<leftarrow> send_button pressed button window rel ?t; handleClickOrTouchEvent x y s }) (drags xs t)"
    by (rule drags_from [rotated 3]) (use t' in \<open>simp_all add: drags_def\<close>)
qed simp_all

lemma notifyMotionEvent_drags:
  assumes ok: "drag_ok s xs"
  shows "post (lens_wm_notifyMotionEvent x y s) (drags xs s)"
  unfolding lens_wm_notifyMotionEvent_def Let_def
proof (rule drags_from [OF _ _ _ enter_exit_bind [where xs = xs]])
  let ?s = "emit (CursorPosition x y) (s\<lparr>mousePosX := x, mousePosY := y\<rparr>)"
  have st: "drags xs ?s (start_drag ?s)" using ok by (intro start_drag_ok) (simp add: drag_ok_def)
  then show "drag_ok (start_drag ?s) xs" "touchWindow (start_drag ?s) = touchWindow s" "touches (start_drag ?s) = touches s"
    "views (start_drag ?s) = views s"
    by (simp_all add: drags_def)
next
  fix window and rel :: "(jint \<times> jint) option" and t
  assume t: "drag_ok t xs" and w: "ptr_in window xs" "window \<noteq> None \<Longrightarrow> rel \<noteq> None"
  let ?t = "t\<lparr>mouseWindow := window\<rparr>"
  have t': "drag_ok ?t xs" using t w(1) by (auto simp: drag_ok_def intro: wm_inv_mouse)
  have "post (if onDraggingAction ?t
       then case dragGrabbingWindow ?t of None \<Rightarrow> Some ?t | Some d \<Rightarrow> mouse_at d ME_MOVE BUTTON_NONE ?t
       else case window of None \<Rightarrow> Some ?t | Some w \<Rightarrow> do { r \<leftarrow> rel;
         glass_application_notifyMouseEvent w ME_MOVE (fst r) (snd r) (mousePosX ?t) (mousePosY ?t) BUTTON_NONE ?t })
     (drags xs ?t)"
    by (intro keep_if to_grabbing_drags to_found_drags t' w)
  then show "post (if onDraggingAction ?t
       then case dragGrabbingWindow ?t of None \<Rightarrow> Some ?t | Some d \<Rightarrow> mouse_at d ME_MOVE BUTTON_NONE ?t
       else case window of None \<Rightarrow> Some ?t | Some w \<Rightarrow> do { r \<leftarrow> rel;
         glass_application_notifyMouseEvent w ME_MOVE (fst r) (snd r) (mousePosX ?t) (mousePosY ?t) BUTTON_NONE ?t })
     (drags xs t)"
    by (rule drags_from [rotated 3]) simp_all
qed

text \<open>A touch event: arrays with \<open>count\<close> points, and the index of the primary point, which may be \<open>-1\<close>.\<close>

definition touch_args :: "jint \<Rightarrow> jint list \<Rightarrow> jlong list \<Rightarrow> jint list \<Rightarrow> jint list \<Rightarrow> jint \<Rightarrow> bool" where
  "touch_args count states ids xabs yabs primaryPointIndex \<longleftrightarrow> 0 \<le> count \<and> length states = nat count \<and>
     length ids = nat count \<and> length xabs = nat count \<and> length yabs = nat count \<and>
     - 1 \<le> primaryPointIndex \<and> primaryPointIndex < count"

lemma all_pressed_Some: "0 \<le> i \<Longrightarrow> i + int k \<le> int (length states) \<Longrightarrow> \<exists>b. all_pressed k i states = Some b"
  by (induction k arbitrary: i) (auto simp: load_def)

lemma find_touch_window_ok:
  assumes ok: "drag_ok s xs" and a: "touch_args count states ids xabs yabs i"
  shows "post (find_touch_window count states xabs yabs i s) (\<lambda>t. drag_ok t xs \<and> views t = views s)"
proof -
  obtain b where "all_pressed (nat count) 0 states = Some b"
    using all_pressed_Some [of 0 "nat count" states] a by (auto simp: touch_args_def)
  moreover have "\<exists>x y. load xabs i = Some x \<and> load yabs i = Some y" if "0 \<le> i"
    using a that by (auto simp: touch_args_def load_def)
  ultimately show ?thesis
    using ok findWindowAtLocation_eq [of s xs]
    by (auto simp: find_touch_window_def drag_ok_def wm_inv_parts(1) split: option.splits)
qed

lemma touch_to_mouse_drags:
  assumes ok: "drag_ok s xs" and a: "touch_args count states ids xabs yabs i"
  shows "post (touch_to_mouse states xabs yabs i s) (drags xs s)"
proof (cases "i = - 1")
  case False
  then obtain x y st where l: "load xabs i = Some x" "load yabs i = Some y" "load states i = Some st"
    using a by (auto simp: touch_args_def load_def)
  have "post (do { s \<leftarrow> (if x \<noteq> mousePosX s \<or> y \<noteq> mousePosY s then lens_wm_notifyMotionEvent x y s else Some s);
         s \<leftarrow> lens_wm_notifyButtonEvent True BUTTON_LEFT x y s;
         Some (emit (CursorPosition x y) s) }) (drags xs s)"
    by (intro drags_bind keep_if notifyMotionEvent_drags notifyButtonEvent_drags drags_refl ok)
      (auto simp: drag_ok_def drags_def)
  with False l notifyMotionEvent_drags [OF ok] ok show ?thesis
    by (simp add: touch_to_mouse_def drag_ok_def drags_def)
qed (simp add: touch_to_mouse_def notifyButtonEvent_drags [OF ok])

lemma deliver_touch_ok:
  assumes ok: "drag_ok s xs" and a: "touch_args count states ids xabs yabs i"
  shows "post (deliver_touch count states ids xabs yabs i s) (\<lambda>t. drag_ok t xs \<and> views t = views s)"
proof (cases "touchWindow s")
  case (Some w)
  have inv: "wm_inv s xs" using ok by (simp add: drag_ok_def)
  note ex = glass_window_isExist_iff [OF wm_inv_parts(1) [OF inv], of "Some w"]
  show ?thesis
  proof (cases "w \<in> set xs")
    case True
    obtain n where n: "windows s w = Some n" "\<And>v. nw_view n = Some v \<Longrightarrow> views s v \<noteq> None"
      using wm_inv_live [OF inv True] by blast
    have "post (glass_application_notifyMultiTouchEvent w count states ids xabs yabs dx dy s)
        (\<lambda>t. drag_ok t xs \<and> views t = views s)" for dx dy
      by (rule post_mono [OF notifyMultiTouchEvent_post [OF n]])
        (use a ok in \<open>auto simp: touch_args_def drag_ok_def quiet_fields intro: quiet_inv [OF inv]\<close>)
    then show ?thesis
      using Some True ex n(1) by (auto simp: deliver_touch_def post_bind drag_ok_def elim!: post_mono)
  qed (use Some ex ok in \<open>auto simp: deliver_touch_def\<close>)
qed (use ok in \<open>simp add: deliver_touch_def\<close>)

lemma notifyMultiTouchEvent_ok:
  assumes ok: "drag_ok s xs" and a: "touch_args count states ids xabs yabs i"
  shows "post (lens_wm_notifyMultiTouchEvent count states ids xabs yabs i s) (\<lambda>t. drag_ok t xs \<and> views t = views s)"
  unfolding lens_wm_notifyMultiTouchEvent_def
proof (rule post_bindI [OF find_touch_window_ok [OF ok a]])
  fix t assume t: "drag_ok t xs \<and> views t = views s"
  show "post (do { s \<leftarrow> touch_to_mouse states xabs yabs i t; deliver_touch count states ids xabs yabs i s })
      (\<lambda>t. drag_ok t xs \<and> views t = views s)"
    by (rule post_bindI [OF touch_to_mouse_drags [OF _ a]])
      (use t in \<open>auto simp: drags_def intro: post_mono [OF deliver_touch_ok [OF _ a]]\<close>)
qed

end
