(* ===== verification/LensSafety.thy ===== *)
theory LensSafety
  imports LensInvariant
begin

text \<open>
  Life of windows and views, the transition system of all calls into the window manager, and its
  safety: in every reachable state the invariant holds and every call with live handles returns.
\<close>

section \<open>Operations that change the list\<close>

lemma unlinked_fields:
  assumes "unlinked t = unlinked s"
  shows "views t = views s" "focusedWindow t = focusedWindow s" "grabbedWindow t = grabbedWindow s"
    "mouseWindow t = mouseWindow s" "dragGrabbingWindow t = dragGrabbingWindow s" "pApplication t = pApplication s"
    "touchWindow t = touchWindow s" "onDraggingAction t = onDraggingAction s" "glass_trace t = glass_trace s"
  using assms by (cases s; cases t; simp add: unlinked_def)+

lemma unlinked_view:
  assumes "unlinked t = unlinked s" "windows t w = Some n"
  shows "\<exists>n'. windows s w = Some n' \<and> nw_view n' = nw_view n"
  using unlinked_window [OF assms(1), of w] assms(2) by (cases "windows s w") (auto simp: win_core_def dest: arg_cong [of _ _ nw_view])

lemma wm_inv_relist:
  assumes "unlinked t = unlinked s" "dllist t ys" "pApplication s" "ptr_in (focusedWindow s) ys"
    "grabbedWindow s = None \<or> grabbedWindow s = focusedWindow s" "ptr_in (mouseWindow s) ys"
    "\<And>w n v. w \<in> set ys \<Longrightarrow> windows s w = Some n \<Longrightarrow> nw_view n = Some v \<Longrightarrow> views s v \<noteq> None"
    "\<And>v nv. views s v = Some nv \<Longrightarrow> ptr_in (nv_parent nv) ys"
  shows "wm_inv t ys"
  using assms unlinked_view [OF assms(1)] by (fastforce simp: wm_inv_def unlinked_fields [OF assms(1)])

lemma wm_inv_reorder:
  assumes "wm_inv s xs" "unlinked t = unlinked s" "dllist t ys" "set ys = set xs"
  shows "wm_inv t ys"
  using assms by (intro wm_inv_relist [OF assms(2,3)]) (auto simp: wm_inv_def ptr_in_def split: option.splits)

lemma repaint_after:
  assumes "wm_inv t ys" "w \<in> set ys"
  shows "post (if b then lens_wm_repaint (Some w) t else Some t) (\<lambda>u. wm_inv u ys)"
  by (rule post_mono [where P = "keeps ys t"], intro keep_if repaint_keeps keep_refl)
    (use assms in \<open>auto simp: keeps_def\<close>)

lemma toFront_inv:
  assumes inv: "wm_inv s xs" and w: "w \<in> set xs"
  shows "post (glass_window_toFront w s) (\<lambda>t. wm_inv t (remove1 w xs @ [w]))"
proof -
  obtain t where t: "glass_window_list_toFront w s = Some (ptr_last xs \<noteq> Some w, t)"
    "dllist t (remove1 w xs @ [w])" "unlinked t = unlinked s"
    using glass_window_list_toFront_correct(2) [OF wm_inv_parts(1) [OF inv] w] by blast
  have "wm_inv t (remove1 w xs @ [w])"
    by (rule wm_inv_reorder [OF inv t(3,2)])
      (use w dllist_distinct [OF wm_inv_parts(1) [OF inv]] in auto)
  from repaint_after [OF this] t(1) show ?thesis by (simp add: glass_window_toFront_def)
qed

lemma toBack_inv:
  assumes inv: "wm_inv s xs" and w: "w \<in> set xs"
  shows "post (glass_window_toBack w s) (\<lambda>t. wm_inv t (w # remove1 w xs))"
proof -
  obtain t where t: "glass_window_list_toBack w s = Some (ptr_hd xs \<noteq> Some w, t)"
    "dllist t (w # remove1 w xs)" "unlinked t = unlinked s"
    using glass_window_list_toBack_correct(2) [OF wm_inv_parts(1) [OF inv] w] by blast
  have "wm_inv t (w # remove1 w xs)"
    by (rule wm_inv_reorder [OF inv t(3,2)])
      (use w dllist_distinct [OF wm_inv_parts(1) [OF inv]] in auto)
  from repaint_after [OF this] t(1) show ?thesis by (simp add: glass_window_toBack_def)
qed

lemma dllist_alloc:
  assumes "dllist s xs" "w \<notin> set xs"
  shows "dllist (s\<lparr>windows := (windows s)(w := p)\<rparr>) xs"
proof -
  let ?s = "s\<lparr>windows := (windows s)(w := p)\<rparr>"
  have "nexts ?s = (nexts s)(w := map_option nw_nextWindow p)" "prevs ?s = (prevs s)(w := map_option nw_previousWindow p)"
    by (auto simp: nexts_def prevs_def)
  then show ?thesis using assms by (simp add: dllist_def)
qed

lemma wm_inv_alloc:
  assumes "wm_inv s xs" "w \<notin> set xs"
  shows "wm_inv (s\<lparr>windows := (windows s)(w := p)\<rparr>) xs"
  using assms dllist_alloc [of s xs w p] by (auto simp: wm_inv_def)

lemma create_inv:
  assumes inv: "wm_inv s xs" and w: "windows s w = None" and ow: "ptr_in owner xs"
  shows "post (glass_create_native_window (Some w) True True owner m s) (\<lambda>(r, t). r = Some w \<and> wm_inv t (xs @ [w]) \<and> views t = views s)"
proof -
  have wx: "w \<notin> set xs" using w wm_inv_windows [OF inv, of w] by auto
  obtain root where root: "(case owner of None \<Rightarrow> Some (Some w) | Some ow \<Rightarrow> do { on \<leftarrow> windows s ow; Some (nw_root on) }) = Some root"
    using ow wm_inv_windows [OF inv, of "the owner"] by (cases owner) auto
  let ?s = "s\<lparr>windows := (windows s)(w \<mapsto> new_window w owner root m)\<rparr>"
  have inv': "wm_inv ?s xs" by (rule wm_inv_alloc [OF inv wx])
  obtain t where t: "glass_window_list_add (Some w) ?s = Some t" "dllist t (xs @ [w])" "unlinked t = unlinked ?s"
    using glass_window_list_add_correct [OF wm_inv_parts(1) [OF inv'] wx] by auto
  have "wm_inv t (xs @ [w])"
    by (rule wm_inv_relist [OF t(3,2)])
      (use inv in \<open>auto simp: wm_inv_def ptr_in_def new_window_def split: option.splits if_splits\<close>)
  moreover have "views t = views s" using unlinked_fields(1) [OF t(3)] by simp
  ultimately show ?thesis using root t(1) by (simp add: glass_create_native_window_def Let_def)
qed

section \<open>Closing a window\<close>

lemma walk_list_filter:
  "walk_list h (\<lambda>w n acc. Inr (if P n then acc @ [w] else acc)) xs acc =
     Inr (acc @ filter (\<lambda>w. P (the (h w))) xs)"
  by (induction xs arbitrary: acc) auto

lemma notify_close_post:
  assumes "\<And>w. w \<in> set ws \<Longrightarrow> windows s w \<noteq> None"
  shows "post (notify_close ws s) (quiet s)"
  using assms
proof (induction ws arbitrary: s)
  case (Cons w ws)
  show ?case
    unfolding notify_close.simps
  proof (rule post_bindI [OF notifyWindowEvent_post])
    fix t assume t: "quiet s t"
    have "post (notify_close ws t) (quiet t)"
      by (rule Cons.IH) (use Cons.prems t in \<open>auto simp: quiet_fields\<close>)
    then show "post (notify_close ws t) (quiet s)"
      by (rule post_mono) (use t in \<open>auto intro: frame_trans\<close>)
  qed (use Cons.prems in auto)
qed simp

lemma reset_pointers_eq:
  "reset_pointers w s = s\<lparr>mouseWindow := (if mouseWindow s = Some w then None else mouseWindow s),
     grabbedWindow := (if grabbedWindow s = Some w then None else grabbedWindow s),
     focusedWindow := (if focusedWindow s = Some w then None else focusedWindow s)\<rparr>"
  by (cases s) (simp add: reset_pointers_def)

lemma reset_pointers_windows:
  "reset_pointers w (s\<lparr>windows := (windows s)(c := p)\<rparr>) =
     (reset_pointers w s)\<lparr>windows := (windows (reset_pointers w s))(c := p)\<rparr>"
  by (cases s) (simp add: reset_pointers_eq)

lemma reset_pointers_inv:
  assumes "wm_inv s xs" "unlinked t = unlinked s" "dllist t (remove1 w xs)"
    "\<And>v nv. views s v = Some nv \<Longrightarrow> nv_parent nv \<noteq> Some w"
  shows "wm_inv (reset_pointers w t) (remove1 w xs)"
proof -
  have d: "distinct xs" using assms(1) by (auto simp: wm_inv_def dest: dllist_distinct)
  have u: "unlinked (reset_pointers w t) = unlinked (reset_pointers w s)"
    using assms(2) unlinked_fields [OF assms(2)] by (cases s; cases t) (simp add: unlinked_def reset_pointers_eq)
  have dl: "dllist (reset_pointers w t) (remove1 w xs)" using assms(3) by (simp add: reset_pointers_eq)
  show ?thesis
    by (rule wm_inv_relist [OF u dl])
      (use assms(1,4) d in \<open>auto simp: wm_inv_def reset_pointers_eq ptr_in_def split: option.splits if_splits\<close>)
qed

lemma notifyPlatformWindowRelease_post:
  assumes inv: "wm_inv (reset_pointers w s) ys" and d: "dllist s ys"
  shows "post (lens_wm_notifyPlatformWindowRelease w s) (keeps ys (reset_pointers w s))"
proof -
  let ?s = "reset_pointers w s"
  have h: "windowList_head ?s = ptr_hd ys" using dllist_ends(1) [OF d] by (simp add: reset_pointers_eq)
  have "post (do { n \<leftarrow> windows ?s h; if nw_view n \<noteq> None then lens_wm_repaint (Some h) ?s else Some ?s }) (keeps ys ?s)"
    if "ptr_hd ys = Some h" for h
    using that by (intro keep_read [OF inv] keep_if repaint_keeps keep_refl inv) (auto simp: ptr_hd_Some)
  then show ?thesis
    using keep_refl [OF inv] by (auto simp: lens_wm_notifyPlatformWindowRelease_def Let_def h split: option.splits)
qed

definition owned_by :: "LensWM \<Rightarrow> wid list \<Rightarrow> wid \<Rightarrow> wid list" where
  "owned_by s xs w = filter (\<lambda>c. nw_owner (the (windows s c)) = Some w) xs"

lemma release_unfold:
  assumes inv: "wm_inv s xs" and w: "w \<in> set xs"
  obtains s1 s2 n where "notify_close (owned_by s xs w) s = Some s1" "quiet s s1"
    "glass_window_list_remove (Some w) s1 = Some s2" "unlinked s2 = unlinked s1" "dllist s2 (remove1 w xs)"
    "windows s2 w = Some n"
    "glass_window_NativeWindow_release (Some w) s =
      (let s3 = s2\<lparr>windows := (windows s2)(w \<mapsto> n\<lparr>nw_processEvents := False\<rparr>)\<rparr> in do {
         s \<leftarrow> lens_wm_notifyPlatformWindowRelease w s3;
         n \<leftarrow> windows s w;
         if nw_view n \<noteq> None then Some (0, s)
         else do {
           s \<leftarrow> glass_application_notifyWindowEvent (Some w) WE_DESTROY s;
           Some (0, s\<lparr>windows := (windows s)(w := None)\<rparr>)
         } })"
proof -
  have walk: "window_walk (windows s) nw_nextWindow (\<lambda>c n acc. Inr (if nw_owner n = Some w then acc @ [c] else acc))
      (windowList_head s) [] = Some (Inr (owned_by s xs w) :: wid list + wid list)"
    by (simp add: walk_forward [OF wm_inv_parts(1) [OF inv]] walk_list_filter owned_by_def)
  have "post (notify_close (owned_by s xs w) s) (quiet s)"
    by (rule notify_close_post) (use wm_inv_windows [OF inv] in \<open>auto simp: owned_by_def\<close>)
  then obtain s1 where s1: "notify_close (owned_by s xs w) s = Some s1" "quiet s s1" by (rule post_obtain)
  have inv1: "wm_inv s1 xs" by (rule quiet_inv [OF inv s1(2)])
  obtain s2 where s2: "glass_window_list_remove (Some w) s1 = Some s2" "dllist s2 (remove1 w xs)" "unlinked s2 = unlinked s1"
    using glass_window_list_remove_correct(2) [OF wm_inv_parts(1) [OF inv1] w] by blast
  obtain n where n: "windows s2 w = Some n"
    using unlinked_window [OF s2(3), of w] wm_inv_windows [OF inv1 w] by (cases "windows s2 w") auto
  show ?thesis
    by (rule that [OF s1 s2(1,3,2) n])
      (simp add: glass_window_NativeWindow_release_def walk s1(1) s2(1) win_upd_def n Let_def)
qed

text \<open>What closing a window leaves as it is, and that its memory is freed when no view is attached.\<close>

definition closed :: "wid \<Rightarrow> LensWM \<Rightarrow> LensWM \<Rightarrow> bool" where
  "closed w s t \<longleftrightarrow> views t = views s \<and> onDraggingAction t = onDraggingAction s \<and>
     dragGrabbingWindow t = dragGrabbingWindow s \<and> touchWindow t = touchWindow s \<and>
     (nw_view (the (windows s w)) = None \<longrightarrow> windows t w = None)"

lemma release_inv:
  assumes inv: "wm_inv s xs" and w: "w \<in> set xs" and p: "\<And>v nv. views s v = Some nv \<Longrightarrow> nv_parent nv \<noteq> Some w"
  shows "post (glass_window_NativeWindow_release (Some w) s) (\<lambda>(r, t). r = 0 \<and> wm_inv t (remove1 w xs) \<and> closed w s t)"
proof -
  obtain s1 s2 n where s1: "quiet s s1" and s2: "unlinked s2 = unlinked s1" "dllist s2 (remove1 w xs)" "windows s2 w = Some n"
    and run: "glass_window_NativeWindow_release (Some w) s =
      (let s3 = s2\<lparr>windows := (windows s2)(w \<mapsto> n\<lparr>nw_processEvents := False\<rparr>)\<rparr> in do {
         s \<leftarrow> lens_wm_notifyPlatformWindowRelease w s3;
         n \<leftarrow> windows s w;
         if nw_view n \<noteq> None then Some (0, s)
         else do {
           s \<leftarrow> glass_application_notifyWindowEvent (Some w) WE_DESTROY s;
           Some (0, s\<lparr>windows := (windows s)(w := None)\<rparr>)
         } })"
    by (rule release_unfold [OF inv w], rule that)
  let ?ys = "remove1 w xs"
  let ?s3 = "s2\<lparr>windows := (windows s2)(w \<mapsto> n\<lparr>nw_processEvents := False\<rparr>)\<rparr>"
  let ?Q = "\<lambda>(r, t). r = (0 :: jint) \<and> wm_inv t ?ys \<and> closed w s t"
  have wy: "w \<notin> set ?ys" using dllist_distinct [OF wm_inv_parts(1) [OF inv]] by auto
  have d3: "dllist ?s3 ?ys" by (rule dllist_alloc [OF s2(2) wy])
  have "wm_inv (reset_pointers w s2) ?ys"
    by (rule reset_pointers_inv [OF quiet_inv [OF inv s1] s2(1,2)]) (use p s1 in \<open>simp add: quiet_fields\<close>)
  from wm_inv_alloc [OF this wy] have inv3: "wm_inv (reset_pointers w ?s3) ?ys"
    by (simp only: reset_pointers_windows)
  have view: "nw_view (the (windows s w)) = nw_view n"
    using unlinked_view [OF s2(1,3)] quiet_fields(1) [OF s1] by auto
  show ?thesis
    unfolding run Let_def
  proof (rule post_bindI [OF notifyPlatformWindowRelease_post [OF inv3 d3]])
    fix t assume t: "keeps ?ys (reset_pointers w ?s3) t"
    then have m: "moves (reset_pointers w ?s3) t" and invt: "wm_inv t ?ys" by (auto simp: keeps_def)
    obtain n' where n': "windows t w = Some n'" "nw_view n' = nw_view n"
      using moves_links(3) [OF m, of w] by (cases "windows t w") (auto simp: reset_pointers_eq)
    have f: "views u = views s \<and> onDraggingAction u = onDraggingAction s \<and> dragGrabbingWindow u = dragGrabbingWindow s \<and>
        touchWindow u = touchWindow s" if "quiet t u" for u
      using moves_fields [OF m] quiet_fields [OF s1] quiet_fields [OF that] unlinked_fields [OF s2(1)]
      by (simp add: reset_pointers_eq)
    have "post (glass_application_notifyWindowEvent (Some w) WE_DESTROY t) (quiet t)"
      by (rule notifyWindowEvent_post) (use n' in auto)
    then have "post (do { s \<leftarrow> glass_application_notifyWindowEvent (Some w) WE_DESTROY t;
        Some (0, s\<lparr>windows := (windows s)(w := None)\<rparr>) }) ?Q"
      by (rule post_bindI) (use invt f in \<open>auto simp: closed_def intro: wm_inv_alloc [OF _ wy] quiet_inv\<close>)
    then show "post (do { n \<leftarrow> windows t w; if nw_view n \<noteq> None then Some (0, t)
         else do { s \<leftarrow> glass_application_notifyWindowEvent (Some w) WE_DESTROY t;
           Some (0, s\<lparr>windows := (windows s)(w := None)\<rparr>) } }) ?Q"
      using invt n' view f [of t] by (auto simp: closed_def)
  qed
qed

section \<open>Views\<close>

lemma wm_inv_views:
  assumes "wm_inv s xs" "\<And>w n. w \<in> set xs \<Longrightarrow> windows s w = Some n \<Longrightarrow> nw_view n = Some v \<Longrightarrow> p \<noteq> None"
    "\<And>nv. p = Some nv \<Longrightarrow> ptr_in (nv_parent nv) xs"
  shows "wm_inv (s\<lparr>views := (views s)(v := p)\<rparr>) xs"
  using assms by (auto simp: wm_inv_def)

lemma attachView_inv:
  assumes inv: "wm_inv s xs" and w: "w \<in> set xs" and v: "\<And>v. view = Some v \<Longrightarrow> views s v \<noteq> None"
  shows "post (LensWindow_attachViewToWindow w view s) (\<lambda>t. wm_inv t xs)"
proof -
  obtain n where n: "windows s w = Some n" using wm_inv_windows [OF inv w] by auto
  let ?t = "s\<lparr>windows := (windows s)(w \<mapsto> n\<lparr>nw_view := view\<rparr>)\<rparr>"
  have "nexts ?t = nexts s" "prevs ?t = prevs s" using n by (auto simp: nexts_def prevs_def)
  then have "dllist ?t xs" using wm_inv_parts(1) [OF inv] by (simp add: dllist_def)
  then have "wm_inv ?t xs" using inv v by (auto simp: wm_inv_def)
  then show ?thesis by (simp add: LensWindow_attachViewToWindow_def win_upd_def n)
qed

lemma setEnabled_keeps:
  "wm_inv s xs \<Longrightarrow> w \<in> set xs \<Longrightarrow> post (LensWindow_setEnabled w b s) (keeps xs s)"
  unfolding LensWindow_setEnabled_def
  by (intro window_keeps setFocusable_keeps mouseEvent_keeps keep_upd) (auto simp: win_links_eq)

lemma setParent_inv:
  assumes inv: "wm_inv s xs" and v: "views s v = Some nv" and p: "ptr_in parent xs"
  shows "post (glass_view_setParent parent v s) (\<lambda>t. wm_inv t xs)"
proof -
  have upd: "wm_inv (t\<lparr>views := (views t)(v \<mapsto> nv\<lparr>nv_parent := q\<rparr>)\<rparr>) xs" if "wm_inv t xs" "ptr_in q xs" for t q
    by (rule wm_inv_views [OF that(1)]) (use that(2) in auto)
  have ev: "post (do { n \<leftarrow> windows t w; if nw_view n \<noteq> None then do { u \<leftarrow> glass_application_notifyViewEvent (nw_view n) e 0 0 0 0 t; f u } else Some t })
      (\<lambda>t. wm_inv t xs)" if t: "wm_inv t xs" "w \<in> set xs" and f: "\<And>u. wm_inv u xs \<Longrightarrow> post (f u) (\<lambda>t. wm_inv t xs)" for t w e f
  proof (rule keep_read [OF t], rule keep_if)
    fix n assume "\<And>v. nw_view n = Some v \<Longrightarrow> views t v \<noteq> None"
    then show "post (do { u \<leftarrow> glass_application_notifyViewEvent (nw_view n) e 0 0 0 0 t; f u }) (\<lambda>t. wm_inv t xs)"
      by (intro post_bindI [OF notifyViewEvent_post] f) (auto intro: quiet_inv [OF t(1)])
  qed (use t in simp)
  have 1: "post (case nv_parent nv of None \<Rightarrow> Some s | Some old \<Rightarrow> do {
      n \<leftarrow> windows s old;
      if nw_view n \<noteq> None then do {
        s \<leftarrow> glass_application_notifyViewEvent (nw_view n) VE_REMOVE 0 0 0 0 s;
        Some (s\<lparr>views := (views s)(v \<mapsto> nv\<lparr>nv_parent := None\<rparr>)\<rparr>)
      } else Some s }) (\<lambda>t. wm_inv t xs)"
    using inv wm_inv_parts(6) [OF inv v] upd by (cases "nv_parent nv") (auto simp del: not_None_eq intro!: ev)
  have 2: "post (case parent of None \<Rightarrow> Some t | Some p \<Rightarrow> do {
      n \<leftarrow> windows t p;
      if nw_view n \<noteq> None then glass_application_notifyViewEvent (nw_view n) VE_ADD 0 0 0 0 t else Some t }) (\<lambda>t. wm_inv t xs)"
    if "wm_inv t xs" for t
    using that p
    by (cases parent)
      (auto simp del: not_None_eq intro!: keep_read [OF that] keep_if post_mono [OF notifyViewEvent_post] intro: quiet_inv)
  show ?thesis
    unfolding glass_view_setParent_def v bind.bind_lunit Let_def
    by (rule post_bindI [OF 1]) (intro 2 upd p)
qed

lemma keeps_inv: "post m (keeps xs s) \<Longrightarrow> post m (\<lambda>t. wm_inv t xs)"
  by (erule post_mono) (simp add: keeps_def)

lemma fullscreen_inv:
  assumes inv: "wm_inv s xs" and v: "views s v = Some nv"
  shows "post (glass_view_enterFullscreen v s) (\<lambda>(_, t). wm_inv t xs)"
    "post (glass_view_exitFullscreen v s) (\<lambda>(_, t). wm_inv t xs)"
  using inv wm_inv_parts(6) [OF inv v] keeps_inv [OF windowEnterFullscreen_keeps [OF inv]] keeps_inv [OF windowRestore_keeps [OF inv]]
  by (auto simp: glass_view_enterFullscreen_def glass_view_exitFullscreen_def v post_bind
      split: option.splits)

lemma repaint_all_inv:
  assumes inv: "wm_inv s xs"
  shows "post (lens_wm_repaint_all s) (\<lambda>t. wm_inv t xs)"
proof -
  let ?body = "\<lambda>w n acc. Inr (if nw_view n \<noteq> None then do {
            s \<leftarrow> acc;
            glass_application_notifyViewEvent (nw_view n) VE_REPAINT
              (lb_x (nw_currentBounds n)) (lb_y (nw_currentBounds n))
              (lb_width (nw_currentBounds n)) (lb_height (nw_currentBounds n)) s
          } else acc) :: LensWM option + LensWM option"
  have "\<exists>m. walk_list (windows s) ?body ys acc = Inr m \<and> post m (quiet s)" if "set ys \<subseteq> set xs" "post acc (quiet s)" for ys acc
    using that
  proof (induction ys arbitrary: acc)
    case (Cons w ys)
    obtain n where n: "windows s w = Some n" "\<And>v. nw_view n = Some v \<Longrightarrow> views s v \<noteq> None"
      using wm_inv_live [OF inv, of w] Cons.prems by auto
    have "post (acc \<bind> glass_application_notifyViewEvent (nw_view n) VE_REPAINT x y a b) (quiet s)" for x y a b
    proof (rule post_bindI [OF Cons.prems(2)])
      fix t assume t: "quiet s t"
      show "post (glass_application_notifyViewEvent (nw_view n) VE_REPAINT x y a b t) (quiet s)"
        by (rule post_mono [OF notifyViewEvent_post]) (use n t in \<open>auto simp: quiet_fields intro: frame_trans\<close>)
    qed
    with Cons.prems have "\<exists>m. ?body w n acc = Inr m \<and> post m (quiet s)" by auto
    with Cons n(1) show ?case by auto
  qed simp
  from this [of xs "Some s"] show ?thesis
    using quiet_inv [OF inv]
    by (auto simp: lens_wm_repaint_all_def walk_forward [OF wm_inv_parts(1) [OF inv]] elim!: post_mono)
qed

section \<open>All calls into the window manager\<close>

datatype lens_op =
    OpCreate wid "wid option" jint
  | OpClose wid
  | OpAttachView wid "vid option"
  | OpSetEnabled wid bool
  | OpMinimize wid bool
  | OpMaximize wid bool bool
  | OpSetBounds wid jint jint jint jint bool bool bool
  | OpSetVisible wid bool
  | OpRequestFocus "wid option"
  | OpSetFocusable wid bool
  | OpToFront wid
  | OpToBack wid
  | OpGrabFocus wid
  | OpUngrabFocus wid
  | OpSetMinimumSize wid jint jint
  | OpSetMaximumSize wid jint jint
  | OpCreateView vid bool
  | OpCloseView vid
  | OpSetParent "wid option" vid
  | OpEnterFullscreen vid
  | OpExitFullscreen vid
  | OpRepaintAll
  | OpDnDStarted
  | OpDnDEnded
  | OpSetPointer jint jint
  | OpButton bool jint jint jint
  | OpMotion jint jint
  | OpScroll jint jint jint
  | OpTouch jint "jint list" "jlong list" "jint list" "jint list" jint

fun lens_exec :: "lens_op \<Rightarrow> LensWM \<Rightarrow> LensWM option" where
  "lens_exec (OpCreate w owner m) s = map_option snd (glass_create_native_window (Some w) True True owner m s)"
| "lens_exec (OpClose w) s = map_option snd (LensWindow_close w s)"
| "lens_exec (OpAttachView w v) s = LensWindow_attachViewToWindow w v s"
| "lens_exec (OpSetEnabled w b) s = LensWindow_setEnabled w b s"
| "lens_exec (OpMinimize w b) s = glass_window_minimize w b s"
| "lens_exec (OpMaximize w b c) s = map_option snd (glass_window_maximize w b c s)"
| "lens_exec (OpSetBounds w x y a b p q c) s = glass_window_setBoundsImpl w x y a b p q c s"
| "lens_exec (OpSetVisible w b) s = glass_window_setVisible w b s"
| "lens_exec (OpRequestFocus w) s = map_option snd (glass_window_requestFocus w s)"
| "lens_exec (OpSetFocusable w b) s = glass_window_setFocusable w b s"
| "lens_exec (OpToFront w) s = glass_window_toFront w s"
| "lens_exec (OpToBack w) s = glass_window_toBack w s"
| "lens_exec (OpGrabFocus w) s = Some (snd (glass_window_grabFocus w s))"
| "lens_exec (OpUngrabFocus w) s = glass_window_ungrabFocus (Some w) s"
| "lens_exec (OpSetMinimumSize w a b) s = glass_window_setMinimumSize w a b s"
| "lens_exec (OpSetMaximumSize w a b) s = glass_window_setMaximumSize w a b s"
| "lens_exec (OpCreateView v b) s = Some (LensView_createNativeView v b s)"
| "lens_exec (OpCloseView v) s = glass_view_releaseNativeView v s"
| "lens_exec (OpSetParent p v) s = glass_view_setParent p v s"
| "lens_exec (OpEnterFullscreen v) s = map_option snd (glass_view_enterFullscreen v s)"
| "lens_exec (OpExitFullscreen v) s = map_option snd (glass_view_exitFullscreen v s)"
| "lens_exec OpRepaintAll s = lens_wm_repaint_all s"
| "lens_exec OpDnDStarted s = Some (notify_lens_wm_DnDStarted s)"
| "lens_exec OpDnDEnded s = Some (notify_lens_wm_DnDEnded s)"
| "lens_exec (OpSetPointer x y) s = Some (lens_wm_setPointerPosition x y s)"
| "lens_exec (OpButton b i x y) s = lens_wm_notifyButtonEvent b i x y s"
| "lens_exec (OpMotion x y) s = lens_wm_notifyMotionEvent x y s"
| "lens_exec (OpScroll x y i) s = lens_wm_notifyScrollEvent x y i s"
| "lens_exec (OpTouch c st ids xa ya i) s = lens_wm_notifyMultiTouchEvent c st ids xa ya i s"

text \<open>
  What the callers must respect: handles are live, memory that \<open>calloc\<close> returns is not in use, a window is
  closed after its views were taken away and a view after it was detached, and the arrays of a touch event
  have their size. The last condition on mouse and touch events is that the window in which a drag
  began has not been closed meanwhile.
\<close>

fun op_ok :: "lens_op \<Rightarrow> LensWM \<Rightarrow> wid list \<Rightarrow> bool" where
  "op_ok (OpCreate w owner m) s xs \<longleftrightarrow> windows s w = None \<and> ptr_in owner xs"
| "op_ok (OpClose w) s xs \<longleftrightarrow> w \<in> set xs \<and> (\<forall>v nv. views s v = Some nv \<longrightarrow> nv_parent nv \<noteq> Some w)"
| "op_ok (OpAttachView w v) s xs \<longleftrightarrow> w \<in> set xs \<and> (case v of None \<Rightarrow> True | Some v \<Rightarrow> views s v \<noteq> None)"
| "op_ok (OpSetEnabled w b) s xs \<longleftrightarrow> w \<in> set xs"
| "op_ok (OpMinimize w b) s xs \<longleftrightarrow> w \<in> set xs"
| "op_ok (OpMaximize w b c) s xs \<longleftrightarrow> w \<in> set xs"
| "op_ok (OpSetBounds w x y a b p q c) s xs \<longleftrightarrow> w \<in> set xs"
| "op_ok (OpSetVisible w b) s xs \<longleftrightarrow> w \<in> set xs"
| "op_ok (OpRequestFocus w) s xs \<longleftrightarrow> ptr_in w xs"
| "op_ok (OpSetFocusable w b) s xs \<longleftrightarrow> w \<in> set xs"
| "op_ok (OpToFront w) s xs \<longleftrightarrow> w \<in> set xs"
| "op_ok (OpToBack w) s xs \<longleftrightarrow> w \<in> set xs"
| "op_ok (OpGrabFocus w) s xs \<longleftrightarrow> w \<in> set xs"
| "op_ok (OpUngrabFocus w) s xs \<longleftrightarrow> w \<in> set xs"
| "op_ok (OpSetMinimumSize w a b) s xs \<longleftrightarrow> w \<in> set xs"
| "op_ok (OpSetMaximumSize w a b) s xs \<longleftrightarrow> w \<in> set xs"
| "op_ok (OpCreateView v b) s xs \<longleftrightarrow> views s v = None"
| "op_ok (OpCloseView v) s xs \<longleftrightarrow> views s v \<noteq> None \<and> (\<forall>w\<in>set xs. \<forall>n. windows s w = Some n \<longrightarrow> nw_view n \<noteq> Some v)"
| "op_ok (OpSetParent p v) s xs \<longleftrightarrow> views s v \<noteq> None \<and> ptr_in p xs"
| "op_ok (OpEnterFullscreen v) s xs \<longleftrightarrow> views s v \<noteq> None"
| "op_ok (OpExitFullscreen v) s xs \<longleftrightarrow> views s v \<noteq> None"
| "op_ok (OpButton b i x y) s xs \<longleftrightarrow> ptr_in (dragGrabbingWindow s) xs"
| "op_ok (OpMotion x y) s xs \<longleftrightarrow> ptr_in (dragGrabbingWindow s) xs"
| "op_ok (OpTouch c st ids xa ya i) s xs \<longleftrightarrow> ptr_in (dragGrabbingWindow s) xs \<and> touch_args c st ids xa ya i"
| "op_ok _ s xs \<longleftrightarrow> True"

definition lens_init :: "jint \<Rightarrow> jint \<Rightarrow> LensWM" where
  "lens_init width height = \<lparr>windows = Map.empty, views = Map.empty, windowList_head = None, windowList_tail = None,
     windowList_size = 0, focusedWindow = None, grabbedWindow = None, mouseWindow = None, mousePosX = 0, mousePosY = 0,
     onDraggingAction = False, dragGrabbingWindow = None, mousePressedButton = BUTTON_NONE, touchWindow = None,
     isDnDStarted = False, modifiersMask = 0, pApplication = True, screen_width = width, screen_height = height,
     glass_trace = []\<rparr>"

inductive lens_reach :: "LensWM \<Rightarrow> bool" where
  init: "lens_reach (lens_init width height)"
| step: "lens_reach s \<Longrightarrow> dllist s xs \<Longrightarrow> op_ok op s xs \<Longrightarrow> lens_exec op s = Some t \<Longrightarrow> lens_reach t"

lemma post_snd: "post m (\<lambda>(_, t). Q t) \<Longrightarrow> post (map_option snd m) Q"
  by (auto simp: post_def)

lemma wm_inv_grab:
  assumes "wm_inv s xs"
  shows "wm_inv (snd (glass_window_grabFocus w s)) xs"
  using assms by (auto simp: glass_window_grabFocus_def wm_inv_def)

lemma maximize_inv:
  assumes "wm_inv s xs" "w \<in> set xs"
  shows "post (glass_window_maximize w b c s) (\<lambda>(_, t). wm_inv t xs)"
  using assms keeps_inv [OF windowMaximize_keeps [OF assms]] keeps_inv [OF windowRestore_keeps [OF assms]]
  by (simp add: glass_window_maximize_def post_bind)

lemma minimize_inv:
  assumes "wm_inv s xs" "w \<in> set xs"
  shows "post (glass_window_minimize w b s) (\<lambda>t. wm_inv t xs)"
  using keeps_inv [OF windowMinimize_keeps [OF assms]] keeps_inv [OF windowRestore_keeps [OF assms]]
  by (simp add: glass_window_minimize_def)

lemma close_inv:
  assumes "wm_inv s xs" "w \<in> set xs" "\<And>v nv. views s v = Some nv \<Longrightarrow> nv_parent nv \<noteq> Some w"
  shows "post (LensWindow_close w s) (\<lambda>(b, t). b \<and> wm_inv t (remove1 w xs) \<and> closed w s t)"
  unfolding LensWindow_close_def by (rule post_bindI [OF release_inv [OF assms]]) auto

lemma view_life_inv:
  assumes "wm_inv s xs"
  shows "views s v = None \<Longrightarrow> wm_inv (LensView_createNativeView v b s) xs"
    "views s v \<noteq> None \<Longrightarrow> (\<And>w n. w \<in> set xs \<Longrightarrow> windows s w = Some n \<Longrightarrow> nw_view n \<noteq> Some v) \<Longrightarrow>
      post (glass_view_releaseNativeView v s) (\<lambda>t. wm_inv t xs)"
  using assms by (auto simp: LensView_createNativeView_def glass_view_releaseNativeView_def intro!: wm_inv_views)

lemma drag_inv: "post m (drags xs s) \<Longrightarrow> post m (\<lambda>t. \<exists>ys. wm_inv t ys)"
  by (erule post_mono) (auto simp: drags_def drag_ok_def)

lemma inv_ex: "post m (\<lambda>t. wm_inv t xs) \<Longrightarrow> post m (\<lambda>t. \<exists>ys. wm_inv t ys)"
  by (erule post_mono) auto

lemmas keeps_ex = inv_ex [OF keeps_inv]

lemma lens_exec_inv:
  assumes inv: "wm_inv s xs" and ok: "op_ok op s xs"
  shows "post (lens_exec op s) (\<lambda>t. \<exists>ys. wm_inv t ys)"
proof (cases op)
  case (OpCreate w owner m)
  then show ?thesis
    using create_inv [OF inv, of w owner m] ok by (auto intro!: post_snd elim!: post_mono)
next
  case (OpClose w)
  then show ?thesis
    using close_inv [OF inv, of w] ok by (auto intro!: post_snd elim!: post_mono)
next
  case (OpAttachView w v)
  then show ?thesis using ok by (auto intro!: inv_ex [OF attachView_inv [OF inv]] split: option.splits)
next
  case (OpSetParent p v)
  then show ?thesis using ok by (auto intro!: inv_ex [OF setParent_inv [OF inv]])
next
  case (OpEnterFullscreen v)
  then show ?thesis using fullscreen_inv(1) [OF inv, of v] ok by (auto intro!: inv_ex [OF post_snd])
next
  case (OpExitFullscreen v)
  then show ?thesis using fullscreen_inv(2) [OF inv, of v] ok by (auto intro!: inv_ex [OF post_snd])
next
  case (OpRequestFocus w)
  then show ?thesis
    using ok requestFocus_keeps [OF inv, of w] by (auto simp: keeps_def intro!: post_snd elim!: post_mono)
next
  case (OpMaximize w b c)
  then show ?thesis using ok maximize_inv [OF inv] by (auto intro!: inv_ex [OF post_snd])
next
  case (OpGrabFocus w)
  then show ?thesis using wm_inv_grab [OF inv] by auto
next
  case (OpCreateView v b)
  then show ?thesis using ok view_life_inv(1) [OF inv] by auto
next
  case (OpCloseView v)
  then show ?thesis using ok by (auto intro!: inv_ex [OF view_life_inv(2) [OF inv]])
next
  case (OpButton b i x y)
  then show ?thesis
    using ok inv by (auto simp: drag_ok_def intro!: drag_inv [OF notifyButtonEvent_drags])
next
  case (OpMotion x y)
  then show ?thesis
    using ok inv by (auto simp: drag_ok_def intro!: drag_inv [OF notifyMotionEvent_drags])
next
  case (OpTouch c st ids xa ya i)
  then show ?thesis
    using ok inv by (auto simp: drag_ok_def intro!: post_mono [OF notifyMultiTouchEvent_ok [of s xs]])
next
  case OpDnDStarted
  then show ?thesis using inv by (auto simp: notify_lens_wm_DnDStarted_def stop_drag_def)
next
  case OpDnDEnded
  then show ?thesis using inv by (auto simp: notify_lens_wm_DnDEnded_def)
next
  case (OpSetPointer x y)
  then show ?thesis using inv by (auto simp: lens_wm_setPointerPosition_def)
qed (use inv ok in \<open>auto intro!: keeps_ex [OF setEnabled_keeps] keeps_ex [OF setBoundsImpl_keeps] keeps_ex [OF setVisible_keeps] keeps_ex [OF setFocusable_keeps]
    keeps_ex [OF ungrab_keeps] keeps_ex [OF setSize_keeps(1)] keeps_ex [OF setSize_keeps(2)] keeps_ex [OF notifyScrollEvent_keeps]
    inv_ex [OF toFront_inv] inv_ex [OF toBack_inv] inv_ex [OF minimize_inv] inv_ex [OF repaint_all_inv]\<close>)

lemma path_unique: "path m p xs \<Longrightarrow> path m p ys \<Longrightarrow> xs = ys"
proof (induction xs arbitrary: p ys)
  case Nil
  then show ?case by (cases ys) auto
next
  case (Cons x xs)
  then show ?case by (cases ys) auto
qed

lemma dllist_unique: "dllist s xs \<Longrightarrow> dllist s ys \<Longrightarrow> xs = ys"
  by (auto simp: dllist_def dest: path_unique)

lemma lens_init_inv: "wm_inv (lens_init width height) []"
  by (simp add: wm_inv_def lens_init_def dllist_def)

lemma lens_reach_inv: "lens_reach s \<Longrightarrow> \<exists>xs. wm_inv s xs"
proof (induction rule: lens_reach.induct)
  case (init width height)
  then show ?case using lens_init_inv by blast
next
  case (step s xs op t)
  then obtain ys where ys: "wm_inv s ys" by blast
  then have "ys = xs" using step.hyps(2) dllist_unique wm_inv_parts(1) by blast
  with ys step.hyps(3,4) show ?case using lens_exec_inv [of s xs op] by simp
qed

lemma reach_wm_inv: "lens_reach s \<Longrightarrow> dllist s xs \<Longrightarrow> wm_inv s xs"
  using lens_reach_inv dllist_unique wm_inv_parts(1) by blast

section \<open>Executable runs\<close>

text \<open>
  Runs without views, whose conditions can be evaluated. \<open>z_order\<close> reads the list off the links.
\<close>

definition z_order :: "LensWM \<Rightarrow> wid list" where
  "z_order s = (case window_walk (windows s) nw_nextWindow (\<lambda>w n acc. Inr (acc @ [w])) (windowList_head s) [] of
     Some (Inr ws) \<Rightarrow> ws | Some (Inl ws) \<Rightarrow> ws | None \<Rightarrow> [])"

fun plain_ok :: "lens_op \<Rightarrow> LensWM \<Rightarrow> bool" where
  "plain_ok (OpCreate w owner m) s \<longleftrightarrow> windows s w = None \<and> ptr_in owner (z_order s)"
| "plain_ok (OpClose w) s \<longleftrightarrow> w \<in> set (z_order s)"
| "plain_ok (OpSetBounds w x y a b p q c) s \<longleftrightarrow> w \<in> set (z_order s)"
| "plain_ok (OpSetVisible w b) s \<longleftrightarrow> w \<in> set (z_order s)"
| "plain_ok (OpGrabFocus w) s \<longleftrightarrow> w \<in> set (z_order s)"
| "plain_ok (OpButton b i x y) s \<longleftrightarrow> ptr_in (dragGrabbingWindow s) (z_order s)"
| "plain_ok (OpMotion x y) s \<longleftrightarrow> ptr_in (dragGrabbingWindow s) (z_order s)"
| "plain_ok (OpTouch c st ids xa ya i) s \<longleftrightarrow> ptr_in (dragGrabbingWindow s) (z_order s) \<and> touch_args c st ids xa ya i"
| "plain_ok _ s \<longleftrightarrow> False"

fun lens_run :: "lens_op list \<Rightarrow> LensWM \<Rightarrow> LensWM option" where
  "lens_run [] s = Some s"
| "lens_run (op # ops) s = (if plain_ok op s then do { t \<leftarrow> lens_exec op s; lens_run ops t } else None)"

lemma z_order_eq: "dllist s xs \<Longrightarrow> z_order s = xs"
proof -
  assume d: "dllist s xs"
  have "walk_list h (\<lambda>w n acc. Inr (acc @ [w])) ys acc = (Inr (acc @ ys) :: wid list + wid list)" for h :: "wid \<rightharpoonup> NativeWindow" and ys acc
    by (induction ys arbitrary: acc) auto
  then show ?thesis by (simp add: z_order_def walk_forward [OF d])
qed

lemma plain_op_ok:
  assumes "dllist s xs" "views s = Map.empty" "plain_ok op s"
  shows "op_ok op s xs"
  using assms(3) by (cases op) (auto simp: z_order_eq [OF assms(1)] assms(2))

lemma plain_views:
  assumes inv: "wm_inv s xs" and v: "views s = Map.empty" and ok: "plain_ok op s" and ex: "lens_exec op s = Some t"
  shows "views t = views s"
proof -
  have z: "z_order s = xs" by (rule z_order_eq [OF wm_inv_parts(1) [OF inv]])
  have keep: "post (lens_exec op s) (keeps xs s) \<Longrightarrow> views t = views s"
    using ex by (auto simp: post_def keeps_def moves_fields)
  show ?thesis
  proof (cases op)
    case (OpCreate w owner m)
    then show ?thesis using create_inv [OF inv, of w owner m] ok ex z by (auto simp: post_def)
  next
    case (OpClose w)
    then show ?thesis using close_inv [OF inv, of w] ok ex z v by (auto simp: post_def closed_def)
  next
    case (OpGrabFocus w)
    then show ?thesis using ex by (auto simp: glass_window_grabFocus_def)
  next
    case (OpButton b i x y)
    then show ?thesis using notifyButtonEvent_drags [of s xs b i x y] ok ex z inv by (auto simp: post_def drags_def drag_ok_def)
  next
    case (OpMotion x y)
    then show ?thesis using notifyMotionEvent_drags [of s xs x y] ok ex z inv by (auto simp: post_def drags_def drag_ok_def)
  next
    case (OpTouch c st ids xa ya i)
    then show ?thesis using notifyMultiTouchEvent_ok [of s xs c st ids xa ya i] ok ex z inv by (auto simp: post_def drag_ok_def)
  qed (use ok z inv in \<open>auto intro!: keep setBoundsImpl_keeps setVisible_keeps\<close>)
qed

lemma lens_run_reach:
  assumes "lens_reach s" "views s = Map.empty" "lens_run ops s = Some t"
  shows "lens_reach t \<and> views t = Map.empty"
  using assms
proof (induction ops arbitrary: s)
  case (Cons op ops)
  then obtain u where ok: "plain_ok op s" and u: "lens_exec op s = Some u" and run: "lens_run ops u = Some t"
    by (auto simp: bind_eq_Some_conv split: if_splits)
  obtain xs where inv: "wm_inv s xs" using lens_reach_inv [OF Cons.prems(1)] by blast
  note d = wm_inv_parts(1) [OF inv]
  have "lens_reach u" by (rule lens_reach.step [OF Cons.prems(1) d plain_op_ok [OF d Cons.prems(2) ok] u])
  moreover have "views u = Map.empty" using plain_views [OF inv Cons.prems(2) ok u] Cons.prems(2) by simp
  ultimately show ?case using Cons.IH run by blast
qed simp

lemma lens_init_run:
  assumes "lens_run ops (lens_init width height) = Some t"
  shows "lens_reach t" "views t = Map.empty"
  using lens_run_reach [OF lens_reach.init _ assms] by (auto simp: lens_init_def)

text \<open>A window is created and shown, which gives it the focus, and grabs the focus.\<close>

definition example_windows :: LensWM where
  "example_windows = the (lens_run [OpCreate 7 None 0, OpSetVisible 7 True, OpGrabFocus 7] (lens_init 800 600))"

lemma run_the: "lens_run ops s \<noteq> None \<Longrightarrow> lens_run ops s = Some (the (lens_run ops s))"
  by auto

lemma not_None_code: "\<not> Option.is_none m \<Longrightarrow> m \<noteq> None"
  by (simp add: Option.is_none_def)

lemma run_reach:
  assumes "\<not> Option.is_none (lens_run ops (lens_init width height))"
  shows "lens_reach (the (lens_run ops (lens_init width height)))"
  using lens_init_run(1) [OF run_the [OF not_None_code [OF assms]]] .

lemma example_windows_reach: "lens_reach example_windows" "views example_windows = Map.empty"
proof -
  have "lens_run [OpCreate 7 None 0, OpSetVisible 7 True, OpGrabFocus 7] (lens_init 800 600) \<noteq> None"
    by (rule not_None_code) code_simp
  from run_the [OF this] show "lens_reach example_windows" "views example_windows = Map.empty"
    unfolding example_windows_def [symmetric] by (rule lens_init_run)+
qed

text \<open>C12: In every state that calls into the window manager can reach, the links of the window list agree in
  both directions, the windows that have the focus, hold the grab and are under the mouse are windows
  of the list (or none), only the focused window holds the grab, and the view of every window and the
  parent of every view are allocated.\<close>

theorem lens_wm_invariant:
  assumes "lens_reach s"
  shows "\<exists>xs. dllist s xs \<and> ptr_in (focusedWindow s) xs \<and> ptr_in (mouseWindow s) xs \<and> ptr_in (grabbedWindow s) xs \<and>
    (grabbedWindow s = None \<or> grabbedWindow s = focusedWindow s) \<and>
    (\<forall>w\<in>set xs. \<exists>n. windows s w = Some n \<and> (\<forall>v. nw_view n = Some v \<longrightarrow> views s v \<noteq> None)) \<and>
    (\<forall>v nv. views s v = Some nv \<longrightarrow> ptr_in (nv_parent nv) xs)"
proof -
  obtain xs where inv: "wm_inv s xs" using lens_reach_inv [OF assms] by blast
  then have "ptr_in (grabbedWindow s) xs" using wm_inv_parts(2,3) [OF inv] by auto
  moreover have "\<forall>w\<in>set xs. \<exists>n. windows s w = Some n \<and> (\<forall>v. nw_view n = Some v \<longrightarrow> views s v \<noteq> None)"
    using moves_inv_windows [OF inv] by blast
  ultimately show ?thesis using inv unfolding wm_inv_def by blast
qed

theorem lens_wm_invariant_witness:
  "grabbedWindow example_windows = Some 7 \<and>
   (\<exists>xs. dllist example_windows xs \<and> ptr_in (Some 7) xs \<and> focusedWindow example_windows = Some 7)"
proof -
  have "grabbedWindow example_windows = Some 7" by code_simp
  then show ?thesis using lens_wm_invariant [OF example_windows_reach(1)] by auto
qed

text \<open>C11: In every reachable state, every call that respects its conditions (live handles, arrays of the right
  size, and the window in which a drag began still open) returns: none of the pointers that the code follows is
  \<open>NULL\<close> or points to freed memory, all loops over the list end, and the state that results is again reachable.\<close>

theorem lens_wm_calls_return:
  assumes "lens_reach s" "dllist s xs" "op_ok op s xs"
  shows "\<exists>t. lens_exec op s = Some t \<and> lens_reach t"
proof -
  obtain t where "lens_exec op s = Some t"
    using lens_exec_inv [OF reach_wm_inv [OF assms(1,2)]] assms(3) by (auto simp: post_def)
  then show ?thesis using lens_reach.step [OF assms] by blast
qed

theorem lens_wm_calls_return_witness:
  "\<exists>t. lens_exec (OpMotion 3 4) (lens_init 800 600) = Some t \<and> lens_reach t"
  by (rule lens_wm_calls_return [of _ "[]"])
    (use wm_inv_parts(1) [OF lens_init_inv, of 800 600] lens_reach.init [of 800 600] in \<open>auto simp: lens_init_def\<close>)

end
