(* ===== verification/LensProps.thy ===== *)
theory LensProps
  imports LensSafety
begin

text \<open>
  Functional behaviour of the window manager: which window is under the pointer, what happens to the
  focus and the grab, that a window gets its bounds back, and what goes wrong when windows are closed or
  left in the middle of a gesture.
\<close>

section \<open>The window under the pointer\<close>

text \<open>The reference: the point lies in the rectangle of a window that can be seen and takes input.\<close>

definition covers :: "NativeWindow \<Rightarrow> int \<Rightarrow> int \<Rightarrow> bool" where
  "covers n x y \<longleftrightarrow> nw_isVisible n \<and> nw_state n \<noteq> NWS_MINIMIZED \<and> nw_isEnabled n \<and>
     lb_x (nw_currentBounds n) \<le> x \<and> x < lb_x (nw_currentBounds n) + lb_width (nw_currentBounds n) \<and>
     lb_y (nw_currentBounds n) \<le> y \<and> y < lb_y (nw_currentBounds n) + lb_height (nw_currentBounds n)"

text \<open>The far corner of the window does not overflow.\<close>

definition bounds_fit :: "NativeWindow \<Rightarrow> bool" where
  "bounds_fit n \<longleftrightarrow> (let b = nw_currentBounds n in is_jint (lb_x b) \<and> is_jint (lb_y b) \<and> is_jint (lb_width b) \<and>
     is_jint (lb_height b) \<and> is_jint (lb_x b + lb_width b) \<and> is_jint (lb_y b + lb_height b))"

lemma hit_covers: "bounds_fit n \<Longrightarrow> hit x y n \<longleftrightarrow> covers n x y"
  by (auto simp: hit_def covers_def bounds_fit_def s32_idem Let_def)

lemma find_split:
  "find P xs = Some x \<Longrightarrow> \<exists>as bs. xs = as @ x # bs \<and> P x \<and> (\<forall>a\<in>set as. \<not> P a)"
proof (induction xs)
  case (Cons a xs)
  show ?case
  proof (cases "P a")
    case True
    with Cons.prems show ?thesis by (intro exI [of _ "[]"] exI [of _ xs]) auto
  next
    case False
    with Cons obtain as bs where "xs = as @ x # bs" "P x" "\<forall>a\<in>set as. \<not> P a" by auto
    with False have "a # xs = (a # as) @ x # bs \<and> P x \<and> (\<forall>a\<in>set (a # as). \<not> P a)" by simp
    then show ?thesis by blast
  qed
qed simp

lemma window_at_Some:
  assumes "window_at s xs x y = Some w"
  shows "\<exists>as bs. xs = as @ w # bs \<and> hit x y (the (windows s w)) \<and> (\<forall>c\<in>set bs. \<not> hit x y (the (windows s c)))"
proof -
  obtain as bs where "rev xs = as @ w # bs" "hit x y (the (windows s w))" "\<forall>a\<in>set as. \<not> hit x y (the (windows s a))"
    using find_split [OF assms [unfolded window_at_def]] by blast
  moreover then have "xs = rev bs @ w # rev as" by (metis append.assoc append_Cons append_Nil rev.simps(2) rev_append rev_rev_ident)
  ultimately show ?thesis by (intro exI [of _ "rev bs"] exI [of _ "rev as"]) simp
qed

lemma window_at_None: "window_at s xs x y = None \<longleftrightarrow> (\<forall>c\<in>set xs. \<not> hit x y (the (windows s c)))"
  by (auto simp: window_at_def find_None_iff)

text \<open>C14: The search for the window at a position returns the front-most window of the list that is visible, not
  minimised, enabled and contains the point, with coordinates relative to its corner that lie inside
  of the window; it returns no window only if there is none. The windows are assumed not to reach
  beyond the range of 32 bit coordinates.\<close>

theorem glass_window_findWindowAtLocation_topmost:
  assumes d: "dllist s xs" and fit: "\<forall>w\<in>set xs. bounds_fit (the (windows s w))" and p: "is_jint x" "is_jint y"
  shows "\<exists>r. glass_window_findWindowAtLocation x y s = Some r \<and>
    (case r of
       None \<Rightarrow> \<forall>w\<in>set xs. \<not> covers (the (windows s w)) x y
     | Some (w, relX, relY) \<Rightarrow>
         (\<exists>as bs. xs = as @ w # bs \<and> (\<forall>c\<in>set bs. \<not> covers (the (windows s c)) x y)) \<and>
         covers (the (windows s w)) x y \<and>
         relX \<in> {0..<lb_width (nw_currentBounds (the (windows s w)))} \<and>
         relY \<in> {0..<lb_height (nw_currentBounds (the (windows s w)))} \<and>
         x = lb_x (nw_currentBounds (the (windows s w))) + relX \<and>
         y = lb_y (nw_currentBounds (the (windows s w))) + relY)"
proof (cases "window_at s xs x y")
  case None
  then show ?thesis
    using fit None [unfolded window_at_None] by (simp add: findWindowAtLocation_eq [OF d] hit_covers)
next
  case (Some w)
  obtain as bs where ab: "xs = as @ w # bs" "hit x y (the (windows s w))" "\<forall>c\<in>set bs. \<not> hit x y (the (windows s c))"
    using window_at_Some [OF Some] by blast
  let ?n = "the (windows s w)"
  have c: "covers ?n x y" and nb: "\<forall>c\<in>set bs. \<not> covers (the (windows s c)) x y"
    using fit ab by (auto simp: hit_covers)
  let ?b = "nw_currentBounds ?n"
  have "x - lb_x ?b \<in> {0..<lb_width ?b}" "y - lb_y ?b \<in> {0..<lb_height ?b}" using c by (auto simp: covers_def)
  moreover have "bounds_fit ?n" using fit ab by simp
  ultimately have "s32 (x - lb_x ?b) = x - lb_x ?b" "s32 (y - lb_y ?b) = y - lb_y ?b"
    by (auto simp: bounds_fit_def is_jint_def Let_def)
  then show ?thesis
    using Some c nb ab(1) by (auto simp: findWindowAtLocation_eq [OF d] rel_pos_def Let_def covers_def)
qed

text \<open>Two windows; the second one lies in front of the first one and has the focus and the grab.\<close>

definition example_stack :: LensWM where
  "example_stack = the (lens_run
     [OpCreate 1 None 0, OpSetBounds 1 0 0 400 300 True True False, OpSetVisible 1 True,
      OpCreate 2 None 0, OpSetBounds 2 100 50 200 200 True True False, OpSetVisible 2 True, OpGrabFocus 2]
     (lens_init 800 600))"

lemma example_stack_reach: "lens_reach example_stack"
  unfolding example_stack_def by (rule run_reach) code_simp

lemma example_stack_list: "dllist example_stack [1, 2]"
  by code_simp

theorem glass_window_findWindowAtLocation_topmost_witness:
  "glass_window_findWindowAtLocation 120 60 example_stack = Some (Some (2, 20, 10)) \<and>
   covers (the (windows example_stack 1)) 120 60 \<and> covers (the (windows example_stack 2)) 120 60"
proof -
  have "\<forall>w\<in>set [1, 2]. bounds_fit (the (windows example_stack w))" by code_simp
  moreover have "covers (the (windows example_stack 1)) 120 60" "covers (the (windows example_stack 2)) 120 60" by code_simp+
  moreover have "lb_x (nw_currentBounds (the (windows example_stack 2))) = 100"
    "lb_y (nw_currentBounds (the (windows example_stack 2))) = 50" by code_simp+
  ultimately show ?thesis
    using glass_window_findWindowAtLocation_topmost [OF example_stack_list, of 120 60]
    by (auto simp: is_jint_def append_eq_Cons_conv Cons_eq_append_conv split: option.splits)
qed

section \<open>The effect of an operation on its window\<close>

definition effect :: "wid list \<Rightarrow> wid \<Rightarrow> (NativeWindow \<Rightarrow> NativeWindow) \<Rightarrow> LensWM \<Rightarrow> LensWM \<Rightarrow> bool" where
  "effect xs w f s t \<longleftrightarrow> wm_inv t xs \<and> moves s t \<and> windows t = (windows s)(w \<mapsto> f (the (windows s w)))"

lemma effect_bind:
  assumes "post m (effect xs w f s)" and n: "windows s w = Some n"
    "\<And>t. wm_inv t xs \<Longrightarrow> moves s t \<Longrightarrow> windows t w = Some (f n) \<Longrightarrow> post (g t) (effect xs w f' t)"
  shows "post (m \<bind> g) (effect xs w (\<lambda>n. f' (f n)) s)"
proof (rule post_bindI [OF assms(1)])
  fix t assume t: "effect xs w f s t"
  have "post (g t) (effect xs w f' t)" using assms(3) n t by (simp add: effect_def)
  then show "post (g t) (effect xs w (\<lambda>n. f' (f n)) s)"
    by (rule post_mono) (use t n in \<open>auto simp: effect_def intro: frame_trans\<close>)
qed

lemma effect_quiet:
  assumes "wm_inv s xs" "windows s w = Some n" "post m (quiet s)"
  shows "post m (effect xs w (\<lambda>n. n) s)"
  by (rule post_mono [OF assms(3)])
    (use assms(1,2) in \<open>auto simp: effect_def quiet_fields intro: quiet_inv quiet_moves\<close>)

lemma effect_refl: "wm_inv s xs \<Longrightarrow> windows s w = Some n \<Longrightarrow> post (Some s) (effect xs w (\<lambda>n. n) s)"
  by (auto simp: effect_def)

lemma effect_focus:
  assumes "wm_inv s xs" "windows s w = Some n" "ptr_in window xs"
  shows "post (lens_wm_setFocusedWindow window s) (\<lambda>t. effect xs w (\<lambda>n. n) s t \<and> focusedWindow t = window)"
  by (rule post_mono [OF setFocusedWindow_inv [OF assms(1,3)]])
    (use assms(2) in \<open>auto simp: effect_def refocus_fields intro: refocus_moves\<close>)

lemma effect_upd:
  assumes "wm_inv s xs" "w \<in> set xs" "windows s w = Some n" "\<And>n. win_links (f n) = win_links n"
  shows "post (win_upd w f s) (effect xs w f s)"
  by (rule post_mono [OF post_conj [OF keep_upd [OF assms(1,2,4)] win_upd_post [of s w n f, OF assms(3,4)]]])
    (auto simp: effect_def keeps_def assms(3))

lemma effect_cong: "post m (effect xs w f s) \<Longrightarrow> windows s w = Some n \<Longrightarrow> f n = g n \<Longrightarrow> post m (effect xs w g s)"
  by (erule post_mono) (simp add: effect_def)

lemma quiet_keeps_windows:
  "windows s w \<noteq> None \<Longrightarrow> post (lens_platform_windowMinimize w b s) (quiet s)"
  "windows s w \<noteq> None \<Longrightarrow> post (glass_application_addWindowToVisibleWindowList w s) (quiet s)"
  "windows s w \<noteq> None \<Longrightarrow> post (glass_application_RemoveWindowFromVisibleWindowList w s) (quiet s)"
  by (auto simp: lens_platform_windowMinimize_def glass_application_addWindowToVisibleWindowList_def
      glass_application_RemoveWindowFromVisibleWindowList_def)

lemma leave_state_quiet:
  assumes "wm_inv s xs" "w \<in> set xs"
  shows "post (leave_state w s) (quiet s)"
proof -
  obtain n where n: "windows s w = Some n" "\<And>v. nw_view n = Some v \<Longrightarrow> views s v \<noteq> None"
    using wm_inv_live [OF assms] by blast
  have "post (glass_application_notifyViewEvent (nw_view n) t x y a b s) (quiet s)" for t x y a b
    by (rule notifyViewEvent_post) (use n in auto)
  then show ?thesis
    using n(1)
    by (auto simp: leave_state_def lens_platform_windowMinimize_def glass_application_addWindowToVisibleWindowList_def
        split: NativeWindowState.splits)
qed

lemma bounds_same [simp]:
  "lb_width b = a \<Longrightarrow> lb_height b = c \<Longrightarrow> b\<lparr>lb_width := a, lb_height := c\<rparr> = b"
  "lb_x b = a \<Longrightarrow> lb_y b = c \<Longrightarrow> b\<lparr>lb_x := a, lb_y := c\<rparr> = b"
  by auto

lemma update_size_effect:
  assumes inv: "wm_inv s xs" and w: "w \<in> set xs"
  shows "post (update_size w a b True s)
    (effect xs w (\<lambda>n. n\<lparr>nw_currentBounds := (nw_currentBounds n)\<lparr>lb_width := a, lb_height := b\<rparr>\<rparr>) s)"
proof -
  obtain n where n: "windows s w = Some n" using wm_inv_windows [OF inv w] by auto
  let ?f = "\<lambda>n. n\<lparr>nw_currentBounds := (nw_currentBounds n)\<lparr>lb_width := a, lb_height := b\<rparr>\<rparr>"
  have "post (do { s \<leftarrow> win_upd w ?f s; glass_application_notifyWindowEvent_resize (Some w) WE_RESIZE a b s })
      (effect xs w (\<lambda>n. ?f n) s)"
    by (rule effect_bind [OF effect_upd [OF inv w n] n])
      (auto simp: win_links_eq intro!: effect_quiet notifyWindowEvent_resize_post)
  moreover have "post (Some s) (effect xs w ?f s)" if "lb_width (nw_currentBounds n) = a" "lb_height (nw_currentBounds n) = b"
    by (rule effect_cong [OF effect_refl [OF inv n] n]) (use that in simp)
  ultimately show ?thesis by (auto simp: update_size_def n)
qed

lemma update_position_effect:
  assumes inv: "wm_inv s xs" and w: "w \<in> set xs"
  shows "post (update_position w a b True s)
    (effect xs w (\<lambda>n. n\<lparr>nw_currentBounds := (nw_currentBounds n)\<lparr>lb_x := a, lb_y := b\<rparr>\<rparr>) s)"
proof -
  obtain n where n: "windows s w = Some n" using wm_inv_windows [OF inv w] by auto
  let ?f = "\<lambda>n. n\<lparr>nw_currentBounds := (nw_currentBounds n)\<lparr>lb_x := a, lb_y := b\<rparr>\<rparr>"
  have rp: "post (lens_wm_repaint (Some w) t) (quiet t)" if "wm_inv t xs" for t
    by (rule repaint_post) (use moves_inv_windows [OF that w] in auto)
  have "post (do { s \<leftarrow> glass_application_notifyWindowEvent_move (Some w) a b t; lens_wm_repaint (Some w) s }) (quiet t)"
    if t: "wm_inv t xs" for t
  proof (rule post_bindI [OF notifyWindowEvent_move_post])
    fix u assume u: "quiet t u"
    show "post (lens_wm_repaint (Some w) u) (quiet t)"
      by (rule post_mono [OF rp [OF quiet_inv [OF t u]]]) (use u in \<open>auto intro: frame_trans\<close>)
  qed (use wm_inv_windows [OF t w] wm_inv_parts(5) [OF t] in auto)
  then have "post (do { s \<leftarrow> win_upd w ?f s; s \<leftarrow> glass_application_notifyWindowEvent_move (Some w) a b s; lens_wm_repaint (Some w) s })
      (effect xs w (\<lambda>n. ?f n) s)"
    by (intro effect_bind [OF effect_upd [OF inv w n] n] effect_quiet) (auto simp: win_links_eq)
  moreover have "post (Some s) (effect xs w ?f s)" if "lb_x (nw_currentBounds n) = a" "lb_y (nw_currentBounds n) = b"
    by (rule effect_cong [OF effect_refl [OF inv n] n]) (use that in simp)
  ultimately show ?thesis by (auto simp: update_position_def n)
qed

lemma setBoundsImpl_effect:
  assumes inv: "wm_inv s xs" and w: "w \<in> set xs"
  shows "post (glass_window_setBoundsImpl w x y a b True True False s)
    (effect xs w (\<lambda>n. n\<lparr>nw_currentBounds := \<lparr>lb_x = x, lb_y = y, lb_width = a, lb_height = b\<rparr>\<rparr>) s)"
proof -
  obtain n where n: "windows s w = Some n" using wm_inv_windows [OF inv w] by auto
  show ?thesis
    unfolding glass_window_setBoundsImpl_def Let_def
    by (rule effect_cong [OF effect_bind [OF _ n update_position_effect] n])
      (use update_size_effect [OF inv w] w in auto)
qed

lemma keep_then:
  assumes "post m (keeps xs s)" "\<And>t. wm_inv t xs \<Longrightarrow> moves s t \<Longrightarrow> post (f t) Q"
  shows "post (m \<bind> f) Q"
  by (rule post_bindI [OF assms(1)]) (use assms(2) in \<open>auto simp: keeps_def\<close>)

lemma focus_last:
  "wm_inv s xs \<Longrightarrow> w \<in> set xs \<Longrightarrow> post (lens_wm_setFocusedWindow (Some w) s) (\<lambda>t. focusedWindow t = Some w)"
  by (rule post_mono [OF setFocusedWindow_inv]) auto

text \<open>Every change of the state but minimisation ends with the focus on the window.\<close>

lemma windowRestore_focus:
  assumes "wm_inv s xs" "w \<in> set xs" "windows s w = Some n" "nw_state n \<noteq> NWS_NORMAL"
  shows "post (lens_wm_windowRestore w s) (\<lambda>t. focusedWindow t = Some w)"
  using assms unfolding lens_wm_windowRestore_def
  by (intro keep_read [of s xs] keep_if keep_then [OF leave_state_keeps] keep_then [OF set_state_keeps]
      keep_then [OF setBoundsImpl_keeps] keep_then [OF cacheBounds_keeps(2)] keep_then [OF resize_keeps] focus_last
      keep_read [where xs = xs]) auto

lemma resize_effect:
  "wm_inv s xs \<Longrightarrow> windows s w = Some n \<Longrightarrow>
    post (glass_application_notifyWindowEvent_resize (Some w) e a b s) (effect xs w (\<lambda>n. n) s)"
  by (rule effect_quiet [OF _ _ notifyWindowEvent_resize_post]) auto

lemma focus_effect:
  "wm_inv s xs \<Longrightarrow> windows s w = Some n \<Longrightarrow> w \<in> set xs \<Longrightarrow>
    post (lens_wm_setFocusedWindow (Some w) s) (effect xs w (\<lambda>n. n) s)"
  by (rule post_mono [OF effect_focus [of s xs w n "Some w"]]) auto

lemma set_state_effect:
  "wm_inv s xs \<Longrightarrow> windows s w = Some n \<Longrightarrow> w \<in> set xs \<Longrightarrow>
    post (set_state w st s) (effect xs w (\<lambda>n. n\<lparr>nw_state := st\<rparr>) s)"
  unfolding set_state_def by (rule effect_upd) (auto simp: win_links_eq)

lemma cache_effect:
  "wm_inv s xs \<Longrightarrow> windows s w = Some n \<Longrightarrow> w \<in> set xs \<Longrightarrow>
    post (lens_wm_windowCacheBounds w s) (effect xs w (\<lambda>n. n\<lparr>nw_cachedBounds := nw_currentBounds n\<rparr>) s)"
  "wm_inv s xs \<Longrightarrow> windows s w = Some n \<Longrightarrow> w \<in> set xs \<Longrightarrow>
    post (lens_wm_windowUncacheBounds w s) (effect xs w (\<lambda>n. n\<lparr>nw_currentBounds := nw_cachedBounds n\<rparr>) s)"
  unfolding lens_wm_windowCacheBounds_def lens_wm_windowUncacheBounds_def
  by (rule effect_upd; auto simp: win_links_eq)+

lemma windowRestore_effect:
  assumes inv: "wm_inv s xs" and w: "w \<in> set xs" and n: "windows s w = Some n" "nw_state n \<noteq> NWS_NORMAL"
  shows "post (lens_wm_windowRestore w s)
    (effect xs w (\<lambda>n. n\<lparr>nw_state := NWS_NORMAL, nw_currentBounds := nw_cachedBounds n\<rparr>) s)"
proof -
  have 1: "post (do { s \<leftarrow> glass_application_notifyWindowEvent_resize (Some w) WE_RESTORE a b u;
      lens_wm_setFocusedWindow (Some w) s }) (effect xs w (\<lambda>n. n) u)" if "wm_inv u xs" "windows u w = Some m" for u m a b
    by (rule effect_bind [OF resize_effect [OF that] that(2)]) (rule focus_effect [OF _ _ w])
  have 2: "post (do { s \<leftarrow> lens_wm_windowUncacheBounds w u; n \<leftarrow> windows s w;
       s \<leftarrow> glass_application_notifyWindowEvent_resize (Some w) WE_RESTORE (lb_width (nw_currentBounds n)) (lb_height (nw_currentBounds n)) s;
       lens_wm_setFocusedWindow (Some w) s }) (effect xs w (\<lambda>n. n\<lparr>nw_currentBounds := nw_cachedBounds n\<rparr>) u)"
    if "wm_inv u xs" "windows u w = Some m" for u m
    by (rule effect_bind [OF cache_effect(2) [OF that w] that(2)]) (simp add: 1)
  have 3: "post (do { n \<leftarrow> windows u w;
       s \<leftarrow> glass_window_setBoundsImpl w (lb_x (nw_cachedBounds n)) (lb_y (nw_cachedBounds n))
              (lb_width (nw_cachedBounds n)) (lb_height (nw_cachedBounds n)) True True False u;
       s \<leftarrow> lens_wm_windowUncacheBounds w s; n \<leftarrow> windows s w;
       s \<leftarrow> glass_application_notifyWindowEvent_resize (Some w) WE_RESTORE (lb_width (nw_currentBounds n)) (lb_height (nw_currentBounds n)) s;
       lens_wm_setFocusedWindow (Some w) s }) (effect xs w (\<lambda>n. n\<lparr>nw_currentBounds := nw_cachedBounds n\<rparr>) u)"
    if u: "wm_inv u xs" "windows u w = Some m" for u m
    unfolding u(2) bind.bind_lunit
    by (rule effect_cong [OF effect_bind [OF setBoundsImpl_effect [OF u(1) w] u(2) 2] u(2)]) auto
  show ?thesis
    unfolding lens_wm_windowRestore_def n(1) bind.bind_lunit if_not_P [OF n(2)]
    by (rule effect_cong [OF effect_bind [OF effect_quiet [OF inv n(1) leave_state_quiet [OF inv w]] n(1)
            effect_bind [OF set_state_effect [OF _ _ w] _ 3]] n(1)]) auto
qed

lemma unfocus_effect_bind:
  assumes "wm_inv s xs" "w \<in> set xs" and n: "windows s w = Some n"
    "\<And>t. wm_inv t xs \<Longrightarrow> moves s t \<Longrightarrow> windows t w = Some n \<Longrightarrow> post (g t) (effect xs w f t)"
  shows "post (lens_wm_unsetFocusedWindow w s \<bind> (\<lambda>(_, t). g t)) (effect xs w f s)"
proof (rule post_bindI [OF unsetFocusedWindow_post [OF assms(1,2)]], clarify)
  fix r t assume t: "wm_inv t xs" "refocus s t"
  have "windows t = windows s" using t(2) by (rule refocus_fields)
  then have "post (g t) (effect xs w f t)" using assms(4) t n by (simp add: refocus_moves)
  then show "post (g t) (effect xs w f s)"
    by (rule post_mono) (use t in \<open>auto simp: effect_def refocus_fields intro: frame_trans refocus_moves\<close>)
qed

lemma windowMinimize_effect:
  assumes inv: "wm_inv s xs" and w: "w \<in> set xs" and n: "windows s w = Some n" "nw_state n = NWS_NORMAL"
  shows "post (lens_wm_windowMinimize w s)
    (effect xs w (\<lambda>n. n\<lparr>nw_cachedBounds := nw_currentBounds n, nw_state := NWS_MINIMIZED\<rparr>) s)"
proof -
  have 1: "post (do { s \<leftarrow> glass_application_RemoveWindowFromVisibleWindowList w u; n \<leftarrow> windows s w;
      glass_application_notifyWindowEvent_resize (Some w) WE_MINIMIZE (lb_width (nw_cachedBounds n)) (lb_height (nw_cachedBounds n)) s })
      (effect xs w (\<lambda>n. n) u)" if "wm_inv u xs" "windows u w = Some m" for u m
    by (rule effect_bind [OF effect_quiet [OF that quiet_keeps_windows(3)] that(2)]) (use that in \<open>auto intro: resize_effect\<close>)
  have 2: "post (lens_wm_unsetFocusedWindow w u \<bind> (\<lambda>(_, s). do { s \<leftarrow> glass_application_RemoveWindowFromVisibleWindowList w s;
      n \<leftarrow> windows s w;
      glass_application_notifyWindowEvent_resize (Some w) WE_MINIMIZE (lb_width (nw_cachedBounds n)) (lb_height (nw_cachedBounds n)) s }))
      (effect xs w (\<lambda>n. n) u)" if "wm_inv u xs" "windows u w = Some m" for u m
    by (rule unfocus_effect_bind [OF that(1) w that(2)]) (rule 1)
  have st: "nw_state n \<noteq> NWS_MINIMIZED" "nw_state n \<noteq> NWS_FULLSCREEN" using n(2) by auto
  show ?thesis
    unfolding lens_wm_windowMinimize_def n(1) bind.bind_lunit if_not_P [OF st(1)] if_not_P [OF st(2)]
    by (rule effect_cong [OF effect_bind [OF cache_effect(1) [OF inv n(1) w] n(1)
            effect_bind [OF effect_quiet [OF _ _ quiet_keeps_windows(1)] _
            effect_bind [OF set_state_effect [OF _ _ w] _ 2]]] n(1)]) auto
qed

lemma maximized_bounds_cached:
  assumes "screen_width u = screen_width s" "screen_height u = screen_height s"
  shows "maximized_bounds (n\<lparr>nw_cachedBounds := c\<rparr>) u = maximized_bounds n s"
  using assms
  by (cases "check_dimension (nw_minWidth n) (nw_maxWidth n) (screen_width s)";
      cases "check_dimension (nw_minHeight n) (nw_maxHeight n) (screen_height s)")
    (simp add: maximized_bounds_def glass_window_check_bounds_def)

lemma windowMaximize_effect:
  assumes inv: "wm_inv s xs" and w: "w \<in> set xs" and n: "windows s w = Some n" "nw_state n = NWS_NORMAL"
    and b: "maximized_bounds n s = (x, y, a, b)"
  shows "post (lens_wm_windowMaximize w s)
    (effect xs w (\<lambda>n. n\<lparr>nw_cachedBounds := nw_currentBounds n, nw_state := NWS_MAXIMIZED,
       nw_currentBounds := \<lparr>lb_x = x, lb_y = y, lb_width = a, lb_height = b\<rparr>\<rparr>) s)"
proof -
  have 1: "post (do { s \<leftarrow> set_state w NWS_MAXIMIZED u;
       s \<leftarrow> glass_application_notifyWindowEvent_resize (Some w) WE_MAXIMIZE p q s;
       lens_wm_setFocusedWindow (Some w) s }) (effect xs w (\<lambda>n. n\<lparr>nw_state := NWS_MAXIMIZED\<rparr>) u)"
    if "wm_inv u xs" "windows u w = Some m" for u m p q
    by (rule effect_bind [OF set_state_effect [OF that w] that(2) effect_bind [OF resize_effect _ focus_effect [OF _ _ w]]])
  have 2: "post (do { n \<leftarrow> windows u w; let (x, y, width, height) = maximized_bounds n u;
       s \<leftarrow> glass_window_setBoundsImpl w x y width height True True False u;
       s \<leftarrow> set_state w NWS_MAXIMIZED s;
       s \<leftarrow> glass_application_notifyWindowEvent_resize (Some w) WE_MAXIMIZE width height s;
       lens_wm_setFocusedWindow (Some w) s }) (effect xs w (\<lambda>n. n\<lparr>nw_state := NWS_MAXIMIZED,
         nw_currentBounds := \<lparr>lb_x = x, lb_y = y, lb_width = a, lb_height = b\<rparr>\<rparr>) u)"
    if u: "wm_inv u xs" "moves s u" "windows u w = Some (n\<lparr>nw_cachedBounds := nw_currentBounds n\<rparr>)" for u
  proof -
    have "maximized_bounds (n\<lparr>nw_cachedBounds := nw_currentBounds n\<rparr>) u = (x, y, a, b)"
      using b moves_fields(14,15) [OF u(2)] by (simp only: maximized_bounds_cached)
    then show ?thesis
      unfolding u(3) bind.bind_lunit Let_def
      by simp (rule effect_cong [OF effect_bind [OF setBoundsImpl_effect [OF u(1) w] u(3) 1] u(3)], auto)
  qed
  have st: "nw_state n \<noteq> NWS_MAXIMIZED" "\<not> (nw_state n = NWS_MINIMIZED \<or> nw_state n = NWS_FULLSCREEN)" using n(2) by auto
  show ?thesis
    unfolding lens_wm_windowMaximize_def n(1) bind.bind_lunit if_not_P [OF st(1)] if_not_P [OF st(2)]
    by (rule effect_cong [OF effect_bind [OF cache_effect(1) [OF inv n(1) w] n(1) 2] n(1)]) auto
qed

lemma windowEnterFullscreen_effect:
  assumes inv: "wm_inv s xs" and w: "w \<in> set xs" and n: "windows s w = Some n"
    and st: "nw_state n \<noteq> NWS_FULLSCREEN" "nw_state n \<noteq> NWS_MINIMIZED"
  shows "post (lens_wm_windowEnterFullscreen w s)
    (effect xs w (\<lambda>n. n\<lparr>nw_cachedBounds := nw_currentBounds n, nw_state := NWS_FULLSCREEN,
       nw_currentBounds := \<lparr>lb_x = 0, lb_y = 0, lb_width = screen_width s, lb_height = screen_height s\<rparr>\<rparr>) s)"
proof -
  have ve: "post (glass_application_notifyViewEvent (nw_view m) e p q c d u) (quiet u)"
    if "wm_inv u xs" "windows u w = Some m" for u m e p q c d
    using that wm_inv_live [OF that(1) w] by (intro notifyViewEvent_post) auto
  have 1: "post (do { n \<leftarrow> windows u w;
       s \<leftarrow> glass_application_notifyViewEvent (nw_view n) VE_FULLSCREEN_ENTER (lb_x (nw_currentBounds n)) (lb_y (nw_currentBounds n))
              (lb_width (nw_currentBounds n)) (lb_height (nw_currentBounds n)) u;
       s \<leftarrow> lens_wm_setFocusedWindow (Some w) s;
       set_state w NWS_FULLSCREEN s }) (effect xs w (\<lambda>n. n\<lparr>nw_state := NWS_FULLSCREEN\<rparr>) u)"
    if u: "wm_inv u xs" "windows u w = Some m" for u m
    unfolding u(2) bind.bind_lunit
    by (rule effect_bind [OF effect_quiet [OF u ve [OF u]] u(2) effect_bind [OF focus_effect [OF _ _ w] _ set_state_effect [OF _ _ w]]])
  have 2: "post (do { s \<leftarrow> glass_window_setBoundsImpl w 0 0 (screen_width u) (screen_height u) True True False u;
       n \<leftarrow> windows s w;
       s \<leftarrow> glass_application_notifyViewEvent (nw_view n) VE_FULLSCREEN_ENTER (lb_x (nw_currentBounds n)) (lb_y (nw_currentBounds n))
              (lb_width (nw_currentBounds n)) (lb_height (nw_currentBounds n)) s;
       s \<leftarrow> lens_wm_setFocusedWindow (Some w) s;
       set_state w NWS_FULLSCREEN s }) (effect xs w (\<lambda>n. n\<lparr>nw_state := NWS_FULLSCREEN,
         nw_currentBounds := \<lparr>lb_x = 0, lb_y = 0, lb_width = screen_width s, lb_height = screen_height s\<rparr>\<rparr>) u)"
    if u: "wm_inv u xs" "moves s u" "windows u w = Some m" for u m
    by (rule effect_cong [OF effect_bind [OF setBoundsImpl_effect [OF u(1) w] u(3) 1] u(3)])
      (auto simp: moves_fields [OF u(2)])
  show ?thesis
    unfolding lens_wm_windowEnterFullscreen_def n bind.bind_lunit if_not_P [OF st(1)] if_not_P [OF st(2)]
    by (rule effect_cong [OF effect_bind [OF cache_effect(1) [OF inv n w] n 2] n]) auto
qed

lemma effect_obtain:
  assumes "post m (effect xs w f s)" "windows s w = Some n"
  obtains t where "m = Some t" "wm_inv t xs" "moves s t" "windows t w = Some (f n)" "\<And>c. c \<noteq> w \<Longrightarrow> windows t c = windows s c"
  using assms by (auto simp: post_def effect_def)

lemma restore_after:
  assumes t: "wm_inv t xs" "windows t w = Some (f n)" "\<And>c. c \<noteq> w \<Longrightarrow> windows t c = windows s c"
    and w: "w \<in> set xs" and f: "nw_state (f n) \<noteq> NWS_NORMAL"
  obtains u where "lens_wm_windowRestore w t = Some u" "wm_inv u xs" "focusedWindow u = Some w"
    "windows u w = Some ((f n)\<lparr>nw_state := NWS_NORMAL, nw_currentBounds := nw_cachedBounds (f n)\<rparr>)"
    "\<And>c. c \<noteq> w \<Longrightarrow> windows u c = windows s c"
proof -
  have "post (lens_wm_windowRestore w t) (\<lambda>u.
    effect xs w (\<lambda>n. n\<lparr>nw_state := NWS_NORMAL, nw_currentBounds := nw_cachedBounds n\<rparr>) t u \<and> focusedWindow u = Some w)"
    by (rule post_conj [OF windowRestore_effect [OF t(1) w t(2) f] windowRestore_focus [OF t(1) w t(2) f]])
  then show ?thesis using that t by (auto simp: post_def effect_def)
qed

text \<open>C15: A window in the normal state that is minimised, maximised or shown full screen and then restored is
  exactly as before, apart from the copy of its bounds: it has its bounds and its state back and the
  focus, and no other window has changed.\<close>

theorem window_restore_round_trip:
  assumes inv: "lens_reach s" "dllist s xs" and w: "w \<in> set xs" and n: "windows s w = Some n" "nw_state n = NWS_NORMAL"
    and ch: "change \<in> {lens_wm_windowMinimize, lens_wm_windowMaximize, lens_wm_windowEnterFullscreen}"
  shows "\<exists>t u. change w s = Some t \<and> nw_state (the (windows t w)) \<noteq> NWS_NORMAL \<and>
    lens_wm_windowRestore w t = Some u \<and> windows u w = Some (n\<lparr>nw_cachedBounds := nw_currentBounds n\<rparr>) \<and>
    (\<forall>c. c \<noteq> w \<longrightarrow> windows u c = windows s c) \<and> focusedWindow u = Some w"
proof -
  have wm: "wm_inv s xs" by (rule reach_wm_inv [OF inv])
  obtain x y a b where m: "maximized_bounds n s = (x, y, a, b)" using prod_cases4 by blast
  have "\<exists>f. post (change w s) (effect xs w f s) \<and> nw_state (f n) \<noteq> NWS_NORMAL \<and>
      (f n)\<lparr>nw_state := NWS_NORMAL, nw_currentBounds := nw_cachedBounds (f n)\<rparr> = n\<lparr>nw_cachedBounds := nw_currentBounds n\<rparr>"
    using ch
  proof (elim insertE)
    assume "change = lens_wm_windowMinimize"
    with windowMinimize_effect [OF wm w n] n(2) show ?thesis by (intro exI conjI) (assumption | auto)+
  next
    assume "change = lens_wm_windowMaximize"
    with windowMaximize_effect [OF wm w n m] n(2) show ?thesis by (intro exI conjI) (assumption | auto)+
  next
    assume "change = lens_wm_windowEnterFullscreen"
    with windowEnterFullscreen_effect [OF wm w n(1)] n(2) show ?thesis by (intro exI conjI) (auto | auto)+
  qed simp
  then obtain f where f: "post (change w s) (effect xs w f s)" "nw_state (f n) \<noteq> NWS_NORMAL"
    "(f n)\<lparr>nw_state := NWS_NORMAL, nw_currentBounds := nw_cachedBounds (f n)\<rparr> = n\<lparr>nw_cachedBounds := nw_currentBounds n\<rparr>" by blast
  obtain t where t: "change w s = Some t" "wm_inv t xs" "windows t w = Some (f n)" "\<And>c. c \<noteq> w \<Longrightarrow> windows t c = windows s c"
    using effect_obtain [OF f(1) n(1)] by blast
  obtain u where "lens_wm_windowRestore w t = Some u" "focusedWindow u = Some w"
    "windows u w = Some ((f n)\<lparr>nw_state := NWS_NORMAL, nw_currentBounds := nw_cachedBounds (f n)\<rparr>)"
    "\<And>c. c \<noteq> w \<Longrightarrow> windows u c = windows s c"
    using restore_after [of t xs w f n s, OF t(2,3,4) w f(2)] by blast
  with t f show ?thesis by auto
qed

theorem window_restore_round_trip_witness:
  "\<exists>t u. lens_wm_windowMaximize 7 example_windows = Some t \<and> nw_state (the (windows t 7)) \<noteq> NWS_NORMAL \<and>
    lens_wm_windowRestore 7 t = Some u \<and> lb_width (nw_currentBounds (the (windows u 7))) = 1 \<and> focusedWindow u = Some 7"
proof -
  have "dllist example_windows [7]" by code_simp
  moreover have n: "\<not> Option.is_none (windows example_windows 7)" by code_simp
  moreover have "nw_state (the (windows example_windows 7)) = NWS_NORMAL"
    "lb_width (nw_currentBounds (the (windows example_windows 7))) = 1" by code_simp+
  ultimately show ?thesis
    using window_restore_round_trip [of example_windows "[7]" 7 "the (windows example_windows 7)" lens_wm_windowMaximize]
      example_windows_reach(1) by (fastforce simp: Option.is_none_def)
qed

text \<open>C36: What a window's bounds are when full screen mode is left is not what they were when the window was
  first maximised: after maximising, entering full screen and restoring, the window is in the normal
  state with the bounds of the maximised window, and its former bounds are not kept anywhere.\<close>

theorem fullscreen_from_maximized_loses_bounds:
  assumes inv: "lens_reach s" "dllist s xs" and w: "w \<in> set xs" and n: "windows s w = Some n" "nw_state n = NWS_NORMAL"
    and m: "maximized_bounds n s = (x, y, a, b)"
  shows "\<exists>t u v. lens_wm_windowMaximize w s = Some t \<and> lens_wm_windowEnterFullscreen w t = Some u \<and>
    lens_wm_windowRestore w u = Some v \<and>
    (let max = \<lparr>lb_x = x, lb_y = y, lb_width = a, lb_height = b\<rparr> in
      windows v w = Some (n\<lparr>nw_currentBounds := max, nw_cachedBounds := max\<rparr>))"
proof -
  let ?max = "\<lparr>lb_x = x, lb_y = y, lb_width = a, lb_height = b\<rparr>"
  let ?n = "n\<lparr>nw_cachedBounds := nw_currentBounds n, nw_state := NWS_MAXIMIZED, nw_currentBounds := ?max\<rparr>"
  have wm: "wm_inv s xs" by (rule reach_wm_inv [OF inv])
  have rec: "n\<lparr>nw_cachedBounds := ?max, nw_state := NWS_NORMAL, nw_currentBounds := ?max\<rparr> =
      n\<lparr>nw_currentBounds := ?max, nw_cachedBounds := ?max\<rparr>" using n(2) by (cases n) simp
  obtain t where t: "lens_wm_windowMaximize w s = Some t" "wm_inv t xs" "windows t w = Some ?n"
    using effect_obtain [OF windowMaximize_effect [OF wm w n m] n(1)] by blast
  obtain u where u: "lens_wm_windowEnterFullscreen w t = Some u" "wm_inv u xs"
    "windows u w = Some (?n\<lparr>nw_cachedBounds := ?max, nw_state := NWS_FULLSCREEN,
       nw_currentBounds := \<lparr>lb_x = 0, lb_y = 0, lb_width = screen_width t, lb_height = screen_height t\<rparr>\<rparr>)"
    using effect_obtain [OF windowEnterFullscreen_effect [OF t(2) w t(3)] t(3)] by auto
  obtain v where "lens_wm_windowRestore w u = Some v" "windows v w = Some (n\<lparr>nw_currentBounds := ?max, nw_cachedBounds := ?max\<rparr>)"
    using effect_obtain [OF windowRestore_effect [OF u(2) w u(3)] u(3)] rec by auto
  with t(1) u(1) show ?thesis by (auto simp: Let_def)
qed

theorem fullscreen_from_maximized_loses_bounds_witness:
  "\<exists>t u v. lens_wm_windowMaximize 7 example_windows = Some t \<and> lens_wm_windowEnterFullscreen 7 t = Some u \<and>
    lens_wm_windowRestore 7 u = Some v \<and> nw_state (the (windows v 7)) = NWS_NORMAL \<and>
    lb_width (nw_currentBounds (the (windows example_windows 7))) = 1 \<and>
    lb_width (nw_currentBounds (the (windows v 7))) = 800"
proof -
  have d: "dllist example_windows [7]" by code_simp
  have n: "\<not> Option.is_none (windows example_windows 7)" by code_simp
  have st: "nw_state (the (windows example_windows 7)) = NWS_NORMAL"
    "lb_width (nw_currentBounds (the (windows example_windows 7))) = 1" by code_simp+
  have m: "maximized_bounds (the (windows example_windows 7)) example_windows = (0, 0, 800, 600)" by code_simp
  show ?thesis
    using fullscreen_from_maximized_loses_bounds [OF example_windows_reach(1) d _ _ st(1) m] n st
    by (auto simp: Option.is_none_def Let_def)
qed

section \<open>Focus\<close>

lemma find_cong_list: "(\<And>x. x \<in> set xs \<Longrightarrow> P x = Q x) \<Longrightarrow> find P xs = find Q xs"
  by (induction xs) auto

text \<open>Hiding the window that has the focus releases its grab and gives the focus to the front-most other
  window that is visible, not minimised, focusable and has no owner, or to none if there is no such
  window.\<close>

lemma hide_moves_focus:
  assumes inv: "lens_reach s" "dllist s xs" and f: "focusedWindow s = Some w"
  shows "\<exists>t. glass_window_setVisible w False s = Some t \<and> grabbedWindow t = None \<and>
    focusedWindow t = find (\<lambda>c. c \<noteq> w \<and> next_focusable (the (windows s c))) (rev xs)"
proof -
  have wm: "wm_inv s xs" by (rule reach_wm_inv [OF inv])
  have w: "w \<in> set xs" using wm_inv_parts(2) [OF wm] f by simp
  obtain n where n: "windows s w = Some n" using wm_inv_windows [OF wm w] by auto
  let ?p = "emit (PlatformSetVisible w False) s"
  let ?s = "?p\<lparr>windows := (windows s)(w \<mapsto> n\<lparr>nw_isVisible := False\<rparr>)\<rparr>"
  have up: "win_upd w (\<lambda>n. n\<lparr>nw_isVisible := False\<rparr>) ?p = Some ?s" by (simp add: win_upd_def n emit_def)
  have "post (win_upd w (\<lambda>n. n\<lparr>nw_isVisible := False\<rparr>) ?p) (keeps xs ?p)"
    by (rule keep_upd) (use wm w in \<open>auto simp: win_links_eq\<close>)
  then have wm': "wm_inv ?s xs" by (simp add: up keeps_def)
  have f': "focusedWindow ?s = Some w" using f by (simp add: emit_def)
  have "find (\<lambda>c. next_focusable (the (windows ?s c))) (rev xs) =
      find (\<lambda>c. c \<noteq> w \<and> next_focusable (the (windows s c))) (rev xs)"
    by (rule find_cong_list) (auto simp: next_focusable_def)
  with unsetFocusedWindow_post [OF wm' w] f' show ?thesis
    by (auto simp: glass_window_setVisible_def lens_platform_windowSetVisible_def up post_def)
qed

lemma hide_moves_focus_witness:
  "\<exists>t. glass_window_setVisible 2 False example_stack = Some t \<and> grabbedWindow t = None \<and> focusedWindow t = Some 1"
proof -
  have f: "focusedWindow example_stack = Some 2" by code_simp
  have "find (\<lambda>c. c \<noteq> 2 \<and> next_focusable (the (windows example_stack c))) (rev [1, 2]) = Some 1" by code_simp
  then show ?thesis using hide_moves_focus [OF example_stack_reach example_stack_list f] by simp
qed

lemma break_grab_post:
  assumes inv: "wm_inv s xs" and w: "ptr_in window xs" and f: "focusedWindow s = Some f"
  shows "post (break_grab window s) (\<lambda>t. wm_inv t xs \<and> windows t = windows s \<and> focusedWindow t = Some f \<and>
    grabbedWindow t = (case window of None \<Rightarrow> None
      | Some c \<Rightarrow> if nw_root (the (windows s c)) = nw_root (the (windows s f)) then grabbedWindow s else None))"
proof (cases "grabbedWindow s")
  case None
  then show ?thesis using inv f by (simp add: break_grab_def split: option.splits)
next
  case (Some g)
  then have g: "g = f" using wm_inv_parts(3) [OF inv] f by simp
  have fx: "f \<in> set xs" using wm_inv_parts(2) [OF inv] f by simp
  obtain fn where fn: "windows s f = Some fn" using wm_inv_windows [OF inv fx] by auto
  have u: "post (glass_window_ungrabFocus (Some f) s) (\<lambda>t. wm_inv t xs \<and> windows t = windows s \<and> focusedWindow t = Some f \<and>
      grabbedWindow t = None)"
    by (rule post_mono [OF post_conj [OF ungrab_keeps [OF inv, of "Some f"] ungrabFocus_post [of "Some f"]]])
      (use fx fn f Some g in \<open>auto simp: keeps_def refocus_fields\<close>)
  show ?thesis
  proof (cases window)
    case None
    then show ?thesis using Some g u by (simp add: break_grab_def)
  next
    case (Some c)
    obtain n where "windows s c = Some n" using wm_inv_windows [OF inv, of c] w Some by auto
    then show ?thesis using Some \<open>grabbedWindow s = Some g\<close> g u fn inv f by (simp add: break_grab_def)
  qed
qed

text \<open>C33: A click or touch outside of the tree of windows of the focused window moves the focus to the window that is
  hit, and the grab is lost; inside of the tree neither changes; where there is no window the grab is lost and
  the focus stays.\<close>

theorem click_focus_and_grab:
  assumes inv: "lens_reach s" "dllist s xs" and f: "focusedWindow s = Some w"
  shows "\<exists>found t. glass_window_findWindowAtLocation x y s = Some found \<and> handleClickOrTouchEvent x y s = Some t \<and>
    (let same_tree = (\<lambda>c. nw_root (the (windows s c)) = nw_root (the (windows s w))) in
      focusedWindow t = (case found of None \<Rightarrow> Some w | Some (c, _) \<Rightarrow> if same_tree c then Some w else Some c) \<and>
      grabbedWindow t = (case found of None \<Rightarrow> None | Some (c, _) \<Rightarrow> if same_tree c then grabbedWindow s else None))"
proof -
  have wm: "wm_inv s xs" by (rule reach_wm_inv [OF inv])
  let ?c = "window_at s xs x y"
  have c: "ptr_in ?c xs" by (rule window_at_in)
  obtain t where t: "break_grab ?c s = Some t" "wm_inv t xs" "windows t = windows s" "focusedWindow t = Some w"
    "grabbedWindow t = (case ?c of None \<Rightarrow> None
      | Some c \<Rightarrow> if nw_root (the (windows s c)) = nw_root (the (windows s w)) then grabbedWindow s else None)"
    using break_grab_post [OF wm c f] by (auto simp: post_def)
  note eq = findWindowAtLocation_eq [OF inv(2), of x y]
  show ?thesis
  proof (cases ?c)
    case None
    then show ?thesis using t eq by (simp add: handleClickOrTouchEvent_def)
  next
    case (Some d)
    have dx: "d \<in> set xs" "w \<in> set xs" using c Some wm_inv_parts(2) [OF wm] f by simp_all
    obtain n wn where n: "windows s d = Some n" "windows s w = Some wn"
      using wm_inv_windows [OF wm dx(1)] wm_inv_windows [OF wm dx(2)] by auto
    obtain u where u: "lens_wm_setFocusedWindow (Some d) t = Some u" "focusedWindow u = Some d"
      "grabbedWindow u = (if Some d = Some w then grabbedWindow t else None)"
      using setFocusedWindow_post [OF t(2), of "Some d"] dx t(4) by (auto simp: post_def)
    show ?thesis
      using t(1) [unfolded Some] t(3,4) t(5) [unfolded Some] eq [unfolded Some] n u
      by (cases "nw_root n = nw_root wn") (auto simp: handleClickOrTouchEvent_def Let_def rel_pos_def)
  qed
qed

theorem click_focus_and_grab_witness:
  "\<exists>t. handleClickOrTouchEvent 350 250 example_stack = Some t \<and> grabbedWindow example_stack = Some 2 \<and>
    focusedWindow t = Some 1 \<and> grabbedWindow t = None"
proof -
  have f: "focusedWindow example_stack = Some 2" "grabbedWindow example_stack = Some 2" by code_simp+
  have l: "glass_window_findWindowAtLocation 350 250 example_stack = Some (Some (1, 350, 250))" by code_simp
  have r: "nw_root (the (windows example_stack 1)) = Some 1" "nw_root (the (windows example_stack 2)) = Some 2" by code_simp+
  show ?thesis
    using click_focus_and_grab [OF example_stack_reach example_stack_list f(1), of 350 250] l r f(2)
    by (auto simp: Let_def)
qed

section \<open>Windows closed in the middle of a gesture\<close>

lemma enter_exit_elsewhere:
  assumes "onDraggingAction s" "dragGrabbingWindow s = Some d" "mouseWindow s \<noteq> Some d"
    "mousePosX s = x \<and> mousePosY s = y" "window_at s xs x y \<noteq> Some d" "dllist s xs"
  shows "lens_wm_notifyEnterExitEvents s =
    Some ((window_at s xs x y, map_option (rel_pos s x y) (window_at s xs x y)), s)"
  using assms by (simp add: lens_wm_notifyEnterExitEvents_def findWindowAtLocation_eq Let_def enter_exit_drag_def
      option.map_comp comp_def option.map_ident)

text \<open>C34: When the window in which a mouse drag began is closed during the drag, the pointer to it is not reset,
  and whatever the position of the next motion event, its handler reads the freed window.\<close>

theorem close_during_drag_use_after_free:
  assumes inv: "lens_reach s" "dllist s xs" and d: "d \<in> set xs" "onDraggingAction s" "dragGrabbingWindow s = Some d"
    and v: "nw_view (the (windows s d)) = None" "\<forall>v nv. views s v = Some nv \<longrightarrow> nv_parent nv \<noteq> Some d"
  shows "\<exists>t. LensWindow_close d s = Some (True, t) \<and> lens_reach t \<and> (\<forall>x y. lens_wm_notifyMotionEvent x y t = None)"
proof -
  have wm: "wm_inv s xs" by (rule reach_wm_inv [OF inv])
  obtain t where t: "LensWindow_close d s = Some (True, t)" "wm_inv t (remove1 d xs)" "closed d s t"
    using close_inv [OF wm d(1)] v(2) by (auto simp: post_def)
  have "lens_reach t"
    by (rule lens_reach.step [OF inv, of "OpClose d"]) (use t(1) d(1) v(2) in auto)
  moreover have "lens_wm_notifyMotionEvent x y t = None" for x y
  proof -
    have dn: "d \<notin> set (remove1 d xs)" using dllist_distinct [OF inv(2)] by simp
    have c: "onDraggingAction t" "dragGrabbingWindow t = Some d" "windows t d = None"
      using t(3) d(2,3) v(1) by (auto simp: closed_def)
    let ?t = "emit (CursorPosition x y) (t\<lparr>mousePosX := x, mousePosY := y\<rparr>)"
    have st: "start_drag ?t = ?t"
      using c(1) by (simp add: start_drag_def emit_def)
    have "wm_inv ?t (remove1 d xs)" using t(2) by simp
    note dl = wm_inv_parts(1,4) [OF this]
    have m: "mouseWindow ?t \<noteq> Some d" using dl(2) dn by (cases "mouseWindow ?t") auto
    have w: "window_at ?t (remove1 d xs) x y \<noteq> Some d" using window_at_in [of ?t "remove1 d xs" x y] dn
      by (cases "window_at ?t (remove1 d xs) x y") auto
    have "lens_wm_notifyEnterExitEvents ?t = Some ((window_at ?t (remove1 d xs) x y,
        map_option (rel_pos ?t x y) (window_at ?t (remove1 d xs) x y)), ?t)"
      by (rule enter_exit_elsewhere [OF _ _ m _ w dl(1)]) (use c in \<open>auto simp: emit_def\<close>)
    then show ?thesis
      unfolding lens_wm_notifyMotionEvent_def Let_def st using c by (simp add: emit_def mouse_at_def)
  qed
  ultimately show ?thesis using t(1) by blast
qed


text \<open>The left button is pressed over a window and the mouse is moved.\<close>

definition example_drag :: LensWM where
  "example_drag = the (lens_run
     [OpCreate 1 None 0, OpSetVisible 1 True, OpButton True BUTTON_LEFT 0 0, OpMotion 0 0] (lens_init 800 600))"

lemma example_drag_reach: "lens_reach example_drag" "views example_drag = Map.empty"
proof -
  have "\<not> Option.is_none (lens_run [OpCreate 1 None 0, OpSetVisible 1 True, OpButton True BUTTON_LEFT 0 0, OpMotion 0 0]
    (lens_init 800 600))" by code_simp
  from run_the [OF not_None_code [OF this]] show "lens_reach example_drag" "views example_drag = Map.empty"
    unfolding example_drag_def [symmetric] by (rule lens_init_run)+
qed

theorem close_during_drag_use_after_free_witness:
  "\<exists>t. LensWindow_close 1 example_drag = Some (True, t) \<and> lens_wm_notifyMotionEvent 5 5 t = None"
proof -
  have "dllist example_drag [1]" "onDraggingAction example_drag" "dragGrabbingWindow example_drag = Some 1"
    "nw_view (the (windows example_drag 1)) = None" by code_simp+
  then show ?thesis
    using close_during_drag_use_after_free [OF example_drag_reach(1), of "[1]" 1] by (auto simp: example_drag_reach(2))
qed

type_synonym touch = "jint \<times> jint list \<times> jlong list \<times> jint list \<times> jint list \<times> jint"

fun touch_ok :: "touch \<Rightarrow> bool" where
  "touch_ok (count, states, ids, xabs, yabs, i) \<longleftrightarrow> touch_args count states ids xabs yabs i"

fun touch_events :: "touch list \<Rightarrow> LensWM \<Rightarrow> LensWM option" where
  "touch_events [] s = Some s"
| "touch_events ((count, states, ids, xabs, yabs, i) # es) s = do {
     s \<leftarrow> lens_wm_notifyMultiTouchEvent count states ids xabs yabs i s;
     touch_events es s
   }"

lemma touch_not_delivered:
  assumes ok: "drag_ok s xs" and w: "touchWindow s = Some w" "w \<notin> set xs" and a: "touch_args count states ids xabs yabs i"
  shows "post (lens_wm_notifyMultiTouchEvent count states ids xabs yabs i s) (drags xs s)"
proof -
  have "find_touch_window count states xabs yabs i s = Some s" using w(1) by (simp add: find_touch_window_def)
  moreover have "post (touch_to_mouse states xabs yabs i s \<bind> deliver_touch count states ids xabs yabs i) (drags xs s)"
  proof (rule post_bindI [OF touch_to_mouse_drags [OF ok a]])
    fix t assume t: "drags xs s t"
    then have "glass_window_isExist (Some w) t = Some False"
      using w(2) glass_window_isExist_iff [of t xs "Some w"] by (auto simp: drags_def drag_ok_def wm_inv_def)
    then show "post (deliver_touch count states ids xabs yabs i t) (drags xs s)"
      using t w(1) by (simp add: deliver_touch_def drags_def)
  qed
  ultimately show ?thesis by (simp add: lens_wm_notifyMultiTouchEvent_def)
qed

text \<open>C35: The window that receives the touch events is forgotten only when a gesture ends on it. When it has been
  closed before that, and no window lives at its address, none of the touch events that follow directly on each other is
  reported to any window, also to one that lies under the finger: every one of them returns, is handled as a mouse
  event only, and leaves the pointer to the closed window as it is. (The window of a drag, if there is one, is
  still open. A window that is created later at the address of the closed one ends this state.)\<close>

theorem touch_lost_after_close:
  assumes inv: "lens_reach s" "dllist s xs" and d: "ptr_in (dragGrabbingWindow s) xs"
    and w: "touchWindow s = Some w" "w \<notin> set xs" and a: "\<forall>e\<in>set es. touch_ok e"
  shows "\<exists>t. touch_events es s = Some t \<and> touches t = touches s \<and> touchWindow t = Some w"
proof -
  have "drag_ok s xs" using reach_wm_inv [OF inv] d by (simp add: drag_ok_def)
  then have "post (touch_events es s) (drags xs s)"
    using w(1) a
  proof (induction es arbitrary: s)
    case (Cons e es)
    obtain count states ids xabs yabs i where e: "e = (count, states, ids, xabs, yabs, i)" by (cases e) auto
    show ?case
      unfolding e touch_events.simps
    proof (rule post_bindI [OF touch_not_delivered [OF Cons.prems(1,2) w(2)]])
      fix t assume t: "drags xs s t"
      then have "post (touch_events es t) (drags xs t)"
        by (intro Cons.IH) (use Cons.prems in \<open>auto simp: drags_def\<close>)
      then show "post (touch_events es t) (drags xs s)"
        by (rule drags_from [rotated 3]) (use t in \<open>simp_all add: drags_def\<close>)
    qed (use Cons.prems(3) e in auto)
  qed (simp add: drags_def)
  then show ?thesis using w(1) by (auto simp: post_def drags_def)
qed

text \<open>A window is touched and closed, and another one is opened at the same place.\<close>

definition example_touch :: LensWM where
  "example_touch = the (lens_run
     [OpCreate 1 None 0, OpSetVisible 1 True, OpTouch 1 [TOUCH_PRESSED] [9] [0] [0] 0, OpClose 1,
      OpCreate 2 None 0, OpSetVisible 2 True] (lens_init 800 600))"

lemma example_touch_reach: "lens_reach example_touch"
  unfolding example_touch_def by (rule run_reach) code_simp

theorem touch_lost_after_close_witness:
  "\<exists>t. touch_events [(0, [], [], [], [], - 1), (1, [TOUCH_PRESSED], [9], [0], [0], 0)] example_touch = Some t \<and>
    touches t = touches example_touch \<and> touchWindow t = Some 1"
proof -
  have s: "dllist example_touch [2]" "dragGrabbingWindow example_touch = None" "touchWindow example_touch = Some 1" by code_simp+
  then show ?thesis
    by (intro touch_lost_after_close [OF example_touch_reach s(1)]) (auto simp: touch_args_def)
qed

end
