(* ===== verification/LensKeys.thy ===== *)
theory LensKeys
  imports LensWindowManager
begin

text \<open>
  Key events of Lens: the key map and the modifiers of \<^verbatim>\<open>LensInputEvents.c\<close>, the report of a key event in
  \<^verbatim>\<open>LensApplication.c\<close> and the handler of keyboard devices in \<^verbatim>\<open>input/udev/udevInput.c\<close>. The constants are those of
  \<^verbatim>\<open>KeyEvent.java\<close> and of the input interface of the Linux kernel, which \<^verbatim>\<open>LinuxInput.java\<close> repeats. The build for
  Android, which resets the counters of the modifier keys, is not the one that is modelled.
\<close>

section \<open>The key map\<close>

record LensKeyboardMap =
  km_platformKeyCode :: jint
  km_jfxKeyCode :: jint
  km_keyStr :: string
  km_keyStrWithShift :: string

definition map_key :: "jint \<Rightarrow> jint \<Rightarrow> string \<Rightarrow> string \<Rightarrow> LensKeyboardMap" where
  "map_key code jfx str shifted =
     \<lparr>km_platformKeyCode = code, km_jfxKeyCode = jfx, km_keyStr = str, km_keyStrWithShift = shifted\<rparr>"

definition keyMap :: "LensKeyboardMap list" where
  "keyMap = [
     map_key 0 0 '''' '''',  \<comment> \<open>KEY_RESERVED, VK_UNDEFINED\<close>
     map_key 1 27 '''' '''',  \<comment> \<open>KEY_ESC, VK_ESCAPE\<close>
     map_key 2 49 ''1'' [CHR 0x21],  \<comment> \<open>KEY_1, VK_1\<close>
     map_key 3 50 ''2'' [CHR 0x40],  \<comment> \<open>KEY_2, VK_2\<close>
     map_key 4 51 ''3'' [CHR 0x23],  \<comment> \<open>KEY_3, VK_3\<close>
     map_key 5 52 ''4'' [CHR 0x24],  \<comment> \<open>KEY_4, VK_4\<close>
     map_key 6 53 ''5'' [CHR 0x25],  \<comment> \<open>KEY_5, VK_5\<close>
     map_key 7 54 ''6'' [CHR 0x5E],  \<comment> \<open>KEY_6, VK_6\<close>
     map_key 8 55 ''7'' [CHR 0x26],  \<comment> \<open>KEY_7, VK_7\<close>
     map_key 9 56 ''8'' [CHR 0x2A],  \<comment> \<open>KEY_8, VK_8\<close>
     map_key 10 57 ''9'' [CHR 0x28],  \<comment> \<open>KEY_9, VK_9\<close>
     map_key 11 48 ''0'' [CHR 0x29],  \<comment> \<open>KEY_0, VK_0\<close>
     map_key 12 45 [CHR 0x2D] [CHR 0x5F],  \<comment> \<open>KEY_MINUS, VK_MINUS\<close>
     map_key 13 61 [CHR 0x3D] [CHR 0x2B],  \<comment> \<open>KEY_EQUAL, VK_EQUALS\<close>
     map_key 14 8 '''' '''',  \<comment> \<open>KEY_BACKSPACE, VK_BACKSPACE\<close>
     map_key 15 9 '''' '''',  \<comment> \<open>KEY_TAB, VK_TAB\<close>
     map_key 16 81 ''q'' ''Q'',  \<comment> \<open>KEY_Q, VK_Q\<close>
     map_key 17 87 ''w'' ''W'',  \<comment> \<open>KEY_W, VK_W\<close>
     map_key 18 69 ''e'' ''E'',  \<comment> \<open>KEY_E, VK_E\<close>
     map_key 19 82 ''r'' ''R'',  \<comment> \<open>KEY_R, VK_R\<close>
     map_key 20 84 ''t'' ''T'',  \<comment> \<open>KEY_T, VK_T\<close>
     map_key 21 89 ''y'' ''Y'',  \<comment> \<open>KEY_Y, VK_Y\<close>
     map_key 22 85 ''u'' ''U'',  \<comment> \<open>KEY_U, VK_U\<close>
     map_key 23 73 ''i'' ''I'',  \<comment> \<open>KEY_I, VK_I\<close>
     map_key 24 79 ''o'' ''O'',  \<comment> \<open>KEY_O, VK_O\<close>
     map_key 25 80 ''p'' ''P'',  \<comment> \<open>KEY_P, VK_P\<close>
     map_key 26 91 [CHR 0x5B] [CHR 0x7B],  \<comment> \<open>KEY_LEFTBRACE, VK_OPEN_BRACKET\<close>
     map_key 27 93 [CHR 0x5D] [CHR 0x7D],  \<comment> \<open>KEY_RIGHTBRACE, VK_CLOSE_BRACKET\<close>
     map_key 28 10 '''' '''',  \<comment> \<open>KEY_ENTER, VK_ENTER\<close>
     map_key 29 17 '''' '''',  \<comment> \<open>KEY_LEFTCTRL, VK_CONTROL\<close>
     map_key 30 65 ''a'' ''A'',  \<comment> \<open>KEY_A, VK_A\<close>
     map_key 31 83 ''s'' ''S'',  \<comment> \<open>KEY_S, VK_S\<close>
     map_key 32 68 ''d'' ''D'',  \<comment> \<open>KEY_D, VK_D\<close>
     map_key 33 70 ''f'' ''F'',  \<comment> \<open>KEY_F, VK_F\<close>
     map_key 34 71 ''g'' ''G'',  \<comment> \<open>KEY_G, VK_G\<close>
     map_key 35 72 ''h'' ''H'',  \<comment> \<open>KEY_H, VK_H\<close>
     map_key 36 74 ''j'' ''J'',  \<comment> \<open>KEY_J, VK_J\<close>
     map_key 37 75 ''k'' ''K'',  \<comment> \<open>KEY_K, VK_K\<close>
     map_key 38 76 ''l'' ''L'',  \<comment> \<open>KEY_L, VK_L\<close>
     map_key 39 59 [CHR 0x3B] [CHR 0x3A],  \<comment> \<open>KEY_SEMICOLON, VK_SEMICOLON\<close>
     map_key 40 222 [CHR 0x27] [CHR 0x22],  \<comment> \<open>KEY_APOSTROPHE, VK_QUOTE\<close>
     map_key 41 192 [CHR 0x60] [CHR 0x7E],  \<comment> \<open>KEY_GRAVE, VK_BACK_QUOTE\<close>
     map_key 42 16 '''' '''',  \<comment> \<open>KEY_LEFTSHIFT, VK_SHIFT\<close>
     map_key 43 92 [CHR 0x5C] [CHR 0x7C],  \<comment> \<open>KEY_BACKSLASH, VK_BACK_SLASH\<close>
     map_key 44 90 ''z'' ''Z'',  \<comment> \<open>KEY_Z, VK_Z\<close>
     map_key 45 88 ''x'' ''X'',  \<comment> \<open>KEY_X, VK_X\<close>
     map_key 46 67 ''c'' ''C'',  \<comment> \<open>KEY_C, VK_C\<close>
     map_key 47 86 ''v'' ''V'',  \<comment> \<open>KEY_V, VK_V\<close>
     map_key 48 66 ''b'' ''B'',  \<comment> \<open>KEY_B, VK_B\<close>
     map_key 49 78 ''n'' ''N'',  \<comment> \<open>KEY_N, VK_N\<close>
     map_key 50 77 ''m'' ''M'',  \<comment> \<open>KEY_M, VK_M\<close>
     map_key 51 44 [CHR 0x2C] [CHR 0x3C],  \<comment> \<open>KEY_COMMA, VK_COMMA\<close>
     map_key 52 46 [CHR 0x2E] [CHR 0x3E],  \<comment> \<open>KEY_DOT, VK_PERIOD\<close>
     map_key 53 47 [CHR 0x2F] [CHR 0x3F],  \<comment> \<open>KEY_SLASH, VK_SLASH\<close>
     map_key 54 16 '''' '''',  \<comment> \<open>KEY_RIGHTSHIFT, VK_SHIFT\<close>
     map_key 55 106 [CHR 0x2A] '''',  \<comment> \<open>KEY_KPASTERISK, VK_MULTIPLY\<close>
     map_key 56 18 '''' '''',  \<comment> \<open>KEY_LEFTALT, VK_ALT\<close>
     map_key 57 32 [CHR 0x20] [CHR 0x20],  \<comment> \<open>KEY_SPACE, VK_SPACE\<close>
     map_key 58 20 '''' '''',  \<comment> \<open>KEY_CAPSLOCK, VK_CAPS_LOCK\<close>
     map_key 59 112 '''' '''',  \<comment> \<open>KEY_F1, VK_F1\<close>
     map_key 60 113 '''' '''',  \<comment> \<open>KEY_F2, VK_F2\<close>
     map_key 61 114 '''' '''',  \<comment> \<open>KEY_F3, VK_F3\<close>
     map_key 62 115 '''' '''',  \<comment> \<open>KEY_F4, VK_F4\<close>
     map_key 63 116 '''' '''',  \<comment> \<open>KEY_F5, VK_F5\<close>
     map_key 64 117 '''' '''',  \<comment> \<open>KEY_F6, VK_F6\<close>
     map_key 65 118 '''' '''',  \<comment> \<open>KEY_F7, VK_F7\<close>
     map_key 66 119 '''' '''',  \<comment> \<open>KEY_F8, VK_F8\<close>
     map_key 67 120 '''' '''',  \<comment> \<open>KEY_F9, VK_F9\<close>
     map_key 68 121 '''' '''',  \<comment> \<open>KEY_F10, VK_F10\<close>
     map_key 69 144 '''' '''',  \<comment> \<open>KEY_NUMLOCK, VK_NUM_LOCK\<close>
     map_key 70 145 '''' '''',  \<comment> \<open>KEY_SCROLLLOCK, VK_SCROLL_LOCK\<close>
     map_key 71 103 ''7'' '''',  \<comment> \<open>KEY_KP7, VK_NUMPAD7\<close>
     map_key 72 104 ''8'' '''',  \<comment> \<open>KEY_KP8, VK_NUMPAD8\<close>
     map_key 73 105 ''9'' '''',  \<comment> \<open>KEY_KP9, VK_NUMPAD9\<close>
     map_key 74 109 [CHR 0x2D] '''',  \<comment> \<open>KEY_KPMINUS, VK_SUBTRACT\<close>
     map_key 75 100 ''4'' '''',  \<comment> \<open>KEY_KP4, VK_NUMPAD4\<close>
     map_key 76 101 ''5'' '''',  \<comment> \<open>KEY_KP5, VK_NUMPAD5\<close>
     map_key 77 102 ''6'' '''',  \<comment> \<open>KEY_KP6, VK_NUMPAD6\<close>
     map_key 78 107 [CHR 0x2B] '''',  \<comment> \<open>KEY_KPPLUS, VK_ADD\<close>
     map_key 79 97 ''1'' '''',  \<comment> \<open>KEY_KP1, VK_NUMPAD1\<close>
     map_key 80 98 ''2'' '''',  \<comment> \<open>KEY_KP2, VK_NUMPAD2\<close>
     map_key 81 99 ''3'' '''',  \<comment> \<open>KEY_KP3, VK_NUMPAD3\<close>
     map_key 82 103 ''0'' '''',  \<comment> \<open>KEY_KP0, VK_NUMPAD7\<close>
     map_key 83 110 [CHR 0x2E] '''',  \<comment> \<open>KEY_KPDOT, VK_DECIMAL\<close>
     map_key 87 122 '''' '''',  \<comment> \<open>KEY_F11, VK_F11\<close>
     map_key 88 123 '''' '''',  \<comment> \<open>KEY_F12, VK_F12\<close>
     map_key 96 10 '''' '''',  \<comment> \<open>KEY_KPENTER, VK_ENTER\<close>
     map_key 97 17 '''' '''',  \<comment> \<open>KEY_RIGHTCTRL, VK_CONTROL\<close>
     map_key 98 111 [CHR 0x2F] '''',  \<comment> \<open>KEY_KPSLASH, VK_DIVIDE\<close>
     map_key 99 154 '''' '''',  \<comment> \<open>KEY_SYSRQ, VK_PRINTSCREEN\<close>
     map_key 100 18 '''' '''',  \<comment> \<open>KEY_RIGHTALT, VK_ALT\<close>
     map_key 102 36 '''' '''',  \<comment> \<open>KEY_HOME, VK_HOME\<close>
     map_key 103 38 '''' '''',  \<comment> \<open>KEY_UP, VK_UP\<close>
     map_key 104 33 '''' '''',  \<comment> \<open>KEY_PAGEUP, VK_PAGE_UP\<close>
     map_key 105 37 '''' '''',  \<comment> \<open>KEY_LEFT, VK_LEFT\<close>
     map_key 106 39 '''' '''',  \<comment> \<open>KEY_RIGHT, VK_RIGHT\<close>
     map_key 107 35 '''' '''',  \<comment> \<open>KEY_END, VK_END\<close>
     map_key 108 40 '''' '''',  \<comment> \<open>KEY_DOWN, VK_DOWN\<close>
     map_key 109 34 '''' '''',  \<comment> \<open>KEY_PAGEDOWN, VK_PAGE_DOWN\<close>
     map_key 110 155 '''' '''',  \<comment> \<open>KEY_INSERT, VK_INSERT\<close>
     map_key 111 127 '''' '''',  \<comment> \<open>KEY_DELETE, VK_DELETE\<close>
     map_key 125 524 '''' '''',  \<comment> \<open>KEY_LEFTMETA, VK_WINDOWS\<close>
     map_key 126 524 '''' '''',  \<comment> \<open>KEY_RIGHTMETA, VK_WINDOWS\<close>
     map_key 127 525 '''' ''''  \<comment> \<open>KEY_COMPOSE, VK_CONTEXT_MENU\<close>
   ]"

definition VK_UNDEFINED :: jint where "VK_UNDEFINED = 0"

definition VK_SHIFT :: jint where "VK_SHIFT = 0x10"

definition VK_CONTROL :: jint where "VK_CONTROL = 0x11"

definition VK_ALT :: jint where "VK_ALT = 0x12"

definition VK_WINDOWS :: jint where "VK_WINDOWS = 0x20C"

definition VK_CAPS_LOCK :: jint where "VK_CAPS_LOCK = 0x14"

definition VK_A :: jint where "VK_A = 0x41"

definition VK_C :: jint where "VK_C = 0x43"

definition VK_Z :: jint where "VK_Z = 0x5A"

definition KEY_PRESS :: jint where "KEY_PRESS = 111"

definition KEY_RELEASE :: jint where "KEY_RELEASE = 112"

definition KEY_TYPED :: jint where "KEY_TYPED = 113"

definition MODIFIER_SHIFT :: jint where "MODIFIER_SHIFT = 1"

definition MODIFIER_CONTROL :: jint where "MODIFIER_CONTROL = 4"

definition MODIFIER_ALT :: jint where "MODIFIER_ALT = 8"

definition MODIFIER_WINDOWS :: jint where "MODIFIER_WINDOWS = 16"

text \<open>A loop over the map that ends at the first entry that satisfies the condition.\<close>

fun key_search :: "(LensKeyboardMap \<Rightarrow> bool) \<Rightarrow> LensKeyboardMap list \<Rightarrow> LensKeyboardMap option" where
  "key_search P [] = None"
| "key_search P (k # ks) = (if P k then Some k else key_search P ks)"

definition glass_inputEvents_getJavaKeycodeFromPlatformKeyCode :: "jint \<Rightarrow> jint" where
  "glass_inputEvents_getJavaKeycodeFromPlatformKeyCode platformKey =
     (case key_search (\<lambda>k. km_platformKeyCode k = platformKey) keyMap of
        Some k \<Rightarrow> km_jfxKeyCode k | None \<Rightarrow> VK_UNDEFINED)"

text \<open>\<open>str[0]\<close>, which is the terminator for the empty string.\<close>

definition first_char :: "string \<Rightarrow> char" where
  "first_char str = (case str of [] \<Rightarrow> CHR 0x00 | c # _ \<Rightarrow> c)"

definition glass_inputEvents_getJavaKeyCodeFromJChar :: "char \<Rightarrow> jint" where
  "glass_inputEvents_getJavaKeyCodeFromJChar c =
     (case key_search (\<lambda>k. first_char (km_keyStr k) = c \<or> first_char (km_keyStrWithShift k) = c) keyMap of
        Some k \<Rightarrow> km_jfxKeyCode k | None \<Rightarrow> VK_UNDEFINED)"

section \<open>Modifiers\<close>

text \<open>How many of the keys of each modifier are down; the mask of the modifiers is part of the state of the windows.\<close>

record KeyState =
  shiftDown :: jint
  ctrlDown :: jint
  altDown :: jint
  metaDown :: jint
  capsOn :: bool

definition glass_inputEvents_isAlpha :: "jint \<Rightarrow> bool" where
  "glass_inputEvents_isAlpha javaKeyCode \<longleftrightarrow> javaKeyCode \<ge> VK_A \<and> javaKeyCode \<le> VK_Z"

text \<open>A \<open>jboolean\<close> is the low byte of the counter.\<close>

definition glass_inputEvents_checkForShift :: "jint \<Rightarrow> KeyState \<Rightarrow> bool" where
  "glass_inputEvents_checkForShift keyCode k = (
     if capsOn k \<and> glass_inputEvents_isAlpha keyCode then shiftDown k = 0
     else shiftDown k mod 256 \<noteq> 0)"

text \<open>The release of a key on other systems than Android, where it sets the counter to zero.\<close>

definition count_key :: "bool \<Rightarrow> jint \<Rightarrow> jint" where
  "count_key isPressed n = s32 (if isPressed then n + 1 else n - 1)"

definition set_modifier :: "jint \<Rightarrow> jint \<Rightarrow> LensWM \<Rightarrow> LensWM" where
  "set_modifier msk count s = (
     if count \<noteq> 0 then s\<lparr>modifiersMask := modifiersMask s OR msk\<rparr>
     else s\<lparr>modifiersMask := modifiersMask s AND NOT msk\<rparr>)"

definition glass_inputEvents_updateKeyModifiers :: "jint \<Rightarrow> jint \<Rightarrow> KeyState \<times> LensWM \<Rightarrow> KeyState \<times> LensWM" where
  "glass_inputEvents_updateKeyModifiers key eventType ks = (
     let (k, s) = ks; isPressed = (eventType = KEY_PRESS)
     in if eventType \<noteq> KEY_PRESS \<and> eventType \<noteq> KEY_RELEASE then (k, s)
        else if key = VK_SHIFT then
          let n = count_key isPressed (shiftDown k) in (k\<lparr>shiftDown := n\<rparr>, set_modifier MODIFIER_SHIFT n s)
        else if key = VK_CONTROL then
          let n = count_key isPressed (ctrlDown k) in (k\<lparr>ctrlDown := n\<rparr>, set_modifier MODIFIER_CONTROL n s)
        else if key = VK_ALT then
          let n = count_key isPressed (altDown k) in (k\<lparr>altDown := n\<rparr>, set_modifier MODIFIER_ALT n s)
        else if key = VK_WINDOWS then
          let n = count_key isPressed (metaDown k) in (k\<lparr>metaDown := n\<rparr>, set_modifier MODIFIER_WINDOWS n s)
        else if key = VK_CAPS_LOCK \<and> isPressed then (k\<lparr>capsOn := \<not> capsOn k\<rparr>, s)
        else (k, s))"

definition glass_inputEvents_getKeyChar :: "jint \<Rightarrow> KeyState \<Rightarrow> string option" where
  "glass_inputEvents_getKeyChar jfxKeyCode k =
     map_option (\<lambda>e. if glass_inputEvents_checkForShift jfxKeyCode k then km_keyStrWithShift e else km_keyStr e)
       (key_search (\<lambda>e. km_jfxKeyCode e = jfxKeyCode) keyMap)"

definition glass_inputEvents_isKeyModifier :: "jint \<Rightarrow> bool" where
  "glass_inputEvents_isKeyModifier jfxKeyCode \<longleftrightarrow>
     jfxKeyCode \<in> {VK_SHIFT, VK_ALT, VK_CONTROL, VK_WINDOWS, VK_CAPS_LOCK}"

section \<open>Key events\<close>

text \<open>\<open>trapCtrlC\<close> is set by an environment variable. The conversion of the key string into a Java array succeeds.\<close>

definition glass_application_notifyKeyEvent :: "bool \<Rightarrow> wid option \<Rightarrow> jint \<Rightarrow> jint \<Rightarrow> bool \<Rightarrow>
    KeyState \<times> LensWM \<Rightarrow> (KeyState \<times> LensWM) option" where
  "glass_application_notifyKeyEvent trapCtrlC window eventType jfxKeyCode isRepeatEvent ks = (
     let (k, s) = ks
     in if \<not> pApplication s then Some ks
        else case window of None \<Rightarrow> Some ks
        | Some w \<Rightarrow> do {
            n \<leftarrow> windows s w;
            lens \<leftarrow> has_lens_view (nw_view n) s;
            if \<not> lens \<or> jfxKeyCode = VK_UNDEFINED then Some ks
            else case glass_inputEvents_getKeyChar jfxKeyCode k of
              None \<Rightarrow> Some ks
            | Some keyStr \<Rightarrow>
                if isRepeatEvent \<and> glass_inputEvents_isKeyModifier jfxKeyCode then Some ks
                else do {
                  v \<leftarrow> nw_view n;
                  let (k, s) = glass_inputEvents_updateKeyModifiers jfxKeyCode eventType (k, s);
                  let s = (if keyStr \<noteq> [] \<and> (eventType = KEY_RELEASE \<or> isRepeatEvent)
                           then emit (KeyEvent v KEY_TYPED jfxKeyCode (modifiersMask s) keyStr) s else s);
                  let modifiers = modifiersMask s;
                  let s = (if trapCtrlC \<and> jfxKeyCode = VK_C \<and> modifiers = MODIFIER_CONTROL
                           then emit RaiseSigint s else s);
                  Some (k, emit (KeyEvent v eventType jfxKeyCode modifiers keyStr) s)
                }
          })"

definition LENSFB_KEY_RELEASED :: jint where "LENSFB_KEY_RELEASED = 0"

definition LENSFB_KEY_PRESSED :: jint where "LENSFB_KEY_PRESSED = 1"

definition LENSFB_KEY_REPEAT :: jint where "LENSFB_KEY_REPEAT = 2"

text \<open>The structure \<^verbatim>\<open>input_event\<close> of the kernel without its time stamp.\<close>

record input_event =
  ie_type :: jint
  ie_code :: jint
  ie_value :: jint

definition EV_SYN :: jint where "EV_SYN = 0"

definition EV_KEY :: jint where "EV_KEY = 1"

definition EV_REL :: jint where "EV_REL = 2"

definition EV_ABS :: jint where "EV_ABS = 3"

definition lens_input_keyEvents_handleEvent :: "bool \<Rightarrow> input_event \<Rightarrow> KeyState \<times> LensWM \<Rightarrow> (KeyState \<times> LensWM) option" where
  "lens_input_keyEvents_handleEvent trapCtrlC e ks = (
     if ie_type e = EV_KEY then
       if focusedWindow (snd ks) = None then Some ks
       else
         let code = glass_inputEvents_getJavaKeycodeFromPlatformKeyCode (ie_code e);
             notify = (\<lambda>t rep. glass_application_notifyKeyEvent trapCtrlC (focusedWindow (snd ks)) t code rep ks)
         in if ie_value e = LENSFB_KEY_PRESSED then notify KEY_PRESS False
            else if ie_value e = LENSFB_KEY_RELEASED then notify KEY_RELEASE False
            else if ie_value e = LENSFB_KEY_REPEAT then notify KEY_PRESS True
            else Some ks
     else Some ks)"

end
