(* ===== verification/LensInput.thy ===== *)
theory LensInput
  imports LensKeys
begin

text \<open>
  Pointer and touch devices of Lens (\<^verbatim>\<open>input/udev/udevInput.c\<close>): events of the kernel are queued until the end of a
  report, then turned into touch points with identifiers, states and a primary point, or into mouse
  events, and handed to the window manager.

  The arrays of the state have \<open>LENS_MAX_TOUCH_POINTS\<close> entries and are read and written with \<open>at\<close> and \<open>put\<close>, which
  are \<open>None\<close> out of range. The positions on the screen are computed with floats; this computation is the
  parameter \<open>scale\<close>. A failed assertion is \<open>None\<close>.
\<close>

section \<open>Data\<close>

definition SYN_REPORT :: jint where "SYN_REPORT = 0"

definition SYN_MT_REPORT :: jint where "SYN_MT_REPORT = 2"

definition REL_X :: jint where "REL_X = 0"

definition REL_Y :: jint where "REL_Y = 1"

definition REL_WHEEL :: jint where "REL_WHEEL = 8"

definition ABS_X :: jint where "ABS_X = 0"

definition ABS_Y :: jint where "ABS_Y = 1"

definition ABS_MT_SLOT :: jint where "ABS_MT_SLOT = 0x2F"

definition ABS_MT_TOUCH_MAJOR :: jint where "ABS_MT_TOUCH_MAJOR = 0x30"

definition ABS_MT_POSITION_X :: jint where "ABS_MT_POSITION_X = 0x35"

definition ABS_MT_POSITION_Y :: jint where "ABS_MT_POSITION_Y = 0x36"

definition ABS_MT_TRACKING_ID :: jint where "ABS_MT_TRACKING_ID = 0x39"

definition BTN_LEFT :: jint where "BTN_LEFT = 0x110"

definition BTN_RIGHT :: jint where "BTN_RIGHT = 0x111"

definition BTN_MIDDLE :: jint where "BTN_MIDDLE = 0x112"

definition BTN_TOUCH :: jint where "BTN_TOUCH = 0x14A"

definition LENS_MAX_TOUCH_POINTS :: nat where "LENS_MAX_TOUCH_POINTS = 20"

definition INT_MAX :: jint where "INT_MAX = 2147483647"

definition at :: "'a list \<Rightarrow> nat \<Rightarrow> 'a option" where
  "at xs i = (if i < length xs then Some (xs ! i) else None)"

definition put :: "'a list \<Rightarrow> nat \<Rightarrow> 'a \<Rightarrow> 'a list option" where
  "put xs i v = (if i < length xs then Some (xs[i := v]) else None)"

datatype LensInputTouchDeviceProtocols = TOUCH_PROTOCOL_NONE | TOUCH_PROTOCOL_ST | TOUCH_PROTOCOL_MT_A |
  TOUCH_PROTOCOL_MT_A_WITH_TRACKING_ID | TOUCH_PROTOCOL_MT_B

text \<open>The array \<open>pendingInputEvents\<close> has the length \<open>pendingInputEventCapacity\<close>.\<close>

record LensInputMouseState =
  ms_rel :: "jint list"
  ms_abs :: "jint list"
  ms_nextTouchID :: jint
  ms_touchPrimaryPointID :: jint
  ms_touchPointCount :: nat
  ms_touchIDs :: "jint list"
  ms_touchXs :: "jint list"
  ms_touchYs :: "jint list"
  ms_touchIsDragging :: "bool list"
  ms_touchTrackingIDs :: "jint list"
  ms_pendingTouchPointCount :: nat
  ms_pendingTouchIDs :: "jint list"
  ms_pendingTouchXs :: "jint list"
  ms_pendingTouchYs :: "jint list"
  ms_pendingTouchTrackingIDs :: "jint list"
  ms_pendingInputEvents :: "input_event list"
  ms_pendingInputEventCount :: nat
  ms_pressedX :: jint
  ms_pressedY :: jint

record absinfo =
  ai_minimum :: jint
  ai_maximum :: jint

record LensInputDevice =
  dev_isKeyboard :: bool
  dev_isPointer :: bool
  dev_isTouch :: bool
  dev_touchProtocolType :: LensInputTouchDeviceProtocols
  dev_absinfo :: "absinfo list"

text \<open>The static variables of the file.\<close>

record LensInputGlobals =
  screenWidth :: jint
  screenHeight :: jint
  li_mousePosX :: jint
  li_mousePosY :: jint
  newMousePosX :: jint
  newMousePosY :: jint
  gTapRadius :: jint
  gTouchMoveSensitivity :: jint
  gUseMultiTouch :: bool

text \<open>The points of a touch event: the arrays \<open>states\<close>, \<open>ids\<close>, \<open>xs\<close>, \<open>ys\<close> and \<open>deviceIDs\<close>, which are filled together.\<close>

record TouchPoint =
  tp_state :: jint
  tp_id :: jint
  tp_x :: jint
  tp_y :: jint
  tp_device :: jint

section \<open>Devices\<close>

text \<open>\<open>supports axis\<close> is the bit of the axis in the capabilities of the device.\<close>

definition lens_input_checkTouchSupportLevel :: "(jint \<Rightarrow> bool) \<Rightarrow> LensInputDevice \<Rightarrow> LensInputDevice" where
  "lens_input_checkTouchSupportLevel supports device = device\<lparr>dev_touchProtocolType := (
     if dev_isTouch device then
       if supports ABS_MT_POSITION_X then
         if supports ABS_MT_TRACKING_ID then
           if supports ABS_MT_SLOT then TOUCH_PROTOCOL_MT_A else TOUCH_PROTOCOL_MT_A_WITH_TRACKING_ID
         else TOUCH_PROTOCOL_MT_A
       else TOUCH_PROTOCOL_ST
     else TOUCH_PROTOCOL_NONE)\<rparr>"

definition lens_input_deviceCheckProperties :: "string \<Rightarrow> LensInputDevice \<Rightarrow> bool \<times> LensInputDevice" where
  "lens_input_deviceCheckProperties key device = (
     if key = ''ID_INPUT_KEYBOARD'' then (True, device\<lparr>dev_isKeyboard := True\<rparr>)
     else if key = ''ID_INPUT_MOUSE'' then (True, device\<lparr>dev_isPointer := True\<rparr>)
     else if key = ''ID_INPUT_TOUCHSCREEN'' \<or> key = ''ID_INPUT_TABLET'' then (True, device\<lparr>dev_isTouch := True\<rparr>)
     else (False, device))"

definition lens_input_mouseStateAllocateAndInit :: LensInputMouseState where
  "lens_input_mouseStateAllocateAndInit = (let none = replicate LENS_MAX_TOUCH_POINTS 0 in
     \<lparr>ms_rel = replicate 16 0, ms_abs = replicate 64 0, ms_nextTouchID = 0, ms_touchPrimaryPointID = - 1,
      ms_touchPointCount = 0, ms_touchIDs = none, ms_touchXs = none, ms_touchYs = none,
      ms_touchIsDragging = replicate LENS_MAX_TOUCH_POINTS False, ms_touchTrackingIDs = none,
      ms_pendingTouchPointCount = 0, ms_pendingTouchIDs = none, ms_pendingTouchXs = none, ms_pendingTouchYs = none,
      ms_pendingTouchTrackingIDs = none, ms_pendingInputEvents = [], ms_pendingInputEventCount = 0,
      ms_pressedX = 0, ms_pressedY = 0\<rparr>)"

definition lens_input_convertButtonToFXButtonCode :: "jint \<Rightarrow> jint" where
  "lens_input_convertButtonToFXButtonCode button = (
     if button = 0 then BUTTON_NONE
     else if button = BTN_LEFT \<or> button = BTN_TOUCH then BUTTON_LEFT
     else if button = BTN_MIDDLE then BUTTON_OTHER
     else if button = BTN_RIGHT then BUTTON_RIGHT
     else BUTTON_NONE)"

section \<open>The queue of a report\<close>

text \<open>\<open>ok\<close> is whether \<open>calloc\<close> succeeds; fresh entries are zero.\<close>

definition null_event :: input_event where
  "null_event = \<lparr>ie_type = 0, ie_code = 0, ie_value = 0\<rparr>"

definition append_event :: "input_event \<Rightarrow> LensInputMouseState \<Rightarrow> LensInputMouseState option" where
  "append_event e ms = do {
     es \<leftarrow> put (ms_pendingInputEvents ms) (ms_pendingInputEventCount ms) e;
     Some (ms\<lparr>ms_pendingInputEvents := es, ms_pendingInputEventCount := ms_pendingInputEventCount ms + 1\<rparr>)
   }"

definition lens_input_pointerEvents_enqueuePendingEvent :: "bool \<Rightarrow> input_event \<Rightarrow> LensInputMouseState \<Rightarrow>
    LensInputMouseState option" where
  "lens_input_pointerEvents_enqueuePendingEvent ok e ms = (
     let es = ms_pendingInputEvents ms
     in if length es = 0 then
          if \<not> ok then Some ms else append_event e (ms\<lparr>ms_pendingInputEvents := [null_event]\<rparr>)
        else if ms_pendingInputEventCount ms = length es then
          if \<not> ok then Some ms
          else append_event e (ms\<lparr>ms_pendingInputEvents := es @ replicate (length es) null_event\<rparr>)
        else append_event e ms)"

section \<open>Motion\<close>

text \<open>\<open>scale value minimum maximum size\<close> is \<open>(int) roundf((value - minimum) / (float)(maximum - minimum) * size)\<close>.\<close>

type_synonym scaling = "jint \<Rightarrow> jint \<Rightarrow> jint \<Rightarrow> jint \<Rightarrow> jint"

definition clamp_axis :: "absinfo \<Rightarrow> jint \<Rightarrow> jint" where
  "clamp_axis a v = (
     let v = (if v < ai_minimum a then ai_minimum a else v)
     in if v > ai_maximum a then ai_maximum a else v)"

definition lens_input_pointerEvents_handleAbsMotion :: "scaling \<Rightarrow> LensInputDevice \<Rightarrow> input_event \<Rightarrow>
    LensInputMouseState \<times> LensInputGlobals \<Rightarrow> (LensInputMouseState \<times> LensInputGlobals) option" where
  "lens_input_pointerEvents_handleAbsMotion scale device e st = do {
     let (ms, g) = st;
     let axis = ie_code e;
     a \<leftarrow> load (dev_absinfo device) axis;
     ab \<leftarrow> store (ms_abs ms) axis (clamp_axis a (ie_value e));
     let ms = ms\<lparr>ms_abs := ab\<rparr>;
     let onX = scale (ie_value e) (ai_minimum a) (ai_maximum a) (screenWidth g);
     let onY = scale (ie_value e) (ai_minimum a) (ai_maximum a) (screenHeight g);
     if axis = ABS_X then Some (ms\<lparr>ms_pressedX := onX\<rparr>, g\<lparr>newMousePosX := onX\<rparr>)
     else if axis = ABS_Y then Some (ms\<lparr>ms_pressedY := onY\<rparr>, g\<lparr>newMousePosY := onY\<rparr>)
     else if axis = ABS_MT_POSITION_X then do {
       xs \<leftarrow> put (ms_pendingTouchXs ms) (ms_pendingTouchPointCount ms) onX;
       Some (ms\<lparr>ms_pendingTouchXs := xs\<rparr>, g)
     } else if axis = ABS_MT_POSITION_Y then do {
       ys \<leftarrow> put (ms_pendingTouchYs ms) (ms_pendingTouchPointCount ms) onY;
       Some (ms\<lparr>ms_pendingTouchYs := ys\<rparr>, g)
     } else Some (ms, g)
   }"

definition clamp_screen :: "jint \<Rightarrow> jint \<Rightarrow> jint" where
  "clamp_screen extent p = (if p \<ge> extent then extent - 1 else if p < 0 then 0 else p)"

definition lens_input_pointerEvents_handleRelMotion :: "input_event \<Rightarrow> LensInputMouseState \<times> LensInputGlobals \<Rightarrow>
    (LensInputMouseState \<times> LensInputGlobals) option" where
  "lens_input_pointerEvents_handleRelMotion e st = do {
     let (ms, g) = st;
     let axis = ie_code e;
     old \<leftarrow> load (ms_rel ms) axis;
     rl \<leftarrow> store (ms_rel ms) axis (s32 (old + ie_value e));
     let ms = ms\<lparr>ms_rel := rl\<rparr>;
     Some (ms,
       if axis = REL_X then g\<lparr>newMousePosX := clamp_screen (screenWidth g) (s32 (li_mousePosX g + ie_value e))\<rparr>
       else if axis = REL_Y then g\<lparr>newMousePosY := clamp_screen (screenHeight g) (s32 (li_mousePosY g + ie_value e))\<rparr>
       else g)
   }"

definition lens_input_pointerEvents_handleKeyEvent :: "input_event \<Rightarrow> LensInputGlobals \<Rightarrow> LensWM \<Rightarrow> LensWM option" where
  "lens_input_pointerEvents_handleKeyEvent e g s =
     lens_wm_notifyButtonEvent (ie_value e = 1) (lens_input_convertButtonToFXButtonCode (ie_code e))
       (li_mousePosX g) (li_mousePosY g) s"

section \<open>The end of a report\<close>

subsection \<open>Reading the queue\<close>

record sync_scan =
  sc_state :: LensInputMouseState
  sc_globals :: LensInputGlobals
  sc_keyEventIndex :: "nat option"
  sc_reportMouseMove :: bool
  sc_touchButtonValue :: jint
  sc_numOfUpdatePoints :: nat
  sc_numOfReleasePoints :: nat

definition scan_abs :: "LensInputDevice \<Rightarrow> input_event \<Rightarrow> sync_scan \<Rightarrow> sync_scan option" where
  "scan_abs device e c = do {
     let ms = sc_state c;
     let room = (ms_pendingTouchPointCount ms < LENS_MAX_TOUCH_POINTS);
     let c = (if room \<and> ie_code e = ABS_MT_POSITION_X
              then c\<lparr>sc_numOfUpdatePoints := sc_numOfUpdatePoints c + 1\<rparr> else c);
     c \<leftarrow> (if ie_code e = ABS_MT_TRACKING_ID then do {
            ts \<leftarrow> put (ms_pendingTouchTrackingIDs ms) (ms_pendingTouchPointCount ms) (ie_value e);
            Some (c\<lparr>sc_state := ms\<lparr>ms_pendingTouchTrackingIDs := ts\<rparr>\<rparr>)
          } else Some c);
     Some (if room \<and> dev_touchProtocolType device = TOUCH_PROTOCOL_MT_A_WITH_TRACKING_ID \<and>
               ie_code e = ABS_MT_TOUCH_MAJOR \<and> ie_value e = 0
           then c\<lparr>sc_numOfReleasePoints := sc_numOfReleasePoints c + 1\<rparr> else c)
   }"

definition scan_event :: "scaling \<Rightarrow> LensInputDevice \<Rightarrow> nat \<Rightarrow> input_event \<Rightarrow> sync_scan \<Rightarrow> sync_scan option" where
  "scan_event scale device i e c = (
     if ie_type e = EV_KEY then
       Some ((if ie_code e = BTN_TOUCH then c\<lparr>sc_touchButtonValue := ie_value e\<rparr> else c)\<lparr>sc_keyEventIndex := Some i\<rparr>)
     else if ie_type e = EV_REL then do {
       (ms, g) \<leftarrow> lens_input_pointerEvents_handleRelMotion e (sc_state c, sc_globals c);
       Some (c\<lparr>sc_state := ms, sc_globals := g, sc_reportMouseMove := True\<rparr>)
     } else if ie_type e = EV_ABS then do {
       (ms, g) \<leftarrow> lens_input_pointerEvents_handleAbsMotion scale device e (sc_state c, sc_globals c);
       scan_abs device e (c\<lparr>sc_state := ms, sc_globals := g\<rparr>)
     } else if ie_type e = EV_SYN then
       Some (if ie_code e = SYN_MT_REPORT \<and> ms_pendingTouchPointCount (sc_state c) < LENS_MAX_TOUCH_POINTS
             then c\<lparr>sc_state := (sc_state c)\<lparr>ms_pendingTouchPointCount := ms_pendingTouchPointCount (sc_state c) + 1\<rparr>\<rparr>
             else c)
     else None)"

fun scan_events :: "scaling \<Rightarrow> LensInputDevice \<Rightarrow> nat \<Rightarrow> input_event list \<Rightarrow> sync_scan \<Rightarrow> sync_scan option" where
  "scan_events scale device i [] c = Some c"
| "scan_events scale device i (e # es) c = do {
     c \<leftarrow> scan_event scale device i e c;
     scan_events scale device (Suc i) es c
   }"

definition start_scan :: "LensInputMouseState \<Rightarrow> LensInputGlobals \<Rightarrow> sync_scan" where
  "start_scan ms g =
     \<lparr>sc_state = ms\<lparr>ms_pendingTouchPointCount := 0, ms_pressedX := - 1, ms_pressedY := - 1,
        ms_pendingTouchXs := replicate (length (ms_pendingTouchXs ms)) (- 1)\<rparr>,
      sc_globals = g, sc_keyEventIndex = None, sc_reportMouseMove = False, sc_touchButtonValue = - 1,
      sc_numOfUpdatePoints = 0, sc_numOfReleasePoints = 0\<rparr>"

subsection \<open>Protocols\<close>

definition preprocess_ST :: "sync_scan \<Rightarrow> LensInputMouseState \<Rightarrow> LensInputMouseState option" where
  "preprocess_ST c ms = (
     if sc_touchButtonValue c = 1 \<or>
        (sc_touchButtonValue c = - 1 \<and> ms_pressedX ms \<noteq> - 1 \<and> ms_pressedY ms \<noteq> - 1)
     then do {
       xs \<leftarrow> put (ms_pendingTouchXs ms) 0 (ms_pressedX ms);
       ys \<leftarrow> put (ms_pendingTouchYs ms) 0 (ms_pressedY ms);
       Some (ms\<lparr>ms_pendingTouchPointCount := 1, ms_pendingTouchXs := xs, ms_pendingTouchYs := ys\<rparr>)
     } else Some ms)"

text \<open>Whether one of the \<open>k\<close> pending points from the \<open>j\<close>th on releases the point with this tracking id.\<close>

fun released_by :: "nat \<Rightarrow> nat \<Rightarrow> jint \<Rightarrow> LensInputMouseState \<Rightarrow> bool option" where
  "released_by 0 j tid ms = Some False"
| "released_by (Suc k) j tid ms = do {
     x \<leftarrow> at (ms_pendingTouchXs ms) j;
     t \<leftarrow> at (ms_pendingTouchTrackingIDs ms) j;
     if x = - 1 \<and> t = tid then Some True else released_by k (Suc j) tid ms
   }"

text \<open>The points that are still down replace the pending points, from the front of the same arrays.\<close>

fun keep_unreleased :: "nat \<Rightarrow> nat \<Rightarrow> nat \<Rightarrow> LensInputMouseState \<Rightarrow> (nat \<times> LensInputMouseState) option" where
  "keep_unreleased 0 i actualCount ms = Some (actualCount, ms)"
| "keep_unreleased (Suc k) i actualCount ms = do {
     tid \<leftarrow> at (ms_touchTrackingIDs ms) i;
     matchFound \<leftarrow> released_by (ms_pendingTouchPointCount ms) 0 tid ms;
     if matchFound then keep_unreleased k (Suc i) actualCount ms
     else do {
       x \<leftarrow> at (ms_touchXs ms) i;
       y \<leftarrow> at (ms_touchYs ms) i;
       ts \<leftarrow> put (ms_pendingTouchTrackingIDs ms) actualCount tid;
       xs \<leftarrow> put (ms_pendingTouchXs ms) actualCount x;
       ys \<leftarrow> put (ms_pendingTouchYs ms) actualCount y;
       keep_unreleased k (Suc i) (actualCount + 1)
         (ms\<lparr>ms_pendingTouchTrackingIDs := ts, ms_pendingTouchXs := xs, ms_pendingTouchYs := ys\<rparr>)
     }
   }"

text \<open>The result is \<open>Inl\<close> when the report is malformed and ignored.\<close>

definition preprocess :: "LensInputDevice \<Rightarrow> sync_scan \<Rightarrow> LensInputMouseState \<Rightarrow>
    (LensInputMouseState + LensInputMouseState) option" where
  "preprocess device c ms = (case dev_touchProtocolType device of
     TOUCH_PROTOCOL_ST \<Rightarrow> map_option Inr (preprocess_ST c ms)
   | TOUCH_PROTOCOL_MT_A \<Rightarrow>
       if sc_numOfUpdatePoints c < ms_pendingTouchPointCount ms
       then Some (Inr (ms\<lparr>ms_pendingTouchPointCount := sc_numOfUpdatePoints c\<rparr>))
       else if sc_numOfUpdatePoints c > ms_pendingTouchPointCount ms
       then Some (Inl (ms\<lparr>ms_pendingInputEventCount := 0\<rparr>))
       else Some (Inr ms)
   | TOUCH_PROTOCOL_MT_A_WITH_TRACKING_ID \<Rightarrow>
       if sc_numOfReleasePoints c > 0 then do {
         (actualCount, ms) \<leftarrow> keep_unreleased (ms_touchPointCount ms) 0 0 ms;
         Some (Inr (ms\<lparr>ms_pendingTouchPointCount := actualCount\<rparr>))
       } else Some (Inr ms)
   | _ \<Rightarrow> Some (Inr ms))"

subsection \<open>Identifiers\<close>

definition distance_squared :: "jint \<Rightarrow> jint \<Rightarrow> jint \<Rightarrow> jint \<Rightarrow> jint" where
  "distance_squared x y px py = (let dx = s32 (x - px); dy = s32 (y - py) in s32 (dx * dx + dy * dy))"

text \<open>The index of the unmapped point that is closest to \<open>(x, y)\<close> among the \<open>k\<close> points from the \<open>j\<close>th on.\<close>

fun closest :: "nat \<Rightarrow> nat \<Rightarrow> jint \<Rightarrow> jint \<Rightarrow> jint list \<Rightarrow> jint list \<Rightarrow> bool list \<Rightarrow> jint \<Rightarrow> nat option \<Rightarrow>
    nat option option" where
  "closest 0 j x y xs ys mapped best mappedIndex = Some mappedIndex"
| "closest (Suc k) j x y xs ys mapped best mappedIndex = do {
     m \<leftarrow> at mapped j;
     if m then closest k (Suc j) x y xs ys mapped best mappedIndex
     else do {
       px \<leftarrow> at xs j;
       py \<leftarrow> at ys j;
       let d = distance_squared x y px py;
       if d < best then closest k (Suc j) x y xs ys mapped d (Some j)
       else closest k (Suc j) x y xs ys mapped best mappedIndex
     }
   }"

text \<open>Every existing point gives its id to the closest pending point.\<close>

fun map_existing :: "nat \<Rightarrow> nat \<Rightarrow> bool list \<Rightarrow> LensInputMouseState \<Rightarrow> (bool list \<times> LensInputMouseState) option" where
  "map_existing 0 i mapped ms = Some (mapped, ms)"
| "map_existing (Suc k) i mapped ms = do {
     x \<leftarrow> at (ms_touchXs ms) i;
     y \<leftarrow> at (ms_touchYs ms) i;
     found \<leftarrow> closest (ms_pendingTouchPointCount ms) 0 x y (ms_pendingTouchXs ms) (ms_pendingTouchYs ms) mapped INT_MAX None;
     j \<leftarrow> found;
     tid \<leftarrow> at (ms_touchIDs ms) i;
     ids \<leftarrow> put (ms_pendingTouchIDs ms) j tid;
     mapped \<leftarrow> put mapped j True;
     map_existing k (Suc i) mapped (ms\<lparr>ms_pendingTouchIDs := ids\<rparr>)
   }"

text \<open>The pending points that are not mapped get new ids.\<close>

fun assign_new :: "nat \<Rightarrow> nat \<Rightarrow> bool list \<Rightarrow> LensInputMouseState \<Rightarrow> LensInputMouseState option" where
  "assign_new 0 i mapped ms = Some ms"
| "assign_new (Suc k) i mapped ms = do {
     m \<leftarrow> at mapped i;
     if m then assign_new k (Suc i) mapped ms
     else do {
       ids \<leftarrow> put (ms_pendingTouchIDs ms) i (ms_nextTouchID ms);
       assign_new k (Suc i) mapped
         (ms\<lparr>ms_pendingTouchIDs := ids, ms_nextTouchID := s32 (ms_nextTouchID ms + 1)\<rparr>)
     }
   }"

text \<open>Every pending point takes the id of the closest existing point.\<close>

fun map_pending :: "nat \<Rightarrow> nat \<Rightarrow> bool list \<Rightarrow> LensInputMouseState \<Rightarrow> LensInputMouseState option" where
  "map_pending 0 i mapped ms = Some ms"
| "map_pending (Suc k) i mapped ms = do {
     x \<leftarrow> at (ms_pendingTouchXs ms) i;
     y \<leftarrow> at (ms_pendingTouchYs ms) i;
     found \<leftarrow> closest (ms_touchPointCount ms) 0 x y (ms_touchXs ms) (ms_touchYs ms) mapped INT_MAX None;
     j \<leftarrow> found;
     tid \<leftarrow> at (ms_touchIDs ms) j;
     ids \<leftarrow> put (ms_pendingTouchIDs ms) i tid;
     mapped \<leftarrow> put mapped j True;
     map_pending k (Suc i) mapped (ms\<lparr>ms_pendingTouchIDs := ids\<rparr>)
   }"

definition assign_ids :: "LensInputMouseState \<Rightarrow> LensInputMouseState option" where
  "assign_ids ms = (
     let p = ms_pendingTouchPointCount ms; t = ms_touchPointCount ms;
         unmapped = replicate LENS_MAX_TOUCH_POINTS False
     in if p = 0 then Some ms
        else if t = 0 then assign_new p 0 unmapped (ms\<lparr>ms_nextTouchID := 1\<rparr>)
        else if p \<ge> t then do {
          (mapped, ms) \<leftarrow> map_existing t 0 unmapped ms;
          if t < p then assign_new p 0 mapped ms else Some ms
        } else map_pending p 0 unmapped ms)"

subsection \<open>States\<close>

text \<open>\<open>j\<close> of the first of the \<open>k\<close> entries of an array, from the \<open>j\<close>th on, that is the id.\<close>

fun find_id :: "nat \<Rightarrow> nat \<Rightarrow> jint \<Rightarrow> jint list \<Rightarrow> nat option option" where
  "find_id 0 j tid ids = Some None"
| "find_id (Suc k) j tid ids = do {
     x \<leftarrow> at ids j;
     if x = tid then Some (Some j) else find_id k (Suc j) tid ids
   }"

definition add_point :: "TouchPoint \<Rightarrow> TouchPoint list \<Rightarrow> TouchPoint list option" where
  "add_point p ps = (if length ps < LENS_MAX_TOUCH_POINTS then Some (ps @ [p]) else None)"

definition square :: "jint \<Rightarrow> jint" where
  "square x = x * x"

text \<open>A point that is still there has moved, or it is held at its old position.\<close>

definition track_point :: "LensInputGlobals \<Rightarrow> nat \<Rightarrow> nat \<Rightarrow> jint \<Rightarrow> LensInputMouseState \<Rightarrow>
    (TouchPoint \<times> LensInputMouseState) option" where
  "track_point g i j tid ms = do {
     newX \<leftarrow> at (ms_pendingTouchXs ms) j;
     newY \<leftarrow> at (ms_pendingTouchYs ms) j;
     oldX \<leftarrow> at (ms_touchXs ms) i;
     oldY \<leftarrow> at (ms_touchYs ms) i;
     dev \<leftarrow> at (ms_pendingTouchTrackingIDs ms) j;
     let d = (let dx = s32 (newX - oldX); dy = s32 (newY - oldY) in s32 (square dx + square dy));
     dragging \<leftarrow> at (ms_touchIsDragging ms) i;
     if (if dragging then d \<ge> s32 (square (gTouchMoveSensitivity g)) else \<not> d \<le> s32 (square (gTapRadius g))) then do {
       ds \<leftarrow> (if dragging then Some (ms_touchIsDragging ms) else put (ms_touchIsDragging ms) j True);
       Some (\<lparr>tp_state = TOUCH_MOVED, tp_id = tid, tp_x = newX, tp_y = newY, tp_device = dev\<rparr>,
         ms\<lparr>ms_touchIsDragging := ds\<rparr>)
     } else do {
       xs \<leftarrow> put (ms_pendingTouchXs ms) j oldX;
       ys \<leftarrow> put (ms_pendingTouchYs ms) j oldY;
       Some (\<lparr>tp_state = TOUCH_STILL, tp_id = tid, tp_x = oldX, tp_y = oldY, tp_device = dev\<rparr>,
         ms\<lparr>ms_pendingTouchXs := xs, ms_pendingTouchYs := ys\<rparr>)
     }
   }"

text \<open>\<open>uninit\<close> is the value of an entry of \<open>deviceIDs\<close> that was not assigned.\<close>

definition release_point :: "jint \<Rightarrow> nat \<Rightarrow> LensInputMouseState \<Rightarrow> (TouchPoint \<times> LensInputMouseState) option" where
  "release_point uninit i ms = do {
     tid \<leftarrow> at (ms_touchIDs ms) i;
     x \<leftarrow> at (ms_touchXs ms) i;
     y \<leftarrow> at (ms_touchYs ms) i;
     ds \<leftarrow> put (ms_touchIsDragging ms) i False;
     Some (\<lparr>tp_state = TOUCH_RELEASED, tp_id = tid, tp_x = x, tp_y = y, tp_device = uninit\<rparr>,
       ms\<lparr>ms_touchIsDragging := ds\<rparr>)
   }"

fun existing_points :: "jint \<Rightarrow> LensInputGlobals \<Rightarrow> nat \<Rightarrow> nat \<Rightarrow> TouchPoint list \<Rightarrow> LensInputMouseState \<Rightarrow>
    (TouchPoint list \<times> LensInputMouseState) option" where
  "existing_points uninit g 0 i ps ms = Some (ps, ms)"
| "existing_points uninit g (Suc k) i ps ms = do {
     tid \<leftarrow> at (ms_touchIDs ms) i;
     found \<leftarrow> find_id (ms_pendingTouchPointCount ms) 0 tid (ms_pendingTouchIDs ms);
     (p, ms) \<leftarrow> (case found of Some j \<Rightarrow> track_point g i j tid ms | None \<Rightarrow> release_point uninit i ms);
     ps \<leftarrow> add_point p ps;
     existing_points uninit g k (Suc i) ps ms
   }"

fun pressed_points :: "nat \<Rightarrow> nat \<Rightarrow> TouchPoint list \<Rightarrow> LensInputMouseState \<Rightarrow>
    (TouchPoint list \<times> LensInputMouseState) option" where
  "pressed_points 0 i ps ms = Some (ps, ms)"
| "pressed_points (Suc k) i ps ms = do {
     tid \<leftarrow> at (ms_pendingTouchIDs ms) i;
     found \<leftarrow> find_id (ms_touchPointCount ms) 0 tid (ms_touchIDs ms);
     if found \<noteq> None then pressed_points k (Suc i) ps ms
     else do {
       x \<leftarrow> at (ms_pendingTouchXs ms) i;
       y \<leftarrow> at (ms_pendingTouchYs ms) i;
       dev \<leftarrow> at (ms_pendingTouchTrackingIDs ms) i;
       ds \<leftarrow> put (ms_touchIsDragging ms) i False;
       ps \<leftarrow> add_point \<lparr>tp_state = TOUCH_PRESSED, tp_id = tid, tp_x = x, tp_y = y, tp_device = dev\<rparr> ps;
       pressed_points k (Suc i) ps (ms\<lparr>ms_touchIsDragging := ds\<rparr>)
     }
   }"

fun release_all :: "jint \<Rightarrow> nat \<Rightarrow> nat \<Rightarrow> TouchPoint list \<Rightarrow> LensInputMouseState \<Rightarrow>
    (TouchPoint list \<times> LensInputMouseState) option" where
  "release_all uninit 0 i ps ms = Some (ps, ms)"
| "release_all uninit (Suc k) i ps ms = do {
     (p, ms) \<leftarrow> release_point uninit i ms;
     ps \<leftarrow> add_point p ps;
     release_all uninit k (Suc i) ps ms
   }"

text \<open>The points of the event, and whether they are saved afterwards.\<close>

definition touch_points :: "jint \<Rightarrow> LensInputDevice \<Rightarrow> LensInputGlobals \<Rightarrow> LensInputMouseState \<Rightarrow>
    (TouchPoint list \<times> bool \<times> LensInputMouseState) option" where
  "touch_points uninit device g ms = (
     if ms_pendingTouchPointCount ms > 0 then do {
       (ps, ms) \<leftarrow> existing_points uninit g (ms_touchPointCount ms) 0 [] ms;
       (ps, ms) \<leftarrow> pressed_points (ms_pendingTouchPointCount ms) 0 ps ms;
       Some (ps, True, ms)
     } else if dev_isTouch device \<and> ms_touchPointCount ms > 0 then do {
       (ps, ms) \<leftarrow> release_all uninit (ms_touchPointCount ms) 0 [] ms;
       Some (ps, False, ms)
     } else Some ([], True, ms))"

subsection \<open>Notification\<close>

fun find_point :: "(TouchPoint \<Rightarrow> bool) \<Rightarrow> nat \<Rightarrow> TouchPoint list \<Rightarrow> nat option" where
  "find_point P i [] = None"
| "find_point P i (p # ps) = (if P p then Some i else find_point P (Suc i) ps)"

text \<open>The index of the primary point, whether it was reassigned, and the new \<open>touchPrimaryPointID\<close>.\<close>

definition primary_point :: "TouchPoint list \<Rightarrow> jint \<Rightarrow> nat option \<times> bool \<times> jint" where
  "primary_point ps primary = (
     let new = (\<lambda>found re. case found of None \<Rightarrow> (None, re, - 1) | Some i \<Rightarrow> (Some i, re, tp_id (ps ! i)))
     in if primary = - 1 then new (find_point (\<lambda>p. tp_state p = TOUCH_PRESSED) 0 ps) False
        else if primary > 0 then
          (case find_point (\<lambda>p. tp_id p = primary \<and> tp_state p \<noteq> TOUCH_RELEASED) 0 ps of
             Some i \<Rightarrow> (Some i, False, primary)
           | None \<Rightarrow> (let found = find_point (\<lambda>p. tp_state p \<noteq> TOUCH_RELEASED) 0 ps in new found (found \<noteq> None)))
        else (None, False, - 1))"

text \<open>Without multi touch the primary point alone is reported, always with the same id.\<close>

definition single_touch :: "nat option \<Rightarrow> bool \<Rightarrow> TouchPoint list \<Rightarrow> (TouchPoint list \<times> nat option) option" where
  "single_touch primaryPointIndex reassigned ps = do {
     first \<leftarrow> at ps 0;
     case primaryPointIndex of
       Some i \<Rightarrow> do {
         p \<leftarrow> at ps i;
         Some ([first\<lparr>tp_id := 1,
           tp_state := (if reassigned \<and> tp_state p = TOUCH_PRESSED then TOUCH_MOVED else tp_state p),
           tp_x := tp_x p, tp_y := tp_y p\<rparr>], Some 0)
       }
     | None \<Rightarrow> Some ([first\<lparr>tp_id := 1\<rparr>], None)
   }"

definition notify_touch :: "LensInputDevice \<Rightarrow> TouchPoint list \<Rightarrow> bool \<Rightarrow> LensInputMouseState \<Rightarrow> LensInputGlobals \<Rightarrow> LensWM \<Rightarrow>
    (TouchPoint list \<times> bool \<times> LensInputMouseState \<times> LensInputGlobals \<times> LensWM) option" where
  "notify_touch device ps save ms g s = (
     if list_all (\<lambda>p. tp_state p = TOUCH_STILL) ps then Some (ps, save, ms, g, s)
     else do {
       let (index, reassigned, primary) = primary_point ps (ms_touchPrimaryPointID ms);
       let save = (save \<and> index \<noteq> None);
       let ms = ms\<lparr>ms_touchPrimaryPointID := primary\<rparr>;
       (ps, index) \<leftarrow> (if \<not> gUseMultiTouch g \<and> dev_isTouch device \<and> dev_touchProtocolType device \<noteq> TOUCH_PROTOCOL_ST
                       then single_touch index reassigned ps else Some (ps, index));
       g \<leftarrow> (case index of
              None \<Rightarrow> Some g
            | Some i \<Rightarrow> do {
                x \<leftarrow> at (ms_pendingTouchXs ms) i;
                y \<leftarrow> at (ms_pendingTouchYs ms) i;
                Some (g\<lparr>li_mousePosX := x, li_mousePosY := y\<rparr>)
              });
       s \<leftarrow> lens_wm_notifyMultiTouchEvent (int (length ps)) (map tp_state ps) (map tp_id ps) (map tp_x ps) (map tp_y ps)
              (case index of None \<Rightarrow> - 1 | Some i \<Rightarrow> int i) s;
       Some (ps, save, ms, g, s)
     })"

definition report_mouse :: "LensInputDevice \<Rightarrow> sync_scan \<Rightarrow> LensInputMouseState \<Rightarrow> LensInputGlobals \<Rightarrow> LensWM \<Rightarrow>
    (LensInputMouseState \<times> LensInputGlobals \<times> LensWM) option" where
  "report_mouse device c ms g s = (
     if dev_isTouch device then Some (ms, g, s)
     else do {
       let g = g\<lparr>li_mousePosX := newMousePosX g, li_mousePosY := newMousePosY g\<rparr>;
       s \<leftarrow> (case sc_keyEventIndex c of
              None \<Rightarrow> Some s
            | Some i \<Rightarrow> do {
                e \<leftarrow> at (ms_pendingInputEvents ms) i;
                lens_input_pointerEvents_handleKeyEvent e g s
              });
       if sc_reportMouseMove c then do {
         s \<leftarrow> lens_wm_notifyMotionEvent (li_mousePosX g) (li_mousePosY g) s;
         wheel \<leftarrow> load (ms_rel ms) REL_WHEEL;
         s \<leftarrow> (if wheel \<noteq> 0 then lens_wm_notifyScrollEvent (li_mousePosX g) (li_mousePosY g) wheel s else Some s);
         Some (ms\<lparr>ms_rel := map (\<lambda>_. 0) (ms_rel ms)\<rparr>, g, s)
       } else Some (ms, g, s)
     })"

fun store_points :: "nat \<Rightarrow> TouchPoint list \<Rightarrow> LensInputMouseState \<Rightarrow> LensInputMouseState option" where
  "store_points active [] ms = Some (ms\<lparr>ms_touchPointCount := active\<rparr>)"
| "store_points active (p # ps) ms = (
     if tp_state p = TOUCH_RELEASED then store_points active ps ms
     else do {
       ids \<leftarrow> put (ms_touchIDs ms) active (tp_id p);
       xs \<leftarrow> put (ms_touchXs ms) active (tp_x p);
       ys \<leftarrow> put (ms_touchYs ms) active (tp_y p);
       ts \<leftarrow> put (ms_touchTrackingIDs ms) active (tp_device p);
       store_points (active + 1) ps
         (ms\<lparr>ms_touchIDs := ids, ms_touchXs := xs, ms_touchYs := ys, ms_touchTrackingIDs := ts\<rparr>)
     })"

definition save_points :: "bool \<Rightarrow> TouchPoint list \<Rightarrow> LensInputMouseState \<Rightarrow> LensInputMouseState option" where
  "save_points save ps ms = (if save then store_points 0 ps ms else Some (ms\<lparr>ms_touchPointCount := 0\<rparr>))"

definition lens_input_pointerEvents_handleSync :: "scaling \<Rightarrow> jint \<Rightarrow> LensInputDevice \<Rightarrow>
    LensInputMouseState \<times> LensInputGlobals \<times> LensWM \<Rightarrow> (LensInputMouseState \<times> LensInputGlobals \<times> LensWM) option" where
  "lens_input_pointerEvents_handleSync scale uninit device st = do {
     let (ms, g, s) = st;
     c \<leftarrow> scan_events scale device 0 (take (ms_pendingInputEventCount ms) (ms_pendingInputEvents ms)) (start_scan ms g);
     r \<leftarrow> preprocess device c (sc_state c);
     case r of
       Inl ms \<Rightarrow> Some (ms, sc_globals c, s)
     | Inr ms \<Rightarrow> do {
         ms \<leftarrow> assign_ids ms;
         (ps, save, ms) \<leftarrow> touch_points uninit device (sc_globals c) ms;
         (ps, save, ms, g, s) \<leftarrow> notify_touch device ps save ms (sc_globals c) s;
         (ms, g, s) \<leftarrow> report_mouse device c ms g s;
         ms \<leftarrow> save_points save ps (ms\<lparr>ms_pendingInputEventCount := 0\<rparr>);
         Some (ms, g, s)
       }
   }"

section \<open>Dispatch of events\<close>

definition lens_input_pointerEvents_handleEvent :: "bool \<Rightarrow> scaling \<Rightarrow> jint \<Rightarrow> LensInputDevice \<Rightarrow> input_event \<Rightarrow>
    LensInputMouseState \<times> LensInputGlobals \<times> LensWM \<Rightarrow> (LensInputMouseState \<times> LensInputGlobals \<times> LensWM) option" where
  "lens_input_pointerEvents_handleEvent ok scale uninit device e st = (
     let (ms, g, s) = st;
         enqueue = map_option (\<lambda>ms. (ms, g, s)) (lens_input_pointerEvents_enqueuePendingEvent ok e ms)
     in if ie_type e = EV_SYN then
          if ie_code e = SYN_REPORT then lens_input_pointerEvents_handleSync scale uninit device st else enqueue
        else if ie_type e = EV_KEY \<or> ie_type e = EV_REL \<or> ie_type e = EV_ABS then enqueue
        else Some st)"

end
