(* ===== verification/LensTouch.thy ===== *)
theory LensTouch
  imports LensInput LensSafety
begin

text \<open>
  Touch devices: memory safety of the handling of a report, the matching of touch points between reports,
  and the protocol of the touch events that the window manager receives.
\<close>

section \<open>Arrays\<close>

lemma at_in [simp]: "i < length xs \<Longrightarrow> at xs i = Some (xs ! i)"
  by (simp add: at_def)

lemma put_in [simp]: "i < length xs \<Longrightarrow> put xs i v = Some (xs[i := v])"
  by (simp add: put_def)

lemma at_None: "at xs i = None \<longleftrightarrow> \<not> i < length xs"
  by (simp add: at_def)

lemma put_None: "put xs i v = None \<longleftrightarrow> \<not> i < length xs"
  by (simp add: put_def)

text \<open>The sizes of the arrays, and the counters that index them.\<close>

definition arrays_ok :: "LensInputMouseState \<Rightarrow> bool" where
  "arrays_ok ms \<longleftrightarrow> length (ms_rel ms) = 16 \<and> length (ms_abs ms) = 64 \<and>
     length (ms_touchIDs ms) = 20 \<and> length (ms_touchXs ms) = 20 \<and> length (ms_touchYs ms) = 20 \<and>
     length (ms_touchIsDragging ms) = 20 \<and> length (ms_touchTrackingIDs ms) = 20 \<and>
     length (ms_pendingTouchIDs ms) = 20 \<and> length (ms_pendingTouchXs ms) = 20 \<and>
     length (ms_pendingTouchYs ms) = 20 \<and> length (ms_pendingTouchTrackingIDs ms) = 20 \<and>
     ms_touchPointCount ms \<le> 20 \<and> ms_pendingTouchPointCount ms \<le> 20 \<and>
     ms_pendingInputEventCount ms \<le> length (ms_pendingInputEvents ms)"

lemma arrays_okD:
  assumes "arrays_ok ms"
  shows "length (ms_rel ms) = 16" "length (ms_abs ms) = 64" "length (ms_touchIDs ms) = 20"
    "length (ms_touchXs ms) = 20" "length (ms_touchYs ms) = 20" "length (ms_touchIsDragging ms) = 20"
    "length (ms_touchTrackingIDs ms) = 20" "length (ms_pendingTouchIDs ms) = 20"
    "length (ms_pendingTouchXs ms) = 20" "length (ms_pendingTouchYs ms) = 20"
    "length (ms_pendingTouchTrackingIDs ms) = 20" "ms_touchPointCount ms \<le> 20"
    "ms_pendingTouchPointCount ms \<le> 20" "ms_pendingInputEventCount ms \<le> length (ms_pendingInputEvents ms)"
  using assms by (simp_all add: arrays_ok_def)

lemmas event_consts = EV_SYN_def EV_KEY_def EV_REL_def EV_ABS_def SYN_REPORT_def SYN_MT_REPORT_def
  REL_X_def REL_Y_def REL_WHEEL_def ABS_X_def ABS_Y_def ABS_MT_SLOT_def ABS_MT_TOUCH_MAJOR_def
  ABS_MT_POSITION_X_def ABS_MT_POSITION_Y_def ABS_MT_TRACKING_ID_def LENS_MAX_TOUCH_POINTS_def

lemmas touch_consts = TOUCH_PRESSED_def TOUCH_MOVED_def TOUCH_RELEASED_def TOUCH_STILL_def

section \<open>The queue\<close>

definition pending_events :: "LensInputMouseState \<Rightarrow> input_event list" where
  "pending_events ms = take (ms_pendingInputEventCount ms) (ms_pendingInputEvents ms)"

definition without_queue :: "LensInputMouseState \<Rightarrow> LensInputMouseState" where
  "without_queue ms = ms\<lparr>ms_pendingInputEvents := [], ms_pendingInputEventCount := 0\<rparr>"

locale event_queue =
  fixes content :: "'q \<Rightarrow> 'e list" and wf :: "'q \<Rightarrow> bool" and rest :: "'q \<Rightarrow> 'r" and enq :: "'e \<Rightarrow> 'q \<Rightarrow> 'q option"
  assumes enq: "wf q \<Longrightarrow> \<exists>q'. enq e q = Some q' \<and> wf q' \<and> content q' = content q @ [e] \<and> rest q' = rest q"
begin

lemma enq_all_content:
  "wf q \<Longrightarrow> \<exists>q'. fold (\<lambda>e r. r \<bind> enq e) es (Some q) = Some q' \<and> wf q' \<and> content q' = content q @ es \<and> rest q' = rest q"
proof (induction es arbitrary: q)
  case (Cons e es)
  obtain q1 where q1: "enq e q = Some q1" "wf q1" "content q1 = content q @ [e]" "rest q1 = rest q"
    using enq [OF Cons.prems] by blast
  with Cons.IH [OF q1(2)] show ?case by auto
qed simp

end

lemma enqueue_correct:
  assumes "arrays_ok ms"
  shows "\<exists>ms'. lens_input_pointerEvents_enqueuePendingEvent True e ms = Some ms' \<and> arrays_ok ms' \<and>
    pending_events ms' = pending_events ms @ [e] \<and> without_queue ms' = without_queue ms"
proof -
  let ?n = "ms_pendingInputEventCount ms" and ?es = "ms_pendingInputEvents ms"
  have le: "?n \<le> length ?es" using assms by (simp add: arrays_ok_def)
  define es where "es = (if ?es = [] then [null_event] else if ?n = length ?es then ?es @ replicate (length ?es) null_event else ?es)"
  have n: "?n < length es" using le by (cases "?es = []") (auto simp: es_def)
  have "take ?n es = take ?n ?es" using le by (auto simp: es_def)
  then have "take (?n + 1) (es[?n := e]) = take ?n ?es @ [e]" using n by (simp add: take_Suc_conv_app_nth)
  moreover have "lens_input_pointerEvents_enqueuePendingEvent True e ms =
      Some (ms\<lparr>ms_pendingInputEvents := es[?n := e], ms_pendingInputEventCount := ?n + 1\<rparr>)"
    using n le by (auto simp: lens_input_pointerEvents_enqueuePendingEvent_def append_event_def es_def Let_def)
  ultimately show ?thesis
    using assms n by (auto simp: arrays_ok_def pending_events_def without_queue_def)
qed

interpretation report_queue: event_queue pending_events arrays_ok without_queue
  "lens_input_pointerEvents_enqueuePendingEvent True"
  by unfold_locales (rule enqueue_correct)

section \<open>Reading a report\<close>

text \<open>A report is in range if its axes exist and no touch point is described after the 20th.\<close>

fun report_ok :: "nat \<Rightarrow> input_event list \<Rightarrow> bool" where
  "report_ok n [] \<longleftrightarrow> True"
| "report_ok n (e # es) \<longleftrightarrow>
     (ie_type e = EV_KEY \<or> ie_type e = EV_SYN \<or> (ie_type e = EV_REL \<and> ie_code e \<in> {0..<16}) \<or>
      (ie_type e = EV_ABS \<and> ie_code e \<in> {0..<64} \<and>
        (ie_code e \<in> {ABS_MT_POSITION_X, ABS_MT_POSITION_Y, ABS_MT_TRACKING_ID} \<longrightarrow> n < LENS_MAX_TOUCH_POINTS))) \<and>
     report_ok (if ie_type e = EV_SYN \<and> ie_code e = SYN_MT_REPORT \<and> n < LENS_MAX_TOUCH_POINTS then n + 1 else n) es"

text \<open>What reading a report does not change.\<close>

definition scan_frame :: "LensInputMouseState \<Rightarrow> LensInputMouseState" where
  "scan_frame ms = ms\<lparr>ms_rel := [], ms_abs := [], ms_pendingTouchPointCount := 0, ms_pendingTouchXs := [],
     ms_pendingTouchYs := [], ms_pendingTouchTrackingIDs := [], ms_pressedX := 0, ms_pressedY := 0\<rparr>"

definition globals_frame :: "LensInputGlobals \<Rightarrow> LensInputGlobals" where
  "globals_frame g = g\<lparr>newMousePosX := 0, newMousePosY := 0\<rparr>"

lemma scan_frame_fields:
  assumes "scan_frame ms' = scan_frame ms"
  shows "ms_touchIDs ms' = ms_touchIDs ms" "ms_touchXs ms' = ms_touchXs ms" "ms_touchYs ms' = ms_touchYs ms"
    "ms_touchIsDragging ms' = ms_touchIsDragging ms" "ms_touchTrackingIDs ms' = ms_touchTrackingIDs ms"
    "ms_touchPointCount ms' = ms_touchPointCount ms" "ms_nextTouchID ms' = ms_nextTouchID ms"
    "ms_touchPrimaryPointID ms' = ms_touchPrimaryPointID ms" "ms_pendingTouchIDs ms' = ms_pendingTouchIDs ms"
    "ms_pendingInputEvents ms' = ms_pendingInputEvents ms" "ms_pendingInputEventCount ms' = ms_pendingInputEventCount ms"
  using arg_cong [OF assms, of ms_touchIDs]
    arg_cong [OF assms, of ms_touchXs]
    arg_cong [OF assms, of ms_touchYs]
    arg_cong [OF assms, of ms_touchIsDragging]
    arg_cong [OF assms, of ms_touchTrackingIDs]
    arg_cong [OF assms, of ms_touchPointCount]
    arg_cong [OF assms, of ms_nextTouchID]
    arg_cong [OF assms, of ms_touchPrimaryPointID]
    arg_cong [OF assms, of ms_pendingTouchIDs]
    arg_cong [OF assms, of ms_pendingInputEvents]
    arg_cong [OF assms, of ms_pendingInputEventCount]
  by (simp_all add: scan_frame_def)

lemma globals_frame_fields:
  assumes "globals_frame g' = globals_frame g"
  shows "gUseMultiTouch g' = gUseMultiTouch g" "screenWidth g' = screenWidth g" "screenHeight g' = screenHeight g"
    "li_mousePosX g' = li_mousePosX g" "li_mousePosY g' = li_mousePosY g" "gTapRadius g' = gTapRadius g"
    "gTouchMoveSensitivity g' = gTouchMoveSensitivity g"
  using arg_cong [OF assms, of gUseMultiTouch]
    arg_cong [OF assms, of screenWidth]
    arg_cong [OF assms, of screenHeight]
    arg_cong [OF assms, of li_mousePosX]
    arg_cong [OF assms, of li_mousePosY]
    arg_cong [OF assms, of gTapRadius]
    arg_cong [OF assms, of gTouchMoveSensitivity]
  by (simp_all add: globals_frame_def)

text \<open>Updates that keep the sizes, and updates that the frame does not see.\<close>

lemma arrays_ok_upd:
  assumes "arrays_ok ms"
  shows "length r = 16 \<Longrightarrow> arrays_ok (ms\<lparr>ms_rel := r\<rparr>)" "length r = 64 \<Longrightarrow> arrays_ok (ms\<lparr>ms_abs := r\<rparr>)"
    "length r = 20 \<Longrightarrow> arrays_ok (ms\<lparr>ms_pendingTouchXs := r\<rparr>)" "length r = 20 \<Longrightarrow> arrays_ok (ms\<lparr>ms_pendingTouchYs := r\<rparr>)"
    "length r = 20 \<Longrightarrow> arrays_ok (ms\<lparr>ms_pendingTouchTrackingIDs := r\<rparr>)"
    "length r = 20 \<Longrightarrow> arrays_ok (ms\<lparr>ms_pendingTouchIDs := r\<rparr>)" "length b = 20 \<Longrightarrow> arrays_ok (ms\<lparr>ms_touchIsDragging := b\<rparr>)"
    "n \<le> 20 \<Longrightarrow> arrays_ok (ms\<lparr>ms_pendingTouchPointCount := n\<rparr>)" "n \<le> 20 \<Longrightarrow> arrays_ok (ms\<lparr>ms_touchPointCount := n\<rparr>)"
    "arrays_ok (ms\<lparr>ms_pressedX := i\<rparr>)" "arrays_ok (ms\<lparr>ms_pressedY := i\<rparr>)" "arrays_ok (ms\<lparr>ms_nextTouchID := i\<rparr>)"
    "arrays_ok (ms\<lparr>ms_touchPrimaryPointID := i\<rparr>)" "arrays_ok (ms\<lparr>ms_pendingInputEventCount := 0\<rparr>)"
    "length r = 20 \<Longrightarrow> arrays_ok (ms\<lparr>ms_touchIDs := r\<rparr>)" "length r = 20 \<Longrightarrow> arrays_ok (ms\<lparr>ms_touchXs := r\<rparr>)"
    "length r = 20 \<Longrightarrow> arrays_ok (ms\<lparr>ms_touchYs := r\<rparr>)" "length r = 20 \<Longrightarrow> arrays_ok (ms\<lparr>ms_touchTrackingIDs := r\<rparr>)"
  using assms by (simp_all add: arrays_ok_def)

lemma frame_upd [simp]:
  "scan_frame (ms\<lparr>ms_rel := r\<rparr>) = scan_frame ms" "scan_frame (ms\<lparr>ms_abs := r\<rparr>) = scan_frame ms"
  "scan_frame (ms\<lparr>ms_pendingTouchXs := r\<rparr>) = scan_frame ms" "scan_frame (ms\<lparr>ms_pendingTouchYs := r\<rparr>) = scan_frame ms"
  "scan_frame (ms\<lparr>ms_pendingTouchTrackingIDs := r\<rparr>) = scan_frame ms"
  "scan_frame (ms\<lparr>ms_pendingTouchPointCount := n\<rparr>) = scan_frame ms"
  "scan_frame (ms\<lparr>ms_pressedX := i\<rparr>) = scan_frame ms" "scan_frame (ms\<lparr>ms_pressedY := i\<rparr>) = scan_frame ms"
  "globals_frame (g\<lparr>newMousePosX := i\<rparr>) = globals_frame g" "globals_frame (g\<lparr>newMousePosY := i\<rparr>) = globals_frame g"
  by (simp_all add: scan_frame_def globals_frame_def)

definition scan_step :: "LensInputMouseState \<times> LensInputGlobals \<Rightarrow> LensInputMouseState \<times> LensInputGlobals \<Rightarrow> bool" where
  "scan_step st st' \<longleftrightarrow> arrays_ok (fst st') \<and> scan_frame (fst st') = scan_frame (fst st) \<and>
     globals_frame (snd st') = globals_frame (snd st) \<and>
     ms_pendingTouchPointCount (fst st') = ms_pendingTouchPointCount (fst st)"

lemma load_ok: "0 \<le> i \<Longrightarrow> i < int (length xs) \<Longrightarrow> load xs i = Some (xs ! nat i)"
  by (simp add: load_def)

lemma store_ok: "0 \<le> i \<Longrightarrow> i < int (length xs) \<Longrightarrow> store xs i v = Some (xs[nat i := v])"
  by (simp add: store_def)

lemma rel_motion_ok:
  assumes "arrays_ok ms" "ie_code e \<in> {0..<16}"
  shows "post (lens_input_pointerEvents_handleRelMotion e (ms, g)) (scan_step (ms, g))"
  using assms arrays_okD [OF assms(1)]
  by (simp add: lens_input_pointerEvents_handleRelMotion_def load_ok store_ok arrays_ok_upd scan_step_def Let_def)

lemma abs_motion_ok:
  assumes "arrays_ok ms" "ie_code e \<in> {0..<64}" "length (dev_absinfo device) = 64"
    "ie_code e \<in> {ABS_MT_POSITION_X, ABS_MT_POSITION_Y} \<Longrightarrow> ms_pendingTouchPointCount ms < 20"
  shows "post (lens_input_pointerEvents_handleAbsMotion scale device e (ms, g)) (scan_step (ms, g))"
  using assms arrays_okD [OF assms(1)]
  by (simp add: lens_input_pointerEvents_handleAbsMotion_def load_ok store_ok arrays_ok_upd scan_step_def Let_def)

text \<open>The condition on one event, with \<open>n\<close> points before it.\<close>

definition event_ok :: "nat \<Rightarrow> input_event \<Rightarrow> bool" where
  "event_ok n e \<longleftrightarrow> ie_type e = EV_KEY \<or> ie_type e = EV_SYN \<or> (ie_type e = EV_REL \<and> ie_code e \<in> {0..<16}) \<or>
      (ie_type e = EV_ABS \<and> ie_code e \<in> {0..<64} \<and>
        (ie_code e \<in> {ABS_MT_POSITION_X, ABS_MT_POSITION_Y, ABS_MT_TRACKING_ID} \<longrightarrow> n < LENS_MAX_TOUCH_POINTS))"

definition next_count :: "nat \<Rightarrow> input_event \<Rightarrow> nat" where
  "next_count n e = (if ie_type e = EV_SYN \<and> ie_code e = SYN_MT_REPORT \<and> n < LENS_MAX_TOUCH_POINTS then n + 1 else n)"

lemma report_ok_Cons: "report_ok n (e # es) \<longleftrightarrow> event_ok n e \<and> report_ok (next_count n e) es"
  by (simp add: event_ok_def next_count_def)

definition scanned :: "sync_scan \<Rightarrow> sync_scan \<Rightarrow> bool" where
  "scanned c c' \<longleftrightarrow> arrays_ok (sc_state c') \<and> scan_frame (sc_state c') = scan_frame (sc_state c) \<and>
     globals_frame (sc_globals c') = globals_frame (sc_globals c)"

lemma scan_abs_ok:
  assumes "arrays_ok (sc_state c)" "ie_code e = ABS_MT_TRACKING_ID \<Longrightarrow> ms_pendingTouchPointCount (sc_state c) < 20"
  shows "post (scan_abs device e c) (\<lambda>c'. scanned c c' \<and>
    ms_pendingTouchPointCount (sc_state c') = ms_pendingTouchPointCount (sc_state c))"
  using assms arrays_okD [OF assms(1)]
  by (simp add: scan_abs_def scanned_def arrays_ok_upd Let_def)

lemma scan_event_ok:
  assumes c: "arrays_ok (sc_state c)" and d: "length (dev_absinfo device) = 64"
    and e: "event_ok (ms_pendingTouchPointCount (sc_state c)) e"
  shows "post (scan_event scale device i e c) (\<lambda>c'. scanned c c' \<and>
    ms_pendingTouchPointCount (sc_state c') = next_count (ms_pendingTouchPointCount (sc_state c)) e)"
proof -
  let ?n = "ms_pendingTouchPointCount (sc_state c)"
  consider "ie_type e = EV_KEY" | "ie_type e = EV_SYN" | "ie_type e = EV_REL" "ie_code e \<in> {0..<16}"
    | "ie_type e = EV_ABS" "ie_code e \<in> {0..<64}" "ie_code e \<in> {ABS_MT_POSITION_X, ABS_MT_POSITION_Y, ABS_MT_TRACKING_ID} \<Longrightarrow> ?n < 20"
    using e by (auto simp: event_ok_def LENS_MAX_TOUCH_POINTS_def)
  then show ?thesis
  proof cases
    case 3
    then show ?thesis
      using rel_motion_ok [OF c 3(2), of "sc_globals c"]
      by (auto simp: scan_event_def event_consts next_count_def post_bind scanned_def scan_step_def elim!: post_mono)
  next
    case 4
    have "post (scan_abs device e (c\<lparr>sc_state := fst r, sc_globals := snd r\<rparr>)) (\<lambda>c'. scanned c c' \<and>
        ms_pendingTouchPointCount (sc_state c') = ?n)" if "scan_step (sc_state c, sc_globals c) r" for r
      by (rule post_mono [OF scan_abs_ok]) (use that 4(3) in \<open>auto simp: scan_step_def scanned_def\<close>)
    then have "post (lens_input_pointerEvents_handleAbsMotion scale device e (sc_state c, sc_globals c) \<bind>
        (\<lambda>(ms, g). scan_abs device e (c\<lparr>sc_state := ms, sc_globals := g\<rparr>))) (\<lambda>c'. scanned c c' \<and>
        ms_pendingTouchPointCount (sc_state c') = ?n)"
      by (intro post_bindI [OF abs_motion_ok [OF c 4(2) d]]) (use 4(3) in \<open>auto split: prod.splits\<close>)
    with 4(1) show ?thesis by (simp add: scan_event_def event_consts next_count_def)
  qed (use c in \<open>simp_all add: scan_event_def event_consts next_count_def scanned_def arrays_ok_upd\<close>)
qed

lemma scan_events_ok:
  assumes "arrays_ok (sc_state c)" "length (dev_absinfo device) = 64"
    "report_ok (ms_pendingTouchPointCount (sc_state c)) es"
  shows "post (scan_events scale device i es c) (scanned c)"
  using assms
proof (induction es arbitrary: c i)
  case (Cons e es)
  show ?case
    unfolding scan_events.simps
  proof (rule post_bindI [OF scan_event_ok [OF Cons.prems(1,2)]])
    show "event_ok (ms_pendingTouchPointCount (sc_state c)) e" using Cons.prems(3) unfolding report_ok_Cons by simp
    fix c' assume c': "scanned c c' \<and> ms_pendingTouchPointCount (sc_state c') = next_count (ms_pendingTouchPointCount (sc_state c)) e"
    have "post (scan_events scale device (Suc i) es c') (scanned c')"
      by (intro Cons.IH) (use Cons.prems c' in \<open>simp_all only: report_ok_Cons scanned_def\<close>)
    then show "post (scan_events scale device (Suc i) es c') (scanned c)"
      by (rule post_mono) (use c' in \<open>auto simp: scanned_def\<close>)
  qed
qed (simp add: scanned_def)

lemma scan_event_None:
  assumes c: "arrays_ok (sc_state c)" and d: "length (dev_absinfo device) = 64"
    and e: "\<not> event_ok (ms_pendingTouchPointCount (sc_state c)) e"
  shows "scan_event scale device i e c = None"
proof -
  let ?n = "ms_pendingTouchPointCount (sc_state c)"
  note l = arrays_okD [OF c]
  consider "ie_type e \<notin> {EV_KEY, EV_SYN, EV_REL, EV_ABS}" | "ie_type e = EV_REL" "ie_code e \<notin> {0..<16}"
    | "ie_type e = EV_ABS" "ie_code e \<notin> {0..<64}"
    | "ie_type e = EV_ABS" "ie_code e \<in> {ABS_MT_POSITION_X, ABS_MT_POSITION_Y}" "?n = 20"
    | "ie_type e = EV_ABS" "ie_code e = ABS_MT_TRACKING_ID" "?n = 20"
    using e l(13) by (auto simp: event_ok_def LENS_MAX_TOUCH_POINTS_def)
  then show ?thesis
  proof cases
    case 5
    have "post (lens_input_pointerEvents_handleAbsMotion scale device e (sc_state c, sc_globals c)) (scan_step (sc_state c, sc_globals c))"
      by (rule abs_motion_ok [OF c _ d]) (use 5 in \<open>auto simp: event_consts\<close>)
    then obtain ms g where "lens_input_pointerEvents_handleAbsMotion scale device e (sc_state c, sc_globals c) = Some (ms, g)"
      "arrays_ok ms" "ms_pendingTouchPointCount ms = 20"
      using 5(3) by (auto simp: post_def scan_step_def)
    then show ?thesis
      using 5 arrays_okD(11) [of ms] by (simp add: scan_event_def scan_abs_def event_consts put_def Let_def)
  qed (use l d in \<open>auto simp: scan_event_def lens_input_pointerEvents_handleRelMotion_def put_def
      lens_input_pointerEvents_handleAbsMotion_def load_def store_def event_consts Let_def\<close>)
qed

text \<open>Reading a report leaves the arrays exactly if the report is out of range.\<close>

lemma scan_events_None_iff:
  assumes "arrays_ok (sc_state c)" "length (dev_absinfo device) = 64"
  shows "scan_events scale device i es c = None \<longleftrightarrow> \<not> report_ok (ms_pendingTouchPointCount (sc_state c)) es"
  using assms
proof (induction es arbitrary: c i)
  case (Cons e es)
  show ?case
  proof (cases "event_ok (ms_pendingTouchPointCount (sc_state c)) e")
    case True
    then obtain c' where "scan_event scale device i e c = Some c'" "scanned c c'"
      "ms_pendingTouchPointCount (sc_state c') = next_count (ms_pendingTouchPointCount (sc_state c)) e"
      using scan_event_ok [OF Cons.prems True, of scale i] by (auto simp: post_def)
    with True Cons.IH [of c'] Cons.prems(2) show ?thesis unfolding report_ok_Cons by (simp add: scanned_def)
  next
    case False
    with scan_event_None [OF Cons.prems False] show ?thesis unfolding report_ok_Cons by simp
  qed
qed simp

section \<open>Protocols\<close>

lemma released_by_ok:
  assumes "arrays_ok ms" "j + k \<le> 20"
  shows "\<exists>b. released_by k j tid ms = Some b"
  using assms(2)
proof (induction k arbitrary: j)
  case (Suc k)
  then show ?case using arrays_okD [OF assms(1)] Suc.IH [of "Suc j"] by auto
qed auto

lemma keep_unreleased_ok:
  assumes "arrays_ok ms" "i + k \<le> 20" "n \<le> i"
  shows "post (keep_unreleased k i n ms) (\<lambda>(m, ms'). m \<le> i + k \<and> arrays_ok ms' \<and> scan_frame ms' = scan_frame ms)"
  using assms
proof (induction k arbitrary: i n ms)
  case (Suc k)
  note l = arrays_okD [OF Suc.prems(1)]
  obtain b where b: "released_by (ms_pendingTouchPointCount ms) 0 (ms_touchTrackingIDs ms ! i) ms = Some b"
    using released_by_ok [OF Suc.prems(1), of 0 "ms_pendingTouchPointCount ms"] l by auto
  let ?ms = "ms\<lparr>ms_pendingTouchTrackingIDs := (ms_pendingTouchTrackingIDs ms)[n := ms_touchTrackingIDs ms ! i],
      ms_pendingTouchXs := (ms_pendingTouchXs ms)[n := ms_touchXs ms ! i],
      ms_pendingTouchYs := (ms_pendingTouchYs ms)[n := ms_touchYs ms ! i]\<rparr>"
  have "arrays_ok ?ms" using Suc.prems(1) l by (simp add: arrays_ok_upd)
  then have "post (keep_unreleased k (Suc i) (n + 1) ?ms) (\<lambda>(m, ms'). m \<le> i + Suc k \<and> arrays_ok ms' \<and> scan_frame ms' = scan_frame ms)"
    using Suc.IH [of ?ms "Suc i" "n + 1"] Suc.prems(2,3) by simp
  moreover have "post (keep_unreleased k (Suc i) n ms) (\<lambda>(m, ms'). m \<le> i + Suc k \<and> arrays_ok ms' \<and> scan_frame ms' = scan_frame ms)"
    using Suc.IH [of ms "Suc i" n] Suc.prems by simp
  ultimately show ?case using b l Suc.prems by simp
qed simp

lemma preprocess_ok:
  assumes ms: "arrays_ok ms"
  shows "post (preprocess device c ms) (\<lambda>r. case r of Inl ms' \<Rightarrow> ms' = ms\<lparr>ms_pendingInputEventCount := 0\<rparr>
    | Inr ms' \<Rightarrow> arrays_ok ms' \<and> scan_frame ms' = scan_frame ms)"
proof (cases "dev_touchProtocolType device")
  case TOUCH_PROTOCOL_ST
  then show ?thesis using ms arrays_okD [OF ms] by (simp add: preprocess_def preprocess_ST_def arrays_ok_upd)
next
  case TOUCH_PROTOCOL_MT_A
  then show ?thesis using ms arrays_okD [OF ms] by (simp add: preprocess_def arrays_ok_upd)
next
  case TOUCH_PROTOCOL_MT_A_WITH_TRACKING_ID
  moreover have "post (keep_unreleased (ms_touchPointCount ms) 0 0 ms) (\<lambda>(m, ms'). m \<le> 20 \<and> arrays_ok ms' \<and> scan_frame ms' = scan_frame ms)"
    by (rule post_mono [OF keep_unreleased_ok]) (use ms arrays_okD(12) [OF ms] in auto)
  ultimately show ?thesis
    using ms by (auto simp: preprocess_def arrays_ok_upd post_bind elim!: post_mono)
qed (use ms in \<open>simp_all add: preprocess_def\<close>)

section \<open>The closest point\<close>

text \<open>
  A sum of two squares is never 3 modulo 4, and wrapping around keeps the value modulo 4; \<open>INT_MAX\<close> is 3
  modulo 4. Hence every distance is smaller than the initial bound, even after an overflow.
\<close>

lemma s32_mod4: "s32 x mod 4 = x mod 4"
proof -
  have "take_bit 2 (s32 x) = take_bit 2 x" by (simp add: s32_def take_bit_signed_take_bit)
  then show ?thesis by (simp add: take_bit_eq_mod)
qed

lemma square_mod4: "(x * x) mod 4 \<in> {0, 1 :: int}"
proof -
  have "x mod 4 \<in> {0, 1, 2, 3}" by auto
  moreover have "(x * x) mod 4 = ((x mod 4) * (x mod 4)) mod 4" by (simp add: mod_mult_eq)
  ultimately show ?thesis by auto
qed

lemma distance_squared_less: "distance_squared x y px py < INT_MAX"
proof -
  let ?d = "distance_squared x y px py"
  obtain a b where d: "?d = s32 (a * a + b * b)" by (simp add: distance_squared_def Let_def)
  have "?d mod 4 = ((a * a) mod 4 + (b * b) mod 4) mod 4" by (simp add: d s32_mod4 mod_simps)
  then have "?d mod 4 \<noteq> 3" using square_mod4 [of a] square_mod4 [of b] by auto
  then have "?d \<noteq> INT_MAX" by (auto simp: INT_MAX_def)
  moreover have "?d < 2 ^ 31" using s32_is_jint [of "a * a + b * b"] by (simp add: d is_jint_def)
  ultimately show ?thesis by (simp add: INT_MAX_def)
qed

text \<open>The search, from the \<open>j\<close>th of \<open>j + k\<close> points on, with a candidate at distance \<open>best\<close>.\<close>

lemma closest_loop:
  fixes x y :: jint
  assumes "length xs \<ge> j + k" "length ys \<ge> j + k" "length mapped \<ge> j + k"
  defines "D \<equiv> \<lambda>i. distance_squared x y (xs ! i) (ys ! i)"
  shows "\<exists>r. closest k j x y xs ys mapped best idx = Some r \<and>
    (r = idx \<and> (\<forall>i\<in>{j..<j + k}. \<not> mapped ! i \<longrightarrow> best \<le> D i) \<or>
     (\<exists>i\<in>{j..<j + k}. r = Some i \<and> \<not> mapped ! i \<and> D i < best \<and> (\<forall>l\<in>{j..<j + k}. \<not> mapped ! l \<longrightarrow> D i \<le> D l)))"
  using assms(1-3)
proof (induction k arbitrary: j best idx)
  case (Suc k)
  have split: "{j..<j + Suc k} = insert j {Suc j..<Suc j + k}" by auto
  show ?case
  proof (cases "mapped ! j")
    case True
    obtain r where r: "closest k (Suc j) x y xs ys mapped best idx = Some r"
      "r = idx \<and> (\<forall>i\<in>{Suc j..<Suc j + k}. \<not> mapped ! i \<longrightarrow> best \<le> D i) \<or>
       (\<exists>i\<in>{Suc j..<Suc j + k}. r = Some i \<and> \<not> mapped ! i \<and> D i < best \<and> (\<forall>l\<in>{Suc j..<Suc j + k}. \<not> mapped ! l \<longrightarrow> D i \<le> D l))"
      using Suc.IH [of "Suc j" best idx] Suc.prems by auto
    have "closest (Suc k) j x y xs ys mapped best idx = Some r" using r(1) True Suc.prems by simp
    with r(2) True show ?thesis unfolding split by auto
  next
    case False
    obtain r where r: "closest k (Suc j) x y xs ys mapped (min (D j) best) (if D j < best then Some j else idx) = Some r"
      "r = (if D j < best then Some j else idx) \<and> (\<forall>i\<in>{Suc j..<Suc j + k}. \<not> mapped ! i \<longrightarrow> min (D j) best \<le> D i) \<or>
       (\<exists>i\<in>{Suc j..<Suc j + k}. r = Some i \<and> \<not> mapped ! i \<and> D i < min (D j) best \<and>
          (\<forall>l\<in>{Suc j..<Suc j + k}. \<not> mapped ! l \<longrightarrow> D i \<le> D l))"
      using Suc.IH [of "Suc j" "min (D j) best" "if D j < best then Some j else idx"] Suc.prems by auto
    have "closest (Suc k) j x y xs ys mapped best idx = Some r"
      using r(1) False Suc.prems by (auto simp: D_def Let_def min_def split: if_splits)
    moreover have "r = idx \<and> (\<forall>i\<in>{j..<j + Suc k}. \<not> mapped ! i \<longrightarrow> best \<le> D i) \<or>
     (\<exists>i\<in>{j..<j + Suc k}. r = Some i \<and> \<not> mapped ! i \<and> D i < best \<and> (\<forall>l\<in>{j..<j + Suc k}. \<not> mapped ! l \<longrightarrow> D i \<le> D l))"
      using r(2) False unfolding split by (cases "D j < best") (auto simp: min_def split: if_splits)
    ultimately show ?thesis by blast
  qed
qed simp

text \<open>The search finds an unmapped point whenever there is one, and none is closer.\<close>

lemma closest_correct:
  assumes l: "n \<le> length xs" "n \<le> length ys" "n \<le> length mapped" and u: "i < n" "\<not> mapped ! i"
  shows "\<exists>j. closest n 0 x y xs ys mapped INT_MAX None = Some (Some j) \<and> j < n \<and> \<not> mapped ! j \<and>
    (\<forall>i<n. \<not> mapped ! i \<longrightarrow> distance_squared x y (xs ! j) (ys ! j) \<le> distance_squared x y (xs ! i) (ys ! i))"
proof -
  have "\<not> INT_MAX \<le> distance_squared x y (xs ! i) (ys ! i)" using distance_squared_less [of x y "xs ! i" "ys ! i"] by simp
  then show ?thesis
    using closest_loop [of 0 n xs ys mapped x y INT_MAX None] l u by auto
qed

section \<open>Identifiers\<close>

text \<open>What the assignment of ids does not change.\<close>

definition ids_frame :: "LensInputMouseState \<Rightarrow> LensInputMouseState" where
  "ids_frame ms = ms\<lparr>ms_pendingTouchIDs := [], ms_nextTouchID := 0\<rparr>"

lemma ids_frame_upd [simp]:
  "ids_frame (ms\<lparr>ms_pendingTouchIDs := r\<rparr>) = ids_frame ms" "ids_frame (ms\<lparr>ms_nextTouchID := i\<rparr>) = ids_frame ms"
  by (simp_all add: ids_frame_def)

lemma ids_frame_fields:
  assumes "ids_frame ms' = ids_frame ms"
  shows "ms_touchIDs ms' = ms_touchIDs ms" "ms_touchXs ms' = ms_touchXs ms" "ms_touchYs ms' = ms_touchYs ms"
    "ms_touchPointCount ms' = ms_touchPointCount ms" "ms_pendingTouchPointCount ms' = ms_pendingTouchPointCount ms"
    "ms_pendingTouchXs ms' = ms_pendingTouchXs ms" "ms_pendingTouchYs ms' = ms_pendingTouchYs ms"
    "ms_touchPrimaryPointID ms' = ms_touchPrimaryPointID ms"
    "ms_pendingInputEvents ms' = ms_pendingInputEvents ms" "ms_pendingInputEventCount ms' = ms_pendingInputEventCount ms"
  using arg_cong [OF assms, of ms_touchIDs]
    arg_cong [OF assms, of ms_touchXs]
    arg_cong [OF assms, of ms_touchYs]
    arg_cong [OF assms, of ms_touchPointCount]
    arg_cong [OF assms, of ms_pendingTouchPointCount]
    arg_cong [OF assms, of ms_pendingTouchXs]
    arg_cong [OF assms, of ms_pendingTouchYs]
    arg_cong [OF assms, of ms_touchPrimaryPointID]
    arg_cong [OF assms, of ms_pendingInputEvents]
    arg_cong [OF assms, of ms_pendingInputEventCount]
  by (simp_all add: ids_frame_def)

text \<open>The ids of the points of the last report and of this one.\<close>

definition old_ids :: "LensInputMouseState \<Rightarrow> jint list" where
  "old_ids ms = take (ms_touchPointCount ms) (ms_touchIDs ms)"

definition pending_ids :: "LensInputMouseState \<Rightarrow> jint list" where
  "pending_ids ms = take (ms_pendingTouchPointCount ms) (ms_pendingTouchIDs ms)"

lemma old_ids_nth: "arrays_ok ms \<Longrightarrow> i < ms_touchPointCount ms \<Longrightarrow> ms_touchIDs ms ! i = old_ids ms ! i"
  by (simp add: old_ids_def)

lemma ids_length:
  assumes "arrays_ok ms"
  shows "length (old_ids ms) = ms_touchPointCount ms" "length (pending_ids ms) = ms_pendingTouchPointCount ms"
  using arrays_okD [OF assms] by (simp_all add: old_ids_def pending_ids_def)

lemma bij_extend:
  assumes f: "bij_betw (nth f) A (set (take i xs))" and A: "j \<notin> A" "j < length f" and xs: "distinct xs" "i < length xs"
  shows "bij_betw (nth (f[j := xs ! i])) (insert j A) (set (take (Suc i) xs))"
proof -
  have "bij_betw (nth (f[j := xs ! i])) A (set (take i xs))"
    using f A(1) by (subst bij_betw_cong [of A _ "nth f"]) (metis nth_list_update_neq)
  moreover have "xs ! i \<notin> set (take i xs)" using xs by (auto simp: in_set_conv_nth nth_eq_iff_index_eq)
  ultimately have "bij_betw (nth (f[j := xs ! i])) (A \<union> {j}) (set (take i xs) \<union> {f[j := xs ! i] ! j})"
    using A by (intro notIn_Un_bij_betw) auto
  then show ?thesis using A xs by (simp add: take_Suc_conv_app_nth)
qed

lemma bij_card_take:
  assumes "bij_betw f A (set (take i xs))" "distinct xs" "i \<le> length xs"
  shows "card A = i"
  using bij_betw_same_card [OF assms(1)] assms(2,3) by (simp add: distinct_card)

lemma mapped_insert: "j < length mapped \<Longrightarrow> j < p \<Longrightarrow> {l. l < p \<and> mapped[j := True] ! l} = insert j {l. l < p \<and> mapped ! l}"
  by (auto simp: nth_list_update)

lemma unmapped_exists:
  assumes "card {l. l < p \<and> mapped ! l} < p"
  obtains l where "l < p" "\<not> mapped ! l"
proof -
  have "{l. l < p \<and> mapped ! l} = {..<p}" if "\<forall>l<p. mapped ! l" using that by auto
  with assms have "\<not> (\<forall>l<p. mapped ! l)" by force
  then show ?thesis using that by blast
qed

lemma map_existing_ok:
  assumes "arrays_ok ms" "i + k = ms_touchPointCount ms" "ms_touchPointCount ms \<le> ms_pendingTouchPointCount ms"
    "length mapped = 20" "distinct (old_ids ms)"
    "bij_betw (nth (ms_pendingTouchIDs ms)) {l. l < ms_pendingTouchPointCount ms \<and> mapped ! l} (set (take i (old_ids ms)))"
  shows "post (map_existing k i mapped ms) (\<lambda>(mapped', ms'). arrays_ok ms' \<and> ids_frame ms' = ids_frame ms \<and>
    ms_nextTouchID ms' = ms_nextTouchID ms \<and> length mapped' = 20 \<and>
    bij_betw (nth (ms_pendingTouchIDs ms')) {l. l < ms_pendingTouchPointCount ms \<and> mapped' ! l} (set (old_ids ms)))"
  using assms
proof (induction k arbitrary: i mapped ms)
  case (Suc k)
  let ?p = "ms_pendingTouchPointCount ms" and ?M = "{l. l < ms_pendingTouchPointCount ms \<and> mapped ! l}"
  note l = arrays_okD [OF Suc.prems(1)] and t = ids_length(1) [OF Suc.prems(1)]
  have i: "i < ms_touchPointCount ms" using Suc.prems by simp
  have "card ?M = i" using bij_card_take [OF Suc.prems(6,5)] i t by simp
  then obtain l0 where "l0 < ?p" "\<not> mapped ! l0" using unmapped_exists [of ?p mapped] i Suc.prems(3) by auto
  then obtain j where j: "closest ?p 0 (ms_touchXs ms ! i) (ms_touchYs ms ! i) (ms_pendingTouchXs ms) (ms_pendingTouchYs ms)
      mapped INT_MAX None = Some (Some j)" "j < ?p" "\<not> mapped ! j"
    using closest_correct [of ?p "ms_pendingTouchXs ms" "ms_pendingTouchYs ms" mapped l0 "ms_touchXs ms ! i" "ms_touchYs ms ! i"]
      l(9,10,13) Suc.prems(4) by force
  let ?ms = "ms\<lparr>ms_pendingTouchIDs := (ms_pendingTouchIDs ms)[j := old_ids ms ! i]\<rparr>"
  have b: "bij_betw (nth (ms_pendingTouchIDs ?ms)) {l. l < ms_pendingTouchPointCount ?ms \<and> mapped[j := True] ! l} (set (take (Suc i) (old_ids ?ms)))"
    using bij_extend [OF Suc.prems(6) _ _ Suc.prems(5)] mapped_insert [of j mapped ?p] j l i t Suc.prems(4)
    by (simp add: old_ids_def)
  have "post (map_existing k (Suc i) (mapped[j := True]) ?ms) (\<lambda>(mapped', ms'). arrays_ok ms' \<and> ids_frame ms' = ids_frame ?ms \<and>
    ms_nextTouchID ms' = ms_nextTouchID ?ms \<and> length mapped' = 20 \<and>
    bij_betw (nth (ms_pendingTouchIDs ms')) {l. l < ms_pendingTouchPointCount ?ms \<and> mapped' ! l} (set (old_ids ?ms)))"
  proof (rule Suc.IH [OF _ _ _ _ _ b])
    show "arrays_ok ?ms" using Suc.prems(1) l(8) by (simp add: arrays_ok_upd)
    show "distinct (old_ids ?ms)" using Suc.prems(5) by (simp add: old_ids_def)
  qed (use Suc.prems(2-4) in simp_all)
  moreover have "old_ids ?ms = old_ids ms" by (simp add: old_ids_def)
  ultimately show ?case using j l i Suc.prems(3,4) by (simp add: old_ids_nth [OF Suc.prems(1)])
qed (use ids_length(1) in auto)

text \<open>
  The first \<open>i\<close> pending points and the mapped ones have different ids below \<open>nextTouchID\<close>; those that are not
  mapped have ids from \<open>n\<close> on, and the first of all points has \<open>n\<close> if it is not mapped.
\<close>

definition fresh_ids :: "jint \<Rightarrow> bool list \<Rightarrow> jint list \<Rightarrow> nat \<Rightarrow> LensInputMouseState \<Rightarrow> bool" where
  "fresh_ids n mapped ids i ms \<longleftrightarrow>
     inj_on (nth (ms_pendingTouchIDs ms)) {l. l < ms_pendingTouchPointCount ms \<and> (mapped ! l \<or> l < i)} \<and>
     nth (ms_pendingTouchIDs ms) ` {l. l < ms_pendingTouchPointCount ms \<and> (mapped ! l \<or> l < i)} \<subseteq> {1..<ms_nextTouchID ms} \<and>
     n \<le> ms_nextTouchID ms \<and> ms_nextTouchID ms \<le> n + int i \<and>
     (\<forall>l<ms_pendingTouchPointCount ms. mapped ! l \<longrightarrow> ms_pendingTouchIDs ms ! l = ids ! l) \<and>
     (0 < i \<and> \<not> mapped ! 0 \<longrightarrow> ms_pendingTouchIDs ms ! 0 = n)"

lemma fresh_ids_mapped:
  assumes "fresh_ids n mapped ids i ms" "mapped ! i"
  shows "fresh_ids n mapped ids (Suc i) ms"
proof -
  have "{l. l < ms_pendingTouchPointCount ms \<and> (mapped ! l \<or> l < Suc i)} = {l. l < ms_pendingTouchPointCount ms \<and> (mapped ! l \<or> l < i)}"
    using assms(2) by (auto simp: less_Suc_eq)
  then show ?thesis using assms by (auto simp: fresh_ids_def less_Suc_eq)
qed

lemma fresh_ids_new:
  assumes f: "fresh_ids n mapped ids i ms" and i: "\<not> mapped ! i" "i < ms_pendingTouchPointCount ms" and ms: "arrays_ok ms" and n: "1 \<le> n"
  shows "fresh_ids n mapped ids (Suc i) (ms\<lparr>ms_pendingTouchIDs := (ms_pendingTouchIDs ms)[i := ms_nextTouchID ms],
    ms_nextTouchID := ms_nextTouchID ms + 1\<rparr>)"
proof -
  let ?A = "{l. l < ms_pendingTouchPointCount ms \<and> (mapped ! l \<or> l < i)}" and ?f = "nth (ms_pendingTouchIDs ms)"
  let ?g = "nth ((ms_pendingTouchIDs ms)[i := ms_nextTouchID ms])"
  have A: "{l. l < ms_pendingTouchPointCount ms \<and> (mapped ! l \<or> l < Suc i)} = insert i ?A" using i by auto
  have i': "i \<notin> ?A" "i < length (ms_pendingTouchIDs ms)" using i arrays_okD [OF ms] by auto
  have eq: "?g l = ?f l" if "l \<in> ?A" for l using that i'(1) by (cases "l = i") auto
  have img: "?g ` ?A = ?f ` ?A" by (rule image_cong) (use eq in auto)
  have "inj_on ?g ?A" using f by (subst inj_on_cong [of ?A ?g ?f]) (use eq in \<open>auto simp: fresh_ids_def\<close>)
  moreover have "?g i \<notin> ?g ` ?A" using f i' unfolding img by (auto simp: fresh_ids_def)
  ultimately have "inj_on ?g (insert i ?A)" using i' by simp
  moreover have "?g ` insert i ?A \<subseteq> {1..<ms_nextTouchID ms + 1}"
    using f i' n unfolding image_insert img by (auto simp: fresh_ids_def)
  moreover have "\<not> mapped ! 0 \<longrightarrow> ?g 0 = n" using f i' by (cases "i = 0") (auto simp: fresh_ids_def)
  moreover have "\<forall>l<ms_pendingTouchPointCount ms. mapped ! l \<longrightarrow> ?g l = ids ! l"
    using f i(1) by (metis fresh_ids_def nth_list_update_neq)
  ultimately show ?thesis using f unfolding fresh_ids_def by (simp add: A)
qed

lemma assign_new_ok:
  assumes "arrays_ok ms" "i + k = ms_pendingTouchPointCount ms" "length mapped = 20" "fresh_ids n mapped ids i ms" "1 \<le> n" "n + 20 < 2 ^ 31"
  shows "post (assign_new k i mapped ms) (\<lambda>ms'. arrays_ok ms' \<and> ids_frame ms' = ids_frame ms \<and>
    fresh_ids n mapped ids (ms_pendingTouchPointCount ms) ms')"
  using assms
proof (induction k arbitrary: i ms)
  case (Suc k)
  note l = arrays_okD [OF Suc.prems(1)]
  have i: "i < ms_pendingTouchPointCount ms" using Suc.prems(2) by simp
  show ?case
  proof (cases "mapped ! i")
    case True
    then show ?thesis
      using Suc.IH [of ms "Suc i"] fresh_ids_mapped [OF Suc.prems(4) True] Suc.prems l i by simp
  next
    case False
    let ?ms = "ms\<lparr>ms_pendingTouchIDs := (ms_pendingTouchIDs ms)[i := ms_nextTouchID ms], ms_nextTouchID := ms_nextTouchID ms + 1\<rparr>"
    have s: "s32 (ms_nextTouchID ms + 1) = ms_nextTouchID ms + 1"
      using Suc.prems(4-6) i l(13) by (intro s32_eq) (auto simp: fresh_ids_def)
    have "post (assign_new k (Suc i) mapped ?ms) (\<lambda>ms'. arrays_ok ms' \<and> ids_frame ms' = ids_frame ?ms \<and>
        fresh_ids n mapped ids (ms_pendingTouchPointCount ?ms) ms')"
      by (intro Suc.IH) (use fresh_ids_new [OF Suc.prems(4) False i Suc.prems(1,5)] Suc.prems l in \<open>simp_all add: arrays_ok_upd\<close>)
    then show ?thesis using False s l i Suc.prems(3) by simp
  qed
qed simp

text \<open>The \<open>i\<close> pending points so far have the ids of different existing points.\<close>

lemma map_pending_ok:
  assumes "arrays_ok ms" "i + k = ms_pendingTouchPointCount ms" "ms_pendingTouchPointCount ms < ms_touchPointCount ms"
    "length mapped = 20" "distinct (old_ids ms)" "distinct (take i (ms_pendingTouchIDs ms))"
    "set (take i (ms_pendingTouchIDs ms)) = nth (old_ids ms) ` {l. l < ms_touchPointCount ms \<and> mapped ! l}"
  shows "post (map_pending k i mapped ms) (\<lambda>ms'. arrays_ok ms' \<and> ids_frame ms' = ids_frame ms \<and>
    ms_nextTouchID ms' = ms_nextTouchID ms \<and> distinct (pending_ids ms') \<and> set (pending_ids ms') \<subseteq> set (old_ids ms))"
  using assms
proof (induction k arbitrary: i mapped ms)
  case 0
  have "set (take i (ms_pendingTouchIDs ms)) \<subseteq> set (old_ids ms)"
    unfolding 0(7) using ids_length(1) [OF 0(1)] by (auto simp: in_set_conv_nth)
  then show ?case using 0 by (simp add: pending_ids_def)
next
  case (Suc k)
  let ?t = "ms_touchPointCount ms" and ?M = "{l. l < ms_touchPointCount ms \<and> mapped ! l}"
  note l = arrays_okD [OF Suc.prems(1)] and t = ids_length(1) [OF Suc.prems(1)]
  have i: "i < ms_pendingTouchPointCount ms" using Suc.prems(2) by simp
  have inj: "inj_on (nth (old_ids ms)) ?M" using Suc.prems(5) t by (auto simp: inj_on_def nth_eq_iff_index_eq)
  have "card ?M = i"
    using distinct_card [OF Suc.prems(6)] card_image [OF inj] Suc.prems(7) i l(8,13) by simp
  then obtain l0 where "l0 < ?t" "\<not> mapped ! l0" using unmapped_exists [of ?t mapped] i Suc.prems(3) by auto
  then obtain j where j: "closest ?t 0 (ms_pendingTouchXs ms ! i) (ms_pendingTouchYs ms ! i) (ms_touchXs ms) (ms_touchYs ms)
      mapped INT_MAX None = Some (Some j)" "j < ?t" "\<not> mapped ! j"
    using closest_correct [of ?t "ms_touchXs ms" "ms_touchYs ms" mapped l0 "ms_pendingTouchXs ms ! i" "ms_pendingTouchYs ms ! i"]
      l(4,5,12) Suc.prems(4) by force
  let ?ids = "(ms_pendingTouchIDs ms)[i := old_ids ms ! j]"
  let ?ms = "ms\<lparr>ms_pendingTouchIDs := ?ids\<rparr>"
  have take: "take (Suc i) ?ids = take i (ms_pendingTouchIDs ms) @ [old_ids ms ! j]"
    using i l(8,13) by (simp add: take_Suc_conv_app_nth)
  have "old_ids ms ! j \<notin> nth (old_ids ms) ` ?M" using inj j(2,3) Suc.prems(5) t by (auto simp: nth_eq_iff_index_eq)
  then have d: "distinct (take (Suc i) ?ids)" using Suc.prems(6,7) unfolding take by simp
  have set: "set (take (Suc i) ?ids) = nth (old_ids ms) ` {l. l < ?t \<and> mapped[j := True] ! l}"
    using mapped_insert [of j mapped ?t] j(2) l(12) Suc.prems(4,7) unfolding take by simp
  have "post (map_pending k (Suc i) (mapped[j := True]) ?ms) (\<lambda>ms'. arrays_ok ms' \<and> ids_frame ms' = ids_frame ?ms \<and>
    ms_nextTouchID ms' = ms_nextTouchID ?ms \<and> distinct (pending_ids ms') \<and> set (pending_ids ms') \<subseteq> set (old_ids ?ms))"
  proof (rule Suc.IH)
    show "arrays_ok ?ms" using Suc.prems(1) l(8) by (simp add: arrays_ok_upd)
    show "distinct (old_ids ?ms)" using Suc.prems(5) by (simp add: old_ids_def)
    show "set (take (Suc i) (ms_pendingTouchIDs ?ms)) = nth (old_ids ?ms) ` {l. l < ms_touchPointCount ?ms \<and> mapped[j := True] ! l}"
      using set by (simp add: old_ids_def)
  qed (use Suc.prems(2-4) d in simp_all)
  moreover have "old_ids ?ms = old_ids ms" by (simp add: old_ids_def)
  ultimately show ?case using j l i Suc.prems(3,4) by (simp add: old_ids_nth [OF Suc.prems(1)])
qed

text \<open>The ids of the existing points are different and smaller than the next one.\<close>

definition ids_ok :: "LensInputMouseState \<Rightarrow> bool" where
  "ids_ok ms \<longleftrightarrow> arrays_ok ms \<and> distinct (old_ids ms) \<and>
     (ms_touchPointCount ms > 0 \<longrightarrow> set (old_ids ms) \<subseteq> {1..<ms_nextTouchID ms} \<and> ms_nextTouchID ms + 20 < 2 ^ 31)"

text \<open>
  The contract of the assignment: every point has its own id. If points were added, the existing ids are kept
  and the others are new; if points were removed, no id is new. Without existing points the first id is 1.
\<close>

definition ids_assigned :: "LensInputMouseState \<Rightarrow> LensInputMouseState \<Rightarrow> bool" where
  "ids_assigned ms ms' \<longleftrightarrow> arrays_ok ms' \<and> ids_frame ms' = ids_frame ms \<and> distinct (pending_ids ms') \<and>
     set (pending_ids ms') \<union> set (old_ids ms) \<subseteq> {1..<ms_nextTouchID ms'} \<and>
     (ms_touchPointCount ms \<le> ms_pendingTouchPointCount ms \<longrightarrow> set (old_ids ms) \<subseteq> set (pending_ids ms')) \<and>
     (ms_touchPointCount ms = 0 \<longrightarrow> ms_pendingTouchIDs ms' ! 0 = 1) \<and>
     (0 < ms_touchPointCount ms \<longrightarrow> ms_nextTouchID ms \<le> ms_nextTouchID ms' \<and>
        (ms_pendingTouchPointCount ms \<le> ms_touchPointCount ms \<longrightarrow>
          set (pending_ids ms') \<subseteq> set (old_ids ms) \<and> ms_nextTouchID ms' = ms_nextTouchID ms))"

lemma fresh_ids_done:
  assumes f: "fresh_ids n mapped ids (ms_pendingTouchPointCount ms) ms" and ms: "arrays_ok ms"
  shows "distinct (pending_ids ms)" "set (pending_ids ms) \<subseteq> {1..<ms_nextTouchID ms}" "n \<le> ms_nextTouchID ms"
    "\<forall>l<ms_pendingTouchPointCount ms. mapped ! l \<longrightarrow> pending_ids ms ! l = ids ! l"
proof -
  let ?p = "ms_pendingTouchPointCount ms"
  have eq: "{l. l < ?p \<and> (mapped ! l \<or> l < ?p)} = {..<?p}" by auto
  have nth: "pending_ids ms ! l = ms_pendingTouchIDs ms ! l" if "l < ?p" for l using that by (simp add: pending_ids_def)
  note f' = f [unfolded fresh_ids_def eq]
  show "distinct (pending_ids ms)"
    using f' ids_length(2) [OF ms] by (auto simp: distinct_conv_nth nth inj_on_def)
  show "set (pending_ids ms) \<subseteq> {1..<ms_nextTouchID ms}"
    using f' ids_length(2) [OF ms] by (auto simp: in_set_conv_nth nth image_subset_iff)
  show "n \<le> ms_nextTouchID ms" "\<forall>l<?p. mapped ! l \<longrightarrow> pending_ids ms ! l = ids ! l" using f' by (auto simp: nth)
qed

lemma none_mapped_empty: "p \<le> 20 \<Longrightarrow> {l. l < p \<and> replicate 20 False ! l} = {}"
  by auto

lemma existing_mapped_ok:
  assumes ms: "ids_ok ms" and c: "0 < ms_touchPointCount ms" "ms_touchPointCount ms \<le> ms_pendingTouchPointCount ms"
    and m: "arrays_ok ms'" "ids_frame ms' = ids_frame ms" "ms_nextTouchID ms' = ms_nextTouchID ms" "length mapped = 20"
      "bij_betw (nth (ms_pendingTouchIDs ms')) {l. l < ms_pendingTouchPointCount ms \<and> mapped ! l} (set (old_ids ms))"
  shows "post (if ms_touchPointCount ms < ms_pendingTouchPointCount ms
      then assign_new (ms_pendingTouchPointCount ms) 0 mapped ms' else Some ms') (ids_assigned ms)"
proof -
  let ?p = "ms_pendingTouchPointCount ms" and ?t = "ms_touchPointCount ms" and ?M = "{l. l < ms_pendingTouchPointCount ms \<and> mapped ! l}"
  note a = ms [unfolded ids_ok_def, THEN conjunct1] and f = ids_frame_fields [OF m(2)]
  have old: "distinct (old_ids ms)" "set (old_ids ms) \<subseteq> {1..<ms_nextTouchID ms}" "ms_nextTouchID ms + 20 < 2 ^ 31"
    using ms c(1) by (auto simp: ids_ok_def)
  have n: "1 \<le> ms_nextTouchID ms" using old(2) c(1) ids_length(1) [OF a] by (cases "old_ids ms") auto
  have img: "nth (ms_pendingTouchIDs ms') ` ?M = set (old_ids ms)" and inj: "inj_on (nth (ms_pendingTouchIDs ms')) ?M"
    using m(5) by (simp_all add: bij_betw_def)
  show ?thesis
  proof (cases "?t < ?p")
    case True
    have "fresh_ids (ms_nextTouchID ms) mapped (ms_pendingTouchIDs ms') 0 ms'"
      using img inj old(2) m(3) by (simp add: fresh_ids_def f)
    then have "post (assign_new ?p 0 mapped ms') (\<lambda>ms''. arrays_ok ms'' \<and> ids_frame ms'' = ids_frame ms' \<and>
        fresh_ids (ms_nextTouchID ms) mapped (ms_pendingTouchIDs ms') (ms_pendingTouchPointCount ms') ms'')"
      by (intro assign_new_ok) (use m(1,4) f(5) n old(3) in auto)
    then have "post (assign_new ?p 0 mapped ms') (ids_assigned ms)"
    proof (rule post_mono)
      fix ms'' assume q: "arrays_ok ms'' \<and> ids_frame ms'' = ids_frame ms' \<and>
        fresh_ids (ms_nextTouchID ms) mapped (ms_pendingTouchIDs ms') (ms_pendingTouchPointCount ms') ms''"
      then have p: "ms_pendingTouchPointCount ms'' = ?p" using ids_frame_fields(5) f(5) by metis
      note d = fresh_ids_done [of "ms_nextTouchID ms" mapped "ms_pendingTouchIDs ms'" ms'']
      have "x \<in> set (pending_ids ms'')" if "x \<in> set (old_ids ms)" for x
        using that d(4) q p ids_length(2) [of ms''] f(5) unfolding img [symmetric] by (auto simp: in_set_conv_nth)
      with q d p f(5) m(2) old(2) True c(1) show "ids_assigned ms ms''" by (auto simp: ids_assigned_def)
    qed
    with True show ?thesis by simp
  next
    case False
    have "card ?M = ?p" using bij_betw_same_card [OF m(5)] distinct_card [OF old(1)] ids_length(1) [OF a] False c(2) by simp
    then have M: "?M = {..<?p}" by (intro card_subset_eq) auto
    have "pending_ids ms' = map (nth (ms_pendingTouchIDs ms')) [0..<?p]"
      using arrays_okD(8) [OF m(1)] arrays_okD(13) [OF a] by (intro nth_equalityI) (auto simp: pending_ids_def f)
    then have "distinct (pending_ids ms')" "set (pending_ids ms') = set (old_ids ms)"
      using img inj by (simp_all add: M distinct_map atLeast0LessThan)
    with m(1-3) old(2) False c(1) show ?thesis by (simp add: ids_assigned_def)
  qed
qed

lemma assign_ids_ok:
  assumes ms: "ids_ok ms"
  shows "post (assign_ids ms) (\<lambda>ms'. ms_pendingTouchPointCount ms > 0 \<longrightarrow> ids_assigned ms ms')"
proof -
  let ?p = "ms_pendingTouchPointCount ms" and ?t = "ms_touchPointCount ms" and ?none = "replicate 20 False"
  note a = ms [unfolded ids_ok_def, THEN conjunct1] and d = ms [unfolded ids_ok_def, THEN conjunct2, THEN conjunct1]
  note l = arrays_okD [OF a]
  consider "?p = 0" | "?p > 0" "?t = 0" | "?t > 0" "?p \<ge> ?t" | "?p > 0" "?p < ?t" by linarith
  then show ?thesis
  proof cases
    case 2
    let ?ms = "ms\<lparr>ms_nextTouchID := 1\<rparr>"
    have "post (assign_new ?p 0 ?none ?ms) (\<lambda>ms'. arrays_ok ms' \<and> ids_frame ms' = ids_frame ?ms \<and>
        fresh_ids 1 ?none [] (ms_pendingTouchPointCount ?ms) ms')"
      by (rule assign_new_ok) (use a none_mapped_empty [OF l(13)] l(13) in \<open>auto simp: arrays_ok_upd fresh_ids_def inj_on_def\<close>)
    then have "post (assign_new ?p 0 ?none ?ms) (ids_assigned ms)"
    proof (rule post_mono)
      fix ms' assume m: "arrays_ok ms' \<and> ids_frame ms' = ids_frame ?ms \<and> fresh_ids 1 ?none [] (ms_pendingTouchPointCount ?ms) ms'"
      then have "ids_frame ms' = ids_frame ms" by simp
      with m fresh_ids_done [of 1 ?none "[]" ms'] ids_frame_fields(5) [of ms' ms] 2 show "ids_assigned ms ms'"
        by (auto simp: ids_assigned_def old_ids_def fresh_ids_def)
    qed
    with 2 show ?thesis by (simp add: assign_ids_def Let_def LENS_MAX_TOUCH_POINTS_def post_mono)
  next
    case 3
    have e: "post (map_existing ?t 0 ?none ms) (\<lambda>(mapped', ms'). arrays_ok ms' \<and> ids_frame ms' = ids_frame ms \<and>
      ms_nextTouchID ms' = ms_nextTouchID ms \<and> length mapped' = 20 \<and>
      bij_betw (nth (ms_pendingTouchIDs ms')) {l. l < ?p \<and> mapped' ! l} (set (old_ids ms)))"
      by (rule map_existing_ok) (use a d 3 none_mapped_empty [OF l(13)] in \<open>auto simp: bij_betw_def inj_on_def\<close>)
    have "post (if ?t < ?p then assign_new ?p 0 mapped ms' else Some ms') (ids_assigned ms)"
      if m: "arrays_ok ms'" "ids_frame ms' = ids_frame ms" "ms_nextTouchID ms' = ms_nextTouchID ms" "length mapped = 20"
        "bij_betw (nth (ms_pendingTouchIDs ms')) {l. l < ?p \<and> mapped ! l} (set (old_ids ms))" for mapped ms'
      using existing_mapped_ok [OF ms 3 m] .
    then show ?thesis
      using 3 by (auto simp: assign_ids_def Let_def LENS_MAX_TOUCH_POINTS_def intro!: post_bindI [OF e])
  next
    case 4
    have "post (map_pending ?p 0 ?none ms) (ids_assigned ms)"
      by (rule post_mono [OF map_pending_ok])
        (use a d 4 ms none_mapped_empty [OF l(12)] in \<open>auto simp: ids_assigned_def ids_ok_def\<close>)
    with 4 show ?thesis by (simp add: assign_ids_def Let_def LENS_MAX_TOUCH_POINTS_def post_mono)
  qed (simp add: assign_ids_def)
qed

section \<open>States\<close>

lemma find_id_ok:
  assumes "j + k \<le> length ids"
  shows "\<exists>r. find_id k j tid ids = Some r \<and> (r = None \<longleftrightarrow> tid \<notin> set (take k (drop j ids))) \<and>
    (\<forall>l. r = Some l \<longrightarrow> l < j + k \<and> ids ! l = tid)"
  using assms
proof (induction k arbitrary: j)
  case (Suc k)
  have "drop j ids = ids ! j # drop (Suc j) ids" using Suc.prems by (simp add: Cons_nth_drop_Suc)
  moreover obtain r where "find_id k (Suc j) tid ids = Some r" "r = None \<longleftrightarrow> tid \<notin> set (take k (drop (Suc j) ids))"
    "\<forall>l. r = Some l \<longrightarrow> l < Suc j + k \<and> ids ! l = tid"
    using Suc.IH [of "Suc j"] Suc.prems by auto
  ultimately show ?case using Suc.prems by auto
qed simp

text \<open>What finding the states of the points does not change.\<close>

definition points_frame :: "LensInputMouseState \<Rightarrow> LensInputMouseState" where
  "points_frame ms = ms\<lparr>ms_touchIsDragging := [], ms_pendingTouchXs := [], ms_pendingTouchYs := []\<rparr>"

lemma points_frame_upd [simp]:
  "points_frame (ms\<lparr>ms_touchIsDragging := b\<rparr>) = points_frame ms" "points_frame (ms\<lparr>ms_pendingTouchXs := r\<rparr>) = points_frame ms"
  "points_frame (ms\<lparr>ms_pendingTouchYs := r\<rparr>) = points_frame ms"
  by (simp_all add: points_frame_def)

lemma points_frame_fields:
  assumes "points_frame ms' = points_frame ms"
  shows "ms_touchIDs ms' = ms_touchIDs ms" "ms_touchXs ms' = ms_touchXs ms" "ms_touchYs ms' = ms_touchYs ms"
    "ms_touchPointCount ms' = ms_touchPointCount ms" "ms_pendingTouchPointCount ms' = ms_pendingTouchPointCount ms"
    "ms_pendingTouchIDs ms' = ms_pendingTouchIDs ms" "ms_nextTouchID ms' = ms_nextTouchID ms"
    "ms_touchPrimaryPointID ms' = ms_touchPrimaryPointID ms"
    "ms_pendingInputEvents ms' = ms_pendingInputEvents ms" "ms_pendingInputEventCount ms' = ms_pendingInputEventCount ms"
    "old_ids ms' = old_ids ms" "pending_ids ms' = pending_ids ms"
  using arg_cong [OF assms, of ms_touchIDs]
    arg_cong [OF assms, of ms_touchXs]
    arg_cong [OF assms, of ms_touchYs]
    arg_cong [OF assms, of ms_touchPointCount]
    arg_cong [OF assms, of ms_pendingTouchPointCount]
    arg_cong [OF assms, of ms_pendingTouchIDs]
    arg_cong [OF assms, of ms_nextTouchID]
    arg_cong [OF assms, of ms_touchPrimaryPointID]
    arg_cong [OF assms, of ms_pendingInputEvents]
    arg_cong [OF assms, of ms_pendingInputEventCount]
  by (simp_all add: points_frame_def old_ids_def pending_ids_def)

text \<open>
  The report of an existing point: it has moved, it is held at its last position, or, if its id is not
  pending, it is released there.
\<close>

definition existing_point :: "LensInputMouseState \<Rightarrow> nat \<Rightarrow> TouchPoint \<Rightarrow> bool" where
  "existing_point ms i q \<longleftrightarrow> tp_id q = old_ids ms ! i \<and> tp_state q \<in> {TOUCH_MOVED, TOUCH_STILL, TOUCH_RELEASED} \<and>
     (tp_state q = TOUCH_RELEASED \<longleftrightarrow> tp_id q \<notin> set (pending_ids ms)) \<and>
     (tp_state q \<noteq> TOUCH_MOVED \<longrightarrow> tp_x q = ms_touchXs ms ! i \<and> tp_y q = ms_touchYs ms ! i)"

lemma existing_point_frame:
  assumes "points_frame ms' = points_frame ms"
  shows "existing_point ms' = existing_point ms"
  by (simp add: existing_point_def points_frame_fields [OF assms] fun_eq_iff)

lemma track_point_ok:
  assumes ms: "arrays_ok ms" and i: "i < ms_touchPointCount ms" and j: "j < ms_pendingTouchPointCount ms"
    and tid: "tid = old_ids ms ! i" "tid \<in> set (pending_ids ms)"
  shows "post (track_point g i j tid ms) (\<lambda>(q, ms'). arrays_ok ms' \<and> points_frame ms' = points_frame ms \<and> existing_point ms i q)"
  using assms arrays_okD [OF ms]
  by (auto simp: track_point_def existing_point_def arrays_ok_upd touch_consts Let_def)

lemma release_point_ok:
  assumes ms: "arrays_ok ms" and i: "i < ms_touchPointCount ms" and tid: "old_ids ms ! i \<notin> set (pending_ids ms)"
  shows "post (release_point uninit i ms) (\<lambda>(q, ms'). arrays_ok ms' \<and> points_frame ms' = points_frame ms \<and> existing_point ms i q)"
  using assms arrays_okD [OF ms]
  by (simp add: release_point_def existing_point_def arrays_ok_upd touch_consts old_ids_nth)

text \<open>A step of a loop that appends a report for every existing point.\<close>

definition points_so_far :: "LensInputMouseState \<Rightarrow> nat \<Rightarrow> TouchPoint list \<Rightarrow> bool" where
  "points_so_far ms i ps \<longleftrightarrow> length ps = i \<and> (\<forall>l<i. existing_point ms l (ps ! l))"

lemma points_so_far_snoc:
  "points_so_far ms i ps \<Longrightarrow> existing_point ms i q \<Longrightarrow> points_so_far ms (Suc i) (ps @ [q])"
  by (auto simp: points_so_far_def nth_append less_Suc_eq)

lemma points_so_far_frame:
  assumes "points_frame ms' = points_frame ms"
  shows "points_so_far ms' = points_so_far ms"
  by (simp add: points_so_far_def existing_point_frame [OF assms] fun_eq_iff)

definition all_points :: "LensInputMouseState \<Rightarrow> TouchPoint list \<times> LensInputMouseState \<Rightarrow> bool" where
  "all_points ms = (\<lambda>(ps, ms'). arrays_ok ms' \<and> points_frame ms' = points_frame ms \<and> points_so_far ms (ms_touchPointCount ms) ps)"

lemma all_points_frame:
  assumes "points_frame ms' = points_frame ms"
  shows "all_points ms' = all_points ms"
  by (simp add: all_points_def points_so_far_frame [OF assms] points_frame_fields [OF assms] assms fun_eq_iff)

lemma existing_points_ok:
  assumes "arrays_ok ms" "i + k = ms_touchPointCount ms" "points_so_far ms i ps"
  shows "post (existing_points uninit g k i ps ms) (all_points ms)"
  using assms
proof (induction k arbitrary: i ps ms)
  case (Suc k)
  note l = arrays_okD [OF Suc.prems(1)]
  let ?tid = "ms_touchIDs ms ! i"
  have i: "i < ms_touchPointCount ms" and tid: "?tid = old_ids ms ! i" using Suc.prems(2) old_ids_nth [OF Suc.prems(1)] by auto
  obtain r where r: "find_id (ms_pendingTouchPointCount ms) 0 ?tid (ms_pendingTouchIDs ms) = Some r"
    "r = None \<longleftrightarrow> ?tid \<notin> set (pending_ids ms)" "\<And>l. r = Some l \<Longrightarrow> l < ms_pendingTouchPointCount ms"
    using find_id_ok [of 0 "ms_pendingTouchPointCount ms" "ms_pendingTouchIDs ms" ?tid] l by (auto simp: pending_ids_def)
  have "post (case r of Some j \<Rightarrow> track_point g i j ?tid ms | None \<Rightarrow> release_point uninit i ms)
      (\<lambda>(q, ms'). arrays_ok ms' \<and> points_frame ms' = points_frame ms \<and> existing_point ms i q)"
  proof (cases r)
    case None
    then show ?thesis using release_point_ok [OF Suc.prems(1) i, of uninit] r(2) tid by simp
  next
    case (Some j)
    then show ?thesis using track_point_ok [OF Suc.prems(1) i r(3) tid] r(2) by simp
  qed
  then obtain q ms' where q: "(case r of Some j \<Rightarrow> track_point g i j ?tid ms | None \<Rightarrow> release_point uninit i ms) = Some (q, ms')"
    "arrays_ok ms'" "points_frame ms' = points_frame ms" "existing_point ms i q"
    by (auto simp: post_def)
  have "post (existing_points uninit g k (Suc i) (ps @ [q]) ms') (all_points ms')"
    by (intro Suc.IH) (use q(2,4) Suc.prems(2,3) in \<open>auto simp: points_so_far_frame [OF q(3)] points_frame_fields(4) [OF q(3)] intro: points_so_far_snoc\<close>)
  moreover have "length ps < 20" using Suc.prems(3) i l(12) by (simp add: points_so_far_def)
  ultimately show ?case
    using q r(1) i l by (simp add: add_point_def LENS_MAX_TOUCH_POINTS_def all_points_frame [OF q(3)])
qed (simp add: all_points_def points_so_far_def)

lemma release_all_ok:
  assumes "arrays_ok ms" "i + k = ms_touchPointCount ms" "points_so_far ms i ps" "ms_pendingTouchPointCount ms = 0"
  shows "post (release_all uninit k i ps ms) (all_points ms)"
  using assms
proof (induction k arbitrary: i ps ms)
  case (Suc k)
  note l = arrays_okD [OF Suc.prems(1)]
  have i: "i < ms_touchPointCount ms" using Suc.prems(2) by simp
  then obtain q ms' where q: "release_point uninit i ms = Some (q, ms')"
    "arrays_ok ms'" "points_frame ms' = points_frame ms" "existing_point ms i q"
    using release_point_ok [OF Suc.prems(1) i, of uninit] Suc.prems(4) by (auto simp: post_def pending_ids_def)
  have "post (release_all uninit k (Suc i) (ps @ [q]) ms') (all_points ms')"
    by (intro Suc.IH) (use q(2,4) Suc.prems(2-4) in \<open>auto simp: points_so_far_frame [OF q(3)] points_frame_fields(4,5) [OF q(3)] intro: points_so_far_snoc\<close>)
  moreover have "length ps < 20" using Suc.prems(3) i l(12) by (simp add: points_so_far_def)
  ultimately show ?case using q by (simp add: add_point_def LENS_MAX_TOUCH_POINTS_def all_points_frame [OF q(3)])
qed (simp add: all_points_def points_so_far_def)

end
