(* ===== verification/LensTouchProps.thy ===== *)
theory LensTouchProps
  imports LensTouch
begin

text \<open>
  Touch events: the contract of the points that a report leads to, the invariant of a touch device, and the
  properties of the handling of a report.
\<close>

section \<open>The points of an event\<close>

lemma pressed_points_ok:
  assumes "arrays_ok ms" "i + k = ms_pendingTouchPointCount ms"
    "length ps + length (filter (\<lambda>t. t \<notin> set (old_ids ms)) (drop i (pending_ids ms))) \<le> 20"
  shows "post (pressed_points k i ps ms) (\<lambda>(ps', ms'). arrays_ok ms' \<and> points_frame ms' = points_frame ms \<and>
    (\<exists>qs. ps' = ps @ qs \<and> map tp_id qs = filter (\<lambda>t. t \<notin> set (old_ids ms)) (drop i (pending_ids ms)) \<and>
       (\<forall>q\<in>set qs. tp_state q = TOUCH_PRESSED)))"
  using assms
proof (induction k arbitrary: i ps ms)
  case 0
  then show ?case using ids_length(2) [OF 0(1)] by simp
next
  case (Suc k)
  note l = arrays_okD [OF Suc.prems(1)]
  let ?tid = "pending_ids ms ! i" and ?new = "\<lambda>i. filter (\<lambda>t. t \<notin> set (old_ids ms)) (drop i (pending_ids ms))"
  have i: "i < ms_pendingTouchPointCount ms" using Suc.prems(2) by simp
  have at: "at (ms_pendingTouchIDs ms) i = Some ?tid" using i l by (simp add: pending_ids_def)
  have drop: "drop i (pending_ids ms) = ?tid # drop (Suc i) (pending_ids ms)"
    using i ids_length(2) [OF Suc.prems(1)] by (simp add: Cons_nth_drop_Suc)
  obtain r where r: "find_id (ms_touchPointCount ms) 0 ?tid (ms_touchIDs ms) = Some r" "r = None \<longleftrightarrow> ?tid \<notin> set (old_ids ms)"
    using find_id_ok [of 0 "ms_touchPointCount ms" "ms_touchIDs ms" ?tid] l by (auto simp: old_ids_def)
  show ?case
  proof (cases "?tid \<in> set (old_ids ms)")
    case True
    have "post (pressed_points k (Suc i) ps ms) (\<lambda>(ps', ms'). arrays_ok ms' \<and> points_frame ms' = points_frame ms \<and>
      (\<exists>qs. ps' = ps @ qs \<and> map tp_id qs = ?new (Suc i) \<and> (\<forall>q\<in>set qs. tp_state q = TOUCH_PRESSED)))"
      by (intro Suc.IH) (use Suc.prems True drop in simp_all)
    with True r at drop show ?thesis by simp
  next
    case False
    define ms' where "ms' = ms\<lparr>ms_touchIsDragging := (ms_touchIsDragging ms)[i := False]\<rparr>"
    define q where "q = \<lparr>tp_state = TOUCH_PRESSED, tp_id = ?tid, tp_x = ms_pendingTouchXs ms ! i,
      tp_y = ms_pendingTouchYs ms ! i, tp_device = ms_pendingTouchTrackingIDs ms ! i\<rparr>"
    have fr: "points_frame ms' = points_frame ms" by (simp add: ms'_def)
    have ok: "arrays_ok ms'" unfolding ms'_def using Suc.prems(1) l by (simp add: arrays_ok_upd)
    have len: "length ps < 20" using Suc.prems(3) False drop by simp
    have "post (pressed_points k (Suc i) (ps @ [q]) ms') (\<lambda>(ps', ms''). arrays_ok ms'' \<and> points_frame ms'' = points_frame ms' \<and>
      (\<exists>qs. ps' = (ps @ [q]) @ qs \<and> map tp_id qs = filter (\<lambda>t. t \<notin> set (old_ids ms')) (drop (Suc i) (pending_ids ms')) \<and>
        (\<forall>q\<in>set qs. tp_state q = TOUCH_PRESSED)))"
      by (intro Suc.IH) (use ok Suc.prems(2,3) False drop in \<open>simp_all add: points_frame_fields [OF fr]\<close>)
    then have "post (pressed_points k (Suc i) (ps @ [q]) ms') (\<lambda>(ps', ms''). arrays_ok ms'' \<and> points_frame ms'' = points_frame ms \<and>
      (\<exists>qs. ps' = ps @ qs \<and> map tp_id qs = ?new i \<and> (\<forall>q\<in>set qs. tp_state q = TOUCH_PRESSED)))"
    proof (rule post_mono)
      fix x assume x: "case x of (ps', ms'') \<Rightarrow> arrays_ok ms'' \<and> points_frame ms'' = points_frame ms' \<and>
        (\<exists>qs. ps' = (ps @ [q]) @ qs \<and> map tp_id qs = filter (\<lambda>t. t \<notin> set (old_ids ms')) (drop (Suc i) (pending_ids ms')) \<and>
        (\<forall>q\<in>set qs. tp_state q = TOUCH_PRESSED))"
      then obtain ps' ms'' qs where e: "x = (ps', ms'')" "arrays_ok ms''" "points_frame ms'' = points_frame ms" "ps' = ps @ (q # qs)"
        "map tp_id qs = ?new (Suc i)" "\<forall>q\<in>set qs. tp_state q = TOUCH_PRESSED"
        by (auto simp: points_frame_fields [OF fr] fr)
      moreover have "map tp_id (q # qs) = ?new i" using e(5) drop False by (simp add: q_def)
      moreover have "\<forall>p\<in>set (q # qs). tp_state p = TOUCH_PRESSED" using e(6) by (simp add: q_def)
      ultimately show "case x of (ps', ms'') \<Rightarrow> arrays_ok ms'' \<and> points_frame ms'' = points_frame ms \<and>
        (\<exists>qs. ps' = ps @ qs \<and> map tp_id qs = ?new i \<and> (\<forall>q\<in>set qs. tp_state q = TOUCH_PRESSED))" by blast
    qed
    then show ?thesis
      using False r at i l len by (simp add: ms'_def q_def add_point_def LENS_MAX_TOUCH_POINTS_def)
  qed
qed

text \<open>
  The contract of the points of an event, from the ids of the last report and of this one: the existing points come
  first, a point is released if it is not in this report and pressed if it was not in the last one.
\<close>

definition touch_report :: "jint list \<Rightarrow> jint list \<Rightarrow> TouchPoint list \<Rightarrow> bool" where
  "touch_report old new ps \<longleftrightarrow> map tp_id ps = old @ filter (\<lambda>t. t \<notin> set old) new \<and>
     (\<forall>p\<in>set ps. (tp_state p = TOUCH_RELEASED \<longleftrightarrow> tp_id p \<notin> set new) \<and> (tp_state p = TOUCH_PRESSED \<longleftrightarrow> tp_id p \<notin> set old))"

lemma points_count:
  assumes d: "distinct xs" "distinct ys" and sub: "set xs \<subseteq> set ys \<or> set ys \<subseteq> set xs"
  shows "length xs + length (filter (\<lambda>y. y \<notin> set xs) ys) = max (length xs) (length ys)"
proof -
  have "length (filter (\<lambda>y. y \<notin> set xs) ys) = card (set ys - set xs)"
    using distinct_card [of "filter (\<lambda>y. y \<notin> set xs) ys"] d(2) by (simp add: set_diff_eq)
  moreover have "card (set ys - set xs) = card (set ys) - card (set xs)" if "set xs \<subseteq> set ys"
    using that by (simp add: card_Diff_subset)
  moreover have "card (set ys - set xs) = 0" "card (set ys) \<le> card (set xs)" if "set ys \<subseteq> set xs"
    using that by (auto intro: card_mono)
  moreover have "card (set xs) \<le> card (set ys)" if "set xs \<subseteq> set ys" using that by (auto intro: card_mono)
  ultimately show ?thesis using sub d by (auto simp: distinct_card)
qed

lemma all_points_report:
  assumes a: "all_points ms (ps, ms')" and ms: "arrays_ok ms" and new: "map tp_id qs = filter (\<lambda>t. t \<notin> set (old_ids ms)) (pending_ids ms)"
    "\<forall>q\<in>set qs. tp_state q = TOUCH_PRESSED"
  shows "touch_report (old_ids ms) (pending_ids ms) (ps @ qs)"
proof -
  have len: "length ps = ms_touchPointCount ms" and e: "\<And>l. l < ms_touchPointCount ms \<Longrightarrow> existing_point ms l (ps ! l)"
    using a by (auto simp: all_points_def points_so_far_def)
  have "map tp_id ps = old_ids ms"
    using e len ids_length(1) [OF ms] by (intro nth_equalityI) (auto simp: existing_point_def)
  moreover have "existing_point ms l p \<Longrightarrow> l < ms_touchPointCount ms \<Longrightarrow>
      (tp_state p = TOUCH_RELEASED \<longleftrightarrow> tp_id p \<notin> set (pending_ids ms)) \<and> tp_state p \<noteq> TOUCH_PRESSED \<and> tp_id p \<in> set (old_ids ms)" for l p
    using ids_length(1) [OF ms] by (auto simp: existing_point_def touch_consts)
  then have "\<forall>p\<in>set ps. (tp_state p = TOUCH_RELEASED \<longleftrightarrow> tp_id p \<notin> set (pending_ids ms)) \<and> tp_state p \<noteq> TOUCH_PRESSED \<and> tp_id p \<in> set (old_ids ms)"
    using e len by (metis in_set_conv_nth)
  moreover have "\<forall>q\<in>set qs. tp_id q \<in> set (pending_ids ms) - set (old_ids ms)"
    using arg_cong [OF new(1), of set] by auto
  ultimately show ?thesis using new by (auto simp: touch_report_def touch_consts)
qed

lemma touch_points_ok:
  assumes ms: "arrays_ok ms" and p: "0 < ms_pendingTouchPointCount ms \<Longrightarrow> distinct (old_ids ms) \<and> distinct (pending_ids ms) \<and>
    (set (old_ids ms) \<subseteq> set (pending_ids ms) \<or> set (pending_ids ms) \<subseteq> set (old_ids ms))"
  shows "post (touch_points uninit device g ms) (\<lambda>(ps, save, ms'). arrays_ok ms' \<and> points_frame ms' = points_frame ms \<and> length ps \<le> 20 \<and>
    save = (0 < ms_pendingTouchPointCount ms \<or> \<not> (dev_isTouch device \<and> 0 < ms_touchPointCount ms)) \<and>
    (if 0 < ms_pendingTouchPointCount ms \<or> dev_isTouch device then touch_report (old_ids ms) (pending_ids ms) ps else ps = []))"
proof -
  let ?p = "ms_pendingTouchPointCount ms" and ?t = "ms_touchPointCount ms"
  note l = arrays_okD [OF ms] and len = ids_length [OF ms]
  consider "0 < ?p" | "?p = 0" "dev_isTouch device" "0 < ?t" | "?p = 0" "\<not> (dev_isTouch device \<and> 0 < ?t)" by linarith
  then show ?thesis
  proof cases
    case 1
    have c: "?t + length (filter (\<lambda>t. t \<notin> set (old_ids ms)) (pending_ids ms)) \<le> 20"
      using points_count [of "old_ids ms" "pending_ids ms"] p [OF 1] len l(12,13) by simp
    have "post (existing_points uninit g ?t 0 [] ms) (all_points ms)"
      by (rule existing_points_ok) (use ms in \<open>auto simp: points_so_far_def\<close>)
    then obtain ps ms1 where e: "existing_points uninit g ?t 0 [] ms = Some (ps, ms1)" "all_points ms (ps, ms1)"
      by (auto simp: post_def)
    then have ms1: "arrays_ok ms1" "points_frame ms1 = points_frame ms" "length ps = ?t"
      by (auto simp: all_points_def points_so_far_def)
    note f = points_frame_fields [OF ms1(2)]
    obtain qs ms2 where q: "pressed_points ?p 0 ps ms1 = Some (ps @ qs, ms2)" "arrays_ok ms2" "points_frame ms2 = points_frame ms"
      "map tp_id qs = filter (\<lambda>t. t \<notin> set (old_ids ms)) (pending_ids ms)" "\<forall>q\<in>set qs. tp_state q = TOUCH_PRESSED"
      using pressed_points_ok [OF ms1(1), of 0 ?p ps] ms1 c unfolding f by (auto simp: post_def)
    have "length (ps @ qs) \<le> 20" using c ms1(3) arg_cong [OF q(4), of length] by simp
    then show ?thesis
      using 1 e(1) q(1-3) all_points_report [OF e(2) ms q(4,5)] by (simp add: touch_points_def f)
  next
    case 2
    have "post (release_all uninit ?t 0 [] ms) (all_points ms)"
      by (rule release_all_ok) (use ms 2 in \<open>auto simp: points_so_far_def\<close>)
    then obtain ps ms1 where e: "release_all uninit ?t 0 [] ms = Some (ps, ms1)" "all_points ms (ps, ms1)"
      by (auto simp: post_def)
    moreover have "pending_ids ms = []" using 2 by (simp add: pending_ids_def)
    ultimately show ?thesis
      using 2 l(12) all_points_report [OF e(2) ms, of "[]"]
      by (simp add: touch_points_def) (auto simp: all_points_def points_so_far_def)
  next
    case 3
    then show ?thesis using ms by (auto simp: touch_points_def touch_report_def old_ids_def pending_ids_def)
  qed
qed

section \<open>The primary point\<close>

lemma find_point_None: "find_point Q i ps = None \<longleftrightarrow> (\<forall>p\<in>set ps. \<not> Q p)"
  by (induction ps arbitrary: i) auto

lemma find_point_Some: "find_point Q i ps = Some j \<Longrightarrow> i \<le> j \<and> j < i + length ps \<and> Q (ps ! (j - i))"
proof (induction ps arbitrary: i)
  case (Cons p ps)
  then show ?case by (cases "Q p") (fastforce simp: nth_Cons' dest: Cons.IH)+
qed simp

lemma find_point_ex:
  assumes "p \<in> set ps" "Q p"
  obtains j where "find_point Q 0 ps = Some j" "j < length ps" "Q (ps ! j)"
  using assms find_point_None [of Q 0 ps] find_point_Some [of Q 0 ps] by (cases "find_point Q 0 ps") auto

lemma find_point_first: "ps \<noteq> [] \<Longrightarrow> Q (hd ps) \<Longrightarrow> find_point Q 0 ps = Some 0"
  by (cases ps) auto

text \<open>
  Some point of the report becomes the primary point, and the last one stays the primary point as long as it is down.
\<close>

lemma primary_point_ok:
  assumes rep: "touch_report old new ps" and pr: "if old = [] then primary = - 1 else primary \<in> set old" and old: "set old \<union> set new \<subseteq> {1..}"
    and new: "new \<noteq> []"
  shows "\<exists>i re. primary_point ps primary = (Some i, re, tp_id (ps ! i)) \<and> i < length ps \<and> tp_state (ps ! i) \<noteq> TOUCH_RELEASED \<and>
    (primary \<in> set new \<longrightarrow> tp_id (ps ! i) = primary \<and> \<not> re) \<and> (old = [] \<longrightarrow> i = 0 \<and> \<not> re)"
proof -
  have ids: "tp_id ` set ps = set old \<union> set new" using arg_cong [OF rep [unfolded touch_report_def, THEN conjunct1], of set] by auto
  have st: "tp_state p = TOUCH_RELEASED \<longleftrightarrow> tp_id p \<notin> set new" "tp_state p = TOUCH_PRESSED \<longleftrightarrow> tp_id p \<notin> set old" if "p \<in> set ps" for p
    using rep that by (auto simp: touch_report_def)
  show ?thesis
  proof (cases "old = []")
    case True
    then have "ps \<noteq> []" using ids new by auto
    moreover from this have "tp_state (hd ps) = TOUCH_PRESSED" using st(2) [of "hd ps"] True by auto
    ultimately have "find_point (\<lambda>p. tp_state p = TOUCH_PRESSED) 0 ps = Some 0" "tp_state (ps ! 0) = TOUCH_PRESSED" "0 < length ps"
      by (auto simp: find_point_first hd_conv_nth)
    moreover have "primary = - 1" "primary \<notin> set new" using True pr old by auto
    ultimately show ?thesis by (auto simp: primary_point_def touch_consts)
  next
    case False
    then have p: "primary \<in> set old" "primary > 0" using pr old by auto
    show ?thesis
    proof (cases "primary \<in> set new")
      case True
      then have "primary \<in> tp_id ` set ps" using ids by blast
      then obtain p where "p \<in> set ps" "tp_id p = primary" by auto
      then obtain j where "find_point (\<lambda>p. tp_id p = primary \<and> tp_state p \<noteq> TOUCH_RELEASED) 0 ps = Some j" "j < length ps"
        "tp_id (ps ! j) = primary \<and> tp_state (ps ! j) \<noteq> TOUCH_RELEASED"
        using find_point_ex [of p ps "\<lambda>p. tp_id p = primary \<and> tp_state p \<noteq> TOUCH_RELEASED"] st(1) [of p] True by auto
      with p(2) \<open>old \<noteq> []\<close> show ?thesis by (auto simp: primary_point_def)
    next
      case np: False
      then have "find_point (\<lambda>p. tp_id p = primary \<and> tp_state p \<noteq> TOUCH_RELEASED) 0 ps = None"
        using st(1) by (auto simp: find_point_None)
      moreover obtain p where "p \<in> set ps" "tp_id p \<in> set new" using ids new by (metis UnCI image_iff list.set_intros(1) neq_Nil_conv)
      then obtain j where "find_point (\<lambda>p. tp_state p \<noteq> TOUCH_RELEASED) 0 ps = Some j" "j < length ps" "tp_state (ps ! j) \<noteq> TOUCH_RELEASED"
        using find_point_ex [of p ps "\<lambda>p. tp_state p \<noteq> TOUCH_RELEASED"] st(1) [of p] by auto
      ultimately show ?thesis using p(2) np \<open>old \<noteq> []\<close> by (auto simp: primary_point_def Let_def)
    qed
  qed
qed

text \<open>After all points are released, there is no primary point.\<close>

lemma primary_point_released:
  assumes "touch_report old [] ps" "if old = [] then primary = - 1 else primary \<in> set old" "set old \<subseteq> {1..}"
  shows "primary_point ps primary = (None, False, - 1)"
proof -
  have st: "tp_state p = TOUCH_RELEASED" if "p \<in> set ps" for p using assms(1) that by (auto simp: touch_report_def)
  then have "find_point (\<lambda>p. tp_state p = TOUCH_PRESSED) 0 ps = None" "find_point (\<lambda>p. tp_state p \<noteq> TOUCH_RELEASED) 0 ps = None"
    "find_point (\<lambda>p. tp_id p = primary \<and> tp_state p \<noteq> TOUCH_RELEASED) 0 ps = None"
    by (auto simp: find_point_None touch_consts)
  then show ?thesis by (simp add: primary_point_def Let_def)
qed

section \<open>Notification\<close>

text \<open>
  The protocol between reports: an event has every point once; the points that are not pressed in it are those that
  were down before, in the same order, and those that are not released are down afterwards.
\<close>

definition touch_protocol :: "jint list \<Rightarrow> TouchPoint list \<Rightarrow> jint list \<Rightarrow> bool" where
  "touch_protocol old ps new \<longleftrightarrow> distinct (map tp_id ps) \<and>
     map tp_id (filter (\<lambda>p. tp_state p \<noteq> TOUCH_PRESSED) ps) = old \<and>
     map tp_id (filter (\<lambda>p. tp_state p \<noteq> TOUCH_RELEASED) ps) = new"

text \<open>The window manager receives the event with a primary point that is down, unless no point has changed.\<close>

definition touch_notified :: "TouchPoint list \<Rightarrow> LensWM \<Rightarrow> LensWM \<Rightarrow> bool" where
  "touch_notified ps s s' \<longleftrightarrow> (\<forall>p\<in>set ps. tp_state p = TOUCH_STILL) \<and> s' = s \<or>
     (\<exists>i. lens_wm_notifyMultiTouchEvent (int (length ps)) (map tp_state ps) (map tp_id ps) (map tp_x ps) (map tp_y ps) i s = Some s' \<and>
        (i = - 1 \<and> (\<forall>p\<in>set ps. tp_state p = TOUCH_RELEASED) \<or>
         0 \<le> i \<and> i < int (length ps) \<and> tp_state (ps ! nat i) \<noteq> TOUCH_RELEASED))"

lemma map_filter_id:
  assumes "\<And>p. p \<in> set ps \<Longrightarrow> Q p \<longleftrightarrow> tp_id p \<in> X"
  shows "map tp_id (filter Q ps) = filter (\<lambda>t. t \<in> X) (map tp_id ps)"
proof -
  have "filter Q ps = filter (\<lambda>p. tp_id p \<in> X) ps" by (rule filter_cong) (use assms in auto)
  then show ?thesis by (simp add: filter_map comp_def)
qed

lemma touch_report_protocol:
  assumes rep: "touch_report old new ps" and d: "distinct old" "distinct new"
  shows "touch_protocol old ps (filter (\<lambda>t. t \<in> set new) old @ filter (\<lambda>t. t \<notin> set old) new)"
proof -
  have ids: "map tp_id ps = old @ filter (\<lambda>t. t \<notin> set old) new" using rep by (simp add: touch_report_def)
  have "map tp_id (filter (\<lambda>p. tp_state p \<noteq> TOUCH_PRESSED) ps) = filter (\<lambda>t. t \<in> set old) (map tp_id ps)"
    by (rule map_filter_id) (use rep in \<open>auto simp: touch_report_def\<close>)
  also have "\<dots> = old" unfolding ids by simp
  finally have 1: "map tp_id (filter (\<lambda>p. tp_state p \<noteq> TOUCH_PRESSED) ps) = old" .
  have "map tp_id (filter (\<lambda>p. tp_state p \<noteq> TOUCH_RELEASED) ps) = filter (\<lambda>t. t \<in> set new) (map tp_id ps)"
    by (rule map_filter_id) (use rep in \<open>auto simp: touch_report_def\<close>)
  also have "\<dots> = filter (\<lambda>t. t \<in> set new) old @ filter (\<lambda>t. t \<notin> set old) new"
    unfolding ids by (auto intro: filter_cong)
  finally show ?thesis using 1 d by (auto simp: touch_protocol_def ids)
qed

text \<open>The ids that are down after an event.\<close>

definition after :: "TouchPoint list \<Rightarrow> jint list" where
  "after ps = map tp_id (filter (\<lambda>p. tp_state p \<noteq> TOUCH_RELEASED) ps)"

definition single_mode :: "LensInputGlobals \<Rightarrow> LensInputDevice \<Rightarrow> bool" where
  "single_mode g device \<longleftrightarrow> \<not> gUseMultiTouch g \<and> dev_isTouch device \<and> dev_touchProtocolType device \<noteq> TOUCH_PROTOCOL_ST"

definition mouse_frame :: "LensInputGlobals \<Rightarrow> LensInputGlobals" where
  "mouse_frame g = g\<lparr>li_mousePosX := 0, li_mousePosY := 0, newMousePosX := 0, newMousePosY := 0\<rparr>"

lemma mouse_frame_upd [simp]:
  "mouse_frame (g\<lparr>li_mousePosX := i\<rparr>) = mouse_frame g" "mouse_frame (g\<lparr>li_mousePosY := i\<rparr>) = mouse_frame g"
  by (simp_all add: mouse_frame_def)

text \<open>The ids of the last report and of this one, and the primary point before the event.\<close>

definition report_ids :: "bool \<Rightarrow> jint list \<Rightarrow> jint list \<Rightarrow> jint \<Rightarrow> bool" where
  "report_ids single old new primary \<longleftrightarrow> distinct old \<and> distinct new \<and> set old \<union> set new \<subseteq> {1..} \<and>
     (if old = [] then primary = - 1 else primary \<in> set old) \<and> (old = [] \<and> new \<noteq> [] \<longrightarrow> hd new = 1) \<and>
     (single \<longrightarrow> (old = [] \<or> old = [1]) \<and> (new = [] \<or> set old \<subseteq> set new))"

text \<open>The points that are reported, and the new primary point.\<close>

definition reported :: "bool \<Rightarrow> jint list \<Rightarrow> jint list \<Rightarrow> TouchPoint list \<Rightarrow> jint \<Rightarrow> bool" where
  "reported single old new ps primary \<longleftrightarrow> touch_protocol old ps (after ps) \<and> length ps \<le> 20 \<and>
     (if after ps = [] then primary = - 1 else primary \<in> set (after ps)) \<and> set (after ps) \<subseteq> set new \<and>
     (single \<longrightarrow> after ps = [] \<or> after ps = [1])"

lemma reported_all:
  assumes rep: "touch_report old new ps" and r: "report_ids single old new primary" and len: "length ps \<le> 20"
    and p: "if after ps = [] then primary' = - 1 else primary' \<in> set (after ps)" and s: "single \<Longrightarrow> after ps = [] \<or> after ps = [1]"
  shows "reported single old new ps primary'"
proof -
  have "touch_protocol old ps (filter (\<lambda>t. t \<in> set new) old @ filter (\<lambda>t. t \<notin> set old) new)"
    using touch_report_protocol [OF rep] r by (simp add: report_ids_def)
  then have "touch_protocol old ps (after ps)" "after ps = filter (\<lambda>t. t \<in> set new) old @ filter (\<lambda>t. t \<notin> set old) new"
    by (simp_all add: touch_protocol_def after_def)
  then show ?thesis using len p s by (auto simp: reported_def)
qed

lemma report_states:
  assumes "touch_report old new ps" "p \<in> set ps"
  shows "tp_state p = TOUCH_RELEASED \<longleftrightarrow> tp_id p \<notin> set new" "tp_state p = TOUCH_PRESSED \<longleftrightarrow> tp_id p \<notin> set old"
    "tp_id p \<in> set old \<union> set new"
proof -
  show "tp_state p = TOUCH_RELEASED \<longleftrightarrow> tp_id p \<notin> set new" "tp_state p = TOUCH_PRESSED \<longleftrightarrow> tp_id p \<notin> set old"
    using assms by (auto simp: touch_report_def)
  have "tp_id p \<in> set (map tp_id ps)" using assms(2) by simp
  then show "tp_id p \<in> set old \<union> set new"
    unfolding assms(1) [unfolded touch_report_def, THEN conjunct1] by auto
qed

lemma after_mem: "i < length ps \<Longrightarrow> tp_state (ps ! i) \<noteq> TOUCH_RELEASED \<Longrightarrow> tp_id (ps ! i) \<in> set (after ps)"
  by (auto simp: after_def)

text \<open>With a single point, the point with the id 1 is reported.\<close>

lemma single_touch_ok:
  assumes rep: "touch_report old new ps" and r: "report_ids True old new primary" and new: "new \<noteq> []"
    and i: "i < length ps" "tp_state (ps ! i) \<noteq> TOUCH_RELEASED" "primary \<in> set new \<longrightarrow> tp_id (ps ! i) = primary \<and> \<not> re"
      "old = [] \<longrightarrow> i = 0 \<and> \<not> re"
  shows "\<exists>q. single_touch (Some i) re ps = Some ([q], Some 0) \<and> tp_state q \<noteq> TOUCH_RELEASED \<and> tp_id (ps ! i) = 1 \<and>
    reported True old new [q] 1"
proof -
  let ?q = "(ps ! 0)\<lparr>tp_id := 1, tp_state := tp_state (ps ! i), tp_x := tp_x (ps ! i), tp_y := tp_y (ps ! i)\<rparr>"
  have id: "tp_id (ps ! i) = 1" and re: "\<not> re"
  proof -
    have "tp_id (ps ! i) = 1 \<and> \<not> re"
    proof (cases "old = []")
      case True
      then have "map tp_id ps = new" using rep by (simp add: touch_report_def)
      then show ?thesis using True i r new by (auto simp: report_ids_def hd_conv_nth)
    next
      case False
      then show ?thesis using i(3) r new by (auto simp: report_ids_def)
    qed
    then show "tp_id (ps ! i) = 1" "\<not> re" by auto
  qed
  have "tp_state (ps ! i) = TOUCH_PRESSED \<longleftrightarrow> old = []"
    using report_states(2) [OF rep, of "ps ! i"] i(1) id r by (auto simp: report_ids_def)
  moreover have "old = [] \<or> old = [1]" "1 \<in> set new"
    using r new report_states(1) [OF rep, of "ps ! i"] i(1,2) id by (auto simp: report_ids_def)
  ultimately have "reported True old new [?q] 1"
    using i(2) by (auto simp: reported_def touch_protocol_def after_def)
  moreover have "single_touch (Some i) re ps = Some ([?q], Some 0)" using i(1) re by (auto simp: single_touch_def at_def)
  ultimately show ?thesis using i(2) id by auto
qed

lemma notify_ok:
  assumes "drag_ok s xs" "case index of None \<Rightarrow> (\<forall>p\<in>set ps. tp_state p = TOUCH_RELEASED) | Some i \<Rightarrow> i < length ps \<and> tp_state (ps ! i) \<noteq> TOUCH_RELEASED"
  shows "post (lens_wm_notifyMultiTouchEvent (int (length ps)) (map tp_state ps) (map tp_id ps) (map tp_x ps) (map tp_y ps)
              (case index of None \<Rightarrow> - 1 | Some i \<Rightarrow> int i) s) (\<lambda>s'. drag_ok s' xs \<and> views s' = views s \<and> touch_notified ps s s')"
proof -
  let ?i = "case index of None \<Rightarrow> - 1 | Some i \<Rightarrow> int i"
  have "touch_args (int (length ps)) (map tp_state ps) (map tp_id ps) (map tp_x ps) (map tp_y ps) ?i"
    using assms(2) by (auto simp: touch_args_def split: option.splits)
  then obtain s' where "lens_wm_notifyMultiTouchEvent (int (length ps)) (map tp_state ps) (map tp_id ps) (map tp_x ps) (map tp_y ps) ?i s = Some s'"
    "drag_ok s' xs" "views s' = views s"
    using notifyMultiTouchEvent_ok [OF assms(1)] by (blast elim: post_obtain)
  moreover have "?i = - 1 \<and> (\<forall>p\<in>set ps. tp_state p = TOUCH_RELEASED) \<or> 0 \<le> ?i \<and> ?i < int (length ps) \<and> tp_state (ps ! nat ?i) \<noteq> TOUCH_RELEASED"
    using assms(2) by (auto split: option.splits)
  ultimately show ?thesis unfolding touch_notified_def post_def by blast
qed

text \<open>The contract of the notification, for a touch device.\<close>

definition notify_result :: "LensInputDevice \<Rightarrow> jint list \<Rightarrow> jint list \<Rightarrow> wid list \<Rightarrow> LensInputMouseState \<Rightarrow> LensInputGlobals \<Rightarrow> LensWM \<Rightarrow>
    TouchPoint list \<times> bool \<times> LensInputMouseState \<times> LensInputGlobals \<times> LensWM \<Rightarrow> bool" where
  "notify_result device old new xs ms g s = (\<lambda>(ps', save', ms', g', s'). \<exists>primary.
     ms' = ms\<lparr>ms_touchPrimaryPointID := primary\<rparr> \<and> mouse_frame g' = mouse_frame g \<and> drag_ok s' xs \<and> views s' = views s \<and>
     touch_notified ps' s s' \<and> reported (single_mode g device) old new ps' primary \<and> (\<not> save' \<longrightarrow> after ps' = []))"

lemma notify_touch_all_still:
  assumes rep: "touch_report old new ps" and r: "report_ids (single_mode g device) old new (ms_touchPrimaryPointID ms)"
    and len: "length ps \<le> 20" and save: "save = (new \<noteq> [] \<or> old = [])" and ok: "drag_ok s xs"
    and still: "\<forall>p\<in>set ps. tp_state p = TOUCH_STILL"
  shows "notify_result device old new xs ms g s (ps, save, ms, g, s)"
proof -
  have old: "after ps = old"
    using touch_report_protocol [OF rep] r still
    by (auto simp: report_ids_def touch_protocol_def after_def touch_consts cong: filter_cong)
  have "save"
  proof (rule ccontr)
    assume "\<not> save"
    then have n: "new = []" "old \<noteq> []" using save by auto
    then obtain p where "p \<in> set ps" using old by (cases ps) (auto simp: after_def)
    then show False using report_states(1) [OF rep, of p] still n by (auto simp: touch_consts)
  qed
  moreover have "reported (single_mode g device) old new ps (ms_touchPrimaryPointID ms)"
    by (rule reported_all [OF rep r len]) (use r in \<open>auto simp: old report_ids_def\<close>)
  ultimately show ?thesis
    using ok still by (auto simp: notify_result_def touch_notified_def intro: exI [of _ "ms_touchPrimaryPointID ms"])
qed

lemma notify_touch_moves:
  assumes ok: "drag_ok s xs" and ms: "arrays_ok ms" and ps: "length ps \<le> 20"
    and i: "case index of None \<Rightarrow> (\<forall>p\<in>set ps. tp_state p = TOUCH_RELEASED) | Some i \<Rightarrow> i < length ps \<and> tp_state (ps ! i) \<noteq> TOUCH_RELEASED"
    and rep: "reported (single_mode g device) old new ps primary" and save: "\<not> save \<Longrightarrow> after ps = []"
  shows "post (do {
       g \<leftarrow> (case index of
              None \<Rightarrow> Some g
            | Some i \<Rightarrow> do {
                x \<leftarrow> at (ms_pendingTouchXs ms) i;
                y \<leftarrow> at (ms_pendingTouchYs ms) i;
                Some (g\<lparr>li_mousePosX := x, li_mousePosY := y\<rparr>)
              });
       s \<leftarrow> lens_wm_notifyMultiTouchEvent (int (length ps)) (map tp_state ps) (map tp_id ps) (map tp_x ps) (map tp_y ps)
              (case index of None \<Rightarrow> - 1 | Some i \<Rightarrow> int i) s;
       Some (ps, save, ms\<lparr>ms_touchPrimaryPointID := primary\<rparr>, g, s)
     }) (notify_result device old new xs ms g s)"
proof -
  have g: "post (case index of None \<Rightarrow> Some g | Some i \<Rightarrow> do {
                x \<leftarrow> at (ms_pendingTouchXs ms) i; y \<leftarrow> at (ms_pendingTouchYs ms) i;
                Some (g\<lparr>li_mousePosX := x, li_mousePosY := y\<rparr>) }) (\<lambda>g'. mouse_frame g' = mouse_frame g)"
    using i ps arrays_okD(9,10) [OF ms] by (cases index) auto
  show ?thesis
  proof (rule post_bindI [OF g], rule post_bindI [OF notify_ok [OF ok i]])
    fix g' s' assume "mouse_frame g' = mouse_frame g" "drag_ok s' xs \<and> views s' = views s \<and> touch_notified ps s s'"
    then show "post (Some (ps, save, ms\<lparr>ms_touchPrimaryPointID := primary\<rparr>, g', s')) (notify_result device old new xs ms g s)"
      using rep save by (auto simp: notify_result_def)
  qed
qed

lemma notify_touch_ok:
  assumes rep: "touch_report old new ps" and r: "report_ids (single_mode g device) old new (ms_touchPrimaryPointID ms)"
    and len: "length ps \<le> 20" and save: "save = (new \<noteq> [] \<or> old = [])" and ok: "drag_ok s xs" and ms: "arrays_ok ms"
    and touch: "dev_isTouch device"
  shows "post (notify_touch device ps save ms g s) (notify_result device old new xs ms g s)"
proof (cases "\<forall>p\<in>set ps. tp_state p = TOUCH_STILL")
  case True
  then show ?thesis using notify_touch_all_still [OF rep r len save ok True] by (simp add: notify_touch_def list_all_iff)
next
  case False
  then have still: "\<not> list_all (\<lambda>p. tp_state p = TOUCH_STILL) ps" and ne: "ps \<noteq> []" by (auto simp: list_all_iff)
  have pos: "if old = [] then ms_touchPrimaryPointID ms = - 1 else ms_touchPrimaryPointID ms \<in> set old" "set old \<union> set new \<subseteq> {1..}"
    using r by (simp_all add: report_ids_def)
  show ?thesis
  proof (cases "new = []")
    case True
    have rel: "\<forall>p\<in>set ps. tp_state p = TOUCH_RELEASED" using report_states(1) [OF rep] True by auto
    have old: "old \<noteq> []" "map tp_id ps = old" using ne rep True by (auto simp: touch_report_def)
    have "after ps = []" using rel by (auto simp: after_def)
    then have "reported (single_mode g device) old new ps (- 1)" by (intro reported_all [OF rep r len]) auto
    note n = notify_touch_moves [OF ok ms len _ this, of None]
    have pr: "primary_point ps (ms_touchPrimaryPointID ms) = (None, False, - 1)"
      using primary_point_released [of old ps] rep True pos by simp
    have "single_touch None False ps = Some (ps, None)" if sm: "single_mode g device"
    proof -
      obtain p where "ps = [p]" "tp_id p = 1" using old r sm by (auto simp: report_ids_def)
      then show ?thesis by (simp add: single_touch_def)
    qed
    with n pr save True old still rel \<open>after ps = []\<close> touch show ?thesis
      by (auto simp: notify_touch_def single_mode_def)
  next
    case nn: False
    obtain i re where i: "primary_point ps (ms_touchPrimaryPointID ms) = (Some i, re, tp_id (ps ! i))" "i < length ps"
      "tp_state (ps ! i) \<noteq> TOUCH_RELEASED" "ms_touchPrimaryPointID ms \<in> set new \<longrightarrow> tp_id (ps ! i) = ms_touchPrimaryPointID ms \<and> \<not> re"
      "old = [] \<longrightarrow> i = 0 \<and> \<not> re"
      using primary_point_ok [OF rep pos(1) pos(2) nn] by blast
    show ?thesis
    proof (cases "single_mode g device")
      case True
      obtain q where q: "single_touch (Some i) re ps = Some ([q], Some 0)" "tp_state q \<noteq> TOUCH_RELEASED" "tp_id (ps ! i) = 1"
        "reported True old new [q] 1"
        using single_touch_ok [OF rep _ nn i(2-5)] r True by auto
      show ?thesis
        using notify_touch_moves [OF ok ms, of "[q]" "Some 0" g device old new 1 True] q i(1) True still nn save
        by (simp add: notify_touch_def single_mode_def)
    next
      case False
      have "reported (single_mode g device) old new ps (tp_id (ps ! i))"
        by (rule reported_all [OF rep r len]) (use after_mem [OF i(2,3)] False in auto)
      then show ?thesis
        using notify_touch_moves [OF ok ms len, of "Some i" g device old new "tp_id (ps ! i)" True] i False still nn save touch
        by (auto simp: notify_touch_def single_mode_def)
    qed
  qed
qed

section \<open>Saving the points\<close>

definition store_frame :: "LensInputMouseState \<Rightarrow> LensInputMouseState" where
  "store_frame ms = ms\<lparr>ms_touchPointCount := 0, ms_touchIDs := [], ms_touchXs := [], ms_touchYs := [], ms_touchTrackingIDs := []\<rparr>"

lemma store_frame_fields:
  assumes "store_frame ms' = store_frame ms"
  shows "ms_nextTouchID ms' = ms_nextTouchID ms" "ms_touchPrimaryPointID ms' = ms_touchPrimaryPointID ms"
    "ms_pendingInputEvents ms' = ms_pendingInputEvents ms" "ms_pendingInputEventCount ms' = ms_pendingInputEventCount ms"
  using arg_cong [OF assms, of ms_nextTouchID] arg_cong [OF assms, of ms_touchPrimaryPointID]
    arg_cong [OF assms, of ms_pendingInputEvents] arg_cong [OF assms, of ms_pendingInputEventCount]
  by (simp_all add: store_frame_def)

lemma take_put: "i < length xs \<Longrightarrow> take (Suc i) (xs[i := v]) = take i xs @ [v]"
  by (simp add: take_Suc_conv_app_nth)

lemma store_points_ok:
  assumes "arrays_ok ms" "n + length ps \<le> 20"
  shows "post (store_points n ps ms) (\<lambda>ms'. arrays_ok ms' \<and> store_frame ms' = store_frame ms \<and>
    old_ids ms' = take n (ms_touchIDs ms) @ after ps \<and>
    take (ms_touchPointCount ms') (ms_touchXs ms') = take n (ms_touchXs ms) @ map tp_x (filter (\<lambda>p. tp_state p \<noteq> TOUCH_RELEASED) ps) \<and>
    take (ms_touchPointCount ms') (ms_touchYs ms') = take n (ms_touchYs ms) @ map tp_y (filter (\<lambda>p. tp_state p \<noteq> TOUCH_RELEASED) ps))"
  using assms
proof (induction ps arbitrary: n ms)
  case Nil
  then show ?case by (simp add: arrays_ok_upd after_def old_ids_def store_frame_def)
next
  case (Cons p ps)
  note l = arrays_okD [OF Cons.prems(1)]
  show ?case
  proof (cases "tp_state p = TOUCH_RELEASED")
    case True
    then show ?thesis using Cons.IH [of ms n] Cons.prems by (simp add: after_def)
  next
    case False
    let ?ms = "ms\<lparr>ms_touchIDs := (ms_touchIDs ms)[n := tp_id p], ms_touchXs := (ms_touchXs ms)[n := tp_x p],
      ms_touchYs := (ms_touchYs ms)[n := tp_y p], ms_touchTrackingIDs := (ms_touchTrackingIDs ms)[n := tp_device p]\<rparr>"
    have "arrays_ok ?ms" using Cons.prems(1) l by (simp add: arrays_ok_upd)
    then have "post (store_points (n + 1) ps ?ms) (\<lambda>ms'. arrays_ok ms' \<and> store_frame ms' = store_frame ?ms \<and>
      old_ids ms' = take (n + 1) (ms_touchIDs ?ms) @ after ps \<and>
      take (ms_touchPointCount ms') (ms_touchXs ms') = take (n + 1) (ms_touchXs ?ms) @ map tp_x (filter (\<lambda>p. tp_state p \<noteq> TOUCH_RELEASED) ps) \<and>
      take (ms_touchPointCount ms') (ms_touchYs ms') = take (n + 1) (ms_touchYs ?ms) @ map tp_y (filter (\<lambda>p. tp_state p \<noteq> TOUCH_RELEASED) ps))"
      by (intro Cons.IH) (use Cons.prems(2) in simp_all)
    moreover have "store_frame ?ms = store_frame ms" by (simp add: store_frame_def)
    ultimately show ?thesis using False l Cons.prems(2) by (simp add: take_put after_def)
  qed
qed

text \<open>The points that are down afterwards are saved with the positions that were reported.\<close>

definition saved :: "TouchPoint list \<Rightarrow> LensInputMouseState \<Rightarrow> bool" where
  "saved ps ms \<longleftrightarrow> old_ids ms = after ps \<and>
     (let down = filter (\<lambda>p. tp_state p \<noteq> TOUCH_RELEASED) ps; n = ms_touchPointCount ms
      in take n (ms_touchXs ms) = map tp_x down \<and> take n (ms_touchYs ms) = map tp_y down)"

lemma save_points_ok:
  assumes ms: "arrays_ok ms" and ps: "length ps \<le> 20" "\<not> save \<Longrightarrow> after ps = []"
  shows "post (save_points save ps ms) (\<lambda>ms'. arrays_ok ms' \<and> store_frame ms' = store_frame ms \<and> saved ps ms')"
proof (cases save)
  case True
  then show ?thesis
    using store_points_ok [OF ms, of 0 ps] ps(1) by (auto simp: save_points_def saved_def Let_def elim!: post_mono)
next
  case False
  then show ?thesis using ms ps(2) by (simp add: save_points_def arrays_ok_upd store_frame_def saved_def old_ids_def after_def)
qed

section \<open>The invariant of a touch device\<close>

text \<open>
  Different ids, smaller than the next one; a primary point exactly if a point is down; and the id 1 only, if the device
  reports a single point.
\<close>

definition touch_inv :: "LensInputGlobals \<Rightarrow> LensInputDevice \<Rightarrow> LensInputMouseState \<Rightarrow> bool" where
  "touch_inv g device ms \<longleftrightarrow> arrays_ok ms \<and> distinct (old_ids ms) \<and>
     (old_ids ms \<noteq> [] \<longrightarrow> set (old_ids ms) \<subseteq> {1..<ms_nextTouchID ms}) \<and>
     (if old_ids ms = [] then ms_touchPrimaryPointID ms = - 1 else ms_touchPrimaryPointID ms \<in> set (old_ids ms)) \<and>
     (single_mode g device \<longrightarrow> old_ids ms = [] \<or> old_ids ms = [1])"

lemma old_ids_empty: "arrays_ok ms \<Longrightarrow> old_ids ms = [] \<longleftrightarrow> ms_touchPointCount ms = 0"
  using ids_length(1) [of ms] by (metis length_0_conv)

lemma touch_inv_ids_ok: "touch_inv g device ms \<Longrightarrow> ms_nextTouchID ms + 20 < 2 ^ 31 \<Longrightarrow> ids_ok ms"
  using old_ids_empty by (auto simp: touch_inv_def ids_ok_def)

lemma touch_inv_cong:
  assumes "touch_inv g device ms" "arrays_ok ms'" "old_ids ms' = old_ids ms" "ms_nextTouchID ms' = ms_nextTouchID ms"
    "ms_touchPrimaryPointID ms' = ms_touchPrimaryPointID ms" "single_mode g' device = single_mode g device"
  shows "touch_inv g' device ms'"
  using assms by (simp add: touch_inv_def)

lemma init_touch_inv: "touch_inv g device lens_input_mouseStateAllocateAndInit"
  by (simp add: touch_inv_def lens_input_mouseStateAllocateAndInit_def arrays_ok_def old_ids_def LENS_MAX_TOUCH_POINTS_def Let_def)

lemma enqueue_touch_inv:
  assumes "touch_inv g device ms"
  shows "post (lens_input_pointerEvents_enqueuePendingEvent True e ms) (\<lambda>ms'. touch_inv g device ms' \<and>
    pending_events ms' = pending_events ms @ [e] \<and> ms_nextTouchID ms' = ms_nextTouchID ms \<and> old_ids ms' = old_ids ms)"
proof -
  obtain ms' where e: "lens_input_pointerEvents_enqueuePendingEvent True e ms = Some ms'" "arrays_ok ms'"
    "pending_events ms' = pending_events ms @ [e]" "without_queue ms' = without_queue ms"
    using enqueue_correct [of ms e] assms by (auto simp: touch_inv_def)
  have "ms_touchIDs ms' = ms_touchIDs ms" "ms_touchPointCount ms' = ms_touchPointCount ms"
    "ms_nextTouchID ms' = ms_nextTouchID ms" "ms_touchPrimaryPointID ms' = ms_touchPrimaryPointID ms"
    using arg_cong [OF e(4), of ms_touchIDs] arg_cong [OF e(4), of ms_touchPointCount] arg_cong [OF e(4), of ms_nextTouchID]
      arg_cong [OF e(4), of ms_touchPrimaryPointID] by (simp_all add: without_queue_def)
  with assms e show ?thesis by (auto simp: old_ids_def intro: touch_inv_cong)
qed

section \<open>The end of a report\<close>

lemma single_mode_frame:
  assumes "globals_frame g' = globals_frame g"
  shows "single_mode g' device = single_mode g device"
  by (simp add: single_mode_def globals_frame_fields(1) [OF assms])

lemma single_mode_mouse:
  assumes "mouse_frame g' = mouse_frame g"
  shows "single_mode g' device = single_mode g device"
  using arg_cong [OF assms, of gUseMultiTouch] by (simp add: single_mode_def mouse_frame_def)

lemma start_scan_ok:
  assumes "arrays_ok ms"
  shows "arrays_ok (sc_state (start_scan ms g))" "scan_frame (sc_state (start_scan ms g)) = scan_frame ms"
    "sc_globals (start_scan ms g) = g" "ms_pendingTouchPointCount (sc_state (start_scan ms g)) = 0"
  using assms arrays_okD(9) [OF assms] by (simp_all add: start_scan_def arrays_ok_upd)

text \<open>What is known after the ids are assigned: the contract of the report of the points.\<close>

lemma assigned_report_ids:
  assumes inv: "touch_inv g device ms0" and b: "ms_nextTouchID ms0 + 20 < 2 ^ 31"
    and ms: "arrays_ok ms" "scan_frame ms = scan_frame ms0"
  shows "post (assign_ids ms) (\<lambda>ms'. arrays_ok ms' \<and> report_ids (single_mode g device) (old_ids ms0) (pending_ids ms') (ms_touchPrimaryPointID ms') \<and>
    old_ids ms' = old_ids ms0 \<and> ms_pendingTouchPointCount ms' = ms_pendingTouchPointCount ms \<and>
    (pending_ids ms' = [] \<longleftrightarrow> ms_pendingTouchPointCount ms = 0) \<and>
    (set (old_ids ms0) \<union> set (pending_ids ms') = {} \<or> set (old_ids ms0) \<union> set (pending_ids ms') \<subseteq> {1..<ms_nextTouchID ms'}) \<and>
    (0 < ms_pendingTouchPointCount ms \<longrightarrow>
      set (old_ids ms0) \<subseteq> set (pending_ids ms') \<or> set (pending_ids ms') \<subseteq> set (old_ids ms0)))"
proof -
  note f = scan_frame_fields [OF ms(2)]
  have old: "old_ids ms = old_ids ms0" by (simp add: old_ids_def f)
  have "touch_inv g device ms" by (rule touch_inv_cong [OF inv ms(1) old]) (simp_all add: f)
  then have ids: "ids_ok ms" by (rule touch_inv_ids_ok) (use b f in simp)
  have i: "distinct (old_ids ms)" "old_ids ms \<noteq> [] \<longrightarrow> set (old_ids ms) \<subseteq> {1..<ms_nextTouchID ms}"
    "if old_ids ms = [] then ms_touchPrimaryPointID ms = - 1 else ms_touchPrimaryPointID ms \<in> set (old_ids ms)"
    "single_mode g device \<longrightarrow> old_ids ms = [] \<or> old_ids ms = [1]"
    using \<open>touch_inv g device ms\<close> by (auto simp: touch_inv_def)
  show ?thesis
  proof (cases "ms_pendingTouchPointCount ms = 0")
    case True
    then have "assign_ids ms = Some ms" "pending_ids ms = []" by (simp_all add: assign_ids_def pending_ids_def)
    then show ?thesis using i ms(1) True old by (auto simp: report_ids_def)
  next
    case False
    show ?thesis
    proof (rule post_mono [OF assign_ids_ok [OF ids]])
      fix ms' assume "0 < ms_pendingTouchPointCount ms \<longrightarrow> ids_assigned ms ms'"
      with False have a: "ids_assigned ms ms'" by simp
      then have a': "arrays_ok ms'" "ids_frame ms' = ids_frame ms" "distinct (pending_ids ms')"
        "set (pending_ids ms') \<union> set (old_ids ms) \<subseteq> {1..<ms_nextTouchID ms'}"
        by (auto simp: ids_assigned_def)
      note fi = ids_frame_fields [OF a'(2)]
      have len: "length (pending_ids ms') = ms_pendingTouchPointCount ms" using ids_length(2) [OF a'(1)] fi by simp
      have hd: "hd (pending_ids ms') = 1" if "old_ids ms = []"
      proof -
        have "ms_pendingTouchIDs ms' ! 0 = 1" using a that old_ids_empty [OF ms(1)] by (simp add: ids_assigned_def)
        then have "pending_ids ms' ! 0 = 1" using False by (simp add: pending_ids_def fi)
        moreover have "pending_ids ms' \<noteq> []" using len False by auto
        ultimately show ?thesis by (simp add: hd_conv_nth)
      qed
      have sub: "set (old_ids ms) \<subseteq> set (pending_ids ms') \<or> set (pending_ids ms') \<subseteq> set (old_ids ms)"
        using a by (cases "ms_touchPointCount ms \<le> ms_pendingTouchPointCount ms") (auto simp: ids_assigned_def)
      have "set (old_ids ms) \<subseteq> set (pending_ids ms')" if "old_ids ms = [] \<or> old_ids ms = [1]"
        using a that False ids_length(1) [OF ms(1)] by (auto simp: ids_assigned_def)
      then show "arrays_ok ms' \<and> report_ids (single_mode g device) (old_ids ms0) (pending_ids ms') (ms_touchPrimaryPointID ms') \<and>
        old_ids ms' = old_ids ms0 \<and> ms_pendingTouchPointCount ms' = ms_pendingTouchPointCount ms \<and>
        (pending_ids ms' = [] \<longleftrightarrow> ms_pendingTouchPointCount ms = 0) \<and>
        (set (old_ids ms0) \<union> set (pending_ids ms') = {} \<or> set (old_ids ms0) \<union> set (pending_ids ms') \<subseteq> {1..<ms_nextTouchID ms'}) \<and>
        (0 < ms_pendingTouchPointCount ms \<longrightarrow>
          set (old_ids ms0) \<subseteq> set (pending_ids ms') \<or> set (pending_ids ms') \<subseteq> set (old_ids ms0))"
        unfolding old [symmetric] report_ids_def
        using a' i fi len hd sub False by (auto simp: old_ids_def)
    qed
  qed
qed

text \<open>
  What a report does to a touch device and to the window manager: some points, in accordance with the protocol, are
  reported and those that stay down are saved.
\<close>

definition touch_step :: "LensInputMouseState \<Rightarrow> LensWM \<Rightarrow> LensInputMouseState \<Rightarrow> LensWM \<Rightarrow> bool" where
  "touch_step ms s ms' s' \<longleftrightarrow>
     (\<exists>ps. touch_protocol (old_ids ms) ps (old_ids ms') \<and> saved ps ms' \<and> touch_notified ps s s')"

text \<open>A report that is ignored leaves all points as they are.\<close>

lemma touch_step_ignored:
  assumes ms: "arrays_ok ms'" "distinct (old_ids ms)" and eq: "old_ids ms' = old_ids ms"
  shows "touch_step ms s ms' s"
proof -
  let ?n = "ms_touchPointCount ms'"
  define ps where "ps = map (\<lambda>i. \<lparr>tp_state = TOUCH_STILL, tp_id = ms_touchIDs ms' ! i, tp_x = ms_touchXs ms' ! i,
    tp_y = ms_touchYs ms' ! i, tp_device = 0\<rparr>) [0..<?n]"
  note l = arrays_okD [OF ms(1)]
  have still: "\<forall>p\<in>set ps. tp_state p = TOUCH_STILL" by (auto simp: ps_def)
  then have f: "filter (\<lambda>p. tp_state p \<noteq> TOUCH_PRESSED) ps = ps" "filter (\<lambda>p. tp_state p \<noteq> TOUCH_RELEASED) ps = ps"
    by (simp_all add: touch_consts filter_id_conv)
  have "map tp_id ps = old_ids ms'" "take ?n (ms_touchXs ms') = map tp_x ps" "take ?n (ms_touchYs ms') = map tp_y ps"
    using l by (auto simp: ps_def old_ids_def intro!: nth_equalityI)
  then have "touch_protocol (old_ids ms) ps (old_ids ms')" "saved ps ms'"
    using ms(2) eq by (simp_all add: touch_protocol_def saved_def after_def f)
  then show ?thesis using still by (auto simp: touch_step_def touch_notified_def)
qed

definition sync_result :: "LensInputDevice \<Rightarrow> wid list \<Rightarrow> LensInputMouseState \<Rightarrow> LensInputGlobals \<Rightarrow> LensWM \<Rightarrow>
    LensInputMouseState \<times> LensInputGlobals \<times> LensWM \<Rightarrow> bool" where
  "sync_result device xs ms g s = (\<lambda>(ms', g', s'). touch_inv g' device ms' \<and> pending_events ms' = [] \<and>
     drag_ok s' xs \<and> views s' = views s \<and> touch_step ms s ms' s' \<and> gUseMultiTouch g' = gUseMultiTouch g)"

lemma notify_saved:
  assumes n: "notify_result device (old_ids ms0) new xs ms g s (ps, save, ms', g', s')" and ms: "arrays_ok ms"
    and ids: "set (old_ids ms0) \<union> set new = {} \<or> set (old_ids ms0) \<union> set new \<subseteq> {1..<ms_nextTouchID ms}"
    and g: "globals_frame g = globals_frame g0"
  shows "post (save_points save ps (ms'\<lparr>ms_pendingInputEventCount := 0\<rparr>))
    (\<lambda>ms''. sync_result device xs ms0 g0 s (ms'', g', s') \<and> set (old_ids ms'') \<subseteq> set new)"
proof -
  obtain primary where p: "ms' = ms\<lparr>ms_touchPrimaryPointID := primary\<rparr>" "mouse_frame g' = mouse_frame g" "drag_ok s' xs" "views s' = views s"
    "touch_notified ps s s'" "reported (single_mode g device) (old_ids ms0) new ps primary" "\<not> save \<longrightarrow> after ps = []"
    using n by (auto simp: notify_result_def)
  have a: "arrays_ok (ms'\<lparr>ms_pendingInputEventCount := 0\<rparr>)" using ms by (simp add: p(1) arrays_ok_upd)
  have len: "length ps \<le> 20" using p(6) by (simp add: reported_def)
  show ?thesis
  proof (rule post_mono [OF save_points_ok [OF a len]])
    show "after ps = []" if "\<not> save" using p(7) that by simp
  next
    fix ms'' assume m: "arrays_ok ms'' \<and> store_frame ms'' = store_frame (ms'\<lparr>ms_pendingInputEventCount := 0\<rparr>) \<and> saved ps ms''"
    then have f: "ms_nextTouchID ms'' = ms_nextTouchID ms" "ms_touchPrimaryPointID ms'' = primary" "ms_pendingInputEventCount ms'' = 0"
      using store_frame_fields [of ms'' "ms'\<lparr>ms_pendingInputEventCount := 0\<rparr>"] by (simp_all add: p(1))
    have old: "old_ids ms'' = after ps" using m by (simp add: saved_def)
    have "distinct (after ps)" using p(6) by (auto simp: reported_def touch_protocol_def after_def distinct_map inj_on_def)
    moreover have "set (after ps) \<subseteq> {1..<ms_nextTouchID ms}" if "after ps \<noteq> []"
      using p(6) ids that by (auto simp: reported_def)
    moreover have "single_mode g' device = single_mode g device" by (rule single_mode_mouse [OF p(2)])
    ultimately have "touch_inv g' device ms''"
      using m p(6) by (simp add: touch_inv_def old f reported_def)
    moreover have "gUseMultiTouch g' = gUseMultiTouch g0"
      using arg_cong [OF p(2), of gUseMultiTouch] globals_frame_fields(1) [OF g] by (simp add: mouse_frame_def)
    moreover have "touch_step ms0 s ms'' s'"
      using p(5,6) m old by (auto simp: touch_step_def reported_def)
    moreover have "set (old_ids ms'') \<subseteq> set new" using p(6) by (simp add: old reported_def)
    ultimately show "sync_result device xs ms0 g0 s (ms'', g', s') \<and> set (old_ids ms'') \<subseteq> set new"
      using p(3,4) f(3) by (simp add: sync_result_def pending_events_def)
  qed
qed

text \<open>The second half of the handling of a report, once its points are known.\<close>

lemma process_points_ok:
  assumes inv: "touch_inv g0 device ms" and b: "ms_nextTouchID ms + 20 < 2 ^ 31" and ok: "drag_ok s xs" and d: "dev_isTouch device"
    and m: "arrays_ok m" "scan_frame m = scan_frame ms" and g: "globals_frame g = globals_frame g0"
  shows "post (do {
         ms \<leftarrow> assign_ids m;
         (ps, save, ms) \<leftarrow> touch_points uninit device g ms;
         (ps, save, ms, g, s) \<leftarrow> notify_touch device ps save ms g s;
         (ms, g, s) \<leftarrow> report_mouse device c ms g s;
         ms \<leftarrow> save_points save ps (ms\<lparr>ms_pendingInputEventCount := 0\<rparr>);
         Some (ms, g, s)
       }) (\<lambda>r. sync_result device xs ms g0 s r \<and> (ms_pendingTouchPointCount m = 0 \<longrightarrow> old_ids (fst r) = []))"
proof -
  have sm: "single_mode g device = single_mode g0 device" by (rule single_mode_frame [OF g])
  obtain m1 where m1: "assign_ids m = Some m1" "arrays_ok m1"
    "report_ids (single_mode g0 device) (old_ids ms) (pending_ids m1) (ms_touchPrimaryPointID m1)" "old_ids m1 = old_ids ms"
    "ms_pendingTouchPointCount m1 = ms_pendingTouchPointCount m" "pending_ids m1 = [] \<longleftrightarrow> ms_pendingTouchPointCount m = 0"
    "set (old_ids ms) \<union> set (pending_ids m1) = {} \<or> set (old_ids ms) \<union> set (pending_ids m1) \<subseteq> {1..<ms_nextTouchID m1}"
    "0 < ms_pendingTouchPointCount m \<longrightarrow> set (old_ids ms) \<subseteq> set (pending_ids m1) \<or> set (pending_ids m1) \<subseteq> set (old_ids ms)"
    using assigned_report_ids [OF inv b m] by (auto simp: post_def)
  have "post (touch_points uninit device g m1) (\<lambda>(ps, save, ms'). arrays_ok ms' \<and> points_frame ms' = points_frame m1 \<and> length ps \<le> 20 \<and>
    save = (0 < ms_pendingTouchPointCount m1 \<or> \<not> (dev_isTouch device \<and> 0 < ms_touchPointCount m1)) \<and>
    (if 0 < ms_pendingTouchPointCount m1 \<or> dev_isTouch device then touch_report (old_ids m1) (pending_ids m1) ps else ps = []))"
    by (rule touch_points_ok [OF m1(2)]) (use m1(3,4,5,8) in \<open>auto simp: report_ids_def\<close>)
  then obtain ps save m2 where m2: "touch_points uninit device g m1 = Some (ps, save, m2)" "arrays_ok m2"
    "points_frame m2 = points_frame m1" "length ps \<le> 20" "save = (pending_ids m1 \<noteq> [] \<or> old_ids ms = [])"
    "touch_report (old_ids ms) (pending_ids m1) ps"
    using d m1(4-6) old_ids_empty [OF m1(2)] by (auto simp: post_def)
  note f2 = points_frame_fields [OF m2(3)]
  obtain ps' save' m3 g' s' where m3: "notify_touch device ps save m2 g s = Some (ps', save', m3, g', s')"
    "notify_result device (old_ids ms) (pending_ids m1) xs m2 g s (ps', save', m3, g', s')"
    using notify_touch_ok [OF m2(6) _ m2(4,5) ok m2(2) d, of g] m1(3) by (auto simp: post_def f2 sm)
  obtain m4 where m4: "save_points save' ps' (m3\<lparr>ms_pendingInputEventCount := 0\<rparr>) = Some m4" "sync_result device xs ms g0 s (m4, g', s')"
    "set (old_ids m4) \<subseteq> set (pending_ids m1)"
    using notify_saved [OF m3(2) m2(2) _ g] m1(7) by (auto simp: post_def f2)
  then have "ms_pendingTouchPointCount m = 0 \<longrightarrow> old_ids m4 = []" using m1(6) by auto
  then show ?thesis
    using m1(1) m2(1) m3(1) m4(1,2) d by (simp add: report_mouse_def)
qed

text \<open>A report is read whenever it is in range.\<close>

lemma read_report:
  assumes ms: "arrays_ok ms" and d: "length (dev_absinfo device) = 64" and r: "report_ok 0 (pending_events ms)"
  obtains c where "scan_events scale device 0 (take (ms_pendingInputEventCount ms) (ms_pendingInputEvents ms)) (start_scan ms g) = Some c"
    "arrays_ok (sc_state c)" "scan_frame (sc_state c) = scan_frame ms" "globals_frame (sc_globals c) = globals_frame g"
proof -
  note st = start_scan_ok [OF ms, of g]
  obtain c where "scan_events scale device 0 (pending_events ms) (start_scan ms g) = Some c" "scanned (start_scan ms g) c"
    using scan_events_ok [OF st(1) d, of "pending_events ms" scale 0] r st(4) by (auto simp: post_def)
  then show ?thesis using that st by (simp add: scanned_def pending_events_def)
qed

lemma handleSync_touch:
  assumes inv: "touch_inv g device ms" and b: "ms_nextTouchID ms + 20 < 2 ^ 31" and ok: "drag_ok s xs"
    and d: "length (dev_absinfo device) = 64" "dev_isTouch device" and r: "report_ok 0 (pending_events ms)"
  shows "post (lens_input_pointerEvents_handleSync scale uninit device (ms, g, s)) (sync_result device xs ms g s)"
proof -
  have a: "arrays_ok ms" and dist: "distinct (old_ids ms)" using inv by (auto simp: touch_inv_def)
  obtain c where c: "scan_events scale device 0 (take (ms_pendingInputEventCount ms) (ms_pendingInputEvents ms)) (start_scan ms g) = Some c"
    "arrays_ok (sc_state c)" "scan_frame (sc_state c) = scan_frame ms" "globals_frame (sc_globals c) = globals_frame g"
    by (rule read_report [OF a d(1) r])
  obtain q where q: "preprocess device c (sc_state c) = Some q" "case q of Inl ms' \<Rightarrow> ms' = (sc_state c)\<lparr>ms_pendingInputEventCount := 0\<rparr>
    | Inr ms' \<Rightarrow> arrays_ok ms' \<and> scan_frame ms' = scan_frame (sc_state c)"
    using preprocess_ok [OF c(2), of device c] by (auto simp: post_def)
  show ?thesis
  proof (cases q)
    case (Inl m)
    then have m: "m = (sc_state c)\<lparr>ms_pendingInputEventCount := 0\<rparr>" using q(2) by simp
    note f = scan_frame_fields [OF c(3)]
    have old: "old_ids m = old_ids ms" by (simp add: m old_ids_def f)
    have am: "arrays_ok m" using c(2) by (simp add: m arrays_ok_upd)
    have "touch_inv (sc_globals c) device m"
      by (rule touch_inv_cong [OF inv am old]) (simp_all add: m f single_mode_frame [OF c(4)])
    moreover have "touch_step ms s m s" by (rule touch_step_ignored [OF am dist old])
    ultimately have "sync_result device xs ms g s (m, sc_globals c, s)"
      using ok globals_frame_fields(1) [OF c(4)] by (simp add: sync_result_def pending_events_def m)
    with c(1) q(1) Inl show ?thesis by (simp add: lens_input_pointerEvents_handleSync_def)
  next
    case (Inr m)
    then have m: "arrays_ok m" "scan_frame m = scan_frame ms" using q(2) c(2,3) by auto
    show ?thesis
      using post_mono [OF process_points_ok [OF inv b ok d(2) m c(4), where uninit = uninit and c = c], of "sync_result device xs ms g s"]
        c(1) q(1) Inr by (simp add: lens_input_pointerEvents_handleSync_def)
  qed
qed

end
