(* ===== verification/LensInputProps.thy ===== *)
theory LensInputProps
  imports LensTouchProps
begin

text \<open>
  Properties of the input devices: the protocol of touch events in every reachable state, the limits of a report, the
  matching of points, the queue of events, the pointer of a mouse, and the modifier keys.
\<close>

section \<open>Reachable states of a touch device\<close>

text \<open>
  A device starts empty, queues events and handles reports, with any state of the window manager. The ids stay below
  \<open>2 ^ 31\<close>: the next id is 1 again whenever no point is down.
\<close>

inductive touch_reach :: "scaling \<Rightarrow> jint \<Rightarrow> LensInputDevice \<Rightarrow> LensInputMouseState \<Rightarrow> LensInputGlobals \<Rightarrow> bool"
  for scale uninit device where
  init: "touch_reach scale uninit device lens_input_mouseStateAllocateAndInit g"
| enqueue: "touch_reach scale uninit device ms' g"
    if "touch_reach scale uninit device ms g" "lens_input_pointerEvents_enqueuePendingEvent True e ms = Some ms'"
| sync: "touch_reach scale uninit device ms' g'"
    if "touch_reach scale uninit device ms g" "ms_nextTouchID ms + 20 < 2 ^ 31" "drag_ok s xs"
      "lens_input_pointerEvents_handleSync scale uninit device (ms, g, s) = Some (ms', g', s')"

text \<open>A touch screen as the driver reports it.\<close>

definition touch_device :: "LensInputDevice \<Rightarrow> bool" where
  "touch_device device \<longleftrightarrow> dev_isTouch device \<and> length (dev_absinfo device) = 64"

lemma handleSync_out_of_range:
  assumes ms: "arrays_ok ms" and d: "length (dev_absinfo device) = 64" and r: "\<not> report_ok 0 (pending_events ms)"
  shows "lens_input_pointerEvents_handleSync scale uninit device (ms, g, s) = None"
proof -
  note st = start_scan_ok [OF ms, of g]
  have "scan_events scale device 0 (pending_events ms) (start_scan ms g) = None"
    using scan_events_None_iff [OF st(1) d, of scale 0 "pending_events ms"] r st(4) by simp
  then show ?thesis by (simp add: lens_input_pointerEvents_handleSync_def pending_events_def)
qed

lemma touch_reach_inv:
  assumes "touch_reach scale uninit device ms g" "touch_device device"
  shows "touch_inv g device ms"
  using assms
proof (induction rule: touch_reach.induct)
  case (init g)
  then show ?case by (simp add: init_touch_inv)
next
  case (enqueue ms g e ms')
  then show ?case using enqueue_touch_inv [of g device ms e] by (simp add: post_def)
next
  case (sync ms g s xs ms' g' s')
  then have inv: "touch_inv g device ms" and d: "length (dev_absinfo device) = 64" "dev_isTouch device" by (auto simp: touch_device_def)
  then have "report_ok 0 (pending_events ms)"
    using handleSync_out_of_range [of ms device scale uninit g s] sync.hyps(4) by (auto simp: touch_inv_def)
  then show ?case
    using handleSync_touch [OF inv sync.hyps(2,3) d, of scale uninit] sync.hyps(4) by (simp add: post_def sync_result_def)
qed

lemma sync_reached:
  assumes "touch_reach scale uninit device ms g" "touch_device device" "report_ok 0 (pending_events ms)"
    "ms_nextTouchID ms + 20 < 2 ^ 31" "drag_ok s xs"
  shows "post (lens_input_pointerEvents_handleSync scale uninit device (ms, g, s)) (sync_result device xs ms g s)"
  using handleSync_touch [OF touch_reach_inv [OF assms(1,2)] assms(4,5) _ _ assms(3)] assms(2) by (simp add: touch_device_def)

section \<open>Examples\<close>

definition example_axes :: "absinfo list" where
  "example_axes = replicate 64 \<lparr>ai_minimum = 0, ai_maximum = 1000\<rparr>"

definition example_screen :: LensInputDevice where
  "example_screen = \<lparr>dev_isKeyboard = False, dev_isPointer = False, dev_isTouch = True,
     dev_touchProtocolType = TOUCH_PROTOCOL_MT_A, dev_absinfo = example_axes\<rparr>"

definition example_ST :: LensInputDevice where
  "example_ST = example_screen\<lparr>dev_touchProtocolType := TOUCH_PROTOCOL_ST\<rparr>"

definition example_globals :: LensInputGlobals where
  "example_globals = \<lparr>screenWidth = 800, screenHeight = 600, li_mousePosX = 10, li_mousePosY = 10, newMousePosX = 10,
     newMousePosY = 10, gTapRadius = 20, gTouchMoveSensitivity = 3, gUseMultiTouch = True\<rparr>"

definition example_scale :: scaling where
  "example_scale v lo hi extent = (v - lo) * extent div (hi - lo)"

definition ev :: "jint \<Rightarrow> jint \<Rightarrow> jint \<Rightarrow> input_event" where
  "ev t c v = \<lparr>ie_type = t, ie_code = c, ie_value = v\<rparr>"

text \<open>The events of a report with these points.\<close>

definition touch_at :: "(jint \<times> jint) list \<Rightarrow> input_event list" where
  "touch_at ps = concat (map (\<lambda>(x, y). [ev EV_ABS ABS_MT_POSITION_X x, ev EV_ABS ABS_MT_POSITION_Y y, ev EV_SYN SYN_MT_REPORT 0]) ps)"

definition queued :: "input_event list \<Rightarrow> LensInputMouseState \<Rightarrow> LensInputMouseState" where
  "queued es ms = the (fold (\<lambda>e r. r \<bind> lens_input_pointerEvents_enqueuePendingEvent True e) es (Some ms))"

lemma queued_ok:
  assumes "touch_reach scale uninit device ms g" "touch_device device"
  shows "touch_reach scale uninit device (queued es ms) g" "pending_events (queued es ms) = pending_events ms @ es"
    "ms_nextTouchID (queued es ms) = ms_nextTouchID ms" "old_ids (queued es ms) = old_ids ms"
proof -
  have "\<exists>ms'. fold (\<lambda>e r. r \<bind> lens_input_pointerEvents_enqueuePendingEvent True e) es (Some ms) = Some ms' \<and>
      touch_reach scale uninit device ms' g \<and> pending_events ms' = pending_events ms @ es \<and> ms_nextTouchID ms' = ms_nextTouchID ms \<and>
      old_ids ms' = old_ids ms"
    using assms(1)
  proof (induction es arbitrary: ms)
    case (Cons e es)
    obtain m where m: "lens_input_pointerEvents_enqueuePendingEvent True e ms = Some m" "pending_events m = pending_events ms @ [e]"
      "ms_nextTouchID m = ms_nextTouchID ms" "old_ids m = old_ids ms"
      using enqueue_touch_inv [OF touch_reach_inv [OF Cons.prems assms(2)], of e] by (auto simp: post_def)
    show ?case using Cons.IH [OF touch_reach.enqueue [OF Cons.prems m(1)]] m by simp
  qed simp
  then show "touch_reach scale uninit device (queued es ms) g" "pending_events (queued es ms) = pending_events ms @ es"
    "ms_nextTouchID (queued es ms) = ms_nextTouchID ms" "old_ids (queued es ms) = old_ids ms"
    by (auto simp: queued_def)
qed

text \<open>The state after a first report, of a window manager without windows.\<close>

definition first_report :: "LensInputDevice \<Rightarrow> input_event list \<Rightarrow> LensInputMouseState \<times> LensInputGlobals \<times> LensWM" where
  "first_report device es = the (lens_input_pointerEvents_handleSync example_scale 0 device
     (queued es lens_input_mouseStateAllocateAndInit, example_globals, lens_init 800 600))"

lemma init_drag_ok: "drag_ok (lens_init 800 600) []"
  using lens_init_inv [of 800 600] by (simp add: drag_ok_def) (simp add: lens_init_def)

lemma first_report_ok:
  assumes d: "touch_device device" and es: "report_ok 0 es"
  shows "touch_reach example_scale 0 device (fst (first_report device es)) (fst (snd (first_report device es)))"
    "pending_events (fst (first_report device es)) = []"
proof -
  let ?ms = "queued es lens_input_mouseStateAllocateAndInit"
  note q = queued_ok [OF touch_reach.init [of example_scale 0 device example_globals] d, of es]
  have p: "pending_events ?ms = es" using q(2) by (simp add: pending_events_def lens_input_mouseStateAllocateAndInit_def Let_def)
  have n: "ms_nextTouchID ?ms + 20 < 2 ^ 31" using q(3) by (simp add: lens_input_mouseStateAllocateAndInit_def Let_def)
  obtain ms' g' s' where r: "lens_input_pointerEvents_handleSync example_scale 0 device (?ms, example_globals, lens_init 800 600) = Some (ms', g', s')"
    "sync_result device [] ?ms example_globals (lens_init 800 600) (ms', g', s')"
    using sync_reached [OF q(1) d _ n init_drag_ok] es p by (auto simp: post_def)
  then have "first_report device es = (ms', g', s')" by (simp add: first_report_def)
  with r touch_reach.sync [OF q(1) n init_drag_ok r(1)] show
    "touch_reach example_scale 0 device (fst (first_report device es)) (fst (snd (first_report device es)))"
    "pending_events (fst (first_report device es)) = []"
    by (auto simp: sync_result_def)
qed

text \<open>Two points that are down.\<close>

definition example_down :: "LensInputMouseState \<times> LensInputGlobals \<times> LensWM" where
  "example_down = first_report example_screen (touch_at [(100, 100), (900, 900)])"

lemma example_device [simp]: "touch_device example_screen" "touch_device example_ST"
  by (simp_all add: touch_device_def example_screen_def example_ST_def example_axes_def)

lemma example_down_ok:
  "touch_reach example_scale 0 example_screen (fst example_down) (fst (snd example_down))" "pending_events (fst example_down) = []"
  "ms_nextTouchID (fst example_down) = 3" "old_ids (fst example_down) = [1, 2]"
proof -
  have r: "report_ok 0 (touch_at [(100, 100), (900, 900)])" by code_simp
  show "touch_reach example_scale 0 example_screen (fst example_down) (fst (snd example_down))" "pending_events (fst example_down) = []"
    unfolding example_down_def by (rule first_report_ok [OF example_device(1) r])+
  show "ms_nextTouchID (fst example_down) = 3" "old_ids (fst example_down) = [1, 2]" by code_simp+
qed

section \<open>Touch events\<close>

text \<open>C16: In every reachable state of a touch device, the handling of a report that is in range (\<open>report_ok\<close>) returns and
  keeps the window manager sound. The report leads to points in accordance with the protocol of touch events: every
  point once; those that are not pressed are exactly the points that were down, in order, so that an id is never pressed
  twice nor moved or released without having been pressed; those that are not released are down afterwards and are saved
  with the reported positions. The window manager receives these points with a primary point that is down, unless
  all of them are still.\<close>

theorem touch_reports_follow_protocol:
  assumes "touch_reach scale uninit device ms g" "touch_device device" "report_ok 0 (pending_events ms)"
    "ms_nextTouchID ms + 20 < 2 ^ 31" "drag_ok s xs"
  shows "\<exists>ps ms' g' s'. lens_input_pointerEvents_handleSync scale uninit device (ms, g, s) = Some (ms', g', s') \<and>
    drag_ok s' xs \<and> pending_events ms' = [] \<and> touch_protocol (old_ids ms) ps (old_ids ms') \<and> saved ps ms' \<and> touch_notified ps s s'"
  using sync_reached [OF assms] by (auto simp: post_def sync_result_def touch_step_def)

theorem touch_reports_follow_protocol_witness:
  "\<exists>ps ms' g' s'. lens_input_pointerEvents_handleSync example_scale 0 example_screen
      (queued (touch_at [(880, 900)]) (fst example_down), fst (snd example_down), lens_init 800 600) = Some (ms', g', s') \<and>
    drag_ok s' [] \<and> pending_events ms' = [] \<and> touch_protocol [1, 2] ps (old_ids ms') \<and> saved ps ms' \<and> touch_notified ps (lens_init 800 600) s'"
proof -
  note q = queued_ok [OF example_down_ok(1) example_device(1), of "touch_at [(880, 900)]"]
  have "report_ok 0 (touch_at [(880, 900)])" by code_simp
  then show ?thesis
    using touch_reports_follow_protocol [OF q(1) example_device(1) _ _ init_drag_ok] q(2-4) example_down_ok(2-4) by simp
qed

text \<open>C17: In every reachable state of a touch device the arrays have their sizes, at most 20 points are down, their ids are
  different, positive and smaller than the next id, there is a primary point exactly if a point is down, and it is one of them;
  if multi touch is off and the device is not a single touch device, only the id 1 is used.\<close>

theorem touch_state_invariant:
  assumes "touch_reach scale uninit device ms g" "touch_device device"
  shows "arrays_ok ms \<and> length (old_ids ms) \<le> 20 \<and> distinct (old_ids ms) \<and> (\<forall>t\<in>set (old_ids ms). 1 \<le> t \<and> t < ms_nextTouchID ms) \<and>
    (ms_touchPrimaryPointID ms = - 1 \<longleftrightarrow> old_ids ms = []) \<and> (old_ids ms \<noteq> [] \<longrightarrow> ms_touchPrimaryPointID ms \<in> set (old_ids ms)) \<and>
    (\<not> gUseMultiTouch g \<and> dev_touchProtocolType device \<noteq> TOUCH_PROTOCOL_ST \<longrightarrow> set (old_ids ms) \<subseteq> {1})"
proof -
  have i: "touch_inv g device ms" by (rule touch_reach_inv [OF assms])
  then have "length (old_ids ms) \<le> 20" using ids_length(1) [of ms] arrays_okD(12) [of ms] by (simp add: touch_inv_def)
  with i assms(2) show ?thesis by (auto simp: touch_inv_def touch_device_def single_mode_def split: if_splits)
qed

theorem touch_state_invariant_witness:
  "ms_touchPrimaryPointID (fst example_down) \<in> {1, 2} \<and> distinct (old_ids (fst example_down)) \<and> old_ids (fst example_down) = [1, 2]"
  using touch_state_invariant [OF example_down_ok(1) example_device(1)] example_down_ok(4) by simp

text \<open>C37: In every reachable state, the handling of a report leaves the arrays (or reaches an event that it does not expect)
  exactly if the report is out of range: an axis that does not exist, or a position or tracking id of a touch point after 20
  points. The counter of pending points stops at 20, but \<open>handleAbsMotion\<close> writes at that index without a check.\<close>

theorem touch_report_out_of_range:
  assumes "touch_reach scale uninit device ms g" "touch_device device" "ms_nextTouchID ms + 20 < 2 ^ 31" "drag_ok s xs"
  shows "lens_input_pointerEvents_handleSync scale uninit device (ms, g, s) = None \<longleftrightarrow> \<not> report_ok 0 (pending_events ms)"
proof -
  have "arrays_ok ms" "length (dev_absinfo device) = 64"
    using touch_reach_inv [OF assms(1,2)] assms(2) by (auto simp: touch_inv_def touch_device_def)
  then show ?thesis
    using sync_reached [OF assms(1,2) _ assms(3,4)] handleSync_out_of_range by (auto simp: post_def)
qed

theorem touch_report_out_of_range_witness:
  "lens_input_pointerEvents_handleSync example_scale 0 example_screen
     (queued (touch_at (replicate 21 (5, 5))) lens_input_mouseStateAllocateAndInit, example_globals, lens_init 800 600) = None"
proof -
  note q = queued_ok [OF touch_reach.init [of example_scale 0 example_screen example_globals] example_device(1), of "touch_at (replicate 21 (5, 5))"]
  have "\<not> report_ok 0 (touch_at (replicate 21 (5, 5)))" by code_simp
  moreover have "pending_events lens_input_mouseStateAllocateAndInit = []" "ms_nextTouchID lens_input_mouseStateAllocateAndInit = 0"
    by (simp_all add: pending_events_def lens_input_mouseStateAllocateAndInit_def Let_def)
  ultimately show ?thesis
    using touch_report_out_of_range [OF q(1) example_device(1) _ init_drag_ok] q(2,3) by simp
qed

text \<open>As long as the square of the distance fits into an \<open>int\<close>, the code computes it exactly.\<close>

lemma distance_squared_exact:
  assumes "(x - px)\<^sup>2 + (y - py)\<^sup>2 < 2 ^ 31"
  shows "distance_squared x y px py = (x - px)\<^sup>2 + (y - py)\<^sup>2"
proof -
  have small: "\<bar>a\<bar> < 2 ^ 16" if "a\<^sup>2 < 2 ^ 31" for a :: int
  proof (rule ccontr)
    assume "\<not> \<bar>a\<bar> < 2 ^ 16"
    then have "(2 ^ 16)\<^sup>2 \<le> \<bar>a\<bar>\<^sup>2" by (intro power_mono) simp_all
    with that show False by simp
  qed
  have "(x - px)\<^sup>2 < 2 ^ 31" "(y - py)\<^sup>2 < 2 ^ 31"
    using assms zero_le_power2 [of "x - px"] zero_le_power2 [of "y - py"] by linarith+
  then have "\<bar>x - px\<bar> < 2 ^ 16" "\<bar>y - py\<bar> < 2 ^ 16" by (blast intro: small)+
  then have "s32 (x - px) = x - px" "s32 (y - py) = y - py" by (auto intro!: s32_idem simp: is_jint_def abs_less_iff)
  moreover have "s32 ((x - px)\<^sup>2 + (y - py)\<^sup>2) = (x - px)\<^sup>2 + (y - py)\<^sup>2"
  proof (rule s32_idem)
    have "0 \<le> (x - px)\<^sup>2 + (y - py)\<^sup>2" by simp
    with assms show "is_jint ((x - px)\<^sup>2 + (y - py)\<^sup>2)" unfolding is_jint_def by linarith
  qed
  ultimately show ?thesis by (simp add: distance_squared_def Let_def power2_eq_square)
qed

text \<open>C18: The search for the closest point finds a point whenever there is one that is not mapped yet, so that its assertion
  holds for all coordinates, also after an overflow, because a sum of squares is never \<open>INT_MAX\<close> modulo 4. If the squares
  of the distances to the points that are not mapped yet are below \<open>2 ^ 31\<close>, so that nothing overflows, no such point is
  closer, by the Euclidean distance, than the one that is found.\<close>

theorem closest_point_is_nearest:
  assumes "n \<le> length xs" "n \<le> length ys" "n \<le> length mapped" "i < n" "\<not> mapped ! i"
  shows "\<exists>j. closest n 0 x y xs ys mapped INT_MAX None = Some (Some j) \<and> j < n \<and> \<not> mapped ! j \<and>
    ((\<forall>i<n. \<not> mapped ! i \<longrightarrow> (x - xs ! i)\<^sup>2 + (y - ys ! i)\<^sup>2 < 2 ^ 31) \<longrightarrow>
     (\<forall>i<n. \<not> mapped ! i \<longrightarrow> (x - xs ! j)\<^sup>2 + (y - ys ! j)\<^sup>2 \<le> (x - xs ! i)\<^sup>2 + (y - ys ! i)\<^sup>2))"
proof -
  obtain j where j: "closest n 0 x y xs ys mapped INT_MAX None = Some (Some j)" "j < n" "\<not> mapped ! j"
      "\<forall>i<n. \<not> mapped ! i \<longrightarrow> distance_squared x y (xs ! j) (ys ! j) \<le> distance_squared x y (xs ! i) (ys ! i)"
    using closest_correct [OF assms] by blast
  show ?thesis
  proof (intro exI [of _ j] conjI impI allI)
    fix i
    assume small: "\<forall>i<n. \<not> mapped ! i \<longrightarrow> (x - xs ! i)\<^sup>2 + (y - ys ! i)\<^sup>2 < 2 ^ 31" and i: "i < n" "\<not> mapped ! i"
    have "distance_squared x y (xs ! j) (ys ! j) = (x - xs ! j)\<^sup>2 + (y - ys ! j)\<^sup>2"
        "distance_squared x y (xs ! i) (ys ! i) = (x - xs ! i)\<^sup>2 + (y - ys ! i)\<^sup>2"
      using small i j(2,3) by (blast intro: distance_squared_exact)+
    then show "(x - xs ! j)\<^sup>2 + (y - ys ! j)\<^sup>2 \<le> (x - xs ! i)\<^sup>2 + (y - ys ! i)\<^sup>2" using j(4) i by metis
  qed (use j in simp_all)
qed

theorem closest_point_is_nearest_witness:
  "\<exists>j. closest 3 0 7 7 [0, 5, 6] [0, 5, 9] [False, False, True] INT_MAX None = Some (Some j) \<and> j = 1"
proof -
  have all: "(\<forall>i<3. P i) \<longleftrightarrow> P 0 \<and> P 1 \<and> P (2 :: nat)" for P by (simp add: numeral_3_eq_3 less_Suc_eq all_conj_distrib numeral_2_eq_2)
  obtain j where j: "closest 3 0 7 7 [0, 5, 6] [0, 5, 9] [False, False, True] INT_MAX None = Some (Some j)" "j < 3"
      "\<not> [False, False, True] ! j" "(7 - [0, 5, 6] ! j)\<^sup>2 + (7 - [0, 5, 9] ! j)\<^sup>2 \<le> (8 :: int)"
    using closest_point_is_nearest [of 3 "[0, 5, 6]" "[0, 5, 9]" "[False, False, True]" 0 7 7] by (auto simp: all power2_eq_square)
  from j(2) consider "j = 0" | "j = 1" | "j = 2" by linarith
  then have "j = 1" using j(3,4) by cases (simp_all add: power2_eq_square)
  with j(1) show ?thesis by blast
qed

text \<open>Beyond that bound the search can take the wrong point: of the points at the distances 1 and 46341 it takes the second
  one, whose squared distance is negative after the overflow.\<close>

lemma closest_overflow_takes_far_point: "closest 2 0 0 0 [1, 46341] [0, 0] [False, False] INT_MAX None = Some (Some 1)"
  by code_simp

text \<open>The queue of a report refines a list: queueing events succeeds while memory lasts, appends them in order, keeps the
  size of the arrays and changes nothing else of the state. When the memory for a full queue cannot be allocated, the event is
  dropped.\<close>

lemma report_queue_refines_list:
  assumes "arrays_ok ms"
  shows "(\<exists>ms'. fold (\<lambda>e r. r \<bind> lens_input_pointerEvents_enqueuePendingEvent True e) es (Some ms) = Some ms' \<and> arrays_ok ms' \<and>
      pending_events ms' = pending_events ms @ es \<and> without_queue ms' = without_queue ms) \<and>
    (ms_pendingInputEventCount ms = length (ms_pendingInputEvents ms) \<longrightarrow>
      lens_input_pointerEvents_enqueuePendingEvent False e ms = Some ms)"
  using report_queue.enq_all_content [OF assms, of es]
  by (auto simp: lens_input_pointerEvents_enqueuePendingEvent_def Let_def)

lemma report_queue_refines_list_witness:
  "\<exists>ms'. fold (\<lambda>e r. r \<bind> lens_input_pointerEvents_enqueuePendingEvent True e) (touch_at [(1, 2)]) (Some (fst example_down)) = Some ms' \<and>
     pending_events ms' = touch_at [(1, 2)]"
  using report_queue_refines_list [of "fst example_down" "touch_at [(1, 2)]"] touch_reach_inv [OF example_down_ok(1) example_device(1)]
    example_down_ok(2) by (auto simp: touch_inv_def)

subsection \<open>Single touch devices\<close>

text \<open>The kernel reports an axis only when its value changes: this is the report of a horizontal movement.\<close>

lemma scan_horizontal:
  assumes ms: "arrays_ok ms" and d: "length (dev_absinfo device) = 64" and e: "pending_events ms = [ev EV_ABS ABS_X v]"
    and c: "scan_events scale device 0 (take (ms_pendingInputEventCount ms) (ms_pendingInputEvents ms)) (start_scan ms g) = Some c"
  shows "sc_touchButtonValue c = - 1 \<and> ms_pressedY (sc_state c) = - 1 \<and> ms_pendingTouchPointCount (sc_state c) = 0"
  using c [unfolded e [unfolded pending_events_def]] d arrays_okD(2) [OF ms]
  by (simp add: ev_def scan_event_def scan_abs_def start_scan_def lens_input_pointerEvents_handleAbsMotion_def event_consts
      load_def store_def Let_def) (auto simp: bind_eq_Some_conv split: if_splits)

lemma protocol_all_released:
  assumes "touch_protocol old ps []"
  shows "map tp_id ps = old \<and> (\<forall>p\<in>set ps. tp_state p = TOUCH_RELEASED)"
proof -
  have r: "\<forall>p\<in>set ps. tp_state p = TOUCH_RELEASED" using assms by (auto simp: touch_protocol_def filter_empty_conv)
  then have "filter (\<lambda>p. tp_state p \<noteq> TOUCH_PRESSED) ps = ps" by (simp add: touch_consts filter_id_conv)
  with assms r show ?thesis by (simp add: touch_protocol_def)
qed

text \<open>C38: A finger that moves horizontally on a single touch device, so that the report has the new \<open>ABS_X\<close> only, is reported as
  released: the position counts as reported only if both axes are in the report, and a report without a position releases
  all points.\<close>

theorem single_touch_straight_drag_releases:
  assumes r: "touch_reach scale uninit device ms g" and d: "touch_device device" "dev_touchProtocolType device = TOUCH_PROTOCOL_ST"
    and b: "ms_nextTouchID ms + 20 < 2 ^ 31" and ok: "drag_ok s xs" and e: "pending_events ms = [ev EV_ABS ABS_X v]"
  shows "\<exists>ps ms' g' s'. lens_input_pointerEvents_handleSync scale uninit device (ms, g, s) = Some (ms', g', s') \<and> old_ids ms' = [] \<and>
    touch_notified ps s s' \<and> map tp_id ps = old_ids ms \<and> (\<forall>p\<in>set ps. tp_state p = TOUCH_RELEASED)"
proof -
  have inv: "touch_inv g device ms" by (rule touch_reach_inv [OF r d(1)])
  then have a: "arrays_ok ms" by (simp add: touch_inv_def)
  have d': "length (dev_absinfo device) = 64" "dev_isTouch device" using d(1) by (auto simp: touch_device_def)
  have ro: "report_ok 0 (pending_events ms)" by (simp add: e ev_def event_consts)
  obtain c where c: "scan_events scale device 0 (take (ms_pendingInputEventCount ms) (ms_pendingInputEvents ms)) (start_scan ms g) = Some c"
    "arrays_ok (sc_state c)" "scan_frame (sc_state c) = scan_frame ms" "globals_frame (sc_globals c) = globals_frame g"
    by (rule read_report [OF a d'(1) ro])
  note h = scan_horizontal [OF a d'(1) e c(1)]
  then have "preprocess device c (sc_state c) = Some (Inr (sc_state c))" by (simp add: preprocess_def preprocess_ST_def d(2))
  then have "post (lens_input_pointerEvents_handleSync scale uninit device (ms, g, s))
      (\<lambda>r. sync_result device xs ms g s r \<and> (ms_pendingTouchPointCount (sc_state c) = 0 \<longrightarrow> old_ids (fst r) = []))"
    using process_points_ok [OF inv b ok d'(2) c(2-4), where uninit = uninit and c = c] c(1)
    by (simp add: lens_input_pointerEvents_handleSync_def)
  then show ?thesis
    using h by (auto simp: post_def sync_result_def touch_step_def dest!: protocol_all_released)
qed

definition example_finger :: "LensInputMouseState \<times> LensInputGlobals \<times> LensWM" where
  "example_finger = first_report example_ST [ev EV_ABS ABS_X 100, ev EV_ABS ABS_Y 200, ev EV_KEY BTN_TOUCH 1]"

lemma example_finger_ok:
  "touch_reach example_scale 0 example_ST (fst example_finger) (fst (snd example_finger))" "pending_events (fst example_finger) = []"
  "ms_nextTouchID (fst example_finger) = 2" "old_ids (fst example_finger) = [1]"
proof -
  have r: "report_ok 0 [ev EV_ABS ABS_X 100, ev EV_ABS ABS_Y 200, ev EV_KEY BTN_TOUCH 1]" by code_simp
  show "touch_reach example_scale 0 example_ST (fst example_finger) (fst (snd example_finger))" "pending_events (fst example_finger) = []"
    unfolding example_finger_def by (rule first_report_ok [OF example_device(2) r])+
  show "ms_nextTouchID (fst example_finger) = 2" "old_ids (fst example_finger) = [1]" by code_simp+
qed

theorem single_touch_straight_drag_releases_witness:
  "\<exists>ps ms' g' s'. lens_input_pointerEvents_handleSync example_scale 0 example_ST
      (queued [ev EV_ABS ABS_X 500] (fst example_finger), fst (snd example_finger), lens_init 800 600) = Some (ms', g', s') \<and>
    old_ids ms' = [] \<and> touch_notified ps (lens_init 800 600) s' \<and> map tp_id ps = [1] \<and> (\<forall>p\<in>set ps. tp_state p = TOUCH_RELEASED)"
proof -
  note q = queued_ok [OF example_finger_ok(1) example_device(2), of "[ev EV_ABS ABS_X 500]"]
  have "dev_touchProtocolType example_ST = TOUCH_PROTOCOL_ST" by (simp add: example_ST_def)
  then show ?thesis
    using single_touch_straight_drag_releases [OF q(1) example_device(2) _ _ init_drag_ok, where v = 500] q(2-4) example_finger_ok(2-4) by simp
qed

section \<open>Mice\<close>

text \<open>The events of a mouse: buttons and relative motion.\<close>

definition mouse_event :: "input_event \<Rightarrow> bool" where
  "mouse_event e \<longleftrightarrow> ie_type e = EV_KEY \<or> (ie_type e = EV_REL \<and> ie_code e \<in> {0..<16})"

definition on_screen :: "LensInputGlobals \<Rightarrow> bool" where
  "on_screen g \<longleftrightarrow> li_mousePosX g \<in> {0..<screenWidth g} \<and> li_mousePosY g \<in> {0..<screenHeight g} \<and>
     newMousePosX g \<in> {0..<screenWidth g} \<and> newMousePosY g \<in> {0..<screenHeight g}"

lemma clamp_screen_range: "0 < extent \<Longrightarrow> clamp_screen extent p \<in> {0..<extent}"
  by (auto simp: clamp_screen_def)

lemma rel_motion_on_screen:
  assumes "lens_input_pointerEvents_handleRelMotion e (ms, g) = Some (ms', g')" "on_screen g"
  shows "on_screen g'"
proof -
  have "0 < screenWidth g" "0 < screenHeight g" using assms(2) by (auto simp: on_screen_def)
  then show ?thesis
    using assms clamp_screen_range [of "screenWidth g"] clamp_screen_range [of "screenHeight g"]
    by (auto simp: lens_input_pointerEvents_handleRelMotion_def on_screen_def bind_eq_Some_conv Let_def)
qed

text \<open>Reading a report of a mouse: no touch points, and the index of a key event that is in the queue.\<close>

definition mouse_scan :: "nat \<Rightarrow> sync_scan \<Rightarrow> bool" where
  "mouse_scan n c \<longleftrightarrow> arrays_ok (sc_state c) \<and> ms_pendingTouchPointCount (sc_state c) = 0 \<and> on_screen (sc_globals c) \<and>
     (\<forall>i. sc_keyEventIndex c = Some i \<longrightarrow> i < n)"

lemma scan_mouse_event:
  assumes c: "mouse_scan i c" and e: "mouse_event e"
  shows "post (scan_event scale device i e c) (\<lambda>c'. mouse_scan (Suc i) c' \<and> scan_frame (sc_state c') = scan_frame (sc_state c))"
proof (cases "ie_type e = EV_KEY")
  case True
  then show ?thesis using c by (auto simp: scan_event_def mouse_scan_def)
next
  case False
  then have r: "ie_type e = EV_REL" "ie_code e \<in> {0..<16}" using e by (auto simp: mouse_event_def)
  have a: "arrays_ok (sc_state c)" using c by (simp add: mouse_scan_def)
  obtain ms' g' where m: "lens_input_pointerEvents_handleRelMotion e (sc_state c, sc_globals c) = Some (ms', g')"
    "scan_step (sc_state c, sc_globals c) (ms', g')"
    using rel_motion_ok [OF a r(2), of "sc_globals c"] by (auto simp: post_def)
  have "on_screen g'" using rel_motion_on_screen [OF m(1)] c by (simp add: mouse_scan_def)
  with m c r(1) show ?thesis by (auto simp: scan_event_def event_consts mouse_scan_def scan_step_def intro: less_SucI)
qed

lemma scan_mouse_events:
  assumes "mouse_scan i c" "\<forall>e\<in>set es. mouse_event e"
  shows "post (scan_events scale device i es c) (\<lambda>c'. mouse_scan (i + length es) c' \<and> scan_frame (sc_state c') = scan_frame (sc_state c))"
  using assms
proof (induction es arbitrary: i c)
  case (Cons e es)
  have "post (scan_event scale device i e c) (\<lambda>c'. mouse_scan (Suc i) c' \<and> scan_frame (sc_state c') = scan_frame (sc_state c))"
    by (rule scan_mouse_event) (use Cons.prems in auto)
  then have "post (scan_events scale device i (e # es) c)
      (\<lambda>c'. mouse_scan (Suc i + length es) c' \<and> scan_frame (sc_state c') = scan_frame (sc_state c))"
    unfolding scan_events.simps
  proof (rule post_bindI)
    fix c' assume c': "mouse_scan (Suc i) c' \<and> scan_frame (sc_state c') = scan_frame (sc_state c)"
    then show "post (scan_events scale device (Suc i) es c')
        (\<lambda>c'. mouse_scan (Suc i + length es) c' \<and> scan_frame (sc_state c') = scan_frame (sc_state c))"
      using Cons.IH [of "Suc i" c'] Cons.prems(2) by simp
  qed
  then show ?case by simp
qed simp

lemma report_mouse_ok:
  assumes c: "mouse_scan (ms_pendingInputEventCount ms) c" and ms: "arrays_ok ms" and g: "on_screen g" and ok: "drag_ok s xs"
  shows "post (report_mouse device c ms g s) (\<lambda>(ms', g', s'). arrays_ok ms' \<and> on_screen g' \<and> drag_ok s' xs)"
proof (cases "dev_isTouch device")
  case True
  then show ?thesis using ms g ok by (simp add: report_mouse_def)
next
  case False
  let ?g = "g\<lparr>li_mousePosX := newMousePosX g, li_mousePosY := newMousePosY g\<rparr>"
  have key: "post (case sc_keyEventIndex c of None \<Rightarrow> Some s | Some i \<Rightarrow> do {
      e \<leftarrow> at (ms_pendingInputEvents ms) i; lens_input_pointerEvents_handleKeyEvent e ?g s }) (\<lambda>s'. drag_ok s' xs)"
  proof (cases "sc_keyEventIndex c")
    case (Some i)
    then have "i < length (ms_pendingInputEvents ms)" using c arrays_okD(14) [OF ms] by (auto simp: mouse_scan_def)
    then show ?thesis
      using Some by (auto simp: lens_input_pointerEvents_handleKeyEvent_def drags_def intro: post_mono [OF notifyButtonEvent_drags [OF ok]])
  qed (use ok in simp)
  have scroll: "post (lens_wm_notifyScrollEvent x y step t) (\<lambda>s'. drag_ok s' xs)" if "drag_ok t xs" for x y step t
    by (rule post_mono [OF drags_keeps [OF that notifyScrollEvent_keeps]]) (use that in \<open>auto simp: drag_ok_def drags_def\<close>)
  have load: "load (ms_rel ms) REL_WHEEL = Some (ms_rel ms ! 8)" using arrays_okD(1) [OF ms] by (simp add: load_def REL_WHEEL_def)
  have move: "post (do {
         s \<leftarrow> lens_wm_notifyMotionEvent (li_mousePosX ?g) (li_mousePosY ?g) t;
         wheel \<leftarrow> load (ms_rel ms) REL_WHEEL;
         s \<leftarrow> (if wheel \<noteq> 0 then lens_wm_notifyScrollEvent (li_mousePosX ?g) (li_mousePosY ?g) wheel s else Some s);
         Some (ms\<lparr>ms_rel := map (\<lambda>_. 0) (ms_rel ms)\<rparr>, ?g, s)
       }) (\<lambda>(ms', g', s'). arrays_ok ms' \<and> on_screen g' \<and> drag_ok s' xs)" if t: "drag_ok t xs" for t
  proof (rule post_bindI [OF notifyMotionEvent_drags [OF t]])
    fix u assume "drags xs t u"
    then have u: "drag_ok u xs" by (simp add: drags_def)
    show "post (do {
         wheel \<leftarrow> load (ms_rel ms) REL_WHEEL;
         s \<leftarrow> (if wheel \<noteq> 0 then lens_wm_notifyScrollEvent (li_mousePosX ?g) (li_mousePosY ?g) wheel u else Some u);
         Some (ms\<lparr>ms_rel := map (\<lambda>_. 0) (ms_rel ms)\<rparr>, ?g, s)
       }) (\<lambda>(ms', g', s'). arrays_ok ms' \<and> on_screen g' \<and> drag_ok s' xs)"
      using scroll [OF u] u ms g arrays_okD(1) [OF ms]
      by (auto simp: load on_screen_def arrays_ok_upd post_bind elim!: post_mono)
  qed
  show ?thesis
    unfolding report_mouse_def Let_def if_not_P [OF False]
    by (rule post_bindI [OF key], cases "sc_reportMouseMove c") (use move ms g in \<open>auto simp: on_screen_def\<close>)
qed

text \<open>C19: The handling of a report of a mouse returns, keeps the window manager sound, empties the queue and keeps the pointer on the
  screen, whatever the distances in the report are, even when the addition overflows.\<close>

theorem mouse_stays_on_screen:
  assumes ms: "arrays_ok ms" and d: "\<not> dev_isTouch device" "dev_touchProtocolType device = TOUCH_PROTOCOL_NONE"
    and e: "\<forall>e\<in>set (pending_events ms). mouse_event e" and g: "on_screen g" and ok: "drag_ok s xs"
  shows "\<exists>ms' g' s'. lens_input_pointerEvents_handleSync scale uninit device (ms, g, s) = Some (ms', g', s') \<and>
    arrays_ok ms' \<and> pending_events ms' = [] \<and> old_ids ms' = [] \<and> on_screen g' \<and> drag_ok s' xs"
proof -
  have "mouse_scan 0 (start_scan ms g)" using start_scan_ok [OF ms, of g] g by (simp add: mouse_scan_def start_scan_def)
  then obtain c where c: "scan_events scale device 0 (pending_events ms) (start_scan ms g) = Some c" "mouse_scan (length (pending_events ms)) c"
    "scan_frame (sc_state c) = scan_frame ms"
    using scan_mouse_events [of 0 "start_scan ms g" "pending_events ms" scale device] e start_scan_ok(2) [OF ms] by (auto simp: post_def)
  let ?m = "sc_state c"
  have n: "length (pending_events ms) = ms_pendingInputEventCount ?m"
    using arrays_okD(14) [OF ms] scan_frame_fields(11) [OF c(3)] by (simp add: pending_events_def)
  have m: "arrays_ok ?m" "on_screen (sc_globals c)" "ms_pendingTouchPointCount ?m = 0" using c(2) by (auto simp: mouse_scan_def)
  obtain ms' g' s' where r: "report_mouse device c ?m (sc_globals c) s = Some (ms', g', s')" "arrays_ok ms'" "on_screen g'" "drag_ok s' xs"
    using report_mouse_ok [OF c(2) [unfolded n] m(1,2) ok, of device] by (auto simp: post_def)
  have "lens_input_pointerEvents_handleSync scale uninit device (ms, g, s) =
      Some (ms'\<lparr>ms_pendingInputEventCount := 0, ms_touchPointCount := 0\<rparr>, g', s')"
    using c(1) d m(3) r(1)
    by (simp add: lens_input_pointerEvents_handleSync_def pending_events_def preprocess_def assign_ids_def touch_points_def notify_touch_def save_points_def)
  with r(2-4) show ?thesis by (simp add: arrays_ok_upd pending_events_def old_ids_def)
qed

definition example_mouse :: LensInputDevice where
  "example_mouse = \<lparr>dev_isKeyboard = False, dev_isPointer = True, dev_isTouch = False,
     dev_touchProtocolType = TOUCH_PROTOCOL_NONE, dev_absinfo = example_axes\<rparr>"

theorem mouse_stays_on_screen_witness:
  "\<exists>ms' g' s'. lens_input_pointerEvents_handleSync example_scale 0 example_mouse
      (queued [ev EV_REL REL_X (- 500), ev EV_REL REL_Y 2147483647, ev EV_KEY BTN_LEFT 1] lens_input_mouseStateAllocateAndInit,
       example_globals, lens_init 800 600) = Some (ms', g', s') \<and> on_screen g' \<and> drag_ok s' []"
proof -
  let ?es = "[ev EV_REL REL_X (- 500), ev EV_REL REL_Y 2147483647, ev EV_KEY BTN_LEFT 1]"
  note i = touch_reach.init [of example_scale 0 example_screen example_globals]
  note q = queued_ok [OF i example_device(1), of ?es]
  have "arrays_ok (queued ?es lens_input_mouseStateAllocateAndInit)" using touch_reach_inv [OF q(1) example_device(1)] by (simp add: touch_inv_def)
  moreover have "pending_events (queued ?es lens_input_mouseStateAllocateAndInit) = ?es"
    using q(2) by (simp add: pending_events_def lens_input_mouseStateAllocateAndInit_def Let_def)
  moreover have "\<forall>e\<in>set ?es. mouse_event e" by (simp add: mouse_event_def ev_def event_consts)
  moreover have "on_screen example_globals" by (simp add: on_screen_def example_globals_def)
  moreover have "\<not> dev_isTouch example_mouse" "dev_touchProtocolType example_mouse = TOUCH_PROTOCOL_NONE" by (simp_all add: example_mouse_def)
  ultimately show ?thesis using mouse_stays_on_screen [OF _ _ _ _ _ init_drag_ok, of "queued ?es lens_input_mouseStateAllocateAndInit"] by metis
qed

section \<open>Keys\<close>

text \<open>The mask of the modifiers agrees with the counters of the keys that are down.\<close>

definition modifiers_ok :: "KeyState \<Rightarrow> LensWM \<Rightarrow> bool" where
  "modifiers_ok k s \<longleftrightarrow> bit (modifiersMask s) 0 = (shiftDown k \<noteq> 0) \<and> bit (modifiersMask s) 2 = (ctrlDown k \<noteq> 0) \<and>
     bit (modifiersMask s) 3 = (altDown k \<noteq> 0) \<and> bit (modifiersMask s) 4 = (metaDown k \<noteq> 0)"

fun key_run :: "bool \<Rightarrow> input_event list \<Rightarrow> KeyState \<times> LensWM \<Rightarrow> (KeyState \<times> LensWM) option" where
  "key_run trapCtrlC [] ks = Some ks"
| "key_run trapCtrlC (e # es) ks = do { ks \<leftarrow> lens_input_keyEvents_handleEvent trapCtrlC e ks; key_run trapCtrlC es ks }"

lemma set_modifier_bit:
  "bit (modifiersMask (set_modifier (2 ^ n) count s)) i = (if i = n then count \<noteq> 0 else bit (modifiersMask s) i)"
  by (auto simp: set_modifier_def bit_simps)

lemma modifier_bits:
  "MODIFIER_SHIFT = 2 ^ 0" "MODIFIER_CONTROL = 2 ^ 2" "MODIFIER_ALT = 2 ^ 3" "MODIFIER_WINDOWS = 2 ^ 4"
  by (simp_all add: MODIFIER_SHIFT_def MODIFIER_CONTROL_def MODIFIER_ALT_def MODIFIER_WINDOWS_def)

lemmas set_modifier_bits =
  set_modifier_bit [of 0, folded modifier_bits(1)] set_modifier_bit [of 2, folded modifier_bits(2)]
  set_modifier_bit [of 3, folded modifier_bits(3)] set_modifier_bit [of 4, folded modifier_bits(4)]

definition keys_step :: "KeyState \<times> LensWM \<Rightarrow> KeyState \<times> LensWM \<Rightarrow> bool" where
  "keys_step ks ks' \<longleftrightarrow> (modifiers_ok (fst ks) (snd ks) \<longrightarrow> modifiers_ok (fst ks') (snd ks')) \<and>
     (\<forall>i. i = 1 \<or> 4 < i \<longrightarrow> bit (modifiersMask (snd ks')) i = bit (modifiersMask (snd ks)) i)"

lemma updateKeyModifiers_step: "keys_step (k, s) (glass_inputEvents_updateKeyModifiers key t (k, s))"
proof (cases "t \<noteq> KEY_PRESS \<and> t \<noteq> KEY_RELEASE")
  case True
  then show ?thesis by (simp add: keys_step_def glass_inputEvents_updateKeyModifiers_def)
next
  case False
  note d = glass_inputEvents_updateKeyModifiers_def if_not_P [OF False] keys_step_def modifiers_ok_def Let_def prod.case fst_conv snd_conv
  note c = VK_SHIFT_def VK_CONTROL_def VK_ALT_def VK_WINDOWS_def
  consider "key = VK_SHIFT" | "key = VK_CONTROL" | "key = VK_ALT" | "key = VK_WINDOWS" | "key \<notin> {VK_SHIFT, VK_CONTROL, VK_ALT, VK_WINDOWS}" by blast
  then show ?thesis unfolding d by cases (simp_all add: set_modifier_bits c)
qed

lemma emit_mask [simp]: "modifiersMask (emit e s) = modifiersMask s"
  by (simp add: emit_def)

lemma keys_step_refl [simp]: "keys_step ks ks"
  by (simp add: keys_step_def)

lemma keys_step_mask: "keys_step ks (k, s) \<Longrightarrow> modifiersMask s' = modifiersMask s \<Longrightarrow> keys_step ks (k, s')"
  by (simp add: keys_step_def modifiers_ok_def)

lemma notifyKeyEvent_step:
  assumes "glass_application_notifyKeyEvent trapCtrlC window t code rep (k, s) = Some ks'"
  shows "keys_step (k, s) ks'"
proof -
  obtain k1 s1 where u: "glass_inputEvents_updateKeyModifiers code t (k, s) = (k1, s1)" by force
  have "ks' = (k, s) \<or> (\<exists>s2. ks' = (k1, s2) \<and> modifiersMask s2 = modifiersMask s1)"
    using assms unfolding glass_application_notifyKeyEvent_def Let_def prod.case u
    by (auto simp: bind_eq_Some_conv split: option.split_asm if_split_asm)
  then show ?thesis using keys_step_mask [of "(k, s)" k1 s1] updateKeyModifiers_step [of k s code t] u by auto
qed

lemma handleEvent_step:
  assumes "lens_input_keyEvents_handleEvent trapCtrlC e ks = Some ks'"
  shows "keys_step ks ks'"
  using assms notifyKeyEvent_step [of trapCtrlC "focusedWindow (snd ks)" _ _ _ "fst ks" "snd ks" ks']
  by (auto simp: lens_input_keyEvents_handleEvent_def Let_def split: if_splits)

text \<open>C20: After any sequence of key events the mask of the modifiers that is reported with events has the bit of a modifier exactly if
  the counter of its keys is not zero, and the bits of the mouse buttons in the same mask are not touched.\<close>

theorem key_modifiers_agree:
  assumes "key_run trapCtrlC es (k, s) = Some (k', s')" "modifiers_ok k s"
  shows "modifiers_ok k' s' \<and> drop_bit 5 (modifiersMask s') = drop_bit 5 (modifiersMask s)"
proof -
  have "keys_step ks ks'" if "key_run trapCtrlC es ks = Some ks'" for ks ks'
    using that
  proof (induction es arbitrary: ks)
    case (Cons e es)
    then obtain k1 where "lens_input_keyEvents_handleEvent trapCtrlC e ks = Some k1" "key_run trapCtrlC es k1 = Some ks'"
      by (auto simp: bind_eq_Some_conv)
    with Cons.IH [of k1] handleEvent_step [of trapCtrlC e ks k1] show ?case by (simp add: keys_step_def)
  qed simp
  from this [OF assms(1)] assms(2) show ?thesis
    by (auto simp: keys_step_def bit_eq_iff bit_simps)
qed

text \<open>A window with a view that has the focus.\<close>

definition example_focus :: LensWM where
  "example_focus = example_windows\<lparr>focusedWindow := Some 7, windows := (windows example_windows)(7 \<mapsto>
     (the (windows example_windows 7))\<lparr>nw_view := Some 1\<rparr>), views := [1 \<mapsto> \<lparr>nv_lensView = True, nv_parent = Some 7\<rparr>], modifiersMask := 32\<rparr>"

definition example_keys :: KeyState where
  "example_keys = \<lparr>shiftDown = 0, ctrlDown = 0, altDown = 0, metaDown = 0, capsOn = False\<rparr>"

text \<open>Both shift keys are pressed and one of them is released.\<close>

theorem key_modifiers_agree_witness:
  "case key_run False [ev EV_KEY 42 1, ev EV_KEY 54 1, ev EV_KEY 42 0] (example_keys, example_focus) of
     None \<Rightarrow> False | Some (k', s') \<Rightarrow> modifiers_ok k' s' \<and> drop_bit 5 (modifiersMask s') = 1 \<and> shiftDown k' = 1"
proof -
  let ?r = "key_run False [ev EV_KEY 42 1, ev EV_KEY 54 1, ev EV_KEY 42 0] (example_keys, example_focus)"
  have "?r \<noteq> None" by (rule not_None_code) code_simp
  then obtain k' s' where r: "?r = Some (k', s')" by auto
  have "shiftDown (fst (the ?r)) = 1" by code_simp
  moreover have "modifiers_ok example_keys example_focus" "drop_bit 5 (modifiersMask example_focus) = 1"
    by (simp_all add: modifiers_ok_def example_keys_def example_focus_def bit_iff_odd drop_bit_eq_div)
  ultimately show ?thesis using key_modifiers_agree [OF r] by (simp add: r del: key_run.simps)
qed

subsection \<open>Letters\<close>

text \<open>The letter keys type a letter: the upper case letter exactly if one of caps lock and shift is on, and the code of the key is
  found again from the letter.\<close>

lemma letter_keys_round_trip:
  assumes "glass_inputEvents_isAlpha code" "\<bar>shiftDown k\<bar> < 256"
  shows "\<exists>c. glass_inputEvents_getKeyChar code k = Some [c] \<and> glass_inputEvents_getJavaKeyCodeFromJChar c = code \<and>
    of_char c = (if capsOn k = (shiftDown k \<noteq> 0) then code + 32 else code)"
proof -
  have all: "\<forall>j\<in>set [65..90]. (case key_search (\<lambda>e. km_jfxKeyCode e = j) keyMap of None \<Rightarrow> False
     | Some e \<Rightarrow> km_keyStr e = [char_of (j + 32)] \<and> km_keyStrWithShift e = [char_of j]) \<and>
     glass_inputEvents_getJavaKeyCodeFromJChar (char_of (j + 32)) = j \<and> glass_inputEvents_getJavaKeyCodeFromJChar (char_of j) = j"
    by code_simp
  have r: "65 \<le> code" "code \<le> 90" using assms(1) by (auto simp: glass_inputEvents_isAlpha_def VK_A_def VK_Z_def)
  then have "code \<in> set [65..90]" unfolding set_upto by simp
  from bspec [OF all this] obtain e where e: "key_search (\<lambda>e. km_jfxKeyCode e = code) keyMap = Some e" "km_keyStr e = [char_of (code + 32)]"
    "km_keyStrWithShift e = [char_of code]" "glass_inputEvents_getJavaKeyCodeFromJChar (char_of (code + 32)) = code"
    "glass_inputEvents_getJavaKeyCodeFromJChar (char_of code) = code"
    by (auto split: option.splits)
  have "shiftDown k mod 256 = 0 \<longleftrightarrow> shiftDown k = 0" using assms(2) by presburger
  then have s: "glass_inputEvents_checkForShift code k \<longleftrightarrow> capsOn k \<noteq> (shiftDown k \<noteq> 0)"
    using assms(1) by (auto simp: glass_inputEvents_checkForShift_def)
  have "of_char (char_of code :: char) = code" "of_char (char_of (code + 32) :: char) = code + 32"
    using r by (simp_all add: of_char_of)
  with e s show ?thesis by (cases "glass_inputEvents_checkForShift code k") (auto simp: glass_inputEvents_getKeyChar_def)
qed

lemma letter_keys_round_trip_witness:
  "\<exists>c. glass_inputEvents_getKeyChar 81 (example_keys\<lparr>capsOn := True\<rparr>) = Some [c] \<and> glass_inputEvents_getJavaKeyCodeFromJChar c = 81 \<and>
    of_char c = (81 :: jint)"
  using letter_keys_round_trip [of 81 "example_keys\<lparr>capsOn := True\<rparr>"]
  by (simp add: glass_inputEvents_isAlpha_def VK_A_def VK_Z_def example_keys_def)

end
