(* ===== verification/LensDevices.thy ===== *)
theory LensDevices
  imports LensInput
begin

text \<open>
  The input devices of Lens (\<^verbatim>\<open>input/udev/udevInput.c\<close>): their list, opening and releasing, hot plugging by udev, the
  test devices, and the reading of events from device files.

  Devices are objects on a heap, a partial map from addresses; a \<open>NULL\<close> pointer and a device that was freed
  are both \<open>None\<close>. What the system answers (an address or a failure of the allocation, the result of \<open>open\<close>, of the
  control calls and of \<open>epoll_ctl\<close>) is a parameter of an operation.
\<close>

section \<open>Data\<close>

type_synonym did = nat

type_synonym byte = "8 word"

text \<open>\<open>in_keybits\<close> and \<open>in_absbits\<close> are the bit sets of the capabilities.\<close>

record DeviceInfo =
  in_devNode :: string
  in_vendorId :: nat
  in_productId :: nat
  in_keybits :: "jint \<Rightarrow> bool"
  in_absbits :: "jint \<Rightarrow> bool"

text \<open>
  The buffer \<open>readInputEvents\<close>, if it is allocated, with the bytes before \<open>readOffset\<close>.
\<close>

record Device =
  d_fd :: jint
  d_info :: "DeviceInfo option"
  d_isNotified :: bool
  d_isEnabled :: bool
  d_isTestDevice :: bool
  d_kind :: LensInputDevice
  d_state :: "LensInputMouseState option"
  d_readInputEvents :: "byte list option"
  d_previousDevice :: "did option"
  d_nextDevice :: "did option"

text \<open>The static variables of the list, and the notifications of the application.\<close>

record LensDevices =
  devices :: "did \<rightharpoonup> Device"
  devicesList_head :: "did option"
  devicesList_tail :: "did option"
  gNumOfAttachedDevices :: int
  deviceEvents :: "(jint \<times> bool) list"

definition dev_upd :: "did \<Rightarrow> (Device \<Rightarrow> Device) \<Rightarrow> LensDevices \<Rightarrow> LensDevices option" where
  "dev_upd d f s = do { n \<leftarrow> devices s d; Some (s\<lparr>devices := (devices s)(d \<mapsto> f n)\<rparr>) }"

definition EVENTS_PER_READ :: nat where "EVENTS_PER_READ = 150"

definition DEVICE_TOUCH :: nat where "DEVICE_TOUCH = 0"

definition DEVICE_MULTITOUCH :: nat where "DEVICE_MULTITOUCH = 1"

definition DEVICE_POINTER :: nat where "DEVICE_POINTER = 2"

definition DEVICE_5WAY :: nat where "DEVICE_5WAY = 3"

definition DEVICE_PC_KEYBOARD :: nat where "DEVICE_PC_KEYBOARD = 4"

definition KEYBITS_ARROWS :: "jint list" where
  "KEYBITS_ARROWS = [103, 108, 105, 106]"

definition KEYBITS_SELECT :: "jint list" where
  "KEYBITS_SELECT = [28, 0x161]"

definition KEYBITS_PC :: "jint list" where
  "KEYBITS_PC = [30, 48, 46, 32, 18, 33, 34, 35, 23, 36, 37, 38, 50, 49, 24, 25, 16, 19, 31, 20, 22, 47, 17, 45, 21, 44,
     2, 3, 4, 5, 6, 7, 8, 9, 10, 11, 42, 15]"

section \<open>The list of devices\<close>

definition lens_input_listAdd :: "did option \<Rightarrow> LensDevices \<Rightarrow> LensDevices option" where
  "lens_input_listAdd device s = (case device of
     None \<Rightarrow> Some s
   | Some d \<Rightarrow> do {
       let s = (if devicesList_head s = None then s\<lparr>devicesList_head := Some d\<rparr> else s);
       s \<leftarrow> (case devicesList_tail s of
               Some t \<Rightarrow> dev_upd t (\<lambda>n. n\<lparr>d_nextDevice := Some d\<rparr>) s
             | None \<Rightarrow> Some s);
       s \<leftarrow> dev_upd d (\<lambda>n. n\<lparr>d_previousDevice := devicesList_tail s\<rparr>) s;
       Some (s\<lparr>devicesList_tail := Some d, gNumOfAttachedDevices := gNumOfAttachedDevices s + 1\<rparr>)
     })"

definition lens_input_listRemove :: "did option \<Rightarrow> LensDevices \<Rightarrow> LensDevices option" where
  "lens_input_listRemove device s = (case device of
     None \<Rightarrow> Some s
   | Some d \<Rightarrow> do {
       n \<leftarrow> devices s d;
       s \<leftarrow> (case d_previousDevice n of
               Some p \<Rightarrow> dev_upd p (\<lambda>pn. pn\<lparr>d_nextDevice := d_nextDevice n\<rparr>) s
             | None \<Rightarrow> Some (s\<lparr>devicesList_head := d_nextDevice n\<rparr>));
       n \<leftarrow> devices s d;
       s \<leftarrow> (case d_nextDevice n of
               Some x \<Rightarrow> dev_upd x (\<lambda>xn. xn\<lparr>d_previousDevice := d_previousDevice n\<rparr>) s
             | None \<Rightarrow> Some (s\<lparr>devicesList_tail := d_previousDevice n\<rparr>));
       Some (s\<lparr>gNumOfAttachedDevices := gNumOfAttachedDevices s - 1\<rparr>)
     })"

definition lens_input_isDeviceExists :: "did option \<Rightarrow> LensDevices \<Rightarrow> bool option" where
  "lens_input_isDeviceExists device s = do {
     r \<leftarrow> window_walk (devices s) d_nextDevice
            (\<lambda>d n acc. if Some d = device then Inl True else Inr acc) (devicesList_head s) ();
     Some (case r of Inl b \<Rightarrow> b | Inr _ \<Rightarrow> False)
   }"

text \<open>
  A device of udev: its action, its nodes, its properties, and the vendor and product that
  \<open>udevParseProductID\<close> reads from the property of its parent, if it succeeds.
\<close>

record udev_device =
  ud_action :: "string option"
  ud_sysPath :: "string option"
  ud_devNode :: "string option"
  ud_productID :: "(nat \<times> nat) option"
  ud_properties :: "string list"

text \<open>The comparison reads the information of every device that it reaches.\<close>

definition same_device :: "udev_device \<Rightarrow> nat \<Rightarrow> nat \<Rightarrow> DeviceInfo \<Rightarrow> bool" where
  "same_device u vendorId productId info \<longleftrightarrow>
     (in_vendorId info = vendorId \<and> in_productId info = productId) \<or> ud_devNode u = Some (in_devNode info)"

definition lens_input_isUdevDeviceExists :: "udev_device \<Rightarrow> LensDevices \<Rightarrow> did option option" where
  "lens_input_isUdevDeviceExists u s = (
     if devicesList_head s = None then Some None
     else case ud_productID u of
       None \<Rightarrow> Some None
     | Some (vendorId, productId) \<Rightarrow> do {
         r \<leftarrow> window_walk (devices s) d_nextDevice
                (\<lambda>d n acc. case d_info n of
                   None \<Rightarrow> Inl None
                 | Some info \<Rightarrow> if same_device u vendorId productId info then Inl (Some d) else Inr acc)
                (devicesList_head s) ();
         case r of Inl None \<Rightarrow> None | Inl (Some d) \<Rightarrow> Some (Some d) | Inr _ \<Rightarrow> Some None
       })"

section \<open>Opening and releasing\<close>

text \<open>What the system answers while a device is created; \<open>None\<close> is a control call that fails.\<close>

record device_caps =
  cap_eventMask :: "(jint \<Rightarrow> bool) option"
  cap_keybits :: "(jint \<Rightarrow> bool) option"
  cap_relbits :: "(jint \<Rightarrow> bool) option"
  cap_absbits :: "(jint \<Rightarrow> bool) option"
  cap_absinfo :: "jint \<Rightarrow> absinfo option"

record platform =
  pf_device :: "did option"
  pf_buffer :: bool
  pf_info :: bool
  pf_open :: jint
  pf_caps :: device_caps
  pf_state :: bool
  pf_grab :: bool
  pf_epoll :: bool

definition device_flags :: "LensInputDevice \<Rightarrow> DeviceInfo \<Rightarrow> jint" where
  "device_flags k info = (
     let keys = in_keybits info;
         pointing = (if dev_isTouch k then
             2 ^ DEVICE_TOUCH + (if dev_touchProtocolType k \<notin> {TOUCH_PROTOCOL_NONE, TOUCH_PROTOCOL_ST} then 2 ^ DEVICE_MULTITOUCH else 0)
           else if dev_isPointer k then 2 ^ DEVICE_POINTER else 0);
         is5Way = (list_all keys KEYBITS_ARROWS \<and> list_ex keys KEYBITS_SELECT)
     in pointing + (if is5Way then 2 ^ DEVICE_5WAY + (if list_all keys KEYBITS_PC then 2 ^ DEVICE_PC_KEYBOARD else 0) else 0))"

definition lens_input_deviceNotify :: "did \<Rightarrow> bool \<Rightarrow> LensDevices \<Rightarrow> LensDevices option" where
  "lens_input_deviceNotify d attach s = do {
     n \<leftarrow> devices s d;
     if attach = d_isNotified n then Some s
     else do {
       info \<leftarrow> d_info n;
       s \<leftarrow> dev_upd d (\<lambda>n. n\<lparr>d_isNotified := attach\<rparr>) s;
       Some (s\<lparr>deviceEvents := deviceEvents s @ [(device_flags (d_kind n) info, attach)]\<rparr>)
     }
   }"

text \<open>The state, the information and the buffer of the device are freed with it.\<close>

definition lens_input_deviceRelease :: "did option \<Rightarrow> LensDevices \<Rightarrow> LensDevices option" where
  "lens_input_deviceRelease device s = (case device of
     None \<Rightarrow> Some s
   | Some d \<Rightarrow> do {
       n \<leftarrow> devices s d;
       s \<leftarrow> (if d_fd n \<noteq> - 1 then dev_upd d (\<lambda>n. n\<lparr>d_fd := - 1\<rparr>) s else Some s);
       s \<leftarrow> lens_input_deviceNotify d False s;
       Some (s\<lparr>devices := (devices s)(d := None)\<rparr>)
     })"

fun read_absinfo :: "(jint \<Rightarrow> absinfo option) \<Rightarrow> (jint \<Rightarrow> bool) \<Rightarrow> nat list \<Rightarrow> absinfo list \<Rightarrow> absinfo list option" where
  "read_absinfo ctl absbits [] infos = Some infos"
| "read_absinfo ctl absbits (axis # axes) infos = do {
     infos \<leftarrow> (if absbits (int axis) then do { i \<leftarrow> ctl (int axis); store infos (int axis) i } else Some infos);
     read_absinfo ctl absbits axes infos
   }"

definition read_device_caps :: "device_caps \<Rightarrow> DeviceInfo \<Rightarrow> LensInputDevice \<Rightarrow> (DeviceInfo \<times> LensInputDevice) option" where
  "read_device_caps c info k = do {
     eventMask \<leftarrow> cap_eventMask c;
     keys \<leftarrow> (if eventMask EV_KEY then cap_keybits c else Some (in_keybits info));
     rels \<leftarrow> (if eventMask EV_REL then cap_relbits c else Some (\<lambda>_. False));
     let info = info\<lparr>in_keybits := keys\<rparr>;
     if \<not> eventMask EV_ABS then Some (info, k)
     else do {
       absbits \<leftarrow> cap_absbits c;
       infos \<leftarrow> read_absinfo (cap_absinfo c) absbits [0..<64] (dev_absinfo k);
       Some (info\<lparr>in_absbits := absbits\<rparr>, lens_input_checkTouchSupportLevel absbits (k\<lparr>dev_absinfo := infos\<rparr>))
     }
   }"

text \<open>
  When one of the control calls fails, the device keeps what was read before; nothing refers to such a device
  afterwards.
\<close>

definition lens_input_deviceInitCapabilities :: "platform \<Rightarrow> did \<Rightarrow> LensDevices \<Rightarrow> (bool \<times> LensDevices) option" where
  "lens_input_deviceInitCapabilities pf d s = do {
     n \<leftarrow> devices s d;
     if d_isTestDevice n then Some (True, s)
     else do {
       info \<leftarrow> d_info n;
       case read_device_caps (pf_caps pf) info (d_kind n) of
         None \<Rightarrow> Some (False, s)
       | Some (info, k) \<Rightarrow> do {
           s \<leftarrow> dev_upd d (\<lambda>n. n\<lparr>d_info := Some info, d_kind := k\<rparr>) s;
           Some (True, s)
         }
     }
   }"

text \<open>The result is whether the device was opened.\<close>

definition lens_input_deviceOpen :: "platform \<Rightarrow> did \<Rightarrow> LensDevices \<Rightarrow> (bool \<times> LensDevices) option" where
  "lens_input_deviceOpen pf d s = do {
     s \<leftarrow> dev_upd d (\<lambda>n. n\<lparr>d_fd := pf_open pf\<rparr>) s;
     if pf_open pf = - 1 then do { s \<leftarrow> lens_input_deviceRelease (Some d) s; Some (False, s) }
     else do {
       (ok, s) \<leftarrow> lens_input_deviceInitCapabilities pf d s;
       if \<not> ok then Some (False, s)
       else do {
         n \<leftarrow> devices s d;
         let pointing = (dev_isPointer (d_kind n) \<or> dev_isTouch (d_kind n));
         let fresh = (d_state n = None);
         if pointing \<and> fresh \<and> \<not> pf_state pf then do { s \<leftarrow> lens_input_deviceRelease (Some d) s; Some (False, s) }
         else do {
           s \<leftarrow> dev_upd d (\<lambda>n. if pointing \<and> fresh then n\<lparr>d_state := Some lens_input_mouseStateAllocateAndInit\<rparr> else n) s;
           if \<not> d_isTestDevice n \<and> \<not> pf_grab pf then do { s \<leftarrow> lens_input_deviceRelease (Some d) s; Some (False, s) }
           else do { s \<leftarrow> lens_input_deviceNotify d True s; Some (True, s) }
         }
       }
     }
   }"

definition new_kind :: LensInputDevice where
  "new_kind = \<lparr>dev_isKeyboard = False, dev_isPointer = False, dev_isTouch = False, dev_touchProtocolType = TOUCH_PROTOCOL_NONE,
     dev_absinfo = replicate 64 \<lparr>ai_minimum = 0, ai_maximum = 0\<rparr>\<rparr>"

definition new_device :: "bool \<Rightarrow> bool \<Rightarrow> Device" where
  "new_device buffer test =
     \<lparr>d_fd = (if test then 0 else - 1), d_info = None, d_isNotified = False, d_isEnabled = False, d_isTestDevice = test,
      d_kind = new_kind, d_state = None, d_readInputEvents = (if buffer then Some [] else None), d_previousDevice = None, d_nextDevice = None\<rparr>"

text \<open>The strings that are copied are the node, for which there is memory if \<open>pf_info\<close> holds.\<close>

definition lens_input_deviceInfoAllocateAndInit :: "platform \<Rightarrow> udev_device \<Rightarrow> DeviceInfo option" where
  "lens_input_deviceInfoAllocateAndInit pf u = (
     if ud_sysPath u \<in> {None, Some ''''} then None
     else case ud_devNode u of
       None \<Rightarrow> None
     | Some node \<Rightarrow>
         if node = '''' \<or> \<not> pf_info pf then None
         else let (vendorId, productId) = (case ud_productID u of None \<Rightarrow> (0, 0) | Some p \<Rightarrow> p)
           in Some \<lparr>in_devNode = node, in_vendorId = vendorId, in_productId = productId, in_keybits = (\<lambda>_. False), in_absbits = (\<lambda>_. False)\<rparr>)"

fun check_properties :: "string list \<Rightarrow> LensInputDevice \<Rightarrow> bool \<times> LensInputDevice" where
  "check_properties [] k = (False, k)"
| "check_properties (key # keys) k = (
     let (valid, k) = lens_input_deviceCheckProperties key k; (valid', k) = check_properties keys k
     in (valid \<or> valid', k))"

definition lens_input_deviceAllocateAndInit :: "platform \<Rightarrow> udev_device \<Rightarrow> LensDevices \<Rightarrow> (did option \<times> LensDevices) option" where
  "lens_input_deviceAllocateAndInit pf u s = (case pf_device pf of
     None \<Rightarrow> Some (None, s)
   | Some d \<Rightarrow>
       let s = s\<lparr>devices := (devices s)(d \<mapsto> new_device (pf_buffer pf) False)\<rparr>;
           failed = (\<lambda>s. do { s \<leftarrow> lens_input_deviceRelease (Some d) s; Some (None, s) })
       in if \<not> pf_buffer pf then failed s
          else case lens_input_deviceInfoAllocateAndInit pf u of
            None \<Rightarrow> failed s
          | Some info \<Rightarrow> do {
              n \<leftarrow> devices s d;
              let (valid, k) = check_properties (ud_properties u) (d_kind n);
              s \<leftarrow> dev_upd d (\<lambda>n. n\<lparr>d_info := Some info, d_kind := k\<rparr>) s;
              if \<not> valid then failed s
              else do {
                (ok, s) \<leftarrow> lens_input_deviceOpen pf d s;
                Some (if ok then Some d else None, s)
              }
            })"

section \<open>Hot plugging\<close>

definition lens_input_epollRemoveDevice :: "did option \<Rightarrow> LensDevices \<Rightarrow> LensDevices option" where
  "lens_input_epollRemoveDevice device s = (case device of
     None \<Rightarrow> Some s | Some d \<Rightarrow> dev_upd d (\<lambda>n. n\<lparr>d_isEnabled := False\<rparr>) s)"

definition lens_input_epolladdDevice :: "bool \<Rightarrow> did option \<Rightarrow> LensDevices \<Rightarrow> LensDevices option" where
  "lens_input_epolladdDevice ok device s = (case device of
     None \<Rightarrow> Some s | Some d \<Rightarrow> dev_upd d (\<lambda>n. if ok then n\<lparr>d_isEnabled := True\<rparr> else n) s)"

definition lens_input_deviceRemove :: "did \<Rightarrow> LensDevices \<Rightarrow> LensDevices option" where
  "lens_input_deviceRemove d s = do {
     n \<leftarrow> devices s d;
     s \<leftarrow> (if d_isEnabled n then lens_input_epollRemoveDevice (Some d) s else Some s);
     s \<leftarrow> lens_input_listRemove (Some d) s;
     lens_input_deviceRelease (Some d) s
   }"

definition attach_device :: "platform \<Rightarrow> udev_device \<Rightarrow> LensDevices \<Rightarrow> LensDevices option" where
  "attach_device pf u s = do {
     (device, s) \<leftarrow> lens_input_deviceAllocateAndInit pf u s;
     case device of
       None \<Rightarrow> Some s
     | Some d \<Rightarrow> do {
         s \<leftarrow> lens_input_listAdd (Some d) s;
         lens_input_epolladdDevice (pf_epoll pf) (Some d) s
       }
   }"

definition lens_input_udevMonitorHandleEvent :: "platform \<Rightarrow> udev_device option \<Rightarrow> LensDevices \<Rightarrow> LensDevices option" where
  "lens_input_udevMonitorHandleEvent pf received s = (case received of
     None \<Rightarrow> Some s
   | Some u \<Rightarrow>
       if ud_action u \<in> {Some ''add'', Some ''change''} then do {
         device \<leftarrow> lens_input_isUdevDeviceExists u s;
         case device of
           Some d \<Rightarrow>
             if ud_action u = Some ''change'' then do {
               s \<leftarrow> lens_input_deviceRemove d s;
               attach_device pf u s
             } else Some s
         | None \<Rightarrow> attach_device pf u s
       } else if ud_action u = Some ''remove'' then do {
         device \<leftarrow> lens_input_isUdevDeviceExists u s;
         case device of
           Some d \<Rightarrow> do {
             s \<leftarrow> dev_upd d (\<lambda>n. n\<lparr>d_fd := - 1\<rparr>) s;
             lens_input_deviceRemove d s
           }
         | None \<Rightarrow> Some s
       } else Some s)"

text \<open>The devices that are there at the start; \<open>prune\<close> is \<open>gPruneInputDevices\<close>.\<close>

fun lens_input_udevFindDevices :: "bool \<Rightarrow> (platform \<times> udev_device) list \<Rightarrow> LensDevices \<Rightarrow> LensDevices option" where
  "lens_input_udevFindDevices prune [] s = Some s"
| "lens_input_udevFindDevices prune ((pf, u) # us) s = do {
     s \<leftarrow> (if ''ID_INPUT'' \<in> set (ud_properties u) then do {
              device \<leftarrow> (if prune then lens_input_isUdevDeviceExists u s else Some None);
              if device \<noteq> None then Some s
              else do {
                (device, s) \<leftarrow> lens_input_deviceAllocateAndInit pf u s;
                lens_input_listAdd device s
              }
            } else Some s);
     lens_input_udevFindDevices prune us s
   }"

text \<open>The loop at the start of \<open>eventLoop\<close>, with the answers of \<open>epoll_ctl\<close>.\<close>

partial_function (option) register_devices :: "(did \<Rightarrow> bool) \<Rightarrow> did option \<Rightarrow> LensDevices \<Rightarrow> LensDevices option" where
  "register_devices epoll device s = (case device of
     None \<Rightarrow> Some s
   | Some d \<Rightarrow> do {
       s \<leftarrow> lens_input_epolladdDevice (epoll d) device s;
       n \<leftarrow> devices s d;
       register_devices epoll (d_nextDevice n) s
     })"

partial_function (option) shutdown_from :: "did option \<Rightarrow> LensDevices \<Rightarrow> LensDevices option" where
  "shutdown_from device s = (case device of
     None \<Rightarrow> Some s
   | Some d \<Rightarrow> do {
       n \<leftarrow> devices s d;
       s \<leftarrow> lens_input_deviceRemove d s;
       shutdown_from (d_nextDevice n) s
     })"

lemmas device_loops_code [code] = register_devices.simps shutdown_from.simps

definition lens_input_shutdownDevices :: "LensDevices \<Rightarrow> LensDevices option" where
  "lens_input_shutdownDevices s = shutdown_from (devicesList_head s) s"

section \<open>Reading events\<close>

text \<open>The answers of \<open>read\<close>; at the end of the file it reads no bytes.\<close>

datatype read_result = Read "byte list" | Interrupted | WouldBlock | ReadError

text \<open>
  Without a further answer there is nothing to read at the moment. A result that does not fit in the buffer would be
  written behind it.
\<close>

fun read_events :: "nat \<Rightarrow> read_result list \<Rightarrow> byte list \<Rightarrow> (byte list \<times> read_result) option" where
  "read_events bufsize [] buf = Some (buf, WouldBlock)"
| "read_events bufsize (r # rs) buf = (
     let bs = (case r of Read bs \<Rightarrow> bs | _ \<Rightarrow> []); buf' = buf @ bs
     in if length buf' > bufsize then None
        else if length buf' < bufsize \<and> (bs \<noteq> [] \<or> r = Interrupted) then read_events bufsize rs buf'
        else Some (buf', r))"

text \<open>The state of the input thread.\<close>

record InputState =
  is_devices :: LensDevices
  is_keys :: KeyState
  is_globals :: LensInputGlobals
  is_wm :: LensWM

text \<open>
  What does not depend on the code: the size of \<open>struct input_event\<close> and the event in that many bytes, and the
  parameters of the handlers.
\<close>

record input_env =
  ev_size :: nat
  ev_decode :: "byte list \<Rightarrow> input_event"
  ev_trapCtrlC :: bool
  ev_scale :: scaling
  ev_uninit :: jint
  ev_alloc :: bool

definition dispatch_event :: "input_env \<Rightarrow> did \<Rightarrow> input_event \<Rightarrow> InputState \<Rightarrow> InputState option" where
  "dispatch_event E d e st = do {
     n \<leftarrow> devices (is_devices st) d;
     let k = d_kind n;
     if dev_isKeyboard k then do {
       (ks, s) \<leftarrow> lens_input_keyEvents_handleEvent (ev_trapCtrlC E) e (is_keys st, is_wm st);
       Some (st\<lparr>is_keys := ks, is_wm := s\<rparr>)
     } else if dev_isPointer k \<or> dev_isTouch k then do {
       ms \<leftarrow> d_state n;
       (ms, g, s) \<leftarrow> lens_input_pointerEvents_handleEvent (ev_alloc E) (ev_scale E) (ev_uninit E) k e (ms, is_globals st, is_wm st);
       dv \<leftarrow> dev_upd d (\<lambda>n. n\<lparr>d_state := Some ms\<rparr>) (is_devices st);
       Some (st\<lparr>is_devices := dv, is_globals := g, is_wm := s\<rparr>)
     } else Some st
   }"

fun dispatch_events :: "input_env \<Rightarrow> did \<Rightarrow> input_event list \<Rightarrow> InputState \<Rightarrow> InputState option" where
  "dispatch_events E d [] st = Some st"
| "dispatch_events E d (e # es) st = do { st \<leftarrow> dispatch_event E d e st; dispatch_events E d es st }"

text \<open>The events in the buffer and the bytes that are left.\<close>

fun events_in :: "input_env \<Rightarrow> nat \<Rightarrow> byte list \<Rightarrow> input_event list" where
  "events_in E 0 buf = []"
| "events_in E (Suc n) buf = ev_decode E (take (ev_size E) buf) # events_in E n (drop (ev_size E) buf)"

definition store_buffer :: "did \<Rightarrow> byte list \<Rightarrow> InputState \<Rightarrow> InputState option" where
  "store_buffer d buf st = do {
     dv \<leftarrow> dev_upd d (\<lambda>n. n\<lparr>d_readInputEvents := Some buf\<rparr>) (is_devices st);
     Some (st\<lparr>is_devices := dv\<rparr>)
   }"

definition lens_input_readDevice :: "input_env \<Rightarrow> did \<Rightarrow> read_result list \<Rightarrow> InputState \<Rightarrow> InputState option" where
  "lens_input_readDevice E d rs st = do {
     n \<leftarrow> devices (is_devices st) d;
     buf \<leftarrow> d_readInputEvents n;
     (buf, r) \<leftarrow> read_events (ev_size E * EVENTS_PER_READ) rs buf;
     st \<leftarrow> store_buffer d buf st;
     if r = ReadError then do {
       dv \<leftarrow> lens_input_epollRemoveDevice (Some d) (is_devices st);
       Some (st\<lparr>is_devices := dv\<rparr>)
     } else do {
       let numOfEvents = length buf div ev_size E;
       st \<leftarrow> dispatch_events E d (events_in E numOfEvents buf) st;
       store_buffer d (drop (numOfEvents * ev_size E) buf) st
     }
   }"

text \<open>One event of \<open>epoll_wait\<close>: the device, whether its flags are an error, and the answers of \<open>read\<close>.\<close>

definition lens_input_epollEvent :: "input_env \<Rightarrow> did option \<Rightarrow> bool \<Rightarrow> read_result list \<Rightarrow> InputState \<Rightarrow> InputState option" where
  "lens_input_epollEvent E device err rs st = do {
     ex \<leftarrow> lens_input_isDeviceExists device (is_devices st);
     if \<not> ex then Some st
     else if err then do {
       dv \<leftarrow> lens_input_epollRemoveDevice device (is_devices st);
       Some (st\<lparr>is_devices := dv\<rparr>)
     } else case device of None \<Rightarrow> Some st | Some d \<Rightarrow> lens_input_readDevice E d rs st
   }"

section \<open>Test devices\<close>

text \<open>
  Test devices are described by a stream of bytes: what can still be read, and whether reading then fails. At the end of a
  stream that does not fail \<open>read\<close> returns 0 for ever, and the loop of \<open>testInputRead\<close> does not end (\<open>None\<close>). The inner
  result of a reader is \<open>None\<close> when it returns \<open>LENS_FAILED\<close>.
\<close>

type_synonym test_stream = "byte list \<times> bool"

text \<open>The layout of a \<open>jint\<close>, of \<open>struct input_id\<close> (vendor and product) and of \<open>struct input_absinfo\<close>, and whether \<open>strdup\<close>
  finds memory for a string, by the rest of the stream behind it.\<close>

record test_env =
  te_int :: "byte list \<Rightarrow> jint"
  te_id_size :: nat
  te_id :: "byte list \<Rightarrow> nat \<times> nat"
  te_abs_size :: nat
  te_abs :: "byte list \<Rightarrow> absinfo"
  te_memory :: "test_stream \<Rightarrow> bool"

definition lens_input_testInputRead :: "nat \<Rightarrow> test_stream \<Rightarrow> (byte list option \<times> test_stream) option" where
  "lens_input_testInputRead n st = (
     let (bs, fails) = st
     in if n \<le> length bs then Some (Some (take n bs), (drop n bs, fails))
        else if fails then Some (None, ([], fails))
        else None)"

definition lens_input_testInputReadInt :: "test_env \<Rightarrow> test_stream \<Rightarrow> (jint option \<times> test_stream) option" where
  "lens_input_testInputReadInt T st = do {
     (r, st) \<leftarrow> lens_input_testInputRead 4 st;
     Some (map_option (te_int T) r, st)
   }"

text \<open>The loop stores every character, the terminating one too, at the position \<open>p\<close> of a buffer of 1024 characters.\<close>

fun read_string :: "nat \<Rightarrow> byte list \<Rightarrow> bool \<Rightarrow> (string option \<times> test_stream) option" where
  "read_string p [] fails = (if fails then Some (None, ([], fails)) else None)"
| "read_string p (b # bs) fails = (
     if \<not> p < 1024 then None
     else if b = 0 then Some (Some [], (bs, fails))
     else do {
       (r, st) \<leftarrow> read_string (p + 1) bs fails;
       Some (map_option (\<lambda>str. char_of (unat b) # str) r, st)
     })"

definition lens_input_testInputReadString :: "test_env \<Rightarrow> test_stream \<Rightarrow> (string option \<times> test_stream) option" where
  "lens_input_testInputReadString T st = do {
     (r, st) \<leftarrow> read_string 0 (fst st) (snd st);
     Some (if te_memory T st then r else None, st)
   }"

partial_function (option) lens_input_testInputReadBitSet :: "test_env \<Rightarrow> jint \<Rightarrow> (jint \<Rightarrow> bool) \<Rightarrow> test_stream \<Rightarrow>
    ((jint \<Rightarrow> bool) option \<times> test_stream) option" where
  "lens_input_testInputReadBitSet T maximum bits st = do {
     (r, st) \<leftarrow> lens_input_testInputReadInt T st;
     case r of
       None \<Rightarrow> Some (None, st)
     | Some i \<Rightarrow>
         if i > maximum then Some (None, st)
         else if i \<ge> 0 then lens_input_testInputReadBitSet T maximum (bits(i := True)) st
         else Some (Some bits, st)
   }"

definition ABS_MAX :: jint where "ABS_MAX = 0x3F"

definition EV_MAX :: jint where "EV_MAX = 0x1F"

definition KEY_MAX :: jint where "KEY_MAX = 0x2FF"

definition REL_MAX :: jint where "REL_MAX = 0x0F"

text \<open>The result of reading the range of an axis is not tested.\<close>

partial_function (option) read_axes :: "test_env \<Rightarrow> (jint \<Rightarrow> bool) \<times> absinfo list \<Rightarrow> test_stream \<Rightarrow>
    (((jint \<Rightarrow> bool) \<times> absinfo list) option \<times> test_stream) option" where
  "read_axes T axes st = do {
     (r, st) \<leftarrow> lens_input_testInputReadInt T st;
     case r of
       None \<Rightarrow> Some (None, st)
     | Some i \<Rightarrow>
         if i < 0 then Some (Some axes, st)
         else if i > ABS_MAX then Some (None, st)
         else do {
           (a, st) \<leftarrow> lens_input_testInputRead (te_abs_size T) st;
           infos \<leftarrow> (case a of None \<Rightarrow> Some (snd axes) | Some bs \<Rightarrow> store (snd axes) i (te_abs T bs));
           read_axes T ((fst axes)(i := True), infos) st
         }
   }"

text \<open>A failure to read a key leaves the pointer unassigned, or \<open>NULL\<close>, whose string is then measured.\<close>

partial_function (option) read_properties :: "test_env \<Rightarrow> bool \<times> LensInputDevice \<Rightarrow> test_stream \<Rightarrow>
    ((bool \<times> LensInputDevice) option \<times> test_stream) option" where
  "read_properties T vk st = do {
     (r, st) \<leftarrow> lens_input_testInputReadString T st;
     propKey \<leftarrow> r;
     if propKey = '''' then Some (Some vk, st)
     else do {
       (r, st) \<leftarrow> lens_input_testInputReadString T st;
       case r of
         None \<Rightarrow> Some (None, st)
       | Some _ \<Rightarrow>
           let (valid, k) = lens_input_deviceCheckProperties propKey (snd vk)
           in read_properties T (fst vk \<or> valid, k) st
     }
   }"

lemmas test_loops_code [code] = lens_input_testInputReadBitSet.simps read_axes.simps read_properties.simps

text \<open>The readers of a group run one after the other even if one fails.\<close>

definition read_identity :: "test_env \<Rightarrow> test_stream \<Rightarrow> ((nat \<times> nat \<times> string) option \<times> test_stream) option" where
  "read_identity T st = do {
     (r, st) \<leftarrow> lens_input_testInputRead (te_id_size T) st;
     case r of
       None \<Rightarrow> Some (None, st)
     | Some bs \<Rightarrow> do {
         (name, st) \<leftarrow> lens_input_testInputReadString T st;
         (node, st) \<leftarrow> lens_input_testInputReadString T st;
         (product, st) \<leftarrow> lens_input_testInputReadString T st;
         Some (if name = None \<or> product = None then None
               else map_option (\<lambda>node. (fst (te_id T bs), snd (te_id T bs), node)) node, st)
       }
   }"

definition read_capabilities :: "test_env \<Rightarrow> test_stream \<Rightarrow> ((jint \<Rightarrow> bool) option \<times> test_stream) option" where
  "read_capabilities T st = do {
     (events, st) \<leftarrow> lens_input_testInputReadBitSet T EV_MAX (\<lambda>_. False) st;
     (keys, st) \<leftarrow> lens_input_testInputReadBitSet T KEY_MAX (\<lambda>_. False) st;
     (rels, st) \<leftarrow> lens_input_testInputReadBitSet T REL_MAX (\<lambda>_. False) st;
     Some (if events = None \<or> rels = None then None else keys, st)
   }"

text \<open>The information and the kind of the device, and whether it is one that Lens uses.\<close>

definition read_description :: "test_env \<Rightarrow> test_stream \<Rightarrow> ((DeviceInfo \<times> bool \<times> LensInputDevice) option \<times> test_stream) option" where
  "read_description T st = do {
     (ident, st) \<leftarrow> read_identity T st;
     case ident of None \<Rightarrow> Some (None, st)
     | Some (vendorId, productId, node) \<Rightarrow> do {
         (keys, st) \<leftarrow> read_capabilities T st;
         case keys of None \<Rightarrow> Some (None, st)
         | Some keys \<Rightarrow> do {
             (axes, st) \<leftarrow> read_axes T (\<lambda>_. False, dev_absinfo new_kind) st;
             case axes of None \<Rightarrow> Some (None, st)
             | Some (absbits, infos) \<Rightarrow> do {
                 (props, st) \<leftarrow> read_properties T (False, new_kind\<lparr>dev_absinfo := infos\<rparr>) st;
                 case props of None \<Rightarrow> Some (None, st)
                 | Some (valid, k) \<Rightarrow> Some (Some (\<lparr>in_devNode = node, in_vendorId = vendorId, in_productId = productId,
                     in_keybits = keys, in_absbits = absbits\<rparr>, valid, k), st)
               }
           }
       }
   }"

text \<open>The device with the address \<open>d\<close> is released on every failure, also after \<open>lens_input_deviceOpen\<close> released it.\<close>

definition add_test_device :: "platform \<Rightarrow> test_env \<Rightarrow> did \<Rightarrow> test_stream \<Rightarrow> LensDevices \<Rightarrow> (bool \<times> test_stream \<times> LensDevices) option" where
  "add_test_device pf T d st s = (
     let s = s\<lparr>devices := (devices s)(d \<mapsto> new_device (pf_info pf \<and> pf_buffer pf) (pf_info pf))\<rparr>;
         failed = (\<lambda>result st s. do { s \<leftarrow> lens_input_deviceRelease (Some d) s; Some (result, st, s) })
     in if \<not> pf_info pf \<or> \<not> pf_buffer pf then failed False st s
        else do {
          (desc, st) \<leftarrow> read_description T st;
          case desc of None \<Rightarrow> failed False st s
          | Some (info, valid, k) \<Rightarrow> do {
              s \<leftarrow> dev_upd d (\<lambda>n. n\<lparr>d_info := Some info,
                     d_kind := (if valid then lens_input_checkTouchSupportLevel (in_absbits info) k else k)\<rparr>) s;
              if \<not> valid then failed True st s
              else do {
                (ok, s) \<leftarrow> lens_input_deviceOpen pf d s;
                if \<not> ok then failed True st s
                else do {
                  s \<leftarrow> lens_input_listAdd (Some d) s;
                  s \<leftarrow> lens_input_epolladdDevice (pf_epoll pf) (Some d) s;
                  Some (True, st, s)
                }
              }
            }
        })"

definition find_node :: "string \<Rightarrow> LensDevices \<Rightarrow> did option option" where
  "find_node devNode s = do {
     r \<leftarrow> window_walk (devices s) d_nextDevice
            (\<lambda>d n acc. case d_info n of
               None \<Rightarrow> Inl None
             | Some info \<Rightarrow> if in_devNode info = devNode then Inl (Some d) else Inr acc)
            (devicesList_head s) ();
     case r of Inl None \<Rightarrow> None | Inl (Some d) \<Rightarrow> Some (Some d) | Inr _ \<Rightarrow> Some None
   }"

text \<open>The result is whether the stream can be read on.\<close>

definition lens_input_testInputHandleEvent :: "platform \<Rightarrow> test_env \<Rightarrow> test_stream \<Rightarrow> LensDevices \<Rightarrow>
    (bool \<times> test_stream \<times> LensDevices) option" where
  "lens_input_testInputHandleEvent pf T st s = do {
     (action, st) \<leftarrow> lens_input_testInputReadInt T st;
     case action of
       None \<Rightarrow> Some (False, st, s)
     | Some a \<Rightarrow>
         if a = 1 then
           (case pf_device pf of None \<Rightarrow> Some (False, st, s) | Some d \<Rightarrow> add_test_device pf T d st s)
         else if a = 2 then do {
           (r, st) \<leftarrow> lens_input_testInputReadString T st;
           case r of
             None \<Rightarrow> Some (False, st, s)
           | Some node \<Rightarrow> do {
               device \<leftarrow> find_node node s;
               case device of
                 None \<Rightarrow> Some (True, st, s)
               | Some d \<Rightarrow> do { s \<leftarrow> lens_input_deviceRemove d s; Some (True, st, s) }
             }
         } else Some (False, st, s)
   }"

end
