(* ===== verification/LensDevicesProps.thy ===== *)
theory LensDevicesProps
  imports LensDevices LensSafety "HOL-Library.Multiset"
begin

text \<open>
  Properties of the input devices: the links represent a list of devices, which hot plugging changes as the
  specification \<open>hot_plug\<close> says, without an access to memory that is not allocated; the notifications of the
  application are balanced; and the events do not depend on how the bytes of a device arrive.
\<close>

section \<open>The list that the links represent\<close>

definition dnexts :: "LensDevices \<Rightarrow> did \<rightharpoonup> did option" where
  "dnexts s = (\<lambda>d. map_option d_nextDevice (devices s d))"

definition dprevs :: "LensDevices \<Rightarrow> did \<rightharpoonup> did option" where
  "dprevs s = (\<lambda>d. map_option d_previousDevice (devices s d))"

definition dlist :: "LensDevices \<Rightarrow> did list \<Rightarrow> bool" where
  "dlist s xs \<longleftrightarrow> distinct xs \<and> path (dnexts s) (devicesList_head s) xs \<and>
     path (dprevs s) (devicesList_tail s) (rev xs) \<and> gNumOfAttachedDevices s = int (length xs)"

definition dev_core :: "Device \<Rightarrow> Device" where
  "dev_core n = n\<lparr>d_previousDevice := None, d_nextDevice := None\<rparr>"

definition cores :: "LensDevices \<Rightarrow> did \<rightharpoonup> Device" where
  "cores s = (\<lambda>d. map_option dev_core (devices s d))"

lemma dlist_ends: "dlist s xs \<Longrightarrow> devicesList_head s = ptr_hd xs" "dlist s xs \<Longrightarrow> devicesList_tail s = ptr_last xs"
  by (auto simp: dlist_def dest: path_hd)

lemma dlist_live: "dlist s xs \<Longrightarrow> d \<in> set xs \<Longrightarrow> \<exists>n. devices s d = Some n"
  by (auto simp: dlist_def dnexts_def dest: path_dom)

lemma dlist_links:
  assumes "dlist s (as @ d # bs)"
  obtains n where "devices s d = Some n" "d_nextDevice n = ptr_hd bs" "d_previousDevice n = ptr_last as"
proof -
  have "dnexts s d = Some (ptr_hd bs)" "dprevs s d = Some (ptr_hd (rev as))"
    using assms path_next [of _ _ as d bs] path_next [of _ _ "rev bs" d "rev as"]
    by (auto simp: dlist_def simp del: ptr_hd_rev)
  then show ?thesis using that by (auto simp: dnexts_def dprevs_def)
qed

lemma links_upd:
  "dnexts (s\<lparr>devices := (devices s)(d \<mapsto> n)\<rparr>) = (dnexts s)(d \<mapsto> d_nextDevice n)"
  "dprevs (s\<lparr>devices := (devices s)(d \<mapsto> n)\<rparr>) = (dprevs s)(d \<mapsto> d_previousDevice n)"
  "cores (s\<lparr>devices := (devices s)(d \<mapsto> n)\<rparr>) = (cores s)(d \<mapsto> dev_core n)"
  by (auto simp: dnexts_def dprevs_def cores_def)

lemma links_ends [simp]:
  "dnexts (s\<lparr>devicesList_head := p\<rparr>) = dnexts s" "dprevs (s\<lparr>devicesList_head := p\<rparr>) = dprevs s"
  "dnexts (s\<lparr>devicesList_tail := p\<rparr>) = dnexts s" "dprevs (s\<lparr>devicesList_tail := p\<rparr>) = dprevs s"
  "dnexts (s\<lparr>gNumOfAttachedDevices := i\<rparr>) = dnexts s" "dprevs (s\<lparr>gNumOfAttachedDevices := i\<rparr>) = dprevs s"
  "dnexts (s\<lparr>deviceEvents := es\<rparr>) = dnexts s" "dprevs (s\<lparr>deviceEvents := es\<rparr>) = dprevs s"
  "cores (s\<lparr>devicesList_head := p\<rparr>) = cores s" "cores (s\<lparr>devicesList_tail := p\<rparr>) = cores s"
  "cores (s\<lparr>gNumOfAttachedDevices := i\<rparr>) = cores s" "cores (s\<lparr>deviceEvents := es\<rparr>) = cores s"
  by (simp_all add: dnexts_def dprevs_def cores_def)

lemma dev_core_links [simp]:
  "dev_core (n\<lparr>d_nextDevice := p\<rparr>) = dev_core n" "dev_core (n\<lparr>d_previousDevice := p\<rparr>) = dev_core n"
  by (simp_all add: dev_core_def)

lemma cores_idem: "devices s d = Some n \<Longrightarrow> (cores s)(d \<mapsto> dev_core n) = cores s"
  by (auto simp: cores_def)

lemma relink_same: "m d = Some p \<Longrightarrow> m(d \<mapsto> p) = m"
  by auto

text \<open>One of the two link fields of a device is written, if there is a device.\<close>

definition dev_upd_if :: "did option \<Rightarrow> (Device \<Rightarrow> Device) \<Rightarrow> LensDevices \<Rightarrow> LensDevices option" where
  "dev_upd_if p f s = (case p of None \<Rightarrow> Some s | Some d \<Rightarrow> dev_upd d f s)"

lemma dset_next:
  assumes "\<And>d. q = Some d \<Longrightarrow> devices s d \<noteq> None"
  obtains s' where "dev_upd_if q (\<lambda>n. n\<lparr>d_nextDevice := v\<rparr>) s = Some s'" "dnexts s' = relink (dnexts s) q v"
    "dprevs s' = dprevs s" "cores s' = cores s" "s'\<lparr>devices := devices s\<rparr> = s"
proof (cases q)
  case None
  then show ?thesis using that [of s] by (simp add: dev_upd_if_def relink_def)
next
  case (Some d)
  then obtain n where n: "devices s d = Some n" using assms by auto
  have p: "dprevs s d = Some (d_previousDevice n)" using n by (simp add: dprevs_def)
  show ?thesis
    by (rule that [of "s\<lparr>devices := (devices s)(d \<mapsto> n\<lparr>d_nextDevice := v\<rparr>)\<rparr>"])
      (use Some n p in \<open>simp_all add: dev_upd_if_def dev_upd_def links_upd relink_def cores_idem relink_same\<close>)
qed

lemma dset_prev:
  assumes "\<And>d. q = Some d \<Longrightarrow> devices s d \<noteq> None"
  obtains s' where "dev_upd_if q (\<lambda>n. n\<lparr>d_previousDevice := v\<rparr>) s = Some s'" "dprevs s' = relink (dprevs s) q v"
    "dnexts s' = dnexts s" "cores s' = cores s" "s'\<lparr>devices := devices s\<rparr> = s"
proof (cases q)
  case None
  then show ?thesis using that [of s] by (simp add: dev_upd_if_def relink_def)
next
  case (Some d)
  then obtain n where n: "devices s d = Some n" using assms by auto
  have p: "dnexts s d = Some (d_nextDevice n)" using n by (simp add: dnexts_def)
  show ?thesis
    by (rule that [of "s\<lparr>devices := (devices s)(d \<mapsto> n\<lparr>d_previousDevice := v\<rparr>)\<rparr>"])
      (use Some n p in \<open>simp_all add: dev_upd_if_def dev_upd_def links_upd relink_def cores_idem relink_same\<close>)
qed

lemma cores_dom: "cores s' = cores s \<Longrightarrow> devices s' d = None \<longleftrightarrow> devices s d = None"
  by (metis cores_def option.map_disc_iff)

text \<open>Everything but the links and the ends of the list.\<close>

definition rest_eq :: "LensDevices \<Rightarrow> LensDevices \<Rightarrow> bool" where
  "rest_eq s' s \<longleftrightarrow> cores s' = cores s \<and> deviceEvents s' = deviceEvents s"

lemma ends_eq: "s'\<lparr>devices := devices s\<rparr> = s \<Longrightarrow> devicesList_head s' = devicesList_head s \<and>
    devicesList_tail s' = devicesList_tail s \<and> gNumOfAttachedDevices s' = gNumOfAttachedDevices s \<and>
    deviceEvents s' = deviceEvents s" for s s' :: LensDevices
  by (cases s, cases s') simp

lemma listAdd_ok:
  assumes l: "dlist s xs" and d: "d \<notin> set xs" and n: "devices s d = Some n" "d_nextDevice n = None"
  obtains s' where "lens_input_listAdd (Some d) s = Some s'" "dlist s' (xs @ [d])" "rest_eq s' s"
proof -
  let ?s = "if devicesList_head s = None then s\<lparr>devicesList_head := Some d\<rparr> else s"
  have same: "devices ?s = devices s" "dnexts ?s = dnexts s" "dprevs ?s = dprevs s" "cores ?s = cores s"
    "devicesList_tail ?s = devicesList_tail s" "gNumOfAttachedDevices ?s = gNumOfAttachedDevices s"
    "deviceEvents ?s = deviceEvents s"
    by simp_all
  have t: "devicesList_tail s = ptr_last xs" using l by (rule dlist_ends)
  have live: "devices ?s x \<noteq> None" if "ptr_last xs = Some x" for x
    using dlist_live [OF l, of x] that by (auto simp: ptr_last_Some)
  obtain s1 where s1: "dev_upd_if (ptr_last xs) (\<lambda>n. n\<lparr>d_nextDevice := Some d\<rparr>) ?s = Some s1"
    "dnexts s1 = relink (dnexts s) (ptr_last xs) (Some d)" "dprevs s1 = dprevs s" "cores s1 = cores s"
    "s1\<lparr>devices := devices ?s\<rparr> = ?s"
    using dset_next [OF live] unfolding same by metis
  note e1 = ends_eq [OF s1(5)]
  have live1: "devices s1 x \<noteq> None" if "Some d = Some x" for x
    using cores_dom [OF s1(4), of d] n that by simp
  obtain s2 where s2: "dev_upd_if (Some d) (\<lambda>n. n\<lparr>d_previousDevice := ptr_last xs\<rparr>) s1 = Some s2"
    "dprevs s2 = relink (dprevs s1) (Some d) (ptr_last xs)" "dnexts s2 = dnexts s1" "cores s2 = cores s1"
    "s2\<lparr>devices := devices s1\<rparr> = s1"
    by (rule dset_prev [OF live1])
  note e2 = ends_eq [OF s2(5)]
  have p: "path (dnexts s) (ptr_hd xs) xs" "path (dprevs s) (ptr_last xs) (rev xs)" "distinct xs"
    using l dlist_ends [OF l] by (auto simp: dlist_def)
  have nx: "dnexts s d = Some None" using n by (simp add: dnexts_def)
  have "dnexts s2 d = Some None"
    using nx s1(2) s2(3) d by (auto simp: relink_def ptr_last_Some split: option.splits)
  then have m: "(relink (dnexts s) (ptr_last xs) (Some d))(d \<mapsto> None) = dnexts s2"
    using s1(2) s2(3) by auto
  have nx': "dnexts s d \<noteq> None" using nx by simp
  note ll = link_last [OF p d nx', unfolded m]
  show ?thesis
  proof (rule that)
    show "lens_input_listAdd (Some d) s =
        Some (s2\<lparr>devicesList_tail := Some d, gNumOfAttachedDevices := gNumOfAttachedDevices s2 + 1\<rparr>)"
      using s1(1) s2(1) e1 t unfolding lens_input_listAdd_def dev_upd_if_def same
      by (auto simp: Let_def split: option.splits if_splits)
    have h: "devicesList_head s2 = ptr_hd (xs @ [d])"
      using e1 e2 dlist_ends [OF l] by (auto split: if_splits)
    show "dlist (s2\<lparr>devicesList_tail := Some d, gNumOfAttachedDevices := gNumOfAttachedDevices s2 + 1\<rparr>) (xs @ [d])"
      using ll h p(3) d l e1 e2 s2(2) s1(3) same by (auto simp: dlist_def relink_def)
    show "rest_eq (s2\<lparr>devicesList_tail := Some d, gNumOfAttachedDevices := gNumOfAttachedDevices s2 + 1\<rparr>) s"
      using s1(4) s2(4) e1 e2 same by (simp add: rest_eq_def)
  qed
qed

lemma listRemove_ok:
  assumes l: "dlist s (as @ d # bs)"
  obtains s' where "lens_input_listRemove (Some d) s = Some s'" "dlist s' (as @ bs)" "rest_eq s' s"
proof -
  have di: "distinct (as @ d # bs)" and num: "gNumOfAttachedDevices s = int (length (as @ d # bs))"
    and pn: "path (dnexts s) (devicesList_head s) (as @ d # bs)"
    and pp: "path (dprevs s) (devicesList_tail s) (rev bs @ d # rev as)"
    using l by (auto simp: dlist_def)
  obtain n where n: "devices s d = Some n" "d_nextDevice n = ptr_hd bs" "d_previousDevice n = ptr_last as"
    using dlist_links [OF l] by blast
  let ?s = "if as = [] then s\<lparr>devicesList_head := ptr_hd bs\<rparr> else s"
  have same: "devices ?s = devices s" "dnexts ?s = dnexts s" "dprevs ?s = dprevs s" "cores ?s = cores s"
    "devicesList_tail ?s = devicesList_tail s" "gNumOfAttachedDevices ?s = gNumOfAttachedDevices s"
    "deviceEvents ?s = deviceEvents s"
    by simp_all
  have live: "devices ?s x \<noteq> None" if "ptr_last as = Some x" for x
    using dlist_live [OF l, of x] that by (auto simp: ptr_last_Some)
  obtain s1 where s1: "dev_upd_if (ptr_last as) (\<lambda>n. n\<lparr>d_nextDevice := ptr_hd bs\<rparr>) ?s = Some s1"
    "dnexts s1 = relink (dnexts s) (ptr_last as) (ptr_hd bs)" "dprevs s1 = dprevs s" "cores s1 = cores s"
    "s1\<lparr>devices := devices ?s\<rparr> = ?s"
    using dset_next [OF live] unfolding same by metis
  note e1 = ends_eq [OF s1(5)]
  have "dnexts s1 d = Some (ptr_hd bs)" "dprevs s1 d = Some (ptr_last as)"
    using s1(2,3) n di by (auto simp: dnexts_def dprevs_def relink_def ptr_last_Some split: option.splits)
  then obtain n1 where n1: "devices s1 d = Some n1" "d_nextDevice n1 = ptr_hd bs" "d_previousDevice n1 = ptr_last as"
    by (auto simp: dnexts_def dprevs_def)
  let ?t = "if bs = [] then s1\<lparr>devicesList_tail := ptr_last as\<rparr> else s1"
  have same1: "devices ?t = devices s1" "dnexts ?t = dnexts s1" "dprevs ?t = dprevs s1" "cores ?t = cores s1"
    "devicesList_head ?t = devicesList_head s1" "gNumOfAttachedDevices ?t = gNumOfAttachedDevices s1"
    "deviceEvents ?t = deviceEvents s1"
    by simp_all
  have live1: "devices ?t x \<noteq> None" if "ptr_hd bs = Some x" for x
    using dlist_live [OF l, of x] that cores_dom [OF s1(4), of x] by (auto simp: ptr_hd_Some)
  obtain s2 where s2: "dev_upd_if (ptr_hd bs) (\<lambda>n. n\<lparr>d_previousDevice := ptr_last as\<rparr>) ?t = Some s2"
    "dprevs s2 = relink (dprevs s1) (ptr_hd bs) (ptr_last as)" "dnexts s2 = dnexts s1" "cores s2 = cores s1"
    "s2\<lparr>devices := devices ?t\<rparr> = ?t"
    using dset_prev [OF live1] unfolding same1 by metis
  note e2 = ends_eq [OF s2(5)]
  have di': "distinct (rev bs @ d # rev as)" using di by auto
  show ?thesis
  proof (rule that)
    show "lens_input_listRemove (Some d) s = Some (s2\<lparr>gNumOfAttachedDevices := gNumOfAttachedDevices s2 - 1\<rparr>)"
      using s1(1) s2(1) n n1 unfolding lens_input_listRemove_def dev_upd_if_def
      by (cases "as = []"; cases "bs = []") (auto split: option.splits)
    have "path (dnexts s2) (devicesList_head s2) (as @ bs)"
      using path_unlink [OF pn di] s1(2) s2(3) e1 e2 by (auto split: if_splits)
    moreover have "path (dprevs s2) (devicesList_tail s2) (rev (as @ bs))"
      using path_unlink [OF pp di'] s1(3) s2(2) e1 e2 by (auto split: if_splits)
    ultimately show "dlist (s2\<lparr>gNumOfAttachedDevices := gNumOfAttachedDevices s2 - 1\<rparr>) (as @ bs)"
      using di num e1 e2 same same1 by (simp add: dlist_def split: if_splits)
    show "rest_eq (s2\<lparr>gNumOfAttachedDevices := gNumOfAttachedDevices s2 - 1\<rparr>) s"
      using s1(4) s2(4) e1 e2 same same1 by (simp add: rest_eq_def)
  qed
qed

section \<open>The attached devices\<close>

definition attached_dev :: "Device \<Rightarrow> DeviceInfo \<Rightarrow> LensInputDevice \<Rightarrow> bool" where
  "attached_dev n info k \<longleftrightarrow> d_info n = Some info \<and> d_kind n = k \<and> d_isNotified n \<and> d_readInputEvents n \<noteq> None \<and>
     (dev_isPointer k \<or> dev_isTouch k \<longrightarrow> d_state n \<noteq> None)"

type_synonym entry = "did \<times> DeviceInfo \<times> LensInputDevice"

text \<open>For every kind of device, the attached devices are those that were announced and not yet withdrawn.\<close>

definition balanced :: "(jint \<times> bool) list \<Rightarrow> entry list \<Rightarrow> bool" where
  "balanced es l \<longleftrightarrow> mset (map fst (filter snd es)) =
     mset (map fst (filter (Not \<circ> snd) es)) + mset (map (\<lambda>(d, info, k). device_flags k info) l)"

definition attached :: "LensDevices \<Rightarrow> entry list \<Rightarrow> bool" where
  "attached s l \<longleftrightarrow> dlist s (map fst l) \<and>
     (\<forall>(d, info, k)\<in>set l. \<exists>n. devices s d = Some n \<and> attached_dev n info k) \<and> balanced (deviceEvents s) l"

lemma attached_core: "attached_dev (dev_core n) info k = attached_dev n info k"
  by (simp add: attached_dev_def dev_core_def)

lemma attached_get:
  assumes "attached s l" "(d, info, k) \<in> set l"
  obtains n where "devices s d = Some n" "attached_dev n info k"
  using assms unfolding attached_def by fastforce

lemma attached_ex: "attached s l \<Longrightarrow> (d, info, k) \<in> set l \<Longrightarrow> \<exists>n. devices s d = Some n \<and> attached_dev n info k"
  by (blast elim: attached_get)

lemma attached_mem: "attached s l \<Longrightarrow> d \<in> fst ` set l \<Longrightarrow> \<exists>n. devices s d = Some n"
  using attached_ex by fastforce

lemma attached_fresh: "attached s l \<Longrightarrow> devices s d = None \<Longrightarrow> d \<notin> fst ` set l"
  using dlist_live by (fastforce simp: attached_def)

text \<open>A change of the links alone.\<close>

lemma attached_rest:
  assumes "rest_eq s' s" "dlist s' (map fst l')" "balanced (deviceEvents s) l'"
    and m: "\<And>d info k. (d, info, k) \<in> set l' \<Longrightarrow> \<exists>n. devices s d = Some n \<and> attached_dev n info k"
  shows "attached s' l'"
proof -
  have "\<exists>n. devices s' d = Some n \<and> attached_dev n info k" if x: "(d, info, k) \<in> set l'" for d info k
  proof -
    obtain n where n: "devices s d = Some n" "attached_dev n info k" using m [OF x] by blast
    have "map_option dev_core (devices s' d) = Some (dev_core n)"
      using assms(1) n(1) by (metis cores_def option.simps(9) rest_eq_def)
    then show ?thesis using n(2) attached_core by (metis map_option_eq_Some)
  qed
  then show ?thesis using assms by (auto simp: attached_def rest_eq_def)
qed

text \<open>A change of a device that keeps its links.\<close>

lemma attached_upd:
  assumes "attached s l" "devices s d = Some n" "d_nextDevice n' = d_nextDevice n" "d_previousDevice n' = d_previousDevice n"
    and "\<And>info k. attached_dev n info k \<Longrightarrow> attached_dev n' info k"
  shows "attached (s\<lparr>devices := (devices s)(d \<mapsto> n')\<rparr>) l"
proof -
  have "dnexts (s\<lparr>devices := (devices s)(d \<mapsto> n')\<rparr>) = dnexts s" "dprevs (s\<lparr>devices := (devices s)(d \<mapsto> n')\<rparr>) = dprevs s"
    using assms(2-4) by (auto simp: dnexts_def dprevs_def)
  then have "dlist (s\<lparr>devices := (devices s)(d \<mapsto> n')\<rparr>) (map fst l)"
    using assms(1) by (simp add: attached_def dlist_def)
  moreover have "\<exists>m. ((devices s)(d \<mapsto> n')) x = Some m \<and> attached_dev m info k" if "(x, info, k) \<in> set l" for x info k
    using attached_get [OF assms(1) that] assms(2,5) by (metis fun_upd_apply option.inject)
  ultimately show ?thesis using assms(1) by (auto simp: attached_def)
qed

text \<open>A change of memory outside of the list.\<close>

lemma attached_other:
  assumes "attached s l" "d \<notin> fst ` set l"
  shows "attached (s\<lparr>devices := (devices s)(d := r)\<rparr>) l"
proof -
  have p: "path m (p :: did option) xs" if "path m' p xs" "\<And>x. x \<in> set xs \<Longrightarrow> m x = m' x" for m m' p xs
    using that by (induction xs arbitrary: p) auto
  have "dlist (s\<lparr>devices := (devices s)(d := r)\<rparr>) (map fst l)"
    using assms by (auto simp: attached_def dlist_def dnexts_def dprevs_def elim!: p)
  moreover have "\<exists>m. ((devices s)(d := r)) x = Some m \<and> attached_dev m info k" if x: "(x, info, k) \<in> set l" for x info k
  proof -
    have "x \<noteq> d" using assms(2) x by force
    then show ?thesis using attached_get [OF assms(1) x] by (metis fun_upd_apply)
  qed
  ultimately show ?thesis using assms(1) by (auto simp: attached_def)
qed

lemma balanced_attach: "balanced es l \<Longrightarrow> balanced (es @ [(device_flags k info, True)]) (l @ [(d, info, k)])"
  by (simp add: balanced_def)

lemma balanced_detach: "balanced es (as @ (d, info, k) # bs) \<Longrightarrow> balanced (es @ [(device_flags k info, False)]) (as @ bs)"
  by (simp add: balanced_def)

section \<open>Attaching and detaching\<close>

text \<open>The device that is opened, if this succeeds.\<close>

definition opened_device :: "platform \<Rightarrow> udev_device \<Rightarrow> entry option" where
  "opened_device pf u = do {
     d \<leftarrow> pf_device pf;
     info \<leftarrow> lens_input_deviceInfoAllocateAndInit pf u;
     let (valid, k) = check_properties (ud_properties u) new_kind;
     (info, k) \<leftarrow> read_device_caps (pf_caps pf) info k;
     if pf_buffer pf \<and> valid \<and> pf_open pf \<noteq> - 1 \<and> (dev_isPointer k \<or> dev_isTouch k \<longrightarrow> pf_state pf) \<and> pf_grab pf
     then Some (d, info, k) else None
   }"

lemma release_silent:
  "devices s d = Some n \<Longrightarrow> \<not> d_isNotified n \<Longrightarrow> lens_input_deviceRelease (Some d) s = Some (s\<lparr>devices := (devices s)(d := None)\<rparr>)"
  by (simp add: lens_input_deviceRelease_def lens_input_deviceNotify_def dev_upd_def)

lemma notify_attach:
  assumes "devices s d = Some n" "\<not> d_isNotified n" "d_info n = Some info"
  shows "lens_input_deviceNotify d True s = Some (s\<lparr>devices := (devices s)(d \<mapsto> n\<lparr>d_isNotified := True\<rparr>),
     deviceEvents := deviceEvents s @ [(device_flags (d_kind n) info, True)]\<rparr>)"
  using assms by (simp add: lens_input_deviceNotify_def dev_upd_def)

lemma release_attached:
  assumes "devices s d = Some n" "attached_dev n info k"
  shows "lens_input_deviceRelease (Some d) s = Some (s\<lparr>devices := (devices s)(d := None),
     deviceEvents := deviceEvents s @ [(device_flags k info, False)]\<rparr>)"
  using assms by (auto simp: lens_input_deviceRelease_def lens_input_deviceNotify_def dev_upd_def attached_dev_def)

text \<open>The information and the kind of a device after its capabilities were read, if this succeeds.\<close>

definition caps_answer :: "platform \<Rightarrow> Device \<Rightarrow> (DeviceInfo \<times> LensInputDevice) option" where
  "caps_answer pf n = do {
     info \<leftarrow> d_info n;
     if d_isTestDevice n then Some (info, d_kind n) else read_device_caps (pf_caps pf) info (d_kind n)
   }"

lemma capabilities_eq:
  assumes "devices s d = Some n" "d_info n \<noteq> None"
  shows "lens_input_deviceInitCapabilities pf d s = Some (case caps_answer pf n of
     None \<Rightarrow> (False, s)
   | Some (info, k) \<Rightarrow> (True, s\<lparr>devices := (devices s)(d \<mapsto> n\<lparr>d_info := Some info, d_kind := k\<rparr>)\<rparr>))"
proof (cases "d_isTestDevice n")
  case True
  obtain info where i: "d_info n = Some info" using assms(2) by auto
  have e: "s\<lparr>devices := (devices s)(d \<mapsto> n\<lparr>d_info := Some info\<rparr>)\<rparr> = s"
    using assms(1) i by (cases s, cases n) auto
  show ?thesis using True assms(1) i by (simp add: lens_input_deviceInitCapabilities_def caps_answer_def e)
next
  case False
  then show ?thesis
    using assms by (auto simp: lens_input_deviceInitCapabilities_def caps_answer_def dev_upd_def split: option.splits)
qed

definition pointing :: "LensInputDevice \<Rightarrow> bool" where
  "pointing k \<longleftrightarrow> dev_isPointer k \<or> dev_isTouch k"

definition opened_dev :: "platform \<Rightarrow> Device \<Rightarrow> DeviceInfo \<Rightarrow> LensInputDevice \<Rightarrow> Device" where
  "opened_dev pf n info k = n\<lparr>d_fd := pf_open pf, d_info := Some info, d_kind := k,
     d_state := (if pointing k then Some lens_input_mouseStateAllocateAndInit else None), d_isNotified := True\<rparr>"

lemma open_eq:
  assumes n: "devices s d = Some n" "\<not> d_isNotified n" "d_state n = None" "d_info n \<noteq> None"
  shows "lens_input_deviceOpen pf d s = Some (
     if pf_open pf = - 1 then (False, s\<lparr>devices := (devices s)(d := None)\<rparr>)
     else case caps_answer pf n of
       None \<Rightarrow> (False, s\<lparr>devices := (devices s)(d \<mapsto> n\<lparr>d_fd := pf_open pf\<rparr>)\<rparr>)
     | Some (info, k) \<Rightarrow>
         if pointing k \<and> \<not> pf_state pf \<or> \<not> d_isTestDevice n \<and> \<not> pf_grab pf then (False, s\<lparr>devices := (devices s)(d := None)\<rparr>)
         else (True, s\<lparr>devices := (devices s)(d \<mapsto> opened_dev pf n info k),
            deviceEvents := deviceEvents s @ [(device_flags k info, True)]\<rparr>))"
proof -
  let ?n = "n\<lparr>d_fd := pf_open pf\<rparr>"
  let ?s = "s\<lparr>devices := (devices s)(d \<mapsto> ?n)\<rparr>"
  have u: "dev_upd d (\<lambda>n. n\<lparr>d_fd := pf_open pf\<rparr>) s = Some ?s" using n by (simp add: dev_upd_def)
  have rel: "lens_input_deviceRelease (Some d) (s\<lparr>devices := (devices s)(d \<mapsto> m)\<rparr>) =
      Some (s\<lparr>devices := (devices s)(d := None)\<rparr>)" if "\<not> d_isNotified m" for m
    using that by (simp add: release_silent)
  have q: "caps_answer pf ?n = caps_answer pf n" by (cases "d_info n") (simp_all add: caps_answer_def)
  have c: "lens_input_deviceInitCapabilities pf d ?s = Some (case caps_answer pf n of
     None \<Rightarrow> (False, ?s)
   | Some (info, k) \<Rightarrow> (True, s\<lparr>devices := (devices s)(d \<mapsto> ?n\<lparr>d_info := Some info, d_kind := k\<rparr>)\<rparr>))"
    using capabilities_eq [of ?s d ?n pf] n(4) q by (simp split: option.splits)
  show ?thesis
  proof (cases "pf_open pf = - 1 \<or> caps_answer pf n = None")
    case True
    then show ?thesis using u c rel [of ?n] n(2) by (auto simp: lens_input_deviceOpen_def)
  next
    case False
    then obtain info k where a: "caps_answer pf n = Some (info, k)" by auto
    let ?m = "?n\<lparr>d_info := Some info, d_kind := k\<rparr>"
    let ?m' = "?m\<lparr>d_state := Some lens_input_mouseStateAllocateAndInit\<rparr>"
    have o: "opened_dev pf n info k = (if pointing k then ?m' else ?m)\<lparr>d_isNotified := True\<rparr>"
      using n(3) by (simp add: opened_dev_def)
    have "\<not> d_isNotified ?m" "\<not> d_isNotified ?m'" using n(2) by auto
    note r = rel [OF this(1)] rel [OF this(2)]
    show ?thesis
      using False u c a r n(2,3)
      by (cases "pointing k"; cases "pf_state pf"; cases "d_isTestDevice n"; cases "pf_grab pf")
        (auto simp: lens_input_deviceOpen_def o pointing_def [symmetric] dev_upd_def notify_attach Let_def)
  qed
qed

lemma allocate_fails:
  assumes f: "\<And>d. pf_device pf = Some d \<Longrightarrow> devices s d = None" and o: "opened_device pf u = None"
  obtains r where "lens_input_deviceAllocateAndInit pf u s =
    Some (None, case pf_device pf of None \<Rightarrow> s | Some d \<Rightarrow> s\<lparr>devices := (devices s)(d := r)\<rparr>)"
proof (cases "pf_device pf")
  case None
  then show ?thesis using that by (simp add: lens_input_deviceAllocateAndInit_def)
next
  case (Some d)
  have n: "\<not> d_isNotified (new_device b t)" "d_kind (new_device b t) = new_kind" for b t
    by (simp_all add: new_device_def)
  have rel: "lens_input_deviceRelease (Some d) (s\<lparr>devices := (devices s)(d \<mapsto> new_device b t)\<rparr>) =
      Some (s\<lparr>devices := (devices s)(d := None)\<rparr>)" for b t
    using release_silent n(1) by simp
  show ?thesis
  proof (cases "lens_input_deviceInfoAllocateAndInit pf u")
    case None
    then have "lens_input_deviceAllocateAndInit pf u s = Some (None, s\<lparr>devices := (devices s)(d := None)\<rparr>)"
      using Some by (simp add: lens_input_deviceAllocateAndInit_def Let_def rel)
    then show ?thesis using that [of None] Some by simp
  next
    case i: (Some info)
    obtain valid k where v: "check_properties (ud_properties u) new_kind = (valid, k)" by force
    let ?n = "(new_device True False)\<lparr>d_info := Some info, d_kind := k\<rparr>"
    let ?s = "s\<lparr>devices := (devices s)(d \<mapsto> ?n)\<rparr>"
    have ca: "caps_answer pf ?n = read_device_caps (pf_caps pf) info k" by (simp add: caps_answer_def new_device_def)
    have m: "devices ?s d = Some ?n" "\<not> d_isNotified ?n" "d_state ?n = None" "d_info ?n \<noteq> None" "\<not> d_isTestDevice ?n"
      by (simp_all add: new_device_def)
    show ?thesis
    proof (cases "pf_buffer pf \<and> valid")
      case False
      then show ?thesis
        using that [of None] Some i v n(2) m(2) release_silent [of ?s d]
        by (auto simp: lens_input_deviceAllocateAndInit_def Let_def dev_upd_def rel)
    next
      case True
      obtain r where r: "lens_input_deviceOpen pf d ?s = Some (False, s\<lparr>devices := (devices s)(d := r)\<rparr>)"
        using open_eq [OF m(1-4), of pf] o Some i v True ca m(5)
        by (auto simp: opened_device_def pointing_def split: if_splits option.splits)
      then show ?thesis
        using that [of r] Some i v n True by (simp add: lens_input_deviceAllocateAndInit_def Let_def dev_upd_def)
    qed
  qed
qed

lemma allocate_works:
  assumes o: "opened_device pf u = Some (d, info, k)"
  obtains n where "lens_input_deviceAllocateAndInit pf u s = Some (Some d, s\<lparr>devices := (devices s)(d \<mapsto> n),
      deviceEvents := deviceEvents s @ [(device_flags k info, True)]\<rparr>)"
    "pf_device pf = Some d" "attached_dev n info k" "d_nextDevice n = None"
proof -
  obtain info0 valid k0 where i: "pf_device pf = Some d" "lens_input_deviceInfoAllocateAndInit pf u = Some info0"
    "check_properties (ud_properties u) new_kind = (valid, k0)" "read_device_caps (pf_caps pf) info0 k0 = Some (info, k)"
    "pf_buffer pf" "valid" "pf_open pf \<noteq> - 1" "pointing k \<longrightarrow> pf_state pf" "pf_grab pf"
    using o by (auto simp: opened_device_def pointing_def Let_def split: bind_splits prod.splits if_splits)
  let ?n = "(new_device True False)\<lparr>d_info := Some info0, d_kind := k0\<rparr>"
  let ?s = "s\<lparr>devices := (devices s)(d \<mapsto> ?n)\<rparr>"
  have ca: "caps_answer pf ?n = read_device_caps (pf_caps pf) info0 k0" by (simp add: caps_answer_def new_device_def)
  have m: "devices ?s d = Some ?n" "\<not> d_isNotified ?n" "d_state ?n = None" "d_info ?n \<noteq> None" "\<not> d_isTestDevice ?n"
    "d_kind (new_device True False) = new_kind"
    by (simp_all add: new_device_def)
  have "lens_input_deviceAllocateAndInit pf u s = Some (Some d, s\<lparr>devices := (devices s)(d \<mapsto> opened_dev pf ?n info k),
      deviceEvents := deviceEvents s @ [(device_flags k info, True)]\<rparr>)"
    using open_eq [OF m(1-4), of pf] i ca m(5,6) by (simp add: lens_input_deviceAllocateAndInit_def Let_def dev_upd_def)
  moreover have "attached_dev (opened_dev pf ?n info k) info k" "d_nextDevice (opened_dev pf ?n info k) = None"
    by (auto simp: attached_dev_def opened_dev_def new_device_def pointing_def)
  ultimately show ?thesis using that i(1) by blast
qed

text \<open>Adding an announced device to the list.\<close>

lemma attach_list:
  assumes a: "attached s l" and f: "devices s d = None" and n: "attached_dev n info k" "d_nextDevice n = None"
    and s1: "s1 = s\<lparr>devices := (devices s)(d \<mapsto> n), deviceEvents := deviceEvents s @ [(device_flags k info, True)]\<rparr>"
  obtains s' where "lens_input_listAdd (Some d) s1 = Some s'" "attached s' (l @ [(d, info, k)])"
proof -
  have d: "d \<notin> fst ` set l" using attached_fresh [OF a f] .
  have o: "attached (s\<lparr>devices := (devices s)(d \<mapsto> n)\<rparr>) l" using attached_other [OF a d] .
  have "dlist s1 (map fst l)" using o by (simp add: s1 attached_def dlist_def)
  moreover have "d \<notin> set (map fst l)" using d by simp
  moreover have "devices s1 d = Some n" by (simp add: s1)
  ultimately obtain s' where s': "lens_input_listAdd (Some d) s1 = Some s'" "dlist s' (map fst l @ [d])" "rest_eq s' s1"
    using n(2) by (rule listAdd_ok)
  have b: "balanced (deviceEvents s1) (l @ [(d, info, k)])"
    using a by (simp add: s1 attached_def balanced_attach)
  have "\<exists>m. devices s1 x = Some m \<and> attached_dev m i j" if "(x, i, j) \<in> set (l @ [(d, info, k)])" for x i j
    using that attached_ex [OF o, of x i j] n(1) by (auto simp: s1)
  then have "attached s' (l @ [(d, info, k)])"
    using attached_rest [OF s'(3) _ b] s'(2) by simp
  then show ?thesis using that s'(1) by blast
qed

lemma enable_attached:
  assumes a: "attached s l" and d: "d \<in> fst ` set l"
  obtains s' where "dev_upd d (\<lambda>n. n\<lparr>d_isEnabled := b n\<rparr>) s = Some s'" "attached s' l" "dom (devices s') = dom (devices s)"
proof -
  obtain n where n: "devices s d = Some n" using attached_mem [OF a d] by blast
  have "attached (s\<lparr>devices := (devices s)(d \<mapsto> n\<lparr>d_isEnabled := b n\<rparr>)\<rparr>) l"
    by (rule attached_upd [OF a n]) (simp_all add: attached_dev_def)
  then show ?thesis using that n by (auto simp: dev_upd_def)
qed

lemma epollRemove_ok:
  assumes "attached s l" "d \<in> fst ` set l"
  obtains s' where "lens_input_epollRemoveDevice (Some d) s = Some s'" "attached s' l" "dom (devices s') = dom (devices s)"
  using enable_attached [OF assms, of "\<lambda>_. False"] that by (auto simp: lens_input_epollRemoveDevice_def)

lemma epolladd_ok:
  assumes "attached s l" "d \<in> fst ` set l"
  obtains s' where "lens_input_epolladdDevice ok (Some d) s = Some s'" "attached s' l" "dom (devices s') = dom (devices s)"
proof -
  have e: "(if ok then n\<lparr>d_isEnabled := True\<rparr> else n) = n\<lparr>d_isEnabled := ok \<or> d_isEnabled n\<rparr>" for n by (cases n) simp
  show ?thesis
    using enable_attached [OF assms, of "\<lambda>n. ok \<or> d_isEnabled n"] that
    unfolding lens_input_epolladdDevice_def option.case e .
qed

definition new_entries :: "platform \<Rightarrow> udev_device \<Rightarrow> entry list" where
  "new_entries pf u = (case opened_device pf u of None \<Rightarrow> [] | Some e \<Rightarrow> [e])"

lemma attach_device_ok:
  assumes a: "attached s l" and f: "\<And>d. pf_device pf = Some d \<Longrightarrow> devices s d = None"
  obtains s' where "attach_device pf u s = Some s'" "attached s' (l @ new_entries pf u)"
proof (cases "opened_device pf u")
  case None
  obtain r where r: "lens_input_deviceAllocateAndInit pf u s =
    Some (None, case pf_device pf of None \<Rightarrow> s | Some d \<Rightarrow> s\<lparr>devices := (devices s)(d := r)\<rparr>)"
    using allocate_fails [OF f None] by blast
  have "attached (case pf_device pf of None \<Rightarrow> s | Some d \<Rightarrow> s\<lparr>devices := (devices s)(d := r)\<rparr>) l"
    using a f attached_other [OF a attached_fresh [OF a]] by (auto split: option.splits)
  then show ?thesis using that r None by (simp add: attach_device_def new_entries_def)
next
  case (Some e)
  obtain d info k where e: "e = (d, info, k)" by (cases e)
  obtain n where n: "lens_input_deviceAllocateAndInit pf u s = Some (Some d, s\<lparr>devices := (devices s)(d \<mapsto> n),
      deviceEvents := deviceEvents s @ [(device_flags k info, True)]\<rparr>)"
    "pf_device pf = Some d" "attached_dev n info k" "d_nextDevice n = None"
    using allocate_works [OF Some [unfolded e]] by blast
  obtain s1 where s1: "lens_input_listAdd (Some d) (s\<lparr>devices := (devices s)(d \<mapsto> n),
      deviceEvents := deviceEvents s @ [(device_flags k info, True)]\<rparr>) = Some s1" "attached s1 (l @ [(d, info, k)])"
    using attach_list [OF a f [OF n(2)] n(3,4) refl] by blast
  have "d \<in> fst ` set (l @ [(d, info, k)])" by simp
  then obtain s2 where "lens_input_epolladdDevice (pf_epoll pf) (Some d) s1 = Some s2" "attached s2 (l @ [(d, info, k)])"
    by (rule epolladd_ok [OF s1(2)])
  then show ?thesis using that n(1) s1(1) Some e by (simp add: attach_device_def new_entries_def)
qed

lemma deviceRemove_ok:
  assumes a: "attached s (as @ (d, info, k) # bs)"
  obtains s' where "lens_input_deviceRemove d s = Some s'" "attached s' (as @ bs)" "dom (devices s') = dom (devices s) - {d}"
proof -
  let ?l = "as @ (d, info, k) # bs"
  have mem: "(d, info, k) \<in> set ?l" "d \<in> fst ` set ?l" by simp_all
  obtain n where n: "devices s d = Some n" "attached_dev n info k" using attached_ex [OF a mem(1)] by blast
  obtain s1 where s1: "(if d_isEnabled n then lens_input_epollRemoveDevice (Some d) s else Some s) = Some s1"
    "attached s1 ?l" "dom (devices s1) = dom (devices s)"
    by (rule epollRemove_ok [OF a mem(2)]) (use a in \<open>cases "d_isEnabled n"; simp\<close>)
  have dl: "dlist s1 (map fst as @ d # map fst bs)" using s1(2) by (simp add: attached_def)
  obtain s2 where s2: "lens_input_listRemove (Some d) s1 = Some s2" "dlist s2 (map fst as @ map fst bs)" "rest_eq s2 s1"
    using listRemove_ok [OF dl] by blast
  have c: "cores s2 = cores s1" using s2(3) by (simp add: rest_eq_def)
  have dom2: "dom (devices s2) = dom (devices s1)" using cores_dom [OF c] by (auto simp: dom_def)
  obtain n1 where n1: "devices s1 d = Some n1" "attached_dev n1 info k" using attached_ex [OF s1(2) mem(1)] by blast
  obtain n2 where n2: "devices s2 d = Some n2" "attached_dev n2 info k"
    using c n1 attached_core by (metis cores_def map_option_eq_Some)
  have dn: "d \<notin> fst ` set (as @ bs)" using dl by (auto simp: dlist_def)
  have m: "\<exists>m. devices s1 x = Some m \<and> attached_dev m i j" if "(x, i, j) \<in> set (as @ bs)" for x i j
    using attached_ex [OF s1(2), of x i j] that by auto
  let ?s = "s2\<lparr>deviceEvents := deviceEvents s1 @ [(device_flags k info, False)]\<rparr>"
  have "rest_eq ?s (s1\<lparr>deviceEvents := deviceEvents s1 @ [(device_flags k info, False)]\<rparr>)"
    using c by (simp add: rest_eq_def)
  moreover have "dlist ?s (map fst (as @ bs))" using s2(2) by (simp add: dlist_def)
  moreover have "balanced (deviceEvents s1 @ [(device_flags k info, False)]) (as @ bs)"
    using s1(2) balanced_detach by (auto simp: attached_def)
  ultimately have "attached ?s (as @ bs)" using m by (intro attached_rest) auto
  then have "attached (?s\<lparr>devices := (devices ?s)(d := None)\<rparr>) (as @ bs)" using dn by (rule attached_other)
  moreover have "lens_input_deviceRemove d s = Some (?s\<lparr>devices := (devices ?s)(d := None)\<rparr>)"
    using n(1) s1(1) s2 release_attached [OF n2] by (simp add: lens_input_deviceRemove_def rest_eq_def)
  ultimately show ?thesis using that dom2 s1(3) by simp
qed

section \<open>Looking devices up\<close>

lemma walk_info:
  assumes "\<And>d info k. (d, info, k) \<in> set l \<Longrightarrow> d_info (the (h d)) = Some info"
  shows "walk_list h (\<lambda>d n acc. case d_info n of None \<Rightarrow> Inl None
       | Some info \<Rightarrow> if P info then Inl (Some d) else Inr acc) (map fst l) acc =
     (case find (\<lambda>(d, info, k). P info) l of None \<Rightarrow> Inr acc | Some e \<Rightarrow> Inl (Some (fst e)))"
  using assms
proof (induction l)
  case (Cons e l)
  obtain d info k where e: "e = (d, info, k)" by (cases e)
  have "d_info (the (h d)) = Some info" by (rule Cons.prems [of d info k]) (simp add: e)
  moreover have "walk_list h (\<lambda>d n acc. case d_info n of None \<Rightarrow> Inl None
       | Some info \<Rightarrow> if P info then Inl (Some d) else Inr acc) (map fst l) acc =
     (case find (\<lambda>(d, info, k). P info) l of None \<Rightarrow> Inr acc | Some e \<Rightarrow> Inl (Some (fst e)))"
  proof (rule Cons.IH)
    fix d info k
    assume "(d, info, k) \<in> set l"
    then show "d_info (the (h d)) = Some info" using Cons.prems [of d info k] by simp
  qed
  ultimately show ?case using e by simp
qed simp

lemma walk_devices:
  assumes a: "attached s l"
  shows "window_walk (devices s) d_nextDevice (\<lambda>d n acc. case d_info n of None \<Rightarrow> Inl None
       | Some info \<Rightarrow> if P info then Inl (Some d) else Inr acc) (devicesList_head s) () =
     Some (case find (\<lambda>(d, info, k). P info) l of None \<Rightarrow> Inr () | Some e \<Rightarrow> Inl (Some (fst e)))"
proof -
  have "path (\<lambda>d. map_option d_nextDevice (devices s d)) (devicesList_head s) (map fst l)"
    using a by (simp add: attached_def dlist_def dnexts_def)
  moreover have "d_info (the (devices s d)) = Some info" if "(d, info, k) \<in> set l" for d info k
    using attached_ex [OF a that] by (auto simp: attached_dev_def)
  ultimately show ?thesis by (simp only: window_walk_path walk_info)
qed

definition find_entry :: "udev_device \<Rightarrow> entry list \<Rightarrow> entry option" where
  "find_entry u l = (case ud_productID u of
     None \<Rightarrow> None
   | Some (vendorId, productId) \<Rightarrow> find (\<lambda>(d, info, k). same_device u vendorId productId info) l)"

lemma isUdevDeviceExists_eq:
  assumes "attached s l"
  shows "lens_input_isUdevDeviceExists u s = Some (map_option fst (find_entry u l))"
proof -
  have h: "devicesList_head s = None \<longleftrightarrow> l = []"
    using assms dlist_ends(1) [of s "map fst l"] by (simp add: attached_def)
  show ?thesis
    unfolding lens_input_isUdevDeviceExists_def find_entry_def
    using h walk_devices [OF assms] by (auto split: option.splits)
qed

lemma find_node_eq: "attached s l \<Longrightarrow> find_node node s = Some (map_option fst (find (\<lambda>(d, info, k). in_devNode info = node) l))"
  unfolding find_node_def by (simp only: walk_devices) (simp split: option.splits)

lemma isDeviceExists_iff:
  assumes "attached s l"
  shows "lens_input_isDeviceExists device s = Some (device \<in> Some ` fst ` set l)"
proof -
  have "walk_list h (\<lambda>d n acc. if Some d = device then Inl True else Inr acc) xs () =
      (if device \<in> Some ` set xs then Inl True else Inr ())" for h :: "did \<rightharpoonup> Device" and xs
    by (induction xs) auto
  moreover have "path (\<lambda>d. map_option d_nextDevice (devices s d)) (devicesList_head s) (map fst l)"
    using assms by (simp add: attached_def dlist_def dnexts_def)
  ultimately show ?thesis by (simp add: lens_input_isDeviceExists_def window_walk_path)
qed

lemma find_entry_split:
  assumes "find P l = Some e"
  obtains as bs where "l = as @ e # bs" "remove1 e l = as @ bs" "e \<notin> set as"
proof -
  obtain i where i: "i < length l" "P (l ! i)" "e = l ! i" "\<And>j. j < i \<Longrightarrow> \<not> P (l ! j)"
    using assms by (auto simp: find_Some_iff)
  have l: "l = take i l @ e # drop (Suc i) l" using i by (simp add: id_take_nth_drop)
  have "e \<notin> set (take i l)"
  proof
    assume "e \<in> set (take i l)"
    then obtain j where "j < i" "l ! j = e" by (auto simp: in_set_conv_nth)
    then show False using i(2,3,4) by metis
  qed
  then show ?thesis using that [OF l] l by (metis remove1.simps(2) remove1_append)
qed

section \<open>Hot plugging\<close>

text \<open>
  The specification: a device that is added is opened and becomes the last one unless it is known; a device
  that changes is replaced; a device that is removed leaves the list.
\<close>

definition hot_plug :: "platform \<Rightarrow> udev_device option \<Rightarrow> entry list \<Rightarrow> entry list" where
  "hot_plug pf received l = (case received of
     None \<Rightarrow> l
   | Some u \<Rightarrow>
       let others = (case find_entry u l of None \<Rightarrow> l | Some e \<Rightarrow> remove1 e l)
       in if ud_action u = Some ''add'' then (if find_entry u l = None then l @ new_entries pf u else l)
          else if ud_action u = Some ''change'' then others @ new_entries pf u
          else if ud_action u = Some ''remove'' then others
          else l)"

text \<open>The address of a new device is not in use, but it may be that of the device that is replaced.\<close>

definition available :: "platform \<Rightarrow> udev_device option \<Rightarrow> LensDevices \<Rightarrow> bool" where
  "available pf received s \<longleftrightarrow> (case (pf_device pf, received) of
     (Some d, Some u) \<Rightarrow> devices s d = None \<or>
       ud_action u = Some ''change'' \<and> lens_input_isUdevDeviceExists u s = Some (Some d)
   | _ \<Rightarrow> True)"

lemma find_entry_remove:
  assumes "find_entry u l = Some e"
  obtains as bs info k where "l = as @ (fst e, info, k) # bs" "remove1 e l = as @ bs"
proof -
  obtain v p where "find (\<lambda>(d, info, k). same_device u v p info) l = Some e"
    using assms by (auto simp: find_entry_def split: option.splits)
  then obtain as bs where l: "l = as @ e # bs" "remove1 e l = as @ bs" by (rule find_entry_split)
  show ?thesis by (rule that [of as "fst (snd e)" "snd (snd e)" bs]) (simp_all add: l(2), simp add: l(1))
qed

lemma monitor_add:
  assumes a: "attached s l" and f: "available pf (Some u) s" and act: "ud_action u = Some ''add''"
  shows "\<exists>s'. lens_input_udevMonitorHandleEvent pf (Some u) s = Some s' \<and> attached s' (hot_plug pf (Some u) l)"
proof (cases "find_entry u l")
  case None
  have "devices s d = None" if "pf_device pf = Some d" for d
    using f act that by (simp add: available_def)
  from attach_device_ok [OF a this] obtain s' where "attach_device pf u s = Some s'" "attached s' (l @ new_entries pf u)"
    by blast
  then show ?thesis
    using None act isUdevDeviceExists_eq [OF a, of u] by (simp add: lens_input_udevMonitorHandleEvent_def hot_plug_def)
next
  case (Some e)
  then show ?thesis
    using a act isUdevDeviceExists_eq [OF a, of u] by (simp add: lens_input_udevMonitorHandleEvent_def hot_plug_def)
qed

lemma monitor_change:
  assumes a: "attached s l" and f: "available pf (Some u) s" and act: "ud_action u = Some ''change''"
  shows "\<exists>s'. lens_input_udevMonitorHandleEvent pf (Some u) s = Some s' \<and> attached s' (hot_plug pf (Some u) l)"
proof (cases "find_entry u l")
  case None
  have "devices s d = None" if "pf_device pf = Some d" for d
    using f that None isUdevDeviceExists_eq [OF a, of u] by (simp add: available_def)
  from attach_device_ok [OF a this] obtain s' where "attach_device pf u s = Some s'" "attached s' (l @ new_entries pf u)"
    by blast
  then show ?thesis
    using None act isUdevDeviceExists_eq [OF a, of u] by (simp add: lens_input_udevMonitorHandleEvent_def hot_plug_def)
next
  case (Some e)
  obtain as bs info k where l: "l = as @ (fst e, info, k) # bs" "remove1 e l = as @ bs" using find_entry_remove [OF Some] .
  obtain s1 where s1: "lens_input_deviceRemove (fst e) s = Some s1" "attached s1 (as @ bs)"
      "dom (devices s1) = dom (devices s) - {fst e}"
    using deviceRemove_ok [OF a [unfolded l(1)]] by blast
  have "devices s1 d = None" if "pf_device pf = Some d" for d
    using f that Some isUdevDeviceExists_eq [OF a, of u] s1(3) by (auto simp: available_def)
  from attach_device_ok [OF s1(2) this] obtain s' where "attach_device pf u s1 = Some s'" "attached s' ((as @ bs) @ new_entries pf u)"
    by blast
  then show ?thesis
    using Some act isUdevDeviceExists_eq [OF a, of u] s1(1) l(2)
    by (simp add: lens_input_udevMonitorHandleEvent_def hot_plug_def)
qed

lemma monitor_remove:
  assumes a: "attached s l" and act: "ud_action u = Some ''remove''"
  shows "\<exists>s'. lens_input_udevMonitorHandleEvent pf (Some u) s = Some s' \<and> attached s' (hot_plug pf (Some u) l)"
proof (cases "find_entry u l")
  case None
  then show ?thesis
    using a act isUdevDeviceExists_eq [OF a, of u] by (simp add: lens_input_udevMonitorHandleEvent_def hot_plug_def)
next
  case (Some e)
  obtain as bs info k where l: "l = as @ (fst e, info, k) # bs" "remove1 e l = as @ bs" using find_entry_remove [OF Some] .
  have "fst e \<in> fst ` set l" using l(1) by force
  then obtain n where n: "devices s (fst e) = Some n" using attached_mem [OF a] by blast
  let ?s = "s\<lparr>devices := (devices s)(fst e \<mapsto> n\<lparr>d_fd := - 1\<rparr>)\<rparr>"
  have "attached ?s (as @ (fst e, info, k) # bs)"
    unfolding l(1) [symmetric] by (rule attached_upd [OF a n]) (simp_all add: attached_dev_def)
  then obtain s1 where "lens_input_deviceRemove (fst e) ?s = Some s1" "attached s1 (as @ bs)"
    by (rule deviceRemove_ok)
  then show ?thesis
    using Some act isUdevDeviceExists_eq [OF a, of u] l(2) n
    by (simp add: lens_input_udevMonitorHandleEvent_def hot_plug_def dev_upd_def)
qed

lemma monitor_ok:
  assumes a: "attached s l" and f: "available pf received s"
  shows "\<exists>s'. lens_input_udevMonitorHandleEvent pf received s = Some s' \<and> attached s' (hot_plug pf received l)"
proof (cases received)
  case None
  then show ?thesis using a by (simp add: lens_input_udevMonitorHandleEvent_def hot_plug_def)
next
  case (Some u)
  consider "ud_action u = Some ''add''" | "ud_action u = Some ''change''" | "ud_action u = Some ''remove''"
    | "ud_action u \<notin> {Some ''add'', Some ''change'', Some ''remove''}" by blast
  then show ?thesis
  proof cases
    case 4
    then show ?thesis using a Some by (simp add: lens_input_udevMonitorHandleEvent_def hot_plug_def)
  qed (use monitor_add monitor_change monitor_remove assms Some in blast)+
qed

section \<open>The other operations\<close>

lemma findDevices_ok:
  assumes a: "attached s l" and f: "\<And>d. pf_device pf = Some d \<Longrightarrow> devices s d = None"
  obtains s' l' where "lens_input_udevFindDevices prune [(pf, u)] s = Some s'" "attached s' l'" "set l \<subseteq> set l'"
proof (cases "''ID_INPUT'' \<in> set (ud_properties u) \<and> \<not> (prune \<and> find_entry u l \<noteq> None)")
  case False
  then show ?thesis
    using that [of s l] a isUdevDeviceExists_eq [OF a, of u] by auto
next
  case True
  then have e: "(if prune then lens_input_isUdevDeviceExists u s else Some None) = Some None"
    using isUdevDeviceExists_eq [OF a, of u] by (cases "find_entry u l") auto
  show ?thesis
  proof (cases "opened_device pf u")
    case None
    obtain r where r: "lens_input_deviceAllocateAndInit pf u s =
      Some (None, case pf_device pf of None \<Rightarrow> s | Some d \<Rightarrow> s\<lparr>devices := (devices s)(d := r)\<rparr>)"
      using allocate_fails [OF f None] by blast
    have "attached (case pf_device pf of None \<Rightarrow> s | Some d \<Rightarrow> s\<lparr>devices := (devices s)(d := r)\<rparr>) l"
      using a f attached_other [OF a attached_fresh [OF a]] by (auto split: option.splits)
    then show ?thesis using that r e True by (simp add: lens_input_listAdd_def)
  next
    case (Some x)
    obtain d info k where x: "x = (d, info, k)" by (cases x)
    obtain n where n: "lens_input_deviceAllocateAndInit pf u s = Some (Some d, s\<lparr>devices := (devices s)(d \<mapsto> n),
        deviceEvents := deviceEvents s @ [(device_flags k info, True)]\<rparr>)"
      "pf_device pf = Some d" "attached_dev n info k" "d_nextDevice n = None"
      using allocate_works [OF Some [unfolded x]] by blast
    obtain s1 where "lens_input_listAdd (Some d) (s\<lparr>devices := (devices s)(d \<mapsto> n),
        deviceEvents := deviceEvents s @ [(device_flags k info, True)]\<rparr>) = Some s1" "attached s1 (l @ [(d, info, k)])"
      using attach_list [OF a f [OF n(2)] n(3,4) refl] by blast
    then show ?thesis using that [of s1 "l @ [(d, info, k)]"] n(1) e True by auto
  qed
qed

lemma attached_next:
  assumes "attached s (as @ (d, info, k) # bs)"
  obtains n where "devices s d = Some n" "d_nextDevice n = ptr_hd (map fst bs)"
  using assms dlist_links [of s "map fst as" d "map fst bs"] by (auto simp: attached_def)

lemma register_ok:
  assumes "attached s (as @ bs)"
  shows "\<exists>s'. register_devices epoll (ptr_hd (map fst bs)) s = Some s' \<and> attached s' (as @ bs)"
  using assms
proof (induction bs arbitrary: s as)
  case Nil
  then show ?case by (simp add: register_devices.simps)
next
  case (Cons e bs)
  obtain d info k where e: "e = (d, info, k)" by (cases e)
  have "d \<in> fst ` set (as @ e # bs)" by (simp add: e)
  with Cons.prems obtain s1 where s1: "lens_input_epolladdDevice (epoll d) (Some d) s = Some s1" "attached s1 (as @ e # bs)"
    by (rule epolladd_ok)
  obtain n where "devices s1 d = Some n" "d_nextDevice n = ptr_hd (map fst bs)"
    using attached_next s1(2) e by blast
  then show ?case
    using Cons.IH [of s1 "as @ [e]"] s1 e by (subst register_devices.simps) simp
qed

lemma shutdown_ok:
  assumes "attached s l"
  shows "\<exists>s'. shutdown_from (ptr_hd (map fst l)) s = Some s' \<and> attached s' [] \<and> dom (devices s') = dom (devices s) - fst ` set l"
  using assms
proof (induction l arbitrary: s)
  case Nil
  then show ?case by (simp add: shutdown_from.simps)
next
  case (Cons e l)
  obtain d info k where e: "e = (d, info, k)" by (cases e)
  have a: "attached s ([] @ (d, info, k) # l)" using Cons.prems e by simp
  obtain n where n: "devices s d = Some n" "d_nextDevice n = ptr_hd (map fst l)" using attached_next [OF a] .
  obtain s1 where s1: "lens_input_deviceRemove d s = Some s1" "attached s1 l" "dom (devices s1) = dom (devices s) - {d}"
    using deviceRemove_ok [OF a] by auto
  then show ?case
    using Cons.IH [OF s1(2)] n e by (subst shutdown_from.simps) auto
qed

text \<open>A device that is created from a description.\<close>

lemma add_test_device_keeps:
  assumes a: "attached s l" and f: "devices s d = None" and r: "add_test_device pf T d st s = Some (ok, st', s')"
  shows "\<exists>l'. attached s' l'"
proof -
  have gone: "\<exists>l'. attached (s\<lparr>devices := (devices s)(d := x)\<rparr>) l'" for x
    using attached_other [OF a attached_fresh [OF a f]] by blast
  have rel: "lens_input_deviceRelease (Some d) (s\<lparr>devices := (devices s)(d \<mapsto> m)\<rparr>) =
      Some (s\<lparr>devices := (devices s)(d := None)\<rparr>)" if "\<not> d_isNotified m" for m
    using that by (simp add: release_silent)
  have new: "\<not> d_isNotified (new_device b t)" for b t by (simp add: new_device_def)
  show ?thesis
  proof (cases "pf_info pf \<and> pf_buffer pf")
    case False
    then show ?thesis using r gone rel [OF new] by (auto simp: add_test_device_def Let_def)
  next
    case True
    obtain desc st1 where desc: "read_description T st = Some (desc, st1)"
      using r True by (auto simp: add_test_device_def Let_def split: bind_splits)
    show ?thesis
    proof (cases desc)
      case None
      then show ?thesis using r True desc gone rel [OF new] by (auto simp: add_test_device_def Let_def)
    next
      case (Some x)
      obtain info valid k0 where x: "x = (info, valid, k0)" by (cases x)
      define k where "k = (if valid then lens_input_checkTouchSupportLevel (in_absbits info) k0 else k0)"
      define n where "n = (new_device True True)\<lparr>d_info := Some info, d_kind := k\<rparr>"
      let ?s = "s\<lparr>devices := (devices s)(d \<mapsto> n)\<rparr>"
      have n: "\<not> d_isNotified n" "d_state n = None" "d_info n \<noteq> None" "d_isTestDevice n" "d_nextDevice n = None"
        "d_readInputEvents n \<noteq> None" "caps_answer pf n = Some (info, k)"
        by (simp_all add: n_def new_device_def caps_answer_def)
      have r': "(if \<not> valid then do { s \<leftarrow> lens_input_deviceRelease (Some d) ?s; Some (True, st1, s) }
          else do {
            (ok, s) \<leftarrow> lens_input_deviceOpen pf d ?s;
            if \<not> ok then do { s \<leftarrow> lens_input_deviceRelease (Some d) s; Some (True, st1, s) }
            else do {
              s \<leftarrow> lens_input_listAdd (Some d) s;
              s \<leftarrow> lens_input_epolladdDevice (pf_epoll pf) (Some d) s;
              Some (True, st1, s)
            }
          }) = Some (ok, st', s')"
        using r True desc Some x by (cases valid) (simp_all add: add_test_device_def Let_def dev_upd_def n_def k_def)
      show ?thesis
      proof (cases valid)
        case False
        then show ?thesis using r' gone rel [OF n(1)] by auto
      next
        case True
        have op: "lens_input_deviceOpen pf d ?s = Some (
            if pf_open pf = - 1 \<or> pointing k \<and> \<not> pf_state pf then (False, s\<lparr>devices := (devices s)(d := None)\<rparr>)
            else (True, s\<lparr>devices := (devices s)(d \<mapsto> opened_dev pf n info k),
              deviceEvents := deviceEvents s @ [(device_flags k info, True)]\<rparr>))"
          using open_eq [of ?s d n pf] n by simp
        have "lens_input_deviceRelease (Some d) (s\<lparr>devices := (devices s)(d := None)\<rparr>) = None"
          by (simp add: lens_input_deviceRelease_def)
        then have ok: "\<not> (pf_open pf = - 1 \<or> pointing k \<and> \<not> pf_state pf)"
          using r' True op by (auto split: if_splits)
        have o: "attached_dev (opened_dev pf n info k) info k" "d_nextDevice (opened_dev pf n info k) = None"
          using n by (auto simp: attached_dev_def opened_dev_def pointing_def)
        obtain s1 where s1: "lens_input_listAdd (Some d) (s\<lparr>devices := (devices s)(d \<mapsto> opened_dev pf n info k),
            deviceEvents := deviceEvents s @ [(device_flags k info, True)]\<rparr>) = Some s1" "attached s1 (l @ [(d, info, k)])"
          using attach_list [OF a f o refl] by blast
        have "d \<in> fst ` set (l @ [(d, info, k)])" by simp
        with s1(2) obtain s2 where "lens_input_epolladdDevice (pf_epoll pf) (Some d) s1 = Some s2" "attached s2 (l @ [(d, info, k)])"
          by (rule epolladd_ok)
        then show ?thesis using r' True op ok s1(1) by auto
      qed
    qed
  qed
qed

section \<open>Events of the devices\<close>

lemma attached_field:
  assumes "attached (is_devices st) l" "dev_upd d f (is_devices st) = Some dv"
    and "\<And>n. d_nextDevice (f n) = d_nextDevice n" "\<And>n. d_previousDevice (f n) = d_previousDevice n"
    and "\<And>n info k. attached_dev n info k \<Longrightarrow> attached_dev (f n) info k"
  shows "attached dv l"
proof -
  obtain n where n: "devices (is_devices st) d = Some n" "dv = (is_devices st)\<lparr>devices := (devices (is_devices st))(d \<mapsto> f n)\<rparr>"
    using assms(2) by (auto simp: dev_upd_def split: bind_splits)
  show ?thesis unfolding n(2) by (rule attached_upd [OF assms(1) n(1)]) (use assms(3-5) in auto)
qed

lemma dispatch_event_keeps:
  assumes "attached (is_devices st) l" "dispatch_event E d e st = Some st'"
  shows "attached (is_devices st') l"
proof -
  have s: "attached_dev (n\<lparr>d_state := Some ms\<rparr>) info k" if "attached_dev n info k" for n info k ms
    using that by (simp add: attached_dev_def)
  show ?thesis
    using assms attached_field [OF assms(1) _ _ _ s]
    by (auto simp: dispatch_event_def Let_def split: bind_splits if_splits)
qed

lemma dispatch_events_keeps:
  "attached (is_devices st) l \<Longrightarrow> dispatch_events E d es st = Some st' \<Longrightarrow> attached (is_devices st') l"
  by (induction es arbitrary: st) (auto split: bind_splits dest: dispatch_event_keeps)

lemma store_buffer_keeps:
  assumes "attached (is_devices st) l" "store_buffer d buf st = Some st'"
  shows "attached (is_devices st') l"
proof -
  have s: "attached_dev (n\<lparr>d_readInputEvents := Some buf\<rparr>) info k" if "attached_dev n info k" for n info k
    using that by (simp add: attached_dev_def)
  show ?thesis
    using assms attached_field [OF assms(1) _ _ _ s] by (auto simp: store_buffer_def split: bind_splits)
qed

lemma epollEvent_keeps:
  assumes a: "attached (is_devices st) l" and r: "lens_input_epollEvent E device err rs st = Some st'"
  shows "attached (is_devices st') l"
proof (cases "device \<in> Some ` fst ` set l")
  case False
  then show ?thesis using r a isDeviceExists_iff [OF a, of device] by (simp add: lens_input_epollEvent_def)
next
  case True
  then obtain d where d: "device = Some d" "d \<in> fst ` set l" by auto
  have rem: "attached dv l" if "attached s l" "lens_input_epollRemoveDevice (Some d) s = Some dv" for s dv
    using epollRemove_ok [OF that(1) d(2)] that(2) by auto
  show ?thesis
  proof (cases err)
    case err: True
    then show ?thesis
      using r rem [OF a] d(1) isDeviceExists_iff [OF a, of device] True by (auto simp: lens_input_epollEvent_def split: bind_splits)
  next
    case False
    then have "lens_input_readDevice E d rs st = Some st'"
      using r d(1) isDeviceExists_iff [OF a, of device] True by (simp add: lens_input_epollEvent_def)
    then show ?thesis
      by (auto simp: lens_input_readDevice_def Let_def split: bind_splits if_splits
          dest!: store_buffer_keeps [OF a]) (blast intro: rem store_buffer_keeps dispatch_events_keeps)+
  qed
qed

text \<open>A stored buffer does not matter to the handlers.\<close>

lemma store_dispatch_event:
  assumes "store_buffer d buf st = Some st'"
  shows "dispatch_event E d e st' = do { st \<leftarrow> dispatch_event E d e st; store_buffer d buf st }"
proof -
  obtain n where n: "devices (is_devices st) d = Some n"
    "st' = st\<lparr>is_devices := (is_devices st)\<lparr>devices := (devices (is_devices st))(d \<mapsto> n\<lparr>d_readInputEvents := Some buf\<rparr>)\<rparr>\<rparr>"
    using assms by (auto simp: store_buffer_def dev_upd_def split: bind_splits)
  show ?thesis
  proof (cases "dev_isKeyboard (d_kind n)")
    case True
    then show ?thesis using n by (auto simp: dispatch_event_def store_buffer_def dev_upd_def Let_def split: bind_splits)
  next
    case False
    then show ?thesis using n
      by (cases st; cases n; cases "d_state n") (auto simp: dispatch_event_def store_buffer_def dev_upd_def Let_def split: bind_splits)
  qed
qed

lemma store_buffer_live: "devices (is_devices st) d \<noteq> None \<Longrightarrow> \<exists>st'. store_buffer d buf st = Some st'"
  by (auto simp: store_buffer_def dev_upd_def)

lemma dispatch_event_live: "dispatch_event E d e st = Some st' \<Longrightarrow> devices (is_devices st') d \<noteq> None"
  by (auto simp: dispatch_event_def dev_upd_def Let_def split: bind_splits if_splits)

lemma store_dispatch:
  "store_buffer d buf st = Some st' \<Longrightarrow> dispatch_events E d es st' = do { st \<leftarrow> dispatch_events E d es st; store_buffer d buf st }"
proof (induction es arbitrary: st st')
  case (Cons e es)
  show ?case
  proof (cases "dispatch_event E d e st")
    case None
    then show ?thesis using store_dispatch_event [OF Cons.prems, of E e] by simp
  next
    case (Some st1)
    obtain st2 where "store_buffer d buf st1 = Some st2"
      using store_buffer_live [OF dispatch_event_live [OF Some]] by blast
    then show ?thesis using Some store_dispatch_event [OF Cons.prems, of E e] Cons.IH by simp
  qed
qed simp

lemma store_twice: "do { st \<leftarrow> store_buffer d a st; store_buffer d b st } = store_buffer d b st"
  by (cases "devices (is_devices st) d") (simp_all add: store_buffer_def dev_upd_def)

lemma dispatch_store_store:
  assumes "store_buffer d a st = Some st'"
  shows "do { st \<leftarrow> dispatch_events E d es st'; store_buffer d b st } = do { st \<leftarrow> dispatch_events E d es st; store_buffer d b st }"
  by (simp add: store_dispatch [OF assms] store_twice)

lemma dispatch_append: "dispatch_events E d (es @ fs) st = do { st \<leftarrow> dispatch_events E d es st; dispatch_events E d fs st }"
proof (induction es arbitrary: st)
  case (Cons e es)
  then show ?case by (cases "dispatch_event E d e st") simp_all
qed simp

text \<open>The whole events in a sequence of bytes, and the bytes behind them.\<close>

definition whole_events :: "input_env \<Rightarrow> byte list \<Rightarrow> input_event list" where
  "whole_events E bs = events_in E (length bs div ev_size E) bs"

definition rest_bytes :: "input_env \<Rightarrow> byte list \<Rightarrow> byte list" where
  "rest_bytes E bs = drop (length bs div ev_size E * ev_size E) bs"

lemma events_in_add: "events_in E (m + n) bs = events_in E m bs @ events_in E n (drop (m * ev_size E) bs)"
  by (induction m arbitrary: bs) (simp_all add: add.commute)

lemma events_in_prefix: "m * ev_size E \<le> length bs \<Longrightarrow> events_in E m (bs @ cs) = events_in E m bs"
  by (induction m arbitrary: bs) simp_all

lemma whole_events_append:
  assumes "0 < ev_size E"
  shows "whole_events E (bs @ cs) = whole_events E bs @ whole_events E (rest_bytes E bs @ cs)"
    and "rest_bytes E (bs @ cs) = rest_bytes E (rest_bytes E bs @ cs)"
proof -
  let ?z = "ev_size E" and ?m = "length bs div ev_size E"
  have le: "?m * ?z \<le> length bs" by simp
  have d: "length (bs @ cs) div ?z = ?m + length (rest_bytes E bs @ cs) div ?z"
  proof -
    have "length (rest_bytes E bs) = length bs - ?m * ?z" by (simp only: rest_bytes_def length_drop)
    then have l: "length (bs @ cs) = length (rest_bytes E bs @ cs) + ?m * ?z" using le unfolding length_append by linarith
    have "(i + j * ?z) div ?z = j + i div ?z" for i j using assms by simp
    then show ?thesis unfolding l .
  qed
  have r: "drop (?m * ?z) (bs @ cs) = rest_bytes E bs @ cs" using le by (simp add: rest_bytes_def)
  show "whole_events E (bs @ cs) = whole_events E bs @ whole_events E (rest_bytes E bs @ cs)"
    unfolding whole_events_def d events_in_add r events_in_prefix [OF le] ..
  show "rest_bytes E (bs @ cs) = rest_bytes E (rest_bytes E bs @ cs)"
  proof -
    let ?k = "length (rest_bytes E bs @ cs) div ?z"
    have "rest_bytes E (bs @ cs) = drop (?k * ?z + ?m * ?z) (bs @ cs)"
      by (simp only: rest_bytes_def [of E "bs @ cs"] d add_mult_distrib add.commute)
    also have "\<dots> = drop (?k * ?z) (drop (?m * ?z) (bs @ cs))" by (simp only: drop_drop)
    finally show ?thesis by (simp only: r rest_bytes_def [of E "rest_bytes E bs @ cs"])
  qed
qed

lemma read_chunk:
  assumes "length (buf @ bs) \<le> z"
  obtains r where "read_events z [Read bs] buf = Some (buf @ bs, r)" "r \<noteq> ReadError"
  using assms by (cases "length (buf @ bs) < z \<and> bs \<noteq> []") auto

lemma readDevice_chunk:
  assumes n: "devices (is_devices st) d = Some n" "d_readInputEvents n = Some buf"
    and z: "length (buf @ bs) \<le> ev_size E * EVENTS_PER_READ"
  shows "lens_input_readDevice E d [Read bs] st =
    do { st \<leftarrow> dispatch_events E d (whole_events E (buf @ bs)) st; store_buffer d (rest_bytes E (buf @ bs)) st }"
proof -
  obtain r where r: "read_events (ev_size E * EVENTS_PER_READ) [Read bs] buf = Some (buf @ bs, r)" "r \<noteq> ReadError"
    using read_chunk [OF z] by blast
  obtain st1 where st1: "store_buffer d (buf @ bs) st = Some st1" using store_buffer_live n(1) by blast
  show ?thesis
    using n r st1 dispatch_store_store [OF st1]
    by (simp add: lens_input_readDevice_def whole_events_def rest_bytes_def Let_def del: read_events.simps)
qed

section \<open>Reachable states\<close>

definition no_devices :: LensDevices where
  "no_devices = \<lparr>devices = (\<lambda>_. None), devicesList_head = None, devicesList_tail = None, gNumOfAttachedDevices = 0, deviceEvents = []\<rparr>"

text \<open>
  The steps of the input thread and of the thread that watches for new devices, which exclude each other by a lock. A wakeup
  names any address: the device may have been removed since.
\<close>

inductive input_reachable :: "input_env \<Rightarrow> InputState \<Rightarrow> bool" for E where
  start: "is_devices st = no_devices \<Longrightarrow> input_reachable E st"
| find: "input_reachable E st \<Longrightarrow> \<forall>d. pf_device pf = Some d \<longrightarrow> devices (is_devices st) d = None \<Longrightarrow>
    lens_input_udevFindDevices prune [(pf, u)] (is_devices st) = Some dv \<Longrightarrow> input_reachable E (st\<lparr>is_devices := dv\<rparr>)"
| register: "input_reachable E st \<Longrightarrow> register_devices epoll (devicesList_head (is_devices st)) (is_devices st) = Some dv \<Longrightarrow>
    input_reachable E (st\<lparr>is_devices := dv\<rparr>)"
| monitor: "input_reachable E st \<Longrightarrow> available pf received (is_devices st) \<Longrightarrow>
    lens_input_udevMonitorHandleEvent pf received (is_devices st) = Some dv \<Longrightarrow> input_reachable E (st\<lparr>is_devices := dv\<rparr>)"
| test: "input_reachable E st \<Longrightarrow> \<forall>d. pf_device pf = Some d \<longrightarrow> devices (is_devices st) d = None \<Longrightarrow>
    lens_input_testInputHandleEvent pf T stream (is_devices st) = Some (ok, stream', dv) \<Longrightarrow>
    input_reachable E (st\<lparr>is_devices := dv\<rparr>)"
| wakeup: "input_reachable E st \<Longrightarrow> lens_input_epollEvent E device err rs st = Some st' \<Longrightarrow> input_reachable E st'"

lemma testInput_keeps:
  assumes a: "attached s l" and f: "\<And>d. pf_device pf = Some d \<Longrightarrow> devices s d = None"
    and r: "lens_input_testInputHandleEvent pf T st s = Some (ok, st', s')"
  shows "\<exists>l'. attached s' l'"
proof -
  obtain act st1 where act: "lens_input_testInputReadInt T st = Some (act, st1)"
    using r by (auto simp: lens_input_testInputHandleEvent_def split: bind_splits)
  consider "act = None" | i where "act = Some i" "i \<noteq> 1" "i \<noteq> 2" | "act = Some 1" | "act = Some 2" by (cases act) auto
  then show ?thesis
  proof cases
    case 3
    then show ?thesis
      using r act a f add_test_device_keeps [OF a]
      by (auto simp: lens_input_testInputHandleEvent_def split: option.splits)
  next
    case 4
    then obtain node st2 where node: "lens_input_testInputReadString T st1 = Some (node, st2)"
      using r act by (auto simp: lens_input_testInputHandleEvent_def split: bind_splits)
    show ?thesis
    proof (cases "node = None \<or> find (\<lambda>(d, info, k). in_devNode info = the node) l = None")
      case True
      then show ?thesis
        using r act node 4 a find_node_eq [OF a, of "the node"]
        by (auto simp: lens_input_testInputHandleEvent_def split: option.splits)
    next
      case False
      then obtain nm e where e: "node = Some nm" "find (\<lambda>(d, info, k). in_devNode info = nm) l = Some e" by auto
      obtain as bs where l: "l = as @ e # bs" using find_entry_split [OF e(2)] .
      obtain d info k where x: "e = (d, info, k)" by (cases e)
      have "attached s (as @ (d, info, k) # bs)" using a l x by simp
      then obtain s1 where "lens_input_deviceRemove d s = Some s1" "attached s1 (as @ bs)" by (rule deviceRemove_ok)
      then show ?thesis
        using r act node 4 e x find_node_eq [OF a, of nm] by (auto simp: lens_input_testInputHandleEvent_def)
    qed
  qed (use r act a in \<open>auto simp: lens_input_testInputHandleEvent_def\<close>)
qed

lemma input_reachable_attached: "input_reachable E st \<Longrightarrow> \<exists>l. attached (is_devices st) l"
proof (induction rule: input_reachable.induct)
  case (start st)
  then have "attached (is_devices st) []" by (simp add: attached_def dlist_def no_devices_def balanced_def)
  then show ?case by blast
next
  case (find st pf prune u dv)
  obtain l where l: "attached (is_devices st) l" using find.IH by blast
  have f: "devices (is_devices st) d = None" if "pf_device pf = Some d" for d using find.hyps(2) that by blast
  obtain s' l' where "lens_input_udevFindDevices prune [(pf, u)] (is_devices st) = Some s'" "attached s' l'"
    by (rule findDevices_ok [OF l f])
  then show ?case using find.hyps(3) by auto
next
  case (register st epoll dv)
  then obtain l where l: "attached (is_devices st) l" by blast
  then have "devicesList_head (is_devices st) = ptr_hd (map fst l)" by (auto simp: attached_def dlist_ends)
  then show ?case using register_ok [of "is_devices st" "[]" l epoll] register(2) l by auto
next
  case (monitor st pf received dv)
  then show ?case using monitor_ok by fastforce
next
  case (test st pf T stream ok stream' dv)
  obtain l where l: "attached (is_devices st) l" using test.IH by blast
  have f: "devices (is_devices st) d = None" if "pf_device pf = Some d" for d using test.hyps(2) that by blast
  show ?case using testInput_keeps [OF l f test.hyps(3)] by simp
next
  case (wakeup st device err rs st')
  then show ?case using epollEvent_keeps by blast
qed

section \<open>The properties\<close>

text \<open>A keyboard that is plugged in, and the devices after it was.\<close>

definition example_udev :: udev_device where
  "example_udev = \<lparr>ud_action = Some ''add'', ud_sysPath = Some ''/sys/event0'', ud_devNode = Some ''/dev/event0'',
     ud_productID = Some (1, 2), ud_properties = [''ID_INPUT'', ''ID_INPUT_KEYBOARD'']\<rparr>"

definition example_platform :: "did option \<Rightarrow> platform" where
  "example_platform p = \<lparr>pf_device = p, pf_buffer = True, pf_info = True, pf_open = 3,
     pf_caps = \<lparr>cap_eventMask = Some (\<lambda>i. i = EV_KEY), cap_keybits = Some (\<lambda>i. i < 100), cap_relbits = None, cap_absbits = None,
       cap_absinfo = (\<lambda>_. None)\<rparr>,
     pf_state = True, pf_grab = True, pf_epoll = True\<rparr>"

definition example_env :: input_env where
  "example_env = \<lparr>ev_size = 4, ev_decode = (\<lambda>bs. \<lparr>ie_type = uint (bs ! 0), ie_code = uint (bs ! 1), ie_value = uint (bs ! 2)\<rparr>),
     ev_trapCtrlC = False, ev_scale = (\<lambda>v lo hi extent. v), ev_uninit = 0, ev_alloc = True\<rparr>"

definition example_input :: InputState where
  "example_input = \<lparr>is_devices = no_devices,
     is_keys = \<lparr>shiftDown = 0, ctrlDown = 0, altDown = 0, metaDown = 0, capsOn = False\<rparr>,
     is_globals = \<lparr>screenWidth = 800, screenHeight = 600, li_mousePosX = 0, li_mousePosY = 0, newMousePosX = 0, newMousePosY = 0,
       gTapRadius = 20, gTouchMoveSensitivity = 20, gUseMultiTouch = True\<rparr>,
     is_wm = lens_init 800 600\<rparr>"

definition example_plugged :: InputState where
  "example_plugged = example_input\<lparr>is_devices :=
     the (lens_input_udevMonitorHandleEvent (example_platform (Some 7)) (Some example_udev) no_devices)\<rparr>"

lemma example_plugged_reachable: "input_reachable example_env example_plugged"
proof -
  have r: "input_reachable example_env example_input" by (rule input_reachable.start) (simp add: example_input_def)
  have av: "available (example_platform (Some 7)) (Some example_udev) (is_devices example_input)"
    by (simp add: available_def example_platform_def example_input_def no_devices_def)
  obtain dv where dv: "lens_input_udevMonitorHandleEvent (example_platform (Some 7)) (Some example_udev) (is_devices example_input) = Some dv"
    using input_reachable_attached [OF r] monitor_ok [OF _ av] by blast
  have "is_devices example_input = no_devices" by (simp add: example_input_def)
  then have "example_plugged = example_input\<lparr>is_devices := dv\<rparr>" using dv by (simp add: example_plugged_def)
  then show ?thesis using input_reachable.monitor [OF r av dv] by simp
qed

text \<open>C22: In every reachable state of the input devices, the links of the devices represent a list of allocated devices with
  their number; every device in it is announced to the application and has its buffer and, for a pointer, its
  state; and for every kind of device, the announcements exceed the withdrawals by the number of attached devices of that kind.\<close>

theorem device_list_invariant:
  "input_reachable E st \<Longrightarrow> \<exists>l. attached (is_devices st) l"
  by (rule input_reachable_attached)

theorem device_list_invariant_witness: "\<exists>l. attached (is_devices example_plugged) l"
  by (rule device_list_invariant [OF example_plugged_reachable])

text \<open>C21: Hot plugging implements its specification: in every reachable state the handling of an event of udev returns, so it
  follows no \<open>NULL\<close> and no dangling pointer, and the list of the attached devices changes as \<open>hot_plug\<close> says.\<close>

theorem hot_plug_refines_list:
  assumes "input_reachable E st" "available pf received (is_devices st)"
  shows "\<exists>l dv. attached (is_devices st) l \<and> lens_input_udevMonitorHandleEvent pf received (is_devices st) = Some dv \<and>
    attached dv (hot_plug pf received l)"
  using input_reachable_attached [OF assms(1)] monitor_ok [OF _ assms(2)] by blast

text \<open>The keyboard is unplugged.\<close>

theorem hot_plug_refines_list_witness:
  "\<exists>l dv. attached (is_devices example_plugged) l \<and>
    lens_input_udevMonitorHandleEvent (example_platform None) (Some (example_udev\<lparr>ud_action := Some ''remove''\<rparr>)) (is_devices example_plugged) = Some dv \<and>
    attached dv (hot_plug (example_platform None) (Some (example_udev\<lparr>ud_action := Some ''remove''\<rparr>)) l)"
  by (rule hot_plug_refines_list [OF example_plugged_reachable]) (simp add: available_def example_platform_def)

text \<open>A wakeup for a device that the other thread has removed in the meantime is ignored: whatever its flags are, nothing is
  read through the dangling pointer.\<close>

lemma stale_wakeup_ignored:
  assumes "input_reachable E st" "devices (is_devices st) d = None"
  shows "lens_input_epollEvent E (Some d) err rs st = Some st"
proof -
  obtain l where l: "attached (is_devices st) l" using input_reachable_attached [OF assms(1)] by blast
  then show ?thesis
    using isDeviceExists_iff [OF l] attached_fresh [OF l assms(2)] by (simp add: lens_input_epollEvent_def image_iff)
qed

lemma stale_wakeup_ignored_witness: "lens_input_epollEvent example_env (Some 8) False [Read [1, 2, 3, 4]] example_plugged = Some example_plugged"
proof (rule stale_wakeup_ignored [OF example_plugged_reachable])
  have "devices (is_devices example_plugged) 8 = None \<longleftrightarrow> \<not> (case devices (is_devices example_plugged) 8 of None \<Rightarrow> False | Some _ \<Rightarrow> True)"
    by (simp split: option.splits)
  moreover have "\<not> (case devices (is_devices example_plugged) 8 of None \<Rightarrow> False | Some _ \<Rightarrow> True)" by code_simp
  ultimately show "devices (is_devices example_plugged) 8 = None" by simp
qed

text \<open>C23: When the devices are shut down in a reachable state, every device of the list is released, the list is empty, and every
  announcement of a device is followed by its withdrawal.\<close>

theorem shutdown_releases_devices:
  assumes "input_reachable E st"
  shows "\<exists>l dv. attached (is_devices st) l \<and> lens_input_shutdownDevices (is_devices st) = Some dv \<and>
    devicesList_head dv = None \<and> gNumOfAttachedDevices dv = 0 \<and> (\<forall>d\<in>fst ` set l. devices dv d = None) \<and>
    mset (map fst (filter snd (deviceEvents dv))) = mset (map fst (filter (Not \<circ> snd) (deviceEvents dv)))"
proof -
  obtain l where l: "attached (is_devices st) l" using input_reachable_attached [OF assms] by blast
  have h: "devicesList_head (is_devices st) = ptr_hd (map fst l)" using l by (auto simp: attached_def dlist_ends)
  obtain dv where dv: "shutdown_from (ptr_hd (map fst l)) (is_devices st) = Some dv" "attached dv []"
      "dom (devices dv) = dom (devices (is_devices st)) - fst ` set l"
    using shutdown_ok [OF l] by blast
  have "devicesList_head dv = None" "gNumOfAttachedDevices dv = 0"
    "mset (map fst (filter snd (deviceEvents dv))) = mset (map fst (filter (Not \<circ> snd) (deviceEvents dv)))"
    using dv(2) by (simp_all add: attached_def dlist_def balanced_def)
  moreover have "\<forall>d\<in>fst ` set l. devices dv d = None" using dv(3) by blast
  ultimately show ?thesis using l dv(1) h by (auto simp: lens_input_shutdownDevices_def)
qed

theorem shutdown_releases_devices_witness:
  "\<exists>l dv. attached (is_devices example_plugged) l \<and> lens_input_shutdownDevices (is_devices example_plugged) = Some dv \<and>
    devicesList_head dv = None \<and> gNumOfAttachedDevices dv = 0 \<and> (\<forall>d\<in>fst ` set l. devices dv d = None) \<and>
    mset (map fst (filter snd (deviceEvents dv))) = mset (map fst (filter (Not \<circ> snd) (deviceEvents dv)))"
  by (rule shutdown_releases_devices [OF example_plugged_reachable])

text \<open>C24: The events of a device do not depend on how its bytes arrive: reading bytes in one wakeup has the result of
  reading them in two, also if the first part ends inside an event.\<close>

theorem device_read_split:
  assumes n: "devices (is_devices st) d = Some n" "d_readInputEvents n = Some buf"
    and z: "0 < ev_size E" "length (buf @ xs @ ys) \<le> ev_size E * EVENTS_PER_READ"
  shows "lens_input_readDevice E d [Read (xs @ ys)] st =
    do { st \<leftarrow> lens_input_readDevice E d [Read xs] st; lens_input_readDevice E d [Read ys] st }"
proof -
  let ?es = "whole_events E (buf @ xs)" and ?r = "rest_bytes E (buf @ xs)"
  have l: "lens_input_readDevice E d [Read (xs @ ys)] st =
    do { st \<leftarrow> dispatch_events E d (?es @ whole_events E (?r @ ys)) st; store_buffer d (rest_bytes E (?r @ ys)) st }"
    using readDevice_chunk [OF n, of "xs @ ys" E] z(2) whole_events_append [OF z(1), of "buf @ xs" ys] by simp
  have x: "lens_input_readDevice E d [Read xs] st = do { st \<leftarrow> dispatch_events E d ?es st; store_buffer d ?r st }"
    using readDevice_chunk [OF n, of xs E] z(2) by simp
  have "do { st \<leftarrow> store_buffer d ?r st1; lens_input_readDevice E d [Read ys] st } =
      do { st \<leftarrow> dispatch_events E d (whole_events E (?r @ ys)) st1; store_buffer d (rest_bytes E (?r @ ys)) st }" for st1
  proof (cases "store_buffer d ?r st1")
    case None
    then have "devices (is_devices st1) d = None"
      by (auto simp: store_buffer_def dev_upd_def split: bind_splits)
    then show ?thesis using None
      by (cases "whole_events E (?r @ ys)") (simp_all add: dispatch_event_def store_buffer_def dev_upd_def)
  next
    case (Some st2)
    then obtain m where m: "devices (is_devices st2) d = Some m" "d_readInputEvents m = Some ?r"
      by (auto simp: store_buffer_def dev_upd_def split: bind_splits)
    have "length ?r \<le> length (buf @ xs)" by (simp add: rest_bytes_def)
    then have "length (?r @ ys) \<le> ev_size E * EVENTS_PER_READ" using z(2) by simp
    then show ?thesis using readDevice_chunk [OF m, of ys E] Some dispatch_store_store [OF Some] by simp
  qed
  then show ?thesis unfolding l x dispatch_append by simp
qed

text \<open>The bytes of an event arrive in two parts.\<close>

theorem device_read_split_witness:
  "lens_input_readDevice example_env 7 [Read ([1, 42, 1] @ [0])] example_plugged =
    do { st \<leftarrow> lens_input_readDevice example_env 7 [Read [1, 42, 1]] example_plugged; lens_input_readDevice example_env 7 [Read [0]] st }"
proof -
  have "map_option d_readInputEvents (devices (is_devices example_plugged) 7) = Some (Some [])" by code_simp
  then obtain n where n: "devices (is_devices example_plugged) 7 = Some n" "d_readInputEvents n = Some []" by auto
  show ?thesis by (rule device_read_split [OF n]) (simp_all add: example_env_def EVENTS_PER_READ_def)
qed

text \<open>C39: A test device that cannot be opened is freed twice: the handling of its description accesses the freed device, for every
  description of a device that Lens would use.\<close>

theorem test_device_double_free:
  assumes "lens_input_testInputReadInt T st = Some (Some 1, st1)" "read_description T st1 = Some (Some (info, True, k), st2)"
    and "pf_device pf = Some d" "pf_info pf" "pf_buffer pf" "pf_open pf = - 1"
  shows "lens_input_testInputHandleEvent pf T st s = None"
proof -
  let ?n = "(new_device True True)\<lparr>d_info := Some info, d_kind := lens_input_checkTouchSupportLevel (in_absbits info) k\<rparr>"
  let ?s = "s\<lparr>devices := (devices s)(d \<mapsto> ?n)\<rparr>"
  have "lens_input_deviceOpen pf d ?s = Some (False, s\<lparr>devices := (devices s)(d := None)\<rparr>)"
    using open_eq [of ?s d ?n pf] assms(6) by (simp add: new_device_def)
  moreover have "lens_input_deviceRelease (Some d) (s\<lparr>devices := (devices s)(d := None)\<rparr>) = None"
    by (simp add: lens_input_deviceRelease_def)
  ultimately show ?thesis
    using assms by (simp add: lens_input_testInputHandleEvent_def add_test_device_def Let_def dev_upd_def)
qed

text \<open>A keyboard whose device file does not exist.\<close>

definition example_test_env :: test_env where
  "example_test_env = \<lparr>te_int = (\<lambda>bs. if bs ! 0 = 255 then - 1 else uint (bs ! 0)), te_id_size = 2,
     te_id = (\<lambda>bs. (unat (bs ! 0), unat (bs ! 1))), te_abs_size = 2,
     te_abs = (\<lambda>bs. \<lparr>ai_minimum = uint (bs ! 0), ai_maximum = uint (bs ! 1)\<rparr>), te_memory = (\<lambda>_. True)\<rparr>"

definition example_description :: "byte list" where
  "example_description = [1, 2] @ [97, 0, 98, 0, 99, 0] @ concat (replicate 4 [255, 255, 255, 255]) @
     map (\<lambda>c. of_nat (of_char c)) ''ID_INPUT_KEYBOARD'' @ [0] @ [49, 0] @ [0]"

theorem test_device_double_free_witness:
  "lens_input_testInputHandleEvent ((example_platform (Some 7))\<lparr>pf_open := - 1\<rparr>) example_test_env
    ([1, 0, 0, 0] @ example_description, False) no_devices = None"
proof -
  have i: "lens_input_testInputReadInt example_test_env ([1, 0, 0, 0] @ example_description, False) = Some (Some 1, (example_description, False))"
    by (simp add: lens_input_testInputReadInt_def lens_input_testInputRead_def example_test_env_def)
  have "case read_description example_test_env (example_description, False) of
      Some (Some (info, valid, k), st) \<Rightarrow> valid | _ \<Rightarrow> False" by code_simp
  then obtain info k st where "read_description example_test_env (example_description, False) = Some (Some (info, True, k), st)"
    by (auto split: option.splits prod.splits)
  then show ?thesis using test_device_double_free [OF i] by (simp add: example_platform_def)
qed

end
