(* ===== verification/Spec2Isabelle.thy ===== *)
theory Spec2Isabelle
  imports JPiscesMask JSurface PiscesMath FlvDemuxProps LensProps LensInputProps LensDevicesProps
begin

text \<open>
  Verification of native C code of OpenJFX 8: the Pisces software renderer, which paints JavaFX
  scenes into memory (\<^verbatim>\<open>modules/graphics/src/main/native-prism-sw\<close>), the FLV demuxer of the
  media engine (\<^verbatim>\<open>modules/media/src/main/native/gstreamer/plugins/vp6\<close>), and the window manager and the input
  devices of the Lens port of Glass (\<^verbatim>\<open>modules/graphics/src/main/native-glass/lens\<close>), which embedded devices without a
  window system use.

  \<^bold>\<open>Conventions.\<close> C arrays are lists; an access outside of an array, a call through a \<open>NULL\<close> pointer and
  other undefined behaviour is \<open>None\<close>, so that a theorem with \<open>Some\<close> on its right-hand side is a
  theorem of memory safety. The graphics code computes with \<open>jint\<close> and \<open>jlong\<close>, which are integers
  with the wrap-around of 32 and 64 bits written out (\<open>s32\<close>, \<open>s64\<close>); the FLV code computes with
  unsigned sizes, which are words. Floating point operations are a parameter (\<open>fops\<close>, \<open>dops\<close>) about
  which nothing is assumed, so the theorems hold for every rounding. Structs are records, every
  operation is a function on the record of its state, and a loop is a recursive function over the
  number of its iterations or, where it might not end, a \<open>partial_function\<close> whose termination is a theorem.

  \<^bold>\<open>The renderer.\<close> Java code calls the native methods of \<^verbatim>\<open>JPiscesRenderer.c\<close> with a surface. The
  setters store colour, paint, composite rule, clip and mask in the renderer and mark what depends on
  them as invalid; a drawing method clips the shape, validates the state (which chooses the row
  routines and the internal colour), lets the paint generator fill a row of colours when the paint is
  not flat, and calls the row routine, which blends into the pixels of the surface.

  \<^item> \<open>Prelude\<close>: C integers, arrays and their contract as a locale.
  \<^item> \<open>PiscesState\<close>: surface, transform and renderer records (\<^verbatim>\<open>PiscesSurface.h\<close>, \<^verbatim>\<open>PiscesTransform.h\<close>,
    \<^verbatim>\<open>PiscesRenderer.h\<close>).
  \<^item> \<open>PiscesColor\<close>: channels, divisions by 255 and the blend functions of \<^verbatim>\<open>PiscesBlit.c\<close>; exact
    Porter-Duff results, preservation of premultiplication, one overflow.
  \<^item> \<open>PixelLoops\<close>: the generic row and pixel loops with their frame lemmas.
  \<^item> \<open>PiscesBlit\<close>, \<open>PiscesEmit\<close>: the anti-aliased and masked blits, the emitLine routines and clearRect of
    \<^verbatim>\<open>PiscesBlit.c\<close>. Each is shown to write exactly its rectangle, with the pixel values given by a
    reference definition, and to access nothing else.
  \<^item> \<open>PiscesPaint\<close>, \<open>PiscesPaintProps\<close>: gradients and textures (\<^verbatim>\<open>PiscesPaint.c\<close>); memory safety for
    all numbers of a transform and every arithmetic (of a texture with at least two columns and lines when it is
    interpolated), ranges of the interpolation, the tiled or copied texels when there is no transform.
  \<^item> \<open>PiscesRenderer\<close>, \<open>PiscesValidation\<close>: \<^verbatim>\<open>PiscesTransform.c\<close> and \<^verbatim>\<open>PiscesRenderer.inl\<close>: setters, flags,
    dispatch tables; the lazy validation refines a table from modes to routines in every state that
    is reachable by the setters (an inductive relation).
  \<^item> \<open>JPiscesRenderer\<close>, \<open>JPiscesFill\<close>, \<open>JPiscesMask\<close>: the native methods of \<^verbatim>\<open>JPiscesRenderer.c\<close> and, from
    the setters down to the pixels, the correctness of filling a rectangle with fractional edges (against the
    area that the rectangle covers of each pixel), of alpha and LCD masks and of clearing. The contract between the methods and the row routines is
    the locales \<open>line_filler\<close> and \<open>row_blitter\<close>, interpreted on the routines of the code.
  \<^item> \<open>JSurface\<close>: \<^verbatim>\<open>JJavaSurface.c\<close>, \<^verbatim>\<open>JAbstractSurface.c\<close>, \<^verbatim>\<open>PiscesSurface.inl\<close>: pixel transfer between
    surfaces and Java arrays.
  \<^item> \<open>PiscesMath\<close>: the fixed point sine (\<^verbatim>\<open>PiscesMath.c\<close>) against its values by quadrant, with the one angle for
    which it leaves its table.

  \<^bold>\<open>The demuxer.\<close> The chain function collects the bytes of the stream in an adapter and hands them to
  the parser block by block; the parser's state says what the next block is and how long. Audio and
  video packets are sent to the source pads, keyframes are entered in the index that seeking uses,
  and script data is read into the metadata, which may contain a keyframe table.

  \<^item> \<open>FlvParser\<close>: \<^verbatim>\<open>flvparser.c\<close>; the invariant of the state machine over all reachable states, memory
    safety and progress of the readers, and when a packet lies inside its tag.
  \<^item> \<open>FlvMetadata\<close>: \<^verbatim>\<open>flvmetadata.c\<close>; the contract of a value handler is the locale \<open>script_handler\<close>, whose
    lemmas give termination and memory safety of the object and array readers; it is interpreted on the
    skip handler for every nesting depth and on the value handler. The number of loop iterations and
    the nesting depth that the definitions carry are bounded by the number of bytes that are left, and
    the lemmas show that they never run out. The overflow of the keyframe table is characterised exactly.
  \<^item> \<open>FlvDemux\<close>, \<open>FlvDemuxProps\<close>: \<^verbatim>\<open>flvdemux.c\<close>; the seek index, byte accounting of the chain function for every
    behaviour of the pads and exactly when it has no defined result, independence of the buffer boundaries,
    and, over a source that serves ranges of a file, termination of indexing and the position a seek leads to.
    The pads of GStreamer are a parameter that answers every call as a function of all calls so far.

  \<^bold>\<open>The window manager.\<close> Java code creates windows and views, moves, shows and closes them; the input
  threads report mouse and touch events. The native code keeps the windows in a doubly linked list
  from the back to the front, decides which window has the focus, which one grabs it and which one an
  input event belongs to, and reports to Java. Windows and views are objects on a heap that is a
  partial map from addresses, so that a \<open>NULL\<close> pointer and a pointer to freed memory are both \<open>None\<close>. The
  static variables of the C files are one record, and every call to Java is an entry of a trace at
  its end. Each native function is one step: the mutexes are left out, and listeners that call back
  into the native code run after the function that notified them.

  \<^item> \<open>LensWindow\<close>: the records of \<^verbatim>\<open>LensCommon.h\<close> and the list of \<^verbatim>\<open>LensWindow.c\<close>; the list refines the
    z-order, an abstract list; the locale \<open>z_list\<close> is its contract, interpreted on the C functions.
  \<^item> \<open>LensWindowManager\<close>: the operations of \<^verbatim>\<open>LensWindowManager.c\<close> with the functions of \<^verbatim>\<open>LensWindow.c\<close>,
    \<^verbatim>\<open>LensView.c\<close>, \<^verbatim>\<open>LensApplication.c\<close> and \<^verbatim>\<open>LensInputEvents.c\<close> that they call.
  \<^item> \<open>LensInvariant\<close>: a calculus of postconditions and frames; every operation keeps the invariant.
  \<^item> \<open>LensSafety\<close>: closing of windows, views, the transition system of all calls (an inductive relation), its
    invariant and its safety.
  \<^item> \<open>LensProps\<close>: which window is hit, focus and grab, restoring of bounds, and three faults: a window that is
    closed during a drag is read after it was freed, the touch events that follow on the
    closing of a window that is touched are not delivered, and full screen mode loses the bounds of a maximised window.

  \<^bold>\<open>Input devices.\<close> The kernel sends events of an axis, a key or a button; a device queues them until the end of a
  report. Then the touch points of the report are matched with those of the last one, each gets an
  id and a state (pressed, moved, still, released), one of them is the primary point that also acts as the
  mouse, and the window manager is notified; a mouse moves the pointer and reports its buttons. Keys go to the
  window with the focus, with the mask of the modifiers. The arrays of a device have 20 entries; the loops over
  them are recursive functions over the number of entries.

  \<^item> \<open>LensKeys\<close>: the key map and the modifiers of \<^verbatim>\<open>LensInputEvents.c\<close>, key events of \<^verbatim>\<open>LensApplication.c\<close> and
    \<^verbatim>\<open>udevInput.c\<close>.
  \<^item> \<open>LensInput\<close>: pointer and touch devices of \<^verbatim>\<open>udevInput.c\<close>. The long function \<^verbatim>\<open>handleSync\<close> is the composition of
    its parts: reading the queue, the protocols of the devices, ids, states, notification, saving. The
    scaling of a position to the screen uses floats and is the parameter \<open>scale\<close>; the content of an array entry
    that was not assigned is the parameter \<open>uninit\<close>.
  \<^item> \<open>LensTouch\<close>: one contract per part: the queue (the locale \<open>event_queue\<close>, interpreted on the C function), the range of
    a report, the closest point, the assignment of ids, the states of the existing points.
  \<^item> \<open>LensTouchProps\<close>: the contract of the points of an event, the primary point, the notification and the invariant
    of a touch device, up to the handling of a whole report.
  \<^item> \<open>LensInputProps\<close>: the reachable states of a device (an inductive relation) and, in all of them, the
    protocol of touch events towards the window manager; when a report leaves the arrays; the queue as a list;
    the straight drag that a single touch device loses; the pointer of a mouse, modifiers and letters.
  \<^item> \<open>LensDevices\<close>: the list of devices of \<^verbatim>\<open>udevInput.c\<close>, how they are opened, announced to the application and
    released, hot plugging by udev, test devices that are described by a stream, and the reading of events
    from device files up to the call of the handlers. What the system answers (addresses, files, capabilities, \<open>read\<close>)
    is an argument of the operations.
  \<^item> \<open>LensDevicesProps\<close>: the links implement a list of devices (with the lemmas of \<open>LensWindow\<close> on linked
    lists), which hot plugging changes as the specification \<open>hot_plug\<close> says; the reachable states of the two
    threads, whose steps a lock separates; the announcements and withdrawals of devices balance; shutting
    down releases everything; the events do not depend on how the bytes arrive; a test device that
    cannot be opened is freed twice.

  \<^bold>\<open>Not modelled.\<close> Memory management and reference counts; calls into the Java virtual machine (field
  ids, pending exceptions apart from the ones the code throws); allocation failure of GLib, which aborts
  the process; the inverse trigonometric functions, which compute with floats; type
  registration, read-only queries and disposal of the demuxer; the shape rasteriser
  (\<^verbatim>\<open>native-prism\<close>), whose algorithms are about floating point accuracy; the OpenGL and Direct3D
  pipelines, the other window systems and font code, which are platform bindings; of Lens the start of its
  threads, its options, cursors, screens and the ports to frame buffers; the codec wrappers and
  threaded buffering elements of the media engine; and the vendored libraries.
\<close>

end
